(* ===== verification/Prelude.thy ===== *)
theory Prelude
  imports Main "HOL-Library.AList" "HOL-Library.Sublist"
begin

text \<open>
  Shared vocabulary of the development: results, 64-bit arithmetic written out over \<open>nat\<close>,
  hash maps as association lists, decimal printing, and the reading of relative paths that
  the Rust code does with \<open>Path::components\<close>. Lemmas that several components use are
  collected in the named theorems declared here.

  Conventions. A Rust \<open>Result\<close> is a sum with the error on the left; a method with
  \<open>&mut self\<close> takes the state and returns it with its result. A \<open>u64\<close> is a \<open>nat\<close>;
  every operation that can leave the range is one of the functions below, so that wrapping,
  saturation and checking stay visible. A \<open>HashMap\<close> is a list of pairs with distinct keys:
  the list order stands for the iteration order, which Rust leaves unspecified, and no theorem
  fixes it.
\<close>

section \<open>Collections of facts\<close>

named_theorems map_facts \<open>lookup laws of the hash maps\<close>
named_theorems step_defs \<open>definitions of operations, for case analysis over handlers\<close>

section \<open>Results and options\<close>

abbreviation Ok :: "'a \<Rightarrow> 'e + 'a" where "Ok \<equiv> Inr"
abbreviation Err :: "'e \<Rightarrow> 'e + 'a" where "Err \<equiv> Inl"

fun and_then :: "'e + 'a \<Rightarrow> ('a \<Rightarrow> 'e + 'b) \<Rightarrow> 'e + 'b" where
  "and_then (Inl e) f = Inl e"
| "and_then (Inr a) f = f a"

definition ensure :: "bool \<Rightarrow> 'e \<Rightarrow> 'e + unit" where
  "ensure b e = (if b then Ok () else Err e)"

fun is_ok :: "'e + 'a \<Rightarrow> bool" where
  "is_ok (Inl _) = False"
| "is_ok (Inr _) = True"

fun is_none_or :: "('a \<Rightarrow> bool) \<Rightarrow> 'a option \<Rightarrow> bool" where
  "is_none_or P None = True"
| "is_none_or P (Some x) = P x"

fun is_some_and :: "('a \<Rightarrow> bool) \<Rightarrow> 'a option \<Rightarrow> bool" where
  "is_some_and P None = False"
| "is_some_and P (Some x) = P x"

lemma ensure_Ok [simp]: "ensure b e = Inr u \<longleftrightarrow> b"
  by (simp add: ensure_def)

lemma ensure_Err [simp]: "ensure b e = Inl e' \<longleftrightarrow> \<not> b \<and> e' = e"
  by (auto simp: ensure_def)

lemma and_then_Ok [simp]: "and_then r f = Inr b \<longleftrightarrow> (\<exists>a. r = Inr a \<and> f a = Inr b)"
  by (cases r) auto

lemma and_then_Err:
  "and_then r f = Inl e \<longleftrightarrow> r = Inl e \<or> (\<exists>a. r = Inr a \<and> f a = Inl e)"
  by (cases r) auto

lemma is_none_or_iff: "is_none_or P x \<longleftrightarrow> (\<forall>y. x = Some y \<longrightarrow> P y)"
  by (cases x) auto

lemma is_some_and_iff: "is_some_and P x \<longleftrightarrow> (\<exists>y. x = Some y \<and> P y)"
  by (cases x) auto

lemma find_SomeD: "List.find P xs = Some x \<Longrightarrow> x \<in> set xs \<and> P x"
  by (induction xs) (auto split: if_splits)

lemma find_None_eq: "List.find P xs = None \<longleftrightarrow> (\<forall>x \<in> set xs. \<not> P x)"
  by (induction xs) auto

section \<open>Unsigned 64-bit arithmetic\<close>

type_synonym u64 = nat

definition u64_max :: nat where
  "u64_max = 18446744073709551615"

definition sat_add64 :: "u64 \<Rightarrow> u64 \<Rightarrow> u64" where
  "sat_add64 a b = min (a + b) u64_max"

definition checked_add64 :: "u64 \<Rightarrow> u64 \<Rightarrow> u64 option" where
  "checked_add64 a b = (if a + b \<le> u64_max then Some (a + b) else None)"

definition wrap_add64 :: "u64 \<Rightarrow> u64 \<Rightarrow> u64" where
  "wrap_add64 a b = (a + b) mod (u64_max + 1)"

lemma u64_max_power: "u64_max + 1 = 2 ^ 64"
  by (simp add: u64_max_def)

lemma sat_add64_le_max: "sat_add64 a b \<le> u64_max"
  by (simp add: sat_add64_def)

lemma sat_add64_ge: "a \<le> u64_max \<Longrightarrow> a \<le> sat_add64 a b"
  by (simp add: sat_add64_def)

lemma sat_add64_exact: "a + b \<le> u64_max \<Longrightarrow> sat_add64 a b = a + b"
  by (simp add: sat_add64_def)

lemma checked_add64_Some: "checked_add64 a b = Some c \<longleftrightarrow> c = a + b \<and> a + b \<le> u64_max"
  by (auto simp: checked_add64_def)

lemma checked_add64_None: "checked_add64 a b = None \<longleftrightarrow> u64_max < a + b"
  by (auto simp: checked_add64_def)

lemma wrap_add64_exact: "a + b \<le> u64_max \<Longrightarrow> wrap_add64 a b = a + b"
  by (simp add: wrap_add64_def)

section \<open>Hash maps as association lists\<close>

type_synonym ('k, 'v) hash_map = "('k \<times> 'v) list"

definition hm_get :: "('k, 'v) hash_map \<Rightarrow> 'k \<Rightarrow> 'v option" where
  "hm_get m k = map_of m k"

definition hm_insert :: "'k \<Rightarrow> 'v \<Rightarrow> ('k, 'v) hash_map \<Rightarrow> ('k, 'v) hash_map" where
  "hm_insert k v m = AList.update k v m"

definition hm_remove :: "'k \<Rightarrow> ('k, 'v) hash_map \<Rightarrow> ('k, 'v) hash_map" where
  "hm_remove k m = AList.delete k m"

definition hm_has :: "('k, 'v) hash_map \<Rightarrow> 'k \<Rightarrow> bool" where
  "hm_has m k = (hm_get m k \<noteq> None)"

definition hm_keys :: "('k, 'v) hash_map \<Rightarrow> 'k list" where
  "hm_keys m = map fst m"

definition hm_wf :: "('k, 'v) hash_map \<Rightarrow> bool" where
  "hm_wf m = distinct (map fst m)"

lemma hm_get_empty [simp, map_facts]: "hm_get [] k = None"
  by (simp add: hm_get_def)

lemma hm_get_insert [simp, map_facts]:
  "hm_get (hm_insert k v m) j = (if j = k then Some v else hm_get m j)"
  by (simp add: hm_get_def hm_insert_def update_conv)

lemma hm_get_remove [simp, map_facts]:
  "hm_get (hm_remove k m) j = (if j = k then None else hm_get m j)"
  by (simp add: hm_get_def hm_remove_def delete_conv)

lemma hm_has_empty [simp]: "hm_has [] k = False"
  by (simp add: hm_has_def)

lemma hm_has_insert [simp, map_facts]: "hm_has (hm_insert k v m) j \<longleftrightarrow> j = k \<or> hm_has m j"
  by (simp add: hm_has_def)

lemma hm_has_remove [simp, map_facts]: "hm_has (hm_remove k m) j \<longleftrightarrow> j \<noteq> k \<and> hm_has m j"
  by (simp add: hm_has_def)

lemma hm_wf_empty [simp]: "hm_wf []"
  by (simp add: hm_wf_def)

lemma hm_wf_insert [simp, intro]: "hm_wf m \<Longrightarrow> hm_wf (hm_insert k v m)"
  by (simp add: hm_wf_def hm_insert_def distinct_update)

lemma hm_wf_remove [simp, intro]: "hm_wf m \<Longrightarrow> hm_wf (hm_remove k m)"
  by (simp add: hm_wf_def hm_remove_def distinct_delete)

lemma hm_wf_filter [simp, intro]: "hm_wf m \<Longrightarrow> hm_wf (filter P m)"
  by (simp add: hm_wf_def distinct_map_filter)

lemma hm_get_in_set: "hm_get m k = Some v \<Longrightarrow> (k, v) \<in> set m"
  by (simp add: hm_get_def map_of_SomeD)

lemma hm_in_set_get: "hm_wf m \<Longrightarrow> (k, v) \<in> set m \<longleftrightarrow> hm_get m k = Some v"
  by (simp add: hm_wf_def hm_get_def)

lemma hm_has_keys: "hm_has m k \<longleftrightarrow> k \<in> set (hm_keys m)"
  by (simp add: hm_has_def hm_get_def hm_keys_def map_of_eq_None_iff)

lemma hm_get_filter:
  "hm_wf m \<Longrightarrow> hm_get (filter P m) k =
     (case hm_get m k of None \<Rightarrow> None | Some v \<Rightarrow> if P (k, v) then Some v else None)"
proof (induction m)
  case Nil
  then show ?case by simp
next
  case (Cons p m)
  obtain a b where p: "p = (a, b)" by (cases p)
  from Cons.prems p have wf: "hm_wf m" and fresh: "hm_get m a = None"
    by (auto simp: hm_wf_def hm_get_def map_of_eq_None_iff)
  then show ?case
    using Cons.IH p by (auto simp: hm_get_def split: option.splits)
qed

lemma hm_remove_fresh: "hm_get m k = None \<Longrightarrow> hm_remove k m = m"
  by (simp add: hm_get_def hm_remove_def delete_id map_of_eq_None_iff)

lemma hm_insert_fresh: "hm_get m k = None \<Longrightarrow> hm_insert k v m = m @ [(k, v)]"
  by (induction m) (auto simp: hm_get_def hm_insert_def split: if_splits)

lemma length_hm_insert:
  "length (hm_insert k v m) = (if hm_has m k then length m else Suc (length m))"
  by (induction m) (auto simp: hm_has_def hm_get_def hm_insert_def)

lemma hm_insert_idem: "hm_get m k = Some v \<Longrightarrow> hm_insert k v m = m"
  by (induction m) (auto simp: hm_get_def hm_insert_def split: if_splits)

lemma length_hm_remove_le: "length (hm_remove k m) \<le> length m"
  by (simp add: hm_remove_def length_delete_le)

lemma set_hm_remove: "set (hm_remove k m) = {p \<in> set m. fst p \<noteq> k}"
  by (auto simp: hm_remove_def AList.delete_eq)

lemma set_hm_insert_subset: "set (hm_insert k v m) \<subseteq> insert (k, v) (set m)"
  by (induction m) (auto simp: hm_insert_def split: if_splits)

text \<open>
  The interface the components rely on: a keyed store whose lookups see exactly the inserts and
  removals made, under an invariant every operation keeps.
\<close>

locale keyed_store =
  fixes lookup :: "'m \<Rightarrow> 'k \<Rightarrow> 'v option"
    and put :: "'k \<Rightarrow> 'v \<Rightarrow> 'm \<Rightarrow> 'm"
    and del :: "'k \<Rightarrow> 'm \<Rightarrow> 'm"
    and void :: "'m"
    and inv :: "'m \<Rightarrow> bool"
  assumes void_law: "lookup void k = None" and inv_void: "inv void"
    and put_law: "lookup (put k v m) j = (if j = k then Some v else lookup m j)"
    and del_law: "lookup (del k m) j = (if j = k then None else lookup m j)"
    and inv_put: "inv m \<Longrightarrow> inv (put k v m)"
    and inv_del: "inv m \<Longrightarrow> inv (del k m)"
begin

lemma fold_put_other: "k \<notin> set ks \<Longrightarrow> lookup (fold (\<lambda>j. put j (f j)) ks m) k = lookup m k"
  by (induction ks arbitrary: m) (auto simp: put_law)

lemma fold_put_same: "k \<in> set ks \<Longrightarrow> lookup (fold (\<lambda>j. put j (f j)) ks m) k = Some (f k)"
proof (induction ks arbitrary: m)
  case Nil
  then show ?case by simp
next
  case (Cons a ks)
  then show ?case by (cases "k \<in> set ks") (auto simp: fold_put_other put_law)
qed

lemma fold_del: "lookup (fold del ks m) k = (if k \<in> set ks then None else lookup m k)"
  by (induction ks arbitrary: m) (auto simp: del_law)

lemma inv_fold_put: "inv m \<Longrightarrow> inv (fold (\<lambda>j. put j (f j)) ks m)"
  by (induction ks arbitrary: m) (auto intro: inv_put)

lemma inv_fold_del: "inv m \<Longrightarrow> inv (fold del ks m)"
  by (induction ks arbitrary: m) (auto intro: inv_del)

end

interpretation hm: keyed_store hm_get hm_insert hm_remove "[]" hm_wf
  by unfold_locales auto

section \<open>Machines that keep an invariant\<close>

text \<open>
  Every component is an operation function over its state. An invariant that holds initially and
  is kept by one operation holds after every run.
\<close>

locale invariant_machine =
  fixes step :: "'op \<Rightarrow> 's \<Rightarrow> 's"
    and inv :: "'s \<Rightarrow> bool"
  assumes step_inv: "inv s \<Longrightarrow> inv (step opn s)"
begin

lemma run_inv: "inv s \<Longrightarrow> inv (fold step ops s)"
  by (induction ops arbitrary: s) (auto intro: step_inv)

end

text \<open>
  A machine with a bounded counter: each operation keeps the invariant while the counter is below
  the cap and moves it by at most one, so the invariant survives every run the cap leaves room for.
\<close>

locale budgeted_machine =
  fixes step :: "'op \<Rightarrow> 's \<Rightarrow> 's"
    and inv :: "'s \<Rightarrow> bool"
    and cost :: "'s \<Rightarrow> nat"
    and cap :: nat
  assumes step_budget: "inv s \<Longrightarrow> cost s < cap \<Longrightarrow> inv (step opn s) \<and> cost (step opn s) \<le> cost s + 1"
begin

lemma run_budget:
  "inv s \<Longrightarrow> cost s + length ops \<le> cap \<Longrightarrow>
     inv (fold step ops s) \<and> cost (fold step ops s) \<le> cost s + length ops"
proof (induction ops arbitrary: s)
  case Nil
  then show ?case by simp
next
  case (Cons x ops)
  have a: "inv (step x s)" "cost (step x s) \<le> cost s + 1"
    using step_budget [of s x] Cons.prems by auto
  then have "cost (step x s) + length ops \<le> cap" using Cons.prems by simp
  from Cons.IH [OF a(1) this] a(2) show ?case by simp
qed

end

section \<open>Decimal printing\<close>

definition digit_char :: "nat \<Rightarrow> char" where
  "digit_char d = char_of (48 + d)"

fun show_nat :: "nat \<Rightarrow> string" where
  "show_nat n = (if n < 10 then [digit_char n] else show_nat (n div 10) @ [digit_char (n mod 10)])"

declare show_nat.simps [simp del]

definition read_nat :: "string \<Rightarrow> nat" where
  "read_nat s = foldl (\<lambda>a c. 10 * a + (of_char c - 48)) 0 s"

lemma of_digit_char: "d < 10 \<Longrightarrow> of_char (digit_char d) = 48 + d"
  by (simp add: digit_char_def)

lemma read_show_nat [simp]: "read_nat (show_nat n) = n"
proof (induction n rule: show_nat.induct)
  case (1 n)
  show ?case
  proof (cases "n < 10")
    case True
    then show ?thesis by (simp add: show_nat.simps [of n] read_nat_def of_digit_char)
  next
    case False
    then have "read_nat (show_nat (n div 10)) = n div 10" using "1.IH" by simp
    then show ?thesis
      using False by (simp add: show_nat.simps [of n] read_nat_def of_digit_char)
  qed
qed

lemma show_nat_inject [simp]: "show_nat a = show_nat b \<longleftrightarrow> a = b"
  by (metis read_show_nat)

lemma show_nat_digits: "c \<in> set (show_nat n) \<Longrightarrow> 48 \<le> (of_char c :: nat) \<and> (of_char c :: nat) \<le> 57"
proof (induction n arbitrary: c rule: show_nat.induct)
  case (1 n)
  then show ?case
    by (subst (asm) (2) show_nat.simps) (auto simp: of_digit_char split: if_splits)
qed

lemma show_nat_nonempty [simp]: "show_nat n \<noteq> []"
  by (subst show_nat.simps) simp

end
