(* ===== verification/Paths.thy ===== *)
theory Paths
  imports Prelude
begin

text \<open>
  Strings and relative paths as the standard library reads them: \<open>str::split\<close>,
  \<open>str::trim\<close> on UTF-8 bytes, ASCII character classes, and \<open>Path::components\<close> of the Unix
  build. The code confines every client-supplied name by asking that all components of the path
  are \<open>Normal\<close>; the lemmas here say what that accepts and that such a path stays below the
  directory it is joined to.
\<close>

section \<open>Characters\<close>

definition byte_of :: "char \<Rightarrow> nat" where
  "byte_of c = of_char c"

definition is_ascii_digit :: "char \<Rightarrow> bool" where
  "is_ascii_digit c = (48 \<le> byte_of c \<and> byte_of c \<le> 57)"

definition is_ascii_lowercase :: "char \<Rightarrow> bool" where
  "is_ascii_lowercase c = (97 \<le> byte_of c \<and> byte_of c \<le> 122)"

definition is_ascii_uppercase :: "char \<Rightarrow> bool" where
  "is_ascii_uppercase c = (65 \<le> byte_of c \<and> byte_of c \<le> 90)"

definition is_ascii_alphanumeric :: "char \<Rightarrow> bool" where
  "is_ascii_alphanumeric c = (is_ascii_digit c \<or> is_ascii_lowercase c \<or> is_ascii_uppercase c)"

definition to_ascii_lowercase :: "char \<Rightarrow> char" where
  "to_ascii_lowercase c = (if is_ascii_uppercase c then char_of (byte_of c + 32) else c)"

lemmas char_class_defs = is_ascii_digit_def is_ascii_lowercase_def is_ascii_uppercase_def
  is_ascii_alphanumeric_def byte_of_def

section \<open>Trimming\<close>

text \<open>
  The UTF-8 encodings of the code points with the Unicode property \<open>White_Space\<close>, which
  \<open>str::trim\<close> removes at both ends.
\<close>

definition ws_codes :: "nat list list" where
  "ws_codes = [[9], [10], [11], [12], [13], [32], [194, 133], [194, 160], [225, 154, 128],
     [226, 128, 128], [226, 128, 129], [226, 128, 130], [226, 128, 131], [226, 128, 132],
     [226, 128, 133], [226, 128, 134], [226, 128, 135], [226, 128, 136], [226, 128, 137],
     [226, 128, 138], [226, 128, 168], [226, 128, 169], [226, 128, 175], [226, 129, 159],
     [227, 128, 128]]"

definition strip_code :: "nat list list \<Rightarrow> string \<Rightarrow> nat" where
  "strip_code codes s =
     (case List.find (\<lambda>w. take (length w) (map byte_of s) = w) codes of
        None \<Rightarrow> 0 | Some w \<Rightarrow> length w)"

function strip_all :: "nat list list \<Rightarrow> string \<Rightarrow> string" where
  "strip_all codes s =
     (if s = [] \<or> strip_code codes s = 0 then s else strip_all codes (drop (strip_code codes s) s))"
  by pat_completeness auto
termination
  by (relation "measure (\<lambda>(_, s). length s)") auto

declare strip_all.simps [simp del]

definition trim :: "string \<Rightarrow> string" where
  "trim s = rev (strip_all (map rev ws_codes) (rev (strip_all ws_codes s)))"

lemma strip_all_length: "length (strip_all codes s) \<le> length s"
proof (induction codes s rule: strip_all.induct)
  case (1 codes s)
  show ?case
  proof (cases "s = [] \<or> strip_code codes s = 0")
    case True
    then show ?thesis by (simp add: strip_all.simps [of codes s])
  next
    case False
    with "1.IH" have "length (strip_all codes (drop (strip_code codes s) s))
        \<le> length (drop (strip_code codes s) s)" by simp
    then have "length (strip_all codes (drop (strip_code codes s) s)) \<le> length s" by simp
    with False show ?thesis by (simp add: strip_all.simps [of codes s])
  qed
qed

lemma strip_all_fixed: "strip_all codes s = [] \<or> strip_code codes (strip_all codes s) = 0"
proof (induction codes s rule: strip_all.induct)
  case (1 codes s)
  show ?case
  proof (cases "s = [] \<or> strip_code codes s = 0")
    case True
    then show ?thesis by (auto simp: strip_all.simps [of codes s])
  next
    case False
    with "1.IH" show ?thesis by (simp add: strip_all.simps [of codes s])
  qed
qed

lemma strip_all_suffix: "suffix (strip_all codes s) s"
proof (induction codes s rule: strip_all.induct)
  case (1 codes s)
  show ?case
  proof (cases "s = [] \<or> strip_code codes s = 0")
    case True
    then show ?thesis by (simp add: strip_all.simps [of codes s])
  next
    case False
    with "1.IH" show ?thesis
      by (metis strip_all.simps suffix_drop suffix_order.trans)
  qed
qed

lemma trim_length: "length (trim s) \<le> length s"
  unfolding trim_def using strip_all_length le_trans by (metis length_rev)

lemma strip_code_zero:
  assumes "\<forall>w \<in> set codes. w \<noteq> []"
  shows "strip_code codes s = 0 \<longleftrightarrow> (\<forall>w \<in> set codes. take (length w) (map byte_of s) \<noteq> w)"
proof (cases "List.find (\<lambda>w. take (length w) (map byte_of s) = w) codes")
  case None
  then have "strip_code codes s = 0" by (simp add: strip_code_def)
  moreover have "\<forall>w \<in> set codes. take (length w) (map byte_of s) \<noteq> w"
    using None by (simp add: find_None_eq)
  ultimately show ?thesis by simp
next
  case (Some w)
  from find_SomeD [OF Some] assms Some show ?thesis by (auto simp: strip_code_def)
qed

lemma take_map_prefix:
  assumes "take (length w) (map byte_of t) = w"
  shows "take (length w) (map byte_of (t @ u)) = w"
proof -
  have "length (take (length w) (map byte_of t)) = length w" using assms by simp
  then have "length w \<le> length t" by (simp add: min_def split: if_splits)
  then show ?thesis using assms by simp
qed

lemma strip_code_prefix:
  assumes ne: "\<forall>w \<in> set codes. w \<noteq> []" and zero: "strip_code codes (t @ u) = 0"
  shows "strip_code codes t = 0"
  unfolding strip_code_zero [OF ne]
proof
  fix w assume "w \<in> set codes"
  then have "take (length w) (map byte_of (t @ u)) \<noteq> w" using zero strip_code_zero [OF ne] by blast
  then show "take (length w) (map byte_of t) \<noteq> w" using take_map_prefix by blast
qed

lemma strip_all_id: "s = [] \<or> strip_code codes s = 0 \<Longrightarrow> strip_all codes s = s"
  by (subst strip_all.simps) simp

lemma ws_codes_nonempty: "\<forall>w \<in> set ws_codes. w \<noteq> []" "\<forall>w \<in> set (map rev ws_codes). w \<noteq> []"
  by (simp_all add: ws_codes_def)

lemma strip_all_keeps_front:
  assumes "strip_code ws_codes a = 0"
  shows "strip_code ws_codes (rev (strip_all codes (rev a))) = 0"
proof -
  obtain u where "rev a = u @ strip_all codes (rev a)" using strip_all_suffix suffixE by metis
  then have "a = rev (strip_all codes (rev a)) @ rev u" by (metis rev_append rev_rev_ident)
  then show ?thesis using assms strip_code_prefix [OF ws_codes_nonempty(1)] by metis
qed

lemma trim_trim [simp]: "trim (trim s) = trim s"
proof -
  let ?a = "strip_all ws_codes s"
  let ?b = "strip_all (map rev ws_codes) (rev ?a)"
  have front: "rev ?b = [] \<or> strip_code ws_codes (rev ?b) = 0"
  proof (cases "?a = []")
    case True
    then have "?b = []" by (simp add: strip_all_id)
    then show ?thesis by simp
  next
    case False
    then have "strip_code ws_codes ?a = 0" using strip_all_fixed by blast
    then show ?thesis by (simp add: strip_all_keeps_front)
  qed
  have rear: "strip_all (map rev ws_codes) ?b = ?b"
    using strip_all_fixed [of "map rev ws_codes" "rev ?a"] by (simp add: strip_all_id)
  show ?thesis unfolding trim_def by (simp add: strip_all_id [OF front] rear)
qed

section \<open>Searching\<close>

text \<open>\<open>str::contains\<close>.\<close>

fun str_contains :: "string \<Rightarrow> string \<Rightarrow> bool" where
  "str_contains [] pat = (pat = [])"
| "str_contains (c # s) pat = (prefix pat (c # s) \<or> str_contains s pat)"

lemma str_contains_iff: "str_contains s pat \<longleftrightarrow> sublist pat s"
proof (induction s)
  case Nil
  then show ?case by simp
next
  case (Cons c s)
  then show ?case by (simp add: sublist_Cons_right)
qed

section \<open>Splitting\<close>

fun split_on :: "char \<Rightarrow> string \<Rightarrow> string list" where
  "split_on c [] = [[]]"
| "split_on c (x # xs) =
     (if x = c then [] # split_on c xs
      else case split_on c xs of [] \<Rightarrow> [[x]] | s # ss \<Rightarrow> (x # s) # ss)"

lemma split_on_nonempty [simp]: "split_on c s \<noteq> []"
  by (induction c s rule: split_on.induct) (auto split: list.splits)

lemma split_on_no_sep: "p \<in> set (split_on c s) \<Longrightarrow> c \<notin> set p"
proof (induction c s arbitrary: p rule: split_on.induct)
  case (1 c)
  then show ?case by simp
next
  case (2 c x xs)
  show ?case
  proof (cases "x = c")
    case True
    with 2 show ?thesis by auto
  next
    case False
    obtain q qs where q: "split_on c xs = q # qs" by (cases "split_on c xs") auto
    from 2(2) [OF False] have "\<And>r. r \<in> set (q # qs) \<Longrightarrow> c \<notin> set r" by (simp add: q)
    with "2.prems" False q show ?thesis by auto
  qed
qed

lemma hd_split_on: "hd (split_on c s) = takeWhile (\<lambda>x. x \<noteq> c) s"
proof (induction c s rule: split_on.induct)
  case (1 c)
  then show ?case by simp
next
  case (2 c x xs)
  obtain q qs where q: "split_on c xs = q # qs" by (cases "split_on c xs") auto
  then show ?case using 2 by (cases "x = c") auto
qed

lemma split_on_append: "c \<notin> set a \<Longrightarrow> split_on c (a @ c # b) = a # split_on c b"
  by (induction a) auto

lemma split_on_id: "c \<notin> set a \<Longrightarrow> split_on c a = [a]"
  by (induction a) auto

section \<open>Path components (Unix)\<close>

datatype component = RootDir | CurDir | ParentDir | Normal string

definition segment_component :: "string \<Rightarrow> component list" where
  "segment_component s =
     (if s = [] \<or> s = ''.'' then [] else if s = ''..'' then [ParentDir] else [Normal s])"

definition is_absolute :: "string \<Rightarrow> bool" where
  "is_absolute p = (p \<noteq> [] \<and> hd p = CHR ''/'')"

definition path_components :: "string \<Rightarrow> component list" where
  "path_components p =
     (let segs = split_on (CHR ''/'') p
      in (if is_absolute p then [RootDir] else if hd segs = ''.'' then [CurDir] else [])
         @ concat (map segment_component segs))"

fun is_normal :: "component \<Rightarrow> bool" where
  "is_normal (Normal _) = True"
| "is_normal _ = False"

definition relative_normal :: "string \<Rightarrow> bool" where
  "relative_normal p =
     (p \<noteq> [] \<and> \<not> is_absolute p \<and> list_all is_normal (path_components p))"

text \<open>How the operating system walks a path from a directory, given as its list of names.\<close>

fun walk :: "string list \<Rightarrow> component list \<Rightarrow> string list" where
  "walk dir [] = dir"
| "walk dir (RootDir # cs) = walk [] cs"
| "walk dir (CurDir # cs) = walk dir cs"
| "walk dir (ParentDir # cs) = walk (butlast dir) cs"
| "walk dir (Normal s # cs) = walk (dir @ [s]) cs"

fun component_name :: "component \<Rightarrow> string" where
  "component_name (Normal s) = s"
| "component_name _ = []"

lemma walk_normal:
  "list_all is_normal cs \<Longrightarrow> walk dir cs = dir @ map component_name cs"
proof (induction cs arbitrary: dir)
  case Nil
  then show ?case by simp
next
  case (Cons c cs)
  then show ?case by (cases c) auto
qed

lemma relative_normal_components_nonempty:
  assumes "relative_normal p" shows "path_components p \<noteq> []"
proof -
  from assms have ne: "p \<noteq> []" and rel: "\<not> is_absolute p"
    and norm: "list_all is_normal (path_components p)"
    by (auto simp: relative_normal_def)
  let ?s = "hd (split_on (CHR ''/'') p)"
  have "?s \<noteq> []"
    unfolding hd_split_on using ne rel by (cases p) (auto simp: is_absolute_def)
  moreover have "?s \<noteq> ''.''"
    using norm rel by (auto simp: path_components_def Let_def)
  ultimately have "segment_component ?s \<noteq> []" by (simp add: segment_component_def)
  moreover have "?s \<in> set (split_on (CHR ''/'') p)" by simp
  ultimately show ?thesis by (auto simp: path_components_def Let_def)
qed

lemma walk_confined:
  assumes "relative_normal p"
  shows "\<exists>names. names \<noteq> [] \<and> walk dir (path_components p) = dir @ names"
  using assms relative_normal_components_nonempty [OF assms] walk_normal
  by (metis map_is_Nil_conv relative_normal_def)

lemma relative_normal_no_parent:
  "relative_normal p \<Longrightarrow> ParentDir \<notin> set (path_components p)"
  by (auto simp: relative_normal_def list_all_iff)

end
