(* ===== verification/Protocol.thy ===== *)
theory Protocol
  imports Paths
begin

text \<open>
  The wire vocabulary (\<open>lib.rs\<close>: modules \<open>network_processes\<close> and \<open>remote_apple_protocol\<close>):
  host inventories, jobs, events, artifacts, lease grants, Apple requests, and the envelope check
  every Apple request passes before the registry or an agent accepts it.
\<close>

section \<open>Apple requests\<close>

record remote_protocol_version =
  rv_major :: nat
  rv_minor :: nat

datatype apple_operation =
    Discovery
  | PhysicalDevice
  | Diagnostics
  | DiscoverProject string
  | DiscoverSimulator
  | BuildApp string string string
  | InstallApp string
  | LaunchApp string
  | ReadAppLogs string
  | RunXcTest string string string
  | HardwareGate string

fun apple_capability :: "apple_operation \<Rightarrow> string" where
  "apple_capability Discovery = ''apple.discovery@1''"
| "apple_capability PhysicalDevice = ''apple.device@1''"
| "apple_capability Diagnostics = ''apple.diagnostics@1''"
| "apple_capability (DiscoverProject _) = ''apple.project@1''"
| "apple_capability DiscoverSimulator = ''apple.simulator@1''"
| "apple_capability (BuildApp _ _ _) = ''apple.build@1''"
| "apple_capability (InstallApp _) = ''apple.simulator@1''"
| "apple_capability (LaunchApp _) = ''apple.simulator@1''"
| "apple_capability (ReadAppLogs _) = ''apple.simulator@1''"
| "apple_capability (RunXcTest _ _ _) = ''apple.xctest@1''"
| "apple_capability (HardwareGate _) = ''apple.hardware-gate@1''"

fun requires_device :: "apple_operation \<Rightarrow> bool" where
  "requires_device PhysicalDevice = True"
| "requires_device Diagnostics = True"
| "requires_device (InstallApp _) = True"
| "requires_device (LaunchApp _) = True"
| "requires_device (ReadAppLogs _) = True"
| "requires_device (RunXcTest _ _ _) = True"
| "requires_device (HardwareGate _) = True"
| "requires_device _ = False"

fun mutates_device :: "apple_operation \<Rightarrow> bool" where
  "mutates_device PhysicalDevice = True"
| "mutates_device Diagnostics = True"
| "mutates_device (InstallApp _) = True"
| "mutates_device (LaunchApp _) = True"
| "mutates_device (RunXcTest _ _ _) = True"
| "mutates_device (HardwareGate _) = True"
| "mutates_device _ = False"

record apple_request =
  ar_version :: remote_protocol_version
  ar_request_id :: string
  ar_idempotency_key :: string
  ar_capability :: string
  ar_workspace_path :: string
  ar_device_id :: "string option"
  ar_lease_id :: "string option"
  ar_operation :: apple_operation

datatype protocol_error = ProtocolError (pe_code: string) (pe_message: string)

section \<open>The request envelope\<close>

definition valid_text :: "string \<Rightarrow> bool" where
  "valid_text value = (trim value \<noteq> [])"

definition valid_bundle :: "string \<Rightarrow> bool" where
  "valid_bundle value =
     (CHR ''.'' \<in> set value
      \<and> list_all (\<lambda>c. is_ascii_alphanumeric c \<or> c = CHR ''.'' \<or> c = CHR ''-'') value)"

fun valid_parameters :: "apple_operation \<Rightarrow> bool" where
  "valid_parameters (DiscoverProject container) = relative_normal container"
| "valid_parameters (BuildApp container scheme destination) =
     (relative_normal container \<and> valid_text scheme \<and> valid_text destination)"
| "valid_parameters (RunXcTest container scheme destination) =
     (relative_normal container \<and> valid_text scheme \<and> valid_text destination)"
| "valid_parameters (InstallApp app_path) = relative_normal app_path"
| "valid_parameters (LaunchApp bundle_id) = valid_bundle bundle_id"
| "valid_parameters (ReadAppLogs bundle_id) = valid_bundle bundle_id"
| "valid_parameters (HardwareGate team_id) =
     (length team_id = 10 \<and> list_all (\<lambda>c. is_ascii_uppercase c \<or> is_ascii_digit c) team_id)"
| "valid_parameters _ = True"

definition valid_identifier :: "string \<Rightarrow> bool" where
  "valid_identifier identifier =
     (identifier \<noteq> []
      \<and> list_all (\<lambda>c. is_ascii_alphanumeric c \<or> c = CHR ''-'' \<or> c = CHR ''_'' \<or> c = CHR ''.'')
          identifier)"

definition validate_request_envelope :: "apple_request \<Rightarrow> protocol_error + unit" where
  "validate_request_envelope r =
     (if ar_version r \<noteq> \<lparr>rv_major = 1, rv_minor = 0\<rparr>
      then Err (ProtocolError ''unsupported_version'' ''unsupported protocol version'')
      else if ar_request_id r = [] \<or> ar_idempotency_key r = []
      then Err (ProtocolError ''invalid_request'' ''request identifiers must not be empty'')
      else if ar_capability r \<noteq> apple_capability (ar_operation r)
      then Err (ProtocolError ''unsupported_capability'' ''capability does not match the operation'')
      else if \<not> relative_normal (ar_workspace_path r)
      then Err (ProtocolError ''workspace_path_denied'' ''workspace path is outside the workspace'')
      else if requires_device (ar_operation r) \<and> ar_device_id r = None
      then Err (ProtocolError ''unknown_device'' ''device is not available'')
      else if \<not> valid_parameters (ar_operation r)
      then Err (ProtocolError ''invalid_apple_parameter'' ''apple operation parameter is invalid'')
      else if \<not> is_none_or valid_identifier (ar_device_id r)
              \<or> \<not> is_none_or valid_identifier (ar_lease_id r)
      then Err (ProtocolError ''invalid_request'' ''device or lease identifier is invalid'')
      else Ok ())"

definition same_operation :: "apple_request \<Rightarrow> apple_request \<Rightarrow> bool" where
  "same_operation l r =
     (ar_version l = ar_version r \<and> ar_capability l = ar_capability r
      \<and> ar_workspace_path l = ar_workspace_path r \<and> ar_device_id l = ar_device_id r
      \<and> ar_lease_id l = ar_lease_id r \<and> ar_operation l = ar_operation r)"

lemma mutates_requires_device: "mutates_device op \<Longrightarrow> requires_device op"
  by (cases op) auto

text \<open>An accepted envelope, as one conjunction: the form the handlers' proofs use.\<close>

lemma envelope_ok_iff:
  "validate_request_envelope r = Inr () \<longleftrightarrow>
     ar_version r = \<lparr>rv_major = 1, rv_minor = 0\<rparr> \<and> ar_request_id r \<noteq> []
     \<and> ar_idempotency_key r \<noteq> [] \<and> ar_capability r = apple_capability (ar_operation r)
     \<and> relative_normal (ar_workspace_path r)
     \<and> (requires_device (ar_operation r) \<longrightarrow> ar_device_id r \<noteq> None)
     \<and> valid_parameters (ar_operation r) \<and> is_none_or valid_identifier (ar_device_id r)
     \<and> is_none_or valid_identifier (ar_lease_id r)"
  by (auto simp: validate_request_envelope_def)

lemma same_operation_equiv:
  "same_operation r r" "same_operation l r \<Longrightarrow> same_operation r l"
  "same_operation l m \<Longrightarrow> same_operation m r \<Longrightarrow> same_operation l r"
  by (auto simp: same_operation_def)

section \<open>Registry messages\<close>

record manifest_upload =
  mu_path :: string
  mu_contents :: string

record run_request =
  rr_principal_id :: string
  rr_host_id :: string
  rr_device_id :: string
  rr_workspace_id :: string
  rr_request_id :: string
  rr_manifest :: "manifest_upload list"

record network_event =
  ne_sequence :: u64
  ne_kind :: string
  ne_payload :: string

record audit_record =
  au_principal_id :: string
  au_host_id :: string
  au_device_id :: string
  au_workspace_id :: string
  au_job_id :: string
  au_result :: string

record device_snapshot =
  ds_id :: string
  ds_platform :: string
  ds_state :: string

record host_snapshot =
  hs_id :: string
  hs_operating_system :: string
  hs_architecture :: string
  hs_status :: string
  hs_capabilities :: "string list"
  hs_devices :: "device_snapshot list"

record network_artifact_metadata =
  am_id :: string
  am_job_id :: string
  am_name :: string
  am_media_type :: string
  am_total_size :: u64
  am_sha256 :: string

record artifact_chunk =
  ac_offset :: u64
  ac_total_size :: u64
  ac_sha256 :: string
  ac_bytes :: string

record lease_grant =
  lg_lease_id :: string
  lg_device_id :: string
  lg_client_id :: string
  lg_job_id :: string
  lg_expires_at_ms :: u64
  lg_signature :: string

datatype lease_request =
    Acquire string u64
  | Renew string u64
  | Queue string u64
  | Release string
  | Revoke string
  | Validate lease_grant
  | Disconnect
  | AgentDetach string

abbreviation NUL :: char where "NUL \<equiv> CHR 0x00"

definition signed_payload :: "lease_grant \<Rightarrow> string" where
  "signed_payload g =
     lg_lease_id g @ [NUL] @ lg_device_id g @ [NUL] @ lg_client_id g @ [NUL] @ lg_job_id g @ [NUL]
     @ show_nat (lg_expires_at_ms g)"

definition nul_free :: "lease_grant \<Rightarrow> bool" where
  "nul_free g = (NUL \<notin> set (lg_lease_id g) \<and> NUL \<notin> set (lg_device_id g)
     \<and> NUL \<notin> set (lg_client_id g) \<and> NUL \<notin> set (lg_job_id g))"

lemma show_nat_nul_free: "NUL \<notin> set (show_nat n)"
  using show_nat_digits [of NUL n] by auto

lemma split_signed_payload:
  "nul_free g \<Longrightarrow> split_on NUL (signed_payload g) =
     [lg_lease_id g, lg_device_id g, lg_client_id g, lg_job_id g, show_nat (lg_expires_at_ms g)]"
  by (simp add: nul_free_def signed_payload_def split_on_append split_on_id show_nat_nul_free)

record response =
  rs_accepted :: bool
  rs_hosts :: "host_snapshot list"
  rs_job_id :: "string option"
  rs_events :: "network_event list"
  rs_audit :: "audit_record list"
  rs_artifact :: "string option"
  rs_error :: "string option"
  rs_operation :: "run_request option"
  rs_apple_operation :: "apple_request option"
  rs_cancel_jobs :: "string list"
  rs_artifact_metadata :: "network_artifact_metadata option"
  rs_artifact_chunk :: "artifact_chunk option"
  rs_confirmed_offset :: "u64 option"
  rs_lease_grant :: "lease_grant option"
  rs_lease_status :: "string option"

definition ok_response :: response where
  "ok_response = \<lparr>rs_accepted = True, rs_hosts = [], rs_job_id = None, rs_events = [],
     rs_audit = [], rs_artifact = None, rs_error = None, rs_operation = None,
     rs_apple_operation = None, rs_cancel_jobs = [], rs_artifact_metadata = None,
     rs_artifact_chunk = None, rs_confirmed_offset = None, rs_lease_grant = None,
     rs_lease_status = None\<rparr>"

definition error_response :: "string \<Rightarrow> response" where
  "error_response e = ok_response\<lparr>rs_accepted := False, rs_error := Some e\<rparr>"

lemma response_simps [simp]:
  "rs_accepted ok_response" "\<not> rs_accepted (error_response e)"
  "rs_error (error_response e) = Some e" "rs_lease_grant (error_response e) = None"
  "rs_lease_grant ok_response = None" "rs_lease_status (error_response e) = None"
  "rs_job_id ok_response = None" "rs_operation ok_response = None"
  "rs_apple_operation ok_response = None" "rs_confirmed_offset (error_response e) = None"
  "rs_artifact_chunk (error_response e) = None" "rs_error ok_response = None"
  by (simp_all add: ok_response_def error_response_def)

section \<open>Properties\<close>

text \<open>
  C14. The bytes a lease grant is signed over determine every field of the grant: with identifiers
  free of NUL bytes, two grants with one payload agree on lease, device, client, job and lifetime,
  so a signature cannot be moved to another grant.
\<close>
theorem signed_payload_binds_grant:
  assumes "nul_free g" and "nul_free h" and "signed_payload g = signed_payload h"
  shows "lg_lease_id g = lg_lease_id h \<and> lg_device_id g = lg_device_id h
     \<and> lg_client_id g = lg_client_id h \<and> lg_job_id g = lg_job_id h
     \<and> lg_expires_at_ms g = lg_expires_at_ms h"
  using split_signed_payload [OF assms(1)] split_signed_payload [OF assms(2)] assms(3) by simp

theorem signed_payload_binds_grant_witness:
  "let g = \<lparr>lg_lease_id = ''lease-1'', lg_device_id = ''sim'', lg_client_id = ''c'',
            lg_job_id = ''j'', lg_expires_at_ms = 12, lg_signature = ''''\<rparr>;
       h = g\<lparr>lg_signature := ''s''\<rparr>
   in nul_free g \<and> nul_free h \<and> signed_payload g = signed_payload h
      \<and> lg_client_id g = lg_client_id h"
proof -
  let ?g = "\<lparr>lg_lease_id = ''lease-1'', lg_device_id = ''sim'', lg_client_id = ''c'',
            lg_job_id = ''j'', lg_expires_at_ms = 12, lg_signature = ''''\<rparr>"
  let ?h = "?g\<lparr>lg_signature := ''s''\<rparr>"
  have n: "nul_free ?g" "nul_free ?h" "signed_payload ?g = signed_payload ?h"
    by (simp_all add: nul_free_def signed_payload_def)
  show ?thesis using n signed_payload_binds_grant [OF n] by (simp add: Let_def)
qed

end
