(* ===== verification/LeaseBook.thy ===== *)
theory LeaseBook
  imports Protocol
begin

text \<open>
  The registry's lease book (\<open>registry_runtime.rs\<close>: \<open>LeaseBook\<close> and \<open>lease\<close>): the active lease of
  each device, the clients waiting for one, and the writer fence, the job that is currently
  changing a device. One request reads the clock once; the reading is the argument \<open>now\<close>.
  \<open>None\<close> as the result of \<open>lease\<close> is the panic of its final \<open>unwrap\<close>.
\<close>

section \<open>State\<close>

record device_lease =
  dl_id :: string
  dl_device_id :: string
  dl_client_id :: string
  dl_expires_at_ms :: u64

record waiting_lease =
  wl_device_id :: string
  wl_client_id :: string
  wl_lifetime_ms :: u64

record device_writer =
  dw_job_id :: string

record lease_book =
  next_id :: u64
  active :: "(string, device_lease) hash_map"
  waiting :: "waiting_lease list"
  writers :: "(string, device_writer) hash_map"
  pending_release :: "string set"
  pending_detach :: "string set"

definition lease_book_default :: lease_book where
  "lease_book_default = \<lparr>next_id = 0, active = [], waiting = [], writers = [],
     pending_release = {}, pending_detach = {}\<rparr>"

section \<open>Operations\<close>

definition lease_id_of :: "nat \<Rightarrow> string" where
  "lease_id_of n = ''lease-'' @ show_nat n"

definition book_insert :: "u64 \<Rightarrow> string \<Rightarrow> string \<Rightarrow> u64 \<Rightarrow> lease_book \<Rightarrow> string \<times> lease_book" where
  "book_insert now device client lifetime b =
     (let n = wrap_add64 (next_id b) 1; i = lease_id_of n
      in (i, b\<lparr>next_id := n,
               active := hm_insert device
                 \<lparr>dl_id = i, dl_device_id = device, dl_client_id = client,
                  dl_expires_at_ms = sat_add64 now lifetime\<rparr> (active b)\<rparr>))"

text \<open>\<open>position\<close> and \<open>remove\<close> on the waiting list: the first entry of the device and the rest.\<close>

fun take_waiting :: "string \<Rightarrow> waiting_lease list \<Rightarrow> (waiting_lease \<times> waiting_lease list) option" where
  "take_waiting device [] = None"
| "take_waiting device (w # ws) =
     (if wl_device_id w = device then Some (w, ws)
      else map_option (\<lambda>(v, vs). (v, w # vs)) (take_waiting device ws))"

definition release_device_now :: "u64 \<Rightarrow> string \<Rightarrow> lease_book \<Rightarrow> lease_book" where
  "release_device_now now device b =
     (let b1 = b\<lparr>active := hm_remove device (active b)\<rparr>
      in case take_waiting device (waiting b1) of
           None \<Rightarrow> b1
         | Some (w, ws) \<Rightarrow>
             snd (book_insert now (wl_device_id w) (wl_client_id w) (wl_lifetime_ms w)
                    (b1\<lparr>waiting := ws\<rparr>)))"

definition release_device :: "u64 \<Rightarrow> string \<Rightarrow> lease_book \<Rightarrow> lease_book" where
  "release_device now device b =
     (if hm_has (writers b) device
      then b\<lparr>pending_release := insert device (pending_release b)\<rparr>
      else release_device_now now device b)"

definition force_release_device :: "u64 \<Rightarrow> string \<Rightarrow> lease_book \<Rightarrow> lease_book" where
  "force_release_device now device b =
     release_device_now now device
       (b\<lparr>writers := hm_remove device (writers b),
          pending_release := pending_release b - {device},
          pending_detach := pending_detach b - {device}\<rparr>)"

definition detach_inventory :: "u64 \<Rightarrow> string \<Rightarrow> lease_book \<Rightarrow> lease_book" where
  "detach_inventory now device b =
     release_device now device
       (if hm_has (writers b) device
        then b\<lparr>pending_detach := insert device (pending_detach b)\<rparr> else b)"

definition expired_devices :: "u64 \<Rightarrow> lease_book \<Rightarrow> string list" where
  "expired_devices now b = hm_keys (filter (\<lambda>(d, l). dl_expires_at_ms l \<le> now) (active b))"

definition expire :: "u64 \<Rightarrow> lease_book \<Rightarrow> lease_book" where
  "expire now b = fold (release_device now) (expired_devices now b) b"

text \<open>\<open>active.values().find(..)\<close>, with the key the value is stored under.\<close>

definition find_lease :: "(device_lease \<Rightarrow> bool) \<Rightarrow> lease_book \<Rightarrow> (string \<times> device_lease) option" where
  "find_lease P b = List.find (\<lambda>(d, l). P l) (active b)"

section \<open>Lease requests\<close>

definition signed_grant :: "(string \<Rightarrow> string) \<Rightarrow> u64 \<Rightarrow> string \<Rightarrow> device_lease \<Rightarrow> lease_grant" where
  "signed_grant sign now job l =
     (let g = \<lparr>lg_lease_id = dl_id l, lg_device_id = dl_device_id l, lg_client_id = dl_client_id l,
               lg_job_id = job, lg_expires_at_ms = dl_expires_at_ms l - now, lg_signature = []\<rparr>
      in g\<lparr>lg_signature := sign (signed_payload g)\<rparr>)"

definition grant_response ::
    "(string \<Rightarrow> string) \<Rightarrow> u64 \<Rightarrow> string \<Rightarrow> string \<Rightarrow> lease_book \<Rightarrow> response option" where
  "grant_response sign now i status b =
     (case find_lease (\<lambda>l. dl_id l = i) b of
        None \<Rightarrow> None
      | Some (d, l) \<Rightarrow>
          Some (ok_response\<lparr>rs_lease_grant := Some (signed_grant sign now [] l),
                            rs_lease_status := Some status\<rparr>))"

definition status_response :: "string \<Rightarrow> response" where
  "status_response s = ok_response\<lparr>rs_lease_status := Some s\<rparr>"

type_synonym peers = "(string, string) hash_map"

definition with_grant ::
    "(string \<Rightarrow> string) \<Rightarrow> u64 \<Rightarrow> string \<Rightarrow> string \<Rightarrow> peers \<Rightarrow> lease_book
       \<Rightarrow> (response \<times> peers \<times> lease_book) option" where
  "with_grant sign now i status dp b =
     map_option (\<lambda>r. (r, dp, b)) (grant_response sign now i status b)"

definition release_by_id ::
    "u64 \<Rightarrow> string \<Rightarrow> string \<Rightarrow> string \<Rightarrow> lease_book \<Rightarrow> response \<times> lease_book" where
  "release_by_id now lease_id peer status b =
     (case find_lease (\<lambda>l. dl_id l = lease_id \<and> dl_client_id l = peer) b of
        None \<Rightarrow> (error_response ''lease_inactive'', b)
      | Some (d, l) \<Rightarrow> (status_response status, release_device now (dl_device_id l) b))"

fun lease_request_op ::
    "(string \<Rightarrow> string) \<Rightarrow> u64 \<Rightarrow> string \<Rightarrow> string set \<Rightarrow> lease_request \<Rightarrow> peers \<Rightarrow> lease_book
       \<Rightarrow> (response \<times> peers \<times> lease_book) option" where
  "lease_request_op sign now peer agents (Acquire device lifetime) dp b =
     (if hm_has (active b) device then Some (error_response ''device_already_leased'', dp, b)
      else let (i, b') = book_insert now device peer lifetime b
           in with_grant sign now i ''acquired'' dp b')"
| "lease_request_op sign now peer agents (Queue device lifetime) dp b =
     (case hm_get (active b) device of
        Some l \<Rightarrow>
          if dl_client_id l = peer then with_grant sign now (dl_id l) ''acquired'' dp b
          else Some (status_response ''queued'', dp,
            if \<exists>w \<in> set (waiting b). wl_device_id w = device \<and> wl_client_id w = peer then b
            else b\<lparr>waiting := waiting b @
                   [\<lparr>wl_device_id = device, wl_client_id = peer, wl_lifetime_ms = lifetime\<rparr>]\<rparr>)
      | None \<Rightarrow>
          let (i, b') = book_insert now device peer lifetime b
          in with_grant sign now i ''acquired'' dp b')"
| "lease_request_op sign now peer agents (Renew lease_id lifetime) dp b =
     (case find_lease (\<lambda>l. dl_id l = lease_id \<and> dl_client_id l = peer) b of
        None \<Rightarrow> Some (error_response ''lease_inactive'', dp, b)
      | Some (d, l) \<Rightarrow>
          with_grant sign now (dl_id l) ''renewed'' dp
            (b\<lparr>active := hm_insert d (l\<lparr>dl_expires_at_ms := sat_add64 now lifetime\<rparr>) (active b)\<rparr>))"
| "lease_request_op sign now peer agents (Release lease_id) dp b =
     (let (r, b') = release_by_id now lease_id peer ''released'' b in Some (r, dp, b'))"
| "lease_request_op sign now peer agents (Revoke lease_id) dp b =
     (let (r, b') = release_by_id now lease_id peer ''revoked'' b in Some (r, dp, b'))"
| "lease_request_op sign now peer agents (Validate g) dp b =
     Some (if peer \<notin> agents \<or> hm_get dp (lg_device_id g) \<noteq> Some peer
           then error_response ''lease_validation_access_denied''
           else if is_some_and (\<lambda>l. dl_id l = lg_lease_id g \<and> dl_client_id l = lg_client_id g)
                     (hm_get (active b) (lg_device_id g))
           then status_response ''active''
           else error_response ''lease_inactive'', dp, b)"
| "lease_request_op sign now peer agents Disconnect dp b =
     (let devices = map (\<lambda>(d, l). dl_device_id l)
                      (filter (\<lambda>(d, l). dl_client_id l = peer) (active b));
          b1 = b\<lparr>waiting := filter (\<lambda>w. wl_client_id w \<noteq> peer) (waiting b)\<rparr>
      in Some (status_response ''disconnected'', dp, fold (release_device now) devices b1))"
| "lease_request_op sign now peer agents (AgentDetach device) dp b =
     (if peer \<notin> agents \<or> hm_get dp device \<noteq> Some peer
      then Some (error_response ''agent_detach_access_denied'', dp, b)
      else Some (status_response ''detached'', hm_remove device dp,
                 force_release_device now device b))"

definition lease ::
    "(string \<Rightarrow> string) \<Rightarrow> u64 \<Rightarrow> string \<Rightarrow> string set \<Rightarrow> lease_request \<Rightarrow> peers \<Rightarrow> lease_book
       \<Rightarrow> (response \<times> peers \<times> lease_book) option" where
  "lease sign now peer agents req dp b =
     lease_request_op sign now peer agents req dp (expire now b)"

lemmas book_defs [step_defs] = book_insert_def release_device_now_def release_device_def
  force_release_device_def detach_inventory_def Let_def

section \<open>Invariant\<close>

definition lease_inv :: "lease_book \<Rightarrow> bool" where
  "lease_inv b \<longleftrightarrow> hm_wf (active b)
     \<and> (\<forall>d l. hm_get (active b) d = Some l \<longrightarrow>
          dl_device_id l = d \<and> (\<exists>n. 0 < n \<and> n \<le> next_id b \<and> dl_id l = lease_id_of n))
     \<and> (\<forall>d e l m. hm_get (active b) d = Some l \<longrightarrow> hm_get (active b) e = Some m \<longrightarrow>
          dl_id l = dl_id m \<longrightarrow> d = e)"

text \<open>Identifiers still needed: those handed out and one for every client that waits.\<close>

definition tickets :: "lease_book \<Rightarrow> nat" where
  "tickets b = next_id b + length (waiting b)"

definition book_ok :: "lease_book \<Rightarrow> bool" where
  "book_ok b \<longleftrightarrow> lease_inv b \<and> tickets b \<le> u64_max"

lemma lease_id_of_inject [simp]: "lease_id_of m = lease_id_of n \<longleftrightarrow> m = n"
  by (simp add: lease_id_of_def)

lemma lease_inv_default: "lease_inv lease_book_default"
  by (simp add: lease_inv_def lease_book_default_def)

lemma lease_inv_device: "lease_inv b \<Longrightarrow> hm_get (active b) d = Some l \<Longrightarrow> dl_device_id l = d"
  by (simp add: lease_inv_def)

lemma lease_inv_cong:
  "active b' = active b \<Longrightarrow> next_id b' = next_id b \<Longrightarrow> lease_inv b' = lease_inv b"
  by (simp add: lease_inv_def)

lemma lease_inv_wf: "lease_inv b \<Longrightarrow> hm_wf (active b)"
  by (simp add: lease_inv_def)

lemma lease_inv_remove: "lease_inv b \<Longrightarrow> lease_inv (b\<lparr>active := hm_remove d (active b)\<rparr>)"
  by (simp add: lease_inv_def)

lemma lease_inv_id:
  "lease_inv b \<Longrightarrow> hm_get (active b) d = Some l \<Longrightarrow>
     \<exists>n. 0 < n \<and> n \<le> next_id b \<and> dl_id l = lease_id_of n"
  by (simp add: lease_inv_def)

lemma lease_inv_unique:
  "lease_inv b \<Longrightarrow> hm_get (active b) d = Some l \<Longrightarrow> hm_get (active b) e = Some m \<Longrightarrow>
     dl_id l = dl_id m \<Longrightarrow> d = e"
  unfolding lease_inv_def by blast

lemma book_insert_fields [simp]:
  "fst (book_insert now d c t b) = lease_id_of (wrap_add64 (next_id b) 1)"
  "next_id (snd (book_insert now d c t b)) = wrap_add64 (next_id b) 1"
  "waiting (snd (book_insert now d c t b)) = waiting b"
  "writers (snd (book_insert now d c t b)) = writers b"
  "pending_release (snd (book_insert now d c t b)) = pending_release b"
  "pending_detach (snd (book_insert now d c t b)) = pending_detach b"
  "active (snd (book_insert now d c t b)) =
     hm_insert d \<lparr>dl_id = lease_id_of (wrap_add64 (next_id b) 1), dl_device_id = d,
       dl_client_id = c, dl_expires_at_ms = sat_add64 now t\<rparr> (active b)"
  by (simp_all add: book_insert_def Let_def)

lemma book_insert_inv:
  assumes inv: "lease_inv b" and room: "next_id b < u64_max"
  shows "lease_inv (snd (book_insert now d c t b))"
proof -
  have n: "wrap_add64 (next_id b) 1 = Suc (next_id b)"
    using room by (simp add: wrap_add64_exact)
  have old: "dl_id l \<noteq> lease_id_of (Suc (next_id b))" if "hm_get (active b) e = Some l" for e l
    using lease_inv_id [OF inv that] by auto
  have ids: "\<exists>k. 0 < k \<and> k \<le> Suc (next_id b) \<and> dl_id l = lease_id_of k"
    if "hm_get (active b) e = Some l" for e l
    using lease_inv_id [OF inv that] le_SucI by blast
  show ?thesis
    unfolding lease_inv_def
  proof (intro conjI allI impI)
    show "hm_wf (active (snd (book_insert now d c t b)))"
      using lease_inv_wf [OF inv] by simp
  next
    fix e l
    assume "hm_get (active (snd (book_insert now d c t b))) e = Some l"
    then show "dl_device_id l = e"
      and "\<exists>k. 0 < k \<and> k \<le> next_id (snd (book_insert now d c t b)) \<and> dl_id l = lease_id_of k"
      using lease_inv_device [OF inv] ids n by (auto split: if_splits)
  next
    fix e f l m
    assume "hm_get (active (snd (book_insert now d c t b))) e = Some l"
      and "hm_get (active (snd (book_insert now d c t b))) f = Some m" and "dl_id l = dl_id m"
    then show "e = f"
      using lease_inv_unique [OF inv, of e l f m] old n
      by (auto split: if_splits) (metis old)
  qed
qed

lemma take_waiting_Some:
  "take_waiting d ws = Some (w, vs) \<Longrightarrow>
     wl_device_id w = d \<and> (\<exists>xs ys. ws = xs @ w # ys \<and> vs = xs @ ys \<and> d \<notin> wl_device_id ` set xs)"
proof (induction ws arbitrary: vs)
  case Nil
  then show ?case by simp
next
  case (Cons v ws)
  show ?case
  proof (cases "wl_device_id v = d")
    case True
    with Cons.prems have "v = w" "vs = ws" by auto
    then have "v # ws = [] @ w # ws \<and> vs = [] @ ws \<and> d \<notin> wl_device_id ` set []" by simp
    with True \<open>v = w\<close> show ?thesis by blast
  next
    case False
    with Cons.prems obtain us where us: "take_waiting d ws = Some (w, us)" "vs = v # us" by auto
    from Cons.IH [OF us(1)] obtain xs ys where
      "wl_device_id w = d" "ws = xs @ w # ys" "us = xs @ ys" "d \<notin> wl_device_id ` set xs" by blast
    then have "v # ws = (v # xs) @ w # ys \<and> vs = (v # xs) @ ys \<and> d \<notin> wl_device_id ` set (v # xs)"
      using us False by simp
    then show ?thesis using \<open>wl_device_id w = d\<close> by blast
  qed
qed

lemma take_waiting_None: "take_waiting d ws = None \<longleftrightarrow> d \<notin> wl_device_id ` set ws"
  by (induction ws) auto

lemma take_waiting_length: "take_waiting d ws = Some (w, vs) \<Longrightarrow> length ws = Suc (length vs)"
  using take_waiting_Some [of d ws w vs] by auto

lemma book_insert_tickets:
  "next_id b < u64_max \<Longrightarrow> tickets (snd (book_insert now d c t b)) = tickets b + 1"
  by (simp add: tickets_def wrap_add64_exact)

lemma release_device_now_ok:
  assumes "book_ok b"
  shows "book_ok (release_device_now now d b)" "tickets (release_device_now now d b) = tickets b"
proof -
  let ?b1 = "b\<lparr>active := hm_remove d (active b)\<rparr>"
  have inv1: "lease_inv ?b1" using assms by (simp add: book_ok_def lease_inv_remove)
  have "book_ok (release_device_now now d b) \<and> tickets (release_device_now now d b) = tickets b"
  proof (cases "take_waiting d (waiting b)")
    case None
    then show ?thesis
      using assms inv1 by (simp add: release_device_now_def book_ok_def tickets_def Let_def)
  next
    case (Some p)
    obtain w vs where p: "p = (w, vs)" by (cases p)
    let ?b2 = "?b1\<lparr>waiting := vs\<rparr>"
    have len: "length (waiting b) = Suc (length vs)" using Some p by (simp add: take_waiting_length)
    have room: "next_id ?b2 < u64_max" using assms len by (simp add: book_ok_def tickets_def)
    have inv2: "lease_inv ?b2" using inv1 by (subst lease_inv_cong [of _ ?b1]) simp_all
    have "release_device_now now d b
        = snd (book_insert now (wl_device_id w) (wl_client_id w) (wl_lifetime_ms w) ?b2)"
      using Some p by (simp add: release_device_now_def Let_def)
    moreover have "tickets ?b2 + 1 = tickets b" using len by (simp add: tickets_def)
    ultimately show ?thesis
      using book_insert_inv [OF inv2 room] book_insert_tickets [OF room] assms
      by (simp add: book_ok_def)
  qed
  then show "book_ok (release_device_now now d b)"
    and "tickets (release_device_now now d b) = tickets b" by auto
qed

lemma release_device_ok:
  assumes "book_ok b"
  shows "book_ok (release_device now d b) \<and> tickets (release_device now d b) = tickets b"
proof (cases "hm_has (writers b) d")
  case True
  have "lease_inv (b\<lparr>pending_release := insert d (pending_release b)\<rparr>)"
    using assms by (subst lease_inv_cong [of _ b]) (simp_all add: book_ok_def)
  then show ?thesis using True assms by (simp add: release_device_def book_ok_def tickets_def)
next
  case False
  then show ?thesis using release_device_now_ok [OF assms] by (simp add: release_device_def)
qed

lemma force_release_device_ok:
  assumes "book_ok b"
  shows "book_ok (force_release_device now d b) \<and> tickets (force_release_device now d b) = tickets b"
proof -
  let ?b = "b\<lparr>writers := hm_remove d (writers b), pending_release := pending_release b - {d},
              pending_detach := pending_detach b - {d}\<rparr>"
  have "book_ok ?b" "tickets ?b = tickets b"
    using assms lease_inv_cong [of ?b b] by (simp_all add: book_ok_def tickets_def)
  then show ?thesis
    using release_device_now_ok [of ?b] by (simp add: force_release_device_def)
qed

lemma fold_release_ok:
  "book_ok b \<Longrightarrow> book_ok (fold (release_device now) ds b)
     \<and> tickets (fold (release_device now) ds b) = tickets b"
proof (induction ds arbitrary: b)
  case Nil
  then show ?case by simp
next
  case (Cons d ds)
  with release_device_ok [OF Cons.prems, of now d] show ?case by simp
qed

lemma expire_ok: "book_ok b \<Longrightarrow> book_ok (expire now b) \<and> tickets (expire now b) = tickets b"
  by (simp add: expire_def fold_release_ok)

lemma find_lease_Some:
  assumes "lease_inv b" and "find_lease P b = Some (d, l)"
  shows "P l \<and> hm_get (active b) d = Some l \<and> dl_device_id l = d"
proof -
  from assms(2) have "(d, l) \<in> set (active b)" "P l"
    unfolding find_lease_def by (auto dest: find_SomeD)
  then show ?thesis
    using assms(1) hm_in_set_get [OF lease_inv_wf [OF assms(1)]] lease_inv_device by blast
qed

lemma find_lease_exists:
  "hm_get (active b) d = Some l \<Longrightarrow> P l \<Longrightarrow> \<exists>e m. find_lease P b = Some (e, m)"
  by (cases "find_lease P b") (auto simp: find_lease_def find_None_eq dest: hm_get_in_set)

section \<open>Lease requests keep the invariant and never panic\<close>

lemma grant_response_eq:
  assumes "lease_inv b" and "hm_get (active b) d = Some l"
  shows "grant_response sign now (dl_id l) status b =
    Some (ok_response\<lparr>rs_lease_grant := Some (signed_grant sign now [] l),
                      rs_lease_status := Some status\<rparr>)"
proof -
  obtain e m where f: "find_lease (\<lambda>x. dl_id x = dl_id l) b = Some (e, m)"
    using find_lease_exists [OF assms(2), of "\<lambda>x. dl_id x = dl_id l"] by blast
  from find_lease_Some [OF assms(1) f] have m: "dl_id m = dl_id l" "hm_get (active b) e = Some m"
    by auto
  then have "e = d" using lease_inv_unique [OF assms(1) m(2) assms(2)] by simp
  with m assms(2) have "m = l" by simp
  with f show ?thesis by (simp add: grant_response_def)
qed

lemma with_grant_eq:
  "lease_inv b \<Longrightarrow> hm_get (active b) d = Some l \<Longrightarrow> i = dl_id l \<Longrightarrow>
     with_grant sign now i status dp b =
       Some (ok_response\<lparr>rs_lease_grant := Some (signed_grant sign now [] l),
                         rs_lease_status := Some status\<rparr>, dp, b)"
  by (simp add: with_grant_def grant_response_eq)

lemma lease_inv_renew:
  assumes inv: "lease_inv b" and l: "hm_get (active b) d = Some l"
  shows "lease_inv (b\<lparr>active := hm_insert d (l\<lparr>dl_expires_at_ms := t\<rparr>) (active b)\<rparr>)"
  unfolding lease_inv_def
proof (intro conjI allI impI)
  let ?b = "b\<lparr>active := hm_insert d (l\<lparr>dl_expires_at_ms := t\<rparr>) (active b)\<rparr>"
  show "hm_wf (active ?b)" using lease_inv_wf [OF inv] by simp
  fix e m
  assume m: "hm_get (active ?b) e = Some m"
  obtain m' where m': "hm_get (active b) e = Some m'" "dl_id m = dl_id m'"
      "dl_device_id m = dl_device_id m'"
    using m l by (cases "e = d") auto
  show "dl_device_id m = e" using m' lease_inv_device [OF inv] by simp
  show "\<exists>n. 0 < n \<and> n \<le> next_id ?b \<and> dl_id m = lease_id_of n"
    using m' lease_inv_id [OF inv] by simp
  fix f k
  assume k: "hm_get (active ?b) f = Some k" and eq: "dl_id m = dl_id k"
  obtain k' where k': "hm_get (active b) f = Some k'" "dl_id k = dl_id k'"
    using k l by (cases "f = d") auto
  have "dl_id m' = dl_id k'" using eq m'(2) k'(2) by simp
  then show "e = f" by (rule lease_inv_unique [OF inv m'(1) k'(1)])
qed

lemma book_insert_ok:
  assumes "book_ok b" and "tickets b < u64_max"
  shows "book_ok (snd (book_insert now d c t b))"
    "tickets (snd (book_insert now d c t b)) = tickets b + 1"
proof -
  have "next_id b < u64_max" using assms(2) by (simp add: tickets_def)
  then show "book_ok (snd (book_insert now d c t b))"
    "tickets (snd (book_insert now d c t b)) = tickets b + 1"
    using assms book_insert_inv book_insert_tickets by (simp_all add: book_ok_def)
qed

lemma with_grant_insert:
  assumes "book_ok b" and "tickets b < u64_max" and "book_insert now d c t b = (i, b')"
  shows "\<exists>r. with_grant sign now i status dp b' = Some (r, dp, b') \<and> book_ok b'
           \<and> tickets b' = tickets b + 1"
proof -
  have b': "b' = snd (book_insert now d c t b)" and i: "i = fst (book_insert now d c t b)"
    using assms(3) by simp_all
  have ok: "book_ok b'" "tickets b' = tickets b + 1"
    using book_insert_ok [OF assms(1,2)] b' by simp_all
  have "hm_get (active b') d = Some \<lparr>dl_id = i, dl_device_id = d, dl_client_id = c,
      dl_expires_at_ms = sat_add64 now t\<rparr>" using b' i by simp
  from with_grant_eq [OF _ this, of i] ok show ?thesis by (simp add: book_ok_def)
qed

lemma release_by_id_ok:
  assumes "book_ok b" and "release_by_id now i p st b = (r, b')"
  shows "book_ok b' \<and> tickets b' = tickets b"
  using assms release_device_ok [OF assms(1)]
  by (auto simp: release_by_id_def split: option.splits)

lemma lease_request_op_ok:
  assumes ok: "book_ok b" and room: "tickets b < u64_max"
  shows "\<exists>r dp' b'. lease_request_op sign now p ag req dp b = Some (r, dp', b')
           \<and> book_ok b' \<and> tickets b' \<le> tickets b + 1"
proof (cases req)
  case (Acquire d t)
  obtain i b' where ins: "book_insert now d p t b = (i, b')" by fastforce
  show ?thesis
    using Acquire ok ins with_grant_insert [OF ok room ins, of sign "''acquired''" dp]
    by (cases "hm_has (active b) d") auto
next
  case (Renew i t)
  show ?thesis
  proof (cases "find_lease (\<lambda>l. dl_id l = i \<and> dl_client_id l = p) b")
    case None
    then show ?thesis using Renew ok by simp
  next
    case (Some q)
    obtain d l where q: "q = (d, l)" by (cases q)
    have inv: "lease_inv b" using ok by (simp add: book_ok_def)
    have l: "hm_get (active b) d = Some l" using find_lease_Some [OF inv] Some q by blast
    let ?l = "l\<lparr>dl_expires_at_ms := sat_add64 now t\<rparr>"
    let ?b = "b\<lparr>active := hm_insert d ?l (active b)\<rparr>"
    have inv': "lease_inv ?b" using lease_inv_renew [OF inv l] .
    have "hm_get (active ?b) d = Some ?l" by simp
    from with_grant_eq [OF inv' this] Renew Some q inv' ok show ?thesis
      by (simp add: book_ok_def tickets_def)
  qed
next
  case (Queue d t)
  show ?thesis
  proof (cases "hm_get (active b) d")
    case None
    obtain i b' where ins: "book_insert now d p t b = (i, b')" by fastforce
    show ?thesis
      using Queue None ins with_grant_insert [OF ok room ins, of sign "''acquired''" dp] by auto
  next
    case (Some l)
    let ?w = "\<lparr>wl_device_id = d, wl_client_id = p, wl_lifetime_ms = t\<rparr>"
    have inv: "lease_inv b" using ok by (simp add: book_ok_def)
    then have "lease_inv (b\<lparr>waiting := waiting b @ [?w]\<rparr>)"
      by (subst lease_inv_cong [of _ b]) simp_all
    then show ?thesis
      using Queue Some ok room with_grant_eq [OF inv Some, of "dl_id l"]
      by (auto simp: book_ok_def tickets_def)
  qed
next
  case (Release i)
  obtain r b' where "release_by_id now i p ''released'' b = (r, b')" by fastforce
  then show ?thesis using Release release_by_id_ok [OF ok] by fastforce
next
  case (Revoke i)
  obtain r b' where "release_by_id now i p ''revoked'' b = (r, b')" by fastforce
  then show ?thesis using Revoke release_by_id_ok [OF ok] by fastforce
next
  case (Validate g)
  then show ?thesis using ok by simp
next
  case Disconnect
  let ?b1 = "b\<lparr>waiting := filter (\<lambda>w. wl_client_id w \<noteq> p) (waiting b)\<rparr>"
  have t: "tickets ?b1 \<le> tickets b" by (simp add: tickets_def)
  have "lease_inv ?b1" using ok by (subst lease_inv_cong [of _ b]) (simp_all add: book_ok_def)
  then have "book_ok ?b1" using t ok by (simp add: book_ok_def)
  from fold_release_ok [OF this] t show ?thesis using Disconnect by fastforce
next
  case (AgentDetach d)
  then show ?thesis using ok force_release_device_ok [OF ok, of now d] by auto
qed

text \<open>One lease request as a step over the device owners and the book.\<close>

type_synonym lease_event = "u64 \<times> string \<times> lease_request"

definition lease_step ::
    "(string \<Rightarrow> string) \<Rightarrow> string set \<Rightarrow> lease_event \<Rightarrow> peers \<times> lease_book \<Rightarrow> peers \<times> lease_book" where
  "lease_step sign ag ev s =
     (case ev of (now, p, req) \<Rightarrow>
        case lease sign now p ag req (fst s) (snd s) of
          None \<Rightarrow> s | Some (r, dp, b) \<Rightarrow> (dp, b))"

lemma lease_ok:
  assumes "book_ok b" and "tickets b < u64_max"
  shows "\<exists>r dp' b'. lease sign now p ag req dp b = Some (r, dp', b')
           \<and> book_ok b' \<and> tickets b' \<le> tickets b + 1"
  using lease_request_op_ok [of "expire now b"] expire_ok [OF assms(1), of now] assms(2)
  unfolding lease_def by metis

interpretation lease_run: budgeted_machine "lease_step sign ag" "\<lambda>s. book_ok (snd s)"
    "\<lambda>s. tickets (snd s)" u64_max
proof unfold_locales
  fix s :: "peers \<times> lease_book" and opn :: lease_event
  assume ok: "book_ok (snd s)" and room: "tickets (snd s) < u64_max"
  obtain now p req where opn: "opn = (now, p, req)" by (cases opn)
  from lease_ok [OF ok room, of sign now p ag req "fst s"] opn
  show "book_ok (snd (lease_step sign ag opn s))
      \<and> tickets (snd (lease_step sign ag opn s)) \<le> tickets (snd s) + 1"
    by (auto simp: lease_step_def)
qed

lemma book_ok_default: "book_ok lease_book_default" "tickets lease_book_default = 0"
proof -
  show "tickets lease_book_default = 0" by (simp add: tickets_def lease_book_default_def)
  then show "book_ok lease_book_default" by (simp add: book_ok_def lease_inv_default)
qed

section \<open>The writer fence\<close>

lemma release_device_now_other:
  "e \<noteq> d \<Longrightarrow> hm_get (active (release_device_now now e b)) d = hm_get (active b) d"
  using take_waiting_Some [of e "waiting b"]
  by (fastforce simp: release_device_now_def Let_def split: option.splits)

lemma release_device_now_writers [simp]: "writers (release_device_now now e b) = writers b"
  by (simp add: release_device_now_def Let_def split: option.splits)

lemma release_device_writers [simp]: "writers (release_device now e b) = writers b"
  by (simp add: release_device_def)

lemma release_device_fenced:
  "hm_has (writers b) d \<Longrightarrow> hm_get (active (release_device now e b)) d = hm_get (active b) d"
  using release_device_now_other [of e d now b] by (cases "e = d") (auto simp: release_device_def)

lemma fold_release_fenced:
  "hm_has (writers b) d \<Longrightarrow>
     hm_get (active (fold (release_device now) ds b)) d = hm_get (active b) d
     \<and> writers (fold (release_device now) ds b) = writers b"
  by (induction ds arbitrary: b) (auto simp: release_device_fenced)

lemma expire_fenced:
  "hm_has (writers b) d \<Longrightarrow>
     hm_get (active (expire now b)) d = hm_get (active b) d \<and> writers (expire now b) = writers b"
  by (simp add: expire_def fold_release_fenced)

text \<open>The operation left the lease of \<open>d\<close> with its holder, and its writer in place.\<close>

definition holder_kept :: "string \<Rightarrow> device_lease \<Rightarrow> lease_book \<Rightarrow> lease_book \<Rightarrow> bool" where
  "holder_kept d l b b' \<longleftrightarrow> hm_get (writers b') d = hm_get (writers b) d
     \<and> (\<exists>m. hm_get (active b') d = Some m \<and> dl_id m = dl_id l \<and> dl_client_id m = dl_client_id l)"

lemma holder_keptI:
  "hm_get (active b') d = hm_get (active b) d \<Longrightarrow> writers b' = writers b \<Longrightarrow>
     hm_get (active b) d = Some l \<Longrightarrow> holder_kept d l b b'"
  by (simp add: holder_kept_def)

lemma with_grant_Some: "with_grant sign now i st dp b = Some (r, dp', b') \<Longrightarrow> b' = b \<and> dp' = dp"
  by (auto simp: with_grant_def)

lemma release_by_id_fenced:
  "release_by_id now i p st b = (r, b') \<Longrightarrow> hm_has (writers b) d \<Longrightarrow>
     hm_get (active b) d = Some l \<Longrightarrow> holder_kept d l b b'"
  by (auto simp: release_by_id_def release_device_fenced intro!: holder_keptI split: option.splits)

lemma find_lease_key:
  "hm_wf (active b) \<Longrightarrow> find_lease P b = Some (d, l) \<Longrightarrow> P l \<and> hm_get (active b) d = Some l"
  unfolding find_lease_def by (auto dest!: find_SomeD simp: hm_in_set_get)

text \<open>Both maps of the book have one entry per device after every operation.\<close>

definition book_wf :: "lease_book \<Rightarrow> bool" where
  "book_wf b \<longleftrightarrow> hm_wf (active b) \<and> hm_wf (writers b)"

lemma book_wf_cong [simp]:
  "book_wf (b\<lparr>pending_detach := P\<rparr>) = book_wf b" "book_wf (b\<lparr>pending_release := P\<rparr>) = book_wf b"
  "book_wf (b\<lparr>waiting := ws\<rparr>) = book_wf b"
  by (simp_all add: book_wf_def)

lemma book_insert_wf_eq: "book_insert now d c t b = (i, b') \<Longrightarrow> book_wf b \<Longrightarrow> book_wf b'"
  by (auto simp: book_wf_def book_insert_def Let_def)

lemma book_insert_wf [simp]: "book_wf b \<Longrightarrow> book_wf (snd (book_insert now d c t b))"
  by (simp add: book_wf_def)

lemma release_device_now_wf: "book_wf b \<Longrightarrow> book_wf (release_device_now now d b)"
  by (simp add: release_device_now_def Let_def book_wf_def split: option.split prod.split)

lemma release_device_wf: "book_wf b \<Longrightarrow> book_wf (release_device now d b)"
  by (simp add: release_device_def release_device_now_wf)

lemma fold_release_wf: "book_wf b \<Longrightarrow> book_wf (fold (release_device now) ds b)"
  by (induction ds arbitrary: b) (simp_all add: release_device_wf)

lemma expire_wf: "book_wf b \<Longrightarrow> book_wf (expire now b)"
  by (simp add: expire_def fold_release_wf)

lemma detach_inventory_wf: "book_wf b \<Longrightarrow> book_wf (detach_inventory now d b)"
  by (simp add: detach_inventory_def release_device_wf book_wf_cong)

lemma force_release_wf: "book_wf b \<Longrightarrow> book_wf (force_release_device now d b)"
  unfolding force_release_device_def by (rule release_device_now_wf) (simp add: book_wf_def)

lemma release_by_id_wf: "book_wf b \<Longrightarrow> book_wf (snd (release_by_id now i p st b))"
  by (simp add: release_by_id_def release_device_wf split: option.split prod.split)

lemma lease_request_op_wf:
  assumes wf: "book_wf b" and run: "lease_request_op sign now p ag req dp b = Some (r, dp', b')"
  shows "book_wf b'"
proof (cases req)
  case (Renew i t)
  then show ?thesis using wf run by (auto simp: book_wf_def dest!: with_grant_Some split: option.splits)
next
  case Disconnect
  have "book_wf (b\<lparr>waiting := filter (\<lambda>w. wl_client_id w \<noteq> p) (waiting b)\<rparr>)" using wf by (simp add: book_wf_def)
  then show ?thesis using Disconnect run fold_release_wf by (auto simp: Let_def)
next
  case (Release i)
  then show ?thesis using run release_by_id_wf [OF wf, of now i p "''released''"] by (auto simp: Let_def split: prod.splits)
next
  case (Revoke i)
  then show ?thesis using run release_by_id_wf [OF wf, of now i p "''revoked''"] by (auto simp: Let_def split: prod.splits)
next
  case (Queue d t)
  then show ?thesis
    using wf run by (auto simp: Let_def dest!: with_grant_Some intro: book_insert_wf_eq
        split: option.splits if_splits prod.splits)
next
  case (Acquire d t)
  then show ?thesis
    using wf run by (auto simp: Let_def dest!: with_grant_Some intro: book_insert_wf_eq split: if_splits prod.splits)
qed (use wf run force_release_wf [OF wf] in \<open>auto simp: Let_def book_wf_def dest!: with_grant_Some
       split: if_splits prod.splits\<close>)

lemma lease_request_op_fenced:
  assumes wf: "hm_wf (active b)" and w: "hm_has (writers b) d" and l: "hm_get (active b) d = Some l"
    and req: "req \<noteq> AgentDetach d"
    and run: "lease_request_op sign now p ag req dp b = Some (r, dp', b')"
  shows "holder_kept d l b b'"
proof (cases req)
  case (Acquire e t)
  then show ?thesis
    using run l
    by (cases "e = d")
      (auto simp: hm_has_def holder_kept_def book_insert_def Let_def dest!: with_grant_Some
         split: if_splits)
next
  case (Queue e t)
  then show ?thesis
    using run l
    by (cases "e = d")
      (auto simp: holder_kept_def book_insert_def Let_def dest!: with_grant_Some
         split: if_splits option.splits)
next
  case (Renew i t)
  show ?thesis
  proof (cases "find_lease (\<lambda>m. dl_id m = i \<and> dl_client_id m = p) b")
    case None
    then show ?thesis using Renew run l by (auto intro: holder_keptI)
  next
    case (Some q)
    obtain e m where q: "q = (e, m)" by (cases q)
    have "hm_get (active b) e = Some m" using find_lease_key [OF wf] Some q by blast
    then show ?thesis
      using Renew run Some q l
      by (cases "e = d") (auto simp: holder_kept_def dest!: with_grant_Some)
  qed
next
  case (Release i)
  then show ?thesis using run w l release_by_id_fenced by (auto simp: Let_def split: prod.splits)
next
  case (Revoke i)
  then show ?thesis using run w l release_by_id_fenced by (auto simp: Let_def split: prod.splits)
next
  case (Validate g)
  then show ?thesis using run l by (auto intro: holder_keptI)
next
  case Disconnect
  let ?b1 = "b\<lparr>waiting := filter (\<lambda>w. wl_client_id w \<noteq> p) (waiting b)\<rparr>"
  have "hm_has (writers ?b1) d" "hm_get (active ?b1) d = Some l" using w l by simp_all
  then show ?thesis
    using Disconnect run fold_release_fenced [of ?b1 d now] by (auto simp: holder_kept_def Let_def)
next
  case (AgentDetach e)
  then have "e \<noteq> d" using req by auto
  then show ?thesis
    using AgentDetach run l release_device_now_other [of e d now]
    by (auto simp: holder_kept_def force_release_device_def split: if_splits)
qed

section \<open>Grants\<close>

lemma with_grant_holder:
  assumes "lease_inv b" and "hm_get (active b) d = Some l" and "dl_client_id l = p"
    and "with_grant sign now (dl_id l) st dp b = Some (r, dp', b')" and "rs_lease_grant r = Some g"
  shows "\<exists>l. hm_get (active b') (dl_device_id l) = Some l \<and> dl_client_id l = p
      \<and> g = signed_grant sign now [] l"
proof -
  have "dl_device_id l = d" using assms(1,2) by (rule lease_inv_device)
  then show ?thesis using assms with_grant_eq [OF assms(1,2), of "dl_id l"] by auto
qed

lemma insert_grant_holder:
  assumes "book_ok b" and "tickets b < u64_max" and "book_insert now d p t b = (i, b1)"
    and "with_grant sign now i st dp b1 = Some (r, dp', b')" and "rs_lease_grant r = Some g"
  shows "\<exists>l. hm_get (active b') (dl_device_id l) = Some l \<and> dl_client_id l = p
      \<and> g = signed_grant sign now [] l"
proof -
  have b1: "b1 = snd (book_insert now d p t b)" and i: "i = fst (book_insert now d p t b)"
    using assms(3) by simp_all
  let ?l = "\<lparr>dl_id = i, dl_device_id = d, dl_client_id = p, dl_expires_at_ms = sat_add64 now t\<rparr>"
  have "lease_inv b1" using book_insert_ok [OF assms(1,2)] b1 by (simp add: book_ok_def)
  moreover have "hm_get (active b1) d = Some ?l" using b1 i by simp
  ultimately show ?thesis
    using with_grant_holder [of b1 d ?l p sign now st dp r dp' b' g] assms(4,5) by simp
qed

lemma lease_request_op_grant:
  assumes ok: "book_ok b" "tickets b < u64_max"
    and run: "lease_request_op sign now p ag req dp b = Some (r, dp', b')"
    and g: "rs_lease_grant r = Some g"
  shows "\<exists>l. hm_get (active b') (dl_device_id l) = Some l \<and> dl_client_id l = p
      \<and> g = signed_grant sign now [] l"
proof (cases req)
  case (Acquire d t)
  obtain i b1 where ins: "book_insert now d p t b = (i, b1)" by fastforce
  then show ?thesis
    using Acquire run g insert_grant_holder [OF ok ins _ g] by (auto split: if_splits)
next
  case (Queue d t)
  obtain i b1 where ins: "book_insert now d p t b = (i, b1)" by fastforce
  have inv: "lease_inv b" using ok by (simp add: book_ok_def)
  show ?thesis
  proof (cases "hm_get (active b) d")
    case None
    then show ?thesis using Queue run ins insert_grant_holder [OF ok ins _ g] by auto
  next
    case (Some l)
    then show ?thesis
      using Queue run g with_grant_holder [OF inv Some _ _ g]
      by (auto simp: status_response_def split: if_splits)
  qed
next
  case (Renew i t)
  have inv: "lease_inv b" using ok by (simp add: book_ok_def)
  show ?thesis
  proof (cases "find_lease (\<lambda>m. dl_id m = i \<and> dl_client_id m = p) b")
    case None
    then show ?thesis using Renew run g by auto
  next
    case (Some q)
    obtain d l where q: "q = (d, l)" by (cases q)
    have l: "hm_get (active b) d = Some l" "dl_client_id l = p"
      using find_lease_Some [OF inv] Some q by blast+
    let ?l = "l\<lparr>dl_expires_at_ms := sat_add64 now t\<rparr>"
    have "hm_get (active (b\<lparr>active := hm_insert d ?l (active b)\<rparr>)) d = Some ?l" by simp
    from with_grant_holder [OF lease_inv_renew [OF inv l(1)] this _ _ g] Renew run Some q l(2)
    show ?thesis by simp
  qed
qed (use run g in \<open>auto simp: status_response_def release_by_id_def Let_def
       split: if_splits option.splits prod.splits\<close>)

section \<open>Properties\<close>

text \<open>
  The lease service never panics: after any run of lease requests from an empty book that the
  64-bit identifier space leaves room for, the next request returns a response (the final
  \<open>unwrap\<close> always finds the lease it has just named), and the book is well formed again.
\<close>
theorem lease_never_panics:
  assumes "length evs < u64_max"
  shows "\<exists>r dp b. lease sign now p ag req
      (fst (fold (lease_step sign ag) evs (dp0, lease_book_default)))
      (snd (fold (lease_step sign ag) evs (dp0, lease_book_default))) = Some (r, dp, b)
    \<and> lease_inv b"
proof -
  have "book_ok (snd (fold (lease_step sign ag) evs (dp0, lease_book_default)))
     \<and> tickets (snd (fold (lease_step sign ag) evs (dp0, lease_book_default))) \<le> length evs"
    using lease_run.run_budget [of "(dp0, lease_book_default)" evs sign ag] assms
    by (simp add: book_ok_default)
  then show ?thesis using lease_ok assms by (meson book_ok_def le_less_trans)
qed

theorem lease_never_panics_witness:
  "\<exists>r dp b. lease (\<lambda>m. ''sig'') 7 ''c2'' {} (Queue ''sim'' 30)
      (fst (fold (lease_step (\<lambda>m. ''sig'') {}) [(5, ''c1'', Acquire ''sim'' 30)] ([], lease_book_default)))
      (snd (fold (lease_step (\<lambda>m. ''sig'') {}) [(5, ''c1'', Acquire ''sim'' 30)] ([], lease_book_default)))
      = Some (r, dp, b) \<and> lease_inv b"
  by (rule lease_never_panics) (simp add: u64_max_def)


definition fenced_book :: lease_book where
  "fenced_book = \<lparr>next_id = 1,
     active = [(''sim'', \<lparr>dl_id = ''lease-1'', dl_device_id = ''sim'', dl_client_id = ''c1'',
                         dl_expires_at_ms = 10\<rparr>)],
     waiting = [\<lparr>wl_device_id = ''sim'', wl_client_id = ''c2'', wl_lifetime_ms = 30\<rparr>],
     writers = [(''sim'', \<lparr>dw_job_id = ''job''\<rparr>)], pending_release = {}, pending_detach = {}\<rparr>"

lemma lease_id_1: "lease_id_of 1 = ''lease-1''"
  by code_simp

lemma fenced_book_ok: "book_ok fenced_book"
proof -
  have "lease_inv fenced_book"
    unfolding lease_inv_def
    by (auto simp: fenced_book_def hm_wf_def hm_get_def lease_id_1 [symmetric] intro!: exI [of _ 1]
        split: if_splits)
  then show ?thesis by (simp add: book_ok_def tickets_def fenced_book_def u64_max_def)
qed


text \<open>
  A grant is only ever issued to the peer that asked, for the lease the book holds for that
  device after the request, and its signature is over exactly the fields it carries.
\<close>
theorem lease_grant_matches_book:
  assumes "book_ok b" and "tickets b < u64_max"
    and "lease sign now p ag req dp b = Some (r, dp', b')" and "rs_lease_grant r = Some g"
  shows "lg_client_id g = p \<and> lg_job_id g = []
     \<and> lg_signature g = sign (signed_payload (g\<lparr>lg_signature := []\<rparr>))
     \<and> (\<exists>l. hm_get (active b') (lg_device_id g) = Some l \<and> dl_id l = lg_lease_id g
            \<and> dl_client_id l = p \<and> lg_expires_at_ms g = dl_expires_at_ms l - now)"
proof -
  have ok: "book_ok (expire now b)" "tickets (expire now b) < u64_max"
    using expire_ok [OF assms(1), of now] assms(2) by simp_all
  have "\<exists>l. hm_get (active b') (dl_device_id l) = Some l \<and> dl_client_id l = p
      \<and> g = signed_grant sign now [] l"
    by (rule lease_request_op_grant [OF ok]) (use assms(3,4) in \<open>simp_all add: lease_def\<close>)
  then show ?thesis by (auto simp: signed_grant_def Let_def)
qed

theorem lease_grant_matches_book_witness:
  "\<exists>r b'. lease (\<lambda>m. m) 5 ''c1'' {} (Acquire ''sim'' 30) [] lease_book_default = Some (r, [], b')
     \<and> (\<exists>g. rs_lease_grant r = Some g \<and> lg_client_id g = ''c1'')"
proof -
  let ?l = "\<lparr>dl_id = lease_id_of 1, dl_device_id = ''sim'', dl_client_id = ''c1'',
             dl_expires_at_ms = 35\<rparr>"
  let ?b = "lease_book_default\<lparr>next_id := 1, active := [(''sim'', ?l)]\<rparr>"
  let ?r = "ok_response\<lparr>rs_lease_grant := Some (signed_grant (\<lambda>m. m) 5 [] ?l),
      rs_lease_status := Some ''acquired''\<rparr>"
  have run: "lease (\<lambda>m. m) 5 ''c1'' {} (Acquire ''sim'' 30) [] lease_book_default = Some (?r, [], ?b)"
    by (simp add: lease_def expire_def expired_devices_def lease_book_default_def hm_keys_def
        book_insert_def Let_def wrap_add64_def sat_add64_def u64_max_def with_grant_def
        grant_response_def find_lease_def hm_insert_def)
  have "tickets lease_book_default < u64_max" by (simp add: book_ok_default u64_max_def)
  from lease_grant_matches_book [OF book_ok_default(1) this run] run show ?thesis by simp
qed

text \<open>
  C15. Waiting clients are served in order: when the lease of an idle device is released, the client
  that has waited longest for this device holds a new lease with a fresh identifier and the lifetime
  it asked for, and the other waiting clients keep their places.
\<close>
theorem release_promotes_first_waiter:
  assumes "\<not> hm_has (writers b) d" and "waiting b = xs @ w # ys" and "wl_device_id w = d"
    and "\<forall>x \<in> set xs. wl_device_id x \<noteq> d" and "next_id b < u64_max"
  shows "hm_get (active (release_device now d b)) d =
      Some \<lparr>dl_id = lease_id_of (next_id b + 1), dl_device_id = d, dl_client_id = wl_client_id w,
            dl_expires_at_ms = sat_add64 now (wl_lifetime_ms w)\<rparr>
    \<and> waiting (release_device now d b) = xs @ ys"
proof -
  have "take_waiting d (xs @ w # ys) = Some (w, xs @ ys)"
    using assms(3,4) by (induction xs) auto
  then show ?thesis
    using assms by (simp add: release_device_def release_device_now_def Let_def wrap_add64_exact)
qed

theorem release_promotes_first_waiter_witness:
  "let b = fenced_book\<lparr>writers := []\<rparr>
   in hm_get (active (release_device 20 ''sim'' b)) ''sim'' =
        Some \<lparr>dl_id = lease_id_of 2, dl_device_id = ''sim'', dl_client_id = ''c2'',
              dl_expires_at_ms = 50\<rparr> \<and> waiting (release_device 20 ''sim'' b) = []"
  using release_promotes_first_waiter [of "fenced_book\<lparr>writers := []\<rparr>" "''sim''" "[]"
      "\<lparr>wl_device_id = ''sim'', wl_client_id = ''c2'', wl_lifetime_ms = 30\<rparr>" "[]" 20]
  by (simp add: Let_def fenced_book_def sat_add64_def u64_max_def)

end
