(* ===== verification/Model.thy ===== *)
theory Model
  imports Paths
begin

text \<open>
  The dashboard's data model (\<open>dashboard/model.rs\<close>): validated identifiers and codes, the enums
  and structs every dashboard message is made of, and the validation each struct passes when it is
  built, read or written. Identifier newtypes are strings; a value of one of them is a string that
  \<open>validated_id_parse\<close> returned.
\<close>

section \<open>Validation errors\<close>

record validation_error =
  ve_code :: string
  ve_path :: string
  ve_index :: "nat option"

definition ve_at :: "string \<Rightarrow> string \<Rightarrow> validation_error" where
  "ve_at code path = \<lparr>ve_code = code, ve_path = path, ve_index = None\<rparr>"

definition ve_at_index :: "string \<Rightarrow> string \<Rightarrow> nat \<Rightarrow> validation_error" where
  "ve_at_index code path i = \<lparr>ve_code = code, ve_path = path, ve_index = Some i\<rparr>"

definition ve_prepend :: "string \<Rightarrow> validation_error \<Rightarrow> validation_error" where
  "ve_prepend p e = e\<lparr>ve_path := (if ve_path e = [] then p else p @ ''.'' @ ve_path e)\<rparr>"

fun map_err :: "('e \<Rightarrow> 'f) \<Rightarrow> 'e + 'a \<Rightarrow> 'f + 'a" where
  "map_err f (Inl e) = Inl (f e)"
| "map_err f (Inr a) = Inr a"

lemma map_err_Ok [simp]: "map_err f r = Inr a \<longleftrightarrow> r = Inr a"
  by (cases r) auto

definition indexed :: "string \<Rightarrow> nat \<Rightarrow> string" where
  "indexed name i = name @ ''['' @ show_nat i @ '']''"

text \<open>A \<open>for\<close> loop over \<open>enumerate()\<close> with \<open>?\<close> in its body.\<close>

fun each_indexed :: "(nat \<Rightarrow> 'a \<Rightarrow> 'e + unit) \<Rightarrow> nat \<Rightarrow> 'a list \<Rightarrow> 'e + unit" where
  "each_indexed f i [] = Ok ()"
| "each_indexed f i (x # xs) = and_then (f i x) (\<lambda>_. each_indexed f (Suc i) xs)"

lemma each_indexed_Ok:
  "each_indexed f i xs = Inr u \<longleftrightarrow> (\<forall>j < length xs. f (i + j) (xs ! j) = Inr ())"
proof (induction xs arbitrary: i)
  case Nil
  then show ?case by simp
next
  case (Cons x xs)
  show ?case
    using Cons.IH [of "Suc i"] by (auto simp: All_less_Suc2)
qed

section \<open>Identifiers and codes\<close>

definition MAX_ID_BYTES :: nat where "MAX_ID_BYTES = 256"
definition MAX_TEXT_BYTES :: nat where "MAX_TEXT_BYTES = 4096"
definition MAX_COLLECTION_ITEMS :: nat where "MAX_COLLECTION_ITEMS = 128"
definition MAX_PAGE_ITEMS :: nat where "MAX_PAGE_ITEMS = 256"

type_synonym host_id = string
type_synonym device_id = string
type_synonym activity_id = string
type_synonym principal_id = string
type_synonym rule_id = string
type_synonym operation_id = string
type_synonym approval_id = string
type_synonym subscriber_id = string
type_synonym lease_id = string

definition validated_id_parse :: "string \<Rightarrow> validation_error + string" where
  "validated_id_parse value =
     (if length value > MAX_ID_BYTES then Err (ve_at ''id_too_long'' ''id'')
      else if trim value = [] then Err (ve_at ''empty_id'' ''id'')
      else Ok (trim value))"

definition safe_code_char :: "char \<Rightarrow> bool" where
  "safe_code_char c =
     (is_ascii_lowercase c \<or> is_ascii_digit c \<or> c = CHR ''_'' \<or> c = CHR ''.'' \<or> c = CHR ''-'')"

definition safe_code_parse :: "string \<Rightarrow> validation_error + string" where
  "safe_code_parse value =
     (if value = [] then Err (ve_at ''empty_code'' ''code'')
      else if length value > 128 then Err (ve_at ''code_too_long'' ''code'')
      else if \<not> list_all safe_code_char value then Err (ve_at ''invalid_code'' ''code'')
      else Ok value)"

definition split_once :: "char \<Rightarrow> string \<Rightarrow> (string \<times> string) option" where
  "split_once c s =
     (if c \<in> set s then Some (takeWhile (\<lambda>x. x \<noteq> c) s, tl (dropWhile (\<lambda>x. x \<noteq> c) s)) else None)"

definition capability_code_parse :: "string \<Rightarrow> validation_error + string" where
  "capability_code_parse value =
     (if length value > 128 then Err (ve_at ''code_too_long'' ''capability'')
      else case split_once (CHR ''@'') value of
        Some (name, version) \<Rightarrow>
          if version = [] \<or> hd version = CHR ''0'' \<or> \<not> list_all is_ascii_digit version
          then Err (ve_at ''invalid_capability_version'' ''capability'')
          else and_then (safe_code_parse name) (\<lambda>_. Ok value)
      | None \<Rightarrow> and_then (safe_code_parse value) (\<lambda>_. Ok value))"

section \<open>Messages\<close>

datatype message_code =
    ActivityStarted | RegistryStale | ObserverUnavailable | OperationSucceeded | OperationFailed
  | TargetOffline | RegistryDisconnected | DaemonRestarted | EventResyncRequired
  | AuditUnavailable | ApprovalExpired | PolicyDenied | LeaseStale | OperationCancelled
  | AgentIncompatible | AccessDenied | TargetConfirmationRequired | Redacted

fun message_code_str :: "message_code \<Rightarrow> string" where
  "message_code_str ActivityStarted = ''activity_started''"
| "message_code_str RegistryStale = ''registry_stale''"
| "message_code_str ObserverUnavailable = ''observer_unavailable''"
| "message_code_str OperationSucceeded = ''operation_succeeded''"
| "message_code_str OperationFailed = ''operation_failed''"
| "message_code_str TargetOffline = ''target_offline''"
| "message_code_str RegistryDisconnected = ''registry_disconnected''"
| "message_code_str DaemonRestarted = ''daemon_restarted''"
| "message_code_str EventResyncRequired = ''event_resync_required''"
| "message_code_str AuditUnavailable = ''audit_unavailable''"
| "message_code_str ApprovalExpired = ''approval_expired''"
| "message_code_str PolicyDenied = ''policy_denied''"
| "message_code_str LeaseStale = ''lease_stale''"
| "message_code_str OperationCancelled = ''operation_cancelled''"
| "message_code_str AgentIncompatible = ''agent_incompatible''"
| "message_code_str AccessDenied = ''access_denied''"
| "message_code_str TargetConfirmationRequired = ''target_confirmation_required''"
| "message_code_str Redacted = ''redacted''"

definition message_code_of :: "string \<Rightarrow> message_code option" where
  "message_code_of value =
     (if value = ''activity_started'' then Some ActivityStarted
      else if value = ''registry_stale'' then Some RegistryStale
      else if value = ''observer_unavailable'' then Some ObserverUnavailable
      else if value = ''operation_succeeded'' then Some OperationSucceeded
      else if value = ''operation_failed'' then Some OperationFailed
      else if value = ''target_offline'' then Some TargetOffline
      else if value = ''registry_disconnected'' then Some RegistryDisconnected
      else if value = ''daemon_restarted'' then Some DaemonRestarted
      else if value = ''event_resync_required'' then Some EventResyncRequired
      else if value = ''audit_unavailable'' then Some AuditUnavailable
      else if value = ''approval_expired'' then Some ApprovalExpired
      else if value = ''policy_denied'' then Some PolicyDenied
      else if value = ''lease_stale'' then Some LeaseStale
      else if value = ''operation_cancelled'' then Some OperationCancelled
      else if value = ''agent_incompatible'' then Some AgentIncompatible
      else if value = ''access_denied'' then Some AccessDenied
      else if value = ''target_confirmation_required'' then Some TargetConfirmationRequired
      else if value = ''redacted'' then Some Redacted
      else None)"

datatype message_param = ParamLocal | ParamRemote | ParamAllowed | ParamDenied | ParamUnavailable

record display_message =
  dm_code :: message_code
  dm_params :: "message_param list"

section \<open>Enumerations\<close>

datatype dashboard_scope = ScopeLocal | ScopeMesh
datatype presence = Offline | Connecting | Online | Busy | AttentionRequired | RemoteAccessPaused
datatype freshness = Live | Stale u64 | UnknownFreshness
datatype lease_state = LeaseActive | LeaseUncertain
datatype metric_value = Available u64 | Unavailable string

datatype resource_class =
    WorkspaceRead | WorkspaceWrite | ArtifactUpload | ArtifactDownload | DeviceLease
  | ApplicationInstall | ApplicationLaunch | Debugger | Signing | Microphone | ScreenCapture
  | NetworkEndpoint | DeviceLanePolicy | DeviceLaneService

datatype activity_state =
    AwaitingApproval | Queued | Running | Reconnecting | Succeeded | Failed | Denied | Cancelled

datatype policy_effect = Allow | Deny
datatype approval_decision = AllowOnce | AllowAndRemember | DenyOnce | DenyAndBlock
datatype trust_state = TrustLocal | Trusted | Untrusted | Revoked
datatype connection_path = PathLocal | PathDirect | PathRegistry | PathUnavailable
datatype policy_origin = User | Managed
datatype audit_result =
  AuditAttempted | AuditSucceeded | AuditFailed | AuditDenied | AuditCancelled | AuditDeleted

text \<open>The derived \<open>Ord\<close> of \<open>ResourceClass\<close> is the order of declaration.\<close>

fun resource_rank :: "resource_class \<Rightarrow> nat" where
  "resource_rank WorkspaceRead = 0"
| "resource_rank WorkspaceWrite = 1"
| "resource_rank ArtifactUpload = 2"
| "resource_rank ArtifactDownload = 3"
| "resource_rank DeviceLease = 4"
| "resource_rank ApplicationInstall = 5"
| "resource_rank ApplicationLaunch = 6"
| "resource_rank Debugger = 7"
| "resource_rank Signing = 8"
| "resource_rank Microphone = 9"
| "resource_rank ScreenCapture = 10"
| "resource_rank NetworkEndpoint = 11"
| "resource_rank DeviceLanePolicy = 12"
| "resource_rank DeviceLaneService = 13"

lemma resource_rank_inject: "resource_rank a = resource_rank b \<Longrightarrow> a = b"
  by (cases a; cases b) simp_all

instantiation resource_class :: linorder
begin

definition less_eq_resource_class :: "resource_class \<Rightarrow> resource_class \<Rightarrow> bool" where
  "less_eq_resource_class a b = (resource_rank a \<le> resource_rank b)"

definition less_resource_class :: "resource_class \<Rightarrow> resource_class \<Rightarrow> bool" where
  "less_resource_class a b = (resource_rank a < resource_rank b)"

instance
  by standard
    (auto simp: less_eq_resource_class_def less_resource_class_def intro: resource_rank_inject)

end

text \<open>\<open>sort_unstable\<close> and \<open>dedup\<close>: on a total order with equality, the sorted list without repeats.\<close>

definition canonical_resources :: "resource_class list \<Rightarrow> resource_class list" where
  "canonical_resources rs = remdups_adj (sort rs)"

lemma canonical_resources_sorted: "sorted (canonical_resources rs)"
  by (simp add: canonical_resources_def sorted_remdups_adj)

lemma canonical_resources_set [simp]: "set (canonical_resources rs) = set rs"
  by (simp add: canonical_resources_def)

lemma distinct_remdups_adj_sorted: "sorted (xs :: 'a :: linorder list) \<Longrightarrow> distinct (remdups_adj xs)"
  by (induction xs rule: remdups_adj.induct) (auto simp: order_le_less)

lemma canonical_resources_distinct: "distinct (canonical_resources rs)"
  by (simp add: canonical_resources_def distinct_remdups_adj_sorted)

lemma canonical_resources_set_eq: "set rs = set ss \<Longrightarrow> canonical_resources rs = canonical_resources ss"
  using canonical_resources_sorted canonical_resources_distinct canonical_resources_set
  by (metis sorted_distinct_set_unique)

section \<open>Field checks\<close>

definition validate_len :: "nat \<Rightarrow> string \<Rightarrow> validation_error + unit" where
  "validate_len n path =
     (if n > MAX_COLLECTION_ITEMS then Err (ve_at ''collection_too_large'' path) else Ok ())"

definition validate_text :: "string \<Rightarrow> string \<Rightarrow> validation_error + unit" where
  "validate_text value path =
     (if trim value = [] then Err (ve_at ''empty_text'' path)
      else if length value > MAX_TEXT_BYTES then Err (ve_at ''text_too_long'' path)
      else Ok ())"

fun first_duplicate :: "nat \<Rightarrow> 'a set \<Rightarrow> 'a list \<Rightarrow> nat option" where
  "first_duplicate i seen [] = None"
| "first_duplicate i seen (x # xs) =
     (if x \<in> seen then Some i else first_duplicate (Suc i) (insert x seen) xs)"

definition validate_unique_resources :: "resource_class list \<Rightarrow> validation_error + unit" where
  "validate_unique_resources rs =
     and_then (validate_len (length rs) ''resources'')
       (\<lambda>_. case first_duplicate 0 {} rs of
              None \<Rightarrow> Ok ()
            | Some i \<Rightarrow> Err (ve_at_index ''duplicate_resource_class'' ''resources'' i))"

definition validate_presence :: "presence \<Rightarrow> freshness \<Rightarrow> validation_error + unit" where
  "validate_presence p f =
     (if p = Offline \<and> \<not> (case f of Stale _ \<Rightarrow> True | _ \<Rightarrow> False)
      then Err (ve_at ''missing_last_seen_at'' ''freshness'') else Ok ())"

definition validate_lifecycle_state ::
    "activity_state \<Rightarrow> u64 option \<Rightarrow> u64 option \<Rightarrow> validation_error + unit" where
  "validate_lifecycle_state st started finished =
     (if st \<in> {AwaitingApproval, Queued} then
        (if started \<noteq> None then Err (ve_at ''unexpected_started_at'' ''started_at_ms'')
         else if finished \<noteq> None then Err (ve_at ''unexpected_finished_at'' ''finished_at_ms'')
         else Ok ())
      else if st \<in> {Running, Reconnecting} then
        (if started = None then Err (ve_at ''missing_started_at'' ''started_at_ms'')
         else if finished \<noteq> None then Err (ve_at ''unexpected_finished_at'' ''finished_at_ms'')
         else Ok ())
      else if st \<in> {Succeeded, Failed} then
        (if started = None then Err (ve_at ''missing_started_at'' ''started_at_ms'')
         else if finished = None then Err (ve_at ''missing_finished_at'' ''finished_at_ms'')
         else Ok ())
      else
        (if finished = None then Err (ve_at ''missing_finished_at'' ''finished_at_ms'')
         else Ok ()))"

fun both_after :: "u64 option \<Rightarrow> u64 option \<Rightarrow> bool" where
  "both_after (Some a) (Some b) = (a > b)"
| "both_after _ _ = False"

definition validate_lifecycle ::
    "activity_state \<Rightarrow> u64 option \<Rightarrow> u64 option \<Rightarrow> u64 option \<Rightarrow> validation_error + unit" where
  "validate_lifecycle st started finished occurred =
     and_then (validate_lifecycle_state st started finished)
       (\<lambda>_. if both_after started occurred then Err (ve_at ''non_monotonic_time'' ''occurred_at_ms'')
            else if both_after started finished
            then Err (ve_at ''non_monotonic_time'' ''finished_at_ms'')
            else if both_after occurred finished
            then Err (ve_at ''non_monotonic_time'' ''finished_at_ms'')
            else Ok ())"

lemma validate_len_Ok [simp]: "validate_len n p = Inr u \<longleftrightarrow> n \<le> MAX_COLLECTION_ITEMS"
  by (auto simp: validate_len_def)

lemma validate_text_Ok [simp]:
  "validate_text v p = Inr u \<longleftrightarrow> trim v \<noteq> [] \<and> length v \<le> MAX_TEXT_BYTES"
  by (auto simp: validate_text_def)

lemma first_duplicate_None: "first_duplicate i seen xs = None \<longleftrightarrow> distinct xs \<and> set xs \<inter> seen = {}"
  by (induction i seen xs rule: first_duplicate.induct) auto

lemma validate_unique_resources_Ok [simp]:
  "validate_unique_resources rs = Inr u \<longleftrightarrow> length rs \<le> MAX_COLLECTION_ITEMS \<and> distinct rs"
proof (cases "first_duplicate 0 {} rs")
  case None
  then show ?thesis
    using first_duplicate_None [of 0 "{}" rs] by (simp add: validate_unique_resources_def)
next
  case (Some i)
  then have "\<not> distinct rs" using first_duplicate_None [of 0 "{}" rs] by auto
  with Some show ?thesis by (simp add: validate_unique_resources_def)
qed

lemma validate_presence_Ok [simp]:
  "validate_presence p f = Inr u \<longleftrightarrow> (p = Offline \<longrightarrow> (\<exists>t. f = Stale t))"
  by (cases f) (auto simp: validate_presence_def)

section \<open>Hosts and devices\<close>

record dashboard_device =
  dd_id :: device_id
  dd_host_id :: host_id
  dd_display_name :: string
  dd_platform :: string
  dd_presence :: presence
  dd_freshness :: freshness
  dd_capabilities :: "string list"
  dd_permissions :: "string list"

record dashboard_host =
  dh_id :: host_id
  dh_display_name :: string
  dh_platform :: string
  dh_architecture :: string
  dh_presence :: presence
  dh_freshness :: freshness
  dh_trust :: trust_state
  dh_connection_path :: connection_path
  dh_capabilities :: "string list"
  dh_permissions :: "string list"
  dh_devices :: "dashboard_device list"

definition device_validate :: "dashboard_device \<Rightarrow> validation_error + unit" where
  "device_validate d =
     and_then (validate_text (dd_display_name d) ''display_name'')
       (\<lambda>_. and_then (validate_presence (dd_presence d) (dd_freshness d))
       (\<lambda>_. and_then (validate_len (length (dd_capabilities d)) ''capabilities'')
       (\<lambda>_. validate_len (length (dd_permissions d)) ''permissions'')))"

definition host_validate :: "dashboard_host \<Rightarrow> validation_error + unit" where
  "host_validate h =
     and_then (validate_text (dh_display_name h) ''display_name'')
       (\<lambda>_. and_then (validate_presence (dh_presence h) (dh_freshness h))
       (\<lambda>_. and_then (validate_len (length (dh_capabilities h)) ''capabilities'')
       (\<lambda>_. and_then (validate_len (length (dh_permissions h)) ''permissions'')
       (\<lambda>_. and_then (validate_len (length (dh_devices h)) ''devices'')
       (\<lambda>_. each_indexed
              (\<lambda>i d. and_then (map_err (ve_prepend (indexed ''devices'' i)) (device_validate d))
                 (\<lambda>_. if dd_host_id d \<noteq> dh_id h
                      then Err (ve_at ''device_host_mismatch'' (indexed ''devices'' i @ ''.host_id''))
                      else Ok ())) 0 (dh_devices h))))))"

lemma device_validate_Ok:
  "device_validate d = Inr () \<longleftrightarrow>
     trim (dd_display_name d) \<noteq> [] \<and> length (dd_display_name d) \<le> MAX_TEXT_BYTES
     \<and> (dd_presence d = Offline \<longrightarrow> (\<exists>t. dd_freshness d = Stale t))
     \<and> length (dd_capabilities d) \<le> MAX_COLLECTION_ITEMS
     \<and> length (dd_permissions d) \<le> MAX_COLLECTION_ITEMS"
  by (auto simp: device_validate_def)

lemma host_validate_Ok:
  "host_validate h = Inr () \<longleftrightarrow>
     trim (dh_display_name h) \<noteq> [] \<and> length (dh_display_name h) \<le> MAX_TEXT_BYTES
     \<and> (dh_presence h = Offline \<longrightarrow> (\<exists>t. dh_freshness h = Stale t))
     \<and> length (dh_capabilities h) \<le> MAX_COLLECTION_ITEMS
     \<and> length (dh_permissions h) \<le> MAX_COLLECTION_ITEMS
     \<and> length (dh_devices h) \<le> MAX_COLLECTION_ITEMS
     \<and> (\<forall>d \<in> set (dh_devices h). device_validate d = Inr () \<and> dd_host_id d = dh_id h)"
  by (auto simp: host_validate_def each_indexed_Ok all_set_conv_all_nth)

section \<open>Activities\<close>

record metric_snapshot =
  ms_current_memory_bytes :: metric_value
  ms_peak_memory_bytes :: metric_value
  ms_cpu_time_ms :: metric_value
  ms_process_count :: metric_value

record authorization =
  az_effect :: policy_effect
  az_rule_id :: "rule_id option"
  az_approval_id :: "approval_id option"

record activity_event =
  ae_activity_id :: activity_id
  ae_sequence :: u64
  ae_occurred_at_ms :: u64
  ae_principal_id :: principal_id
  ae_source_host_id :: host_id
  ae_target_host_id :: host_id
  ae_device_id :: "device_id option"
  ae_operation :: operation_id
  ae_resources :: "resource_class list"
  ae_remote_operation_sha256 :: "string option"
  ae_authorization :: authorization
  ae_state :: activity_state
  ae_message :: "display_message option"
  ae_metrics :: metric_snapshot
  ae_started_at_ms :: "u64 option"
  ae_finished_at_ms :: "u64 option"

record activity_summary =
  as_activity_id :: activity_id
  as_principal_id :: principal_id
  as_source_host_id :: host_id
  as_target_host_id :: host_id
  as_device_id :: "device_id option"
  as_operation :: operation_id
  as_resources :: "resource_class list"
  as_remote_operation_sha256 :: "string option"
  as_state :: activity_state
  as_started_at_ms :: "u64 option"
  as_finished_at_ms :: "u64 option"

fun metric_validate :: "metric_snapshot \<Rightarrow> validation_error + unit" where
  "metric_validate m =
     (case (ms_current_memory_bytes m, ms_peak_memory_bytes m) of
        (Available current, Available peak) \<Rightarrow>
          if peak < current then Err (ve_at ''invalid_metric_snapshot'' ''metrics.peak_memory_bytes'')
          else Ok ()
      | _ \<Rightarrow> Ok ())"

definition event_validate :: "activity_event \<Rightarrow> validation_error + unit" where
  "event_validate e =
     and_then (validate_unique_resources (ae_resources e))
       (\<lambda>_. and_then (metric_validate (ae_metrics e))
       (\<lambda>_. validate_lifecycle (ae_state e) (ae_started_at_ms e) (ae_finished_at_ms e)
              (Some (ae_occurred_at_ms e))))"

definition summary_of :: "activity_event \<Rightarrow> activity_summary" where
  "summary_of e =
     \<lparr>as_activity_id = ae_activity_id e, as_principal_id = ae_principal_id e,
      as_source_host_id = ae_source_host_id e, as_target_host_id = ae_target_host_id e,
      as_device_id = ae_device_id e, as_operation = ae_operation e, as_resources = ae_resources e,
      as_remote_operation_sha256 = ae_remote_operation_sha256 e, as_state = ae_state e,
      as_started_at_ms = ae_started_at_ms e, as_finished_at_ms = ae_finished_at_ms e\<rparr>"

definition summary_validate :: "activity_summary \<Rightarrow> validation_error + unit" where
  "summary_validate a =
     and_then (validate_unique_resources (as_resources a))
       (\<lambda>_. validate_lifecycle (as_state a) (as_started_at_ms a) (as_finished_at_ms a) None)"

section \<open>Leases, approvals, rules, audit records, warnings\<close>

record dashboard_lease =
  dbl_id :: lease_id
  dbl_owner_host_id :: host_id
  dbl_device_id :: device_id
  dbl_state :: lease_state

record approval_request =
  aq_id :: approval_id
  aq_activity_id :: activity_id
  aq_principal_id :: principal_id
  aq_source_host_id :: host_id
  aq_target_host_id :: host_id
  aq_device_id :: "device_id option"
  aq_operation :: operation_id
  aq_resources :: "resource_class list"
  aq_remote_operation_sha256 :: "string option"
  aq_requested_at_ms :: u64
  aq_expires_at_ms :: u64
  aq_risk :: string

record policy_rule =
  pr_id :: rule_id
  pr_revision :: u64
  pr_effect :: policy_effect
  pr_principal_id :: "principal_id option"
  pr_source_host_id :: "host_id option"
  pr_target_host_id :: "host_id option"
  pr_device_id :: "device_id option"
  pr_operation :: "operation_id option"
  pr_resources :: "resource_class list"
  pr_expires_at_ms :: "u64 option"
  pr_require_user_presence :: bool
  pr_user_presence :: "bool option"
  pr_physical_device :: "bool option"
  pr_match_device_exact :: bool
  pr_match_resources_exact :: bool
  pr_enabled :: bool
  pr_origin :: policy_origin

record dashboard_audit_record =
  da_sequence :: u64
  da_occurred_at_ms :: u64
  da_activity_id :: "activity_id option"
  da_principal_id :: principal_id
  da_source_host_id :: host_id
  da_target_host_id :: host_id
  da_device_id :: "device_id option"
  da_operation :: operation_id
  da_resources :: "resource_class list"
  da_decision :: policy_effect
  da_result :: audit_result
  da_redacted_message :: "display_message option"

record dashboard_warning =
  dw_code :: string
  dw_message :: display_message
  dw_host_id :: "host_id option"

record dashboard_snapshot =
  sn_revision :: u64
  sn_generated_at_ms :: u64
  sn_scope :: dashboard_scope
  sn_hosts :: "dashboard_host list"
  sn_activities :: "activity_summary list"
  sn_leases :: "dashboard_lease list"
  sn_pending_approvals :: "approval_request list"
  sn_warnings :: "dashboard_warning list"

record event_cursor =
  ec_epoch :: u64
  ec_sequence :: u64

definition message_validate :: "display_message \<Rightarrow> validation_error + unit" where
  "message_validate m = validate_len (length (dm_params m)) ''params''"

definition approval_validate :: "approval_request \<Rightarrow> validation_error + unit" where
  "approval_validate a =
     and_then (validate_unique_resources (aq_resources a))
       (\<lambda>_. if aq_requested_at_ms a \<ge> aq_expires_at_ms a
            then Err (ve_at ''non_monotonic_time'' ''expires_at_ms'') else Ok ())"

definition rule_validate :: "policy_rule \<Rightarrow> validation_error + unit" where
  "rule_validate r =
     and_then (validate_unique_resources (pr_resources r))
       (\<lambda>_. if pr_require_user_presence r \<and> pr_user_presence r \<noteq> None
            then Err (ve_at ''redundant_presence_constraints'' ''user_presence'') else Ok ())"

definition audit_validate :: "dashboard_audit_record \<Rightarrow> validation_error + unit" where
  "audit_validate a = validate_unique_resources (da_resources a)"

definition warning_validate :: "dashboard_warning \<Rightarrow> validation_error + unit" where
  "warning_validate w = message_validate (dw_message w)"

definition host_owns :: "dashboard_host list \<Rightarrow> dashboard_lease \<Rightarrow> bool" where
  "host_owns hosts l =
     is_some_and (\<lambda>h. list_ex (\<lambda>d. dd_id d = dbl_device_id l) (dh_devices h))
       (List.find (\<lambda>h. dh_id h = dbl_owner_host_id l) hosts)"

fun leases_validate ::
    "dashboard_host list \<Rightarrow> nat \<Rightarrow> lease_id set \<Rightarrow> dashboard_lease list \<Rightarrow> validation_error + unit" where
  "leases_validate hosts i seen [] = Ok ()"
| "leases_validate hosts i seen (l # ls) =
     (if dbl_id l \<in> seen then Err (ve_at_index ''duplicate_lease_id'' ''leases'' i)
      else if \<not> host_owns hosts l
      then Err (ve_at ''lease_device_mismatch'' (indexed ''leases'' i @ ''.device_id''))
      else leases_validate hosts (Suc i) (insert (dbl_id l) seen) ls)"

definition each_valid ::
    "string \<Rightarrow> ('a \<Rightarrow> validation_error + unit) \<Rightarrow> 'a list \<Rightarrow> validation_error + unit" where
  "each_valid name validate xs =
     each_indexed (\<lambda>i x. map_err (ve_prepend (indexed name i)) (validate x)) 0 xs"

definition snapshot_validate :: "dashboard_snapshot \<Rightarrow> validation_error + unit" where
  "snapshot_validate s =
     and_then (validate_len (length (sn_hosts s)) ''hosts'')
       (\<lambda>_. and_then (validate_len (length (sn_activities s)) ''activities'')
       (\<lambda>_. and_then (validate_len (length (sn_leases s)) ''leases'')
       (\<lambda>_. and_then (validate_len (length (sn_pending_approvals s)) ''pending_approvals'')
       (\<lambda>_. and_then (validate_len (length (sn_warnings s)) ''warnings'')
       (\<lambda>_. and_then (each_valid ''hosts'' host_validate (sn_hosts s))
       (\<lambda>_. and_then (each_valid ''activities'' summary_validate (sn_activities s))
       (\<lambda>_. and_then (leases_validate (sn_hosts s) 0 {} (sn_leases s))
       (\<lambda>_. and_then (each_valid ''pending_approvals'' approval_validate (sn_pending_approvals s))
       (\<lambda>_. each_valid ''warnings'' warning_validate (sn_warnings s))))))))))"

lemma each_valid_Ok: "each_valid n v xs = Inr u \<longleftrightarrow> (\<forall>x \<in> set xs. v x = Inr ())"
  by (simp add: each_valid_def each_indexed_Ok all_set_conv_all_nth)

lemma leases_validate_Ok:
  "leases_validate hosts i seen ls = Inr u \<longleftrightarrow>
     distinct (map dbl_id ls) \<and> dbl_id ` set ls \<inter> seen = {} \<and> (\<forall>l \<in> set ls. host_owns hosts l)"
  by (induction hosts i seen ls rule: leases_validate.induct) auto

text \<open>What a lifecycle is: which times each state has, and that they are in order.\<close>

definition lifecycle_ok :: "activity_state \<Rightarrow> u64 option \<Rightarrow> u64 option \<Rightarrow> u64 option \<Rightarrow> bool" where
  "lifecycle_ok st started finished occurred \<longleftrightarrow>
     (st \<in> {AwaitingApproval, Queued} \<longrightarrow> started = None)
     \<and> (st \<in> {Running, Reconnecting, Succeeded, Failed} \<longrightarrow> started \<noteq> None)
     \<and> (st \<in> {Succeeded, Failed, Denied, Cancelled} \<longleftrightarrow> finished \<noteq> None)
     \<and> (\<forall>a b. started = Some a \<longrightarrow> occurred = Some b \<longrightarrow> a \<le> b)
     \<and> (\<forall>a b. started = Some a \<longrightarrow> finished = Some b \<longrightarrow> a \<le> b)
     \<and> (\<forall>a b. occurred = Some a \<longrightarrow> finished = Some b \<longrightarrow> a \<le> b)"

lemma both_after_iff: "both_after x y \<longleftrightarrow> (\<exists>a b. x = Some a \<and> y = Some b \<and> a > b)"
  by (cases x; cases y) auto

lemma validate_lifecycle_Ok:
  "validate_lifecycle st started finished occurred = Inr () \<longleftrightarrow>
     lifecycle_ok st started finished occurred"
  by (cases st)
    (auto simp: validate_lifecycle_def validate_lifecycle_state_def lifecycle_ok_def both_after_iff
        not_less)

section \<open>Properties\<close>

text \<open>
  C17. Parsing an identifier yields a canonical one: it is non-empty, at most 256 bytes long, carries
  no surrounding white space, and parsing it again returns it unchanged.
\<close>
theorem validated_id_canonical:
  assumes "validated_id_parse value = Ok w"
  shows "w \<noteq> [] \<and> length w \<le> MAX_ID_BYTES \<and> trim w = w \<and> validated_id_parse w = Ok w"
proof -
  have w: "w = trim value" "trim value \<noteq> []" "length value \<le> MAX_ID_BYTES"
    using assms by (auto simp: validated_id_parse_def split: if_splits)
  then have "length w \<le> MAX_ID_BYTES" using trim_length le_trans by blast
  with w show ?thesis by (simp add: validated_id_parse_def)
qed

theorem validated_id_canonical_witness:
  "validated_id_parse '' mac-1 '' = Ok ''mac-1'' \<and> validated_id_parse ''mac-1'' = Ok ''mac-1''"
proof -
  have h: "validated_id_parse '' mac-1 '' = Ok ''mac-1''" by code_simp
  show ?thesis using h validated_id_canonical [OF h] by simp
qed

text \<open>
  An activity event is accepted exactly when its resources are distinct and within bounds, its
  peak memory is not below the current one, and its times fit its state and are in order; the
  summary the dashboard derives from an accepted event is then accepted too.
\<close>
theorem event_accepted_iff:
  "(event_validate e = Ok () \<longleftrightarrow>
      length (ae_resources e) \<le> MAX_COLLECTION_ITEMS \<and> distinct (ae_resources e)
      \<and> metric_validate (ae_metrics e) = Ok ()
      \<and> lifecycle_ok (ae_state e) (ae_started_at_ms e) (ae_finished_at_ms e)
          (Some (ae_occurred_at_ms e)))
   \<and> (event_validate e = Ok () \<longrightarrow> summary_validate (summary_of e) = Ok ())"
  by (auto simp: event_validate_def summary_validate_def summary_of_def validate_lifecycle_Ok
      lifecycle_ok_def)

theorem event_accepted_iff_witness:
  "let e = \<lparr>ae_activity_id = ''a'', ae_sequence = 1, ae_occurred_at_ms = 5, ae_principal_id = ''p'',
       ae_source_host_id = ''s'', ae_target_host_id = ''t'', ae_device_id = None,
       ae_operation = ''op'', ae_resources = [WorkspaceRead], ae_remote_operation_sha256 = None,
       ae_authorization = \<lparr>az_effect = Allow, az_rule_id = None, az_approval_id = None\<rparr>,
       ae_state = Running, ae_message = None,
       ae_metrics = \<lparr>ms_current_memory_bytes = Available 1, ms_peak_memory_bytes = Available 2,
         ms_cpu_time_ms = Available 0, ms_process_count = Available 1\<rparr>,
       ae_started_at_ms = Some 4, ae_finished_at_ms = None\<rparr>
   in event_validate e = Ok () \<and> summary_validate (summary_of e) = Ok ()"
proof -
  let ?e = "\<lparr>ae_activity_id = ''a'', ae_sequence = 1, ae_occurred_at_ms = 5, ae_principal_id = ''p'',
       ae_source_host_id = ''s'', ae_target_host_id = ''t'', ae_device_id = None,
       ae_operation = ''op'', ae_resources = [WorkspaceRead], ae_remote_operation_sha256 = None,
       ae_authorization = \<lparr>az_effect = Allow, az_rule_id = None, az_approval_id = None\<rparr>,
       ae_state = Running, ae_message = None,
       ae_metrics = \<lparr>ms_current_memory_bytes = Available 1, ms_peak_memory_bytes = Available 2,
         ms_cpu_time_ms = Available 0, ms_process_count = Available 1\<rparr>,
       ae_started_at_ms = Some 4, ae_finished_at_ms = None\<rparr>"
  have "event_validate ?e = Ok ()"
    using event_accepted_iff [of ?e] by (simp add: lifecycle_ok_def MAX_COLLECTION_ITEMS_def)
  with event_accepted_iff [of ?e] show ?thesis by (simp add: Let_def)
qed

text \<open>
  A dashboard snapshot is accepted exactly when every collection is within bounds, every host,
  activity, approval and warning in it is valid, lease identifiers are distinct, and each lease names
  a device of the host that owns it.
\<close>
theorem snapshot_accepted_iff:
  "snapshot_validate s = Ok () \<longleftrightarrow>
     length (sn_hosts s) \<le> MAX_COLLECTION_ITEMS \<and> length (sn_activities s) \<le> MAX_COLLECTION_ITEMS
     \<and> length (sn_leases s) \<le> MAX_COLLECTION_ITEMS
     \<and> length (sn_pending_approvals s) \<le> MAX_COLLECTION_ITEMS
     \<and> length (sn_warnings s) \<le> MAX_COLLECTION_ITEMS
     \<and> list_all (\<lambda>h. host_validate h = Ok ()) (sn_hosts s)
     \<and> list_all (\<lambda>a. summary_validate a = Ok ()) (sn_activities s)
     \<and> distinct (map dbl_id (sn_leases s)) \<and> list_all (host_owns (sn_hosts s)) (sn_leases s)
     \<and> list_all (\<lambda>a. approval_validate a = Ok ()) (sn_pending_approvals s)
     \<and> list_all (\<lambda>w. warning_validate w = Ok ()) (sn_warnings s)"
  by (auto simp: snapshot_validate_def each_valid_Ok leases_validate_Ok list_all_iff)

text \<open>
  Message codes and their wire strings are in one-to-one correspondence: reading the string of a
  code returns the code, and a string that is read at all is the string of the code it is read as.
\<close>
theorem message_code_roundtrip:
  "message_code_of (message_code_str c) = Some c
   \<and> (\<forall>v d. message_code_of v = Some d \<longleftrightarrow> v = message_code_str d)"
proof -
  have a: "message_code_of (message_code_str d) = Some d" for d
    by (cases d) (simp_all add: message_code_of_def)
  have "v = message_code_str d" if "message_code_of v = Some d" for v d
    using that unfolding message_code_of_def
    by (simp only: split: if_split_asm) (simp_all)
  with a show ?thesis by auto
qed

end
