(* ===== verification/EventLog.thy ===== *)
theory EventLog
  imports Model
begin

text \<open>
  The bounded activity journal (\<open>dashboard/event_log.rs\<close>): appends with idempotency keys and
  per-activity sequence numbers, eviction of the oldest events, cursor reads in pages, and the
  subscribers' acknowledgements. The mutex makes every method one step on \<open>journal\<close>.
  \<open>enc\<close> is the JSON encoding of an event (\<open>serde_json::to_vec\<close>) and \<open>sha\<close> the digest of it
  (\<open>Sha256::digest\<close>); both are third-party and stay parameters. \<open>None\<close> is a panic.
\<close>

section \<open>State\<close>

definition MAX_EVENTS :: nat where "MAX_EVENTS = 1000"
definition MAX_EVENT_BYTES :: nat where "MAX_EVENT_BYTES = 8 * 1024 * 1024"
definition MAX_PAGE_EVENTS :: nat where "MAX_PAGE_EVENTS = 256"
definition MAX_PAGE_BYTES :: nat where "MAX_PAGE_BYTES = 256 * 1024"
definition MAX_SUBSCRIBERS :: nat where "MAX_SUBSCRIBERS = 32"
definition SUBSCRIBER_IDLE_MS :: nat where "SUBSCRIBER_IDLE_MS = 15000"

record read_limit =
  rl_max_events :: nat
  rl_max_bytes :: nat

datatype event_read =
    Events "activity_event list" event_cursor
  | CursorAhead event_cursor
  | ResyncRequired event_cursor u64
  | LimitExceeded

datatype append_outcome = Appended | DuplicateCollapsed

datatype append_error =
    InvalidEvent string
  | EmptyIdempotencyKey
  | IdempotencyKeyTooLong
  | IdempotencyConflict
  | NonMonotonicSequence u64
  | SequenceOverflow
  | EpochOverflow
  | AppendLimitExceeded nat nat

datatype 'p append_transaction_error = Append append_error | Precommit 'p

datatype subscribe_error = SubscriberExists | SubscriberLimit

datatype acknowledge_error =
    UnknownSubscriber
  | AckCursorAhead
  | WrongEpoch
  | AckResyncRequired event_cursor u64

datatype rotate_error = EpochNotIncreasing

record stored_event =
  se_cursor_sequence :: u64
  se_event :: activity_event
  se_serialized_bytes :: nat
  se_idempotency_key :: string

record subscriber =
  sb_acknowledged :: event_cursor
  sb_last_active_ms :: u64

record journal =
  j_epoch :: u64
  j_snapshot_revision :: u64
  j_next_cursor :: u64
  j_events :: "stored_event list"
  j_serialized_bytes :: nat
  j_idempotency :: "(string, string) hash_map"
  j_activity_sequences :: "(activity_id, u64) hash_map"
  j_subscribers :: "(subscriber_id, subscriber) hash_map"
  j_max_events :: nat
  j_max_bytes :: nat

definition with_bounds :: "u64 \<Rightarrow> u64 \<Rightarrow> nat \<Rightarrow> nat \<Rightarrow> journal" where
  "with_bounds epoch revision max_events max_bytes =
     \<lparr>j_epoch = epoch, j_snapshot_revision = revision, j_next_cursor = 1, j_events = [],
      j_serialized_bytes = 0, j_idempotency = [], j_activity_sequences = [], j_subscribers = [],
      j_max_events = min max_events MAX_EVENTS, j_max_bytes = min max_bytes MAX_EVENT_BYTES\<rparr>"

definition new_journal :: "u64 \<Rightarrow> u64 \<Rightarrow> journal" where
  "new_journal epoch revision = with_bounds epoch revision MAX_EVENTS MAX_EVENT_BYTES"

section \<open>Appending\<close>

definition rotate_locked :: "u64 \<Rightarrow> u64 \<Rightarrow> journal \<Rightarrow> journal" where
  "rotate_locked epoch revision j =
     j\<lparr>j_epoch := epoch, j_snapshot_revision := revision, j_next_cursor := 1, j_events := [],
       j_serialized_bytes := 0, j_idempotency := [], j_activity_sequences := [],
       j_subscribers := []\<rparr>"

text \<open>The eviction loop; \<open>None\<close> is its \<open>expect\<close> on an empty journal.\<close>

fun evict :: "nat \<Rightarrow> nat \<Rightarrow> stored_event list \<Rightarrow> nat \<Rightarrow> (string, string) hash_map
    \<Rightarrow> (stored_event list \<times> nat \<times> (string, string) hash_map) option" where
  "evict max_events room [] bytes idem =
     (if max_events = 0 \<or> bytes > room then None else Some ([], bytes, idem))"
| "evict max_events room (e # es) bytes idem =
     (if length (e # es) \<ge> max_events \<or> bytes > room
      then evict max_events room es (bytes - se_serialized_bytes e)
             (hm_remove (se_idempotency_key e) idem)
      else Some (e # es, bytes, idem))"

definition expected_sequence :: "u64 option \<Rightarrow> u64 option" where
  "expected_sequence previous =
     (case previous of None \<Rightarrow> Some 1 | Some v \<Rightarrow> checked_add64 v 1)"

text \<open>The tail of an append: make room, then publish the event at the reserved position.\<close>

definition publish_event ::
    "string \<Rightarrow> string \<Rightarrow> string \<Rightarrow> activity_event \<Rightarrow> u64 \<Rightarrow> journal \<Rightarrow> journal option" where
  "publish_event json digest key event next j =
     (case evict (j_max_events j) (j_max_bytes j - length json) (j_events j)
             (j_serialized_bytes j) (j_idempotency j) of
        None \<Rightarrow> None
      | Some (evs, bytes, idem) \<Rightarrow>
          Some (j\<lparr>j_next_cursor := next,
                  j_serialized_bytes := bytes + length json,
                  j_activity_sequences :=
                    hm_insert (ae_activity_id event) (ae_sequence event) (j_activity_sequences j),
                  j_idempotency := hm_insert key digest idem,
                  j_events := evs @ [\<lparr>se_cursor_sequence = j_next_cursor j, se_event = event,
                    se_serialized_bytes = length json, se_idempotency_key = key\<rparr>]\<rparr>))"

text \<open>A new activity that finds the sequence table full starts a new epoch, which empties the
  journal. (The code then restores the previous sequence of the activity, which is absent here.)\<close>

definition make_slot :: "u64 option \<Rightarrow> journal \<Rightarrow> journal option" where
  "make_slot previous j =
     (if previous = None \<and> length (j_activity_sequences j) \<ge> MAX_EVENTS
      then map_option (\<lambda>e. rotate_locked e (j_snapshot_revision j) j) (checked_add64 (j_epoch j) 1)
      else Some j)"

definition append_locked ::
    "string \<Rightarrow> string \<Rightarrow> string \<Rightarrow> activity_event \<Rightarrow> 'p + unit \<Rightarrow> journal
       \<Rightarrow> (('p append_transaction_error + append_outcome) \<times> journal) option" where
  "append_locked json digest key event precommit j =
     (case hm_get (j_idempotency j) key of
        Some existing \<Rightarrow>
          Some (if existing = digest then Ok DuplicateCollapsed else Err (Append IdempotencyConflict), j)
      | None \<Rightarrow>
     if ae_sequence event = u64_max then Some (Err (Append SequenceOverflow), j)
     else if j_max_events j = 0 \<or> length json > j_max_bytes j
     then Some (Err (Append (AppendLimitExceeded (length json) (j_max_bytes j))), j)
     else let previous = hm_get (j_activity_sequences j) (ae_activity_id event) in
     case expected_sequence previous of
       None \<Rightarrow> Some (Err (Append SequenceOverflow), j)
     | Some expected \<Rightarrow>
     if ae_sequence event \<noteq> expected
     then Some (Err (Append (NonMonotonicSequence expected)), j)
     else case make_slot previous j of
       None \<Rightarrow> Some (Err (Append EpochOverflow), j)
     | Some j1 \<Rightarrow>
     case checked_add64 (j_next_cursor j1) 1 of
       None \<Rightarrow> Some (Err (Append SequenceOverflow), j1)
     | Some next \<Rightarrow>
     case precommit of
       Inl e \<Rightarrow> Some (Err (Precommit e), j1)
     | Inr _ \<Rightarrow> map_option (\<lambda>j2. (Ok Appended, j2)) (publish_event json digest key event next j1))"

definition append_with_precommit ::
    "(activity_event \<Rightarrow> string) \<Rightarrow> (string \<Rightarrow> string) \<Rightarrow> string \<Rightarrow> activity_event \<Rightarrow> 'p + unit
       \<Rightarrow> journal \<Rightarrow> (('p append_transaction_error + append_outcome) \<times> journal) option" where
  "append_with_precommit enc sha key event precommit j =
     (case event_validate event of
        Inl e \<Rightarrow> Some (Err (Append (InvalidEvent (ve_code e))), j)
      | Inr _ \<Rightarrow>
     if trim key = [] then Some (Err (Append EmptyIdempotencyKey), j)
     else if length key > 256 then Some (Err (Append IdempotencyKeyTooLong), j)
     else append_locked (enc event) (sha (enc event)) key event precommit j)"

definition append_event ::
    "(activity_event \<Rightarrow> string) \<Rightarrow> (string \<Rightarrow> string) \<Rightarrow> string \<Rightarrow> activity_event \<Rightarrow> journal
       \<Rightarrow> ((unit append_transaction_error + append_outcome) \<times> journal) option" where
  "append_event enc sha key event j = append_with_precommit enc sha key event (Ok ()) j"

definition preflight_append ::
    "(activity_event \<Rightarrow> string) \<Rightarrow> (string \<Rightarrow> string) \<Rightarrow> string \<Rightarrow> activity_event \<Rightarrow> journal
       \<Rightarrow> append_error + unit" where
  "preflight_append enc sha key event j =
     (case event_validate event of
        Inl e \<Rightarrow> Err (InvalidEvent (ve_code e))
      | Inr _ \<Rightarrow>
     if trim key = [] then Err EmptyIdempotencyKey
     else if length key > 256 then Err IdempotencyKeyTooLong
     else if ae_sequence event = u64_max then Err SequenceOverflow
     else if j_max_events j = 0 \<or> length (enc event) > j_max_bytes j
     then Err (AppendLimitExceeded (length (enc event)) (j_max_bytes j))
     else case hm_get (j_idempotency j) key of
       Some existing \<Rightarrow> if existing = sha (enc event) then Ok () else Err IdempotencyConflict
     | None \<Rightarrow>
     case expected_sequence (hm_get (j_activity_sequences j) (ae_activity_id event)) of
       None \<Rightarrow> Err SequenceOverflow
     | Some expected \<Rightarrow>
         if ae_sequence event \<noteq> expected then Err (NonMonotonicSequence expected) else Ok ())"

section \<open>Reading\<close>

definition newest_cursor :: "journal \<Rightarrow> u64" where
  "newest_cursor j = j_next_cursor j - 1"

definition oldest_event :: "journal \<Rightarrow> u64 option" where
  "oldest_event j = (case j_events j of [] \<Rightarrow> None | e # _ \<Rightarrow> Some (se_cursor_sequence e))"

text \<open>The page loop: the events taken, the cursor reached and the bytes used; \<open>None\<close> when the
  first event already exceeds the byte limit.\<close>

fun page ::
    "(activity_event \<Rightarrow> bool) \<Rightarrow> nat \<Rightarrow> nat \<Rightarrow> stored_event list \<Rightarrow> activity_event list \<Rightarrow> u64 \<Rightarrow> nat
       \<Rightarrow> (activity_event list \<times> u64) option" where
  "page incl el bl [] evs next used = Some (evs, next)"
| "page incl el bl (e # es) evs next used =
     (if length evs = el then Some (evs, next)
      else if \<not> incl (se_event e) then page incl el bl es evs (se_cursor_sequence e) used
      else let sep = (if evs = [] then 0 else 1) in
        if sat_add64 (sat_add64 used sep) (se_serialized_bytes e) > bl
        then (if evs = [] then None else Some (evs, next))
        else page incl el bl es (evs @ [se_event e]) (se_cursor_sequence e)
               (used + (sep + se_serialized_bytes e)))"

definition read_filtered ::
    "event_cursor \<Rightarrow> read_limit \<Rightarrow> (activity_event \<Rightarrow> bool) \<Rightarrow> journal \<Rightarrow> event_read" where
  "read_filtered c limit incl j =
     (if ec_epoch c \<noteq> j_epoch j
      then ResyncRequired \<lparr>ec_epoch = j_epoch j, ec_sequence =
             (case oldest_event j of None \<Rightarrow> newest_cursor j | Some v \<Rightarrow> v - 1)\<rparr> (j_snapshot_revision j)
      else if ec_sequence c > newest_cursor j
      then CursorAhead \<lparr>ec_epoch = j_epoch j, ec_sequence = newest_cursor j\<rparr>
      else if is_some_and (\<lambda>oldest. ec_sequence c < oldest - 1) (oldest_event j)
      then ResyncRequired \<lparr>ec_epoch = j_epoch j, ec_sequence =
             (case oldest_event j of None \<Rightarrow> 0 | Some v \<Rightarrow> v - 1)\<rparr> (j_snapshot_revision j)
      else let el = min (rl_max_events limit) MAX_PAGE_EVENTS;
               bl = min (rl_max_bytes limit) MAX_PAGE_BYTES in
      if el = 0 \<or> bl = 0 then LimitExceeded
      else case page incl el bl (filter (\<lambda>e. se_cursor_sequence e > ec_sequence c) (j_events j))
                  [] (ec_sequence c) 2 of
        None \<Rightarrow> LimitExceeded
      | Some (evs, next) \<Rightarrow> Events evs \<lparr>ec_epoch = j_epoch j, ec_sequence = next\<rparr>)"

definition read_events :: "event_cursor \<Rightarrow> read_limit \<Rightarrow> journal \<Rightarrow> event_read" where
  "read_events c limit j = read_filtered c limit (\<lambda>_. True) j"

section \<open>Subscribers, restoring, rotation\<close>

definition subscribe :: "subscriber_id \<Rightarrow> u64 \<Rightarrow> journal \<Rightarrow> (subscribe_error + unit) \<times> journal" where
  "subscribe i now j =
     (if hm_has (j_subscribers j) i then (Err SubscriberExists, j)
      else if length (j_subscribers j) \<ge> MAX_SUBSCRIBERS then (Err SubscriberLimit, j)
      else (Ok (), j\<lparr>j_subscribers := hm_insert i
             \<lparr>sb_acknowledged = \<lparr>ec_epoch = j_epoch j, ec_sequence = 0\<rparr>,
              sb_last_active_ms = now\<rparr> (j_subscribers j)\<rparr>))"

definition restore_activity_sequence ::
    "activity_id \<Rightarrow> u64 \<Rightarrow> journal \<Rightarrow> (append_error + unit) \<times> journal" where
  "restore_activity_sequence a n j =
     (if n = 0 \<or> n = u64_max then (Err SequenceOverflow, j)
      else if length (j_activity_sequences j) \<ge> MAX_EVENTS \<and> \<not> hm_has (j_activity_sequences j) a
      then (Err (AppendLimitExceeded 0 MAX_EVENTS), j)
      else if is_some_and (\<lambda>existing. existing \<noteq> n) (hm_get (j_activity_sequences j) a)
      then (Err IdempotencyConflict, j)
      else (Ok (), j\<lparr>j_activity_sequences := hm_insert a n (j_activity_sequences j)\<rparr>))"

definition acknowledge ::
    "subscriber_id \<Rightarrow> event_cursor \<Rightarrow> u64 \<Rightarrow> journal \<Rightarrow> (acknowledge_error + unit) \<times> journal" where
  "acknowledge i c now j =
     (if ec_epoch c \<noteq> j_epoch j then (Err WrongEpoch, j)
      else if ec_sequence c \<ge> j_next_cursor j then (Err AckCursorAhead, j)
      else if is_some_and (\<lambda>oldest. ec_sequence c < oldest - 1) (oldest_event j)
      then (Err (AckResyncRequired \<lparr>ec_epoch = j_epoch j, ec_sequence =
              (case oldest_event j of None \<Rightarrow> 0 | Some v \<Rightarrow> v - 1)\<rparr> (j_snapshot_revision j)), j)
      else case hm_get (j_subscribers j) i of
        None \<Rightarrow> (Err UnknownSubscriber, j)
      | Some s \<Rightarrow>
          (Ok (), j\<lparr>j_subscribers := hm_insert i
             \<lparr>sb_acknowledged =
                (if ec_sequence c \<ge> ec_sequence (sb_acknowledged s) then c else sb_acknowledged s),
              sb_last_active_ms = now\<rparr> (j_subscribers j)\<rparr>))"

definition expire_idle :: "u64 \<Rightarrow> journal \<Rightarrow> nat \<times> journal" where
  "expire_idle now j =
     (let kept = filter (\<lambda>(i, s). now - sb_last_active_ms s \<le> SUBSCRIBER_IDLE_MS) (j_subscribers j)
      in (length (j_subscribers j) - length kept, j\<lparr>j_subscribers := kept\<rparr>))"

definition rotate_epoch :: "u64 \<Rightarrow> u64 \<Rightarrow> journal \<Rightarrow> (rotate_error + unit) \<times> journal" where
  "rotate_epoch epoch revision j =
     (if epoch \<le> j_epoch j then (Err EpochNotIncreasing, j)
      else (Ok (), rotate_locked epoch revision j))"

definition subscriber_cursor :: "subscriber_id \<Rightarrow> journal \<Rightarrow> event_cursor option" where
  "subscriber_cursor i j = map_option sb_acknowledged (hm_get (j_subscribers j) i)"

section \<open>Invariant\<close>

definition size_inv :: "journal \<Rightarrow> bool" where
  "size_inv j \<longleftrightarrow> j_max_events j \<le> MAX_EVENTS \<and> j_max_bytes j \<le> MAX_EVENT_BYTES
     \<and> length (j_events j) \<le> j_max_events j
     \<and> j_serialized_bytes j = sum_list (map se_serialized_bytes (j_events j))
     \<and> j_serialized_bytes j \<le> j_max_bytes j"

definition cursor_inv :: "journal \<Rightarrow> bool" where
  "cursor_inv j \<longleftrightarrow> length (j_events j) < j_next_cursor j
     \<and> (j_events j = [] \<longrightarrow> j_next_cursor j = 1)
     \<and> map se_cursor_sequence (j_events j) = [j_next_cursor j - length (j_events j) ..< j_next_cursor j]"

definition idem_inv :: "(activity_event \<Rightarrow> string) \<Rightarrow> (string \<Rightarrow> string) \<Rightarrow> journal \<Rightarrow> bool" where
  "idem_inv enc sha j \<longleftrightarrow> distinct (map se_idempotency_key (j_events j))
     \<and> (\<forall>k. hm_has (j_idempotency j) k \<longleftrightarrow> k \<in> se_idempotency_key ` set (j_events j))
     \<and> (\<forall>e \<in> set (j_events j).
          hm_get (j_idempotency j) (se_idempotency_key e) = Some (sha (enc (se_event e)))
          \<and> se_serialized_bytes e = length (enc (se_event e))
          \<and> length (enc (se_event e)) \<le> j_max_bytes j \<and> ae_sequence (se_event e) \<noteq> u64_max)"

text \<open>Within one activity the events in the journal carry increasing sequence numbers, none above
  the number the journal remembers for the activity.\<close>

definition sequence_inv :: "journal \<Rightarrow> bool" where
  "sequence_inv j \<longleftrightarrow>
     (\<forall>e \<in> set (j_events j). \<exists>n. hm_get (j_activity_sequences j) (ae_activity_id (se_event e)) = Some n
        \<and> ae_sequence (se_event e) \<le> n)
     \<and> sorted_wrt (\<lambda>x y. ae_activity_id (se_event x) = ae_activity_id (se_event y) \<longrightarrow>
          ae_sequence (se_event x) < ae_sequence (se_event y)) (j_events j)"

definition table_inv :: "journal \<Rightarrow> bool" where
  "table_inv j \<longleftrightarrow> hm_wf (j_activity_sequences j) \<and> length (j_activity_sequences j) \<le> MAX_EVENTS
     \<and> hm_wf (j_subscribers j) \<and> length (j_subscribers j) \<le> MAX_SUBSCRIBERS
     \<and> (\<forall>i s. hm_get (j_subscribers j) i = Some s \<longrightarrow>
          ec_epoch (sb_acknowledged s) = j_epoch j
          \<and> ec_sequence (sb_acknowledged s) < j_next_cursor j)"

definition journal_inv :: "(activity_event \<Rightarrow> string) \<Rightarrow> (string \<Rightarrow> string) \<Rightarrow> journal \<Rightarrow> bool" where
  "journal_inv enc sha j \<longleftrightarrow>
     size_inv j \<and> cursor_inv j \<and> idem_inv enc sha j \<and> sequence_inv j \<and> table_inv j"

lemmas journal_inv_defs = journal_inv_def size_inv_def cursor_inv_def idem_inv_def
  sequence_inv_def table_inv_def

lemma journal_inv_init: "journal_inv enc sha (with_bounds epoch revision me mb)"
  by (simp add: journal_inv_defs with_bounds_def)

lemma journal_inv_rotate: "journal_inv enc sha j \<Longrightarrow> journal_inv enc sha (rotate_locked epoch revision j)"
  by (simp add: journal_inv_defs rotate_locked_def)

subsection \<open>Eviction drops a prefix and always makes room\<close>

lemma evict_Some:
  assumes "evict me room es bytes idem = Some (es', bytes', idem')"
    and "bytes = sum_list (map se_serialized_bytes es)"
  shows "\<exists>gone. es = gone @ es' \<and> length es' < me \<and> bytes' \<le> room
     \<and> bytes' = sum_list (map se_serialized_bytes es')
     \<and> idem' = fold hm_remove (map se_idempotency_key gone) idem"
  using assms
proof (induction me room es bytes idem rule: evict.induct)
  case (1 me room bytes idem)
  then show ?case by (auto split: if_splits)
next
  case (2 me room e es bytes idem)
  show ?case
  proof (cases "length (e # es) \<ge> me \<or> bytes > room")
    case True
    then have "evict me room es (bytes - se_serialized_bytes e)
        (hm_remove (se_idempotency_key e) idem) = Some (es', bytes', idem')"
      using 2(2) by simp
    from 2(1) [OF True this] 2(3) obtain gone where
      g: "es = gone @ es'" "length es' < me" "bytes' \<le> room"
        "bytes' = sum_list (map se_serialized_bytes es')"
        "idem' = fold hm_remove (map se_idempotency_key gone) (hm_remove (se_idempotency_key e) idem)"
      by auto
    then have "e # es = (e # gone) @ es'
        \<and> idem' = fold hm_remove (map se_idempotency_key (e # gone)) idem" by simp
    with g show ?thesis by blast
  next
    case False
    then have "es' = e # es" "bytes' = bytes" "idem' = idem" using 2(2) by auto
    then have "e # es = [] @ es' \<and> idem' = fold hm_remove (map se_idempotency_key []) idem" by simp
    then show ?thesis using False 2(3) \<open>es' = e # es\<close> \<open>bytes' = bytes\<close> by (metis not_less not_le)
  qed
qed

lemma evict_total:
  "0 < me \<Longrightarrow> bytes = sum_list (map se_serialized_bytes es) \<Longrightarrow>
     \<exists>r. evict me room es bytes idem = Some r"
  by (induction me room es bytes idem rule: evict.induct) auto

subsection \<open>Publishing keeps the invariant\<close>

lemma keys_after_eviction:
  assumes "distinct (map se_idempotency_key (gone @ es'))"
    and "\<forall>k. hm_has idem k \<longleftrightarrow> k \<in> se_idempotency_key ` set (gone @ es')"
  shows "hm_has (fold hm_remove (map se_idempotency_key gone) idem) k
     \<longleftrightarrow> k \<in> se_idempotency_key ` set es'"
    and "k \<in> se_idempotency_key ` set es' \<Longrightarrow>
      hm_get (fold hm_remove (map se_idempotency_key gone) idem) k = hm_get idem k"
proof -
  have disj: "k \<in> se_idempotency_key ` set es' \<Longrightarrow> k \<notin> se_idempotency_key ` set gone"
    using assms(1) by auto
  show "hm_has (fold hm_remove (map se_idempotency_key gone) idem) k
     \<longleftrightarrow> k \<in> se_idempotency_key ` set es'"
    using assms(2) disj hm.fold_del [of "map se_idempotency_key gone" idem k]
    by (auto simp: hm_has_def)
  show "k \<in> se_idempotency_key ` set es' \<Longrightarrow>
      hm_get (fold hm_remove (map se_idempotency_key gone) idem) k = hm_get idem k"
    using disj by (simp add: hm.fold_del)
qed

lemma upt_suffix: "gone @ es = [a ..< b] \<Longrightarrow> es = [b - length es ..< b]"
proof -
  assume h: "gone @ es = [a ..< b]"
  then have "es = drop (length gone) [a ..< b]" by (metis append_eq_conv_conj)
  moreover have "length gone + length es = b - a" using h by (metis length_append length_upt)
  ultimately show ?thesis by (cases "a + length gone \<le> b") simp_all
qed

lemma publish_event_spec:
  assumes inv: "journal_inv enc sha j" and me: "j_max_events j \<noteq> 0"
    and len: "length json \<le> j_max_bytes j"
  shows "\<exists>gone kept idem. j_events j = gone @ kept \<and> length kept < j_max_events j
     \<and> sum_list (map se_serialized_bytes kept) \<le> j_max_bytes j - length json
     \<and> idem = fold hm_remove (map se_idempotency_key gone) (j_idempotency j)
     \<and> publish_event json digest key ev next j =
         Some (j\<lparr>j_next_cursor := next,
           j_serialized_bytes := sum_list (map se_serialized_bytes kept) + length json,
           j_activity_sequences := hm_insert (ae_activity_id ev) (ae_sequence ev) (j_activity_sequences j),
           j_idempotency := hm_insert key digest idem,
           j_events := kept @ [\<lparr>se_cursor_sequence = j_next_cursor j, se_event = ev,
             se_serialized_bytes = length json, se_idempotency_key = key\<rparr>]\<rparr>)"
proof -
  have bytes: "j_serialized_bytes j = sum_list (map se_serialized_bytes (j_events j))"
    using inv by (simp add: journal_inv_def size_inv_def)
  obtain r where r: "evict (j_max_events j) (j_max_bytes j - length json) (j_events j)
      (j_serialized_bytes j) (j_idempotency j) = Some r"
    using evict_total [OF _ bytes] me by blast
  obtain kept b idem where k: "r = (kept, b, idem)" by (cases r)
  from evict_Some [OF r [unfolded k] bytes] obtain gone where
    g: "j_events j = gone @ kept" "length kept < j_max_events j" "b \<le> j_max_bytes j - length json"
      "b = sum_list (map se_serialized_bytes kept)"
      "idem = fold hm_remove (map se_idempotency_key gone) (j_idempotency j)" by blast
  show ?thesis
    using g r k by (intro exI [of _ gone] exI [of _ kept] exI [of _ idem])
      (simp add: publish_event_def)
qed

definition append_ready :: "activity_event \<Rightarrow> journal \<Rightarrow> bool" where
  "append_ready ev j \<longleftrightarrow>
     expected_sequence (hm_get (j_activity_sequences j) (ae_activity_id ev)) = Some (ae_sequence ev)
     \<and> (hm_has (j_activity_sequences j) (ae_activity_id ev)
        \<or> length (j_activity_sequences j) < MAX_EVENTS)"

lemma expected_sequence_grows:
  "expected_sequence (Some n) = Some m \<Longrightarrow> n < m"
  by (auto simp: expected_sequence_def checked_add64_Some)

lemma publish_event_inv:
  assumes inv: "journal_inv enc sha j" and me: "j_max_events j \<noteq> 0"
    and len: "length (enc ev) \<le> j_max_bytes j" and fresh: "hm_get (j_idempotency j) key = None"
    and seq: "ae_sequence ev \<noteq> u64_max" and ready: "append_ready ev j"
  shows "\<exists>j'. publish_event (enc ev) (sha (enc ev)) key ev (j_next_cursor j + 1) j = Some j'
     \<and> journal_inv enc sha j'"
proof -
  let ?new = "\<lparr>se_cursor_sequence = j_next_cursor j, se_event = ev,
             se_serialized_bytes = length (enc ev), se_idempotency_key = key\<rparr>"
  obtain gone kept idem where split: "j_events j = gone @ kept"
    and short: "length kept < j_max_events j"
    and small: "sum_list (map se_serialized_bytes kept) \<le> j_max_bytes j - length (enc ev)"
    and idem: "idem = fold hm_remove (map se_idempotency_key gone) (j_idempotency j)"
    and pub: "publish_event (enc ev) (sha (enc ev)) key ev (j_next_cursor j + 1) j =
         Some (j\<lparr>j_next_cursor := j_next_cursor j + 1,
           j_serialized_bytes := sum_list (map se_serialized_bytes kept) + length (enc ev),
           j_activity_sequences := hm_insert (ae_activity_id ev) (ae_sequence ev) (j_activity_sequences j),
           j_idempotency := hm_insert key (sha (enc ev)) idem,
           j_events := kept @ [?new]\<rparr>)" (is "_ = Some ?j")
    using publish_event_spec [OF inv me len] by blast
  have "size_inv ?j"
    using inv short small len by (auto simp: journal_inv_def size_inv_def)
  moreover have "cursor_inv ?j"
  proof -
    have c: "length (gone @ kept) < j_next_cursor j"
      "map se_cursor_sequence gone @ map se_cursor_sequence kept
         = [j_next_cursor j - length (gone @ kept) ..< j_next_cursor j]"
      using inv split by (auto simp: journal_inv_def cursor_inv_def)
    from upt_suffix [OF c(2)] c(1) show ?thesis by (auto simp: cursor_inv_def)
  qed
  moreover have "idem_inv enc sha ?j"
  proof -
    have d: "distinct (map se_idempotency_key (gone @ kept))"
      "\<forall>k. hm_has (j_idempotency j) k \<longleftrightarrow> k \<in> se_idempotency_key ` set (gone @ kept)"
      using inv split by (auto simp: journal_inv_def idem_inv_def)
    note ka = keys_after_eviction [OF d]
    have "key \<notin> se_idempotency_key ` set kept"
      using d(2) [rule_format, of key] fresh by (simp add: hm_has_def image_Un)
    then show ?thesis
      using inv split d ka len seq by (auto simp: journal_inv_def idem_inv_def idem)
  qed
  moreover have "sequence_inv ?j"
  proof -
    have s: "\<forall>e \<in> set kept. \<exists>n.
        hm_get (j_activity_sequences j) (ae_activity_id (se_event e)) = Some n
        \<and> ae_sequence (se_event e) \<le> n"
      "sorted_wrt (\<lambda>x y. ae_activity_id (se_event x) = ae_activity_id (se_event y) \<longrightarrow>
          ae_sequence (se_event x) < ae_sequence (se_event y)) kept"
      using inv split by (auto simp: journal_inv_def sequence_inv_def sorted_wrt_append)
    have "ae_sequence (se_event e) < ae_sequence ev"
      if "e \<in> set kept" "ae_activity_id (se_event e) = ae_activity_id ev" for e
      using s(1) that ready expected_sequence_grows
      unfolding append_ready_def by (metis order_le_less_trans)
    with s show ?thesis by (fastforce simp: sequence_inv_def sorted_wrt_append)
  qed
  moreover have "table_inv ?j"
    using inv ready
    by (auto simp: journal_inv_def table_inv_def append_ready_def length_hm_insert less_Suc_eq)
  ultimately show ?thesis using pub by (simp add: journal_inv_def)
qed

lemma append_ready_rotated:
  "expected_sequence None = Some (ae_sequence ev) \<Longrightarrow> append_ready ev (rotate_locked e r j)"
  by (simp add: append_ready_def rotate_locked_def MAX_EVENTS_def)

lemma rotate_locked_fields [simp]:
  "j_idempotency (rotate_locked e r j) = []" "j_activity_sequences (rotate_locked e r j) = []"
  "j_max_events (rotate_locked e r j) = j_max_events j"
  "j_max_bytes (rotate_locked e r j) = j_max_bytes j" "j_epoch (rotate_locked e r j) = e"
  "j_events (rotate_locked e r j) = []" "j_next_cursor (rotate_locked e r j) = 1"
  by (simp_all add: rotate_locked_def)

lemma make_slot_ready:
  assumes "journal_inv enc sha j" and "hm_get (j_idempotency j) key = None"
    and "expected_sequence (hm_get (j_activity_sequences j) (ae_activity_id ev)) = Some (ae_sequence ev)"
    and "make_slot (hm_get (j_activity_sequences j) (ae_activity_id ev)) j = Some j1"
  shows "journal_inv enc sha j1" "append_ready ev j1" "hm_get (j_idempotency j1) key = None"
    "j_max_events j1 = j_max_events j" "j_max_bytes j1 = j_max_bytes j"
  using assms journal_inv_rotate [OF assms(1)] append_ready_rotated
  by (auto simp: make_slot_def append_ready_def hm_has_def not_le split: if_splits)

lemma append_locked_inv:
  assumes inv: "journal_inv enc sha j"
  shows "\<exists>r j'. append_locked (enc ev) (sha (enc ev)) key ev pre j = Some (r, j')
     \<and> journal_inv enc sha j'"
proof -
  let ?prev = "hm_get (j_activity_sequences j) (ae_activity_id ev)"
  let ?early = "hm_get (j_idempotency j) key \<noteq> None \<or> ae_sequence ev = u64_max
      \<or> j_max_events j = 0 \<or> length (enc ev) > j_max_bytes j
      \<or> expected_sequence ?prev \<noteq> Some (ae_sequence ev)"
  show ?thesis
  proof (cases "?early")
    case True
    then show ?thesis
      using inv by (auto simp: append_locked_def Let_def split: option.splits)
  next
    case False
    then have new: "hm_get (j_idempotency j) key = None"
      and e: "expected_sequence ?prev = Some (ae_sequence ev)"
      and me: "j_max_events j \<noteq> 0" and len: "length (enc ev) \<le> j_max_bytes j"
      and seq: "ae_sequence ev \<noteq> u64_max" by auto
    show ?thesis
    proof (cases "make_slot ?prev j")
      case None
      then show ?thesis using inv new e me len seq by (simp add: append_locked_def Let_def)
    next
      case (Some j1)
      note j1 = make_slot_ready [OF inv new e Some]
      obtain j2 where p: "publish_event (enc ev) (sha (enc ev)) key ev (j_next_cursor j1 + 1) j1
          = Some j2" "journal_inv enc sha j2"
        using publish_event_inv [OF j1(1) _ _ j1(3) seq j1(2)] me len j1(4,5) by auto
      show ?thesis
        using new e me len seq Some j1(1) p
        by (cases pre) (auto simp: append_locked_def Let_def checked_add64_def)
    qed
  qed
qed

subsection \<open>The other operations keep the invariant\<close>

lemma append_with_precommit_inv:
  assumes "journal_inv enc sha j"
  shows "\<exists>r j'. append_with_precommit enc sha key ev pre j = Some (r, j') \<and> journal_inv enc sha j'"
  using assms append_locked_inv [OF assms, of ev key pre]
  by (auto simp: append_with_precommit_def split: sum.splits)

lemma table_inv_subscribers:
  "table_inv j \<Longrightarrow> hm_wf subs \<Longrightarrow> length subs \<le> MAX_SUBSCRIBERS \<Longrightarrow>
   (\<And>i s. hm_get subs i = Some s \<Longrightarrow> ec_epoch (sb_acknowledged s) = j_epoch j
      \<and> ec_sequence (sb_acknowledged s) < j_next_cursor j) \<Longrightarrow>
   table_inv (j\<lparr>j_subscribers := subs\<rparr>)"
  by (simp add: table_inv_def)

lemma journal_inv_subscribers:
  "journal_inv enc sha j \<Longrightarrow> table_inv (j\<lparr>j_subscribers := subs\<rparr>) \<Longrightarrow>
   journal_inv enc sha (j\<lparr>j_subscribers := subs\<rparr>)"
  by (simp add: journal_inv_defs)

lemma journal_inv_put_subscriber:
  assumes "journal_inv enc sha j"
    and "hm_has (j_subscribers j) i \<or> length (j_subscribers j) < MAX_SUBSCRIBERS"
    and "ec_epoch (sb_acknowledged s) = j_epoch j" "ec_sequence (sb_acknowledged s) < j_next_cursor j"
  shows "journal_inv enc sha (j\<lparr>j_subscribers := hm_insert i s (j_subscribers j)\<rparr>)"
proof (rule journal_inv_subscribers [OF assms(1)])
  have "table_inv j" using assms(1) by (simp add: journal_inv_def)
  then show "table_inv (j\<lparr>j_subscribers := hm_insert i s (j_subscribers j)\<rparr>)"
    using assms(2-4)
    by (intro table_inv_subscribers)
      (auto simp: table_inv_def length_hm_insert Suc_le_eq split: if_splits)
qed

lemma journal_inv_subscribe:
  assumes "journal_inv enc sha j"
  shows "journal_inv enc sha (snd (subscribe i now j))"
proof -
  have "0 < j_next_cursor j" using assms by (auto simp: journal_inv_def cursor_inv_def)
  then show ?thesis
    using assms by (auto simp: subscribe_def not_le intro!: journal_inv_put_subscriber)
qed

lemma journal_inv_acknowledge:
  assumes "journal_inv enc sha j"
  shows "journal_inv enc sha (snd (acknowledge i c now j))"
proof -
  have "\<forall>s. hm_get (j_subscribers j) i = Some s \<longrightarrow> ec_epoch (sb_acknowledged s) = j_epoch j
      \<and> ec_sequence (sb_acknowledged s) < j_next_cursor j"
    using assms by (simp add: journal_inv_def table_inv_def)
  then show ?thesis
    using assms
    by (auto simp: acknowledge_def not_le hm_has_def intro!: journal_inv_put_subscriber
        split: option.splits)
qed

lemma journal_inv_expire:
  assumes "journal_inv enc sha j"
  shows "journal_inv enc sha (snd (expire_idle now j))"
proof -
  let ?keep = "filter (\<lambda>(i, s). now - sb_last_active_ms s \<le> SUBSCRIBER_IDLE_MS) (j_subscribers j)"
  have t: "table_inv j" using assms by (simp add: journal_inv_def)
  then have wf: "hm_wf (j_subscribers j)" by (simp add: table_inv_def)
  have "table_inv (j\<lparr>j_subscribers := ?keep\<rparr>)"
  proof (rule table_inv_subscribers [OF t])
    show "hm_wf ?keep" using wf by simp
    show "length ?keep \<le> MAX_SUBSCRIBERS"
      using t le_trans [OF length_filter_le] by (auto simp: table_inv_def)
  next
    fix i s assume "hm_get ?keep i = Some s"
    then have "hm_get (j_subscribers j) i = Some s"
      using hm_get_filter [OF wf] by (auto split: option.splits if_splits)
    then show "ec_epoch (sb_acknowledged s) = j_epoch j
      \<and> ec_sequence (sb_acknowledged s) < j_next_cursor j" using t by (simp add: table_inv_def)
  qed
  then show ?thesis using journal_inv_subscribers [OF assms] by (simp add: expire_idle_def Let_def)
qed

lemma journal_inv_restore:
  assumes "journal_inv enc sha j"
  shows "journal_inv enc sha (snd (restore_activity_sequence a n j))"
proof (cases "restore_activity_sequence a n j = (Ok (),
    j\<lparr>j_activity_sequences := hm_insert a n (j_activity_sequences j)\<rparr>)
    \<and> is_none_or (\<lambda>x. x = n) (hm_get (j_activity_sequences j) a)
    \<and> (length (j_activity_sequences j) < MAX_EVENTS \<or> hm_has (j_activity_sequences j) a)")
  case True
  then have same: "hm_get (j_activity_sequences j) a = Some m \<Longrightarrow> m = n" for m by auto
  show ?thesis
    using assms True same
    by (auto simp: journal_inv_defs length_hm_insert Suc_le_eq hm_has_def)
next
  case False
  then have "snd (restore_activity_sequence a n j) = j"
    by (auto simp: restore_activity_sequence_def is_none_or_iff is_some_and_iff split: if_splits)
  then show ?thesis using assms by simp
qed

section \<open>The journal as a machine\<close>

datatype 'p journal_op =
    AppendOp string activity_event "'p + unit"
  | SubscribeOp subscriber_id u64
  | AcknowledgeOp subscriber_id event_cursor u64
  | ExpireOp u64
  | RestoreOp activity_id u64
  | RotateOp u64 u64

text \<open>One call on the journal; the state \<open>None\<close> is a panic, from which nothing returns.\<close>

fun journal_step ::
    "(activity_event \<Rightarrow> string) \<Rightarrow> (string \<Rightarrow> string) \<Rightarrow> 'p journal_op \<Rightarrow> journal option \<Rightarrow> journal option" where
  "journal_step enc sha opn None = None"
| "journal_step enc sha (AppendOp key ev pre) (Some j) =
     map_option snd (append_with_precommit enc sha key ev pre j)"
| "journal_step enc sha (SubscribeOp i now) (Some j) = Some (snd (subscribe i now j))"
| "journal_step enc sha (AcknowledgeOp i c now) (Some j) = Some (snd (acknowledge i c now j))"
| "journal_step enc sha (ExpireOp now) (Some j) = Some (snd (expire_idle now j))"
| "journal_step enc sha (RestoreOp a n) (Some j) = Some (snd (restore_activity_sequence a n j))"
| "journal_step enc sha (RotateOp e r) (Some j) = Some (snd (rotate_epoch e r j))"

interpretation journal_run: invariant_machine "journal_step enc sha" "is_some_and (journal_inv enc sha)"
  for enc sha
proof
  fix s :: "journal option" and opn :: "'a journal_op"
  assume "is_some_and (journal_inv enc sha) s"
  then obtain j where s: "s = Some j" "journal_inv enc sha j" by (cases s) auto
  show "is_some_and (journal_inv enc sha) (journal_step enc sha opn s)"
  proof (cases opn)
    case (AppendOp key ev pre)
    then show ?thesis using s append_with_precommit_inv [OF s(2), of key ev pre] by auto
  qed (use s in \<open>auto simp: rotate_epoch_def intro: journal_inv_subscribe journal_inv_acknowledge
        journal_inv_expire journal_inv_restore journal_inv_rotate\<close>)
qed

text \<open>
  C7. No sequence of appends, subscriptions, acknowledgements, expiries, restores and rotations
  makes the journal panic, and after it the journal is consistent: within its event and byte
  bounds, with consecutive cursors, an idempotency record for exactly the stored events, increasing
  sequence numbers within each activity, and every subscriber's cursor in the current epoch and
  not ahead of the journal.
\<close>

theorem journal_always_consistent:
  "\<exists>j. fold (journal_step enc sha) ops (Some (with_bounds epoch revision me mb)) = Some j
     \<and> journal_inv enc sha j"
  using journal_run.run_inv [of enc sha "Some (with_bounds epoch revision me mb)" ops]
  by (auto simp: journal_inv_init is_some_and_iff)

section \<open>Reading in pages\<close>

text \<open>The length of the JSON array of the events.\<close>

definition page_size :: "nat list \<Rightarrow> nat" where
  "page_size sizes = 2 + sum_list sizes + (length sizes - 1)"

lemma page_size_snoc: "page_size (xs @ [n]) = page_size xs + ((if xs = [] then 0 else 1) + n)"
  by (cases xs) (simp_all add: page_size_def)

lemma sat_add_within: "bl < u64_max \<Longrightarrow> sat_add64 (sat_add64 a b) c \<le> bl \<Longrightarrow> a + b + c \<le> bl"
  by (auto simp: sat_add64_def min_def split: if_splits)

lemma page_spec:
  assumes "page incl el bl es evs next used = Some (out, nxt)"
  shows "\<exists>taken rest. es = taken @ rest
     \<and> out = evs @ map se_event (filter (\<lambda>e. incl (se_event e)) taken)
     \<and> nxt = (if taken = [] then next else se_cursor_sequence (last taken))
     \<and> (length evs \<le> el \<longrightarrow> length out \<le> el)
     \<and> (length evs < el \<and> es \<noteq> [] \<longrightarrow> evs \<noteq> [] \<or> taken \<noteq> [])"
  using assms
proof (induction incl el bl es evs "next" used rule: page.induct)
  case (1 incl el bl evs "next" used)
  then show ?case by simp
next
  case (2 incl el bl e es evs "next" used)
  consider (full) "length evs = el" | (skip) "length evs \<noteq> el" "\<not> incl (se_event e)"
    | (big) "length evs \<noteq> el" "incl (se_event e)"
        "bl < sat_add64 (sat_add64 used (if evs = [] then 0 else 1)) (se_serialized_bytes e)"
    | (take_it) "length evs \<noteq> el" "incl (se_event e)"
        "\<not> bl < sat_add64 (sat_add64 used (if evs = [] then 0 else 1)) (se_serialized_bytes e)"
    by blast
  then show ?case
  proof cases
    case full
    then show ?thesis using 2(3) by (intro exI [of _ "[]"] exI [of _ "e # es"]) simp
  next
    case skip
    from 2(1) [OF skip] 2(3) skip obtain t r where
      "es = t @ r" "out = evs @ map se_event (filter (\<lambda>e. incl (se_event e)) t)"
      "nxt = (if t = [] then se_cursor_sequence e else se_cursor_sequence (last t))"
      "length evs \<le> el \<longrightarrow> length out \<le> el" by auto
    then show ?thesis using skip by (intro exI [of _ "e # t"] exI [of _ r]) simp
  next
    case big
    then show ?thesis using 2(3) by (auto simp: Let_def split: if_splits)
  next
    case take_it
    then have p: "page incl el bl es (evs @ [se_event e]) (se_cursor_sequence e)
        (used + ((if evs = [] then 0 else 1) + se_serialized_bytes e)) = Some (out, nxt)"
      using 2(3) by (simp add: Let_def)
    from 2(2) [OF take_it(1) _ refl take_it(3)] take_it(2) p obtain t r where
      "es = t @ r" "out = (evs @ [se_event e]) @ map se_event (filter (\<lambda>e. incl (se_event e)) t)"
      "nxt = (if t = [] then se_cursor_sequence e else se_cursor_sequence (last t))"
      "length (evs @ [se_event e]) \<le> el \<longrightarrow> length out \<le> el" by auto
    then show ?thesis
      using take_it by (intro exI [of _ "e # t"] exI [of _ r]) auto
  qed
qed

lemma page_from_start:
  assumes "page incl el bl es [] next used = Some (out, nxt)" and "0 < el"
  shows "\<exists>taken rest. es = taken @ rest
     \<and> out = map se_event (filter (\<lambda>e. incl (se_event e)) taken)
     \<and> nxt = (if taken = [] then next else se_cursor_sequence (last taken))
     \<and> length out \<le> el \<and> (es \<noteq> [] \<longrightarrow> taken \<noteq> [])"
  using page_spec [OF assms(1)] assms(2) by (simp only: append_Nil list.size) blast

lemma page_bytes:
  assumes "page incl el bl es evs next used = Some (out, nxt)" and "bl < u64_max"
    and "\<forall>e \<in> set es. se_serialized_bytes e = length (enc (se_event e))"
    and "used = page_size (map (length \<circ> enc) evs)" and "used \<le> bl"
  shows "page_size (map (length \<circ> enc) out) \<le> bl"
  using assms
proof (induction incl el bl es evs "next" used rule: page.induct)
  case (1 incl el bl evs "next" used)
  then show ?case by simp
next
  case (2 incl el bl e es evs "next" used)
  let ?sep = "if evs = [] then 0 else (1::nat)"
  show ?case
  proof (cases "length evs \<noteq> el \<and> incl (se_event e)
      \<and> \<not> bl < sat_add64 (sat_add64 used ?sep) (se_serialized_bytes e)")
    case True
    then have fits: "used + ?sep + se_serialized_bytes e \<le> bl"
      using sat_add_within [OF 2(4)] by (simp add: not_less)
    have "page incl el bl es (evs @ [se_event e]) (se_cursor_sequence e)
        (used + (?sep + se_serialized_bytes e)) = Some (out, nxt)"
      using True 2(3) by (simp add: Let_def)
    then show ?thesis
      using True 2(2) [of ?sep] 2(4-6) fits
      by (simp add: page_size_snoc)
  next
    case False
    then show ?thesis using 2 by (auto simp: Let_def split: if_splits)
  qed
qed

text \<open>The events a reader at cursor \<open>c\<close> has still to see up to the cursor \<open>n\<close>.\<close>

definition between :: "u64 \<Rightarrow> u64 \<Rightarrow> journal \<Rightarrow> stored_event list" where
  "between c n j = filter (\<lambda>e. c < se_cursor_sequence e \<and> se_cursor_sequence e \<le> n) (j_events j)"

lemma filter_greater_upt: "filter (\<lambda>x. c < x) [a ..< b] = [max a (c + 1) ..< b]"
  by (induction b) (auto simp: max_def le_Suc_eq)

lemma cursors_after:
  "cursor_inv j \<Longrightarrow> map se_cursor_sequence (filter (\<lambda>e. c < se_cursor_sequence e) (j_events j))
     = [max (j_next_cursor j - length (j_events j)) (c + 1) ..< j_next_cursor j]"
proof -
  assume "cursor_inv j"
  then have "filter (\<lambda>x. c < x) (map se_cursor_sequence (j_events j))
      = [max (j_next_cursor j - length (j_events j)) (c + 1) ..< j_next_cursor j]"
    by (simp only: cursor_inv_def filter_greater_upt)
  then show ?thesis by (simp add: filter_map comp_def)
qed

lemma prefix_of_upt:
  "map f (taken @ rest) = [a ..< b] \<Longrightarrow> taken \<noteq> [] \<Longrightarrow>
     f (last taken) = a + length taken - 1 \<and> map f taken = [a ..< a + length taken]
     \<and> map f rest = [a + length taken ..< b]"
proof -
  assume h: "map f (taken @ rest) = [a ..< b]" and ne: "taken \<noteq> []"
  have len: "length taken + length rest = b - a" using arg_cong [OF h, of length] by simp
  have t: "map f taken = take (length taken) [a ..< b]" using h by (metis append_eq_conv_conj length_map map_append)
  have "a + length taken \<le> b" using len ne by (cases taken) auto
  with t have mt: "map f taken = [a ..< a + length taken]" by (simp add: take_upt)
  have "map f rest = drop (length taken) [a ..< b]" using h by (metis append_eq_conv_conj length_map map_append)
  then have mr: "map f rest = [a + length taken ..< b]" by simp
  have "f (last taken) = last [a ..< a + length taken]" using mt ne by (metis last_map)
  then show ?thesis using mt mr ne by (cases taken) simp_all
qed

lemma map_upt_bounds: "map f xs = [a ..< b] \<Longrightarrow> x \<in> set xs \<Longrightarrow> a \<le> f x \<and> f x < b"
proof -
  assume "map f xs = [a ..< b]" "x \<in> set xs"
  then have "f x \<in> set [a ..< b]" by (metis image_eqI set_map)
  then show ?thesis by simp
qed

lemma read_events_spec:
  assumes inv: "journal_inv enc sha j"
    and r: "read_filtered c limit incl j = Events evs c'"
  shows "ec_epoch c' = j_epoch j \<and> ec_sequence c \<le> ec_sequence c' \<and> ec_sequence c' \<le> newest_cursor j
     \<and> evs = map se_event (filter (\<lambda>e. incl (se_event e)) (between (ec_sequence c) (ec_sequence c') j))
     \<and> map se_cursor_sequence (between (ec_sequence c) (ec_sequence c') j)
         = [ec_sequence c + 1 ..< ec_sequence c' + 1]
     \<and> length evs \<le> min (rl_max_events limit) MAX_PAGE_EVENTS
     \<and> (ec_sequence c' = ec_sequence c \<longrightarrow> ec_sequence c = newest_cursor j)"
proof -
  let ?c = "ec_sequence c" and ?el = "min (rl_max_events limit) MAX_PAGE_EVENTS"
    and ?bl = "min (rl_max_bytes limit) MAX_PAGE_BYTES"
  let ?after = "filter (\<lambda>e. se_cursor_sequence e > ?c) (j_events j)"
  have ci: "cursor_inv j" using inv by (simp add: journal_inv_def)
  from r have ahead: "?c \<le> newest_cursor j"
    and old: "\<not> is_some_and (\<lambda>oldest. ?c < oldest - 1) (oldest_event j)"
    and el: "0 < ?el" and ep: "ec_epoch c' = j_epoch j"
    and p: "page incl ?el ?bl ?after [] ?c 2 = Some (evs, ec_sequence c')"
    by (auto simp: read_filtered_def Let_def split: if_splits option.splits)
  have first: "max (j_next_cursor j - length (j_events j)) (?c + 1) = ?c + 1"
  proof (cases "j_events j")
    case Nil
    then show ?thesis using ci ahead by (simp add: cursor_inv_def newest_cursor_def)
  next
    case (Cons e es)
    then have "[j_next_cursor j - length (j_events j) ..< j_next_cursor j]
        = se_cursor_sequence e # map se_cursor_sequence es"
      using ci by (simp add: cursor_inv_def del: upt_Suc)
    then have "se_cursor_sequence e = j_next_cursor j - length (j_events j)"
      unfolding upt_eq_Cons_conv by simp
    then show ?thesis using old Cons by (simp add: oldest_event_def)
  qed
  have cur: "map se_cursor_sequence ?after = [?c + 1 ..< j_next_cursor j]"
    using cursors_after [OF ci, of ?c] first by simp
  obtain taken rest where split: "?after = taken @ rest"
    and evs: "evs = map se_event (filter (\<lambda>e. incl (se_event e)) taken)"
    and nxt: "ec_sequence c' = (if taken = [] then ?c else se_cursor_sequence (last taken))"
    and lim: "length evs \<le> ?el" and moved: "?after \<noteq> [] \<longrightarrow> taken \<noteq> []"
    using page_from_start [OF p el] by blast
  have nxt': "ec_sequence c' = ?c + length taken"
  proof (cases "taken = []")
    case False
    then show ?thesis
      using nxt prefix_of_upt [OF cur [unfolded split] False] by simp
  qed (use nxt in simp)
  have le: "ec_sequence c' \<le> newest_cursor j"
    using arg_cong [OF cur, of length] split nxt' ahead by (auto simp: newest_cursor_def)
  have bet: "between ?c (ec_sequence c') j = taken"
  proof -
    have "between ?c (ec_sequence c') j = filter (\<lambda>e. se_cursor_sequence e \<le> ec_sequence c') ?after"
      by (simp add: between_def conj_commute)
    also have "\<dots> = filter (\<lambda>e. se_cursor_sequence e \<le> ec_sequence c') taken
        @ filter (\<lambda>e. se_cursor_sequence e \<le> ec_sequence c') rest" by (simp add: split)
    also have "\<dots> = taken"
    proof (cases "taken = []")
      case True
      then have "map se_cursor_sequence rest = [?c + 1 ..< j_next_cursor j]" using cur split by simp
      then have "\<forall>e \<in> set rest. ?c < se_cursor_sequence e"
        using map_upt_bounds by fastforce
      then show ?thesis using True nxt by (auto simp: filter_empty_conv not_le)
    next
      case False
      have q: "map se_cursor_sequence taken = [?c + 1 ..< ?c + 1 + length taken]"
        "map se_cursor_sequence rest = [?c + 1 + length taken ..< j_next_cursor j]"
        using prefix_of_upt [of se_cursor_sequence taken rest] cur split False by auto
      have "\<forall>e \<in> set taken. se_cursor_sequence e < ?c + 1 + length taken"
        "\<forall>e \<in> set rest. ?c + 1 + length taken \<le> se_cursor_sequence e"
        using map_upt_bounds [OF q(1)] map_upt_bounds [OF q(2)] by auto
      then have "filter (\<lambda>e. se_cursor_sequence e \<le> ec_sequence c') taken = taken"
        "filter (\<lambda>e. se_cursor_sequence e \<le> ec_sequence c') rest = []"
        using nxt' by (auto intro!: filter_True filter_False)
      then show ?thesis by simp
    qed
    finally show ?thesis .
  qed
  have "ec_sequence c' = ?c \<longrightarrow> ?c = newest_cursor j"
  proof
    assume "ec_sequence c' = ?c"
    then have "[?c + 1 ..< j_next_cursor j] = []" using nxt' moved cur by auto
    then have "j_next_cursor j \<le> ?c + 1" by (cases "?c + 1 < j_next_cursor j") (simp_all add: upt_rec)
    then show "?c = newest_cursor j" using ahead by (simp add: newest_cursor_def)
  qed
  moreover have "map se_cursor_sequence taken = [?c + 1 ..< ec_sequence c' + 1]"
    using prefix_of_upt [OF cur [unfolded split]] nxt' by (cases "taken = []") (simp_all del: upt_Suc)
  ultimately show ?thesis using ep nxt' le bet evs lim by (simp del: upt_Suc)
qed

lemma read_events_epoch: "read_filtered c limit incl j = Events evs c' \<Longrightarrow> ec_epoch c = j_epoch j"
  by (simp add: read_filtered_def split: if_splits)

text \<open>
  C12. A page handed to a reader is exactly the stretch of the journal after its cursor up to the
  returned cursor, restricted to the events the reader may see: nothing is lost, repeated or out
  of order, the cursor never moves back or past the newest event, and the stretch holds every
  cursor in between (events hidden by the filter or already evicted never disappear silently).
\<close>

theorem read_returns_exact_stretch:
  assumes "journal_inv enc sha j" and "read_filtered c limit incl j = Events evs c'"
  shows "ec_epoch c' = ec_epoch c \<and> ec_sequence c \<le> ec_sequence c'
     \<and> ec_sequence c' \<le> newest_cursor j
     \<and> evs = map se_event (filter (\<lambda>e. incl (se_event e)) (between (ec_sequence c) (ec_sequence c') j))
     \<and> map se_cursor_sequence (between (ec_sequence c) (ec_sequence c') j)
         = [ec_sequence c + 1 ..< ec_sequence c' + 1]"
  using read_events_spec [OF assms] read_events_epoch [OF assms(2)] by (simp del: upt_Suc)

section \<open>A concrete journal for the witnesses\<close>

definition sample_event :: "u64 \<Rightarrow> activity_event" where
  "sample_event n = \<lparr>ae_activity_id = ''a'', ae_sequence = n, ae_occurred_at_ms = 5,
     ae_principal_id = ''p'', ae_source_host_id = ''s'', ae_target_host_id = ''t'',
     ae_device_id = None, ae_operation = ''op'', ae_resources = [WorkspaceRead],
     ae_remote_operation_sha256 = None,
     ae_authorization = \<lparr>az_effect = Allow, az_rule_id = None, az_approval_id = None\<rparr>,
     ae_state = Running, ae_message = None,
     ae_metrics = \<lparr>ms_current_memory_bytes = Available 1, ms_peak_memory_bytes = Available 2,
       ms_cpu_time_ms = Available 0, ms_process_count = Available 1\<rparr>,
     ae_started_at_ms = Some 4, ae_finished_at_ms = None\<rparr>"

definition sample_enc :: "activity_event \<Rightarrow> string" where
  "sample_enc e = replicate (ae_sequence e) CHR ''e''"

definition sample_sha :: "string \<Rightarrow> string" where
  "sample_sha s = s"

definition sample_stored :: "u64 \<Rightarrow> stored_event" where
  "sample_stored n = \<lparr>se_cursor_sequence = n, se_event = sample_event n,
     se_serialized_bytes = n, se_idempotency_key = replicate n CHR ''k''\<rparr>"

definition sample_journal :: journal where
  "sample_journal = \<lparr>j_epoch = 1, j_snapshot_revision = 0, j_next_cursor = 3,
     j_events = [sample_stored 1, sample_stored 2], j_serialized_bytes = 3,
     j_idempotency = [(''k'', ''e''), (''kk'', ''ee'')],
     j_activity_sequences = [(''a'', 2)], j_subscribers = [], j_max_events = 10, j_max_bytes = 100\<rparr>"

lemma upt_two [simp]: "[Suc 0 ..< 3] = [Suc 0, 2]"
  by (simp add: upt_rec)

lemma replicate_two [simp]: "replicate 2 x = [x, x]"
  by (simp add: numeral_2_eq_2)

lemma sample_journal_inv: "journal_inv sample_enc sample_sha sample_journal"
  by (auto simp: journal_inv_defs sample_journal_def sample_stored_def sample_event_def
      sample_enc_def sample_sha_def MAX_EVENTS_def MAX_EVENT_BYTES_def
      MAX_SUBSCRIBERS_def u64_max_def hm_has_def hm_get_def hm_wf_def)

lemma sample_read:
  "read_events \<lparr>ec_epoch = 1, ec_sequence = 1\<rparr> \<lparr>rl_max_events = 5, rl_max_bytes = 50\<rparr> sample_journal
     = Events [sample_event 2] \<lparr>ec_epoch = 1, ec_sequence = 2\<rparr>"
  by (simp add: read_events_def read_filtered_def sample_journal_def sample_stored_def
      newest_cursor_def oldest_event_def MAX_PAGE_EVENTS_def MAX_PAGE_BYTES_def sat_add64_def
      u64_max_def)

theorem read_returns_exact_stretch_witness:
  "[sample_event 2] = map se_event (filter (\<lambda>e. True) (between 1 2 sample_journal))"
  using read_returns_exact_stretch [OF sample_journal_inv sample_read [unfolded read_events_def]]
  by simp

lemma read_page_size:
  assumes inv: "journal_inv enc sha j"
    and r: "read_filtered c limit incl j = Events evs c'" and two: "2 \<le> rl_max_bytes limit"
  shows "page_size (map (length \<circ> enc) evs) \<le> min (rl_max_bytes limit) MAX_PAGE_BYTES"
proof -
  let ?bl = "min (rl_max_bytes limit) MAX_PAGE_BYTES"
  let ?after = "filter (\<lambda>e. se_cursor_sequence e > ec_sequence c) (j_events j)"
  from r have p: "page incl (min (rl_max_events limit) MAX_PAGE_EVENTS) ?bl ?after [] (ec_sequence c) 2
      = Some (evs, ec_sequence c')"
    by (auto simp: read_filtered_def Let_def split: if_splits option.splits)
  show ?thesis
  proof (rule page_bytes [OF p])
    show "?bl < u64_max" by (simp add: MAX_PAGE_BYTES_def u64_max_def)
    show "\<forall>e \<in> set ?after. se_serialized_bytes e = length (enc (se_event e))"
      using inv by (auto simp: journal_inv_def idem_inv_def)
    show "2 = page_size (map (length \<circ> enc) [])" by (simp add: page_size_def)
    show "2 \<le> ?bl" using two by (simp add: MAX_PAGE_BYTES_def)
  qed
qed



section \<open>Appending: idempotency, preflight, failed commits\<close>

lemma append_Ok_validated:
  "append_with_precommit enc sha key ev pre j = Some (Ok r, j') \<Longrightarrow>
     append_with_precommit enc sha key e2 p2 j2 =
       (case event_validate e2 of Inl e \<Rightarrow> Some (Err (Append (InvalidEvent (ve_code e))), j2)
        | Inr _ \<Rightarrow> append_locked (enc e2) (sha (enc e2)) key e2 p2 j2)
     \<and> is_ok (event_validate ev) \<and> append_locked (enc ev) (sha (enc ev)) key ev pre j = Some (Ok r, j')"
  by (auto simp: append_with_precommit_def split: sum.splits if_splits)

lemma append_locked_records_key:
  "append_locked json digest key ev pre j = Some (Ok r, j') \<Longrightarrow>
     hm_get (j_idempotency j') key = Some digest"
  by (auto simp: append_locked_def publish_event_def Let_def split: option.splits sum.splits if_splits)

lemma append_locked_known_key:
  "hm_get (j_idempotency j) key = Some d \<Longrightarrow>
     append_locked json digest key ev pre j =
       Some (if d = digest then Ok DuplicateCollapsed else Err (Append IdempotencyConflict), j)"
  by (simp add: append_locked_def)

text \<open>
  After a successful append, appending again under the same key changes nothing: the same
  event collapses into the stored one whatever its precommit would do, and an event with another
  digest is refused as a conflict.
\<close>

theorem append_is_idempotent:
  assumes "append_with_precommit enc sha key ev pre j = Some (Ok r, j')"
  shows "append_with_precommit enc sha key ev pre2 j' = Some (Ok DuplicateCollapsed, j')
     \<and> (event_validate ev2 = Ok () \<and> sha (enc ev2) \<noteq> sha (enc ev) \<longrightarrow>
      append_with_precommit enc sha key ev2 pre2 j' = Some (Err (Append IdempotencyConflict), j'))"
proof -
  note v = append_Ok_validated [OF assms]
  from v have k: "hm_get (j_idempotency j') key = Some (sha (enc ev))"
    using append_locked_records_key by blast
  have "append_with_precommit enc sha key ev pre2 j' = Some (Ok DuplicateCollapsed, j')"
    using v [of ev pre2 j'] by (cases "event_validate ev") (auto simp: append_locked_known_key [OF k])
  moreover have "event_validate ev2 = Ok () \<and> sha (enc ev2) \<noteq> sha (enc ev) \<longrightarrow>
      append_with_precommit enc sha key ev2 pre2 j' = Some (Err (Append IdempotencyConflict), j')"
    using v [of ev2 pre2 j'] by (auto simp: append_locked_known_key [OF k])
  ultimately show ?thesis by (rule conjI)
qed

lemma sample_event_valid: "event_validate (sample_event n) = Ok ()"
  by (simp add: event_validate_def sample_event_def validate_lifecycle_def
      validate_lifecycle_state_def MAX_COLLECTION_ITEMS_def)

lemma sample_event_fields [simp]:
  "ae_activity_id (sample_event n) = ''a''" "ae_sequence (sample_event n) = n"
  "sample_enc (sample_event n) = replicate n CHR ''e''" "sample_sha s = s"
  by (simp_all add: sample_event_def sample_enc_def sample_sha_def)

lemma replicate_three [simp]: "replicate 3 x = [x, x, x]"
  by (simp add: numeral_3_eq_3)

lemma trim_k: "trim ''kkk'' = ''kkk''"
  by code_simp

lemma sample_append:
  "append_with_precommit sample_enc sample_sha ''kkk'' (sample_event 3) (Ok () :: string + unit)
     sample_journal = Some (Ok Appended,
       sample_journal\<lparr>j_next_cursor := 4, j_events := j_events sample_journal @ [sample_stored 3],
         j_serialized_bytes := 6, j_activity_sequences := [(''a'', 3)],
         j_idempotency := j_idempotency sample_journal @ [(''kkk'', ''eee'')]\<rparr>)"
  by (simp add: append_with_precommit_def sample_event_valid trim_k append_locked_def
      sample_journal_def sample_stored_def hm_get_def hm_insert_def expected_sequence_def
      make_slot_def publish_event_def checked_add64_def u64_max_def MAX_EVENTS_def)

theorem append_is_idempotent_witness:
  "\<exists>j' :: journal. append_with_precommit sample_enc sample_sha ''kkk'' (sample_event 3)
     (Ok () :: string + unit) sample_journal = Some (Ok Appended, j')
   \<and> append_with_precommit sample_enc sample_sha ''kkk'' (sample_event 3) (Err ''io'') j'
     = Some (Ok DuplicateCollapsed, j')"
  using append_is_idempotent [OF sample_append] sample_append by blast

lemma make_slot_total: "j_epoch j < u64_max \<Longrightarrow> make_slot prev j \<noteq> None"
  by (simp add: make_slot_def checked_add64_def)

lemma preflight_fresh_error:
  assumes "hm_get (j_idempotency j) key = None" and "preflight_append enc sha key ev j = Err e"
  shows "append_event enc sha key ev j = Some (Err (Append e), j)"
  using assms
  by (auto simp: preflight_append_def append_event_def append_with_precommit_def append_locked_def
      Let_def split: sum.splits option.splits if_splits)

lemma preflight_ok_append:
  assumes inv: "journal_inv enc sha j" and room: "j_epoch j < u64_max" "j_next_cursor j < u64_max"
    and pf: "preflight_append enc sha key ev j = Ok ()"
  shows "\<exists>r j'. append_event enc sha key ev j = Some (Ok r, j')"
proof (cases "hm_get (j_idempotency j) key")
  case (Some d)
  then show ?thesis
    using pf by (auto simp: preflight_append_def append_event_def append_with_precommit_def
        append_locked_def split: sum.splits if_splits)
next
  case None
  let ?prev = "hm_get (j_activity_sequences j) (ae_activity_id ev)"
  from pf None have v: "event_validate ev = Ok ()" "trim key \<noteq> []" "length key \<le> 256"
    and seq: "ae_sequence ev \<noteq> u64_max" and me: "j_max_events j \<noteq> 0"
    and len: "length (enc ev) \<le> j_max_bytes j"
    and e: "expected_sequence ?prev = Some (ae_sequence ev)"
    by (auto simp: preflight_append_def split: sum.splits option.splits if_splits)
  obtain j1 where j1: "make_slot ?prev j = Some j1" using make_slot_total [OF room(1)] by blast
  note r = make_slot_ready [OF inv None e j1]
  have c: "checked_add64 (j_next_cursor j1) 1 = Some (j_next_cursor j1 + 1)"
    using j1 room by (auto simp: make_slot_def checked_add64_def u64_max_def split: if_splits)
  obtain j2 where "publish_event (enc ev) (sha (enc ev)) key ev (j_next_cursor j1 + 1) j1 = Some j2"
    using publish_event_inv [OF r(1) _ _ r(3) seq r(2)] me len r(4,5) by auto
  then show ?thesis
    using v seq me len e j1 c None
    by (simp add: append_event_def append_with_precommit_def append_locked_def Let_def)
qed

text \<open>
  The preflight check predicts the append: for a fresh key it reports exactly the errors the
  append would report (and the append then leaves the journal as it was), and when it accepts, the
  append succeeds, as long as the epoch and cursor counters are not exhausted.
\<close>

theorem preflight_predicts_append:
  assumes "journal_inv enc sha j" and "j_epoch j < u64_max" and "j_next_cursor j < u64_max"
  shows "(hm_get (j_idempotency j) key = None \<longrightarrow>
       (\<forall>e. preflight_append enc sha key ev j = Err e \<longrightarrow>
          append_event enc sha key ev j = Some (Err (Append e), j)))
     \<and> (preflight_append enc sha key ev j = Ok () \<longrightarrow>
          (\<exists>r j'. append_event enc sha key ev j = Some (Ok r, j')))"
  using preflight_fresh_error preflight_ok_append [OF assms] by blast

theorem preflight_predicts_append_witness:
  "append_event sample_enc sample_sha ''kkk'' (sample_event 5) sample_journal
     = Some (Err (Append (NonMonotonicSequence 3)), sample_journal)"
  using preflight_predicts_append [OF sample_journal_inv, of "''kkk''" "sample_event 5"]
  by (simp add: preflight_append_def sample_event_valid trim_k sample_journal_def u64_max_def
      hm_get_def expected_sequence_def checked_add64_def)

text \<open>
  An append that fails, at whatever point, publishes nothing; and it leaves the whole journal as
  it was unless it had to open an epoch for a new activity.
\<close>

theorem failed_append_publishes_nothing:
  assumes "append_with_precommit enc sha key ev pre j = Some (Err e, j')"
  shows "j' = j \<or> (hm_get (j_activity_sequences j) (ae_activity_id ev) = None
     \<and> MAX_EVENTS \<le> length (j_activity_sequences j)
     \<and> j' = rotate_locked (j_epoch j + 1) (j_snapshot_revision j) j)"
  using assms
  by (auto simp: append_with_precommit_def append_locked_def make_slot_def publish_event_def Let_def
      checked_add64_def split: sum.splits option.splits if_splits)

theorem failed_append_publishes_nothing_witness:
  "append_with_precommit sample_enc sample_sha ''k'' (sample_event 3) (Ok () :: string + unit)
     sample_journal = Some (Err (Append IdempotencyConflict), sample_journal)"
proof -
  have "append_with_precommit sample_enc sample_sha ''k'' (sample_event 3) (Ok () :: string + unit)
     sample_journal = Some (Err (Append IdempotencyConflict), j') \<Longrightarrow> j' = sample_journal" for j'
    by (drule failed_append_publishes_nothing) (simp add: sample_journal_def hm_get_def)
  moreover have "trim ''k'' = ''k''" by code_simp
  ultimately show ?thesis
    by (simp add: append_with_precommit_def sample_event_valid append_locked_def
        sample_journal_def hm_get_def)
qed

text \<open>
  The commit step of an append that opens a new epoch comes after the rotation: when the durable
  precommit fails, the caller gets the error, and yet every event, idempotency record and
  subscriber of the journal is gone and its epoch has moved.
\<close>

theorem failed_precommit_wipes_full_journal:
  assumes "event_validate ev = Ok ()" and "trim key \<noteq> []" and "length key \<le> 256"
    and "hm_get (j_idempotency j) key = None"
    and "hm_get (j_activity_sequences j) (ae_activity_id ev) = None" and "ae_sequence ev = 1"
    and "MAX_EVENTS \<le> length (j_activity_sequences j)" and "j_epoch j < u64_max"
    and "j_max_events j \<noteq> 0" and "length (enc ev) \<le> j_max_bytes j"
  shows "append_with_precommit enc sha key ev (Err io) j
     = Some (Err (Precommit io), rotate_locked (j_epoch j + 1) (j_snapshot_revision j) j)"
  using assms
  by (simp add: append_with_precommit_def append_locked_def make_slot_def expected_sequence_def
      checked_add64_def u64_max_def)

definition full_journal :: journal where
  "full_journal = sample_journal\<lparr>j_activity_sequences :=
     (''a'', 2) # map (\<lambda>i. (show_nat i, 1)) [0 ..< 999]\<rparr>"

lemma letters_not_numbers: "''a'' \<noteq> show_nat n" "''b'' \<noteq> show_nat n"
proof -
  have "c \<in> set (show_nat n) \<Longrightarrow> c \<noteq> CHR ''a'' \<and> c \<noteq> CHR ''b''" for c
    using show_nat_digits [of c n] by auto
  then show "''a'' \<noteq> show_nat n" "''b'' \<noteq> show_nat n" by (metis list.set_intros(1))+
qed

lemma full_journal_inv: "journal_inv sample_enc sample_sha full_journal"
proof -
  have t: "hm_wf ((''a'', 2::nat) # map (\<lambda>i. (show_nat i, 1)) [0 ..< 999])"
    using letters_not_numbers by (auto simp: hm_wf_def distinct_map inj_on_def comp_def)
  have "size_inv sample_journal" "cursor_inv sample_journal" "idem_inv sample_enc sample_sha sample_journal"
    "sequence_inv full_journal" "table_inv full_journal"
    using sample_journal_inv t
    by (auto simp: journal_inv_def full_journal_def table_inv_def MAX_EVENTS_def sequence_inv_def
        sample_journal_def hm_get_def)
  then show ?thesis
    by (simp add: journal_inv_def full_journal_def size_inv_def cursor_inv_def idem_inv_def)
qed

theorem failed_precommit_wipes_full_journal_witness:
  "\<exists>j'. append_with_precommit sample_enc sample_sha ''kkk'' ((sample_event 1)\<lparr>ae_activity_id := ''b''\<rparr>)
         (Err ''disk full'') full_journal = Some (Err (Precommit ''disk full''), j')
     \<and> journal_inv sample_enc sample_sha full_journal
     \<and> j_events full_journal \<noteq> [] \<and> j_events j' = [] \<and> j_epoch j' = 2"
proof -
  let ?e = "(sample_event 1)\<lparr>ae_activity_id := ''b''\<rparr>"
  have n: "hm_get (j_activity_sequences full_journal) ''b'' = None"
    by (auto simp: full_journal_def hm_get_def map_of_eq_None_iff letters_not_numbers)
  have "event_validate ?e = Ok ()"
    using sample_event_valid [of 1] by (simp add: event_validate_def)
  note w = failed_precommit_wipes_full_journal [OF this, of "''kkk''" full_journal sample_enc sample_sha
      "''disk full''"]
  show ?thesis
    using w n full_journal_inv
    by (simp add: full_journal_def sample_journal_def trim_k u64_max_def MAX_EVENTS_def hm_get_def
        sample_enc_def)
qed

end
