(* ===== verification/Policy.thy ===== *)
theory Policy
  imports Model Protocol "HOL-Library.Char_ord" "HOL-Library.List_Lexorder" "HOL-Library.Product_Lexorder"
begin

text \<open>
  The access policy of a target host (\<open>dashboard/policy.rs\<close>): which rules match a request, which
  rule wins, the one-time approvals a person at the target decides, and the rules a decision
  leaves behind. JSON encodings and the SHA-256 digest are third-party and are the fields of
  \<open>codec\<close>; the random nonces of an approval are an argument. \<open>None\<close> is a panic.
\<close>

section \<open>Requests\<close>

definition MAX_APPROVAL_LIFETIME_MS :: u64 where "MAX_APPROVAL_LIFETIME_MS = 5 * 60 * 1000"
definition MAX_POLICY_RULES :: nat where "MAX_POLICY_RULES = MAX_COLLECTION_ITEMS"
definition MAX_PENDING_APPROVALS :: nat where "MAX_PENDING_APPROVALS = MAX_COLLECTION_ITEMS"
definition NONCE_GENERATION_ATTEMPTS :: nat where "NONCE_GENERATION_ATTEMPTS = 32"

record remote_operation_grant =
  og_request_id :: string
  og_workspace_path :: string
  og_device_id :: "device_id option"
  og_operation :: apple_operation
  og_canonical_sha256 :: string

record access_request =
  rq_activity_id :: activity_id
  rq_principal_id :: principal_id
  rq_source_host_id :: host_id
  rq_target_host_id :: host_id
  rq_device_id :: "device_id option"
  rq_operation :: operation_id
  rq_resources :: "resource_class list"
  rq_remote_operation :: "remote_operation_grant option"
  rq_physical_device :: bool
  rq_user_present :: bool

record codec =
  cd_remote :: "string \<Rightarrow> string \<Rightarrow> device_id option \<Rightarrow> apple_operation \<Rightarrow> string"
  cd_request :: "access_request \<Rightarrow> string"
  cd_sha :: "string \<Rightarrow> string"

datatype policy_error = InvalidAccessRequest

definition hex_digit :: "nat \<Rightarrow> char" where
  "hex_digit n = ''0123456789abcdef'' ! n"

definition hex :: "string \<Rightarrow> string" where
  "hex bytes = concat (map (\<lambda>b. [hex_digit (byte_of b div 16), hex_digit (byte_of b mod 16)]) bytes)"

text \<open>\<open>split(['/', '\\'])\<close>: the segments between separators.\<close>

fun split_separators :: "string \<Rightarrow> string list" where
  "split_separators [] = [[]]"
| "split_separators (c # s) =
     (if c = CHR ''/'' \<or> c = CHR 0x5C then [] # split_separators s
      else case split_separators s of [] \<Rightarrow> [[c]] | p # ps \<Rightarrow> (c # p) # ps)"

definition valid_relative_remote_path :: "string \<Rightarrow> bool" where
  "valid_relative_remote_path value =
     (value \<noteq> [] \<and> length value \<le> 1024 \<and> hd value \<noteq> CHR ''/'' \<and> hd value \<noteq> CHR 0x5C
      \<and> NUL \<notin> set value
      \<and> list_all (\<lambda>part. part \<noteq> [] \<and> part \<noteq> ''.'' \<and> part \<noteq> ''..'') (split_separators value))"

definition remote_validate_fields :: "remote_operation_grant \<Rightarrow> policy_error + unit" where
  "remote_validate_fields g =
     ensure (og_request_id g \<noteq> [] \<and> length (og_request_id g) \<le> 128
        \<and> list_all (\<lambda>c. is_ascii_alphanumeric c \<or> c = CHR ''.'' \<or> c = CHR ''_'' \<or> c = CHR ''-'')
            (og_request_id g)
        \<and> valid_relative_remote_path (og_workspace_path g)
        \<and> requires_device (og_operation g) = (og_device_id g \<noteq> None)) InvalidAccessRequest"

definition compute_digest :: "codec \<Rightarrow> remote_operation_grant \<Rightarrow> string" where
  "compute_digest cd g =
     hex (cd_sha cd (cd_remote cd (og_request_id g) (og_workspace_path g) (og_device_id g)
       (og_operation g)))"

definition remote_grant_new ::
    "codec \<Rightarrow> string \<Rightarrow> string \<Rightarrow> device_id option \<Rightarrow> apple_operation
       \<Rightarrow> policy_error + remote_operation_grant" where
  "remote_grant_new cd request workspace device opn =
     (let g = \<lparr>og_request_id = request, og_workspace_path = workspace, og_device_id = device,
               og_operation = opn, og_canonical_sha256 = []\<rparr>
      in and_then (remote_validate_fields g)
           (\<lambda>_. Ok (g\<lparr>og_canonical_sha256 := compute_digest cd g\<rparr>)))"

definition remote_validate :: "codec \<Rightarrow> remote_operation_grant \<Rightarrow> policy_error + unit" where
  "remote_validate cd g =
     and_then (remote_validate_fields g)
       (\<lambda>_. ensure (og_canonical_sha256 g = compute_digest cd g) InvalidAccessRequest)"

fun expected_operation :: "apple_operation \<Rightarrow> string" where
  "expected_operation (InstallApp _) = ''apple.install_app''"
| "expected_operation (LaunchApp _) = ''apple.launch_app''"
| "expected_operation (ReadAppLogs _) = ''apple.read_app_logs''"
| "expected_operation (BuildApp _ _ _) = ''apple.build_app''"
| "expected_operation (RunXcTest _ _ _) = ''apple.run_xctest''"
| "expected_operation (HardwareGate _) = ''apple.hardware_gate''"
| "expected_operation Discovery = ''apple.discovery''"
| "expected_operation PhysicalDevice = ''apple.physical_device''"
| "expected_operation Diagnostics = ''apple.diagnostics''"
| "expected_operation (DiscoverProject _) = ''apple.discover_project''"
| "expected_operation DiscoverSimulator = ''apple.discover_simulator''"

fun is_install :: "apple_operation \<Rightarrow> bool" where
  "is_install (InstallApp _) = True"
| "is_install _ = False"

definition validate_request :: "codec \<Rightarrow> access_request \<Rightarrow> policy_error + unit" where
  "validate_request cd q =
     (if length (rq_resources q) > MAX_COLLECTION_ITEMS then Err InvalidAccessRequest
      else if \<not> distinct (rq_resources q) then Err InvalidAccessRequest
      else case rq_remote_operation q of
        None \<Rightarrow> Ok ()
      | Some g \<Rightarrow>
          and_then (remote_validate cd g)
            (\<lambda>_. if rq_operation q \<noteq> expected_operation (og_operation g)
                    \<or> rq_device_id q \<noteq> og_device_id g
                    \<or> (is_install (og_operation g)
                       \<and> (WorkspaceRead \<notin> set (rq_resources q)
                          \<or> DeviceLease \<notin> set (rq_resources q)
                          \<or> ApplicationInstall \<notin> set (rq_resources q)))
                 then Err InvalidAccessRequest else Ok ()))"

section \<open>Rules and their selection\<close>

definition same_resources :: "resource_class list \<Rightarrow> resource_class list \<Rightarrow> bool" where
  "same_resources l r = (length l = length r \<and> list_all (\<lambda>x. x \<in> set r) l)"

definition rule_matches :: "policy_rule \<Rightarrow> access_request \<Rightarrow> u64 \<Rightarrow> bool" where
  "rule_matches r q now =
     (pr_enabled r
      \<and> is_none_or (\<lambda>expiry. expiry > now) (pr_expires_at_ms r)
      \<and> is_none_or (\<lambda>v. v = rq_principal_id q) (pr_principal_id r)
      \<and> is_none_or (\<lambda>v. v = rq_source_host_id q) (pr_source_host_id r)
      \<and> is_none_or (\<lambda>v. v = rq_target_host_id q) (pr_target_host_id r)
      \<and> (if pr_match_device_exact r then pr_device_id r = rq_device_id q
         else is_none_or (\<lambda>v. rq_device_id q = Some v) (pr_device_id r))
      \<and> is_none_or (\<lambda>v. v = rq_operation q) (pr_operation r)
      \<and> (if pr_match_resources_exact r then same_resources (pr_resources r) (rq_resources q)
         else pr_resources r = [] \<or> same_resources (pr_resources r) (rq_resources q))
      \<and> (\<not> pr_require_user_presence r \<or> rq_user_present q)
      \<and> is_none_or (\<lambda>v. v = rq_user_present q) (pr_user_presence r)
      \<and> is_none_or (\<lambda>v. v = rq_physical_device q) (pr_physical_device r))"

definition bit :: "bool \<Rightarrow> nat" where
  "bit b = (if b then 1 else 0)"

definition specificity :: "policy_rule \<Rightarrow> nat" where
  "specificity r =
     bit (pr_principal_id r \<noteq> None) + bit (pr_source_host_id r \<noteq> None)
     + bit (pr_target_host_id r \<noteq> None)
     + bit (pr_device_id r \<noteq> None \<or> pr_match_device_exact r)
     + bit (pr_operation r \<noteq> None)
     + bit (pr_resources r \<noteq> [] \<or> pr_match_resources_exact r)
     + bit (pr_require_user_presence r \<or> pr_user_presence r \<noteq> None)
     + bit (pr_physical_device r \<noteq> None)"

definition rule_key :: "policy_rule \<Rightarrow> nat \<times> nat \<times> string" where
  "rule_key r = (specificity r, pr_revision r, pr_id r)"

text \<open>\<open>max_by_key\<close>: the last of the elements with the greatest key.\<close>

fun max_by_key :: "('a \<Rightarrow> 'k :: linorder) \<Rightarrow> 'a list \<Rightarrow> 'a option" where
  "max_by_key key [] = None"
| "max_by_key key (x # xs) =
     (case max_by_key key xs of
        None \<Rightarrow> Some x
      | Some y \<Rightarrow> Some (if key x > key y then x else y))"

definition select_rule :: "policy_rule list \<Rightarrow> policy_effect \<Rightarrow> policy_rule option" where
  "select_rule rules effect = max_by_key rule_key (filter (\<lambda>r. pr_effect r = effect) rules)"

definition starts_with :: "string \<Rightarrow> string \<Rightarrow> bool" where
  "starts_with p s = (take (length p) s = p)"

definition is_high_risk :: "access_request \<Rightarrow> bool" where
  "is_high_risk q =
     (list_ex (\<lambda>r. r = Debugger \<or> r = Signing \<or> r = Microphone \<or> r = ScreenCapture)
        (rq_resources q)
      \<or> starts_with ''keychain.'' (rq_operation q)
      \<or> starts_with ''devicelane.policy.'' (rq_operation q)
      \<or> starts_with ''devicelane.service.'' (rq_operation q)
      \<or> (rq_physical_device q \<and> ApplicationInstall \<in> set (rq_resources q)))"

section \<open>The engine\<close>

datatype policy_decision = PolicyAllowed rule_id | PolicyDenied rule_id | ApprovalRequired string

record pending_approval =
  pa_request_digest :: string
  pa_target_host_id :: host_id
  pa_expires_at_ms :: u64
  pa_used :: bool

record policy_engine =
  pg_rules :: "policy_rule list"
  pg_approvals :: "(string, pending_approval) hash_map"

record approval_challenge =
  ch_nonce :: string
  ch_expires_at_ms :: u64

record approval_outcome =
  ao_decision :: approval_decision
  ao_created_rule :: "policy_rule option"

datatype approval_error =
    ApprovalInvalidRequest
  | InvalidLifetime
  | UnknownNonce
  | WrongTarget
  | RequestMismatch
  | Expired
  | AlreadyUsed
  | ApprovalLimitExceeded
  | ApprovalRuleLimitExceeded
  | NonceGenerationFailed

datatype policy_configuration_error =
    InvalidRule validation_error
  | RuleLimitExceeded
  | DuplicateRuleId
  | ManagedOriginRequiresVerification

definition new_engine :: policy_engine where
  "new_engine = \<lparr>pg_rules = [], pg_approvals = []\<rparr>"

text \<open>The loops of \<open>validate_rule_set\<close> and \<open>validate_mixed_rule_set\<close>; the former also checks that
  every rule has the origin the caller vouches for.\<close>

fun check_rules :: "(policy_rule \<Rightarrow> bool) \<Rightarrow> rule_id set \<Rightarrow> policy_rule list
    \<Rightarrow> policy_configuration_error + unit" where
  "check_rules origin_ok ids [] = Ok ()"
| "check_rules origin_ok ids (r # rs) =
     (case rule_validate r of
        Inl e \<Rightarrow> Err (InvalidRule e)
      | Inr _ \<Rightarrow>
          if pr_id r \<in> ids then Err DuplicateRuleId
          else if \<not> origin_ok r then Err ManagedOriginRequiresVerification
          else check_rules origin_ok (insert (pr_id r) ids) rs)"

definition validate_rule_set :: "policy_rule list \<Rightarrow> bool \<Rightarrow> policy_configuration_error + unit" where
  "validate_rule_set rules verified_managed =
     (if length rules > MAX_POLICY_RULES then Err RuleLimitExceeded
      else check_rules (\<lambda>r. (pr_origin r = Managed) = verified_managed) {} rules)"

definition validate_mixed_rule_set :: "policy_rule list \<Rightarrow> policy_configuration_error + unit" where
  "validate_mixed_rule_set rules =
     (if length rules > MAX_POLICY_RULES then Err RuleLimitExceeded
      else check_rules (\<lambda>_. True) {} rules)"

definition with_rules :: "policy_rule list \<Rightarrow> policy_configuration_error + policy_engine" where
  "with_rules rules =
     and_then (validate_rule_set rules False) (\<lambda>_. Ok \<lparr>pg_rules = rules, pg_approvals = []\<rparr>)"

definition managed_rules :: "policy_engine \<Rightarrow> policy_rule list" where
  "managed_rules e = filter (\<lambda>r. pr_origin r = Managed) (pg_rules e)"

definition add_verified_managed_rules ::
    "policy_rule list \<Rightarrow> policy_engine \<Rightarrow> (policy_configuration_error + unit) \<times> policy_engine" where
  "add_verified_managed_rules rules e =
     (case validate_rule_set rules True of
        Inl err \<Rightarrow> (Err err, e)
      | Inr _ \<Rightarrow>
          if length (pg_rules e) + length rules > MAX_POLICY_RULES then (Err RuleLimitExceeded, e)
          else if list_ex (\<lambda>r. pr_id r \<in> pr_id ` set (pg_rules e)) rules then (Err DuplicateRuleId, e)
          else (Ok (), e\<lparr>pg_rules := pg_rules e @ rules\<rparr>))"

definition is_verified_managed_rule :: "rule_id \<Rightarrow> policy_engine \<Rightarrow> bool" where
  "is_verified_managed_rule i e = list_ex (\<lambda>r. pr_id r = i \<and> pr_origin r = Managed) (pg_rules e)"

definition validate_restored :: "policy_engine \<Rightarrow> policy_configuration_error + unit" where
  "validate_restored e =
     and_then (validate_mixed_rule_set (pg_rules e))
       (\<lambda>_. if length (pg_approvals e) > MAX_PENDING_APPROVALS then Err RuleLimitExceeded else Ok ())"

definition restore_checkpoint ::
    "policy_engine \<Rightarrow> policy_engine \<Rightarrow> (policy_configuration_error + unit) \<times> policy_engine" where
  "restore_checkpoint checkpoint e =
     (let user = filter (\<lambda>r. pr_origin r = User) (pg_rules checkpoint);
          restored = user @ managed_rules e
      in case and_then (validate_restored checkpoint)
           (\<lambda>_. if length (managed_rules checkpoint) \<noteq> length (managed_rules e)
                   \<or> list_ex (\<lambda>r. r \<notin> set (managed_rules e)) (managed_rules checkpoint)
                then Err ManagedOriginRequiresVerification
                else and_then (validate_rule_set user False)
                  (\<lambda>_. validate_mixed_rule_set restored)) of
           Inl err \<Rightarrow> (Err err, e)
         | Inr _ \<Rightarrow> (Ok (), e\<lparr>pg_rules := restored, pg_approvals := pg_approvals checkpoint\<rparr>))"

text \<open>\<open>iter_mut().find\<close> and the assignment through it.\<close>

fun replace_rule :: "policy_rule \<Rightarrow> policy_rule list \<Rightarrow> policy_rule list" where
  "replace_rule r [] = []"
| "replace_rule r (x # xs) = (if pr_id x = pr_id r then r # xs else x # replace_rule r xs)"

definition put_user_rule ::
    "policy_rule \<Rightarrow> policy_engine \<Rightarrow> (policy_configuration_error + unit) \<times> policy_engine" where
  "put_user_rule r e =
     (case rule_validate r of
        Inl err \<Rightarrow> (Err (InvalidRule err), e)
      | Inr _ \<Rightarrow>
     if pr_origin r \<noteq> User then (Err ManagedOriginRequiresVerification, e)
     else case List.find (\<lambda>x. pr_id x = pr_id r) (pg_rules e) of
       Some existing \<Rightarrow>
         if pr_origin existing = Managed \<or> pr_revision r \<le> pr_revision existing
         then (Err ManagedOriginRequiresVerification, e)
         else (Ok (), e\<lparr>pg_rules := replace_rule r (pg_rules e)\<rparr>)
     | None \<Rightarrow>
         if length (pg_rules e) \<ge> MAX_POLICY_RULES then (Err RuleLimitExceeded, e)
         else (Ok (), e\<lparr>pg_rules := pg_rules e @ [r]\<rparr>))"

definition delete_user_rule ::
    "rule_id \<Rightarrow> policy_engine \<Rightarrow> (policy_configuration_error + bool) \<times> policy_engine" where
  "delete_user_rule i e =
     (if list_ex (\<lambda>r. pr_id r = i \<and> pr_origin r = Managed) (pg_rules e)
      then (Err ManagedOriginRequiresVerification, e)
      else let kept = filter (\<lambda>r. pr_id r \<noteq> i) (pg_rules e)
           in (Ok (length (pg_rules e) \<noteq> length kept), e\<lparr>pg_rules := kept\<rparr>))"

definition evaluate ::
    "codec \<Rightarrow> access_request \<Rightarrow> u64 \<Rightarrow> policy_engine \<Rightarrow> policy_error + policy_decision" where
  "evaluate cd q now e =
     and_then (validate_request cd q)
       (\<lambda>_. let matching = filter (\<lambda>r. rule_matches r q now) (pg_rules e)
            in case select_rule matching Deny of
              Some r \<Rightarrow> Ok (PolicyDenied (pr_id r))
            | None \<Rightarrow>
                if is_high_risk q then
                  (case select_rule (filter (\<lambda>r. pr_origin r = Managed) matching) Allow of
                     Some r \<Rightarrow> Ok (PolicyAllowed (pr_id r))
                   | None \<Rightarrow> Ok (ApprovalRequired ''fresh_target_confirmation''))
                else
                  (case select_rule matching Allow of
                     Some r \<Rightarrow> Ok (PolicyAllowed (pr_id r))
                   | None \<Rightarrow> Ok (ApprovalRequired ''no_matching_rule'')))"

section \<open>Approvals\<close>

definition request_digest :: "codec \<Rightarrow> access_request \<Rightarrow> string" where
  "request_digest cd q =
     cd_sha cd (cd_request cd (q\<lparr>rq_resources := canonical_resources (rq_resources q)\<rparr>))"

text \<open>The slice \<open>nonce[..32]\<close> panics on a shorter nonce, the \<open>expect\<close> on an invalid identifier.\<close>

definition generated_rule_id :: "string \<Rightarrow> rule_id option" where
  "generated_rule_id nonce =
     (if length nonce < 32 then None
      else case validated_id_parse (''approval-'' @ take 32 nonce) of
             Inl e \<Rightarrow> None
           | Inr i \<Rightarrow> Some i)"

definition next_revision :: "policy_rule list \<Rightarrow> u64" where
  "next_revision rules = sat_add64 (fold max (map pr_revision rules) 0) 1"

definition exact_rule ::
    "access_request \<Rightarrow> policy_effect \<Rightarrow> u64 \<Rightarrow> rule_id \<Rightarrow> policy_rule" where
  "exact_rule q effect revision i =
     \<lparr>pr_id = i, pr_revision = revision, pr_effect = effect,
      pr_principal_id = Some (rq_principal_id q), pr_source_host_id = Some (rq_source_host_id q),
      pr_target_host_id = Some (rq_target_host_id q), pr_device_id = rq_device_id q,
      pr_operation = Some (rq_operation q), pr_resources = canonical_resources (rq_resources q),
      pr_expires_at_ms = None, pr_require_user_presence = False,
      pr_user_presence = Some (rq_user_present q), pr_physical_device = Some (rq_physical_device q),
      pr_match_device_exact = True, pr_match_resources_exact = True, pr_enabled = True,
      pr_origin = User\<rparr>"

text \<open>\<open>keys().all(..)\<close>: no pending nonce generates the rule identifier; a key too short panics.\<close>

fun no_pending_rule :: "rule_id \<Rightarrow> string list \<Rightarrow> bool option" where
  "no_pending_rule i [] = Some True"
| "no_pending_rule i (k # ks) =
     (case generated_rule_id k of
        None \<Rightarrow> None
      | Some j \<Rightarrow> if j = i then Some False else no_pending_rule i ks)"

text \<open>The nonce loop over the candidates the generator yields; the outer option is a panic.\<close>

fun pick_nonce :: "policy_rule list \<Rightarrow> string list \<Rightarrow> string list \<Rightarrow> string option option" where
  "pick_nonce rules pending [] = Some None"
| "pick_nonce rules pending (c # cs) =
     (case generated_rule_id c of
        None \<Rightarrow> None
      | Some i \<Rightarrow>
          if c \<in> set pending then pick_nonce rules pending cs
          else (case no_pending_rule i pending of
              None \<Rightarrow> None
            | Some clear \<Rightarrow>
                if clear \<and> list_all (\<lambda>r. pr_id r \<noteq> i) rules then Some (Some c)
                else pick_nonce rules pending cs))"

text \<open>\<open>random\<close> is what the generator fills the successive 32-byte buffers with.\<close>

definition create_approval ::
    "codec \<Rightarrow> string list \<Rightarrow> access_request \<Rightarrow> u64 \<Rightarrow> u64 \<Rightarrow> policy_engine
       \<Rightarrow> ((approval_error + approval_challenge) \<times> policy_engine) option" where
  "create_approval cd random q now lifetime e =
     (case validate_request cd q of
        Inl err \<Rightarrow> Some (Err ApprovalInvalidRequest, e)
      | Inr _ \<Rightarrow>
     if lifetime = 0 then Some (Err InvalidLifetime, e)
     else let live = filter (\<lambda>(n, a). \<not> pa_used a \<and> pa_expires_at_ms a > now) (pg_approvals e);
              e1 = e\<lparr>pg_approvals := live\<rparr>;
              expires = sat_add64 now (min lifetime MAX_APPROVAL_LIFETIME_MS) in
     if length live \<ge> MAX_PENDING_APPROVALS then Some (Err ApprovalLimitExceeded, e1)
     else case pick_nonce (pg_rules e) (hm_keys live)
                 (map hex (take NONCE_GENERATION_ATTEMPTS random)) of
       None \<Rightarrow> None
     | Some None \<Rightarrow> Some (Err NonceGenerationFailed, e1)
     | Some (Some nonce) \<Rightarrow>
         Some (Ok \<lparr>ch_nonce = nonce, ch_expires_at_ms = expires\<rparr>,
           e1\<lparr>pg_approvals := hm_insert nonce
             \<lparr>pa_request_digest = request_digest cd q, pa_target_host_id = rq_target_host_id q,
              pa_expires_at_ms = expires, pa_used = False\<rparr> live\<rparr>))"

fun effect_of_decision :: "approval_decision \<Rightarrow> policy_effect option" where
  "effect_of_decision AllowAndRemember = Some Allow"
| "effect_of_decision DenyAndBlock = Some Deny"
| "effect_of_decision AllowOnce = None"
| "effect_of_decision DenyOnce = None"

text \<open>\<open>session_host\<close> is the local host of the authenticated session of the person who decides.\<close>

definition decide ::
    "codec \<Rightarrow> string \<Rightarrow> host_id \<Rightarrow> access_request \<Rightarrow> approval_decision \<Rightarrow> u64 \<Rightarrow> policy_engine
       \<Rightarrow> ((approval_error + approval_outcome) \<times> policy_engine) option" where
  "decide cd nonce session_host q d now e =
     (case validate_request cd q of
        Inl err \<Rightarrow> Some (Err ApprovalInvalidRequest, e)
      | Inr _ \<Rightarrow>
     case hm_get (pg_approvals e) nonce of
       None \<Rightarrow> Some (Err UnknownNonce, e)
     | Some p \<Rightarrow>
     if pa_used p then Some (Err AlreadyUsed, e)
     else if now \<ge> pa_expires_at_ms p then Some (Err Expired, e)
     else if session_host \<noteq> pa_target_host_id p then Some (Err WrongTarget, e)
     else if request_digest cd q \<noteq> pa_request_digest p then Some (Err RequestMismatch, e)
     else if effect_of_decision d \<noteq> None \<and> length (pg_rules e) \<ge> MAX_POLICY_RULES
     then Some (Err ApprovalRuleLimitExceeded, e)
     else let e1 = e\<lparr>pg_approvals := hm_insert nonce (p\<lparr>pa_used := True\<rparr>) (pg_approvals e)\<rparr> in
     case effect_of_decision d of
       None \<Rightarrow> Some (Ok \<lparr>ao_decision = d, ao_created_rule = None\<rparr>, e1)
     | Some effect \<Rightarrow>
         map_option (\<lambda>i. let r = exact_rule q effect (next_revision (pg_rules e)) i
             in (Ok \<lparr>ao_decision = d, ao_created_rule = Some r\<rparr>, e1\<lparr>pg_rules := pg_rules e @ [r]\<rparr>))
           (generated_rule_id nonce))"

section \<open>Selection\<close>

lemma max_by_key_None [simp]: "max_by_key key xs = None \<longleftrightarrow> xs = []"
  by (cases xs) (auto split: option.splits)

lemma max_by_key_Some:
  "max_by_key key xs = Some m \<Longrightarrow> m \<in> set xs \<and> (\<forall>x \<in> set xs. key x \<le> key m)"
proof (induction xs arbitrary: m)
  case Nil
  then show ?case by simp
next
  case (Cons x xs)
  show ?case
  proof (cases "max_by_key key xs")
    case None
    then show ?thesis using Cons.prems by simp
  next
    case (Some y)
    with Cons.IH have "y \<in> set xs" "\<forall>z \<in> set xs. key z \<le> key y" by auto
    then show ?thesis
      using Cons.prems Some by (auto simp: not_less split: if_splits)
  qed
qed

lemma select_rule_None:
  "select_rule rules f = None \<longleftrightarrow> (\<forall>r \<in> set rules. pr_effect r \<noteq> f)"
  by (auto simp: select_rule_def filter_empty_conv)

lemma select_rule_Some:
  "select_rule rules f = Some r \<Longrightarrow> r \<in> set rules \<and> pr_effect r = f
     \<and> (\<forall>x \<in> set rules. pr_effect x = f \<longrightarrow> rule_key x \<le> rule_key r)"
  unfolding select_rule_def using max_by_key_Some [of rule_key _ r] by fastforce

text \<open>The rules in force for a request.\<close>

definition in_force :: "policy_engine \<Rightarrow> access_request \<Rightarrow> u64 \<Rightarrow> policy_rule set" where
  "in_force e q now = {r \<in> set (pg_rules e). rule_matches r q now}"

lemma evaluate_cases:
  assumes "validate_request cd q = Ok ()"
  shows "evaluate cd q now e = Ok (PolicyDenied i) \<Longrightarrow>
      \<exists>r \<in> in_force e q now. pr_id r = i \<and> pr_effect r = Deny"
    and "evaluate cd q now e = Ok (PolicyAllowed i) \<Longrightarrow>
      (\<forall>r \<in> in_force e q now. pr_effect r \<noteq> Deny)
      \<and> (\<exists>r \<in> in_force e q now. pr_id r = i \<and> pr_effect r = Allow
          \<and> (is_high_risk q \<longrightarrow> pr_origin r = Managed)
          \<and> (\<forall>x \<in> in_force e q now. pr_effect x = Allow \<and> (is_high_risk q \<longrightarrow> pr_origin x = Managed)
               \<longrightarrow> rule_key x \<le> rule_key r))"
  using assms
  by (auto simp: evaluate_def in_force_def Let_def select_rule_None
      dest!: select_rule_Some split: option.splits if_splits)

lemma evaluate_denies:
  assumes "validate_request cd q = Ok ()" and "\<exists>r \<in> in_force e q now. pr_effect r = Deny"
  shows "\<exists>i. evaluate cd q now e = Ok (PolicyDenied i)"
  using assms by (auto simp: evaluate_def in_force_def Let_def select_rule_None split: option.splits)

lemma evaluate_allows:
  assumes "validate_request cd q = Ok ()" and "\<forall>r \<in> in_force e q now. pr_effect r \<noteq> Deny"
    and "\<exists>r \<in> in_force e q now. pr_effect r = Allow \<and> (is_high_risk q \<longrightarrow> pr_origin r = Managed)"
  shows "\<exists>i. evaluate cd q now e = Ok (PolicyAllowed i)"
  using assms
  by (auto simp: evaluate_def in_force_def Let_def select_rule_None
      dest!: select_rule_Some split: option.splits)


section \<open>What a decision leaves behind\<close>

lemma length_canonical: "length (canonical_resources rs) = card (set rs)"
  using distinct_card [OF canonical_resources_distinct [of rs]] by simp

lemma same_resources_distinct:
  assumes "distinct l" and "distinct r"
  shows "same_resources l r \<longleftrightarrow> set l = set r"
proof
  assume h: "same_resources l r"
  then have "set l \<subseteq> set r" by (auto simp: same_resources_def list_all_iff)
  moreover have "card (set l) = card (set r)"
    using h assms by (simp add: same_resources_def distinct_card)
  ultimately show "set l = set r" by (simp add: card_subset_eq)
next
  assume h: "set l = set r"
  then have "length l = length r" using distinct_card [OF assms(1)] distinct_card [OF assms(2)] by simp
  with h show "same_resources l r" by (auto simp: same_resources_def list_all_iff)
qed

lemma validate_request_distinct: "validate_request cd q = Ok u \<Longrightarrow> distinct (rq_resources q)"
  by (auto simp: validate_request_def split: if_splits)

lemma exact_rule_matches:
  assumes "distinct (rq_resources q')"
  shows "rule_matches (exact_rule q f n i) q' now \<longleftrightarrow>
     rq_principal_id q' = rq_principal_id q \<and> rq_source_host_id q' = rq_source_host_id q
     \<and> rq_target_host_id q' = rq_target_host_id q \<and> rq_device_id q' = rq_device_id q
     \<and> rq_operation q' = rq_operation q \<and> set (rq_resources q') = set (rq_resources q)
     \<and> rq_user_present q' = rq_user_present q \<and> rq_physical_device q' = rq_physical_device q"
  unfolding rule_matches_def exact_rule_def
  by (rule iffI; elim conjE; simp add: same_resources_distinct [OF canonical_resources_distinct assms])

lemma decide_Ok:
  assumes "decide cd nonce h q d now e = Some (Ok out, e')"
  shows "validate_request cd q = Ok ()"
    and "\<exists>p. hm_get (pg_approvals e) nonce = Some p \<and> \<not> pa_used p \<and> now < pa_expires_at_ms p
      \<and> h = pa_target_host_id p \<and> request_digest cd q = pa_request_digest p
      \<and> pg_approvals e' = hm_insert nonce (p\<lparr>pa_used := True\<rparr>) (pg_approvals e)"
    and "case effect_of_decision d of None \<Rightarrow> pg_rules e' = pg_rules e
      | Some f \<Rightarrow> length (pg_rules e) < MAX_POLICY_RULES \<and> (\<exists>i. generated_rule_id nonce = Some i
          \<and> pg_rules e' = pg_rules e @ [exact_rule q f (next_revision (pg_rules e)) i])"
  using assms by (auto simp: decide_def Let_def split: sum.splits option.splits if_splits)

text \<open>
  A remembered decision takes effect, at any later time and for exactly the requests that agree
  with the decided one on principal, hosts, device, operation, resources, presence and device kind:
  after a block such a request is denied for good, and after a remembered permission it is allowed
  unless it is high-risk or another rule denies it.
\<close>

theorem remembered_decision_takes_effect:
  assumes "decide cd nonce h q d now e = Some (Ok out, e')"
    and "validate_request cd q' = Ok ()"
    and "rq_principal_id q' = rq_principal_id q" "rq_source_host_id q' = rq_source_host_id q"
    and "rq_target_host_id q' = rq_target_host_id q" "rq_device_id q' = rq_device_id q"
    and "rq_operation q' = rq_operation q" "set (rq_resources q') = set (rq_resources q)"
    and "rq_user_present q' = rq_user_present q" "rq_physical_device q' = rq_physical_device q"
  shows "(d = DenyAndBlock \<longrightarrow> (\<exists>i. evaluate cd q' later e' = Ok (PolicyDenied i)))
     \<and> (d = AllowAndRemember \<and> \<not> is_high_risk q' \<and> (\<forall>r \<in> in_force e q' later. pr_effect r \<noteq> Deny)
         \<longrightarrow> (\<exists>i. evaluate cd q' later e' = Ok (PolicyAllowed i)))"
proof -
  note v = validate_request_distinct [OF assms(2)]
  have hit: "rule_matches (exact_rule q f n i) q' later" for f n i
    using assms(3-10) by (simp add: exact_rule_matches [OF v])
  note rules = decide_Ok(3) [OF assms(1)]
  have block: "\<exists>i. evaluate cd q' later e' = Ok (PolicyDenied i)" if "d = DenyAndBlock"
  proof (rule evaluate_denies [OF assms(2)])
    from rules that obtain i where
      "pg_rules e' = pg_rules e @ [exact_rule q Deny (next_revision (pg_rules e)) i]" by auto
    then show "\<exists>r \<in> in_force e' q' later. pr_effect r = Deny"
      using hit by (force simp: in_force_def exact_rule_def)
  qed
  have allow: "\<exists>i. evaluate cd q' later e' = Ok (PolicyAllowed i)"
    if h: "d = AllowAndRemember" "\<not> is_high_risk q'" "\<forall>r \<in> in_force e q' later. pr_effect r \<noteq> Deny"
  proof -
    from rules h(1) obtain i where
      r: "pg_rules e' = pg_rules e @ [exact_rule q Allow (next_revision (pg_rules e)) i]" by auto
    then have "in_force e' q' later
        = insert (exact_rule q Allow (next_revision (pg_rules e)) i) (in_force e q' later)"
      using hit by (auto simp: in_force_def)
    then show ?thesis using h by (intro evaluate_allows [OF assms(2)]) (auto simp: exact_rule_def)
  qed
  show ?thesis using block allow by blast
qed

section \<open>The life of an approval\<close>

lemma pick_nonce_Some:
  "pick_nonce rules pending cs = Some (Some n) \<Longrightarrow>
     n \<in> set cs \<and> n \<notin> set pending \<and> (\<exists>i. generated_rule_id n = Some i \<and> i \<notin> pr_id ` set rules
       \<and> no_pending_rule i pending = Some True)"
  by (induction rules pending cs rule: pick_nonce.induct)
    (auto simp: list_all_iff split: option.splits if_splits)

lemma create_approval_Ok:
  assumes "create_approval cd random q now lifetime e = Some (Ok ch, e')"
  shows "validate_request cd q = Ok () \<and> 0 < lifetime
     \<and> ch_expires_at_ms ch = sat_add64 now (min lifetime MAX_APPROVAL_LIFETIME_MS)
     \<and> ch_nonce ch \<in> set (map hex (take NONCE_GENERATION_ATTEMPTS random))
     \<and> pg_rules e' = pg_rules e
     \<and> hm_get (pg_approvals e') (ch_nonce ch) = Some
         \<lparr>pa_request_digest = request_digest cd q, pa_target_host_id = rq_target_host_id q,
          pa_expires_at_ms = ch_expires_at_ms ch, pa_used = False\<rparr>
     \<and> (\<exists>i. generated_rule_id (ch_nonce ch) = Some i \<and> i \<notin> pr_id ` set (pg_rules e))"
  using assms
  by (auto simp: create_approval_def Let_def split: sum.splits option.splits if_splits
      dest!: pick_nonce_Some)

text \<open>
  An approval that was created can be decided: before it expires, by the session at the target of
  the request, with the same request, and while the rule table has room for a remembered decision;
  the outcome carries the decision, and a remembered one the exact rule of the request.
\<close>

theorem created_approval_is_decidable:
  assumes "create_approval cd random q now lifetime e = Some (Ok ch, e1)"
    and "later < ch_expires_at_ms ch" and "length (pg_rules e) < MAX_POLICY_RULES"
  shows "\<exists>out e2. decide cd (ch_nonce ch) (rq_target_host_id q) q d later e1 = Some (Ok out, e2)
     \<and> ao_decision out = d
     \<and> map_option (\<lambda>r. (pr_effect r, pr_origin r)) (ao_created_rule out)
        = map_option (\<lambda>f. (f, User)) (effect_of_decision d)"
  using create_approval_Ok [OF assms(1)] assms(2,3)
  by (cases "effect_of_decision d") (auto simp: decide_def Let_def exact_rule_def)

section \<open>The policy as a machine\<close>

datatype policy_op =
    PutRule policy_rule
  | DeleteRule rule_id
  | CreateApproval access_request u64 u64 "string list"
  | Decide string host_id access_request approval_decision u64
  | RestoreCheckpoint policy_engine

fun policy_step :: "codec \<Rightarrow> policy_op \<Rightarrow> policy_engine option \<Rightarrow> policy_engine option" where
  "policy_step cd opn None = None"
| "policy_step cd (PutRule r) (Some e) = Some (snd (put_user_rule r e))"
| "policy_step cd (DeleteRule i) (Some e) = Some (snd (delete_user_rule i e))"
| "policy_step cd (CreateApproval q now lifetime random) (Some e) =
     map_option snd (create_approval cd random q now lifetime e)"
| "policy_step cd (Decide nonce h q d now) (Some e) = map_option snd (decide cd nonce h q d now e)"
| "policy_step cd (RestoreCheckpoint c) (Some e) = Some (snd (restore_checkpoint c e))"

lemma managed_replace:
  "pr_origin r = User \<Longrightarrow> List.find (\<lambda>x. pr_id x = pr_id r) xs = Some y \<Longrightarrow> pr_origin y = User \<Longrightarrow>
     filter (\<lambda>r. pr_origin r = Managed) (replace_rule r xs) = filter (\<lambda>r. pr_origin r = Managed) xs"
  by (induction xs) (auto split: if_splits)

lemma policy_origin_cases: "pr_origin r \<noteq> Managed \<longleftrightarrow> pr_origin r = User"
  by (cases "pr_origin r") auto

lemma managed_put: "managed_rules (snd (put_user_rule r e)) = managed_rules e"
  by (auto simp: put_user_rule_def managed_rules_def policy_origin_cases managed_replace
      split: sum.splits option.splits)

lemma managed_delete: "managed_rules (snd (delete_user_rule i e)) = managed_rules e"
proof (cases "list_ex (\<lambda>r. pr_id r = i \<and> pr_origin r = Managed) (pg_rules e)")
  case True
  then show ?thesis by (simp add: delete_user_rule_def)
next
  case False
  then have "filter (\<lambda>r. pr_origin r = Managed) (filter (\<lambda>r. pr_id r \<noteq> i) (pg_rules e))
      = filter (\<lambda>r. pr_origin r = Managed) (pg_rules e)"
    by (auto simp: list_ex_iff intro!: filter_cong)
  with False show ?thesis by (simp add: delete_user_rule_def managed_rules_def Let_def)
qed

lemma managed_create:
  "create_approval cd random q now lifetime e = Some (r, e') \<Longrightarrow> managed_rules e' = managed_rules e"
  by (auto simp: create_approval_def managed_rules_def Let_def split: sum.splits option.splits if_splits)

lemma managed_decide:
  "decide cd nonce h q d now e = Some (r, e') \<Longrightarrow> managed_rules e' = managed_rules e"
  by (auto simp: decide_def managed_rules_def exact_rule_def Let_def
      split: sum.splits option.splits if_splits)

lemma managed_restore: "managed_rules (snd (restore_checkpoint c e)) = managed_rules e"
  by (auto simp: restore_checkpoint_def managed_rules_def Let_def split: sum.splits)

interpretation managed_run: invariant_machine "policy_step cd" "is_none_or (\<lambda>e. managed_rules e = m)"
  for cd m
proof
  fix s :: "policy_engine option" and opn
  assume inv: "is_none_or (\<lambda>e. managed_rules e = m) s"
  show "is_none_or (\<lambda>e. managed_rules e = m) (policy_step cd opn s)"
  proof (cases s)
    case (Some e)
    then show ?thesis
      using inv managed_create managed_decide
      by (cases opn)
        (auto simp: managed_put managed_delete managed_restore is_none_or_iff)
  qed simp
qed

text \<open>
  Managed rules are out of the users' reach: whatever rules are put or deleted, approvals created
  and decided, and checkpoints restored, the managed rules of the engine stay exactly those it had.
\<close>

theorem managed_rules_untouched:
  "is_none_or (\<lambda>e'. managed_rules e' = managed_rules e) (fold (policy_step cd) ops (Some e))"
  by (rule managed_run.run_inv) simp

subsection \<open>A nonce decides once\<close>

definition spent :: "string \<Rightarrow> policy_engine \<Rightarrow> bool" where
  "spent nonce e = is_none_or pa_used (hm_get (pg_approvals e) nonce)"

text \<open>An operation that could bring the nonce back: drawing it again, or restoring a checkpoint.\<close>

fun may_reissue :: "string \<Rightarrow> policy_op \<Rightarrow> bool" where
  "may_reissue nonce (CreateApproval q now lifetime random) = (nonce \<in> hex ` set random)"
| "may_reissue nonce (RestoreCheckpoint c) = True"
| "may_reissue nonce _ = False"

lemma spent_create:
  assumes "create_approval cd random q now lifetime e = Some (r, e')" and "nonce \<notin> hex ` set random"
    and "hm_wf (pg_approvals e)" and "spent nonce e"
  shows "spent nonce e'"
proof -
  let ?live = "filter (\<lambda>(n, a). \<not> pa_used a \<and> pa_expires_at_ms a > now) (pg_approvals e)"
  have live: "is_none_or pa_used (hm_get ?live nonce)"
    using assms(3,4) by (auto simp: spent_def hm_get_filter split: option.splits)
  have drawn: "n \<noteq> nonce" if "pick_nonce (pg_rules e) (hm_keys ?live)
      (map hex (take NONCE_GENERATION_ATTEMPTS random)) = Some (Some n)" for n
    using pick_nonce_Some [OF that] assms(2) set_take_subset [of NONCE_GENERATION_ATTEMPTS random]
    by auto
  show ?thesis
    using assms(1,4) live drawn
    by (auto simp: create_approval_def spent_def Let_def split: sum.splits option.splits if_splits)
qed

lemma spent_decide:
  "decide cd n h q d now e = Some (r, e') \<Longrightarrow> spent nonce e \<Longrightarrow> spent nonce e'"
  by (auto simp: decide_def spent_def Let_def split: sum.splits option.splits if_splits)

lemma wf_create: "create_approval cd random q now lifetime e = Some (r, e') \<Longrightarrow>
    hm_wf (pg_approvals e) \<Longrightarrow> hm_wf (pg_approvals e')"
  by (auto simp: create_approval_def Let_def split: sum.splits option.splits if_splits)

lemma wf_decide: "decide cd n h q d now e = Some (r, e') \<Longrightarrow> hm_wf (pg_approvals e) \<Longrightarrow>
    hm_wf (pg_approvals e')"
  by (auto simp: decide_def Let_def split: sum.splits option.splits if_splits)

lemma approvals_put [simp]: "pg_approvals (snd (put_user_rule r e)) = pg_approvals e"
  by (auto simp: put_user_rule_def split: sum.splits option.splits)

lemma approvals_delete [simp]: "pg_approvals (snd (delete_user_rule i e)) = pg_approvals e"
  by (simp add: delete_user_rule_def Let_def)

lemma spent_step:
  assumes "policy_step cd opn (Some e) = Some e'" and "\<not> may_reissue nonce opn"
    and "hm_wf (pg_approvals e) \<and> spent nonce e"
  shows "hm_wf (pg_approvals e') \<and> spent nonce e'"
  using assms
  by (cases opn)
    (auto simp: spent_def [of nonce "snd (put_user_rule _ _)"]
        spent_def [of nonce "snd (delete_user_rule _ _)"] spent_def [of nonce e, symmetric]
      intro: spent_create spent_decide wf_create wf_decide)

lemma spent_run:
  "fold (policy_step cd) ops (Some e) = Some e' \<Longrightarrow> \<forall>opn \<in> set ops. \<not> may_reissue nonce opn \<Longrightarrow>
     hm_wf (pg_approvals e) \<and> spent nonce e \<Longrightarrow> spent nonce e'"
proof (induction ops arbitrary: e)
  case Nil
  then show ?case by simp
next
  case (Cons x ops)
  have dead: "fold (policy_step cd) ops None = None" for ops by (induction ops) simp_all
  obtain e1 where e1: "policy_step cd x (Some e) = Some e1"
    using Cons.prems(1) dead by (cases "policy_step cd x (Some e)") auto
  show ?case
    using Cons.IH [of e1] spent_step [OF e1 _ Cons.prems(3)] Cons.prems(1,2) e1 by simp
qed

text \<open>
  C11. An approval decides one request once: after a decision went through, no later sequence of
  operations makes the same nonce decide again, unless the generator draws it anew or an older
  checkpoint is restored.
\<close>

theorem approval_is_single_use:
  assumes "hm_wf (pg_approvals e)" and "decide cd nonce h q d now e = Some (Ok out, e1)"
    and "\<forall>opn \<in> set ops. \<not> may_reissue nonce opn"
    and "fold (policy_step cd) ops (Some e1) = Some e2"
  shows "\<exists>err. decide cd nonce h2 q2 d2 later e2 = Some (Err err, e2)"
proof -
  have "hm_wf (pg_approvals e1) \<and> spent nonce e1"
    using decide_Ok(2) [OF assms(2)] assms(1) by (auto simp: spent_def)
  then have "spent nonce e2" using spent_run assms(3,4) by blast
  then show ?thesis by (auto simp: decide_def spent_def split: sum.splits option.splits)
qed

section \<open>Engines that a checkpoint can restore\<close>

lemma check_rules_Ok:
  "check_rules origin_ok ids rs = Ok () \<longleftrightarrow>
     distinct (map pr_id rs) \<and> pr_id ` set rs \<inter> ids = {}
     \<and> (\<forall>r \<in> set rs. rule_validate r = Ok () \<and> origin_ok r)"
  by (induction rs arbitrary: ids) (auto split: sum.splits)

lemma validate_restored_Ok:
  "validate_restored e = Ok () \<longleftrightarrow>
     length (pg_rules e) \<le> MAX_POLICY_RULES \<and> length (pg_approvals e) \<le> MAX_PENDING_APPROVALS
     \<and> distinct (map pr_id (pg_rules e)) \<and> (\<forall>r \<in> set (pg_rules e). rule_validate r = Ok ())"
  by (auto simp: validate_restored_def validate_mixed_rule_set_def check_rules_Ok split: if_splits)

text \<open>A pending approval that waits for its decision, with the identifier a remembered decision of
  it will take.\<close>

definition awaits :: "(string, pending_approval) hash_map \<Rightarrow> string \<Rightarrow> rule_id \<Rightarrow> bool" where
  "awaits ap n i \<longleftrightarrow> (\<exists>p. hm_get ap n = Some p \<and> \<not> pa_used p) \<and> generated_rule_id n = Some i"

definition rules_ok :: "policy_rule list \<Rightarrow> bool" where
  "rules_ok rs \<longleftrightarrow> length rs \<le> MAX_POLICY_RULES \<and> distinct (map pr_id rs)
     \<and> (\<forall>r \<in> set rs. rule_validate r = Ok ())"

definition approvals_ok :: "rule_id set \<Rightarrow> (string, pending_approval) hash_map \<Rightarrow> bool" where
  "approvals_ok ids ap \<longleftrightarrow> hm_wf ap \<and> length ap \<le> MAX_PENDING_APPROVALS
     \<and> (\<forall>n. hm_has ap n \<longrightarrow> generated_rule_id n \<noteq> None)
     \<and> (\<forall>n i. awaits ap n i \<longrightarrow> i \<notin> ids)
     \<and> (\<forall>m n i. awaits ap m i \<longrightarrow> awaits ap n i \<longrightarrow> m = n)"

definition engine_ok :: "policy_engine \<Rightarrow> bool" where
  "engine_ok e \<longleftrightarrow> rules_ok (pg_rules e) \<and> approvals_ok (pr_id ` set (pg_rules e)) (pg_approvals e)"

lemma engine_ok_restorable: "engine_ok e \<Longrightarrow> validate_restored e = Ok ()"
  by (simp add: engine_ok_def rules_ok_def approvals_ok_def validate_restored_Ok)

lemma engine_ok_new: "engine_ok new_engine"
  by (simp add: engine_ok_def new_engine_def rules_ok_def approvals_ok_def awaits_def)

lemma exact_rule_valid:
  "validate_request cd q = Ok () \<Longrightarrow> rule_validate (exact_rule q f n i) = Ok ()"
  using canonical_resources_distinct [of "rq_resources q"] card_length [of "rq_resources q"]
  by (auto simp: validate_request_def rule_validate_def exact_rule_def length_canonical
      split: if_splits)

subsection \<open>Changing the rules\<close>

lemma set_replace_rule: "set (replace_rule r xs) \<subseteq> insert r (set xs)"
  by (induction xs) auto

lemma ids_replace_rule: "map pr_id (replace_rule r xs) = map pr_id xs"
  by (induction xs) auto

lemma length_replace_rule [simp]: "length (replace_rule r xs) = length xs"
  by (induction xs) auto

lemma rules_ok_snoc:
  "rules_ok rs \<Longrightarrow> length rs < MAX_POLICY_RULES \<Longrightarrow> rule_validate r = Ok () \<Longrightarrow>
     pr_id r \<notin> pr_id ` set rs \<Longrightarrow> rules_ok (rs @ [r])"
  by (auto simp: rules_ok_def)

lemma rules_ok_replace: "rules_ok rs \<Longrightarrow> rule_validate r = Ok () \<Longrightarrow> rules_ok (replace_rule r rs)"
  using set_replace_rule [of r rs] by (auto simp: rules_ok_def ids_replace_rule)

lemma rules_ok_filter: "rules_ok rs \<Longrightarrow> rules_ok (filter P rs)"
  using le_trans [OF length_filter_le] by (auto simp: rules_ok_def distinct_map_filter)

lemma approvals_ok_ids:
  "approvals_ok ids ap \<Longrightarrow> (\<And>n i. awaits ap n i \<Longrightarrow> i \<notin> ids \<Longrightarrow> i \<notin> ids') \<Longrightarrow> approvals_ok ids' ap"
  unfolding approvals_ok_def by blast

lemma put_user_rule_cases:
  "snd (put_user_rule r e) = e
   \<or> (snd (put_user_rule r e) = e\<lparr>pg_rules := pg_rules e @ [r]\<rparr>
      \<and> length (pg_rules e) < MAX_POLICY_RULES \<and> rule_validate r = Ok ()
      \<and> pr_id r \<notin> pr_id ` set (pg_rules e))
   \<or> (snd (put_user_rule r e) = e\<lparr>pg_rules := replace_rule r (pg_rules e)\<rparr>
      \<and> rule_validate r = Ok ())"
proof (cases "List.find (\<lambda>x. pr_id x = pr_id r) (pg_rules e)")
  case None
  then have "pr_id r \<notin> pr_id ` set (pg_rules e)" by (force simp: find_None_eq)
  with None show ?thesis by (simp add: put_user_rule_def split: sum.split)
next
  case (Some x)
  then show ?thesis by (simp add: put_user_rule_def split: sum.split)
qed

lemma put_user_rule_ok:
  assumes ok: "engine_ok e" and free: "\<forall>n. \<not> awaits (pg_approvals e) n (pr_id r)"
  shows "engine_ok (snd (put_user_rule r e))"
proof -
  have "pr_id ` set (replace_rule r (pg_rules e)) = pr_id ` set (pg_rules e)"
    using ids_replace_rule [of r "pg_rules e"] by (metis set_map)
  then have update: "rule_validate r = Ok () \<Longrightarrow> engine_ok (e\<lparr>pg_rules := replace_rule r (pg_rules e)\<rparr>)"
    using ok by (simp add: engine_ok_def rules_ok_replace)
  have add: "engine_ok (e\<lparr>pg_rules := pg_rules e @ [r]\<rparr>)"
    if "length (pg_rules e) < MAX_POLICY_RULES" "rule_validate r = Ok ()"
      "pr_id r \<notin> pr_id ` set (pg_rules e)"
    using ok free that by (auto simp: engine_ok_def intro: rules_ok_snoc approvals_ok_ids)
  from put_user_rule_cases [of r e] show ?thesis using ok update add by metis
qed

lemma delete_user_rule_ok: "engine_ok e \<Longrightarrow> engine_ok (snd (delete_user_rule i e))"
  by (auto simp: delete_user_rule_def Let_def engine_ok_def intro: rules_ok_filter approvals_ok_ids)

subsection \<open>Changing the approvals\<close>

lemma no_pending_rule_True:
  "no_pending_rule i ks = Some True \<longleftrightarrow>
     (\<forall>k \<in> set ks. \<exists>j. generated_rule_id k = Some j \<and> j \<noteq> i)"
  by (induction ks) (auto split: option.splits)

lemma approvals_ok_filter:
  assumes "approvals_ok ids ap"
  shows "approvals_ok ids (filter P ap)"
proof -
  have wf: "hm_wf ap" using assms by (simp add: approvals_ok_def)
  have sub: "awaits (filter P ap) n i \<Longrightarrow> awaits ap n i" "hm_has (filter P ap) n \<Longrightarrow> hm_has ap n" for n i
    using hm_get_filter [OF wf] by (auto simp: awaits_def hm_has_def split: option.splits if_splits)
  show ?thesis
    using assms sub le_trans [OF length_filter_le, of ap] unfolding approvals_ok_def
    by (metis hm_wf_filter)
qed

lemma approvals_ok_insert:
  assumes "approvals_ok ids ap" and "generated_rule_id n = Some i" and "i \<notin> ids"
    and "\<forall>m. awaits ap m i \<longrightarrow> m = n" and "hm_has ap n \<or> length ap < MAX_PENDING_APPROVALS"
  shows "approvals_ok ids (hm_insert n p ap)"
proof -
  have aw: "awaits (hm_insert n p ap) m j \<Longrightarrow> awaits ap m j \<or> (m = n \<and> j = i)" for m j
    using assms(2) by (auto simp: awaits_def split: if_splits)
  have h: "hm_wf ap" "length ap \<le> MAX_PENDING_APPROVALS" "\<forall>m. hm_has ap m \<longrightarrow> generated_rule_id m \<noteq> None"
    and ids: "\<And>m j. awaits ap m j \<Longrightarrow> j \<notin> ids"
    and uniq: "\<And>m k j. awaits ap m j \<Longrightarrow> awaits ap k j \<Longrightarrow> m = k"
    using assms(1) unfolding approvals_ok_def by blast+
  have "length (hm_insert n p ap) \<le> MAX_PENDING_APPROVALS"
    using h(2) assms(5) by (auto simp: length_hm_insert)
  moreover have "hm_has (hm_insert n p ap) m \<Longrightarrow> generated_rule_id m \<noteq> None" for m
    using h(3) assms(2) by auto
  moreover have "awaits (hm_insert n p ap) m j \<Longrightarrow> j \<notin> ids" for m j
    using aw ids assms(3) by blast
  moreover have "awaits (hm_insert n p ap) m j \<Longrightarrow> awaits (hm_insert n p ap) k j \<Longrightarrow> m = k" for m k j
    using aw [of m j] aw [of k j] uniq assms(4) by blast
  ultimately show ?thesis using h(1) unfolding approvals_ok_def by blast
qed

lemma create_approval_cases:
  assumes "create_approval cd random q now lifetime e = Some (r, e')"
  defines "live \<equiv> filter (\<lambda>(n, a). \<not> pa_used a \<and> pa_expires_at_ms a > now) (pg_approvals e)"
  shows "e' = e \<or> e' = e\<lparr>pg_approvals := live\<rparr>
     \<or> (\<exists>nonce p. pick_nonce (pg_rules e) (hm_keys live)
            (map hex (take NONCE_GENERATION_ATTEMPTS random)) = Some (Some nonce)
          \<and> e' = e\<lparr>pg_approvals := hm_insert nonce p live\<rparr> \<and> length live < MAX_PENDING_APPROVALS)"
proof (cases "is_ok (validate_request cd q) \<and> lifetime \<noteq> 0 \<and> length live < MAX_PENDING_APPROVALS")
  case False
  then show ?thesis
    using assms(1) unfolding create_approval_def live_def [symmetric]
    by (cases "validate_request cd q") (auto simp: Let_def split: if_splits)
next
  case True
  then obtain u where "validate_request cd q = Ok u" by (cases "validate_request cd q") auto
  with True assms(1) show ?thesis
    unfolding create_approval_def live_def [symmetric]
    by (simp add: Let_def split: option.splits) blast
qed

lemma create_approval_ok:
  assumes ok: "engine_ok e" and r: "create_approval cd random q now lifetime e = Some (r, e')"
  shows "engine_ok e'"
proof -
  let ?live = "filter (\<lambda>(n, a). \<not> pa_used a \<and> pa_expires_at_ms a > now) (pg_approvals e)"
  have live: "approvals_ok (pr_id ` set (pg_rules e)) ?live"
    using ok by (simp add: engine_ok_def approvals_ok_filter)
  from create_approval_cases [OF r]
  consider "e' = e" | "e' = e\<lparr>pg_approvals := ?live\<rparr>"
    | nonce p where "pick_nonce (pg_rules e) (hm_keys ?live)
          (map hex (take NONCE_GENERATION_ATTEMPTS random)) = Some (Some nonce)"
        "e' = e\<lparr>pg_approvals := hm_insert nonce p ?live\<rparr>" "length ?live < MAX_PENDING_APPROVALS"
    by metis
  then show ?thesis
  proof cases
    case 3
    from pick_nonce_Some [OF 3(1)] obtain i where
      i: "generated_rule_id nonce = Some i" "i \<notin> pr_id ` set (pg_rules e)"
        "\<forall>k \<in> set (hm_keys ?live). \<exists>j. generated_rule_id k = Some j \<and> j \<noteq> i"
      by (auto simp: no_pending_rule_True)
    have "\<not> awaits ?live m i" for m
      using i(3) hm_has_keys [of ?live m] by (auto simp: awaits_def hm_has_def)
    then show ?thesis
      using approvals_ok_insert [OF live i(1,2)] 3 ok by (simp add: engine_ok_def)
  qed (use ok live in \<open>simp_all add: engine_ok_def\<close>)
qed

lemma decide_ok:
  assumes ok: "engine_ok e" and r: "decide cd nonce h q d now e = Some (r, e')"
  shows "engine_ok e'"
proof (cases r)
  case (Inl err)
  then have "e' = e" using r
    by (auto simp: decide_def Let_def split: sum.splits option.splits if_splits)
  then show ?thesis using ok by simp
next
  case (Inr out)
  note r = r [unfolded Inr]
  let ?ids = "pr_id ` set (pg_rules e)"
  obtain p where p: "hm_get (pg_approvals e) nonce = Some p" "\<not> pa_used p"
    and a: "pg_approvals e' = hm_insert nonce (p\<lparr>pa_used := True\<rparr>) (pg_approvals e)"
    using decide_Ok(2) [OF r] by blast
  have ap: "approvals_ok ?ids (pg_approvals e)" using ok by (simp add: engine_ok_def)
  then obtain i where i: "generated_rule_id nonce = Some i"
    using p(1) by (auto simp: approvals_ok_def hm_has_def)
  then have w: "awaits (pg_approvals e) nonce i" using p by (simp add: awaits_def)
  with ap have free: "i \<notin> ?ids" "\<And>m. awaits (pg_approvals e) m i \<Longrightarrow> m = nonce"
    unfolding approvals_ok_def by blast+
  then have ap': "approvals_ok ?ids (pg_approvals e')"
    using approvals_ok_insert [OF ap i] p(1) a by (simp add: hm_has_def)
  show ?thesis
  proof (cases "effect_of_decision d")
    case None
    then show ?thesis using decide_Ok(3) [OF r] ap' ok by (simp add: engine_ok_def)
  next
    case (Some f)
    let ?r = "exact_rule q f (next_revision (pg_rules e)) i"
    have rules: "length (pg_rules e) < MAX_POLICY_RULES" "pg_rules e' = pg_rules e @ [?r]"
      using decide_Ok(3) [OF r] Some i by auto
    have "pr_id ?r = i" by (simp add: exact_rule_def)
    moreover have "\<not> awaits (pg_approvals e') m i" for m
    proof (cases "m = nonce")
      case True
      then show ?thesis by (simp add: a awaits_def)
    next
      case False
      then have "awaits (pg_approvals e') m i = awaits (pg_approvals e) m i"
        by (simp add: a awaits_def)
      then show ?thesis using free(2) False by blast
    qed
    moreover have "rules_ok (pg_rules e @ [?r])"
      using rules_ok_snoc rules(1) free(1) ok exact_rule_valid [OF decide_Ok(1) [OF r]]
      by (simp add: engine_ok_def exact_rule_def)
    ultimately show ?thesis
      using rules ap' by (auto simp: engine_ok_def intro: approvals_ok_ids)
  qed
qed

text \<open>
  Changes to rules and approvals keep the engine restorable: no duplicate identifiers, valid
  rules only, both tables within bounds, and a fresh identifier set aside for every approval that
  waits. The one condition is that a rule put by hand does not carry such a set-aside identifier.
\<close>

theorem engine_stays_restorable:
  assumes "engine_ok e" and "policy_step cd opn (Some e) = Some e'"
    and "\<forall>r n. opn = PutRule r \<longrightarrow> \<not> awaits (pg_approvals e) n (pr_id r)"
    and "\<forall>c. opn \<noteq> RestoreCheckpoint c"
  shows "engine_ok e' \<and> validate_restored e' = Ok ()"
proof -
  have "engine_ok e'"
    using assms
    by (cases opn)
      (auto intro: put_user_rule_ok delete_user_rule_ok create_approval_ok decide_ok)
  then show ?thesis by (simp add: engine_ok_restorable)
qed

section \<open>A concrete engine\<close>

definition sample_codec :: codec where
  "sample_codec = \<lparr>cd_remote = (\<lambda>i w d opn. w), cd_request = rq_operation, cd_sha = (\<lambda>s. s)\<rparr>"

definition sample_request :: access_request where
  "sample_request = \<lparr>rq_activity_id = ''a'', rq_principal_id = ''p'', rq_source_host_id = ''s'',
     rq_target_host_id = ''t'', rq_device_id = None, rq_operation = ''workspace.write'',
     rq_resources = [WorkspaceWrite], rq_remote_operation = None, rq_physical_device = False,
     rq_user_present = True\<rparr>"

definition sample_random :: string where
  "sample_random = replicate 32 NUL"

definition sample_nonce :: string where
  "sample_nonce = replicate 64 CHR ''0''"

definition sample_rule_id :: rule_id where
  "sample_rule_id = ''approval-'' @ replicate 32 CHR ''0''"

definition sample_pending :: pending_approval where
  "sample_pending = \<lparr>pa_request_digest = ''workspace.write'', pa_target_host_id = ''t'',
     pa_expires_at_ms = 61000, pa_used = False\<rparr>"

definition sample_engine :: policy_engine where
  "sample_engine = \<lparr>pg_rules = [], pg_approvals = [(sample_nonce, sample_pending)]\<rparr>"

lemma sample_hex: "hex sample_random = sample_nonce"
  by code_simp

lemma sample_rule_id: "generated_rule_id sample_nonce = Some sample_rule_id"
  by code_simp

lemma sample_request_valid: "validate_request sample_codec sample_request = Ok ()"
  by (simp add: validate_request_def sample_request_def MAX_COLLECTION_ITEMS_def)

lemma sample_request_target: "rq_target_host_id sample_request = ''t''"
  by (simp add: sample_request_def)

lemma canonical_single [simp]: "canonical_resources [x] = [x]"
  by (simp add: canonical_resources_def)

lemma sample_digest: "request_digest sample_codec sample_request = ''workspace.write''"
  by (simp add: request_digest_def sample_codec_def sample_request_def)

lemma sample_create:
  "create_approval sample_codec [sample_random] sample_request 1000 60000 new_engine
     = Some (Ok \<lparr>ch_nonce = sample_nonce, ch_expires_at_ms = 61000\<rparr>, sample_engine)"
  by (simp add: create_approval_def sample_request_valid new_engine_def sample_engine_def
      sample_pending_def MAX_PENDING_APPROVALS_def MAX_COLLECTION_ITEMS_def sat_add64_def u64_max_def
      MAX_APPROVAL_LIFETIME_MS_def NONCE_GENERATION_ATTEMPTS_def sample_hex sample_rule_id
      hm_keys_def sample_digest hm_insert_def sample_request_target)

lemma sample_engine_ok: "engine_ok sample_engine"
  using create_approval_ok [OF engine_ok_new sample_create] .

definition decided :: "policy_effect \<Rightarrow> policy_engine" where
  "decided f = \<lparr>pg_rules = [exact_rule sample_request f 1 sample_rule_id],
     pg_approvals = [(sample_nonce, sample_pending\<lparr>pa_used := True\<rparr>)]\<rparr>"

lemma sample_decide:
  "effect_of_decision d = Some f \<Longrightarrow>
   decide sample_codec sample_nonce ''t'' sample_request d 2000 sample_engine
     = Some (Ok \<lparr>ao_decision = d, ao_created_rule = Some (exact_rule sample_request f 1 sample_rule_id)\<rparr>,
         decided f)"
  by (simp add: decide_def sample_request_valid sample_engine_def sample_pending_def sample_digest
      decided_def sample_rule_id Let_def next_revision_def sat_add64_def u64_max_def MAX_POLICY_RULES_def
      MAX_COLLECTION_ITEMS_def hm_get_def hm_insert_def)


theorem remembered_decision_takes_effect_witness:
  "\<exists>i. evaluate sample_codec sample_request 900000 (decided Deny) = Ok (PolicyDenied i)"
  using remembered_decision_takes_effect [OF sample_decide [of DenyAndBlock Deny]
      sample_request_valid, of 900000]
  by simp

theorem created_approval_is_decidable_witness:
  "\<exists>out e2. decide sample_codec sample_nonce ''t'' sample_request AllowAndRemember 2000 sample_engine
     = Some (Ok out, e2) \<and> ao_decision out = AllowAndRemember"
  using created_approval_is_decidable [OF sample_create, of 2000 AllowAndRemember]
  by (auto simp: sample_request_target sample_engine_def MAX_POLICY_RULES_def MAX_COLLECTION_ITEMS_def
      new_engine_def)

theorem approval_is_single_use_witness:
  "\<exists>err. decide sample_codec sample_nonce ''t'' sample_request AllowOnce 3000 (decided Deny)
     = Some (Err err, decided Deny)"
proof -
  have wf: "hm_wf (pg_approvals sample_engine)" by (simp add: sample_engine_def hm_wf_def)
  show ?thesis
    using approval_is_single_use [OF wf sample_decide [of DenyAndBlock Deny], of "[]"] by simp
qed

definition colliding_rule :: policy_rule where
  "colliding_rule = (exact_rule sample_request Allow 5 sample_rule_id)"

text \<open>
  A rule put by hand may take the identifier set aside for a pending approval; the remembered
  decision then adds a second rule with that identifier, and the engine can no longer be restored
  from its own checkpoint.
\<close>

theorem decision_can_duplicate_rule_id:
  "\<exists>e1 e2 out. put_user_rule colliding_rule sample_engine = (Ok (), e1)
     \<and> decide sample_codec sample_nonce ''t'' sample_request AllowAndRemember 2000 e1 = Some (Ok out, e2)
     \<and> validate_restored sample_engine = Ok () \<and> validate_restored e1 = Ok ()
     \<and> validate_restored e2 = Err DuplicateRuleId"
proof -
  let ?e1 = "sample_engine\<lparr>pg_rules := [colliding_rule]\<rparr>"
  have v: "rule_validate (exact_rule sample_request Allow n sample_rule_id) = Ok ()" for n
    by (rule exact_rule_valid [OF sample_request_valid])
  have put: "put_user_rule colliding_rule sample_engine = (Ok (), ?e1)"
    using v by (simp add: put_user_rule_def colliding_rule_def sample_engine_def exact_rule_def
        MAX_POLICY_RULES_def MAX_COLLECTION_ITEMS_def)
  let ?r2 = "exact_rule sample_request Allow 6 sample_rule_id"
  let ?e2 = "\<lparr>pg_rules = [colliding_rule, ?r2],
     pg_approvals = [(sample_nonce, sample_pending\<lparr>pa_used := True\<rparr>)]\<rparr>"
  have dec: "decide sample_codec sample_nonce ''t'' sample_request AllowAndRemember 2000 ?e1
      = Some (Ok \<lparr>ao_decision = AllowAndRemember, ao_created_rule = Some ?r2\<rparr>, ?e2)"
    by (simp add: decide_def sample_request_valid sample_engine_def sample_pending_def sample_digest
        sample_rule_id Let_def next_revision_def sat_add64_def u64_max_def MAX_POLICY_RULES_def
        MAX_COLLECTION_ITEMS_def hm_get_def hm_insert_def colliding_rule_def)
      (simp add: exact_rule_def)
  have "validate_restored ?e2 = Err DuplicateRuleId"
    using v by (simp add: validate_restored_def validate_mixed_rule_set_def colliding_rule_def
        MAX_POLICY_RULES_def MAX_COLLECTION_ITEMS_def exact_rule_def)
  moreover have "validate_restored sample_engine = Ok ()" "validate_restored ?e1 = Ok ()"
    using v by (simp_all add: validate_restored_Ok sample_engine_def colliding_rule_def
        MAX_POLICY_RULES_def MAX_PENDING_APPROVALS_def MAX_COLLECTION_ITEMS_def)
  ultimately show ?thesis using put dec by blast
qed

theorem engine_stays_restorable_witness:
  "engine_ok (decided Allow) \<and> validate_restored (decided Allow) = Ok ()"
  using engine_stays_restorable [OF sample_engine_ok,
      of sample_codec "Decide sample_nonce ''t'' sample_request AllowAndRemember 2000" "decided Allow"]
  by (simp add: sample_decide)

end
