(* ===== verification/Transport.thy ===== *)
theory Transport
  imports Paths
begin

text \<open>
  The machine identity and the trust store of \<open>secure_transport\<close> (\<open>lib.rs\<close>): pairing with a
  one-time code, trusting, revoking and authorising peers, and signatures bound to a peer.
  Certificates, keys and signatures are third-party cryptography (\<open>x509_parser\<close>, \<open>ring\<close>): the
  record \<open>crypto\<close> holds what the code asks of them. The TLS handshake itself is not modelled; what
  the code does with the certificate it yields is \<open>authorize_peer\<close>. Whether a write to the state
  directory succeeds is the argument \<open>io\<close>; \<open>disk_*\<close> is what the directory then holds.
\<close>

section \<open>State\<close>

record crypto =
  cy_dns_name :: "string \<Rightarrow> string option"
  cy_verify :: "string \<Rightarrow> string \<Rightarrow> string \<Rightarrow> bool"
  cy_sign :: "string \<Rightarrow> string \<Rightarrow> string option"

datatype transport_audit = Paired string | Rejected string

datatype transport_error =
    InvalidCode
  | CodeExpired
  | CodeReused
  | TlsRequired
  | UntrustedPeer
  | RevokedPeer
  | InvalidCertificate
  | TransportIo

record pairing_code =
  pc_value :: string
  pc_lifetime :: u64
  pc_issued_at :: u64
  pc_consumed :: bool

record transport =
  tp_id :: string
  tp_certificate :: string
  tp_private_key :: string
  tp_trusted :: "(string, string) hash_map"
  tp_revoked :: "string list"
  tp_pairing_code :: "pairing_code option"
  tp_audit :: "transport_audit list"
  tp_rpc_count :: nat
  disk_trusted :: "(string, string) hash_map"
  disk_revoked :: "string option"

definition valid_machine_id :: "string \<Rightarrow> bool" where
  "valid_machine_id i =
     (i \<noteq> [] \<and> list_all (\<lambda>c. is_ascii_alphanumeric c \<or> c = CHR ''-'' \<or> c = CHR ''_'' \<or> c = CHR ''.'') i)"

definition certificate_dns_name :: "crypto \<Rightarrow> string \<Rightarrow> transport_error + string" where
  "certificate_dns_name cy certificate =
     (case cy_dns_name cy certificate of None \<Rightarrow> Err InvalidCertificate | Some n \<Rightarrow> Ok n)"

definition reject :: "string \<Rightarrow> transport \<Rightarrow> transport" where
  "reject reason t = t\<lparr>tp_audit := tp_audit t @ [Rejected reason]\<rparr>"

section \<open>Operations\<close>

definition sign_message :: "crypto \<Rightarrow> string \<Rightarrow> transport \<Rightarrow> transport_error + string" where
  "sign_message cy message t =
     (case cy_sign cy (tp_private_key t) message of None \<Rightarrow> Err InvalidCertificate | Some s \<Rightarrow> Ok s)"

definition verify_peer_signature ::
    "crypto \<Rightarrow> string \<Rightarrow> string \<Rightarrow> string \<Rightarrow> transport \<Rightarrow> (transport_error + unit) \<times> transport" where
  "verify_peer_signature cy peer message sig t =
     (if peer \<in> set (tp_revoked t) then (Err RevokedPeer, reject ''revoked_peer'' t)
      else case hm_get (tp_trusted t) peer of
        None \<Rightarrow> (Err UntrustedPeer, t)
      | Some certificate \<Rightarrow> (ensure (cy_verify cy certificate message sig) InvalidCertificate, t))"

definition verify_certificate_signature ::
    "crypto \<Rightarrow> string \<Rightarrow> string \<Rightarrow> string \<Rightarrow> string \<Rightarrow> transport_error + unit" where
  "verify_certificate_signature cy signer certificate message sig =
     and_then (certificate_dns_name cy certificate)
       (\<lambda>n. if n \<noteq> signer then Err InvalidCertificate
             else ensure (cy_verify cy certificate message sig) InvalidCertificate)"

text \<open>\<open>code\<close> is the hexadecimal code the generator yields, \<open>now\<close> the clock.\<close>

definition issue_pairing_code :: "string \<Rightarrow> u64 \<Rightarrow> u64 \<Rightarrow> transport \<Rightarrow> string \<times> transport" where
  "issue_pairing_code code now lifetime t =
     (code, t\<lparr>tp_pairing_code := Some \<lparr>pc_value = code, pc_lifetime = lifetime, pc_issued_at = now,
        pc_consumed = False\<rparr>\<rparr>)"

definition trust :: "crypto \<Rightarrow> bool \<Rightarrow> string \<Rightarrow> string \<Rightarrow> transport \<Rightarrow> (transport_error + unit) \<times> transport" where
  "trust cy io peer certificate t =
     (if \<not> valid_machine_id peer \<or> cy_dns_name cy certificate \<noteq> Some peer then (Err InvalidCertificate, t)
      else if \<not> io then (Err TransportIo, t)
      else (Ok (), t\<lparr>tp_trusted := hm_insert peer certificate (tp_trusted t),
                     disk_trusted := hm_insert peer certificate (disk_trusted t)\<rparr>))"

definition accept_pairing ::
    "crypto \<Rightarrow> bool \<Rightarrow> u64 \<Rightarrow> string \<Rightarrow> string \<Rightarrow> u64 \<Rightarrow> transport \<Rightarrow> (transport_error + unit) \<times> transport" where
  "accept_pairing cy io now code certificate elapsed t =
     (case tp_pairing_code t of
        None \<Rightarrow> (Err InvalidCode, reject ''invalid_code'' t)
      | Some p \<Rightarrow>
     if pc_value p \<noteq> code then (Err InvalidCode, reject ''invalid_code'' t)
     else if pc_consumed p then (Err CodeReused, reject ''code_reused'' t)
     else if (now - pc_issued_at p) + elapsed > pc_lifetime p
     then (Err CodeExpired, reject ''code_expired'' t)
     else let t1 = t\<lparr>tp_pairing_code := Some (p\<lparr>pc_consumed := True\<rparr>)\<rparr> in
     case cy_dns_name cy certificate of
       None \<Rightarrow> (Err InvalidCertificate, t1)
     | Some peer \<Rightarrow>
         (case trust cy io peer certificate t1 of
            (Inl e, t2) \<Rightarrow> (Err e, t2)
          | (Inr _, t2) \<Rightarrow> (Ok (), t2\<lparr>tp_audit := tp_audit t2 @ [Paired peer]\<rparr>)))"

definition LF :: char where "LF = CHR 0x0A"
definition CR :: char where "CR = CHR 0x0D"

fun join_lines :: "string list \<Rightarrow> string" where
  "join_lines [] = []"
| "join_lines [l] = l"
| "join_lines (l # m # ls) = l @ LF # join_lines (m # ls)"

definition revoke :: "bool \<Rightarrow> string \<Rightarrow> transport \<Rightarrow> (transport_error + unit) \<times> transport" where
  "revoke io peer t =
     (let revoked = (if peer \<in> set (tp_revoked t) then tp_revoked t else tp_revoked t @ [peer]) in
      if io then (Ok (), t\<lparr>tp_revoked := revoked, disk_revoked := Some (join_lines revoked)\<rparr>)
      else (Err TransportIo, t\<lparr>tp_revoked := revoked\<rparr>))"

definition authorize_peer :: "string \<Rightarrow> transport \<Rightarrow> (transport_error + unit) \<times> transport" where
  "authorize_peer certificate t =
     (case List.find (\<lambda>(i, c). c = certificate) (tp_trusted t) of
        None \<Rightarrow> (Err UntrustedPeer, reject ''untrusted_peer'' t)
      | Some (i, c) \<Rightarrow>
          if i \<in> set (tp_revoked t) then (Err RevokedPeer, reject ''revoked_peer'' t)
          else (Ok (), t))"

definition peer_id :: "crypto \<Rightarrow> string \<Rightarrow> transport \<Rightarrow> (transport_error + string) \<times> transport" where
  "peer_id cy certificate t =
     (case authorize_peer certificate t of
        (Inl e, t1) \<Rightarrow> (Err e, t1)
      | (Inr _, t1) \<Rightarrow> (certificate_dns_name cy certificate, t1))"

definition identity_id :: "crypto \<Rightarrow> transport \<Rightarrow> transport_error + string" where
  "identity_id cy t = certificate_dns_name cy (tp_certificate t)"

definition process_cleartext_rpc :: "transport \<Rightarrow> (transport_error + unit) \<times> transport" where
  "process_cleartext_rpc t = (Err TlsRequired, reject ''tls_required'' t)"

definition process_rpc :: "string \<Rightarrow> transport \<Rightarrow> (transport_error + unit) \<times> transport" where
  "process_rpc certificate t =
     (case authorize_peer certificate t of
        (Inl e, t1) \<Rightarrow> (Err e, t1)
      | (Inr _, t1) \<Rightarrow> (Ok (), t1\<lparr>tp_rpc_count := tp_rpc_count t1 + 1\<rparr>))"

text \<open>\<open>str::lines\<close>: split at line feeds, without the empty rest and a carriage return at the end.\<close>

definition strip_cr :: "string \<Rightarrow> string" where
  "strip_cr l = (if l \<noteq> [] \<and> last l = CR then butlast l else l)"

definition lines_of :: "string \<Rightarrow> string list" where
  "lines_of s =
     (let ps = split_on LF s
      in map strip_cr (if last ps = [] then butlast ps else ps))"

text \<open>Starting again from the state directory: the revocation list of a file that cannot be read is
  the empty list (\<open>unwrap_or_default\<close>).\<close>

definition load_revoked :: "string option \<Rightarrow> string list" where
  "load_revoked f = (case f of None \<Rightarrow> [] | Some s \<Rightarrow> remdups (lines_of s))"

definition reload :: "transport \<Rightarrow> transport" where
  "reload t = t\<lparr>tp_trusted := disk_trusted t, tp_revoked := load_revoked (disk_revoked t),
     tp_pairing_code := None, tp_audit := [], tp_rpc_count := 0\<rparr>"

section \<open>The store as a machine\<close>

datatype transport_op =
    IssueCode string u64 u64
  | AcceptPairing bool u64 string string u64
  | TrustPeer bool string string
  | RevokePeer bool string
  | Rpc string
  | CleartextRpc
  | VerifyPeer string string string

fun transport_step :: "crypto \<Rightarrow> transport_op \<Rightarrow> transport \<Rightarrow> transport" where
  "transport_step cy (IssueCode code now lifetime) t = snd (issue_pairing_code code now lifetime t)"
| "transport_step cy (AcceptPairing io now code certificate elapsed) t =
     snd (accept_pairing cy io now code certificate elapsed t)"
| "transport_step cy (TrustPeer io peer certificate) t = snd (trust cy io peer certificate t)"
| "transport_step cy (RevokePeer io peer) t = snd (revoke io peer t)"
| "transport_step cy (Rpc certificate) t = snd (process_rpc certificate t)"
| "transport_step cy CleartextRpc t = snd (process_cleartext_rpc t)"
| "transport_step cy (VerifyPeer peer message sig) t = snd (verify_peer_signature cy peer message sig t)"

lemma reject_fields [simp]:
  "tp_trusted (reject m t) = tp_trusted t" "tp_revoked (reject m t) = tp_revoked t"
  "tp_pairing_code (reject m t) = tp_pairing_code t" "tp_rpc_count (reject m t) = tp_rpc_count t"
  "disk_trusted (reject m t) = disk_trusted t" "disk_revoked (reject m t) = disk_revoked t"
  by (simp_all add: reject_def)

lemmas transport_defs [step_defs] = issue_pairing_code_def trust_def accept_pairing_def revoke_def
  process_rpc_def process_cleartext_rpc_def authorize_peer_def verify_peer_signature_def Let_def

text \<open>Every trusted certificate names the peer it is filed under.\<close>

definition names_ok :: "crypto \<Rightarrow> (string, string) hash_map \<Rightarrow> bool" where
  "names_ok cy m \<longleftrightarrow> hm_wf m
     \<and> (\<forall>i c. hm_get m i = Some c \<longrightarrow> valid_machine_id i \<and> cy_dns_name cy c = Some i)"

definition transport_inv :: "crypto \<Rightarrow> transport \<Rightarrow> bool" where
  "transport_inv cy t \<longleftrightarrow> names_ok cy (tp_trusted t) \<and> names_ok cy (disk_trusted t)"

lemma names_ok_insert:
  "names_ok cy m \<Longrightarrow> valid_machine_id i \<Longrightarrow> cy_dns_name cy c = Some i \<Longrightarrow> names_ok cy (hm_insert i c m)"
  by (simp add: names_ok_def)

lemma trust_inv: "transport_inv cy t \<Longrightarrow> transport_inv cy (snd (trust cy io peer certificate t))"
  by (simp add: trust_def transport_inv_def names_ok_insert)

lemma accept_pairing_inv:
  "transport_inv cy t \<Longrightarrow> transport_inv cy (snd (accept_pairing cy io now code certificate elapsed t))"
  by (simp add: accept_pairing_def trust_def transport_inv_def names_ok_insert Let_def split: option.split)

lemma process_rpc_fields [simp]:
  "tp_trusted (snd (process_rpc c t)) = tp_trusted t" "tp_revoked (snd (process_rpc c t)) = tp_revoked t"
  "disk_trusted (snd (process_rpc c t)) = disk_trusted t"
  "disk_revoked (snd (process_rpc c t)) = disk_revoked t"
  "tp_pairing_code (snd (process_rpc c t)) = tp_pairing_code t"
  by (auto simp: process_rpc_def authorize_peer_def split: option.split)

lemma verify_peer_fields [simp]:
  "tp_trusted (snd (verify_peer_signature cy p m s t)) = tp_trusted t"
  "tp_revoked (snd (verify_peer_signature cy p m s t)) = tp_revoked t"
  "disk_trusted (snd (verify_peer_signature cy p m s t)) = disk_trusted t"
  "disk_revoked (snd (verify_peer_signature cy p m s t)) = disk_revoked t"
  "tp_pairing_code (snd (verify_peer_signature cy p m s t)) = tp_pairing_code t"
  by (auto simp: verify_peer_signature_def split: option.split)

interpretation transport_run: invariant_machine "transport_step cy" "transport_inv cy" for cy
proof
  fix s opn
  assume inv: "transport_inv cy s"
  show "transport_inv cy (transport_step cy opn s)"
  proof (cases "(\<exists>io p c. opn = TrustPeer io p c) \<or> (\<exists>io n c d e. opn = AcceptPairing io n c d e)")
    case True
    then show ?thesis using inv trust_inv accept_pairing_inv by auto
  next
    case False
    then have "tp_trusted (transport_step cy opn s) = tp_trusted s
        \<and> disk_trusted (transport_step cy opn s) = disk_trusted s"
      by (cases opn) (auto simp: issue_pairing_code_def revoke_def process_cleartext_rpc_def Let_def)
    then show ?thesis using inv by (simp add: transport_inv_def)
  qed
qed

lemma names_find:
  "names_ok cy m \<Longrightarrow> List.find (\<lambda>(i, c). c = certificate) m = Some (i, c) \<Longrightarrow>
     c = certificate \<and> hm_get m i = Some certificate \<and> cy_dns_name cy certificate = Some i"
  using find_SomeD [of "\<lambda>(i, c). c = certificate" m "(i, c)"]
  by (auto simp: names_ok_def hm_in_set_get)

lemma find_registered:
  assumes "names_ok cy m" and "hm_get m i = Some c"
  shows "List.find (\<lambda>(i, c'). c' = c) m = Some (i, c)"
proof (cases "List.find (\<lambda>(i, c'). c' = c) m")
  case None
  then show ?thesis using hm_get_in_set [OF assms(2)] by (auto simp: find_None_eq)
next
  case (Some p)
  obtain k d where p: "p = (k, d)" by (cases p)
  from names_find [OF assms(1) Some [unfolded p]] assms show ?thesis
    using Some p by (auto simp: names_ok_def)
qed

section \<open>Authorisation\<close>

text \<open>
  C8. Whatever was paired, trusted and revoked before, a certificate passes as a peer exactly when it
  is the one stored for that peer, the peer is not revoked, and the name the handlers are then
  given is the peer's own.
\<close>

theorem authorized_peer_is_authentic:
  assumes "transport_inv cy t0" and "t = fold (transport_step cy) ops t0"
  shows "fst (peer_id cy certificate t) = Ok peer \<longleftrightarrow>
     hm_get (tp_trusted t) peer = Some certificate \<and> peer \<notin> set (tp_revoked t)"
proof -
  have names: "names_ok cy (tp_trusted t)"
    using transport_run.run_inv assms by (auto simp: transport_inv_def)
  show ?thesis
  proof
    assume "fst (peer_id cy certificate t) = Ok peer"
    then show "hm_get (tp_trusted t) peer = Some certificate \<and> peer \<notin> set (tp_revoked t)"
      using names_find [OF names]
      by (auto simp: peer_id_def authorize_peer_def certificate_dns_name_def
          split: option.splits if_splits)
  next
    assume h: "hm_get (tp_trusted t) peer = Some certificate \<and> peer \<notin> set (tp_revoked t)"
    then have "cy_dns_name cy certificate = Some peer" using names by (simp add: names_ok_def)
    then show "fst (peer_id cy certificate t) = Ok peer"
      using find_registered [OF names conjunct1 [OF h]] h
      by (simp add: peer_id_def authorize_peer_def certificate_dns_name_def)
  qed
qed

subsection \<open>Revocation is final\<close>

lemma revoked_stays: "peer \<in> set (tp_revoked t) \<Longrightarrow> peer \<in> set (tp_revoked (transport_step cy opn t))"
  by (cases opn)
    (auto simp: issue_pairing_code_def trust_def accept_pairing_def revoke_def process_cleartext_rpc_def
      Let_def split: option.split)

interpretation revoked_run: invariant_machine "transport_step cy" "\<lambda>t. peer \<in> set (tp_revoked t)" for cy peer
  by unfold_locales (rule revoked_stays)


subsection \<open>Pairing codes\<close>

fun issues_code :: "transport_op \<Rightarrow> bool" where
  "issues_code (IssueCode _ _ _) = True"
| "issues_code _ = False"

definition code_spent :: "transport \<Rightarrow> bool" where
  "code_spent t = is_none_or pc_consumed (tp_pairing_code t)"

lemma spent_stays: "code_spent t \<Longrightarrow> \<not> issues_code opn \<Longrightarrow> code_spent (transport_step cy opn t)"
  by (cases opn)
    (auto simp: code_spent_def trust_def accept_pairing_def revoke_def process_cleartext_rpc_def Let_def
      split: option.split)

lemma spent_fold: "code_spent t \<Longrightarrow> \<forall>opn \<in> set ops. \<not> issues_code opn \<Longrightarrow>
    code_spent (fold (transport_step cy) ops t)"
  by (induction ops arbitrary: t) (auto simp: spent_stays)

text \<open>
  A pairing code pairs at most one machine: after it was accepted, no further pairing succeeds
  until a new code is issued, and a pairing that succeeded came before the code expired and left the
  presented certificate trusted under the name it carries.
\<close>

theorem pairing_code_is_single_use:
  assumes "accept_pairing cy io now code certificate elapsed t0 = (Ok (), t1)"
    and "\<forall>opn \<in> set ops. \<not> issues_code opn" and "t = fold (transport_step cy) ops t1"
  shows "(\<exists>p. tp_pairing_code t0 = Some p \<and> pc_value p = code \<and> \<not> pc_consumed p
       \<and> (now - pc_issued_at p) + elapsed \<le> pc_lifetime p)
     \<and> (\<exists>peer. cy_dns_name cy certificate = Some peer \<and> hm_get (tp_trusted t1) peer = Some certificate)
     \<and> (\<exists>err. fst (accept_pairing cy io2 later code2 certificate2 elapsed2 t) = Err err)"
proof -
  have one: "(\<exists>p. tp_pairing_code t0 = Some p \<and> pc_value p = code \<and> \<not> pc_consumed p
       \<and> (now - pc_issued_at p) + elapsed \<le> pc_lifetime p)
     \<and> (\<exists>peer. cy_dns_name cy certificate = Some peer \<and> hm_get (tp_trusted t1) peer = Some certificate)
     \<and> code_spent t1"
    using assms(1)
    by (auto simp: accept_pairing_def trust_def code_spent_def Let_def split: option.splits if_splits)
  then have "code_spent t" using spent_fold assms(2,3) by blast
  then have "\<exists>err. fst (accept_pairing cy io2 later code2 certificate2 elapsed2 t) = Err err"
    by (auto simp: accept_pairing_def code_spent_def split: option.splits)
  with one show ?thesis by blast
qed

section \<open>Restarting\<close>

lemma split_join:
  "ls \<noteq> [] \<Longrightarrow> \<forall>l \<in> set ls. LF \<notin> set l \<Longrightarrow> split_on LF (join_lines ls) = ls"
  by (induction ls rule: join_lines.induct) (simp_all add: split_on_append split_on_id)

definition plain_line :: "string \<Rightarrow> bool" where
  "plain_line l \<longleftrightarrow> l \<noteq> [] \<and> LF \<notin> set l \<and> CR \<notin> set l"

lemma lines_of_join:
  assumes "\<forall>l \<in> set ls. plain_line l"
  shows "lines_of (join_lines ls) = ls"
proof (cases ls)
  case Nil
  then show ?thesis by (simp add: lines_of_def)
next
  case (Cons a as)
  then have s: "split_on LF (join_lines ls) = ls"
    using assms split_join by (auto simp: plain_line_def)
  have "last ls \<noteq> []" using assms Cons by (metis last_in_set list.distinct(1) plain_line_def)
  moreover have "map strip_cr ls = ls"
  proof (rule map_idI)
    fix l assume "l \<in> set ls"
    then have "l \<noteq> []" "CR \<notin> set l" using assms by (auto simp: plain_line_def)
    then have "last l \<noteq> CR" using last_in_set by metis
    then show "strip_cr l = l" by (simp add: strip_cr_def)
  qed
  ultimately show ?thesis by (simp add: lines_of_def s Let_def)
qed

lemma machine_id_plain: "valid_machine_id i \<Longrightarrow> plain_line i"
  by (auto simp: valid_machine_id_def plain_line_def list_all_iff LF_def CR_def
      is_ascii_alphanumeric_def is_ascii_digit_def is_ascii_lowercase_def is_ascii_uppercase_def
      byte_of_def)

text \<open>
  A revocation that was written survives a restart: when every revoked name is a machine name, the
  file that \<open>revoke\<close> wrote is read back as the same revocation list.
\<close>

theorem revocations_survive_restart:
  assumes "\<forall>i \<in> set (peer # tp_revoked t). valid_machine_id i" and "distinct (tp_revoked t)"
  shows "tp_revoked (reload (snd (revoke True peer t))) = tp_revoked (snd (revoke True peer t))"
proof -
  let ?r = "tp_revoked (snd (revoke True peer t))"
  have "\<forall>i \<in> set ?r. plain_line i" "distinct ?r"
    using assms machine_id_plain by (auto simp: revoke_def Let_def)
  moreover have "disk_revoked (snd (revoke True peer t)) = Some (join_lines ?r)"
    by (simp add: revoke_def Let_def)
  ultimately show ?thesis
    by (simp add: reload_def load_revoked_def lines_of_join distinct_remdups_id)
qed

text \<open>
  Revocation fails open: when the file of revoked peers is missing, unreadable or was truncated
  by a crash in the middle of rewriting it, the next start takes the list to be empty and
  authorises every revoked peer whose certificate is still in the trust directory.
\<close>

theorem lost_revocation_file_reauthorises:
  assumes "transport_inv cy t" and "hm_get (disk_trusted t) peer = Some certificate"
    and "f = None \<or> f = Some []"
  shows "fst (peer_id cy certificate (reload (t\<lparr>disk_revoked := f\<rparr>))) = Ok peer"
proof -
  have names: "names_ok cy (disk_trusted t)" using assms(1) by (simp add: transport_inv_def)
  have "load_revoked f = []" using assms(3) by (auto simp: load_revoked_def lines_of_def)
  moreover have "cy_dns_name cy certificate = Some peer" using names assms(2) by (simp add: names_ok_def)
  ultimately show ?thesis
    using find_registered [OF names assms(2)]
    by (simp add: peer_id_def authorize_peer_def certificate_dns_name_def reload_def)
qed

section \<open>A concrete machine\<close>

definition sample_crypto :: crypto where
  "sample_crypto = \<lparr>cy_dns_name = (\<lambda>c. if c = ''cert-b'' then Some ''b'' else Some ''a''),
     cy_verify = (\<lambda>c m s. s = c @ m), cy_sign = (\<lambda>k m. Some (k @ m))\<rparr>"

definition sample_transport :: transport where
  "sample_transport = \<lparr>tp_id = ''a'', tp_certificate = ''cert-a'', tp_private_key = ''key'',
     tp_trusted = [], tp_revoked = [], tp_pairing_code = None, tp_audit = [], tp_rpc_count = 0,
     disk_trusted = [], disk_revoked = None\<rparr>"

definition paired_transport :: transport where
  "paired_transport = snd (trust sample_crypto True ''b'' ''cert-b'' sample_transport)"

lemma valid_b: "valid_machine_id ''b''"
  by code_simp

lemma paired_trusted:
  "tp_trusted paired_transport = [(''b'', ''cert-b'')]" "disk_trusted paired_transport = [(''b'', ''cert-b'')]"
  "tp_revoked paired_transport = []" "tp_pairing_code paired_transport = None"
  using valid_b by (simp_all add: paired_transport_def trust_def sample_crypto_def sample_transport_def hm_insert_def)

lemma sample_transport_inv: "transport_inv sample_crypto sample_transport"
  by (simp add: transport_inv_def names_ok_def sample_transport_def)

lemma paired_transport_inv: "transport_inv sample_crypto paired_transport"
  unfolding paired_transport_def by (rule trust_inv [OF sample_transport_inv])

theorem authorized_peer_is_authentic_witness:
  "fst (peer_id sample_crypto ''cert-b'' paired_transport) = Ok ''b''"
  using authorized_peer_is_authentic [OF paired_transport_inv, of paired_transport "[]" "''cert-b''" "''b''"]
  by (simp add: paired_trusted hm_get_def)


theorem pairing_code_is_single_use_witness:
  "\<exists>t1. accept_pairing sample_crypto True 10 ''c'' ''cert-b'' 0
        (snd (issue_pairing_code ''c'' 5 60 sample_transport)) = (Ok (), t1)
     \<and> (\<exists>err. fst (accept_pairing sample_crypto True 11 ''c'' ''cert-a'' 0 t1) = Err err)"
proof -
  obtain t1 where t1: "accept_pairing sample_crypto True 10 ''c'' ''cert-b'' 0
      (snd (issue_pairing_code ''c'' 5 60 sample_transport)) = (Ok (), t1)"
    using valid_b
    by (simp add: accept_pairing_def issue_pairing_code_def trust_def sample_crypto_def Let_def)
  from pairing_code_is_single_use [OF t1, of "[]" t1] t1 show ?thesis by auto
qed

theorem revocations_survive_restart_witness:
  "tp_revoked (reload (snd (revoke True ''b'' paired_transport))) = [''b'']"
  using revocations_survive_restart [of "''b''" paired_transport] valid_b
  by (simp add: paired_trusted revoke_def)

theorem lost_revocation_file_reauthorises_witness:
  "fst (peer_id sample_crypto ''cert-b''
     (reload ((snd (revoke True ''b'' paired_transport))\<lparr>disk_revoked := Some []\<rparr>))) = Ok ''b''"
proof -
  have "transport_inv sample_crypto (snd (revoke True ''b'' paired_transport))"
    using paired_transport_inv by (simp add: revoke_def transport_inv_def Let_def)
  from lost_revocation_file_reauthorises [OF this, of "''b''" "''cert-b''" "Some []"] show ?thesis
    by (simp add: revoke_def paired_trusted hm_get_def Let_def)
qed

end
