(* ===== verification/ControllerSession.thy ===== *)
theory ControllerSession
  imports Policy Transport
begin

text \<open>
  Signed controller sessions and mesh approvals (\<open>controller_session\<close> in \<open>lib.rs\<close>): issuing and
  verifying both kinds of assertion, and the replay cache that lets a session be used once. The
  JSON encodings of the signed payloads are the fields of \<open>session_codec\<close>; the random session
  identifier, the principal of the process and the clock are arguments. The file of the replay
  cache is part of the state; the flags \<open>lock\<close>, \<open>wrote\<close> and \<open>renamed\<close> say which file
  operations succeed.
\<close>

section \<open>Payloads\<close>

record controller_session_payload =
  cp_controller_endpoint :: string
  cp_controller_peer_id :: string
  cp_principal_id :: string
  cp_source_host_id :: string
  cp_session_id :: string
  cp_challenge :: string
  cp_issued_at_ms :: u64
  cp_expires_at_ms :: u64

record controller_session_assertion =
  ca_payload :: controller_session_payload
  ca_signature :: string

record verified_controller_session =
  vs_controller_endpoint :: string
  vs_controller_peer_id :: string
  vs_principal_id :: string
  vs_source_host_id :: string
  vs_session_id :: string
  vs_expires_at_ms :: u64

datatype controller_session_error =
    InvalidInput
  | InvalidSignature
  | ControllerEndpointMismatch
  | ControllerPeerMismatch
  | ChallengeMismatch
  | SessionExpired
  | ReplayDetected
  | ReplayCacheUnavailable

record mesh_approval_payload =
  mp_access :: access_request
  mp_registry_peer_id :: string
  mp_controller_peer_id :: string
  mp_os_principal_id :: string
  mp_session_id :: string
  mp_issued_at_ms :: u64
  mp_expires_at_ms :: u64

record mesh_approval_assertion =
  ma_payload :: mesh_approval_payload
  ma_signature :: string

record mesh_access_claim =
  mc_access :: access_request
  mc_controller_peer_id :: string
  mc_os_principal_id :: string

record session_codec =
  sc_policy :: codec
  sc_session :: "controller_session_payload \<Rightarrow> string"
  sc_claim :: "mesh_access_claim \<Rightarrow> string"
  sc_approval :: "mesh_approval_payload \<Rightarrow> string"

text \<open>Serialising an access request checks it first, so an invalid one is an encoding error.\<close>

definition encode_claim :: "session_codec \<Rightarrow> mesh_access_claim \<Rightarrow> controller_session_error + string" where
  "encode_claim sc c =
     (case validate_request (sc_policy sc) (mc_access c) of
        Inl _ \<Rightarrow> Err InvalidInput | Inr _ \<Rightarrow> Ok (sc_claim sc c))"

definition encode_approval ::
    "session_codec \<Rightarrow> mesh_approval_payload \<Rightarrow> controller_session_error + string" where
  "encode_approval sc p =
     (case validate_request (sc_policy sc) (mp_access p) of
        Inl _ \<Rightarrow> Err InvalidInput | Inr _ \<Rightarrow> Ok (sc_approval sc p))"

definition map_signature :: "transport_error + 'a \<Rightarrow> controller_session_error + 'a" where
  "map_signature r = map_sum (\<lambda>_. InvalidSignature) id r"

definition map_identity :: "transport_error + 'a \<Rightarrow> controller_session_error + 'a" where
  "map_identity r = map_sum (\<lambda>_. InvalidInput) id r"

text \<open>A signature check on an already encoded message.\<close>

definition check_signature ::
    "crypto \<Rightarrow> string \<Rightarrow> string \<Rightarrow> controller_session_error + string \<Rightarrow> transport
       \<Rightarrow> (controller_session_error + unit) \<times> transport" where
  "check_signature cy peer sig encoded t =
     (case encoded of
        Inl e \<Rightarrow> (Err e, t)
      | Inr m \<Rightarrow> (let (r, t') = verify_peer_signature cy peer m sig t in (map_signature r, t')))"

section \<open>Mesh approvals\<close>

definition sign_mesh_access_claim ::
    "crypto \<Rightarrow> session_codec \<Rightarrow> string \<Rightarrow> transport \<Rightarrow> access_request
       \<Rightarrow> controller_session_error + (mesh_access_claim \<times> string)" where
  "sign_mesh_access_claim cy sc os_principal controller access =
     and_then (map_identity (identity_id cy controller)) (\<lambda>peer.
     case (validated_id_parse os_principal, validated_id_parse peer) of
       (Inr who, Inr source) \<Rightarrow>
         let claim = \<lparr>mc_access = access\<lparr>rq_principal_id := who, rq_source_host_id := source\<rparr>,
                mc_controller_peer_id = peer, mc_os_principal_id = os_principal\<rparr>
         in and_then (encode_claim sc claim)
           (\<lambda>m. map_sum id (Pair claim) (map_signature (sign_message cy m controller)))
     | _ \<Rightarrow> Err InvalidInput)"

definition issue_mesh_approval ::
    "crypto \<Rightarrow> session_codec \<Rightarrow> string \<Rightarrow> string \<Rightarrow> mesh_access_claim \<Rightarrow> string \<Rightarrow> u64 \<Rightarrow> u64 \<Rightarrow> transport
       \<Rightarrow> (controller_session_error + mesh_approval_assertion) \<times> transport" where
  "issue_mesh_approval cy sc random peer claim sig issued lifetime t =
     (if lifetime = 0 \<or> lifetime > 60000 then (Err InvalidInput, t)
      else if mc_controller_peer_id claim \<noteq> peer \<or> rq_source_host_id (mc_access claim) \<noteq> peer
              \<or> rq_principal_id (mc_access claim) \<noteq> mc_os_principal_id claim
              \<or> mc_os_principal_id claim = []
      then (Err InvalidInput, t)
      else case check_signature cy peer sig (encode_claim sc claim) t of
        (Inl e, t1) \<Rightarrow> (Err e, t1)
      | (Inr _, t1) \<Rightarrow>
          (and_then (map_identity (identity_id cy t1)) (\<lambda>registry.
           case checked_add64 issued lifetime of
             None \<Rightarrow> Err InvalidInput
           | Some expires \<Rightarrow>
               let payload = \<lparr>mp_access = mc_access claim, mp_registry_peer_id = registry,
                     mp_controller_peer_id = peer, mp_os_principal_id = mc_os_principal_id claim,
                     mp_session_id = hex random, mp_issued_at_ms = issued, mp_expires_at_ms = expires\<rparr>
               in and_then (encode_approval sc payload) (\<lambda>m.
                  and_then (map_signature (sign_message cy m t1)) (\<lambda>s.
                  Ok \<lparr>ma_payload = payload, ma_signature = s\<rparr>))), t1))"

definition verify_mesh_approval ::
    "crypto \<Rightarrow> session_codec \<Rightarrow> mesh_approval_assertion \<Rightarrow> string \<Rightarrow> host_id \<Rightarrow> u64 \<Rightarrow> transport
       \<Rightarrow> (controller_session_error + access_request) \<times> transport" where
  "verify_mesh_approval cy sc a registry target now t =
     (let p = ma_payload a in
      if mp_registry_peer_id p \<noteq> registry then (Err ControllerPeerMismatch, t)
      else if rq_target_host_id (mp_access p) \<noteq> target
              \<or> rq_principal_id (mp_access p) \<noteq> mp_os_principal_id p
              \<or> rq_source_host_id (mp_access p) \<noteq> mp_controller_peer_id p
              \<or> mp_os_principal_id p = []
      then (Err InvalidInput, t)
      else if now < mp_issued_at_ms p \<or> now > mp_expires_at_ms p then (Err SessionExpired, t)
      else case check_signature cy registry (ma_signature a) (encode_approval sc p) t of
        (Inl e, t1) \<Rightarrow> (Err e, t1)
      | (Inr _, t1) \<Rightarrow> (Ok (mp_access p), t1))"

section \<open>Controller sessions\<close>

definition issue_controller_session ::
    "crypto \<Rightarrow> session_codec \<Rightarrow> string \<Rightarrow> string \<Rightarrow> string \<Rightarrow> string \<Rightarrow> u64 \<Rightarrow> u64 \<Rightarrow> transport
       \<Rightarrow> controller_session_error + controller_session_assertion" where
  "issue_controller_session cy sc os_principal random endpoint challenge issued lifetime t =
     (if endpoint = [] \<or> length challenge < 16 \<or> lifetime = 0 \<or> lifetime > 5 * 60 * 1000
      then Err InvalidInput
      else and_then (map_identity (identity_id cy t)) (\<lambda>peer.
        case checked_add64 issued lifetime of
          None \<Rightarrow> Err InvalidInput
        | Some expires \<Rightarrow>
            let payload = \<lparr>cp_controller_endpoint = endpoint, cp_controller_peer_id = peer,
                  cp_principal_id = os_principal, cp_source_host_id = peer, cp_session_id = hex random,
                  cp_challenge = challenge, cp_issued_at_ms = issued, cp_expires_at_ms = expires\<rparr>
            in and_then (map_signature (sign_message cy (sc_session sc payload) t)) (\<lambda>s.
               Ok \<lparr>ca_payload = payload, ca_signature = s\<rparr>)))"

definition verified_of :: "controller_session_payload \<Rightarrow> verified_controller_session" where
  "verified_of p = \<lparr>vs_controller_endpoint = cp_controller_endpoint p,
     vs_controller_peer_id = cp_controller_peer_id p, vs_principal_id = cp_principal_id p,
     vs_source_host_id = cp_source_host_id p, vs_session_id = cp_session_id p,
     vs_expires_at_ms = cp_expires_at_ms p\<rparr>"

definition verify_controller_session ::
    "crypto \<Rightarrow> session_codec \<Rightarrow> controller_session_assertion \<Rightarrow> string \<Rightarrow> string \<Rightarrow> string \<Rightarrow> u64 \<Rightarrow> transport
       \<Rightarrow> (controller_session_error + verified_controller_session) \<times> transport" where
  "verify_controller_session cy sc a endpoint peer challenge now t =
     (let p = ca_payload a in
      if cp_controller_endpoint p \<noteq> endpoint then (Err ControllerEndpointMismatch, t)
      else if cp_controller_peer_id p \<noteq> peer \<or> cp_source_host_id p \<noteq> peer
      then (Err ControllerPeerMismatch, t)
      else if cp_challenge p \<noteq> challenge then (Err ChallengeMismatch, t)
      else if now < cp_issued_at_ms p \<or> now > cp_expires_at_ms p then (Err SessionExpired, t)
      else case check_signature cy peer (ca_signature a) (Ok (sc_session sc p)) t of
        (Inl e, t1) \<Rightarrow> (Err e, t1)
      | (Inr _, t1) \<Rightarrow> (Ok (verified_of p), t1))"

section \<open>The replay cache\<close>

record replay_entry =
  re_key_sha256 :: string
  re_expires_at_ms :: u64

text \<open>The cache file: absent, readable, or not a replay state at all. \<open>rc_temp\<close> holds when a
  temporary file of this process is lying about.\<close>

datatype replay_file = NoReplayFile | ReplayState nat "replay_entry list" | CorruptReplayFile

record replay_cache =
  rc_max_entries :: nat
  rc_file :: replay_file
  rc_temp :: bool

definition replay_open :: "nat \<Rightarrow> bool \<Rightarrow> bool \<Rightarrow> replay_file \<Rightarrow> controller_session_error + replay_cache" where
  "replay_open max_entries has_name dirs f =
     (if max_entries = 0 \<or> max_entries > 65536 \<or> \<not> has_name then Err InvalidInput
      else if \<not> dirs then Err ReplayCacheUnavailable
      else Ok \<lparr>rc_max_entries = max_entries, rc_file = f, rc_temp = False\<rparr>)"

definition replay_key :: "session_codec \<Rightarrow> string \<Rightarrow> string \<Rightarrow> string" where
  "replay_key sc session challenge =
     hex (cd_sha (sc_policy sc)
       (''devicelane.controller-session.replay.v1'' @ NUL # session @ NUL # challenge))"

definition replay_entries :: "replay_file \<Rightarrow> (nat \<times> replay_entry list) option" where
  "replay_entries f = (case f of NoReplayFile \<Rightarrow> Some (1, [])
     | ReplayState v es \<Rightarrow> Some (v, es) | CorruptReplayFile \<Rightarrow> None)"

definition consume_locked ::
    "session_codec \<Rightarrow> bool \<Rightarrow> bool \<Rightarrow> string \<Rightarrow> string \<Rightarrow> u64 \<Rightarrow> u64 \<Rightarrow> replay_cache
       \<Rightarrow> (controller_session_error + unit) \<times> replay_cache" where
  "consume_locked sc wrote renamed session challenge expires now c =
     (case replay_entries (rc_file c) of
        None \<Rightarrow> (Err ReplayCacheUnavailable, c)
      | Some (version, entries) \<Rightarrow>
     if version \<noteq> 1 then (Err ReplayCacheUnavailable, c)
     else let live = filter (\<lambda>e. re_expires_at_ms e \<ge> now) entries;
              key = replay_key sc session challenge in
     if list_ex (\<lambda>e. re_key_sha256 e = key) live then (Err ReplayDetected, c)
     else if length live \<ge> rc_max_entries c then (Err ReplayCacheUnavailable, c)
     else if rc_temp c then (Err ReplayCacheUnavailable, c)
     else if \<not> wrote \<or> \<not> renamed then (Err ReplayCacheUnavailable, c)
     else (Ok (), c\<lparr>rc_file := ReplayState version
            (live @ [\<lparr>re_key_sha256 = key, re_expires_at_ms = expires\<rparr>])\<rparr>))"

definition consume ::
    "session_codec \<Rightarrow> bool \<Rightarrow> bool \<Rightarrow> bool \<Rightarrow> string \<Rightarrow> string \<Rightarrow> u64 \<Rightarrow> u64 \<Rightarrow> replay_cache
       \<Rightarrow> (controller_session_error + unit) \<times> replay_cache" where
  "consume sc lock wrote renamed session challenge expires now c =
     (if \<not> lock then (Err ReplayCacheUnavailable, c)
      else consume_locked sc wrote renamed session challenge expires now c)"

definition verify_and_consume ::
    "crypto \<Rightarrow> session_codec \<Rightarrow> bool \<Rightarrow> bool \<Rightarrow> bool \<Rightarrow> controller_session_assertion \<Rightarrow> string \<Rightarrow> string
       \<Rightarrow> string \<Rightarrow> u64 \<Rightarrow> transport \<Rightarrow> replay_cache
       \<Rightarrow> (controller_session_error + verified_controller_session) \<times> transport \<times> replay_cache" where
  "verify_and_consume cy sc lock wrote renamed a endpoint peer challenge now t c =
     (case verify_controller_session cy sc a endpoint peer challenge now t of
        (Inl e, t1) \<Rightarrow> (Err e, t1, c)
      | (Inr v, t1) \<Rightarrow>
          (case consume sc lock wrote renamed (vs_session_id v) challenge (vs_expires_at_ms v) now c of
             (Inl e, c1) \<Rightarrow> (Err e, t1, c1)
           | (Inr _, c1) \<Rightarrow> (Ok v, t1, c1)))"

section \<open>What a verified assertion proves\<close>

lemma map_signature_Ok [simp]: "map_signature r = Inr x \<longleftrightarrow> r = Inr x"
  by (cases r) (simp_all add: map_signature_def)

lemma map_identity_Ok [simp]: "map_identity r = Inr x \<longleftrightarrow> r = Inr x"
  by (cases r) (simp_all add: map_identity_def)

lemma verify_peer_Ok:
  "fst (verify_peer_signature cy peer m sig t) = Ok () \<longleftrightarrow>
     peer \<notin> set (tp_revoked t) \<and> (\<exists>c. hm_get (tp_trusted t) peer = Some c \<and> cy_verify cy c m sig)"
  by (auto simp: verify_peer_signature_def split: option.splits)

lemma check_signature_Ok:
  "fst (check_signature cy peer sig enc t) = Ok () \<longleftrightarrow>
     (\<exists>m. enc = Ok m \<and> fst (verify_peer_signature cy peer m sig t) = Ok ())"
  by (auto simp: check_signature_def split: sum.splits prod.splits)

lemma encode_approval_Ok:
  "encode_approval sc p = Ok m \<longleftrightarrow>
     is_ok (validate_request (sc_policy sc) (mp_access p)) \<and> m = sc_approval sc p"
  by (auto simp: encode_approval_def split: sum.splits)

lemma encode_claim_Ok:
  "encode_claim sc p = Ok m \<longleftrightarrow>
     is_ok (validate_request (sc_policy sc) (mc_access p)) \<and> m = sc_claim sc p"
  by (auto simp: encode_claim_def split: sum.splits)

text \<open>The peer holds a certificate under which the signature of the message verifies.\<close>

definition signed_by :: "crypto \<Rightarrow> transport \<Rightarrow> string \<Rightarrow> string \<Rightarrow> string \<Rightarrow> bool" where
  "signed_by cy t peer message sig \<longleftrightarrow> peer \<notin> set (tp_revoked t)
     \<and> (\<exists>c. hm_get (tp_trusted t) peer = Some c \<and> cy_verify cy c message sig)"

lemma verify_controller_session_Ok:
  "fst (verify_controller_session cy sc a endpoint peer challenge now t) = Ok v \<longleftrightarrow>
     cp_controller_endpoint (ca_payload a) = endpoint \<and> cp_controller_peer_id (ca_payload a) = peer
     \<and> cp_source_host_id (ca_payload a) = peer \<and> cp_challenge (ca_payload a) = challenge
     \<and> cp_issued_at_ms (ca_payload a) \<le> now \<and> now \<le> cp_expires_at_ms (ca_payload a)
     \<and> signed_by cy t peer (sc_session sc (ca_payload a)) (ca_signature a)
     \<and> v = verified_of (ca_payload a)"
proof -
  have "fst (check_signature cy peer (ca_signature a) (Ok (sc_session sc (ca_payload a))) t) = Ok ()
      \<longleftrightarrow> signed_by cy t peer (sc_session sc (ca_payload a)) (ca_signature a)"
    by (simp add: check_signature_Ok verify_peer_Ok signed_by_def)
  then show ?thesis
    by (auto simp: verify_controller_session_def Let_def not_less split: sum.splits prod.splits)
qed

text \<open>
  A mesh approval passes the target exactly when it names the registry and the target, its access
  request speaks for the controller and principal it names and is a valid request, the time is
  within its window, and the registry, still trusted, signed exactly this payload; the request
  handed on is the signed one.
\<close>

theorem mesh_approval_verifies_iff:
  "fst (verify_mesh_approval cy sc a registry target now t) = Ok access \<longleftrightarrow>
     mp_registry_peer_id (ma_payload a) = registry
     \<and> rq_target_host_id (mp_access (ma_payload a)) = target
     \<and> rq_principal_id (mp_access (ma_payload a)) = mp_os_principal_id (ma_payload a)
     \<and> rq_source_host_id (mp_access (ma_payload a)) = mp_controller_peer_id (ma_payload a)
     \<and> mp_os_principal_id (ma_payload a) \<noteq> []
     \<and> mp_issued_at_ms (ma_payload a) \<le> now \<and> now \<le> mp_expires_at_ms (ma_payload a)
     \<and> is_ok (validate_request (sc_policy sc) (mp_access (ma_payload a)))
     \<and> signed_by cy t registry (sc_approval sc (ma_payload a)) (ma_signature a)
     \<and> access = mp_access (ma_payload a)"
proof -
  have "fst (check_signature cy registry (ma_signature a) (encode_approval sc (ma_payload a)) t) = Ok ()
      \<longleftrightarrow> is_ok (validate_request (sc_policy sc) (mp_access (ma_payload a)))
        \<and> signed_by cy t registry (sc_approval sc (ma_payload a)) (ma_signature a)"
    by (auto simp: check_signature_Ok verify_peer_Ok signed_by_def encode_approval_Ok)
  then show ?thesis
    by (auto simp: verify_mesh_approval_def Let_def not_less split: sum.splits prod.splits)
qed

lemma issue_mesh_approval_Ok:
  assumes "issue_mesh_approval cy sc random peer claim sig issued lifetime t = (Ok a, t1)"
  shows "0 < lifetime \<and> lifetime \<le> 60000 \<and> mc_controller_peer_id claim = peer
     \<and> rq_source_host_id (mc_access claim) = peer
     \<and> rq_principal_id (mc_access claim) = mc_os_principal_id claim \<and> mc_os_principal_id claim \<noteq> []
     \<and> is_ok (validate_request (sc_policy sc) (mc_access claim))
     \<and> signed_by cy t peer (sc_claim sc claim) sig
     \<and> mp_access (ma_payload a) = mc_access claim
     \<and> mp_controller_peer_id (ma_payload a) = peer
     \<and> mp_os_principal_id (ma_payload a) = mc_os_principal_id claim
     \<and> mp_issued_at_ms (ma_payload a) = issued \<and> mp_expires_at_ms (ma_payload a) = issued + lifetime
     \<and> cy_dns_name cy (tp_certificate t) = Some (mp_registry_peer_id (ma_payload a))
     \<and> cy_sign cy (tp_private_key t) (sc_approval sc (ma_payload a)) = Some (ma_signature a)"
proof -
  obtain r tt where ct: "check_signature cy peer sig (encode_claim sc claim) t = (r, tt)" by fastforce
  have keep: "tp_certificate tt = tp_certificate t \<and> tp_private_key tt = tp_private_key t"
    using ct by (auto simp: check_signature_def verify_peer_signature_def reject_def
        split: sum.splits option.splits if_splits)
  have sg: "r = Ok () \<longleftrightarrow> is_ok (validate_request (sc_policy sc) (mc_access claim))
        \<and> signed_by cy t peer (sc_claim sc claim) sig"
    using check_signature_Ok [of cy peer sig "encode_claim sc claim" t] ct
    by (auto simp: verify_peer_Ok signed_by_def encode_claim_Ok)
  show ?thesis
    using assms sg keep ct
    by (auto simp: issue_mesh_approval_def identity_id_def certificate_dns_name_def sign_message_def
        checked_add64_def encode_approval_Ok Let_def split: sum.splits option.splits if_splits)
qed

text \<open>
  Approvals make it across: what a registry issues for a claim, any target that trusts the
  registry's certificate accepts within the lifetime, and gets the access request of the claim,
  which the controller itself had signed. The hypothesis on the key pair is what the registry
  checks when it loads its identity.
\<close>

theorem mesh_approval_roundtrip:
  assumes keys: "\<And>m s. cy_sign cy (tp_private_key registry) m = Some s \<Longrightarrow> cy_verify cy (tp_certificate registry) m s"
    and issued: "issue_mesh_approval cy sc random peer claim sig issued lifetime registry = (Ok a, registry1)"
    and name: "cy_dns_name cy (tp_certificate registry) = Some r"
    and trusted: "hm_get (tp_trusted target) r = Some (tp_certificate registry)" "r \<notin> set (tp_revoked target)"
    and time: "issued \<le> now" "now \<le> issued + lifetime"
  shows "fst (verify_mesh_approval cy sc a r (rq_target_host_id (mc_access claim)) now target) = Ok (mc_access claim)
     \<and> signed_by cy registry peer (sc_claim sc claim) sig
     \<and> rq_source_host_id (mc_access claim) = peer"
proof -
  note i = issue_mesh_approval_Ok [OF issued]
  then have "signed_by cy target r (sc_approval sc (ma_payload a)) (ma_signature a)"
    using keys trusted unfolding signed_by_def by auto
  moreover have "mp_registry_peer_id (ma_payload a) = r" using i name by simp
  ultimately have "fst (verify_mesh_approval cy sc a r (rq_target_host_id (mc_access claim)) now target)
      = Ok (mc_access claim)"
    using i time
    by (auto simp: verify_mesh_approval_def check_signature_def encode_approval_def Let_def
        verify_peer_signature_def signed_by_def map_signature_def ensure_def not_less split: sum.splits)
  then show ?thesis using i by simp
qed

section \<open>Sessions are used once\<close>

text \<open>What other attempts do to the cache up to a moment; the lock file makes them take turns.\<close>

inductive cache_run :: "session_codec \<Rightarrow> u64 \<Rightarrow> replay_cache \<Rightarrow> replay_cache \<Rightarrow> bool" for sc bound where
  start: "cache_run sc bound c c"
| attempt: "cache_run sc bound c c1 \<Longrightarrow> now \<le> bound \<Longrightarrow>
     snd (consume sc lock wrote renamed session challenge expires now c1) = c2 \<Longrightarrow> cache_run sc bound c c2"

inductive_cases cache_runE: "cache_run sc bound c c2"

definition remembers :: "string \<Rightarrow> u64 \<Rightarrow> replay_cache \<Rightarrow> bool" where
  "remembers key expires c \<longleftrightarrow> (\<exists>es. rc_file c = ReplayState 1 es
     \<and> \<lparr>re_key_sha256 = key, re_expires_at_ms = expires\<rparr> \<in> set es)"

lemma consume_cases:
  "(\<exists>err. consume sc lock wrote renamed session challenge expires now c = (Err err, c))
   \<or> (\<exists>es. replay_entries (rc_file c) = Some (1, es)
      \<and> replay_key sc session challenge \<notin>
          re_key_sha256 ` set (filter (\<lambda>e. re_expires_at_ms e \<ge> now) es)
      \<and> consume sc lock wrote renamed session challenge expires now c = (Ok (), c\<lparr>rc_file := ReplayState 1
         (filter (\<lambda>e. re_expires_at_ms e \<ge> now) es @
          [\<lparr>re_key_sha256 = replay_key sc session challenge, re_expires_at_ms = expires\<rparr>])\<rparr>))"
proof (cases "replay_entries (rc_file c)")
  case None
  then show ?thesis by (simp add: consume_def consume_locked_def)
next
  case (Some p)
  obtain v es where p: "p = (v, es)" by (cases p)
  show ?thesis
  proof (cases "v = 1 \<and> replay_key sc session challenge \<notin>
      re_key_sha256 ` set (filter (\<lambda>e. re_expires_at_ms e \<ge> now) es)")
    case True
    then have "\<not> list_ex (\<lambda>e. re_key_sha256 e = replay_key sc session challenge)
        (filter (\<lambda>e. re_expires_at_ms e \<ge> now) es)" by (force simp: list_ex_iff)
    then show ?thesis using True Some p by (simp add: consume_def consume_locked_def Let_def)
  next
    case False
    then have "v = 1 \<longrightarrow> list_ex (\<lambda>e. re_key_sha256 e = replay_key sc session challenge)
        (filter (\<lambda>e. re_expires_at_ms e \<ge> now) es)" by (force simp: list_ex_iff)
    then show ?thesis using Some p by (simp add: consume_def consume_locked_def Let_def)
  qed
qed

lemma consume_remembers:
  "consume sc lock wrote renamed session challenge expires now c = (Ok (), c1) \<Longrightarrow>
     remembers (replay_key sc session challenge) expires c1"
  using consume_cases [of sc lock wrote renamed session challenge expires now c]
  by (auto simp: remembers_def)

lemma consume_keeps:
  assumes "remembers key e c" and "now \<le> e"
  shows "remembers key e (snd (consume sc lock wrote renamed session challenge expires now c))"
  using consume_cases [of sc lock wrote renamed session challenge expires now c]
proof
  assume "\<exists>err. consume sc lock wrote renamed session challenge expires now c = (Err err, c)"
  then show ?thesis using assms by auto
qed (use assms in \<open>auto simp: remembers_def replay_entries_def\<close>)

lemma cache_run_keeps:
  "cache_run sc bound c c2 \<Longrightarrow> bound \<le> e \<Longrightarrow> remembers key e c \<Longrightarrow> remembers key e c2"
  by (induction rule: cache_run.induct) (use consume_keeps le_trans in blast)+

lemma remembered_is_refused:
  assumes "remembers (replay_key sc session challenge) e c" and "now \<le> e"
  shows "\<exists>err. consume sc lock wrote renamed session challenge expires now c = (Err err, c)"
proof -
  obtain es where es: "rc_file c = ReplayState 1 es"
    "\<lparr>re_key_sha256 = replay_key sc session challenge, re_expires_at_ms = e\<rparr> \<in> set es"
    using assms(1) by (auto simp: remembers_def)
  then have "replay_key sc session challenge
      \<in> re_key_sha256 ` set (filter (\<lambda>e. re_expires_at_ms e \<ge> now) es)"
    using assms(2) by (intro image_eqI [of _ _ "\<lparr>re_key_sha256 = replay_key sc session challenge,
        re_expires_at_ms = e\<rparr>"]) simp_all
  moreover have "replay_entries (rc_file c) = Some (1, es)" using es(1) by (simp add: replay_entries_def)
  ultimately show ?thesis
    using consume_cases [of sc lock wrote renamed session challenge expires now c] by auto
qed

text \<open>
  C9. A controller session can be used once: after it was verified and consumed, presenting it again
  at any later moment fails, whatever other sessions went through the cache in between, because it
  is either still remembered or no longer within its window.
\<close>

theorem controller_session_used_once:
  assumes "verify_and_consume cy sc lock wrote renamed a endpoint peer challenge now t c = (Ok v, t1, c1)"
    and "cache_run sc later c1 c2"
  shows "\<exists>err. fst (verify_and_consume cy sc lock2 wrote2 renamed2 a endpoint2 peer2 challenge later t2 c2) = Err err"
proof -
  obtain r1 where r1: "verify_controller_session cy sc a endpoint peer challenge now t = (Ok v, r1)"
    and c1: "consume sc lock wrote renamed (vs_session_id v) challenge (vs_expires_at_ms v) now c = (Ok (), c1)"
    using assms(1) by (auto simp: verify_and_consume_def split: prod.splits sum.splits)
  then have v: "v = verified_of (ca_payload a)"
    using verify_controller_session_Ok [of cy sc a endpoint peer challenge now t v] by simp
  show ?thesis
  proof (cases "fst (verify_controller_session cy sc a endpoint2 peer2 challenge later t2)")
    case (Inl err)
    then show ?thesis by (auto simp: verify_and_consume_def split: prod.splits)
  next
    case (Inr w)
    then have w: "w = v" "later \<le> vs_expires_at_ms v"
      using verify_controller_session_Ok [of cy sc a endpoint2 peer2 challenge later t2 w] v
      by (auto simp: verified_of_def)
    have "remembers (replay_key sc (vs_session_id v) challenge) (vs_expires_at_ms v) c2"
      using cache_run_keeps [OF assms(2) w(2)] consume_remembers [OF c1] by blast
    from remembered_is_refused [OF this w(2)] obtain err where
      err: "consume sc lock2 wrote2 renamed2 (vs_session_id v) challenge (vs_expires_at_ms v) later c2
        = (Err err, c2)" by blast
    obtain r2 where "verify_controller_session cy sc a endpoint2 peer2 challenge later t2 = (Ok v, r2)"
      using Inr w(1) by (metis prod.collapse)
    then show ?thesis using err by (simp add: verify_and_consume_def)
  qed
qed

section \<open>A concrete session\<close>

definition sample_session_codec :: session_codec where
  "sample_session_codec = \<lparr>sc_policy = sample_codec, sc_session = cp_session_id,
     sc_claim = mc_controller_peer_id, sc_approval = mp_session_id\<rparr>"

definition pair_crypto :: crypto where
  "pair_crypto = \<lparr>cy_dns_name = (\<lambda>c. Some c), cy_verify = (\<lambda>c m s. s = c @ m),
     cy_sign = (\<lambda>k m. Some (k @ m))\<rparr>"

definition machine :: "string \<Rightarrow> transport" where
  "machine name = \<lparr>tp_id = name, tp_certificate = name, tp_private_key = name,
     tp_trusted = [(''r'', ''r''), (''s'', ''s'')], tp_revoked = [], tp_pairing_code = None, tp_audit = [],
     tp_rpc_count = 0, disk_trusted = [], disk_revoked = None\<rparr>"

definition sample_claim :: mesh_access_claim where
  "sample_claim = \<lparr>mc_access = sample_request, mc_controller_peer_id = ''s'', mc_os_principal_id = ''p''\<rparr>"

theorem mesh_approval_roundtrip_witness:
  "\<exists>a r1. issue_mesh_approval pair_crypto sample_session_codec sample_random ''s'' sample_claim ''ss'' 100 5000
        (machine ''r'') = (Ok a, r1)
     \<and> fst (verify_mesh_approval pair_crypto sample_session_codec a ''r'' ''t'' 2000 (machine ''t''))
        = Ok sample_request"
proof -
  obtain a r1 where i: "issue_mesh_approval pair_crypto sample_session_codec sample_random ''s'' sample_claim
      ''ss'' 100 5000 (machine ''r'') = (Ok a, r1)"
    using sample_request_valid
    by (simp add: issue_mesh_approval_def sample_claim_def sample_request_def check_signature_def
        encode_claim_def sample_session_codec_def verify_peer_signature_def machine_def pair_crypto_def
        hm_get_def map_signature_def ensure_def identity_id_def certificate_dns_name_def map_identity_def
        checked_add64_def u64_max_def encode_approval_def sign_message_def Let_def)
  have "fst (verify_mesh_approval pair_crypto sample_session_codec a ''r''
      (rq_target_host_id (mc_access sample_claim)) 2000 (machine ''t'')) = Ok (mc_access sample_claim)"
    using mesh_approval_roundtrip [OF _ i, of "''r''" "machine ''t''" 2000]
    by (simp add: pair_crypto_def machine_def hm_get_def)
  with i show ?thesis by (auto simp: sample_claim_def sample_request_target)
qed

definition sample_session :: controller_session_assertion where
  "sample_session = \<lparr>ca_payload = \<lparr>cp_controller_endpoint = ''e'', cp_controller_peer_id = ''s'',
     cp_principal_id = ''p'', cp_source_host_id = ''s'', cp_session_id = ''id'', cp_challenge = ''c'',
     cp_issued_at_ms = 10, cp_expires_at_ms = 90\<rparr>, ca_signature = ''sid''\<rparr>"

definition empty_cache :: replay_cache where
  "empty_cache = \<lparr>rc_max_entries = 4, rc_file = NoReplayFile, rc_temp = False\<rparr>"

theorem controller_session_used_once_witness:
  "\<exists>v t1 c1. verify_and_consume pair_crypto sample_session_codec True True True sample_session ''e'' ''s'' ''c'' 20
        (machine ''t'') empty_cache = (Ok v, t1, c1)
     \<and> (\<exists>err. fst (verify_and_consume pair_crypto sample_session_codec True True True sample_session
           ''e'' ''s'' ''c'' 30 t1 c1) = Err err)"
proof -
  obtain v t1 c1 where u: "verify_and_consume pair_crypto sample_session_codec True True True sample_session
      ''e'' ''s'' ''c'' 20 (machine ''t'') empty_cache = (Ok v, t1, c1)"
    by (simp add: verify_and_consume_def verify_controller_session_def sample_session_def
        check_signature_def verify_peer_signature_def machine_def pair_crypto_def hm_get_def
        sample_session_codec_def map_signature_def ensure_def consume_def consume_locked_def
        empty_cache_def replay_entries_def Let_def)
  from controller_session_used_once [OF u cache_run.start] u show ?thesis by blast
qed

end
