(* ===== verification/Topology.thy ===== *)
theory Topology
  imports Model Protocol "HOL-Library.Char_ord" "HOL-Library.List_Lexorder" "HOL-Library.Product_Lexorder"
begin

text \<open>
  The projection of network inventory to dashboard hosts, and the projector that keeps the hosts and
  leases a dashboard shows (\<open>dashboard/topology.rs\<close>). \<open>validate_host_snapshot\<close> is also the check
  the registry applies to a heartbeat. A \<open>BTreeMap\<close> is a hash map here; where its order shows, the
  entries are sorted by key. The text a \<open>TopologyError\<close> carries for display is left out.
\<close>

section \<open>Errors and small parsers\<close>

datatype topology_error_kind =
    InvalidField
  | InvalidTrust
  | InvalidConnectionPath
  | UnauthenticatedRegistry
  | InvalidRegistryEpoch
  | LimitExceeded
  | RevisionExhausted

record topology_error =
  te_kind :: topology_error_kind
  te_field :: string

definition invalid :: "string \<Rightarrow> topology_error" where
  "invalid field = \<lparr>te_kind = InvalidField, te_field = field\<rparr>"

text \<open>\<open>chars().any(char::is_control)\<close> on the UTF-8 bytes: C0, DEL and the two-byte C1 controls.\<close>

fun has_control :: "string \<Rightarrow> bool" where
  "has_control [] = False"
| "has_control (c # cs) =
     (byte_of c < 32 \<or> byte_of c = 127
      \<or> (byte_of c = 194 \<and> (case cs of [] \<Rightarrow> False | d # _ \<Rightarrow> 128 \<le> byte_of d \<and> byte_of d \<le> 159))
      \<or> has_control cs)"

definition validate_identifier :: "string \<Rightarrow> string \<Rightarrow> topology_error + unit" where
  "validate_identifier field value =
     ensure (trim value \<noteq> [] \<and> length value \<le> MAX_ID_BYTES \<and> \<not> has_control value) (invalid field)"

definition validate_display :: "string \<Rightarrow> string \<Rightarrow> topology_error + unit" where
  "validate_display field value =
     ensure (trim value \<noteq> [] \<and> length value \<le> MAX_TEXT_BYTES \<and> \<not> has_control value) (invalid field)"

definition validate_code_inputs :: "string \<Rightarrow> string list \<Rightarrow> topology_error + unit" where
  "validate_code_inputs field values = ensure (list_all (\<lambda>v. length v \<le> 128) values) (invalid field)"

definition validate_code_input :: "string \<Rightarrow> string \<Rightarrow> topology_error + unit" where
  "validate_code_input field value = ensure (length value \<le> 128) (invalid field)"

definition validate_raw_text :: "string \<Rightarrow> string \<Rightarrow> topology_error + unit" where
  "validate_raw_text field value = ensure (length value \<le> MAX_TEXT_BYTES) (invalid field)"

definition ensure_limit :: "string \<Rightarrow> nat \<Rightarrow> topology_error + unit" where
  "ensure_limit field n =
     ensure (n \<le> MAX_COLLECTION_ITEMS) \<lparr>te_kind = LimitExceeded, te_field = field\<rparr>"

definition normalized_code :: "string \<Rightarrow> string" where
  "normalized_code value =
     map (\<lambda>c. if c = CHR '' '' \<or> c = CHR ''/'' then CHR ''_'' else c) (map to_ascii_lowercase (trim value))"

definition parse_code :: "string \<Rightarrow> string \<Rightarrow> topology_error + string" where
  "parse_code value field = map_err (\<lambda>_. invalid field) (safe_code_parse (normalized_code value))"

text \<open>\<open>map(..).collect::<Result<Vec<_>, _>>()\<close>: all results, or the first error.\<close>

fun try_map :: "('a \<Rightarrow> 'e + 'b) \<Rightarrow> 'a list \<Rightarrow> 'e + 'b list" where
  "try_map f [] = Ok []"
| "try_map f (x # xs) = and_then (f x) (\<lambda>y. and_then (try_map f xs) (\<lambda>ys. Ok (y # ys)))"

definition parse_codes :: "string list \<Rightarrow> string \<Rightarrow> topology_error + string list" where
  "parse_codes values field = try_map (\<lambda>v. parse_code v field) values"

definition parse_capabilities :: "string list \<Rightarrow> string \<Rightarrow> topology_error + string list" where
  "parse_capabilities values field =
     try_map (\<lambda>v. map_err (\<lambda>_. invalid field) (capability_code_parse (normalized_code v))) values"

definition sort_dedup :: "string list \<Rightarrow> string list" where
  "sort_dedup xs = remdups_adj (sort xs)"

definition parse_presence :: "string \<Rightarrow> presence" where
  "parse_presence value =
     (let v = map to_ascii_lowercase (trim value) in
      if v = ''online'' \<or> v = ''connected'' \<or> v = ''available'' then Online
      else if v = ''busy'' \<or> v = ''leased'' then Busy
      else if v = ''connecting'' then Connecting
      else if v = ''attention_required'' \<or> v = ''attention-required'' then AttentionRequired
      else if v = ''remote_access_paused'' \<or> v = ''paused'' then RemoteAccessPaused
      else Offline)"

definition freshness_for_presence :: "presence \<Rightarrow> freshness \<Rightarrow> u64 \<Rightarrow> freshness" where
  "freshness_for_presence p f observed = (if p = Offline then Stale observed else f)"

definition parse_host_id :: "string \<Rightarrow> topology_error + host_id" where
  "parse_host_id value =
     and_then (validate_identifier ''host_id'' value)
       (\<lambda>_. map_err (\<lambda>_. invalid ''host_id'') (validated_id_parse value))"

section \<open>Projection\<close>

record device_details =
  dt_id :: string
  dt_display_name :: string
  dt_capabilities :: "string list"
  dt_permissions :: "string list"

record registry_host =
  rh_snapshot :: host_snapshot
  rh_display_name :: string
  rh_trust :: trust_state
  rh_connection_path :: connection_path
  rh_permissions :: "string list"
  rh_devices :: "device_details list"

definition project_device ::
    "host_id \<Rightarrow> device_snapshot \<Rightarrow> device_details option \<Rightarrow> freshness \<Rightarrow> u64
       \<Rightarrow> topology_error + dashboard_device" where
  "project_device host d details f observed =
     and_then (validate_code_input ''device_platform'' (ds_platform d)) (\<lambda>_.
     and_then (validate_raw_text ''device_state'' (ds_state d)) (\<lambda>_.
     and_then (validate_identifier ''device_id'' (ds_id d)) (\<lambda>_.
     and_then (map_err (\<lambda>_. invalid ''device_id'') (validated_id_parse (ds_id d))) (\<lambda>i.
     let (name, capabilities, permissions) =
           (case details of None \<Rightarrow> (ds_id d, [], [])
            | Some t \<Rightarrow> (dt_display_name t, dt_capabilities t, dt_permissions t)) in
     and_then (parse_capabilities capabilities ''device_capability'') (\<lambda>caps.
     and_then (parse_codes permissions ''device_permission'') (\<lambda>perms.
     and_then (parse_code (ds_platform d) ''device_platform'') (\<lambda>platform.
     let p = parse_presence (ds_state d) in
     Ok \<lparr>dd_id = i, dd_host_id = host, dd_display_name = name, dd_platform = platform,
         dd_presence = p, dd_freshness = freshness_for_presence p f observed,
         dd_capabilities = sort_dedup caps, dd_permissions = sort_dedup perms\<rparr>)))))))"

definition index_device_details :: "device_details list \<Rightarrow> (string, device_details) hash_map" where
  "index_device_details ds = fold (\<lambda>d. hm_insert (dt_id d) d) ds []"

definition validate_details :: "device_details \<Rightarrow> topology_error + unit" where
  "validate_details d =
     and_then (validate_identifier ''device_details.id'' (dt_id d)) (\<lambda>_.
     and_then (validate_display ''device_details.display_name'' (dt_display_name d)) (\<lambda>_.
     and_then (ensure_limit ''device_details.capabilities'' (length (dt_capabilities d))) (\<lambda>_.
     and_then (ensure_limit ''device_details.permissions'' (length (dt_permissions d))) (\<lambda>_.
     and_then (validate_code_inputs ''device_capability'' (dt_capabilities d)) (\<lambda>_.
     validate_code_inputs ''device_permission'' (dt_permissions d))))))"

definition project_host ::
    "host_snapshot \<Rightarrow> (string \<times> device_details list) option \<Rightarrow> trust_state \<Rightarrow> connection_path
       \<Rightarrow> string list \<Rightarrow> freshness \<Rightarrow> u64 \<Rightarrow> topology_error + dashboard_host" where
  "project_host s details trust path permissions f observed =
     and_then (validate_code_input ''operating_system'' (hs_operating_system s)) (\<lambda>_.
     and_then (validate_code_input ''architecture'' (hs_architecture s)) (\<lambda>_.
     and_then (validate_raw_text ''status'' (hs_status s)) (\<lambda>_.
     and_then (ensure_limit ''devices'' (length (hs_devices s))) (\<lambda>_.
     and_then (ensure_limit ''capabilities'' (length (hs_capabilities s))) (\<lambda>_.
     and_then (ensure_limit ''permissions'' (length permissions)) (\<lambda>_.
     and_then (validate_code_inputs ''capability'' (hs_capabilities s)) (\<lambda>_.
     and_then (validate_code_inputs ''permission'' permissions) (\<lambda>_.
     and_then (case details of None \<Rightarrow> Ok ()
               | Some (_, ds) \<Rightarrow> and_then (ensure_limit ''device_details'' (length ds))
                   (\<lambda>_. each_indexed (\<lambda>_ d. validate_details d) 0 ds)) (\<lambda>_.
     and_then (case details of None \<Rightarrow> Ok ()
               | Some (name, _) \<Rightarrow> validate_display ''display_name'' name) (\<lambda>_.
     and_then (parse_host_id (hs_id s)) (\<lambda>host.
     let (name, index) = (case details of None \<Rightarrow> (hs_id s, [])
            | Some (name, ds) \<Rightarrow> (name, index_device_details ds)) in
     and_then (try_map (\<lambda>d. project_device host d (hm_get index (ds_id d)) f observed) (hs_devices s)) (\<lambda>devices.
     and_then (parse_capabilities (hs_capabilities s) ''capability'') (\<lambda>caps.
     and_then (parse_codes permissions ''permission'') (\<lambda>perms.
     and_then (parse_code (hs_operating_system s) ''operating_system'') (\<lambda>platform.
     and_then (parse_code (hs_architecture s) ''architecture'') (\<lambda>architecture.
     let p = parse_presence (hs_status s);
         dashboard = \<lparr>dh_id = host, dh_display_name = name, dh_platform = platform,
           dh_architecture = architecture, dh_presence = p,
           dh_freshness = freshness_for_presence p f observed, dh_trust = trust,
           dh_connection_path = path, dh_capabilities = sort_dedup caps,
           dh_permissions = sort_dedup perms, dh_devices = sort_key dd_id devices\<rparr>
     in case host_validate dashboard of
          Inl _ \<Rightarrow> Err (invalid ''host'') | Inr _ \<Rightarrow> Ok dashboard))))))))))))))))"

definition validate_host_snapshot :: "host_snapshot \<Rightarrow> topology_error + unit" where
  "validate_host_snapshot s =
     and_then (project_host s None Untrusted PathRegistry [] UnknownFreshness 0) (\<lambda>_. Ok ())"

section \<open>The projector\<close>

record stored_host =
  sh_dashboard :: dashboard_host
  sh_last_seen_at_ms :: u64
  sh_is_local :: bool
  sh_is_controller :: bool

record stored_lease =
  sl_owner_host_id :: host_id
  sl_device_id :: device_id
  sl_state :: lease_state

record projector =
  pj_hosts :: "(host_id, stored_host) hash_map"
  pj_leases :: "(string, stored_lease) hash_map"
  pj_local_host_id :: "host_id option"
  pj_local_revision :: "u64 option"
  pj_registry_revision :: "u64 option"
  pj_registry_authenticated :: bool
  pj_authenticated_registry :: "(string \<times> u64) option"
  pj_revision :: u64

definition new_at_revision :: "u64 \<Rightarrow> projector" where
  "new_at_revision revision = \<lparr>pj_hosts = [], pj_leases = [], pj_local_host_id = None,
     pj_local_revision = None, pj_registry_revision = None, pj_registry_authenticated = False,
     pj_authenticated_registry = None, pj_revision = revision\<rparr>"

definition preflight_revision :: "projector \<Rightarrow> topology_error + unit" where
  "preflight_revision p =
     ensure (pj_revision p + 1 \<le> u64_max) \<lparr>te_kind = RevisionExhausted, te_field = ''revision''\<rparr>"

definition commit_revision :: "projector \<Rightarrow> projector" where
  "commit_revision p = p\<lparr>pj_revision := pj_revision p + 1\<rparr>"

fun is_stale :: "freshness \<Rightarrow> bool" where
  "is_stale (Stale _) = True"
| "is_stale _ = False"

definition stale_device :: "u64 \<Rightarrow> dashboard_device \<Rightarrow> dashboard_device" where
  "stale_device seen d =
     (let d1 = d\<lparr>dd_presence := Offline\<rparr>
      in if is_stale (dd_freshness d) then d1 else d1\<lparr>dd_freshness := Stale seen\<rparr>)"

definition stale_host :: "stored_host \<Rightarrow> stored_host" where
  "stale_host h = h\<lparr>sh_dashboard := (sh_dashboard h)\<lparr>dh_presence := Offline,
     dh_freshness := Stale (sh_last_seen_at_ms h),
     dh_devices := map (stale_device (sh_last_seen_at_ms h)) (dh_devices (sh_dashboard h))\<rparr>\<rparr>"

definition demote_lease :: "host_id \<Rightarrow> stored_lease \<Rightarrow> stored_lease" where
  "demote_lease host l =
     (if sl_owner_host_id l = host \<and> sl_state l = LeaseActive then l\<lparr>sl_state := LeaseUncertain\<rparr> else l)"

definition mark_host_stale :: "host_id \<Rightarrow> projector \<Rightarrow> projector" where
  "mark_host_stale host p =
     (case hm_get (pj_hosts p) host of
        None \<Rightarrow> p
      | Some h \<Rightarrow> p\<lparr>pj_hosts := hm_insert host (stale_host h) (pj_hosts p),
                    pj_leases := map (\<lambda>(k, l). (k, demote_lease host l)) (pj_leases p)\<rparr>)"

definition mark_all_remote_stale :: "projector \<Rightarrow> projector" where
  "mark_all_remote_stale p =
     fold mark_host_stale (hm_keys (filter (\<lambda>(i, h). \<not> sh_is_local h) (pj_hosts p))) p"

text \<open>A guarded update: the preflight of the revision, then the change and the commit.\<close>

definition committed ::
    "(projector \<Rightarrow> projector) \<Rightarrow> projector \<Rightarrow> (topology_error + unit) \<times> projector" where
  "committed f p =
     (case preflight_revision p of
        Inl e \<Rightarrow> (Err e, p) | Inr _ \<Rightarrow> (Ok (), commit_revision (f p)))"

definition epoch_error :: topology_error where
  "epoch_error = \<lparr>te_kind = InvalidRegistryEpoch, te_field = ''registry_epoch''\<rparr>"

definition is_new_epoch :: "string \<Rightarrow> u64 \<Rightarrow> (string \<times> u64) option \<Rightarrow> topology_error + bool" where
  "is_new_epoch session epoch stored =
     (case stored of
        None \<Rightarrow> Ok True
      | Some (s, e) \<Rightarrow>
          if s = session then (if epoch < e then Err epoch_error else Ok (epoch > e))
          else (if epoch \<le> e then Err epoch_error else Ok True))"

definition drop_controllers :: "projector \<Rightarrow> projector" where
  "drop_controllers p = p\<lparr>pj_hosts := filter (\<lambda>(i, h). \<not> sh_is_controller h) (pj_hosts p)\<rparr>"

definition connect_registry ::
    "string \<Rightarrow> u64 \<Rightarrow> bool \<Rightarrow> projector \<Rightarrow> (topology_error + unit) \<times> projector" where
  "connect_registry session epoch authenticated p =
     (if \<not> authenticated
      then committed (\<lambda>p. mark_all_remote_stale (p\<lparr>pj_registry_authenticated := False\<rparr>)) p
      else case validate_identifier ''registry_session_id'' session of
        Inl e \<Rightarrow> (Err e, p)
      | Inr _ \<Rightarrow>
     case is_new_epoch session epoch (pj_authenticated_registry p) of
        Inl e \<Rightarrow> (Err e, p)
      | Inr fresh \<Rightarrow>
          committed (\<lambda>p.
            (let p1 = (if fresh then
                   (let p0 = (if is_some_and (\<lambda>(s, e). s \<noteq> session) (pj_authenticated_registry p)
                              then drop_controllers (mark_all_remote_stale p) else p)
                    in p0\<lparr>pj_registry_revision := None,
                          pj_authenticated_registry := Some (session, epoch)\<rparr>) else p)
             in p1\<lparr>pj_registry_authenticated := True\<rparr>)) p)"

definition disconnect_registry :: "projector \<Rightarrow> (topology_error + unit) \<times> projector" where
  "disconnect_registry p =
     committed (\<lambda>p. mark_all_remote_stale (p\<lparr>pj_registry_authenticated := False\<rparr>)) p"

definition seen_freshness :: "host_id \<Rightarrow> projector \<Rightarrow> freshness" where
  "seen_freshness host p = (if hm_has (pj_hosts p) host then Live else UnknownFreshness)"

definition observe_local ::
    "u64 \<Rightarrow> u64 \<Rightarrow> host_snapshot \<Rightarrow> projector \<Rightarrow> (topology_error + unit) \<times> projector" where
  "observe_local revision observed s p =
     (if is_some_and (\<lambda>stored. revision \<le> stored) (pj_local_revision p) then (Ok (), p)
      else case and_then (parse_host_id (hs_id s)) (\<lambda>host.
             map_sum id (Pair host) (project_host s None TrustLocal PathLocal [] (seen_freshness host p) observed)) of
        Inl e \<Rightarrow> (Err e, p)
      | Inr (host, dashboard) \<Rightarrow>
          committed (\<lambda>p.
            let hosts = (case pj_local_host_id p of
                  Some previous \<Rightarrow> if previous \<noteq> host then hm_remove previous (pj_hosts p) else pj_hosts p
                | None \<Rightarrow> pj_hosts p)
            in p\<lparr>pj_local_host_id := Some host,
                 pj_hosts := hm_insert host \<lparr>sh_dashboard = dashboard, sh_last_seen_at_ms = observed,
                   sh_is_local = True, sh_is_controller = False\<rparr> hosts,
                 pj_local_revision := Some revision\<rparr>) p)"

text \<open>The freshness of the devices of an observed host: a host that is itself stale makes all of them
  stale, and a stale device known before keeps the moment it was last seen.\<close>

definition last_seen_of :: "host_id \<Rightarrow> u64 \<Rightarrow> projector \<Rightarrow> u64" where
  "last_seen_of host observed p =
     (case hm_get (pj_hosts p) host of None \<Rightarrow> observed | Some h \<Rightarrow> sh_last_seen_at_ms h)"

definition stale_observation :: "u64 \<Rightarrow> dashboard_host \<Rightarrow> dashboard_host" where
  "stale_observation seen d =
     d\<lparr>dh_freshness := Stale seen,
       dh_devices := map (\<lambda>x. x\<lparr>dd_presence := Offline, dd_freshness := Stale seen\<rparr>) (dh_devices d)\<rparr>"

definition keep_device_age :: "stored_host \<Rightarrow> dashboard_device \<Rightarrow> dashboard_device" where
  "keep_device_age previous d =
     (if is_stale (dd_freshness d) then
        (case List.find (\<lambda>x. dd_id x = dd_id d) (dh_devices (sh_dashboard previous)) of
           None \<Rightarrow> d
         | Some x \<Rightarrow> d\<lparr>dd_freshness :=
             (case dd_freshness x of Stale seen \<Rightarrow> Stale seen | _ \<Rightarrow> Stale (sh_last_seen_at_ms previous))\<rparr>)
      else d)"

definition refresh_observation ::
    "host_id \<Rightarrow> u64 \<Rightarrow> projector \<Rightarrow> dashboard_host \<Rightarrow> dashboard_host \<times> u64" where
  "refresh_observation host observed p d =
     (let seen = (if is_stale (dh_freshness d) then last_seen_of host observed p else observed);
          d1 = (if is_stale (dh_freshness d) then stale_observation seen d else d);
          d2 = (case hm_get (pj_hosts p) host of
                  None \<Rightarrow> d1
                | Some previous \<Rightarrow> d1\<lparr>dh_devices := map (keep_device_age previous) (dh_devices d1)\<rparr>)
      in (d2, seen))"

definition observe_host ::
    "u64 \<Rightarrow> registry_host \<Rightarrow> projector
       \<Rightarrow> topology_error + (host_id \<times> dashboard_host \<times> u64) option" where
  "observe_host observed h p =
     (if rh_trust h = TrustLocal then Err \<lparr>te_kind = InvalidTrust, te_field = ''trust''\<rparr>
      else if \<not> (rh_connection_path h = PathDirect \<or> rh_connection_path h = PathRegistry)
      then Err \<lparr>te_kind = InvalidConnectionPath, te_field = ''connection_path''\<rparr>
      else and_then (parse_host_id (hs_id (rh_snapshot h))) (\<lambda>host.
        if pj_local_host_id p = Some host \<or> is_some_and sh_is_controller (hm_get (pj_hosts p) host)
        then Ok None
        else and_then (project_host (rh_snapshot h) (Some (rh_display_name h, rh_devices h)) (rh_trust h)
                (rh_connection_path h) (rh_permissions h) (seen_freshness host p) observed) (\<lambda>d.
          Ok (Some (host, refresh_observation host observed p d)))))"

definition reserved_slots :: "projector \<Rightarrow> nat" where
  "reserved_slots p = length (filter (\<lambda>(i, h). sh_is_local h \<or> sh_is_controller h) (pj_hosts p))"

definition absent_hosts :: "host_id list \<Rightarrow> projector \<Rightarrow> (host_id, stored_host) hash_map" where
  "absent_hosts observed p =
     filter (\<lambda>(i, h). \<not> sh_is_local h \<and> \<not> sh_is_controller h \<and> i \<notin> set observed) (pj_hosts p)"

text \<open>Removal of the longest unseen absent hosts until the limit is kept.\<close>

fun prune :: "host_id list \<Rightarrow> (host_id, stored_host) hash_map \<Rightarrow> (host_id, stored_host) hash_map" where
  "prune [] hosts = hosts"
| "prune (i # is) hosts =
     (if length hosts \<le> MAX_COLLECTION_ITEMS then hosts else prune is (hm_remove i hosts))"

definition prune_absent_hosts :: "host_id list \<Rightarrow> projector \<Rightarrow> projector" where
  "prune_absent_hosts observed p =
     p\<lparr>pj_hosts := prune
         (map fst (sort_key (\<lambda>(i, h). (sh_last_seen_at_ms h, i)) (absent_hosts observed p))) (pj_hosts p)\<rparr>"

definition put_observed :: "(host_id \<times> dashboard_host \<times> u64) \<Rightarrow> projector \<Rightarrow> projector" where
  "put_observed entry p =
     (case entry of (host, d, seen) \<Rightarrow>
        p\<lparr>pj_hosts := hm_insert host \<lparr>sh_dashboard = d, sh_last_seen_at_ms = seen, sh_is_local = False,
            sh_is_controller = False\<rparr> (pj_hosts p)\<rparr>)"

definition merge_observed ::
    "u64 \<Rightarrow> (host_id \<times> dashboard_host \<times> u64) list \<Rightarrow> projector \<Rightarrow> projector" where
  "merge_observed revision projected p =
     (let observed = map fst projected;
          p1 = fold mark_host_stale (map fst (absent_hosts observed p)) p;
          p2 = fold put_observed projected p1;
          p3 = prune_absent_hosts observed p2
      in p3\<lparr>pj_registry_revision := Some revision, pj_registry_authenticated := True\<rparr>)"

definition observe_registry ::
    "u64 \<Rightarrow> u64 \<Rightarrow> bool \<Rightarrow> registry_host list \<Rightarrow> projector \<Rightarrow> (topology_error + unit) \<times> projector" where
  "observe_registry revision observed authenticated hosts p =
     (if \<not> authenticated \<or> \<not> pj_registry_authenticated p then
        (case committed (\<lambda>p. mark_all_remote_stale (p\<lparr>pj_registry_authenticated := False\<rparr>)) p of
           (Inl e, p1) \<Rightarrow> (Err e, p1)
         | (Inr _, p1) \<Rightarrow>
             (if hosts = [] then Ok ()
              else Err \<lparr>te_kind = UnauthenticatedRegistry, te_field = ''registry''\<rparr>, p1))
      else case ensure_limit ''hosts'' (length hosts) of
        Inl e \<Rightarrow> (Err e, p)
      | Inr _ \<Rightarrow>
     if is_some_and (\<lambda>stored. revision \<le> stored) (pj_registry_revision p) then (Ok (), p)
     else case try_map (\<lambda>h. observe_host observed h p) hosts of
        Inl e \<Rightarrow> (Err e, p)
      | Inr results \<Rightarrow>
     let projected = List.map_filter id results in
     case ensure_limit ''hosts'' (length (remdups (map fst projected)) + reserved_slots p) of
        Inl e \<Rightarrow> (Err e, p)
      | Inr _ \<Rightarrow> committed (merge_observed revision projected) p)"

definition controller_snapshot :: "string \<Rightarrow> host_snapshot" where
  "controller_snapshot i = \<lparr>hs_id = i, hs_operating_system = ''unknown'', hs_architecture = ''unknown'',
     hs_status = ''online'', hs_capabilities = [], hs_devices = []\<rparr>"

definition observe_controller ::
    "string \<Rightarrow> u64 \<Rightarrow> projector \<Rightarrow> (topology_error + unit) \<times> projector" where
  "observe_controller controller observed p =
     (if \<not> pj_registry_authenticated p
         \<or> is_none_or (\<lambda>(i, e). i \<noteq> controller) (pj_authenticated_registry p)
      then (Err (invalid ''controller''), p)
      else case parse_host_id controller of
        Inl e \<Rightarrow> (Err e, p)
      | Inr i \<Rightarrow>
     if pj_local_host_id p = Some i then (Ok (), p)
     else case and_then (ensure_limit ''hosts''
                (length (pj_hosts p) + (if hm_has (pj_hosts p) i then 0 else 1)))
            (\<lambda>_. project_host (controller_snapshot controller) (Some (''Paired controller'', [])) Trusted
                   PathRegistry [] (seen_freshness i p) observed) of
        Inl e \<Rightarrow> (Err e, p)
      | Inr d \<Rightarrow>
          committed (\<lambda>p. p\<lparr>pj_hosts := hm_insert i \<lparr>sh_dashboard = d, sh_last_seen_at_ms = observed,
             sh_is_local = False, sh_is_controller = True\<rparr> (pj_hosts p)\<rparr>) p)"

definition mark_disconnected :: "host_id \<Rightarrow> projector \<Rightarrow> (topology_error + unit) \<times> projector" where
  "mark_disconnected host p =
     (if \<not> hm_has (pj_hosts p) host then (Ok (), p) else committed (mark_host_stale host) p)"

section \<open>Leases\<close>

definition host_is_live :: "host_id \<Rightarrow> projector \<Rightarrow> bool" where
  "host_is_live host p = is_some_and (\<lambda>h. dh_freshness (sh_dashboard h) = Live
     \<and> dh_presence (sh_dashboard h) = Online) (hm_get (pj_hosts p) host)"

definition host_is_connected :: "host_id \<Rightarrow> projector \<Rightarrow> bool" where
  "host_is_connected host p = is_some_and (\<lambda>h. \<not> is_stale (dh_freshness (sh_dashboard h))
     \<and> dh_presence (sh_dashboard h) \<noteq> Offline) (hm_get (pj_hosts p) host)"

definition host_owns_device :: "host_id \<Rightarrow> device_id \<Rightarrow> projector \<Rightarrow> bool" where
  "host_owns_device host device p = is_some_and (\<lambda>h. list_ex (\<lambda>d. dd_id d = device \<and> dd_host_id d = host
     \<and> dd_presence d = Online \<and> dd_freshness d = Live) (dh_devices (sh_dashboard h))) (hm_get (pj_hosts p) host)"

definition host_is_authorized :: "host_id \<Rightarrow> projector \<Rightarrow> bool" where
  "host_is_authorized host p = is_some_and (\<lambda>h.
     if sh_is_local h then pj_local_host_id p = Some host \<and> dh_trust (sh_dashboard h) = TrustLocal
     else pj_registry_authenticated p \<and> dh_trust (sh_dashboard h) = Trusted) (hm_get (pj_hosts p) host)"

definition tracked_lease_state :: "string \<Rightarrow> projector \<Rightarrow> lease_state option" where
  "tracked_lease_state i p = map_option sl_state (hm_get (pj_leases p) i)"

definition lease_authorizable :: "string \<Rightarrow> projector \<Rightarrow> bool" where
  "lease_authorizable i p = is_some_and (\<lambda>l. sl_state l = LeaseActive
     \<and> host_is_live (sl_owner_host_id l) p \<and> host_owns_device (sl_owner_host_id l) (sl_device_id l) p
     \<and> host_is_authorized (sl_owner_host_id l) p) (hm_get (pj_leases p) i)"

definition track_active_lease ::
    "string \<Rightarrow> string \<Rightarrow> string \<Rightarrow> projector \<Rightarrow> (topology_error + unit) \<times> projector" where
  "track_active_lease lease owner device p =
     (case and_then (validate_identifier ''lease_id'' lease) (\<lambda>_. and_then (parse_host_id owner) (\<lambda>o1.
             map_sum id (Pair o1) (map_err (\<lambda>_. invalid ''device_id'') (validated_id_parse device)))) of
        Inl e \<Rightarrow> (Err e, p)
      | Inr (host, dev) \<Rightarrow>
     let st = (if host_is_connected host p then LeaseActive else LeaseUncertain);
         known = hm_has (pj_leases p) lease;
         victim = (if \<not> known \<and> length (pj_leases p) \<ge> MAX_COLLECTION_ITEMS
                   then map_option fst (List.find (\<lambda>(i, l). sl_state l = LeaseUncertain)
                          (sort_key fst (pj_leases p)))
                   else None) in
     case (if \<not> known \<and> victim = None then ensure_limit ''leases'' (length (pj_leases p) + 1) else Ok ()) of
        Inl e \<Rightarrow> (Err e, p)
      | Inr _ \<Rightarrow>
          committed (\<lambda>p. p\<lparr>pj_leases := hm_insert lease
              \<lparr>sl_owner_host_id = host, sl_device_id = dev, sl_state = st\<rparr>
              (case victim of None \<Rightarrow> pj_leases p | Some v \<Rightarrow> hm_remove v (pj_leases p))\<rparr>) p)"

definition topology_snapshot :: "u64 \<Rightarrow> projector \<Rightarrow> dashboard_snapshot option" where
  "topology_snapshot generated p =
     (case try_map (\<lambda>(i, l). map_sum id (\<lambda>j. \<lparr>dbl_id = j, dbl_owner_host_id = sl_owner_host_id l,
             dbl_device_id = sl_device_id l, dbl_state = sl_state l\<rparr>) (validated_id_parse i))
           (sort_key fst (pj_leases p)) of
        Inl _ \<Rightarrow> None
      | Inr leases \<Rightarrow> Some
          \<lparr>sn_revision = pj_revision p, sn_generated_at_ms = generated,
           sn_scope = (if pj_registry_authenticated p then ScopeMesh else ScopeLocal),
           sn_hosts = map sh_dashboard (sort_key (\<lambda>h. (\<not> sh_is_local h, dh_id (sh_dashboard h)))
                        (map snd (sort_key fst (pj_hosts p)))),
           sn_activities = [], sn_leases = leases, sn_pending_approvals = [], sn_warnings = []\<rparr>)"

section \<open>Invariant\<close>

definition host_entry_ok :: "host_id option \<Rightarrow> host_id \<Rightarrow> stored_host \<Rightarrow> bool" where
  "host_entry_ok local i h \<longleftrightarrow> dh_id (sh_dashboard h) = i \<and> host_validate (sh_dashboard h) = Ok ()
     \<and> (sh_is_local h \<longleftrightarrow> local = Some i)
     \<and> (dh_trust (sh_dashboard h) = TrustLocal \<longleftrightarrow> sh_is_local h)"

definition topology_inv :: "projector \<Rightarrow> bool" where
  "topology_inv p \<longleftrightarrow> hm_wf (pj_hosts p)
     \<and> (\<forall>i h. hm_get (pj_hosts p) i = Some h \<longrightarrow> host_entry_ok (pj_local_host_id p) i h)"

lemma topology_inv_new: "topology_inv (new_at_revision r)"
  by (simp add: topology_inv_def new_at_revision_def)

lemma topology_inv_put:
  "topology_inv p \<Longrightarrow> host_entry_ok (pj_local_host_id p) i h \<Longrightarrow>
     topology_inv (p\<lparr>pj_hosts := hm_insert i h (pj_hosts p)\<rparr>)"
  by (simp add: topology_inv_def)

lemma topology_inv_sub:
  "topology_inv p \<Longrightarrow> hm_wf hosts \<Longrightarrow>
     (\<And>i h. hm_get hosts i = Some h \<Longrightarrow> hm_get (pj_hosts p) i = Some h) \<Longrightarrow>
     topology_inv (p\<lparr>pj_hosts := hosts\<rparr>)"
  by (simp add: topology_inv_def)

lemma topology_inv_cong:
  "pj_hosts p' = pj_hosts p \<Longrightarrow> pj_local_host_id p' = pj_local_host_id p \<Longrightarrow>
     topology_inv p' = topology_inv p"
  by (simp add: topology_inv_def)

lemma stale_device_valid:
  "device_validate d = Ok () \<Longrightarrow> device_validate (stale_device seen d) = Ok ()"
  by (cases "dd_freshness d") (auto simp: device_validate_Ok stale_device_def Let_def)

lemma stale_device_host [simp]: "dd_host_id (stale_device seen d) = dd_host_id d"
  by (simp add: stale_device_def Let_def)

lemma stale_host_ok: "host_entry_ok l i h \<Longrightarrow> host_entry_ok l i (stale_host h)"
  by (auto simp: host_entry_ok_def stale_host_def host_validate_Ok stale_device_valid)

lemma mark_host_stale_inv: "topology_inv p \<Longrightarrow> topology_inv (mark_host_stale i p)"
  by (auto simp: mark_host_stale_def topology_inv_def stale_host_ok split: option.split)

lemma mark_host_stale_other [simp]:
  "j \<noteq> i \<Longrightarrow> hm_get (pj_hosts (mark_host_stale i p)) j = hm_get (pj_hosts p) j"
  by (simp add: mark_host_stale_def split: option.split)

lemma mark_host_stale_fields [simp]:
  "pj_local_host_id (mark_host_stale i p) = pj_local_host_id p"
  "pj_revision (mark_host_stale i p) = pj_revision p"
  "pj_registry_authenticated (mark_host_stale i p) = pj_registry_authenticated p"
  "hm_has (pj_hosts (mark_host_stale i p)) j = hm_has (pj_hosts p) j"
  by (auto simp: mark_host_stale_def hm_has_def split: option.split)

lemma fold_stale_inv: "topology_inv p \<Longrightarrow> topology_inv (fold mark_host_stale is p)"
  by (induction "is" arbitrary: p) (simp_all add: mark_host_stale_inv)

lemma fold_stale_fields [simp]:
  "pj_local_host_id (fold mark_host_stale is p) = pj_local_host_id p"
  "pj_revision (fold mark_host_stale is p) = pj_revision p"
  "pj_registry_authenticated (fold mark_host_stale is p) = pj_registry_authenticated p"
  by (induction "is" arbitrary: p) simp_all

lemma fold_stale_other:
  "j \<notin> set is \<Longrightarrow> hm_get (pj_hosts (fold mark_host_stale is p)) j = hm_get (pj_hosts p) j"
  by (induction "is" arbitrary: p) simp_all

lemma mark_all_inv: "topology_inv p \<Longrightarrow> topology_inv (mark_all_remote_stale p)"
  by (simp add: mark_all_remote_stale_def fold_stale_inv)

lemma case_sum_Ok:
  "(case r of Inl a \<Rightarrow> Inl (f a) | Inr b \<Rightarrow> Inr (g b)) = Inr y \<longleftrightarrow> (\<exists>b. r = Inr b \<and> g b = y)"
  by (cases r) auto

lemma project_host_Ok:
  assumes "project_host s details trust path perms f observed = Ok d"
  shows "host_validate d = Ok () \<and> parse_host_id (hs_id s) = Ok (dh_id d) \<and> dh_trust d = trust"
proof -
  obtain name index where ni: "(case details of None \<Rightarrow> (hs_id s, [])
      | Some (name, ds) \<Rightarrow> (name, index_device_details ds)) = (name, index)" by fastforce
  show ?thesis
    using assms unfolding project_host_def ni by (auto simp: Let_def case_sum_Ok)
qed

lemma stale_observation_valid:
  "host_validate d = Ok () \<Longrightarrow> host_validate (stale_observation seen d) = Ok ()"
  by (auto simp: host_validate_Ok device_validate_Ok stale_observation_def)

lemma keep_device_age_valid:
  "device_validate d = Ok () \<Longrightarrow> device_validate (keep_device_age previous d) = Ok ()
     \<and> dd_host_id (keep_device_age previous d) = dd_host_id d"
  by (auto simp: device_validate_Ok keep_device_age_def split: option.split freshness.split)

lemma keep_age_host_valid:
  "host_validate d = Ok () \<Longrightarrow>
     host_validate (d\<lparr>dh_devices := map (keep_device_age previous) (dh_devices d)\<rparr>) = Ok ()"
  using keep_device_age_valid by (auto simp: host_validate_Ok)

lemma stale_observation_fields [simp]:
  "dh_id (stale_observation seen d) = dh_id d" "dh_trust (stale_observation seen d) = dh_trust d"
  by (simp_all add: stale_observation_def)

lemma refresh_observation_Ok:
  assumes "host_validate d = Ok ()"
  shows "host_validate (fst (refresh_observation i observed p d)) = Ok ()
     \<and> dh_id (fst (refresh_observation i observed p d)) = dh_id d
     \<and> dh_trust (fst (refresh_observation i observed p d)) = dh_trust d"
  using assms
  by (auto simp: refresh_observation_def Let_def stale_observation_valid keep_age_host_valid
      split: option.split)

lemma observe_host_Ok:
  assumes "observe_host observed h p = Ok (Some (i, d, seen))"
  shows "host_validate d = Ok () \<and> dh_id d = i \<and> dh_trust d \<noteq> TrustLocal
     \<and> pj_local_host_id p \<noteq> Some i \<and> \<not> is_some_and sh_is_controller (hm_get (pj_hosts p) i)"
proof -
  from assms obtain d0 where
    d0: "project_host (rh_snapshot h) (Some (rh_display_name h, rh_devices h)) (rh_trust h)
        (rh_connection_path h) (rh_permissions h) (seen_freshness i p) observed = Ok d0"
    and host: "parse_host_id (hs_id (rh_snapshot h)) = Ok i"
    and trust: "rh_trust h \<noteq> TrustLocal"
    and new: "pj_local_host_id p \<noteq> Some i" "\<not> is_some_and sh_is_controller (hm_get (pj_hosts p) i)"
    and d: "refresh_observation i observed p d0 = (d, seen)"
    by (auto simp: observe_host_def split: if_splits)
  show ?thesis
    using project_host_Ok [OF d0] refresh_observation_Ok [of d0 i observed p] d host trust new by simp
qed

subsection \<open>The operations keep the invariant\<close>

lemma committed_inv:
  "topology_inv p \<Longrightarrow> topology_inv (f p) \<Longrightarrow> topology_inv (snd (committed f p))"
  by (auto simp: committed_def commit_revision_def topology_inv_def split: sum.split)

lemma authenticated_inv [simp]:
  "topology_inv (p\<lparr>pj_registry_authenticated := b\<rparr>) = topology_inv p"
  "topology_inv (p\<lparr>pj_registry_revision := r\<rparr>) = topology_inv p"
  "topology_inv (p\<lparr>pj_authenticated_registry := a\<rparr>) = topology_inv p"
  "topology_inv (p\<lparr>pj_leases := l\<rparr>) = topology_inv p"
  by (simp_all add: topology_inv_def)

lemma drop_controllers_inv: "topology_inv p \<Longrightarrow> topology_inv (drop_controllers p)"
  unfolding drop_controllers_def
  by (rule topology_inv_sub) (auto simp: topology_inv_def hm_get_filter split: option.splits if_splits)

lemma connect_registry_inv:
  assumes "topology_inv p"
  shows "topology_inv (snd (connect_registry session epoch authenticated p))"
  using assms
  by (auto simp: connect_registry_def mark_all_inv drop_controllers_inv Let_def
      intro!: committed_inv split: sum.split)

lemma disconnect_registry_inv: "topology_inv p \<Longrightarrow> topology_inv (snd (disconnect_registry p))"
  by (simp add: disconnect_registry_def committed_inv mark_all_inv)

lemma observe_local_update:
  assumes inv: "topology_inv p" and d: "host_validate d = Ok ()" "dh_id d = i" "dh_trust d = TrustLocal"
  defines "hosts \<equiv> (case pj_local_host_id p of Some v \<Rightarrow> if v \<noteq> i then hm_remove v (pj_hosts p) else pj_hosts p
      | None \<Rightarrow> pj_hosts p)"
  shows "topology_inv (p\<lparr>pj_local_host_id := Some i, pj_hosts := hm_insert i \<lparr>sh_dashboard = d,
      sh_last_seen_at_ms = observed, sh_is_local = True, sh_is_controller = False\<rparr> hosts,
      pj_local_revision := Some revision\<rparr>)"
proof -
  have wf: "hm_wf hosts" using inv by (auto simp: topology_inv_def hosts_def split: option.split)
  have rest: "host_entry_ok (Some i) j h" if "j \<noteq> i" "hm_get hosts j = Some h" for j h
  proof -
    have j: "hm_get (pj_hosts p) j = Some h" "pj_local_host_id p \<noteq> Some j"
      using that by (auto simp: hosts_def split: option.splits if_splits)
    then have "host_entry_ok (pj_local_host_id p) j h" using inv by (simp add: topology_inv_def)
    then show ?thesis using j(2) that(1) by (auto simp: host_entry_ok_def)
  qed
  have "host_entry_ok (Some i) i \<lparr>sh_dashboard = d, sh_last_seen_at_ms = observed, sh_is_local = True,
      sh_is_controller = False\<rparr>" using d by (simp add: host_entry_ok_def)
  then show ?thesis using wf rest by (simp add: topology_inv_def)
qed

lemma parse_host_id_det: "parse_host_id v = Ok i \<Longrightarrow> parse_host_id v = Ok j \<Longrightarrow> i = j"
  by simp

lemma observe_local_inv:
  assumes "topology_inv p"
  shows "topology_inv (snd (observe_local revision observed s p))"
proof -
  have "topology_inv (snd (committed (\<lambda>p. p\<lparr>pj_local_host_id := Some i,
        pj_hosts := hm_insert i \<lparr>sh_dashboard = d, sh_last_seen_at_ms = observed, sh_is_local = True,
          sh_is_controller = False\<rparr> (case pj_local_host_id p of
            Some v \<Rightarrow> if v \<noteq> i then hm_remove v (pj_hosts p) else pj_hosts p | None \<Rightarrow> pj_hosts p),
        pj_local_revision := Some revision\<rparr>) p))"
    if "parse_host_id (hs_id s) = Ok i"
      "project_host s None TrustLocal PathLocal [] (seen_freshness i p) observed = Ok d" for i d
    using assms project_host_Ok [OF that(2)] that(1)
    by (intro committed_inv) (auto intro!: observe_local_update)
  then show ?thesis
    using assms by (auto simp: observe_local_def Let_def split: sum.split) (auto simp: map_sum_def split: sum.splits)
qed

text \<open>An observation of a remote host that may be stored.\<close>

definition observed_ok :: "host_id option \<Rightarrow> (host_id \<times> dashboard_host \<times> u64) \<Rightarrow> bool" where
  "observed_ok local x \<longleftrightarrow> (case x of (i, d, seen) \<Rightarrow> host_validate d = Ok () \<and> dh_id d = i
     \<and> dh_trust d \<noteq> TrustLocal \<and> local \<noteq> Some i)"

lemma put_observed_inv:
  "topology_inv p \<Longrightarrow> observed_ok (pj_local_host_id p) x \<Longrightarrow> topology_inv (put_observed x p)
     \<and> pj_local_host_id (put_observed x p) = pj_local_host_id p"
  by (cases x) (auto simp: put_observed_def observed_ok_def host_entry_ok_def intro!: topology_inv_put)

lemma fold_put_observed_inv:
  "topology_inv p \<Longrightarrow> \<forall>x \<in> set xs. observed_ok (pj_local_host_id p) x \<Longrightarrow>
     topology_inv (fold put_observed xs p) \<and> pj_local_host_id (fold put_observed xs p) = pj_local_host_id p"
  by (induction xs arbitrary: p) (simp_all add: put_observed_inv)

lemma prune_wf: "hm_wf hosts \<Longrightarrow> hm_wf (prune is hosts)"
  by (induction "is" hosts rule: prune.induct) simp_all

lemma prune_sub: "hm_wf hosts \<Longrightarrow> hm_get (prune is hosts) i = Some h \<Longrightarrow> hm_get hosts i = Some h"
  by (induction "is" hosts rule: prune.induct) (simp_all split: if_splits)

lemma prune_other: "hm_wf hosts \<Longrightarrow> i \<notin> set is \<Longrightarrow> hm_get (prune is hosts) i = hm_get hosts i"
  by (induction "is" hosts rule: prune.induct) simp_all

lemma prune_absent_inv:
  assumes "topology_inv p"
  shows "topology_inv (prune_absent_hosts observed p)"
proof -
  have "hm_wf (pj_hosts p)" using assms by (simp add: topology_inv_def)
  then show ?thesis
    unfolding prune_absent_hosts_def
    by (intro topology_inv_sub [OF assms]) (erule prune_wf, erule prune_sub)
qed

lemma merge_observed_inv:
  assumes "topology_inv p" and "\<forall>x \<in> set projected. observed_ok (pj_local_host_id p) x"
  shows "topology_inv (merge_observed revision projected p)"
proof -
  let ?p1 = "fold mark_host_stale (map fst (absent_hosts (map fst projected) p)) p"
  have "topology_inv (fold put_observed projected ?p1)"
    using fold_put_observed_inv [of ?p1 projected] fold_stale_inv [OF assms(1)] assms(2) by simp
  then show ?thesis by (simp add: merge_observed_def Let_def prune_absent_inv)
qed

lemma try_map_Ok:
  "try_map f xs = Ok ys \<Longrightarrow> length ys = length xs \<and> (\<forall>y \<in> set ys. \<exists>x \<in> set xs. f x = Ok y)"
proof (induction xs arbitrary: ys)
  case (Cons x xs)
  then obtain y zs where "f x = Ok y" "try_map f xs = Ok zs" "ys = y # zs" by auto
  with Cons.IH [of zs] show ?case by auto
qed simp

lemma observed_results_ok:
  assumes "try_map (\<lambda>h. observe_host observed h p) hosts = Ok results"
  shows "\<forall>x \<in> set (List.map_filter id results). observed_ok (pj_local_host_id p) x"
proof
  fix x assume "x \<in> set (List.map_filter id results)"
  then have "Some x \<in> set results" by (auto simp: List.map_filter_def)
  then obtain h where "observe_host observed h p = Ok (Some x)" using try_map_Ok [OF assms] by blast
  then show "observed_ok (pj_local_host_id p) x"
    using observe_host_Ok by (cases x) (fastforce simp: observed_ok_def)
qed

lemma observe_registry_inv:
  assumes "topology_inv p"
  shows "topology_inv (snd (observe_registry revision observed authenticated hosts p))"
proof -
  have "topology_inv (snd (committed (\<lambda>p. mark_all_remote_stale (p\<lparr>pj_registry_authenticated := False\<rparr>)) p))"
    using assms by (simp add: committed_inv mark_all_inv)
  moreover have "topology_inv (snd (committed (merge_observed revision (List.map_filter id results)) p))"
    if "try_map (\<lambda>h. observe_host observed h p) hosts = Ok results" for results
    using assms merge_observed_inv observed_results_ok [OF that] by (simp add: committed_inv)
  ultimately show ?thesis
    using assms by (auto simp: observe_registry_def Let_def split: sum.splits prod.splits)
qed

lemma observe_controller_inv:
  assumes "topology_inv p"
  shows "topology_inv (snd (observe_controller controller observed p))"
proof -
  have "topology_inv (snd (committed (\<lambda>p. p\<lparr>pj_hosts := hm_insert i \<lparr>sh_dashboard = d,
      sh_last_seen_at_ms = observed, sh_is_local = False, sh_is_controller = True\<rparr> (pj_hosts p)\<rparr>) p))"
    if "parse_host_id controller = Ok i" "pj_local_host_id p \<noteq> Some i"
      "project_host (controller_snapshot controller) (Some (''Paired controller'', [])) Trusted PathRegistry []
        (seen_freshness i p) observed = Ok d" for i d
    using assms project_host_Ok [OF that(3)] that(1,2)
    by (intro committed_inv topology_inv_put)
      (auto simp: host_entry_ok_def controller_snapshot_def)
  then show ?thesis
    using assms by (auto simp: observe_controller_def split: sum.split)
qed

lemma mark_disconnected_inv: "topology_inv p \<Longrightarrow> topology_inv (snd (mark_disconnected host p))"
  by (simp add: mark_disconnected_def committed_inv mark_host_stale_inv)

lemma track_active_lease_inv:
  "topology_inv p \<Longrightarrow> topology_inv (snd (track_active_lease lease owner device p))"
  by (auto simp: track_active_lease_def Let_def intro!: committed_inv split: sum.split)

section \<open>The projector as a machine\<close>

datatype topology_op =
    ConnectRegistry string u64 bool
  | DisconnectRegistry
  | ObserveLocal u64 u64 host_snapshot
  | ObserveRegistry u64 u64 bool "registry_host list"
  | ObserveController string u64
  | MarkDisconnected host_id
  | TrackLease string string string

fun topology_call :: "topology_op \<Rightarrow> projector \<Rightarrow> (topology_error + unit) \<times> projector" where
  "topology_call (ConnectRegistry session epoch authenticated) p =
     connect_registry session epoch authenticated p"
| "topology_call DisconnectRegistry p = disconnect_registry p"
| "topology_call (ObserveLocal revision observed s) p = observe_local revision observed s p"
| "topology_call (ObserveRegistry revision observed authenticated hosts) p =
     observe_registry revision observed authenticated hosts p"
| "topology_call (ObserveController controller observed) p = observe_controller controller observed p"
| "topology_call (MarkDisconnected host) p = mark_disconnected host p"
| "topology_call (TrackLease lease owner device) p = track_active_lease lease owner device p"

definition topology_step :: "topology_op \<Rightarrow> projector \<Rightarrow> projector" where
  "topology_step opn p = snd (topology_call opn p)"

interpretation topology_run: invariant_machine topology_step topology_inv
proof
  fix s opn
  assume "topology_inv s"
  then show "topology_inv (topology_step opn s)"
    by (cases opn)
      (auto simp: topology_step_def connect_registry_inv disconnect_registry_inv observe_local_inv
        observe_registry_inv observe_controller_inv mark_disconnected_inv track_active_lease_inv)
qed

text \<open>
  C10. After any sequence of observations, connections and losses, every host the projector holds is a
  valid dashboard host filed under its own identifier, and local trust belongs to the local host
  alone: no inventory from the network can claim it.
\<close>

theorem topology_hosts_always_valid:
  "topology_inv (fold topology_step ops (new_at_revision r))"
  by (rule topology_run.run_inv [OF topology_inv_new])

section \<open>Failures and revisions\<close>

lemma committed_cases:
  "(\<exists>e. committed f p = (Err e, p)) \<or> committed f p = (Ok (), commit_revision (f p))"
  by (simp add: committed_def split: sum.split)

lemma mark_all_revision [simp]: "pj_revision (mark_all_remote_stale p) = pj_revision p"
  by (simp add: mark_all_remote_stale_def)

lemma put_observed_revision: "pj_revision (fold put_observed xs p) = pj_revision p"
  by (induction xs arbitrary: p) (auto simp: put_observed_def)

lemma merge_observed_revision [simp]: "pj_revision (merge_observed revision xs p) = pj_revision p"
  by (simp add: merge_observed_def prune_absent_hosts_def put_observed_revision Let_def)

text \<open>A call that changes nothing or commits one revision, and changes nothing when it fails.\<close>

definition tame :: "projector \<Rightarrow> (topology_error + unit) \<times> projector \<Rightarrow> bool" where
  "tame p rp \<longleftrightarrow> (snd rp = p \<or> pj_revision (snd rp) = pj_revision p + 1)
     \<and> (\<forall>e. fst rp = Err e \<longrightarrow> snd rp = p)"

lemma tame_same [simp, intro]: "tame p (r, p)"
  by (simp add: tame_def)

lemma committed_tame [intro]: "pj_revision (f p) = pj_revision p \<Longrightarrow> tame p (committed f p)"
  using committed_cases [of f p] by (auto simp: tame_def commit_revision_def)

lemma connect_registry_tame: "tame p (connect_registry session epoch authenticated p)"
  by (auto simp: connect_registry_def drop_controllers_def Let_def intro!: committed_tame split: sum.split)

lemma disconnect_registry_tame: "tame p (disconnect_registry p)"
  by (auto simp: disconnect_registry_def intro!: committed_tame)

lemma observe_local_tame: "tame p (observe_local revision observed s p)"
  by (auto simp: observe_local_def Let_def intro!: committed_tame split: sum.split)

lemma observe_registry_tame:
  "authenticated \<and> pj_registry_authenticated p \<Longrightarrow>
     tame p (observe_registry revision observed authenticated hosts p)"
  by (auto simp: observe_registry_def Let_def intro!: committed_tame split: sum.split)

lemma observe_registry_unauthenticated:
  assumes "\<not> authenticated \<or> \<not> pj_registry_authenticated p"
  shows "snd (observe_registry revision observed authenticated hosts p)
     = snd (committed (\<lambda>p. mark_all_remote_stale (p\<lparr>pj_registry_authenticated := False\<rparr>)) p)"
  using assms by (simp add: observe_registry_def split: prod.splits sum.splits)

lemma observe_controller_tame: "tame p (observe_controller controller observed p)"
  by (auto simp: observe_controller_def intro!: committed_tame split: sum.split)

lemma mark_disconnected_tame: "tame p (mark_disconnected host p)"
  by (auto simp: mark_disconnected_def intro!: committed_tame)

lemma track_active_lease_tame: "tame p (track_active_lease lease owner device p)"
  by (auto simp: track_active_lease_def Let_def intro!: committed_tame split: sum.split)

lemma topology_call_tame:
  assumes "\<nexists>revision observed authenticated hosts. opn = ObserveRegistry revision observed authenticated hosts
     \<and> (\<not> authenticated \<or> \<not> pj_registry_authenticated p)"
  shows "tame p (topology_call opn p)"
  using assms
  by (cases opn) (simp_all add: connect_registry_tame disconnect_registry_tame observe_local_tame
      observe_registry_tame observe_controller_tame mark_disconnected_tame track_active_lease_tame)

text \<open>
  Every call on the projector either leaves it exactly as it was or moves its revision by one, so
  that two snapshots with one revision are the same; and a call that fails changes nothing, unless it
  brings inventory over a registry session that is not authenticated, which marks the remote hosts
  stale before it is refused.
\<close>

theorem topology_revision_tracks_changes:
  "(topology_step opn p = p \<or> pj_revision (topology_step opn p) = pj_revision p + 1)
   \<and> (fst (topology_call opn p) = Err e \<longrightarrow> topology_step opn p = p
       \<or> (\<exists>revision observed authenticated hosts.
            opn = ObserveRegistry revision observed authenticated hosts
            \<and> (\<not> authenticated \<or> \<not> pj_registry_authenticated p)))"
proof (cases "\<exists>revision observed authenticated hosts. opn = ObserveRegistry revision observed authenticated hosts
     \<and> (\<not> authenticated \<or> \<not> pj_registry_authenticated p)")
  case True
  then have "topology_step opn p
      = snd (committed (\<lambda>p. mark_all_remote_stale (p\<lparr>pj_registry_authenticated := False\<rparr>)) p)"
    using observe_registry_unauthenticated by (auto simp: topology_step_def)
  moreover have "tame p (committed (\<lambda>p. mark_all_remote_stale (p\<lparr>pj_registry_authenticated := False\<rparr>)) p)"
    by (rule committed_tame) simp
  ultimately show ?thesis using True by (auto simp: tame_def)
next
  case False
  from topology_call_tame [OF this] show ?thesis by (auto simp: tame_def topology_step_def)
qed

definition sample_host :: host_snapshot where
  "sample_host = \<lparr>hs_id = ''h'', hs_operating_system = ''linux'', hs_architecture = ''x64'',
     hs_status = ''online'', hs_capabilities = [], hs_devices = []\<rparr>"

definition sample_topology :: projector where
  "sample_topology = snd (observe_local 1 7 sample_host (new_at_revision 4))"

theorem topology_revision_tracks_changes_witness:
  "topology_step (ObserveLocal 1 7 (sample_host\<lparr>hs_id := []\<rparr>)) (new_at_revision 4) = new_at_revision 4"
proof -
  have "trim [] = []" by code_simp
  then have "fst (topology_call (ObserveLocal 1 7 (sample_host\<lparr>hs_id := []\<rparr>)) (new_at_revision 4))
      = Err (invalid ''host_id'')"
    by (simp add: observe_local_def new_at_revision_def sample_host_def parse_host_id_def
        validate_identifier_def ensure_def)
  then show ?thesis
    using topology_revision_tracks_changes [of "ObserveLocal 1 7 (sample_host\<lparr>hs_id := []\<rparr>)"
      "new_at_revision 4" "invalid ''host_id''"] by auto
qed

section \<open>The local host and the leases\<close>

lemma mark_all_local:
  assumes "hm_get (pj_hosts p) i = Some h" and "sh_is_local h" and "hm_wf (pj_hosts p)"
  shows "hm_get (pj_hosts (mark_all_remote_stale p)) i = Some h"
proof -
  have "i \<notin> set (hm_keys (filter (\<lambda>(i, h). \<not> sh_is_local h) (pj_hosts p)))"
    using assms hm_in_set_get [OF assms(3)] by (auto simp: hm_keys_def)
  then show ?thesis using assms(1) by (simp add: mark_all_remote_stale_def fold_stale_other)
qed

lemma put_observed_other:
  "i \<notin> fst ` set xs \<Longrightarrow> hm_get (pj_hosts (fold put_observed xs p)) i = hm_get (pj_hosts p) i"
  by (induction xs arbitrary: p) (auto simp: put_observed_def)

lemma absent_not_local:
  "topology_inv p \<Longrightarrow> hm_get (pj_hosts p) i = Some h \<Longrightarrow> sh_is_local h \<Longrightarrow>
     i \<notin> fst ` set (absent_hosts observed p)"
  using hm_in_set_get by (fastforce simp: absent_hosts_def topology_inv_def)

lemma merge_observed_local:
  assumes inv: "topology_inv p" and ok: "\<forall>x \<in> set projected. observed_ok (pj_local_host_id p) x"
    and h: "hm_get (pj_hosts p) i = Some h" "sh_is_local h"
  shows "hm_get (pj_hosts (merge_observed revision projected p)) i = Some h"
proof -
  let ?obs = "map fst projected"
  let ?p1 = "fold mark_host_stale (map fst (absent_hosts ?obs p)) p"
  let ?p2 = "fold put_observed projected ?p1"
  have l: "pj_local_host_id p = Some i" using inv h by (simp add: topology_inv_def host_entry_ok_def)
  then have fresh: "i \<notin> fst ` set projected" using ok by (auto simp: observed_ok_def)
  have p1: "hm_get (pj_hosts ?p1) i = Some h"
    using absent_not_local [OF inv h] h(1) by (simp add: fold_stale_other)
  then have p2: "hm_get (pj_hosts ?p2) i = Some h" by (simp add: put_observed_other [OF fresh])
  have "topology_inv ?p2"
    using fold_put_observed_inv [of ?p1 projected] ok fold_stale_inv [OF inv] by simp
  from absent_not_local [OF this p2 h(2)] have
    "i \<notin> set (map fst (sort_key (\<lambda>(i, h). (sh_last_seen_at_ms h, i)) (absent_hosts ?obs ?p2)))" by simp
  moreover have "hm_wf (pj_hosts ?p2)" using \<open>topology_inv ?p2\<close> by (simp add: topology_inv_def)
  ultimately have "hm_get (pj_hosts (prune_absent_hosts ?obs ?p2)) i = Some h"
    using p2 by (simp add: prune_absent_hosts_def prune_other)
  then show ?thesis by (simp add: merge_observed_def Let_def)
qed

lemma committed_local:
  "hm_get (pj_hosts p) i = Some h \<Longrightarrow> hm_get (pj_hosts (f p)) i = Some h \<Longrightarrow>
     hm_get (pj_hosts (snd (committed f p))) i = Some h"
  using committed_cases [of f p] by (auto simp: commit_revision_def)

text \<open>
  The registry cannot touch the local host: whatever inventory it sends, authenticated or not, and
  whatever identity the remote hosts claim, the entry of the local host stays as it is.
\<close>

theorem registry_cannot_change_local_host:
  assumes "topology_inv p" and "hm_get (pj_hosts p) i = Some h" and "sh_is_local h"
  shows "hm_get (pj_hosts (snd (observe_registry revision observed authenticated hosts p))) i = Some h"
proof (cases "\<not> authenticated \<or> \<not> pj_registry_authenticated p")
  case True
  have "hm_get (pj_hosts (mark_all_remote_stale (p\<lparr>pj_registry_authenticated := False\<rparr>))) i = Some h"
    using assms by (intro mark_all_local) (simp_all add: topology_inv_def)
  then show ?thesis
    using assms(2) by (simp add: observe_registry_unauthenticated [OF True] committed_local)
next
  case False
  have "hm_get (pj_hosts (snd (committed (merge_observed revision (List.map_filter id results)) p))) i = Some h"
    if "try_map (\<lambda>h. observe_host observed h p) hosts = Ok results" for results
    using merge_observed_local [OF assms(1) observed_results_ok [OF that] assms(2,3)] assms(2)
    by (simp add: committed_local)
  then show ?thesis using False assms(2) by (auto simp: observe_registry_def Let_def split: sum.split)
qed

lemma sample_topology_value:
  "sample_topology = (new_at_revision 5)\<lparr>pj_hosts := [(''h'', \<lparr>sh_dashboard =
       \<lparr>dh_id = ''h'', dh_display_name = ''h'', dh_platform = ''linux'', dh_architecture = ''x64'',
         dh_presence = Online, dh_freshness = UnknownFreshness, dh_trust = TrustLocal,
         dh_connection_path = PathLocal, dh_capabilities = [], dh_permissions = [], dh_devices = []\<rparr>,
       sh_last_seen_at_ms = 7, sh_is_local = True, sh_is_controller = False\<rparr>)],
     pj_local_host_id := Some ''h'', pj_local_revision := Some 1\<rparr>"
proof -
  have "project_host sample_host None TrustLocal PathLocal [] UnknownFreshness 7 = Ok
      \<lparr>dh_id = ''h'', dh_display_name = ''h'', dh_platform = ''linux'', dh_architecture = ''x64'',
         dh_presence = Online, dh_freshness = UnknownFreshness, dh_trust = TrustLocal,
         dh_connection_path = PathLocal, dh_capabilities = [], dh_permissions = [], dh_devices = []\<rparr>"
    by code_simp
  moreover have "parse_host_id ''h'' = Ok ''h''" by code_simp
  ultimately show ?thesis
    by (simp add: sample_topology_def observe_local_def new_at_revision_def seen_freshness_def
        committed_def preflight_revision_def ensure_def u64_max_def commit_revision_def hm_insert_def
        hm_has_def hm_get_def sample_host_def)
qed

theorem registry_cannot_change_local_host_witness:
  "hm_get (pj_hosts (snd (observe_registry 9 8 True [] sample_topology))) ''h''
     = hm_get (pj_hosts sample_topology) ''h''"
  using registry_cannot_change_local_host
    [OF observe_local_inv [OF topology_inv_new, of 1 7 sample_host 4, folded sample_topology_def],
      of "''h''" _ 9 8 True "[]"]
  by (simp add: sample_topology_value hm_get_def)

end
