(* ===== verification/ArtifactStore.thy ===== *)
theory ArtifactStore
  imports Protocol
begin

text \<open>
  The registry's artifact store (\<open>registry_runtime.rs\<close>: \<open>NetworkArtifacts\<close>, \<open>write_artifact\<close>,
  \<open>read_artifact\<close>, and the \<open>ArtifactRegister\<close> and \<open>ArtifactInfo\<close> requests): files uploaded in chunks,
  confirmed by offset and published once the digest of the whole file is the registered one.

  The store keeps its index in memory and, as last saved, on disk; the partial files are on disk only.
  \<open>sha\<close> is the SHA-256 digest in hexadecimal. What the file system does to one request is an argument:
  \<open>write_outcome\<close> says how far the write of a chunk got.
\<close>

section \<open>State\<close>

definition MAX_ARTIFACT_CHUNK :: nat where "MAX_ARTIFACT_CHUNK = 65536"

record network_artifact =
  na_metadata :: network_artifact_metadata
  na_participants :: "string set"
  na_confirmed_offset :: u64
  na_published :: bool

record artifact_store =
  as_entries :: "(string, network_artifact) hash_map"
  as_disk_entries :: "(string, network_artifact) hash_map"
  as_files :: "(string, string) hash_map"

record artifact_write =
  aw_total_size :: u64
  aw_sha256 :: string
  aw_chunk_sha256 :: string
  aw_bytes :: string

section \<open>Files\<close>

datatype write_outcome =
    CannotOpen        \<comment> \<open>the file cannot be opened or created\<close>
  | Stopped nat       \<comment> \<open>the write ends after some bytes, or the file cannot be truncated after it\<close>
  | Unsynced          \<comment> \<open>written and truncated, and \<open>sync_all\<close> fails\<close>
  | Written

definition file_set_len :: "nat \<Rightarrow> string \<Rightarrow> string" where
  "file_set_len n f = take n f @ replicate (n - length f) (CHR 0x00)"

definition file_overwrite :: "nat \<Rightarrow> string \<Rightarrow> string \<Rightarrow> string" where
  "file_overwrite offset bs f =
     (if bs = [] then f else file_set_len offset f @ bs @ drop (offset + length bs) f)"

definition file_contents :: "artifact_store \<Rightarrow> string \<Rightarrow> string" where
  "file_contents s i = (case hm_get (as_files s) i of None \<Rightarrow> [] | Some f \<Rightarrow> f)"

definition set_file :: "string \<Rightarrow> string \<Rightarrow> artifact_store \<Rightarrow> artifact_store" where
  "set_file i f s = s\<lparr>as_files := hm_insert i f (as_files s)\<rparr>"

text \<open>Opening (which creates the file), seeking, writing the chunk, cutting the file after it.\<close>

fun write_file :: "write_outcome \<Rightarrow> string \<Rightarrow> nat \<Rightarrow> string \<Rightarrow> artifact_store \<Rightarrow> bool \<times> artifact_store" where
  "write_file CannotOpen i offset bs s = (False, s)"
| "write_file (Stopped n) i offset bs s =
     (False, set_file i (file_overwrite offset (take n bs) (file_contents s i)) s)"
| "write_file Unsynced i offset bs s =
     (False, set_file i (file_set_len (offset + length bs) (file_overwrite offset bs (file_contents s i))) s)"
| "write_file Written i offset bs s =
     (True, set_file i (file_set_len (offset + length bs) (file_overwrite offset bs (file_contents s i))) s)"

text \<open>Opening an existing file and \<open>read_exact\<close> at an offset; \<open>io\<close> is false when the system refuses.\<close>

definition read_exact :: "bool \<Rightarrow> nat \<Rightarrow> nat \<Rightarrow> string option \<Rightarrow> string option" where
  "read_exact io offset n f =
     (case f of None \<Rightarrow> None
      | Some c \<Rightarrow> if io \<and> offset + n \<le> length c then Some (take n (drop offset c)) else None)"

section \<open>Operations\<close>

text \<open>A save of a file of the state directory (\<open>atomic_write_json\<close>, step by step in \<open>Persistence\<close>) succeeds,
  fails before the new copy is in place, or fails after it.\<close>

datatype save_outcome = Saved | Unsaved | SavedWithError

text \<open>The environment of a write: the file system, the read or the digest, the cut, the save of the index.\<close>

record artifact_io =
  ai_write :: write_outcome
  ai_read :: bool
  ai_cut :: bool
  ai_save :: save_outcome

definition persist_index :: "save_outcome \<Rightarrow> artifact_store \<Rightarrow> bool \<times> artifact_store" where
  "persist_index w s = (w = Saved, if w = Unsaved then s else s\<lparr>as_disk_entries := as_entries s\<rparr>)"

definition saved_or :: "save_outcome \<Rightarrow> response \<Rightarrow> artifact_store \<Rightarrow> response \<times> artifact_store" where
  "saved_or w r s =
     (case persist_index w s of
        (True, s1) \<Rightarrow> (r, s1) | (False, s1) \<Rightarrow> (error_response ''persistence_failed'', s1))"

definition offset_response :: "u64 \<Rightarrow> response" where
  "offset_response n = ok_response\<lparr>rs_confirmed_offset := Some n\<rparr>"

text \<open>A chunk that was confirmed before is compared with the file and acknowledged again.\<close>

definition replay_chunk ::
    "artifact_io \<Rightarrow> string \<Rightarrow> network_artifact \<Rightarrow> u64 \<Rightarrow> string \<Rightarrow> artifact_store \<Rightarrow> response \<times> artifact_store" where
  "replay_chunk io i e offset bs s =
     (if offset + length bs > na_confirmed_offset e then (error_response ''invalid_offset'', s)
      else if read_exact (ai_read io) offset (length bs) (hm_get (as_files s) i) = Some bs
      then saved_or (ai_save io) (offset_response (na_confirmed_offset e)) s
      else (error_response ''chunk_conflict'', s))"

text \<open>The next chunk: written, and for the last one the digest of the whole file is compared; when it is
  wrong the file is cut back to the confirmed part.\<close>

definition confirm_chunk ::
    "artifact_io \<Rightarrow> string \<Rightarrow> network_artifact \<Rightarrow> u64 \<Rightarrow> artifact_store \<Rightarrow> response \<times> artifact_store" where
  "confirm_chunk io i e next s =
     saved_or (ai_save io) (offset_response next)
       (s\<lparr>as_entries := hm_insert i
            (e\<lparr>na_confirmed_offset := next,
               na_published := (na_published e \<or> next = am_total_size (na_metadata e))\<rparr>) (as_entries s)\<rparr>)"

definition append_chunk ::
    "(string \<Rightarrow> string) \<Rightarrow> artifact_io \<Rightarrow> string \<Rightarrow> network_artifact \<Rightarrow> u64 \<Rightarrow> string \<Rightarrow> artifact_store
       \<Rightarrow> response \<times> artifact_store" where
  "append_chunk sha io i e offset bs s =
     (case write_file (ai_write io) i offset bs s of
        (False, s1) \<Rightarrow> (error_response ''artifact_io'', s1)
      | (True, s1) \<Rightarrow>
     let next = na_confirmed_offset e + length bs in
     if next \<noteq> am_total_size (na_metadata e) then confirm_chunk io i e next s1
     else if \<not> ai_read io then (error_response ''artifact_io'', s1)
     else if sha (file_contents s1 i) = am_sha256 (na_metadata e) then confirm_chunk io i e next s1
     else if \<not> ai_cut io then (error_response ''artifact_io'', s1)
     else (error_response ''artifact_hash_mismatch'',
           set_file i (file_set_len (na_confirmed_offset e) (file_contents s1 i)) s1))"

definition write_artifact ::
    "(string \<Rightarrow> string) \<Rightarrow> artifact_io \<Rightarrow> string \<Rightarrow> string \<Rightarrow> u64 \<Rightarrow> artifact_write \<Rightarrow> artifact_store
       \<Rightarrow> response \<times> artifact_store" where
  "write_artifact sha io peer i offset w s =
     (case hm_get (as_entries s) i of
        None \<Rightarrow> (error_response ''unknown_artifact'', s)
      | Some e \<Rightarrow>
     if peer \<notin> na_participants e then (error_response ''artifact_access_denied'', s)
     else if aw_total_size w \<noteq> am_total_size (na_metadata e) \<or> aw_sha256 w \<noteq> am_sha256 (na_metadata e)
     then (error_response ''artifact_metadata_mismatch'', s)
     else if aw_bytes w = [] \<or> length (aw_bytes w) > MAX_ARTIFACT_CHUNK
             \<or> sat_add64 offset (length (aw_bytes w)) > aw_total_size w
     then (error_response ''invalid_chunk_length'', s)
     else if sha (aw_bytes w) \<noteq> aw_chunk_sha256 w then (error_response ''chunk_hash_mismatch'', s)
     else if offset < na_confirmed_offset e then replay_chunk io i e offset (aw_bytes w) s
     else if offset \<noteq> na_confirmed_offset e then (error_response ''invalid_offset'', s)
     else append_chunk sha io i e offset (aw_bytes w) s)"

definition read_artifact ::
    "bool \<Rightarrow> string \<Rightarrow> string \<Rightarrow> u64 \<Rightarrow> u64 \<Rightarrow> u64 \<Rightarrow> string \<Rightarrow> artifact_store \<Rightarrow> response" where
  "read_artifact io peer i offset len total_size digest s =
     (case hm_get (as_entries s) i of
        None \<Rightarrow> error_response ''unknown_artifact''
      | Some e \<Rightarrow>
     if peer \<notin> na_participants e then error_response ''artifact_access_denied''
     else if \<not> na_published e then error_response ''artifact_not_published''
     else if total_size \<noteq> am_total_size (na_metadata e) \<or> digest \<noteq> am_sha256 (na_metadata e)
     then error_response ''artifact_metadata_mismatch''
     else if len = 0 \<or> len > MAX_ARTIFACT_CHUNK \<or> offset \<ge> total_size then error_response ''invalid_offset''
     else case read_exact io offset (min len (total_size - offset)) (hm_get (as_files s) i) of
       None \<Rightarrow> error_response ''artifact_io''
     | Some bs \<Rightarrow> ok_response\<lparr>rs_artifact_chunk := Some \<lparr>ac_offset = offset, ac_total_size = total_size,
         ac_sha256 = digest, ac_bytes = bs\<rparr>\<rparr>)"

definition artifact_info :: "string \<Rightarrow> string \<Rightarrow> artifact_store \<Rightarrow> bool \<times> response" where
  "artifact_info peer i s =
     (case hm_get (as_entries s) i of
        None \<Rightarrow> (True, error_response ''unknown_artifact'')
      | Some e \<Rightarrow> (False,
          if peer \<notin> na_participants e then error_response ''artifact_access_denied''
          else if \<not> na_published e then error_response ''artifact_not_published''
          else ok_response\<lparr>rs_artifact_metadata := Some (na_metadata e)\<rparr>))"

definition valid_id :: "string \<Rightarrow> bool" where
  "valid_id value = relative_normal value"

definition artifact_id :: "(string \<Rightarrow> string) \<Rightarrow> string \<Rightarrow> string \<Rightarrow> string \<Rightarrow> string" where
  "artifact_id sha job name digest = sha (job @ [NUL] @ name @ [NUL] @ digest)"

text \<open>\<open>ArtifactRegister\<close>: \<open>agent\<close> and \<open>client\<close> are the peers the job table names for the job.\<close>

definition register_artifact ::
    "(string \<Rightarrow> string) \<Rightarrow> save_outcome \<Rightarrow> string \<Rightarrow> string option \<Rightarrow> string option \<Rightarrow> string \<Rightarrow> string
       \<Rightarrow> string \<Rightarrow> u64 \<Rightarrow> string \<Rightarrow> artifact_store \<Rightarrow> response \<times> artifact_store" where
  "register_artifact sha save peer agent client job name media total_size digest s =
     (if agent \<noteq> Some peer then (error_response ''artifact_access_denied'', s)
      else if total_size = 0 \<or> length digest \<noteq> 64 \<or> \<not> valid_id name \<or> media = []
      then (error_response ''invalid_artifact_metadata'', s)
      else let i = artifact_id sha job name digest;
               participants = insert peer (set_option client);
               m = \<lparr>am_id = i, am_job_id = job, am_name = name, am_media_type = media,
                    am_total_size = total_size, am_sha256 = digest\<rparr>;
               e = (case hm_get (as_entries s) i of
                      Some e \<Rightarrow> e\<lparr>na_participants := na_participants e \<union> participants\<rparr>
                    | None \<Rightarrow> \<lparr>na_metadata = m, na_participants = participants,
                        na_confirmed_offset = 0, na_published = False\<rparr>)
           in saved_or save (ok_response\<lparr>rs_artifact_metadata := Some m\<rparr>)
                (s\<lparr>as_entries := hm_insert i e (as_entries s)\<rparr>))"

text \<open>A restart reads the index back from disk.\<close>

definition reload_artifacts :: "artifact_store \<Rightarrow> artifact_store" where
  "reload_artifacts s = s\<lparr>as_entries := as_disk_entries s\<rparr>"

section \<open>Invariant\<close>

text \<open>An entry and the contents of its file: what is confirmed is on disk, and a published file is complete
  and has the registered digest. Sizes up to the last 64-bit number are excluded: only there the
  saturating bound of the code could be passed.\<close>

definition artifact_ok :: "(string \<Rightarrow> string) \<Rightarrow> network_artifact \<Rightarrow> string \<Rightarrow> bool" where
  "artifact_ok sha e c \<longleftrightarrow> (am_total_size (na_metadata e) < u64_max \<longrightarrow>
     0 < am_total_size (na_metadata e)
     \<and> na_confirmed_offset e \<le> am_total_size (na_metadata e) \<and> na_confirmed_offset e \<le> length c
     \<and> (na_published e \<longrightarrow> na_confirmed_offset e = am_total_size (na_metadata e)
          \<and> length c = am_total_size (na_metadata e) \<and> sha c = am_sha256 (na_metadata e)))"

text \<open>How an entry of the index may have moved since it was saved.\<close>

definition entry_le :: "network_artifact \<Rightarrow> network_artifact \<Rightarrow> bool" where
  "entry_le d e \<longleftrightarrow> na_metadata d = na_metadata e \<and> na_confirmed_offset d \<le> na_confirmed_offset e
     \<and> (na_published d \<longrightarrow> na_published e)"

definition index_le :: "(string, network_artifact) hash_map \<Rightarrow> (string, network_artifact) hash_map \<Rightarrow> bool" where
  "index_le m n \<longleftrightarrow> (\<forall>i d. hm_get m i = Some d \<longrightarrow> (\<exists>e. hm_get n i = Some e \<and> entry_le d e))"

definition index_ok ::
    "(string \<Rightarrow> string) \<Rightarrow> (string, network_artifact) hash_map \<Rightarrow> artifact_store \<Rightarrow> bool" where
  "index_ok sha m s \<longleftrightarrow> (\<forall>i e. hm_get m i = Some e \<longrightarrow> artifact_ok sha e (file_contents s i))"

definition store_ok :: "(string \<Rightarrow> string) \<Rightarrow> artifact_store \<Rightarrow> bool" where
  "store_ok sha s \<longleftrightarrow> index_ok sha (as_entries s) s \<and> index_ok sha (as_disk_entries s) s
     \<and> index_le (as_disk_entries s) (as_entries s)"

definition empty_store :: artifact_store where
  "empty_store = \<lparr>as_entries = [], as_disk_entries = [], as_files = []\<rparr>"

lemma entry_le_refl [simp]: "entry_le e e"
  by (simp add: entry_le_def)

lemma entry_le_trans: "entry_le c d \<Longrightarrow> entry_le d e \<Longrightarrow> entry_le c e"
  by (auto simp: entry_le_def)

lemma index_le_refl [simp]: "index_le m m"
  by (auto simp: index_le_def)

lemma index_le_trans:
  assumes "index_le l m" and "index_le m n" shows "index_le l n"
  unfolding index_le_def
proof (intro allI impI)
  fix i d assume "hm_get l i = Some d"
  then obtain e where e: "hm_get m i = Some e" "entry_le d e" using assms(1) by (auto simp: index_le_def)
  then obtain f where "hm_get n i = Some f" "entry_le e f" using assms(2) by (auto simp: index_le_def)
  then show "\<exists>e. hm_get n i = Some e \<and> entry_le d e" using e entry_le_trans by blast
qed

lemma index_le_insert:
  assumes "\<And>d. hm_get m i = Some d \<Longrightarrow> entry_le d e"
  shows "index_le m (hm_insert i e m)"
  using assms by (auto simp: index_le_def)

lemma store_ok_empty: "store_ok sha empty_store"
  by (simp add: store_ok_def empty_store_def index_ok_def)

section \<open>Files under writes\<close>

lemma file_set_len_length [simp]: "length (file_set_len n f) = n"
  by (simp add: file_set_len_def)

lemma file_set_len_take: "n \<le> m \<Longrightarrow> n \<le> length f \<Longrightarrow> take n (file_set_len m f) = take n f"
  by (simp add: file_set_len_def)

lemma file_set_len_short: "n \<le> length f \<Longrightarrow> file_set_len n f = take n f"
  by (simp add: file_set_len_def)

lemma file_overwrite_take:
  "n \<le> offset \<Longrightarrow> n \<le> length f \<Longrightarrow> take n (file_overwrite offset bs f) = take n f"
  by (simp add: file_overwrite_def file_set_len_take)

lemma file_overwrite_length: "length f \<le> length (file_overwrite offset bs f)"
  by (cases "bs = []") (simp_all add: file_overwrite_def)

lemma file_replace_take:
  "n \<le> offset \<Longrightarrow> n \<le> m \<Longrightarrow> n \<le> length f \<Longrightarrow> take n (file_set_len m (file_overwrite offset bs f)) = take n f"
  using file_overwrite_length [of f offset bs] by (simp add: file_set_len_take file_overwrite_take)

lemma file_contents_set [simp]:
  "file_contents (set_file i f s) j = (if j = i then f else file_contents s j)"
  by (simp add: file_contents_def set_file_def)

lemma file_contents_entries [simp]:
  "file_contents (s\<lparr>as_entries := m\<rparr>) = file_contents s" "file_contents (s\<lparr>as_disk_entries := m\<rparr>) = file_contents s"
  by (rule ext, simp add: file_contents_def)+

lemma set_file_simps [simp]:
  "as_entries (set_file i f s) = as_entries s" "as_disk_entries (set_file i f s) = as_disk_entries s"
  by (simp_all add: set_file_def)

text \<open>A state whose files keep the confirmed part of every artifact, and published files entirely.\<close>

definition files_kept :: "artifact_store \<Rightarrow> artifact_store \<Rightarrow> bool" where
  "files_kept s t \<longleftrightarrow> (\<forall>i e. hm_get (as_entries s) i = Some e \<longrightarrow> am_total_size (na_metadata e) < u64_max \<longrightarrow>
     na_confirmed_offset e \<le> length (file_contents t i)
     \<and> take (na_confirmed_offset e) (file_contents t i) = take (na_confirmed_offset e) (file_contents s i)
     \<and> (na_published e \<longrightarrow> file_contents t i = file_contents s i))"

lemma index_ok_kept:
  assumes "index_ok sha m s" and "index_le m (as_entries s)" and "files_kept s t"
  shows "index_ok sha m t"
  unfolding index_ok_def
proof (intro allI impI)
  fix i d assume d: "hm_get m i = Some d"
  then obtain e where e: "hm_get (as_entries s) i = Some e" "entry_le d e"
    using assms(2) by (auto simp: index_le_def)
  have "artifact_ok sha d (file_contents s i)" using assms(1) d by (simp add: index_ok_def)
  then show "artifact_ok sha d (file_contents t i)"
    using assms(3) e by (fastforce simp: artifact_ok_def files_kept_def entry_le_def)
qed

lemma write_file_entries [simp]:
  "as_entries (snd (write_file w i offset bs s)) = as_entries s"
  "as_disk_entries (snd (write_file w i offset bs s)) = as_disk_entries s"
  by (cases w; simp)+

lemma write_file_contents_other:
  "j \<noteq> i \<Longrightarrow> file_contents (snd (write_file w i offset bs s)) j = file_contents s j"
  by (cases w) simp_all

lemma write_file_prefix:
  "n \<le> offset \<Longrightarrow> n \<le> length (file_contents s i) \<Longrightarrow>
     n \<le> length (file_contents (snd (write_file w i offset bs s)) i)
     \<and> take n (file_contents (snd (write_file w i offset bs s)) i) = take n (file_contents s i)"
  by (cases w)
    (auto simp: file_overwrite_take file_replace_take intro: le_trans [OF _ file_overwrite_length])

lemma write_file_Written_length:
  "fst (write_file w i offset bs s) \<Longrightarrow>
     length (file_contents (snd (write_file w i offset bs s)) i) = offset + length bs"
  by (cases w) simp_all

section \<open>Every operation keeps the store\<close>

text \<open>What one request may do: keep the files, move the index forward, save it or not.\<close>

definition store_moves :: "(string \<Rightarrow> string) \<Rightarrow> artifact_store \<Rightarrow> artifact_store \<Rightarrow> bool" where
  "store_moves sha s t \<longleftrightarrow> files_kept s t \<and> index_le (as_entries s) (as_entries t)
     \<and> index_ok sha (as_entries t) t
     \<and> (as_disk_entries t = as_disk_entries s \<or> as_disk_entries t = as_entries t)"

lemma store_ok_moves: "store_ok sha s \<Longrightarrow> store_moves sha s t \<Longrightarrow> store_ok sha t"
  unfolding store_ok_def store_moves_def using index_ok_kept index_le_trans by (metis index_le_refl)

lemma files_kept_refl: "store_ok sha s \<Longrightarrow> files_kept s s"
  by (fastforce simp: files_kept_def store_ok_def index_ok_def artifact_ok_def)

lemma store_moves_refl: "store_ok sha s \<Longrightarrow> store_moves sha s s"
  by (simp add: store_moves_def files_kept_refl) (simp add: store_ok_def)

lemma saved_or_moves:
  assumes "files_kept s t" "index_le (as_entries s) (as_entries t)" "index_ok sha (as_entries t) t"
    "as_disk_entries t = as_disk_entries s"
  shows "store_moves sha s (snd (saved_or w r t))"
  using assms
  by (auto simp: saved_or_def persist_index_def store_moves_def files_kept_def file_contents_def
      index_ok_def split: bool.split)

lemma files_only_moves:
  assumes "store_ok sha s" "files_kept s t" "as_entries t = as_entries s"
    "as_disk_entries t = as_disk_entries s"
  shows "store_moves sha s t"
  using assms index_ok_kept [of sha "as_entries s" s t]
  by (simp add: store_moves_def store_ok_def)

lemma replay_chunk_moves: "store_ok sha s \<Longrightarrow> store_moves sha s (snd (replay_chunk io i e offset bs s))"
  using saved_or_moves [of s s sha] files_kept_refl [of sha s]
  by (auto simp: replay_chunk_def store_moves_refl) (simp add: store_ok_def)

text \<open>A chunk at the confirmed offset of an artifact that is not complete.\<close>

definition next_chunk :: "artifact_store \<Rightarrow> string \<Rightarrow> network_artifact \<Rightarrow> u64 \<Rightarrow> string \<Rightarrow> bool" where
  "next_chunk s i e offset bs \<longleftrightarrow> hm_get (as_entries s) i = Some e \<and> offset = na_confirmed_offset e
     \<and> bs \<noteq> [] \<and> sat_add64 offset (length bs) \<le> am_total_size (na_metadata e)"

lemma next_chunk_bound:
  "next_chunk s i e offset bs \<Longrightarrow> am_total_size (na_metadata e) < u64_max \<Longrightarrow>
     offset + length bs \<le> am_total_size (na_metadata e)"
  by (auto simp: next_chunk_def sat_add64_def min_def split: if_splits)

lemma next_chunk_unpublished:
  assumes "store_ok sha s" "next_chunk s i e offset bs" "am_total_size (na_metadata e) < u64_max"
  shows "\<not> na_published e \<and> na_confirmed_offset e \<le> length (file_contents s i)"
proof -
  have "artifact_ok sha e (file_contents s i)"
    using assms(1,2) by (simp add: store_ok_def index_ok_def next_chunk_def)
  moreover have "0 < length bs" using assms(2) by (simp add: next_chunk_def)
  ultimately show ?thesis
    using next_chunk_bound [OF assms(2,3)] assms(2,3) by (auto simp: artifact_ok_def next_chunk_def)
qed

lemma write_file_kept:
  assumes ok: "store_ok sha s" and c: "next_chunk s i e offset bs"
  shows "files_kept s (snd (write_file w i offset bs s))"
  unfolding files_kept_def
proof (intro allI impI)
  fix j d
  assume d: "hm_get (as_entries s) j = Some d" "am_total_size (na_metadata d) < u64_max"
  let ?t = "snd (write_file w i offset bs s)"
  show "na_confirmed_offset d \<le> length (file_contents ?t j)
     \<and> take (na_confirmed_offset d) (file_contents ?t j) = take (na_confirmed_offset d) (file_contents s j)
     \<and> (na_published d \<longrightarrow> file_contents ?t j = file_contents s j)"
  proof (cases "j = i")
    case True
    then have "d = e" using d c by (simp add: next_chunk_def)
    then show ?thesis
      using next_chunk_unpublished [OF ok c] write_file_prefix [of "na_confirmed_offset e" offset s i w bs]
        True d c by (simp add: next_chunk_def)
  next
    case False
    then show ?thesis
      using write_file_contents_other [OF False] files_kept_refl [OF ok] d by (simp add: files_kept_def)
  qed
qed

lemma file_contents_cong: "as_files s = as_files t \<Longrightarrow> file_contents s = file_contents t"
  by (rule ext) (simp add: file_contents_def)

lemma files_kept_cong: "as_files t = as_files u \<Longrightarrow> files_kept s t = files_kept s u"
  by (simp add: files_kept_def file_contents_cong [of t u])

lemma confirm_chunk_moves:
  assumes ok: "store_ok sha s" and c: "next_chunk s i e offset bs"
    and t: "t = snd (write_file w i offset bs s)" and w: "fst (write_file w i offset bs s)"
    and nx: "next = na_confirmed_offset e + length bs"
    and digest: "next = am_total_size (na_metadata e) \<longrightarrow> sha (file_contents t i) = am_sha256 (na_metadata e)"
  shows "store_moves sha s (snd (confirm_chunk io i e next t))"
proof -
  let ?e = "e\<lparr>na_confirmed_offset := next,
       na_published := (na_published e \<or> next = am_total_size (na_metadata e))\<rparr>"
  let ?u = "t\<lparr>as_entries := hm_insert i ?e (as_entries t)\<rparr>"
  have kept: "files_kept s t" using write_file_kept [OF ok c] t by simp
  have same: "as_entries t = as_entries s" "as_disk_entries t = as_disk_entries s" by (simp_all add: t)
  have len: "length (file_contents t i) = next"
    using write_file_Written_length [OF w] c nx by (simp add: t next_chunk_def)
  have "0 < am_total_size (na_metadata e)" if "am_total_size (na_metadata e) < u64_max"
    using next_chunk_bound [OF c that] c by (cases bs) (auto simp: next_chunk_def)
  then have "artifact_ok sha ?e (file_contents t i)"
    using next_chunk_bound [OF c] next_chunk_unpublished [OF ok c] len nx digest c
    by (auto simp: artifact_ok_def next_chunk_def)
  moreover have "index_ok sha (as_entries s) t"
    using index_ok_kept [OF _ index_le_refl kept] ok by (simp add: store_ok_def)
  ultimately have "index_ok sha (as_entries ?u) ?u" by (simp add: index_ok_def same)
  moreover have "index_le (as_entries s) (as_entries ?u)"
    using c nx by (auto simp: same next_chunk_def entry_le_def intro!: index_le_insert)
  moreover have "files_kept s ?u" using kept files_kept_cong [of ?u t s] by simp
  ultimately show ?thesis
    unfolding confirm_chunk_def by (intro saved_or_moves) (simp_all add: same)
qed

lemma cut_kept:
  assumes "store_ok sha s" "next_chunk s i e offset bs" "t = snd (write_file w i offset bs s)"
  shows "files_kept s (set_file i (file_set_len (na_confirmed_offset e) (file_contents t i)) t)"
proof -
  have kept: "files_kept s t" using write_file_kept [OF assms(1,2)] assms(3) by simp
  show ?thesis
    unfolding files_kept_def
  proof (intro allI impI)
    fix j d
    assume d: "hm_get (as_entries s) j = Some d" "am_total_size (na_metadata d) < u64_max"
    then have k: "na_confirmed_offset d \<le> length (file_contents t j)
       \<and> take (na_confirmed_offset d) (file_contents t j) = take (na_confirmed_offset d) (file_contents s j)
       \<and> (na_published d \<longrightarrow> file_contents t j = file_contents s j)"
      using kept by (simp add: files_kept_def)
    show "na_confirmed_offset d \<le> length (file_contents
           (set_file i (file_set_len (na_confirmed_offset e) (file_contents t i)) t) j)
       \<and> take (na_confirmed_offset d) (file_contents
           (set_file i (file_set_len (na_confirmed_offset e) (file_contents t i)) t) j)
         = take (na_confirmed_offset d) (file_contents s j)
       \<and> (na_published d \<longrightarrow> file_contents
           (set_file i (file_set_len (na_confirmed_offset e) (file_contents t i)) t) j = file_contents s j)"
    proof (cases "j = i")
      case True
      then have "d = e" using d assms(2) by (simp add: next_chunk_def)
      then show ?thesis
        using k True next_chunk_unpublished [OF assms(1,2)] d by (simp add: file_set_len_short)
    qed (use k in simp)
  qed
qed

lemma append_chunk_moves:
  assumes ok: "store_ok sha s" and c: "next_chunk s i e offset bs"
  shows "store_moves sha s (snd (append_chunk sha io i e offset bs s))"
proof -
  obtain wrote t where wt: "write_file (ai_write io) i offset bs s = (wrote, t)" by fastforce
  then have t: "t = snd (write_file (ai_write io) i offset bs s)" by simp
  have kept: "store_moves sha s t"
    by (rule files_only_moves [OF ok]) (use write_file_kept [OF ok c] in \<open>simp_all add: t\<close>)
  have cut: "store_moves sha s (set_file i (file_set_len (na_confirmed_offset e) (file_contents t i)) t)"
    by (rule files_only_moves [OF ok]) (use cut_kept [OF ok c t] in \<open>simp_all add: t\<close>)
  have confirm: "store_moves sha s (snd (confirm_chunk io i e next t))"
    if "wrote" "next = na_confirmed_offset e + length bs"
      "next = am_total_size (na_metadata e) \<longrightarrow> sha (file_contents t i) = am_sha256 (na_metadata e)" for "next"
    using confirm_chunk_moves [OF ok c t _ that(2,3)] wt that(1) by simp
  show ?thesis
  proof (cases "na_confirmed_offset e + length bs = am_total_size (na_metadata e)")
    case True
    then show ?thesis
      using kept cut confirm [of "am_total_size (na_metadata e)"] wt
      by (cases wrote) (simp_all add: append_chunk_def Let_def)
  next
    case False
    then show ?thesis
      using kept cut confirm [OF _ refl] wt by (cases wrote) (simp_all add: append_chunk_def Let_def)
  qed
qed

lemma write_artifact_moves:
  assumes "store_ok sha s"
  shows "store_moves sha s (snd (write_artifact sha io peer i offset w s))"
proof (cases "hm_get (as_entries s) i")
  case (Some e)
  have "next_chunk s i e offset (aw_bytes w)"
    if "offset = na_confirmed_offset e" "aw_bytes w \<noteq> []" "aw_total_size w = am_total_size (na_metadata e)"
      "\<not> sat_add64 offset (length (aw_bytes w)) > aw_total_size w"
    using that Some by (simp add: next_chunk_def)
  then show ?thesis
    using Some assms store_moves_refl replay_chunk_moves append_chunk_moves
    by (simp add: write_artifact_def)
qed (simp add: write_artifact_def store_moves_refl assms)

lemma register_artifact_moves:
  assumes ok: "store_ok sha s"
  shows "store_moves sha s
     (snd (register_artifact sha save peer agent client job name media bytes digest s))"
proof -
  have move: "store_moves sha s (snd (saved_or save r (s\<lparr>as_entries := hm_insert i e (as_entries s)\<rparr>)))"
    if "artifact_ok sha e (file_contents s i)" "\<And>d. hm_get (as_entries s) i = Some d \<Longrightarrow> entry_le d e" for i e r
  proof (rule saved_or_moves)
    show "files_kept s (s\<lparr>as_entries := hm_insert i e (as_entries s)\<rparr>)"
      using files_kept_refl [OF ok] files_kept_cong by (metis artifact_store.select_convs(3)
          artifact_store.surjective artifact_store.update_convs(1))
    show "index_ok sha (as_entries (s\<lparr>as_entries := hm_insert i e (as_entries s)\<rparr>))
        (s\<lparr>as_entries := hm_insert i e (as_entries s)\<rparr>)"
      using ok that(1) by (simp add: index_ok_def store_ok_def file_contents_def)
  qed (use that(2) in \<open>auto intro!: index_le_insert\<close>)
  have "artifact_ok sha (e\<lparr>na_participants := P\<rparr>) (file_contents s i)" if "hm_get (as_entries s) i = Some e" for i e P
    using ok that by (simp add: store_ok_def index_ok_def artifact_ok_def)
  then show ?thesis
    using move store_moves_refl [OF ok]
    by (auto simp: register_artifact_def Let_def artifact_ok_def entry_le_def split: option.split)
qed

section \<open>The store as a machine\<close>

datatype artifact_op =
    RegisterOp save_outcome string "string option" "string option" string string string u64 string
  | WriteOp artifact_io string string u64 artifact_write
  | RestartOp

fun artifact_step :: "(string \<Rightarrow> string) \<Rightarrow> artifact_op \<Rightarrow> artifact_store \<Rightarrow> artifact_store" where
  "artifact_step sha (RegisterOp save peer agent client job name media bytes digest) s =
     snd (register_artifact sha save peer agent client job name media bytes digest s)"
| "artifact_step sha (WriteOp io peer i offset w) s = snd (write_artifact sha io peer i offset w s)"
| "artifact_step sha RestartOp s = reload_artifacts s"

lemma reload_ok: "store_ok sha s \<Longrightarrow> store_ok sha (reload_artifacts s)"
  by (simp add: store_ok_def reload_artifacts_def index_ok_def file_contents_def)

interpretation artifact_run: invariant_machine "artifact_step sha" "store_ok sha" for sha
proof
  fix s opn
  assume "store_ok sha s"
  then show "store_ok sha (artifact_step sha opn s)"
    using register_artifact_moves write_artifact_moves store_ok_moves reload_ok by (cases opn) auto
qed

section \<open>Properties\<close>

text \<open>
  C38. What the registry serves of an artifact is what was registered: in every state that uploads, failed
  writes, failed saves and restarts can lead to, a chunk that is handed out goes to a participant of
  the artifact and is the requested, non-empty stretch of a file of the registered length with the
  registered digest.
\<close>

theorem artifact_reads_are_authentic:
  assumes "s = fold (artifact_step sha) ops empty_store" and "len_total < u64_max"
    and "rs_artifact_chunk (read_artifact io peer i offset len len_total digest s) = Some ch"
  shows "\<exists>c e. hm_get (as_files s) i = Some c \<and> sha c = digest \<and> length c = len_total
     \<and> ac_bytes ch = take len (drop offset c) \<and> ac_bytes ch \<noteq> []
     \<and> hm_get (as_entries s) i = Some e \<and> peer \<in> na_participants e"
proof -
  have ok: "store_ok sha s" unfolding assms(1) by (rule artifact_run.run_inv [OF store_ok_empty])
  from assms(3) obtain e bs c where e: "hm_get (as_entries s) i = Some e" "peer \<in> na_participants e"
      "na_published e" "len_total = am_total_size (na_metadata e)" "digest = am_sha256 (na_metadata e)"
      "0 < len" "offset < len_total"
    and c: "hm_get (as_files s) i = Some c" "bs = take (min len (len_total - offset)) (drop offset c)"
    and ch: "ac_bytes ch = bs"
    by (auto simp: read_artifact_def read_exact_def split: option.splits if_splits)
  have "artifact_ok sha e (file_contents s i)" using ok e(1) by (simp add: store_ok_def index_ok_def)
  then have "artifact_ok sha e c" using c(1) by (simp add: file_contents_def)
  then have "sha c = digest" "length c = len_total" using e assms(2) by (auto simp: artifact_ok_def)
  moreover from this have "bs = take len (drop offset c)" using c(2) by (simp add: min_def)
  ultimately show ?thesis using e c ch by auto
qed

definition digest64 :: string where
  "digest64 = replicate 64 CHR ''d''"

definition sample_digest :: "string \<Rightarrow> string" where
  "sample_digest s = (if s = ''abc'' then digest64 else s)"

definition sample_chunk :: artifact_write where
  "sample_chunk = \<lparr>aw_total_size = 3, aw_sha256 = digest64, aw_chunk_sha256 = digest64, aw_bytes = ''abc''\<rparr>"

definition sample_io :: artifact_io where
  "sample_io = \<lparr>ai_write = Written, ai_read = True, ai_cut = True, ai_save = Saved\<rparr>"

definition sample_artifact_ops :: "artifact_op list" where
  "sample_artifact_ops = [
     RegisterOp Saved ''agent'' (Some ''agent'') (Some ''client'') ''job'' ''log'' ''text'' 3 digest64,
     WriteOp sample_io ''agent'' (artifact_id sample_digest ''job'' ''log'' digest64) 0 sample_chunk,
     RestartOp]"

lemma sample_artifact_read:
  "rs_artifact_chunk (read_artifact True ''client'' (artifact_id sample_digest ''job'' ''log'' digest64)
       1 5 3 digest64 (fold (artifact_step sample_digest) sample_artifact_ops empty_store))
     = Some \<lparr>ac_offset = 1, ac_total_size = 3, ac_sha256 = digest64, ac_bytes = ''bc''\<rparr>"
proof -
  have "valid_id ''log''" by code_simp
  moreover have "length digest64 = 64" by (simp add: digest64_def)
  moreover have "sample_digest ''abc'' = digest64" by (simp add: sample_digest_def)
  ultimately show ?thesis
    by (simp add: sample_artifact_ops_def register_artifact_def Let_def saved_or_def persist_index_def
        empty_store_def write_artifact_def sample_chunk_def sample_io_def MAX_ARTIFACT_CHUNK_def
        sat_add64_def u64_max_def append_chunk_def file_set_len_def file_overwrite_def file_contents_def
        set_file_def confirm_chunk_def reload_artifacts_def read_artifact_def read_exact_def)
qed

theorem artifact_reads_are_authentic_witness:
  "\<exists>c. sample_digest c = digest64 \<and> length c = 3 \<and> ''bc'' = take 5 (drop 1 c)"
  using artifact_reads_are_authentic [OF refl _ sample_artifact_read] by (auto simp: u64_max_def)

lemma ack_disk:
  assumes "rs_confirmed_offset (fst (saved_or w (offset_response n) t)) = Some k"
  shows "k = n \<and> as_disk_entries (snd (saved_or w (offset_response n) t)) = as_entries t
     \<and> as_entries (snd (saved_or w (offset_response n) t)) = as_entries t"
  using assms by (auto simp: saved_or_def persist_index_def offset_response_def split: bool.splits)

text \<open>
  Acknowledged bytes stay: once a write is answered with a confirmed offset, the saved index records
  at least that offset for the artifact.
\<close>

theorem upload_ack_is_durable:
  assumes "rs_confirmed_offset (fst (write_artifact sha io peer i offset w s)) = Some n"
  shows "\<exists>d. hm_get (as_disk_entries (snd (write_artifact sha io peer i offset w s))) i = Some d
     \<and> na_confirmed_offset d = n"
proof -
  from assms obtain e where e: "hm_get (as_entries s) i = Some e"
    by (cases "hm_get (as_entries s) i") (auto simp: write_artifact_def)
  from assms consider
      "write_artifact sha io peer i offset w s = replay_chunk io i e offset (aw_bytes w) s"
    | "write_artifact sha io peer i offset w s = append_chunk sha io i e offset (aw_bytes w) s"
    by (auto simp: write_artifact_def e split: if_splits)
  then show ?thesis
  proof cases
    case 1
    then show ?thesis using assms ack_disk e by (fastforce simp: replay_chunk_def split: if_splits)
  next
    case 2
    then obtain t where "fst (append_chunk sha io i e offset (aw_bytes w) s)
        = fst (confirm_chunk io i e (na_confirmed_offset e + length (aw_bytes w)) t)"
      "snd (append_chunk sha io i e offset (aw_bytes w) s)
        = snd (confirm_chunk io i e (na_confirmed_offset e + length (aw_bytes w)) t)"
      using assms by (auto simp: append_chunk_def Let_def split: prod.splits bool.splits if_splits)
    then show ?thesis using 2 assms ack_disk by (fastforce simp: confirm_chunk_def)
  qed
qed

lemma sample_upload_ack:
  "rs_confirmed_offset (fst (write_artifact sample_digest sample_io ''agent''
       (artifact_id sample_digest ''job'' ''log'' digest64) 0 sample_chunk
       (fold (artifact_step sample_digest) (take 1 sample_artifact_ops) empty_store))) = Some 3"
proof -
  have "valid_id ''log''" by code_simp
  moreover have "length digest64 = 64" by (simp add: digest64_def)
  moreover have "sample_digest ''abc'' = digest64" by (simp add: sample_digest_def)
  ultimately show ?thesis
    by (simp add: sample_artifact_ops_def register_artifact_def Let_def saved_or_def persist_index_def
        empty_store_def write_artifact_def sample_chunk_def sample_io_def MAX_ARTIFACT_CHUNK_def
        sat_add64_def u64_max_def append_chunk_def file_set_len_def file_overwrite_def file_contents_def
        set_file_def confirm_chunk_def offset_response_def)
qed

theorem upload_ack_is_durable_witness:
  "\<exists>d. hm_get (as_disk_entries (snd (write_artifact sample_digest sample_io ''agent''
       (artifact_id sample_digest ''job'' ''log'' digest64) 0 sample_chunk
       (fold (artifact_step sample_digest) (take 1 sample_artifact_ops) empty_store))))
       (artifact_id sample_digest ''job'' ''log'' digest64) = Some d \<and> na_confirmed_offset d = 3"
  by (rule upload_ack_is_durable [OF sample_upload_ack])

text \<open>What a saved entry keeps, whatever comes after.\<close>

definition saved_prefix_kept :: "string \<Rightarrow> network_artifact \<Rightarrow> artifact_store \<Rightarrow> artifact_store \<Rightarrow> bool" where
  "saved_prefix_kept i d s t \<longleftrightarrow> (\<exists>d'. hm_get (as_disk_entries t) i = Some d' \<and> entry_le d d')
     \<and> take (na_confirmed_offset d) (file_contents t i) = take (na_confirmed_offset d) (file_contents s i)"

lemma take_le_eq: "take n x = take n y \<Longrightarrow> m \<le> n \<Longrightarrow> take m x = take m y"
  by (metis min.absorb1 take_take)

lemma saved_prefix_mono: "saved_prefix_kept i e s t \<Longrightarrow> entry_le d e \<Longrightarrow> saved_prefix_kept i d s t"
  unfolding saved_prefix_kept_def using entry_le_trans take_le_eq by (metis entry_le_def)

lemma moves_keep_prefix:
  assumes ok: "store_ok sha s" and m: "store_moves sha s t"
    and d: "hm_get (as_disk_entries s) i = Some d" "am_total_size (na_metadata d) < u64_max"
  shows "saved_prefix_kept i d s t"
proof -
  obtain e where e: "hm_get (as_entries s) i = Some e" "entry_le d e"
    using ok d(1) by (auto simp: store_ok_def index_le_def)
  have "take (na_confirmed_offset e) (file_contents t i) = take (na_confirmed_offset e) (file_contents s i)"
    using m e d(2) by (auto simp: store_moves_def files_kept_def entry_le_def)
  then have "take (na_confirmed_offset d) (file_contents t i) = take (na_confirmed_offset d) (file_contents s i)"
    using e(2) take_le_eq by (auto simp: entry_le_def)
  moreover have "\<exists>f. hm_get (as_entries t) i = Some f \<and> entry_le e f"
    using m e(1) by (simp add: store_moves_def index_le_def)
  ultimately show ?thesis
    using m d(1) e(2) entry_le_trans by (auto simp: saved_prefix_kept_def store_moves_def)
qed

lemma step_keeps_prefix:
  assumes "store_ok sha s" "hm_get (as_disk_entries s) i = Some d" "am_total_size (na_metadata d) < u64_max"
  shows "saved_prefix_kept i d s (artifact_step sha opn s)"
  using assms moves_keep_prefix [OF assms(1) _ assms(2,3)]
  by (cases opn) (auto simp: register_artifact_moves write_artifact_moves reload_artifacts_def
      saved_prefix_kept_def file_contents_def)

text \<open>
  Uploads can be resumed: the part of an artifact that the saved index confirms is never lost or
  changed, whatever further uploads, failing writes, failing saves and restarts follow, and the
  saved offset never goes back.
\<close>

theorem confirmed_bytes_are_stable:
  assumes "store_ok sha s" and "hm_get (as_disk_entries s) i = Some d"
    and "am_total_size (na_metadata d) < u64_max"
  shows "saved_prefix_kept i d s (fold (artifact_step sha) ops s)"
  using assms
proof (induction ops arbitrary: s d)
  case Nil
  then show ?case by (simp add: saved_prefix_kept_def)
next
  case (Cons opn ops)
  let ?t = "artifact_step sha opn s"
  from step_keeps_prefix [OF Cons.prems] obtain d' where d': "hm_get (as_disk_entries ?t) i = Some d'"
      "entry_le d d'"
    and p: "take (na_confirmed_offset d) (file_contents ?t i) = take (na_confirmed_offset d) (file_contents s i)"
    by (auto simp: saved_prefix_kept_def)
  have "saved_prefix_kept i d' ?t (fold (artifact_step sha) ops ?t)"
    using Cons.IH [OF artifact_run.step_inv [OF Cons.prems(1)] d'(1)] d'(2) Cons.prems(3)
    by (simp add: entry_le_def)
  from saved_prefix_mono [OF this d'(2)] show ?case using p by (simp add: saved_prefix_kept_def)
qed

text \<open>
  Registering an artifact again with another length is acknowledged with metadata the store does not
  hold: the identifier leaves the length out, the entry keeps the old one, and every upload that
  follows the acknowledged metadata is refused.
\<close>

theorem reregistration_acknowledges_wrong_metadata:
  assumes "hm_get (as_entries s) (artifact_id sha job name digest) = Some e" and "agent = Some peer"
    and "am_total_size (na_metadata e) \<noteq> len_total" and "0 < len_total" and "length digest = 64"
    and "valid_id name" and "media \<noteq> []"
  shows "let rt = register_artifact sha Saved peer agent client job name media len_total digest s in \<exists>m. rs_artifact_metadata (fst rt) = Some m \<and> rs_accepted (fst rt)
     \<and> am_total_size m = len_total
     \<and> (\<forall>io offset w. aw_total_size w = am_total_size m \<longrightarrow>
          fst (write_artifact sha io peer (am_id m) offset w (snd rt)) = error_response ''artifact_metadata_mismatch'')"
  using assms
  by (simp add: register_artifact_def Let_def saved_or_def persist_index_def write_artifact_def
      ok_response_def)

definition sample_entry :: network_artifact where
  "sample_entry = \<lparr>na_metadata = \<lparr>am_id = artifact_id sample_digest ''job'' ''log'' digest64,
     am_job_id = ''job'', am_name = ''log'', am_media_type = ''text'', am_total_size = 3, am_sha256 = digest64\<rparr>,
     na_participants = {''agent''}, na_confirmed_offset = 0, na_published = False\<rparr>"

definition registered_store :: artifact_store where
  "registered_store = empty_store\<lparr>as_entries := [(artifact_id sample_digest ''job'' ''log'' digest64, sample_entry)]\<rparr>"

theorem reregistration_acknowledges_wrong_metadata_witness:
  "let rt = register_artifact sample_digest Saved ''agent'' (Some ''agent'') None ''job'' ''log'' ''text'' 4
       digest64 registered_store
   in \<exists>m. rs_artifact_metadata (fst rt) = Some m \<and> rs_accepted (fst rt) \<and> am_total_size m = 4
     \<and> (\<forall>io offset w. aw_total_size w = am_total_size m \<longrightarrow>
          fst (write_artifact sample_digest io ''agent'' (am_id m) offset w (snd rt))
            = error_response ''artifact_metadata_mismatch'')"
proof (rule reregistration_acknowledges_wrong_metadata)
  show "hm_get (as_entries registered_store) (artifact_id sample_digest ''job'' ''log'' digest64) = Some sample_entry"
    by (simp add: registered_store_def hm_get_def)
  show "valid_id ''log''" by code_simp
qed (simp_all add: sample_entry_def digest64_def)

lemma sample_disk:
  "hm_get (as_disk_entries (fold (artifact_step sample_digest) sample_artifact_ops empty_store))
     (artifact_id sample_digest ''job'' ''log'' digest64)
   = Some \<lparr>na_metadata = \<lparr>am_id = artifact_id sample_digest ''job'' ''log'' digest64, am_job_id = ''job'',
       am_name = ''log'', am_media_type = ''text'', am_total_size = 3, am_sha256 = digest64\<rparr>,
     na_participants = {''agent'', ''client''}, na_confirmed_offset = 3, na_published = True\<rparr>"
proof -
  have "valid_id ''log''" by code_simp
  moreover have "length digest64 = 64" by (simp add: digest64_def)
  moreover have "sample_digest ''abc'' = digest64" by (simp add: sample_digest_def)
  ultimately show ?thesis
    by (simp add: sample_artifact_ops_def register_artifact_def Let_def saved_or_def persist_index_def
        empty_store_def write_artifact_def sample_chunk_def sample_io_def MAX_ARTIFACT_CHUNK_def
        sat_add64_def u64_max_def append_chunk_def file_set_len_def file_overwrite_def file_contents_def
        set_file_def confirm_chunk_def reload_artifacts_def)
qed

theorem confirmed_bytes_are_stable_witness:
  "take 3 (file_contents (fold (artifact_step sample_digest) (sample_artifact_ops @ [RestartOp]) empty_store)
       (artifact_id sample_digest ''job'' ''log'' digest64))
   = take 3 (file_contents (fold (artifact_step sample_digest) sample_artifact_ops empty_store)
       (artifact_id sample_digest ''job'' ''log'' digest64))"
  using confirmed_bytes_are_stable [OF artifact_run.run_inv [OF store_ok_empty] sample_disk, of "[RestartOp]"]
  by (simp add: saved_prefix_kept_def u64_max_def)

end
