(* ===== verification/RegistryState.thy ===== *)
theory RegistryState
  imports LeaseBook ArtifactStore ControllerSession Topology
begin

text \<open>
  The state the registry keeps and what it does to it outside the requests
  (\<open>registry_runtime.rs\<close>): the durable job table, the inventory of hosts, saving both halves of the
  state, the reconciliation of writer fences with the job table at start-up, and the restoration of a
  fence when an agent reports progress. Requests are in \<open>RegistryJobs\<close> and \<open>RegistryServer\<close>.

  The state directory is modelled by the copies of the job table and of the lease book it holds, and
  the outcome of a save is an argument.
\<close>

section \<open>State\<close>

record registry_entry =
  ge_host :: host_snapshot
  ge_heartbeat :: u64

definition apple_host_is_current :: "registry_entry \<Rightarrow> u64 \<Rightarrow> u64 \<Rightarrow> bool" where
  "apple_host_is_current e instant offline = (instant - ge_heartbeat e < offline)"

record durable_state =
  st_requests :: "(string, string) hash_map"
  st_jobs :: "(string, network_event list) hash_map"
  st_artifacts :: "(string, string) hash_map"
  st_audit :: "audit_record list"
  st_pending :: "(string, run_request) hash_map"
  st_apple_pending :: "(string, apple_request) hash_map"
  st_apple_requests :: "(string, string) hash_map"
  st_apple_operations :: "(string, apple_request) hash_map"
  st_apple_hosts :: "(string, string) hash_map"
  st_job_clients :: "(string, string) hash_map"
  st_job_agents :: "(string, string) hash_map"
  st_host_peers :: "(string, string) hash_map"
  st_device_peers :: "(string, string) hash_map"
  st_dispatched :: "string set"
  st_acknowledged :: "string set"
  st_cancelled :: "string list"
  st_recovery_error :: "string option"

definition durable_state_default :: durable_state where
  "durable_state_default = \<lparr>st_requests = [], st_jobs = [], st_artifacts = [], st_audit = [],
     st_pending = [], st_apple_pending = [], st_apple_requests = [], st_apple_operations = [],
     st_apple_hosts = [], st_job_clients = [], st_job_agents = [], st_host_peers = [],
     st_device_peers = [], st_dispatched = {}, st_acknowledged = {}, st_cancelled = [],
     st_recovery_error = None\<rparr>"

record registry =
  rg_entries :: "(string, registry_entry) hash_map"
  rg_state :: durable_state
  rg_leases :: lease_book
  rg_artifacts :: artifact_store
  rg_transport :: transport
  rg_disk_state :: durable_state
  rg_disk_leases :: lease_book

text \<open>What the registry is started with, and what it asks of libraries: the digest in hexadecimal, the
  cryptography, and the encodings.\<close>

record registry_config =
  gc_offline_after :: u64
  gc_agent_peers :: "string set"
  gc_sha :: "string \<Rightarrow> string"
  gc_crypto :: crypto
  gc_codec :: session_codec
  gc_assertion_json :: "mesh_approval_assertion \<Rightarrow> string"

section \<open>Saving\<close>

text \<open>The surroundings of one critical section: the two clocks, randomness, and the outcome of the saves
  it makes.\<close>

record env =
  ev_now :: u64
  ev_instant :: u64
  ev_random :: string
  ev_leases_save :: save_outcome
  ev_state_save :: save_outcome
  ev_leases_resave :: save_outcome
  ev_files :: artifact_io

definition persist_leases :: "save_outcome \<Rightarrow> registry \<Rightarrow> bool \<times> registry" where
  "persist_leases w g =
     (w = Saved, if w = Unsaved then g else g\<lparr>rg_disk_leases := rg_leases g\<rparr>)"

definition persist_state :: "save_outcome \<Rightarrow> registry \<Rightarrow> bool \<times> registry" where
  "persist_state w g =
     (if st_recovery_error (rg_state g) \<noteq> None then (False, g)
      else (w = Saved, if w = Unsaved then g else g\<lparr>rg_disk_state := rg_state g\<rparr>))"

abbreviation update_state :: "(durable_state \<Rightarrow> durable_state) \<Rightarrow> registry \<Rightarrow> registry" where
  "update_state f g \<equiv> g\<lparr>rg_state := f (rg_state g)\<rparr>"

abbreviation update_leases :: "(lease_book \<Rightarrow> lease_book) \<Rightarrow> registry \<Rightarrow> registry" where
  "update_leases f g \<equiv> g\<lparr>rg_leases := f (rg_leases g)\<rparr>"

lemma persist_leases_simps [simp]:
  "rg_state (snd (persist_leases w g)) = rg_state g"
  "rg_leases (snd (persist_leases w g)) = rg_leases g"
  "rg_entries (snd (persist_leases w g)) = rg_entries g"
  "rg_transport (snd (persist_leases w g)) = rg_transport g"
  "rg_artifacts (snd (persist_leases w g)) = rg_artifacts g"
  "rg_disk_state (snd (persist_leases w g)) = rg_disk_state g"
  "fst (persist_leases w g) \<longleftrightarrow> w = Saved"
  by (simp_all add: persist_leases_def)

lemma persist_state_simps [simp]:
  "rg_state (snd (persist_state w g)) = rg_state g"
  "rg_leases (snd (persist_state w g)) = rg_leases g"
  "rg_entries (snd (persist_state w g)) = rg_entries g"
  "rg_transport (snd (persist_state w g)) = rg_transport g"
  "rg_artifacts (snd (persist_state w g)) = rg_artifacts g"
  "rg_disk_leases (snd (persist_state w g)) = rg_disk_leases g"
  "fst (persist_state w g) \<longleftrightarrow> w = Saved \<and> st_recovery_error (rg_state g) = None"
  by (simp_all add: persist_state_def)

text \<open>The outcome of a save, as a condition: what handlers branch on.\<close>

lemma case_persist_leases [simp]:
  "case_prod f (persist_leases w g) = f (w = Saved) (snd (persist_leases w g))"
  by (simp add: persist_leases_def)

lemma case_persist_state [simp]:
  "case_prod f (persist_state w g)
     = f (w = Saved \<and> st_recovery_error (rg_state g) = None) (snd (persist_state w g))"
  by (cases "st_recovery_error (rg_state g)") (simp_all add: persist_state_def)

lemma persist_state_disk:
  "fst (persist_state w g) \<Longrightarrow> rg_disk_state (snd (persist_state w g)) = rg_state g"
  by (auto simp: persist_state_def split: if_splits)

lemma persist_leases_disk:
  "fst (persist_leases w g) \<Longrightarrow> rg_disk_leases (snd (persist_leases w g)) = rg_leases g"
  by (auto simp: persist_leases_def split: if_splits)

section \<open>Reconciliation\<close>

definition orphaned_writer :: "durable_state \<Rightarrow> device_writer \<Rightarrow> bool" where
  "orphaned_writer s w = (dw_job_id w \<notin> st_acknowledged s \<or> \<not> hm_has (st_apple_pending s) (dw_job_id w))"

text \<open>The end of a job's fence on a device: a release and a detach that waited for it take effect.\<close>

definition drop_writer :: "u64 \<Rightarrow> string \<Rightarrow> durable_state \<times> lease_book \<Rightarrow> durable_state \<times> lease_book" where
  "drop_writer now device sb =
     (case sb of (s, b) \<Rightarrow>
        let b1 = b\<lparr>writers := hm_remove device (writers b)\<rparr>;
            b2 = (if device \<in> pending_release b1
                  then release_device now device (b1\<lparr>pending_release := pending_release b1 - {device}\<rparr>)
                  else b1)
        in if device \<in> pending_detach b2
           then (s\<lparr>st_device_peers := hm_remove device (st_device_peers s)\<rparr>,
                 b2\<lparr>pending_detach := pending_detach b2 - {device}\<rparr>)
           else (s, b2))"

definition reconcile_runtime_state ::
    "u64 \<Rightarrow> durable_state \<Rightarrow> lease_book \<Rightarrow> bool \<times> durable_state \<times> lease_book" where
  "reconcile_runtime_state now s b =
     (let orphaned = hm_keys (filter (\<lambda>(d, w). orphaned_writer s w) (writers b))
      in (orphaned \<noteq> [], fold (drop_writer now) orphaned (s, b)))"

section \<open>Fences restored by progress reports\<close>

definition restore_acknowledged_writer ::
    "u64 \<Rightarrow> durable_state \<Rightarrow> string \<Rightarrow> lease_book \<Rightarrow> (string + bool) \<times> lease_book" where
  "restore_acknowledged_writer now s job b =
     (case hm_get (st_apple_pending s) job of
        None \<Rightarrow> (Err ''unknown_job'', b)
      | Some r \<Rightarrow>
     if \<not> mutates_device (ar_operation r) then (Ok False, b)
     else let b1 = expire now b in
     case (ar_device_id r, ar_lease_id r, hm_get (st_job_clients s) job) of
       (Some device, Some lease_id, Some client) \<Rightarrow>
         if \<not> is_some_and (\<lambda>l. dl_id l = lease_id \<and> dl_client_id l = client) (hm_get (active b1) device)
         then (Err ''lease_inactive'', b1)
         else (case hm_get (writers b1) device of
                 Some w \<Rightarrow> if dw_job_id w = job then (Ok False, b1) else (Err ''device_writer_busy'', b1)
               | None \<Rightarrow> (Ok True, b1\<lparr>writers := hm_insert device \<lparr>dw_job_id = job\<rparr> (writers b1)\<rparr>))
     | _ \<Rightarrow> (Err ''lease_inactive'', b1))"

section \<open>Starting\<close>

text \<open>
  What start-up reads back: the job table with its recovery error when the file is corrupt or cannot
  be read (\<open>load_state\<close>), the lease book, expired and saved again (\<open>LeaseBook::try_load\<close>), and the
  reconciliation of the two. \<open>None\<close> means that the registry does not start.
\<close>

datatype 'a loaded = Loaded 'a | Absent | Corrupt | Unreadable

fun load_state :: "durable_state loaded \<Rightarrow> durable_state" where
  "load_state (Loaded s) = s"
| "load_state Absent = durable_state_default"
| "load_state Corrupt = durable_state_default\<lparr>st_recovery_error := Some ''recovery_state_corrupt''\<rparr>"
| "load_state Unreadable = durable_state_default\<lparr>st_recovery_error := Some ''recovery_state_unreadable''\<rparr>"

fun try_load_leases :: "u64 \<Rightarrow> lease_book loaded \<Rightarrow> lease_book option" where
  "try_load_leases now (Loaded b) = Some (expire now b)"
| "try_load_leases now Absent = Some (expire now lease_book_default)"
| "try_load_leases now _ = None"

definition start_registry ::
    "env \<Rightarrow> bool \<Rightarrow> durable_state loaded \<Rightarrow> lease_book loaded \<Rightarrow> registry \<Rightarrow> registry option" where
  "start_registry ev reject_corrupt ls lb g0 =
     (let s = load_state ls in
      if reject_corrupt \<and> st_recovery_error s \<noteq> None then None
      else case try_load_leases (ev_now ev) lb of
        None \<Rightarrow> None
      | Some b \<Rightarrow>
     (case persist_leases (ev_leases_save ev) 
              (g0\<lparr>rg_entries := [], rg_state := s, rg_leases := b,
                  rg_artifacts := reload_artifacts (rg_artifacts g0)\<rparr>) of
        (False, _) \<Rightarrow> None
      | (True, g1) \<Rightarrow>
     (case reconcile_runtime_state (ev_now ev) s b of (changed, s2, b2) \<Rightarrow>
        let g2 = g1\<lparr>rg_state := s2, rg_leases := b2\<rparr> in
        if \<not> changed then Some g2
        else case persist_state (ev_state_save ev) g2 of
          (False, _) \<Rightarrow> None
        | (True, g3) \<Rightarrow>
        (case persist_leases (ev_leases_resave ev) g3 of
           (False, _) \<Rightarrow> None | (True, g4) \<Rightarrow> Some g4))))"

end
