(* ===== verification/RegistryJobs.thy ===== *)
theory RegistryJobs
  imports RegistryState
begin

text \<open>
  The requests of the registry (\<open>registry_runtime.rs\<close>: \<open>handle\<close>, \<open>run\<close>): heartbeats of agents, jobs,
  progress, cancellation, artifacts and leases, each as it changes the state under the locks it takes.

  A handler returns \<open>None\<close> where the source panics (\<open>unwrap\<close> of a failed save of the job table, or of a
  signature). A reply either keeps the connection open, closes it (\<open>return write_response\<close>), or is
  still to come: the synchronous \<open>Run\<close> request waits for its job. A heartbeat and an Apple submission
  take their locks several times; each critical section is a function of its own, so that requests
  of other connections may come in between.
\<close>

section \<open>Replies\<close>

datatype reply =
    Reply response
  | ReplyAndClose response
  | AwaitJob string

abbreviation refuse :: "string \<Rightarrow> reply" where
  "refuse e \<equiv> ReplyAndClose (error_response e)"

definition push_job_event :: "string \<Rightarrow> string \<Rightarrow> string \<Rightarrow> durable_state \<Rightarrow> durable_state" where
  "push_job_event job kind payload s =
     s\<lparr>st_jobs := hm_insert job
         ((case hm_get (st_jobs s) job of None \<Rightarrow> [] | Some es \<Rightarrow> es)
            @ [\<lparr>ne_sequence = 1, ne_kind = kind, ne_payload = payload\<rparr>]) (st_jobs s)\<rparr>"

section \<open>Heartbeats\<close>

definition connected_devices :: "host_snapshot \<Rightarrow> string list" where
  "connected_devices h = remdups (map ds_id (filter (\<lambda>d. ds_state d = ''connected'') (hs_devices h)))"

definition owned_by_other :: "string \<Rightarrow> string option \<Rightarrow> bool" where
  "owned_by_other peer owner = is_some_and (\<lambda>o'. o' \<noteq> peer) owner"

text \<open>A device that disappeared from the inventory; while a job writes to it, it stays with its agent.\<close>

definition detach_one ::
    "u64 \<Rightarrow> string \<Rightarrow> peers \<times> lease_book \<Rightarrow> peers \<times> lease_book" where
  "detach_one now device db =
     (case db of (dp, b) \<Rightarrow>
        (if hm_has (writers b) device then dp else hm_remove device dp, detach_inventory now device b))"

definition heartbeat_inventory ::
    "registry_config \<Rightarrow> env \<Rightarrow> string \<Rightarrow> host_snapshot \<Rightarrow> registry \<Rightarrow> (reply + unit) \<times> registry" where
  "heartbeat_inventory cfg ev peer host g =
     (if peer \<notin> gc_agent_peers cfg then (Err (refuse ''agent_access_denied''), g)
      else if \<not> is_ok (validate_host_snapshot host) then (Err (refuse ''invalid_host_inventory''), g)
      else let connected = connected_devices host; s = rg_state g in
      if owned_by_other peer (hm_get (st_host_peers s) (hs_id host))
         \<or> list_ex (\<lambda>d. owned_by_other peer (hm_get (st_device_peers s) d)) connected
      then (Err (refuse ''agent_identity_mismatch''), g)
      else let
        detached = map fst (filter (\<lambda>(d, p). p = peer \<and> d \<notin> set connected) (st_device_peers s));
        dp = fold (\<lambda>d. hm_insert d peer) connected (st_device_peers s);
        b = (rg_leases g)\<lparr>pending_detach := pending_detach (rg_leases g) - set connected\<rparr>;
        (dp', b') = fold (detach_one (ev_now ev)) detached (dp, b);
        g1 = g\<lparr>rg_state := s\<lparr>st_host_peers := hm_insert (hs_id host) peer (st_host_peers s),
                             st_device_peers := dp'\<rparr>, rg_leases := b'\<rparr>
      in case persist_leases (ev_leases_save ev) g1 of
           (True, g2) \<Rightarrow> (Ok (), g2)
         | (False, g2) \<Rightarrow> (Err (refuse ''persistence_failed''), g2))"

definition heartbeat_expire :: "env \<Rightarrow> registry \<Rightarrow> (reply + unit) \<times> registry" where
  "heartbeat_expire ev g =
     (case persist_leases (ev_leases_save ev) (update_leases (expire (ev_now ev)) g) of
        (True, g1) \<Rightarrow> (Ok (), g1)
      | (False, g1) \<Rightarrow> (Err (refuse ''persistence_failed''), g1))"

definition heartbeat_publish :: "env \<Rightarrow> host_snapshot \<Rightarrow> registry \<Rightarrow> registry" where
  "heartbeat_publish ev host g =
     g\<lparr>rg_entries := hm_insert (hs_id host)
         \<lparr>ge_host = host\<lparr>hs_status := ''online''\<rparr>, ge_heartbeat = ev_instant ev\<rparr> (rg_entries g)\<rparr>"

subsection \<open>Dispatch\<close>

definition find_pending :: "string \<Rightarrow> durable_state \<Rightarrow> (string \<times> run_request) option" where
  "find_pending host s =
     List.find (\<lambda>(job, r). rr_host_id r = host \<and> job \<notin> st_dispatched s) (st_pending s)"

text \<open>A job that changes a device waits while another job is writing to it.\<close>

definition fence_free :: "lease_book \<Rightarrow> string \<Rightarrow> apple_request \<Rightarrow> bool" where
  "fence_free b job r =
     (\<not> mutates_device (ar_operation r)
      \<or> is_none_or (\<lambda>d. is_none_or (\<lambda>w. dw_job_id w = job) (hm_get (writers b) d)) (ar_device_id r))"

definition find_apple :: "string \<Rightarrow> durable_state \<Rightarrow> lease_book \<Rightarrow> (string \<times> apple_request) option" where
  "find_apple host s b =
     List.find (\<lambda>(job, r). hm_get (st_apple_hosts s) job = Some host \<and> job \<notin> st_acknowledged s
       \<and> is_none_or (fence_free b job) (hm_get (st_apple_pending s) job)) (st_apple_pending s)"

definition grant_signature :: "registry_config \<Rightarrow> registry \<Rightarrow> string \<Rightarrow> string" where
  "grant_signature cfg g payload =
     (case sign_message (gc_crypto cfg) payload (rg_transport g) of Inr s \<Rightarrow> s | Inl _ \<Rightarrow> [])"

definition cannot_sign :: "registry_config \<Rightarrow> registry \<Rightarrow> lease_grant \<Rightarrow> bool" where
  "cannot_sign cfg g grant =
     (\<not> is_ok (sign_message (gc_crypto cfg) (signed_payload grant) (rg_transport g)))"

datatype fencing = Fenced lease_grant | FenceNotSaved | LeaseLost

text \<open>The lease of the job's client is looked up again, the grant signed, and the device fenced.\<close>

definition fence_job ::
    "registry_config \<Rightarrow> env \<Rightarrow> string \<Rightarrow> string \<Rightarrow> string \<Rightarrow> registry \<Rightarrow> (fencing \<times> registry) option" where
  "fence_job cfg ev job device lease_id g =
     (let b = expire (ev_now ev) (rg_leases g); g1 = g\<lparr>rg_leases := b\<rparr>; s = rg_state g in
      case hm_get (active b) device of
        None \<Rightarrow> Some (LeaseLost, g1)
      | Some l \<Rightarrow>
          if dl_id l \<noteq> lease_id \<or> hm_get (st_job_clients s) job \<noteq> Some (dl_client_id l)
          then Some (LeaseLost, g1)
          else let grant = signed_grant (grant_signature cfg g) (ev_now ev) job l in
            if cannot_sign cfg g grant then None
            else let g2 = update_leases
                     (\<lambda>b. b\<lparr>writers := hm_insert device \<lparr>dw_job_id = job\<rparr> (writers b)\<rparr>) g1
              in (case persist_leases (ev_leases_save ev) g2 of
                    (True, g3) \<Rightarrow> Some (Fenced grant, g3)
                  | (False, g3) \<Rightarrow> Some (FenceNotSaved, g3)))"

definition mark_dispatched :: "string \<Rightarrow> durable_state \<Rightarrow> durable_state" where
  "mark_dispatched job s = s\<lparr>st_dispatched := insert job (st_dispatched s)\<rparr>"

definition reject_job :: "string \<Rightarrow> durable_state \<Rightarrow> durable_state" where
  "reject_job job s =
     push_job_event job ''rejected'' ''lease_inactive''
       (s\<lparr>st_apple_pending := hm_remove job (st_apple_pending s)\<rparr>)"

text \<open>The save that ends a heartbeat; when it fails, the dispatch is undone and the fences reconciled.\<close>

definition finish_dispatch :: "env \<Rightarrow> response \<Rightarrow> registry \<Rightarrow> reply \<times> registry" where
  "finish_dispatch ev r g =
     (case persist_state (ev_state_save ev) g of
        (True, g1) \<Rightarrow> (Reply (r\<lparr>rs_cancel_jobs := st_cancelled (rg_state g)\<rparr>), g1)
      | (False, g1) \<Rightarrow>
          (refuse ''persistence_failed'',
           case rs_job_id r of
             None \<Rightarrow> g1
           | Some job \<Rightarrow>
               let s = (rg_state g1)\<lparr>st_dispatched := st_dispatched (rg_state g1) - {job}\<rparr>;
                   (_, s', b') = reconcile_runtime_state (ev_now ev) s (rg_leases g1)
               in snd (persist_leases (ev_leases_resave ev) (g1\<lparr>rg_state := s', rg_leases := b'\<rparr>))))"

definition fence_target :: "apple_request \<Rightarrow> (string \<times> string) option" where
  "fence_target r =
     (if mutates_device (ar_operation r) then
        (case (ar_device_id r, ar_lease_id r) of (Some d, Some l) \<Rightarrow> Some (d, l) | _ \<Rightarrow> None)
      else None)"

definition dispatch_apple ::
    "registry_config \<Rightarrow> env \<Rightarrow> string \<Rightarrow> apple_request \<Rightarrow> response \<Rightarrow> registry \<Rightarrow> (reply \<times> registry) option" where
  "dispatch_apple cfg ev job op r g =
     (let r1 = r\<lparr>rs_apple_operation := Some op, rs_job_id := Some job\<rparr> in
      case fence_target op of
        None \<Rightarrow> Some (finish_dispatch ev r1 (update_state (mark_dispatched job) g))
      | Some (device, lease_id) \<Rightarrow>
          (case fence_job cfg ev job device lease_id g of
             None \<Rightarrow> None
           | Some (Fenced grant, g1) \<Rightarrow>
               Some (finish_dispatch ev (r1\<lparr>rs_lease_grant := Some grant\<rparr>)
                       (update_state (mark_dispatched job) g1))
           | Some (FenceNotSaved, g1) \<Rightarrow> Some (refuse ''persistence_failed'', g1)
           | Some (LeaseLost, g1) \<Rightarrow>
               Some (finish_dispatch ev (r1\<lparr>rs_apple_operation := None\<rparr>)
                       (update_state (reject_job job) g1))))"

definition heartbeat_dispatch ::
    "registry_config \<Rightarrow> env \<Rightarrow> string \<Rightarrow> registry \<Rightarrow> (reply \<times> registry) option" where
  "heartbeat_dispatch cfg ev host g =
     (let (r, g0) = (case find_pending host (rg_state g) of
            None \<Rightarrow> (ok_response, g)
          | Some (job, op) \<Rightarrow> (ok_response\<lparr>rs_operation := Some op, rs_job_id := Some job\<rparr>,
                               update_state (mark_dispatched job) g))
      in case find_apple host (rg_state g0) (rg_leases g0) of
           None \<Rightarrow> Some (finish_dispatch ev r g0)
         | Some (job, op) \<Rightarrow> dispatch_apple cfg ev job op r g0)"

text \<open>One heartbeat, its sections in the order the code takes them.\<close>

definition heartbeat ::
    "registry_config \<Rightarrow> env \<Rightarrow> env \<Rightarrow> env \<Rightarrow> string \<Rightarrow> host_snapshot \<Rightarrow> registry \<Rightarrow> (reply \<times> registry) option" where
  "heartbeat cfg ev1 ev2 ev3 peer host g =
     (case heartbeat_inventory cfg ev1 peer host g of
        (Inl r, g1) \<Rightarrow> Some (r, g1)
      | (Inr _, g1) \<Rightarrow>
     (case heartbeat_expire ev2 g1 of
        (Inl r, g2) \<Rightarrow> Some (r, g2)
      | (Inr _, g2) \<Rightarrow> heartbeat_dispatch cfg ev3 (hs_id host) (heartbeat_publish ev2 host g2)))"

section \<open>Manifest jobs\<close>

definition job_response :: "durable_state \<Rightarrow> string \<Rightarrow> response" where
  "job_response s job =
     ok_response\<lparr>rs_events := (case hm_get (st_jobs s) job of None \<Rightarrow> [] | Some es \<Rightarrow> es),
       rs_audit := filter (\<lambda>a. au_job_id a = job) (st_audit s), rs_job_id := Some job,
       rs_artifact := hm_get (st_artifacts s) job\<rparr>"

text \<open>Unlike \<open>valid_id\<close>, the check of a manifest path lets the empty path pass.\<close>

definition manifest_path_ok :: "string \<Rightarrow> bool" where
  "manifest_path_ok p = (\<not> is_absolute p \<and> list_all is_normal (path_components p))"

definition run_submit ::
    "registry_config \<Rightarrow> env \<Rightarrow> run_request \<Rightarrow> registry \<Rightarrow> (reply \<times> registry) option" where
  "run_submit cfg ev r g =
     (let s = rg_state g in
      case hm_get (st_requests s) (rr_request_id r) of
        Some job \<Rightarrow> Some (Reply (job_response s job), g)
      | None \<Rightarrow>
     if \<not> valid_id (rr_host_id r) \<or> \<not> valid_id (rr_workspace_id r)
     then Some (Reply (ok_response\<lparr>rs_accepted := False\<rparr>), g)
     else let job = ''job-'' @ gc_sha cfg (rr_request_id r) in
     if \<not> list_all (\<lambda>f. manifest_path_ok (mu_path f)) (rr_manifest r)
     then Some (Reply (error_response ''invalid_manifest_path''), g)
     else (case persist_state (ev_state_save ev) (update_state (\<lambda>s. s\<lparr>
             st_requests := hm_insert (rr_request_id r) job (st_requests s),
             st_pending := hm_insert job r (st_pending s)\<rparr>) g) of
             (True, g1) \<Rightarrow> Some (AwaitJob job, g1)
           | (False, _) \<Rightarrow> None))"

text \<open>The wait of a submitted job: the job table at each poll until the deadline or the stop.\<close>

fun run_wait :: "durable_state list \<Rightarrow> string \<Rightarrow> response" where
  "run_wait [] job = (error_response ''agent_timeout'')\<lparr>rs_job_id := Some job\<rparr>"
| "run_wait (s # ss) job =
     (if hm_has (st_jobs s) job then job_response s job else run_wait ss job)"

definition complete_job ::
    "env \<Rightarrow> string \<Rightarrow> string \<Rightarrow> network_event list \<Rightarrow> registry \<Rightarrow> (reply \<times> registry) option" where
  "complete_job ev job artifact events g =
     (case hm_get (st_pending (rg_state g)) job of
        None \<Rightarrow> Some (Reply ok_response, g)
      | Some op \<Rightarrow>
          let succeeded = (events \<noteq> [] \<and> ne_kind (last events) = ''exit'' \<and> ne_payload (last events) = ''0'');
              record = \<lparr>au_principal_id = rr_principal_id op, au_host_id = rr_host_id op,
                au_device_id = rr_device_id op, au_workspace_id = rr_workspace_id op, au_job_id = job,
                au_result = (if succeeded then ''succeeded'' else ''failed'')\<rparr>
          in (case persist_state (ev_state_save ev) (update_state (\<lambda>s. s\<lparr>
                st_pending := hm_remove job (st_pending s),
                st_jobs := hm_insert job events (st_jobs s),
                st_artifacts := hm_insert job artifact (st_artifacts s),
                st_audit := st_audit s @ [record]\<rparr>) g) of
                (True, g1) \<Rightarrow> Some (Reply ok_response, g1)
              | (False, _) \<Rightarrow> None))"

definition job_events :: "string \<Rightarrow> u64 \<Rightarrow> registry \<Rightarrow> reply" where
  "job_events job seq g =
     (let s = rg_state g in
      case st_recovery_error s of
        Some e \<Rightarrow> refuse e
      | None \<Rightarrow> Reply (ok_response\<lparr>rs_job_id := Some job,
          rs_events := filter (\<lambda>e. ne_sequence e > seq) (case hm_get (st_jobs s) job of None \<Rightarrow> [] | Some es \<Rightarrow> es),
          rs_audit := filter (\<lambda>a. au_job_id a = job) (st_audit s),
          rs_artifact := hm_get (st_artifacts s) job\<rparr>))"

definition list_hosts :: "registry_config \<Rightarrow> env \<Rightarrow> registry \<Rightarrow> reply" where
  "list_hosts cfg ev g =
     Reply (ok_response\<lparr>rs_hosts := sort_key hs_id (map (\<lambda>(i, e). (ge_host e)\<lparr>hs_status :=
        (if ev_instant ev - ge_heartbeat e \<ge> gc_offline_after cfg then ''offline'' else ''online'')\<rparr>)
        (rg_entries g))\<rparr>)"

section \<open>Apple jobs\<close>

definition holds_lease :: "string \<Rightarrow> apple_request \<Rightarrow> lease_book \<Rightarrow> bool" where
  "holds_lease peer r b =
     is_some_and (\<lambda>d. is_some_and (\<lambda>l. ar_lease_id r = Some (dl_id l) \<and> dl_client_id l = peer)
       (hm_get (active b) d)) (ar_device_id r)"

definition apple_run_guard ::
    "env \<Rightarrow> string \<Rightarrow> apple_request \<Rightarrow> registry \<Rightarrow> (reply + unit) \<times> registry" where
  "apple_run_guard ev peer r g =
     (case validate_request_envelope r of
        Inl e \<Rightarrow> (Err (refuse (pe_code e)), g)
      | Inr _ \<Rightarrow>
     if \<not> mutates_device (ar_operation r) then (Ok (), g)
     else let g1 = update_leases (expire (ev_now ev)) g in
       (case persist_leases (ev_leases_save ev) g1 of
          (False, g2) \<Rightarrow> (Err (refuse ''persistence_failed''), g2)
        | (True, g2) \<Rightarrow>
            if holds_lease peer r (rg_leases g1) then (Ok (), g2)
            else (Err (refuse ''lease_inactive''), g2)))"

definition eligible_entry :: "registry_config \<Rightarrow> env \<Rightarrow> apple_request \<Rightarrow> registry_entry \<Rightarrow> bool" where
  "eligible_entry cfg ev r e =
     (apple_host_is_current e (ev_instant ev) (gc_offline_after cfg)
      \<and> ar_capability r \<in> set (hs_capabilities (ge_host e))
      \<and> is_none_or (\<lambda>device. list_ex (\<lambda>d. ds_id d = device \<and> ds_state d = ''connected'')
            (hs_devices (ge_host e))) (ar_device_id r))"

definition add_apple_job ::
    "string \<Rightarrow> apple_request \<Rightarrow> string \<Rightarrow> string \<Rightarrow> durable_state \<Rightarrow> durable_state" where
  "add_apple_job peer r job target s =
     s\<lparr>st_apple_requests := hm_insert (ar_idempotency_key r) job (st_apple_requests s),
       st_apple_operations := hm_insert (ar_idempotency_key r) r (st_apple_operations s),
       st_apple_pending := hm_insert job r (st_apple_pending s),
       st_apple_hosts := hm_insert job target (st_apple_hosts s),
       st_job_clients := hm_insert job peer (st_job_clients s),
       st_job_agents := (case hm_get (st_host_peers s) target of
           None \<Rightarrow> st_job_agents s | Some agent \<Rightarrow> hm_insert job agent (st_job_agents s)),
       st_jobs := hm_insert job [] (st_jobs s)\<rparr>"

definition apple_job_id :: "registry_config \<Rightarrow> string \<Rightarrow> string" where
  "apple_job_id cfg key = ''apple-'' @ gc_sha cfg key"

definition apple_run_submit ::
    "registry_config \<Rightarrow> env \<Rightarrow> string \<Rightarrow> apple_request \<Rightarrow> registry \<Rightarrow> (reply \<times> registry) option" where
  "apple_run_submit cfg ev peer r g =
     (let s = rg_state g in
      case hm_get (st_apple_requests s) (ar_idempotency_key r) of
        Some job \<Rightarrow>
          if is_some_and (\<lambda>existing. existing \<noteq> r) (hm_get (st_apple_operations s) (ar_idempotency_key r))
          then Some (refuse ''idempotency_conflict'', g)
          else Some (Reply (ok_response\<lparr>rs_job_id := Some job\<rparr>), g)
      | None \<Rightarrow>
     (case List.find (\<lambda>(i, e). eligible_entry cfg ev r e) (rg_entries g) of
        None \<Rightarrow> Some (refuse ''no_eligible_host'', g)
      | Some (i, e) \<Rightarrow>
          let job = apple_job_id cfg (ar_idempotency_key r) in
          (case persist_state (ev_state_save ev)
                  (update_state (add_apple_job peer r job (hs_id (ge_host e))) g) of
             (True, g1) \<Rightarrow> Some (Reply (ok_response\<lparr>rs_job_id := Some job\<rparr>), g1)
           | (False, _) \<Rightarrow> None)))"

definition apple_run ::
    "registry_config \<Rightarrow> env \<Rightarrow> env \<Rightarrow> string \<Rightarrow> apple_request \<Rightarrow> registry \<Rightarrow> (reply \<times> registry) option" where
  "apple_run cfg ev1 ev2 peer r g =
     (case apple_run_guard ev1 peer r g of
        (Inl e, g1) \<Rightarrow> Some (e, g1)
      | (Inr _, g1) \<Rightarrow> apple_run_submit cfg ev2 peer r g1)"

subsection \<open>Progress\<close>

definition add_new_events :: "network_event list \<Rightarrow> network_event list \<Rightarrow> network_event list" where
  "add_new_events events existing =
     fold (\<lambda>e es. if list_ex (\<lambda>c. ne_sequence c = ne_sequence e) es then es else es @ [e]) events existing"

definition record_events :: "string \<Rightarrow> network_event list \<Rightarrow> durable_state \<Rightarrow> durable_state" where
  "record_events job events s =
     s\<lparr>st_jobs := hm_insert job
         (add_new_events events (case hm_get (st_jobs s) job of None \<Rightarrow> [] | Some es \<Rightarrow> es)) (st_jobs s)\<rparr>"

text \<open>The end of a job: its fences are dropped, and the job is neither pending nor to be cancelled.\<close>

definition finish_job :: "u64 \<Rightarrow> string \<Rightarrow> durable_state \<times> lease_book \<Rightarrow> durable_state \<times> lease_book" where
  "finish_job now job sb =
     (case sb of (s, b) \<Rightarrow>
        let finished = hm_keys (filter (\<lambda>(d, w). dw_job_id w = job) (writers b));
            (s', b') = fold (drop_writer now) finished (s, b)
        in (s'\<lparr>st_apple_pending := hm_remove job (st_apple_pending s'),
               st_cancelled := removeAll job (st_cancelled s')\<rparr>, b'))"

definition save_progress :: "env \<Rightarrow> string \<Rightarrow> bool \<Rightarrow> bool \<Rightarrow> registry \<Rightarrow> reply \<times> registry" where
  "save_progress ev job restored terminal g =
     (case persist_state (ev_state_save ev) g of
        (False, g1) \<Rightarrow>
          (refuse ''persistence_failed'',
           if restored then snd (persist_leases (ev_leases_resave ev) (update_leases
               (\<lambda>b. b\<lparr>writers := filter (\<lambda>(d, w). dw_job_id w \<noteq> job) (writers b)\<rparr>) g1))
           else g1)
      | (True, g1) \<Rightarrow>
     if \<not> terminal then (Reply ok_response, g1)
     else (case persist_leases (ev_leases_resave ev) g1 of
             (True, g2) \<Rightarrow> (Reply ok_response, g2)
           | (False, g2) \<Rightarrow> (refuse ''persistence_failed'', g2)))"

definition report_progress ::
    "env \<Rightarrow> string \<Rightarrow> network_event list \<Rightarrow> registry \<Rightarrow> reply \<times> registry" where
  "report_progress ev job events g =
     (case restore_acknowledged_writer (ev_now ev) (rg_state g) job (rg_leases g) of
        (Inl e, b) \<Rightarrow> (refuse e, snd (persist_leases (ev_leases_save ev) (g\<lparr>rg_leases := b\<rparr>)))
      | (Inr restored, b) \<Rightarrow>
     (case persist_leases (ev_leases_save ev) (g\<lparr>rg_leases := b\<rparr>) of
        (False, g1) \<Rightarrow> (refuse ''persistence_failed'', g1)
      | (True, g1) \<Rightarrow>
          save_progress ev job restored False (update_state (\<lambda>s. (record_events job events s)\<lparr>
            st_acknowledged := insert job (st_acknowledged s)\<rparr>) g1)))"

definition report_terminal ::
    "env \<Rightarrow> string \<Rightarrow> network_event list \<Rightarrow> registry \<Rightarrow> reply \<times> registry" where
  "report_terminal ev job events g =
     (case finish_job (ev_now ev) job (record_events job events (rg_state g), rg_leases g) of
        (s, b) \<Rightarrow> save_progress ev job False True (g\<lparr>rg_state := s, rg_leases := b\<rparr>))"

definition apple_progress ::
    "env \<Rightarrow> string \<Rightarrow> string \<Rightarrow> network_event list \<Rightarrow> bool \<Rightarrow> registry \<Rightarrow> reply \<times> registry" where
  "apple_progress ev peer job events terminal g =
     (if hm_get (st_job_agents (rg_state g)) job \<noteq> Some peer
      then (refuse ''apple_progress_access_denied'', g)
      else if terminal then report_terminal ev job events g
      else report_progress ev job events g)"

definition apple_cancel :: "env \<Rightarrow> string \<Rightarrow> string \<Rightarrow> registry \<Rightarrow> (reply \<times> registry) option" where
  "apple_cancel ev peer job g =
     (let s = rg_state g in
      if hm_get (st_job_clients s) job \<noteq> Some peer
      then Some (Reply (error_response ''apple_cancel_access_denied''), g)
      else if \<not> hm_has (st_apple_pending s) job then Some (Reply (error_response ''unknown_job''), g)
      else let s' = (if job \<in> st_dispatched s then s\<lparr>st_cancelled := List.insert job (st_cancelled s)\<rparr>
                     else push_job_event job ''cancelled'' []
                            (s\<lparr>st_apple_pending := hm_remove job (st_apple_pending s)\<rparr>))
        in (case persist_state (ev_state_save ev) (g\<lparr>rg_state := s'\<rparr>) of
              (True, g1) \<Rightarrow> Some (Reply ok_response, g1)
            | (False, _) \<Rightarrow> None))"

section \<open>Leases and dashboard access\<close>

definition registry_lease ::
    "registry_config \<Rightarrow> env \<Rightarrow> string \<Rightarrow> lease_request \<Rightarrow> registry \<Rightarrow> (reply \<times> registry) option" where
  "registry_lease cfg ev peer op g =
     (case lease (grant_signature cfg g) (ev_now ev) peer (gc_agent_peers cfg) op
             (st_device_peers (rg_state g)) (rg_leases g) of
        None \<Rightarrow> None
      | Some (r, dp, b) \<Rightarrow>
     if is_some_and (cannot_sign cfg g) (rs_lease_grant r) then None
     else let g1 = g\<lparr>rg_state := (rg_state g)\<lparr>st_device_peers := dp\<rparr>, rg_leases := b\<rparr> in
       (case persist_leases (ev_leases_save ev) g1 of
          (False, g2) \<Rightarrow> Some (Reply (error_response ''persistence_failed''), g2)
        | (True, g2) \<Rightarrow>
       (case persist_state (ev_state_save ev) g2 of
          (False, g3) \<Rightarrow> Some (Reply (error_response ''persistence_failed''), g3)
        | (True, g3) \<Rightarrow> Some (Reply r, g3))))"

definition authenticate_dashboard_access ::
    "registry_config \<Rightarrow> env \<Rightarrow> string \<Rightarrow> mesh_access_claim \<Rightarrow> string \<Rightarrow> registry \<Rightarrow> reply \<times> registry" where
  "authenticate_dashboard_access cfg ev peer claim sig g =
     (if peer \<in> gc_agent_peers cfg then (refuse ''controller_identity_required'', g)
      else case issue_mesh_approval (gc_crypto cfg) (gc_codec cfg) (ev_random ev) peer claim sig (ev_now ev)
             60000 (rg_transport g) of
        (Inl _, t) \<Rightarrow> (Reply (error_response ''mesh_identity_mismatch''), g\<lparr>rg_transport := t\<rparr>)
      | (Inr a, t) \<Rightarrow> (Reply (ok_response\<lparr>rs_events := [\<lparr>ne_sequence = 1,
            ne_kind = ''authenticated_dashboard_access'', ne_payload = gc_assertion_json cfg a\<rparr>]\<rparr>),
          g\<lparr>rg_transport := t\<rparr>))"

section \<open>The request loop\<close>

datatype registry_request =
    HeartbeatRequest host_snapshot
  | CompleteRequest string string "network_event list"
  | ListRequest
  | AuthenticateDashboardAccess mesh_access_claim string
  | RunRequest run_request
  | EventsRequest string u64
  | AppleRunRequest apple_request
  | AppleProgressRequest string "network_event list" bool
  | AppleCancelRequest string
  | ArtifactRegisterRequest string string string u64 string
  | ArtifactWriteRequest string u64 artifact_write
  | ArtifactReadRequest string u64 u64 u64 string
  | ArtifactInfoRequest string
  | LeaseOperation lease_request

fun read_only_during_recovery :: "registry_request \<Rightarrow> bool" where
  "read_only_during_recovery ListRequest = True"
| "read_only_during_recovery (EventsRequest _ _) = True"
| "read_only_during_recovery (ArtifactReadRequest _ _ _ _ _) = True"
| "read_only_during_recovery (ArtifactInfoRequest _) = True"
| "read_only_during_recovery _ = False"

definition with_artifacts ::
    "(artifact_store \<Rightarrow> response \<times> artifact_store) \<Rightarrow> registry \<Rightarrow> reply \<times> registry" where
  "with_artifacts f g =
     (case f (rg_artifacts g) of (r, s) \<Rightarrow> (Reply r, g\<lparr>rg_artifacts := s\<rparr>))"

text \<open>One request of an authorised peer, from start to end without another in between; \<open>ev\<close> yields the
  surroundings of its critical sections in turn.\<close>

fun handle_open_request ::
    "registry_config \<Rightarrow> (nat \<Rightarrow> env) \<Rightarrow> string \<Rightarrow> registry_request \<Rightarrow> registry \<Rightarrow> (reply \<times> registry) option" where
  "handle_open_request cfg ev peer (HeartbeatRequest host) g =
     heartbeat cfg (ev 0) (ev 1) (ev 2) peer host g"
| "handle_open_request cfg ev peer (CompleteRequest job artifact events) g =
     complete_job (ev 0) job artifact events g"
| "handle_open_request cfg ev peer ListRequest g = Some (list_hosts cfg (ev 0) g, g)"
| "handle_open_request cfg ev peer (AuthenticateDashboardAccess claim sig) g =
     Some (authenticate_dashboard_access cfg (ev 0) peer claim sig g)"
| "handle_open_request cfg ev peer (RunRequest r) g =
     (case st_recovery_error (rg_state g) of
        Some e \<Rightarrow> Some (Reply (error_response e), g)
      | None \<Rightarrow> run_submit cfg (ev 0) r g)"
| "handle_open_request cfg ev peer (EventsRequest job seq) g = Some (job_events job seq g, g)"
| "handle_open_request cfg ev peer (AppleRunRequest r) g = apple_run cfg (ev 0) (ev 1) peer r g"
| "handle_open_request cfg ev peer (AppleProgressRequest job events terminal) g =
     Some (apple_progress (ev 0) peer job events terminal g)"
| "handle_open_request cfg ev peer (AppleCancelRequest job) g = apple_cancel (ev 0) peer job g"
| "handle_open_request cfg ev peer (ArtifactRegisterRequest job name media size' digest) g =
     Some (with_artifacts (register_artifact (gc_sha cfg) (ai_save (ev_files (ev 0))) peer
       (hm_get (st_job_agents (rg_state g)) job) (hm_get (st_job_clients (rg_state g)) job)
       job name media size' digest) g)"
| "handle_open_request cfg ev peer (ArtifactWriteRequest i offset w) g =
     Some (with_artifacts (write_artifact (gc_sha cfg) (ev_files (ev 0)) peer i offset w) g)"
| "handle_open_request cfg ev peer (ArtifactReadRequest i offset len size' digest) g =
     Some (Reply (read_artifact (ai_read (ev_files (ev 0))) peer i offset len size' digest (rg_artifacts g)), g)"
| "handle_open_request cfg ev peer (ArtifactInfoRequest i) g =
     (case artifact_info peer i (rg_artifacts g) of
        (closing, r) \<Rightarrow> Some (if closing then ReplyAndClose r else Reply r, g))"
| "handle_open_request cfg ev peer (LeaseOperation op) g = registry_lease cfg (ev 0) peer op g"

definition handle_request ::
    "registry_config \<Rightarrow> (nat \<Rightarrow> env) \<Rightarrow> string \<Rightarrow> registry_request \<Rightarrow> registry \<Rightarrow> (reply \<times> registry) option" where
  "handle_request cfg ev peer r g =
     (case st_recovery_error (rg_state g) of
        Some e \<Rightarrow>
          if read_only_during_recovery r then handle_open_request cfg ev peer r g
          else Some (refuse e, g)
      | None \<Rightarrow> handle_open_request cfg ev peer r g)"

text \<open>The start of a connection: the certificate of the handshake must belong to an authorised peer.\<close>

definition admit_peer :: "registry_config \<Rightarrow> string \<Rightarrow> registry \<Rightarrow> string option \<times> registry" where
  "admit_peer cfg certificate g =
     (case peer_id (gc_crypto cfg) certificate (rg_transport g) of
        (Inl _, t) \<Rightarrow> (None, g\<lparr>rg_transport := t\<rparr>)
      | (Inr p, t) \<Rightarrow> (Some p, g\<lparr>rg_transport := t\<rparr>))"

end
