(* ===== verification/RegistryServer.thy ===== *)
theory RegistryServer
  imports RegistryJobs
begin

text \<open>
  What holds of the registry over any sequence of requests (\<open>registry_runtime.rs\<close>): who may do what, what
  is never lost, which device a job may change. The critical sections of the requests are the steps
  of one machine; a request handled in one go is a run of that machine.
\<close>

section \<open>Critical sections as steps\<close>

text \<open>The envelope and the lease identifier that the first section of an Apple submission requires.\<close>

definition admissible :: "apple_request \<Rightarrow> bool" where
  "admissible r \<longleftrightarrow> validate_request_envelope r = Ok ()
     \<and> (mutates_device (ar_operation r) \<longrightarrow> ar_lease_id r \<noteq> None)"

datatype registry_event =
    InventorySection string host_snapshot
  | ExpirySection
  | PublishSection host_snapshot
  | DispatchSection string
  | GuardSection string apple_request
  | SubmitSection string apple_request
  | WholeRequest string registry_request

definition settle :: "registry \<Rightarrow> (reply \<times> registry) option \<Rightarrow> registry" where
  "settle g out = (case out of None \<Rightarrow> g | Some (_, g') \<Rightarrow> g')"

fun sectioned :: "registry_request \<Rightarrow> bool" where
  "sectioned (HeartbeatRequest _) = True"
| "sectioned (AppleRunRequest _) = True"
| "sectioned _ = False"

fun registry_step :: "registry_config \<Rightarrow> env \<times> registry_event \<Rightarrow> registry \<Rightarrow> registry" where
  "registry_step cfg (ev, InventorySection peer host) g = snd (heartbeat_inventory cfg ev peer host g)"
| "registry_step cfg (ev, ExpirySection) g = snd (heartbeat_expire ev g)"
| "registry_step cfg (ev, PublishSection host) g = heartbeat_publish ev host g"
| "registry_step cfg (ev, DispatchSection host) g = settle g (heartbeat_dispatch cfg ev host g)"
| "registry_step cfg (ev, GuardSection peer r) g = snd (apple_run_guard ev peer r g)"
| "registry_step cfg (ev, SubmitSection peer r) g =
     (if admissible r then settle g (apple_run_submit cfg ev peer r g) else g)"
| "registry_step cfg (ev, WholeRequest peer r) g =
     (if sectioned r then g else settle g (handle_request cfg (\<lambda>_. ev) peer r g))"

section \<open>What a step may do to the job table\<close>

definition grows :: "('k, 'v) hash_map \<Rightarrow> ('k, 'v) hash_map \<Rightarrow> bool" where
  "grows m n \<longleftrightarrow> (\<forall>k v. hm_get m k = Some v \<longrightarrow> hm_get n k = Some v)"

definition shrinks :: "('k, 'v) hash_map \<Rightarrow> ('k, 'v) hash_map \<Rightarrow> bool" where
  "shrinks m n \<longleftrightarrow> grows n m"

definition owners_stay :: "peers \<Rightarrow> peers \<Rightarrow> bool" where
  "owners_stay m n \<longleftrightarrow> (\<forall>d p. hm_get m d = Some p \<longrightarrow> hm_get n d = Some p \<or> hm_get n d = None)"

text \<open>The log of an Apple job only grows; manifest jobs, whose log a completion replaces, have other names.\<close>

definition log_extends :: "string \<Rightarrow> durable_state \<Rightarrow> durable_state \<Rightarrow> bool" where
  "log_extends job s t \<longleftrightarrow> (\<forall>es. hm_get (st_jobs s) job = Some es \<longrightarrow> (\<exists>more. hm_get (st_jobs t) job = Some (es @ more)))"

definition manifest_ok :: "durable_state \<Rightarrow> bool" where
  "manifest_ok s \<longleftrightarrow> (\<forall>job. hm_has (st_pending s) job \<longrightarrow> (\<exists>k. job = ''job-'' @ k))"

definition logs_kept :: "durable_state \<Rightarrow> durable_state \<Rightarrow> bool" where
  "logs_kept s t \<longleftrightarrow> (manifest_ok s \<longrightarrow> manifest_ok t \<and> (\<forall>k. log_extends (''apple-'' @ k) s t))"

definition quiet :: "durable_state \<Rightarrow> durable_state \<Rightarrow> bool" where
  "quiet s t \<longleftrightarrow> st_apple_requests t = st_apple_requests s
     \<and> st_apple_operations t = st_apple_operations s
     \<and> st_job_clients t = st_job_clients s \<and> st_apple_hosts t = st_apple_hosts s
     \<and> st_job_agents t = st_job_agents s
     \<and> shrinks (st_apple_pending s) (st_apple_pending t)
     \<and> (hm_wf (st_apple_pending s) \<longrightarrow> hm_wf (st_apple_pending t))
     \<and> grows (st_requests s) (st_requests t)
     \<and> grows (st_host_peers s) (st_host_peers t)
     \<and> owners_stay (st_device_peers s) (st_device_peers t)
     \<and> st_recovery_error t = st_recovery_error s \<and> logs_kept s t"

lemma grows_refl [simp]: "grows m m"
  by (simp add: grows_def)

lemma grows_trans: "grows l m \<Longrightarrow> grows m n \<Longrightarrow> grows l n"
  by (simp add: grows_def)

lemma grows_insert: "hm_get m k = None \<or> hm_get m k = Some v \<Longrightarrow> grows m (hm_insert k v m)"
  by (auto simp: grows_def)

lemma shrinks_owners: "shrinks m n \<Longrightarrow> owners_stay m n"
  by (fastforce simp: shrinks_def grows_def owners_stay_def)

lemma owners_stay_refl [simp]: "owners_stay m m"
  by (simp add: owners_stay_def)

lemma shrinks_refl [simp]: "shrinks m m"
  by (simp add: shrinks_def)

lemma shrinks_trans: "shrinks l m \<Longrightarrow> shrinks m n \<Longrightarrow> shrinks l n"
  by (simp add: shrinks_def grows_def)

lemma shrinks_remove [simp]: "shrinks m (hm_remove k m)"
  by (simp add: shrinks_def grows_def)

lemma log_extends_same [simp]: "st_jobs t = st_jobs s \<Longrightarrow> log_extends job s t"
  by (simp add: log_extends_def)

lemma log_extends_trans: "log_extends job s t \<Longrightarrow> log_extends job t u \<Longrightarrow> log_extends job s u"
  by (fastforce simp: log_extends_def)

lemma logs_kept_same [simp]: "st_jobs t = st_jobs s \<Longrightarrow> st_pending t = st_pending s \<Longrightarrow> logs_kept s t"
  by (simp add: logs_kept_def manifest_ok_def)

lemma logs_kept_trans: "logs_kept s t \<Longrightarrow> logs_kept t u \<Longrightarrow> logs_kept s u"
  unfolding logs_kept_def by (blast intro: log_extends_trans)

lemma logs_kept_append:
  assumes "st_jobs t = hm_insert job ((case hm_get (st_jobs s) job of None \<Rightarrow> [] | Some es \<Rightarrow> es) @ ns) (st_jobs s)"
    and "st_pending t = st_pending s"
  shows "logs_kept s t"
  using assms by (auto simp: logs_kept_def manifest_ok_def log_extends_def split: option.split)

lemma logs_kept_push: "logs_kept s t \<Longrightarrow> logs_kept s (push_job_event job kind p t)"
  by (rule logs_kept_trans, assumption, rule logs_kept_append) (simp_all add: push_job_event_def)

lemma add_new_events_extend: "\<exists>more. add_new_events new old = old @ more"
  unfolding add_new_events_def
proof (induction new arbitrary: old)
  case Nil
  then show ?case by simp
next
  case (Cons e new)
  show ?case
  proof (cases "list_ex (\<lambda>c. ne_sequence c = ne_sequence e) old")
    case True
    then show ?thesis using Cons.IH [of old] by simp
  next
    case False
    then show ?thesis using Cons.IH [of "old @ [e]"] by auto
  qed
qed

lemma logs_kept_record: "logs_kept s (record_events job new s)"
proof -
  let ?old = "case hm_get (st_jobs s) job of None \<Rightarrow> [] | Some es \<Rightarrow> es"
  obtain more where "add_new_events new ?old = ?old @ more" using add_new_events_extend by blast
  then show ?thesis by (intro logs_kept_append) (simp_all add: record_events_def)
qed

lemma quiet_refl [simp]: "quiet s s"
  by (simp add: quiet_def)

text \<open>Composition, where the owners of devices change in one of the two parts only.\<close>

lemma quiet_trans:
  assumes "quiet s t" "quiet t u"
    and "st_device_peers t = st_device_peers s \<or> st_device_peers u = st_device_peers t"
  shows "quiet s u"
  using assms unfolding quiet_def by (auto dest: shrinks_trans grows_trans logs_kept_trans)

text \<open>Dropping fences changes nothing of the job table but the owners of detached devices.\<close>

lemma drop_writer_cases:
  "fst (drop_writer now d (s, b)) = s
   \<or> fst (drop_writer now d (s, b)) = s\<lparr>st_device_peers := hm_remove d (st_device_peers s)\<rparr>"
  by (simp add: drop_writer_def Let_def)

lemma drop_writer_state:
  "\<exists>dp. fst (drop_writer now d (s, b)) = s\<lparr>st_device_peers := dp\<rparr> \<and> shrinks (st_device_peers s) dp"
  using drop_writer_cases [of now d s b]
proof
  assume "fst (drop_writer now d (s, b)) = s"
  then show ?thesis by (intro exI [of _ "st_device_peers s"]) (simp add: shrinks_def)
next
  assume "fst (drop_writer now d (s, b)) = s\<lparr>st_device_peers := hm_remove d (st_device_peers s)\<rparr>"
  then show ?thesis
    by (intro exI [of _ "hm_remove d (st_device_peers s)"]) (simp add: shrinks_def grows_def)
qed

lemma fold_drop_writer_state:
  "\<exists>dp. fst (fold (drop_writer now) ds (s, b)) = s\<lparr>st_device_peers := dp\<rparr> \<and> shrinks (st_device_peers s) dp"
proof (induction ds arbitrary: s b)
  case Nil
  show ?case by (intro exI [of _ "st_device_peers s"]) (simp add: shrinks_def)
next
  case (Cons d ds)
  obtain s1 b1 where d: "drop_writer now d (s, b) = (s1, b1)" by fastforce
  with drop_writer_state [of now d s b] obtain dp1
    where s1: "s1 = s\<lparr>st_device_peers := dp1\<rparr>" "shrinks (st_device_peers s) dp1" by auto
  from Cons.IH [of s1 b1] obtain dp where
    dp: "fst (fold (drop_writer now) ds (s1, b1)) = s1\<lparr>st_device_peers := dp\<rparr>"
      "shrinks (st_device_peers s1) dp" by blast
  have "shrinks (st_device_peers s) dp" using dp(2) s1 by (simp add: shrinks_def) (metis grows_trans)
  then show ?case using d dp(1) s1(1) by (intro exI [of _ dp]) simp
qed

lemma quiet_peers: "owners_stay (st_device_peers s) dp \<Longrightarrow> quiet s (s\<lparr>st_device_peers := dp\<rparr>)"
  by (simp add: quiet_def)

lemma fold_drop_writer_quiet: "quiet s (fst (fold (drop_writer now) ds (s, b)))"
proof -
  obtain dp where "fst (fold (drop_writer now) ds (s, b)) = s\<lparr>st_device_peers := dp\<rparr>"
    "shrinks (st_device_peers s) dp" using fold_drop_writer_state by blast
  then show ?thesis by (simp add: quiet_peers shrinks_owners)
qed

lemma reconcile_quiet: "quiet s (fst (snd (reconcile_runtime_state now s b)))"
  by (simp add: reconcile_runtime_state_def Let_def fold_drop_writer_quiet)

section \<open>The job table under every step\<close>

lemma settle_simps [simp]: "settle g None = g" "settle g (Some p) = snd p"
  by (simp_all add: settle_def split_beta)

lemma fold_detach_peers:
  "shrinks dp (fst (fold (detach_one now) ds (dp, b)))"
proof (induction ds arbitrary: dp b)
  case Nil
  show ?case by (simp add: shrinks_def)
next
  case (Cons d ds)
  obtain dp1 b1 where d: "detach_one now d (dp, b) = (dp1, b1)" by fastforce
  then have "shrinks dp dp1" by (auto simp: detach_one_def shrinks_def grows_def split: if_splits)
  then show ?case using Cons.IH [of dp1 b1] d by (simp add: shrinks_def) (metis grows_trans)
qed

lemma fold_insert_owner:
  "hm_get (fold (\<lambda>d. hm_insert d peer) ds dp) d = (if d \<in> set ds then Some peer else hm_get dp d)"
  by (induction ds arbitrary: dp) auto

lemma inventory_owners:
  assumes "\<not> list_ex (\<lambda>d. owned_by_other peer (hm_get dp d)) ds"
  shows "owners_stay dp (fst (fold (detach_one now) es (fold (\<lambda>d. hm_insert d peer) ds dp, b)))"
  unfolding owners_stay_def
proof (intro allI impI)
  fix d p assume d: "hm_get dp d = Some p"
  let ?dp = "fold (\<lambda>d. hm_insert d peer) ds dp"
  have "hm_get ?dp d = Some p"
    using d assms by (auto simp: fold_insert_owner list_ex_iff owned_by_other_def)
  moreover have "grows (fst (fold (detach_one now) es (?dp, b))) ?dp"
    using fold_detach_peers by (simp add: shrinks_def)
  ultimately show "hm_get (fst (fold (detach_one now) es (?dp, b))) d = Some p
      \<or> hm_get (fst (fold (detach_one now) es (?dp, b))) d = None"
    by (cases "hm_get (fst (fold (detach_one now) es (?dp, b))) d") (auto simp: grows_def)
qed

lemma inventory_quiet: "quiet (rg_state g) (rg_state (snd (heartbeat_inventory cfg ev peer host g)))"
proof (cases "peer \<notin> gc_agent_peers cfg \<or> \<not> is_ok (validate_host_snapshot host)
    \<or> owned_by_other peer (hm_get (st_host_peers (rg_state g)) (hs_id host))
    \<or> list_ex (\<lambda>d. owned_by_other peer (hm_get (st_device_peers (rg_state g)) d)) (connected_devices host)")
  case True
  then show ?thesis by (auto simp: heartbeat_inventory_def Let_def)
next
  case False
  let ?s = "rg_state g"
  let ?detached = "map fst (filter (\<lambda>(d, p). p = peer \<and> d \<notin> set (connected_devices host)) (st_device_peers ?s))"
  let ?b = "(rg_leases g)\<lparr>pending_detach := pending_detach (rg_leases g) - set (connected_devices host)\<rparr>"
  let ?db = "fold (detach_one (ev_now ev)) ?detached
    (fold (\<lambda>d. hm_insert d peer) (connected_devices host) (st_device_peers ?s), ?b)"
  have "rg_state (snd (heartbeat_inventory cfg ev peer host g))
      = ?s\<lparr>st_host_peers := hm_insert (hs_id host) peer (st_host_peers ?s), st_device_peers := fst ?db\<rparr>"
    using False by (simp add: heartbeat_inventory_def Let_def case_bool_if split: prod.split)
  moreover have "grows (st_host_peers ?s) (hm_insert (hs_id host) peer (st_host_peers ?s))"
    using False by (cases "hm_get (st_host_peers ?s) (hs_id host)")
      (auto simp: owned_by_other_def intro: grows_insert)
  moreover have "owners_stay (st_device_peers ?s) (fst ?db)" using False by (intro inventory_owners) simp
  ultimately show ?thesis by (simp add: quiet_def)
qed

lemma push_job_event_simps [simp]:
  "st_apple_requests (push_job_event job k p s) = st_apple_requests s"
  "st_apple_operations (push_job_event job k p s) = st_apple_operations s"
  "st_job_clients (push_job_event job k p s) = st_job_clients s"
  "st_apple_hosts (push_job_event job k p s) = st_apple_hosts s"
  "st_job_agents (push_job_event job k p s) = st_job_agents s"
  "st_apple_pending (push_job_event job k p s) = st_apple_pending s"
  "st_requests (push_job_event job k p s) = st_requests s"
  "st_host_peers (push_job_event job k p s) = st_host_peers s"
  "st_device_peers (push_job_event job k p s) = st_device_peers s"
  "st_recovery_error (push_job_event job k p s) = st_recovery_error s"
  "st_dispatched (push_job_event job k p s) = st_dispatched s"
  "st_acknowledged (push_job_event job k p s) = st_acknowledged s"
  by (simp_all add: push_job_event_def)

lemma quiet_dispatched [simp]: "quiet s (mark_dispatched job s)"
  by (simp add: quiet_def mark_dispatched_def)

lemma quiet_rejected [simp]: "quiet s (reject_job job s)"
  by (simp add: quiet_def reject_job_def logs_kept_push)

lemma same_owners [simp]:
  "st_device_peers (mark_dispatched job s) = st_device_peers s"
  "st_device_peers (reject_job job s) = st_device_peers s"
  by (simp_all add: mark_dispatched_def reject_job_def)

lemma finish_dispatch_quiet: "quiet (rg_state g) (rg_state (snd (finish_dispatch ev r g)))"
proof -
  let ?s = "\<lambda>job. (rg_state g)\<lparr>st_dispatched := st_dispatched (rg_state g) - {job}\<rparr>"
  have "quiet (rg_state g) (fst (snd (reconcile_runtime_state now (?s job) b)))" for job now b
    by (rule quiet_trans [OF _ reconcile_quiet]) (simp_all add: quiet_def)
  then show ?thesis
    by (simp add: finish_dispatch_def Let_def case_bool_if split: option.split prod.split)
      (metis fst_conv snd_conv)
qed

lemma finish_after:
  assumes "quiet (rg_state g) (rg_state h)" and "st_device_peers (rg_state h) = st_device_peers (rg_state g)"
  shows "quiet (rg_state g) (rg_state (snd (finish_dispatch ev r h)))"
  using quiet_trans [OF assms(1) finish_dispatch_quiet] assms(2) by blast

lemma fence_job_state: "fence_job cfg ev job device l g = Some (f, g') \<Longrightarrow> rg_state g' = rg_state g"
  by (auto simp: fence_job_def Let_def case_bool_if split: option.splits if_splits)

lemma dispatch_apple_quiet:
  "quiet (rg_state g) (rg_state (settle g (dispatch_apple cfg ev job op r g)))"
proof (cases "fence_target op")
  case None
  then show ?thesis by (simp add: dispatch_apple_def Let_def finish_after)
next
  case (Some dl)
  obtain d l where dl: "dl = (d, l)" by fastforce
  show ?thesis
  proof (cases "fence_job cfg ev job d l g")
    case fj: (Some fg)
    obtain f g1 where fg: "fg = (f, g1)" by fastforce
    have same: "rg_state g1 = rg_state g" using fence_job_state fj fg by blast
    have "quiet (rg_state g) (rg_state (snd (finish_dispatch ev q (update_state (mark_dispatched job) g1))))"
      "quiet (rg_state g) (rg_state (snd (finish_dispatch ev q (update_state (reject_job job) g1))))" for q
      by (rule finish_after; simp add: same)+
    then show ?thesis
      using Some fj dl fg same by (cases f) (simp_all add: dispatch_apple_def Let_def)
  qed (use Some dl in \<open>simp add: dispatch_apple_def Let_def\<close>)
qed

text \<open>The first half of a dispatch, the manifest job.\<close>

definition dispatch_manifest :: "string \<Rightarrow> registry \<Rightarrow> response \<times> registry" where
  "dispatch_manifest host g = (case find_pending host (rg_state g) of
       None \<Rightarrow> (ok_response, g)
     | Some (job, op) \<Rightarrow> (ok_response\<lparr>rs_operation := Some op, rs_job_id := Some job\<rparr>,
                          update_state (mark_dispatched job) g))"

lemma dispatch_manifest_state:
  "quiet (rg_state g) (rg_state (snd (dispatch_manifest host g)))"
  "st_device_peers (rg_state (snd (dispatch_manifest host g))) = st_device_peers (rg_state g)"
  "rg_leases (snd (dispatch_manifest host g)) = rg_leases g"
  by (auto simp: dispatch_manifest_def split: option.split)

lemma heartbeat_dispatch_eq:
  "heartbeat_dispatch cfg ev host g =
     (let (r, g0) = dispatch_manifest host g in
      case find_apple host (rg_state g0) (rg_leases g0) of
        None \<Rightarrow> Some (finish_dispatch ev r g0)
      | Some (job, op) \<Rightarrow> dispatch_apple cfg ev job op r g0)"
  by (simp add: heartbeat_dispatch_def dispatch_manifest_def)

lemma dispatch_quiet: "quiet (rg_state g) (rg_state (settle g (heartbeat_dispatch cfg ev host g)))"
proof -
  obtain r g0 where p: "dispatch_manifest host g = (r, g0)" by fastforce
  have same: "quiet (rg_state g) (rg_state g0)" "st_device_peers (rg_state g0) = st_device_peers (rg_state g)"
    using dispatch_manifest_state [where host = host and g = g] p by auto
  show ?thesis
  proof (cases "find_apple host (rg_state g0) (rg_leases g0)")
    case None
    then show ?thesis using p finish_after [OF same] by (simp add: heartbeat_dispatch_eq)
  next
    case (Some jo)
    obtain job op where jo: "jo = (job, op)" by fastforce
    have "quiet (rg_state g) (rg_state (settle g0 (dispatch_apple cfg ev job op r g0)))"
      using quiet_trans [OF same(1) dispatch_apple_quiet] same(2) by blast
    then show ?thesis
      using p Some jo same by (cases "dispatch_apple cfg ev job op r g0") (auto simp: heartbeat_dispatch_eq)
  qed
qed

lemma record_events_simps [simp]:
  "st_apple_requests (record_events job es s) = st_apple_requests s"
  "st_apple_operations (record_events job es s) = st_apple_operations s"
  "st_job_clients (record_events job es s) = st_job_clients s"
  "st_apple_hosts (record_events job es s) = st_apple_hosts s"
  "st_job_agents (record_events job es s) = st_job_agents s"
  "st_apple_pending (record_events job es s) = st_apple_pending s"
  "st_requests (record_events job es s) = st_requests s"
  "st_host_peers (record_events job es s) = st_host_peers s"
  "st_device_peers (record_events job es s) = st_device_peers s"
  "st_recovery_error (record_events job es s) = st_recovery_error s"
  by (simp_all add: record_events_def)

lemma record_events_quiet [simp]: "quiet s (record_events job events s)"
  by (simp add: quiet_def logs_kept_record)

lemma logs_kept_acknowledged: "logs_kept s t \<Longrightarrow> logs_kept s (t\<lparr>st_acknowledged := A\<rparr>)"
  by (rule logs_kept_trans, assumption) simp

lemma logs_kept_finish: "logs_kept s t \<Longrightarrow> logs_kept s (t\<lparr>st_apple_pending := P, st_cancelled := cs\<rparr>)"
  by (rule logs_kept_trans, assumption) simp

lemma logs_kept_complete:
  assumes "hm_has (st_pending s) job"
  shows "logs_kept s (s\<lparr>st_pending := hm_remove job (st_pending s), st_jobs := hm_insert job es (st_jobs s),
     st_artifacts := a, st_audit := b\<rparr>)"
proof (cases "manifest_ok s")
  case True
  then have "job \<noteq> ''apple-'' @ k" for k using assms by (force simp: manifest_ok_def)
  then show ?thesis using True by (auto simp: logs_kept_def manifest_ok_def log_extends_def)
qed (simp add: logs_kept_def)

lemma logs_kept_submit:
  "logs_kept s (s\<lparr>st_requests := q, st_pending := hm_insert (''job-'' @ k) r (st_pending s)\<rparr>)"
  by (auto simp: logs_kept_def manifest_ok_def)

lemma finish_job_quiet: "quiet s (fst (finish_job now job (s, b)))"
proof -
  let ?ds = "hm_keys (filter (\<lambda>(d, w). dw_job_id w = job) (writers b))"
  have "quiet s (fst (fold (drop_writer now) ?ds (s, b)))" by (rule fold_drop_writer_quiet)
  then show ?thesis
    by (auto simp: finish_job_def quiet_def Let_def split: prod.splits
        intro: shrinks_trans [OF _ shrinks_remove] logs_kept_finish)
qed

lemma save_progress_state [simp]: "rg_state (snd (save_progress ev job restored terminal g)) = rg_state g"
  by (simp add: save_progress_def case_bool_if)

lemma report_progress_quiet: "quiet (rg_state g) (rg_state (snd (report_progress ev job events g)))"
  by (simp add: report_progress_def case_bool_if quiet_def logs_kept_acknowledged logs_kept_record
      split: prod.split sum.split)

lemma report_terminal_quiet: "quiet (rg_state g) (rg_state (snd (report_terminal ev job events g)))"
proof -
  let ?s = "record_events job events (rg_state g)"
  have "quiet ?s (fst (finish_job (ev_now ev) job (?s, rg_leases g)))" by (rule finish_job_quiet)
  moreover have "st_device_peers ?s = st_device_peers (rg_state g)" by (simp add: record_events_def)
  ultimately have "quiet (rg_state g) (fst (finish_job (ev_now ev) job (?s, rg_leases g)))"
    using quiet_trans [OF record_events_quiet] by blast
  then show ?thesis
    by (cases "finish_job (ev_now ev) job (?s, rg_leases g)") (simp add: report_terminal_def)
qed

lemma cancel_quiet: "quiet (rg_state g) (rg_state (settle g (apple_cancel ev peer job g)))"
  by (simp add: apple_cancel_def Let_def case_bool_if quiet_def logs_kept_push)

lemma run_submit_quiet:
  "quiet (rg_state g) (rg_state (settle g (run_submit cfg ev r g)))"
  using logs_kept_submit
  by (simp add: run_submit_def Let_def case_bool_if quiet_def grows_insert split: option.split)

lemma complete_quiet: "quiet (rg_state g) (rg_state (settle g (complete_job ev job artifact events g)))"
  using logs_kept_complete [of "rg_state g" job]
  by (simp add: complete_job_def Let_def case_bool_if quiet_def hm_has_def split: option.split)

lemma lease_owners:
  "lease_request_op sign now peer ag req dp b = Some (r, dp', b') \<Longrightarrow> owners_stay dp dp'"
  by (cases req) (auto simp: with_grant_def Let_def owners_stay_def split: if_splits option.splits prod.splits)

lemma lease_quiet: "quiet (rg_state g) (rg_state (settle g (registry_lease cfg ev peer op g)))"
  using lease_owners
  by (fastforce simp: registry_lease_def lease_def Let_def case_bool_if quiet_def split: option.split prod.split)

lemma whole_request_quiet:
  assumes "\<not> sectioned r"
  shows "quiet (rg_state g) (rg_state (settle g (handle_request cfg ev peer r g)))"
proof -
  have "quiet (rg_state g) (rg_state (settle g (handle_open_request cfg ev peer r g)))"
    using assms complete_quiet [of g] run_submit_quiet [of g] report_progress_quiet [of g]
      report_terminal_quiet [of g] cancel_quiet [of g] lease_quiet [of g]
    by (cases r) (auto simp: with_artifacts_def apple_progress_def authenticate_dashboard_access_def
        split: option.split prod.split sum.split)
  then show ?thesis by (simp add: handle_request_def split: option.split)
qed

section \<open>The Apple job table\<close>

definition requests_ok :: "registry_config \<Rightarrow> durable_state \<Rightarrow> bool" where
  "requests_ok cfg s \<longleftrightarrow> (\<forall>k job. hm_get (st_apple_requests s) k = Some job \<longrightarrow>
     job = apple_job_id cfg k \<and> hm_has (st_apple_operations s) k)"

definition operations_ok :: "durable_state \<Rightarrow> bool" where
  "operations_ok s \<longleftrightarrow> (\<forall>k r. hm_get (st_apple_operations s) k = Some r \<longrightarrow>
     ar_idempotency_key r = k \<and> hm_has (st_apple_requests s) k \<and> admissible r)"

definition pending_job_ok :: "durable_state \<Rightarrow> string \<Rightarrow> apple_request \<Rightarrow> bool" where
  "pending_job_ok s job r \<longleftrightarrow> hm_get (st_apple_requests s) (ar_idempotency_key r) = Some job
     \<and> hm_get (st_apple_operations s) (ar_idempotency_key r) = Some r
     \<and> hm_has (st_job_clients s) job \<and> hm_has (st_apple_hosts s) job"

definition pending_ok :: "durable_state \<Rightarrow> bool" where
  "pending_ok s \<longleftrightarrow> hm_wf (st_apple_pending s)
     \<and> (\<forall>job r. hm_get (st_apple_pending s) job = Some r \<longrightarrow> pending_job_ok s job r)"

definition roles_ok :: "durable_state \<Rightarrow> bool" where
  "roles_ok s \<longleftrightarrow> (\<forall>job. hm_has (st_job_clients s) job \<or> hm_has (st_apple_hosts s) job
     \<or> hm_has (st_job_agents s) job \<longrightarrow> (\<exists>k. hm_get (st_apple_requests s) k = Some job))"

definition jobs_ok :: "registry_config \<Rightarrow> durable_state \<Rightarrow> bool" where
  "jobs_ok cfg s \<longleftrightarrow> requests_ok cfg s \<and> operations_ok s \<and> pending_ok s \<and> roles_ok s"

lemma requests_okD: "requests_ok cfg s \<Longrightarrow> hm_get (st_apple_requests s) k = Some job \<Longrightarrow> job = apple_job_id cfg k"
  unfolding requests_ok_def by blast

lemma operations_okD:
  "operations_ok s \<Longrightarrow> hm_get (st_apple_operations s) k = Some r \<Longrightarrow>
     ar_idempotency_key r = k \<and> hm_has (st_apple_requests s) k \<and> admissible r"
  unfolding operations_ok_def by blast

lemma apple_job_id_inject: "apple_job_id cfg k = apple_job_id cfg l \<longleftrightarrow> gc_sha cfg k = gc_sha cfg l"
  by (simp add: apple_job_id_def)

lemma jobs_ok_default: "jobs_ok cfg durable_state_default"
  by (simp add: jobs_ok_def requests_ok_def operations_ok_def pending_ok_def roles_ok_def durable_state_default_def)

lemma jobs_ok_quiet:
  assumes "jobs_ok cfg s" and "quiet s t" shows "jobs_ok cfg t"
proof -
  have "pending_job_ok t job r" if "hm_get (st_apple_pending t) job = Some r" for job r
  proof -
    have "hm_get (st_apple_pending s) job = Some r"
      using that assms(2) by (simp add: quiet_def shrinks_def grows_def)
    then have "pending_job_ok s job r" using assms(1) by (simp add: jobs_ok_def pending_ok_def)
    then show ?thesis using assms(2) by (simp add: pending_job_ok_def quiet_def)
  qed
  then have "pending_ok t" using assms by (simp add: pending_ok_def jobs_ok_def quiet_def)
  then show ?thesis
    using assms by (simp add: jobs_ok_def requests_ok_def operations_ok_def roles_ok_def quiet_def)
qed

lemma jobs_ok_pending:
  assumes "jobs_ok cfg s" and "hm_get (st_apple_pending s) job = Some r"
  shows "pending_job_ok s job r" and "admissible r"
proof -
  show p: "pending_job_ok s job r" using assms by (simp add: jobs_ok_def pending_ok_def)
  then show "admissible r" using assms(1) operations_okD unfolding pending_job_ok_def jobs_ok_def by blast
qed

text \<open>What a submission may change, besides what every other step may.\<close>

definition jobs_grow :: "durable_state \<Rightarrow> durable_state \<Rightarrow> bool" where
  "jobs_grow s t \<longleftrightarrow> grows (st_apple_requests s) (st_apple_requests t)
     \<and> grows (st_apple_operations s) (st_apple_operations t)
     \<and> grows (st_host_peers s) (st_host_peers t)
     \<and> owners_stay (st_device_peers s) (st_device_peers t)
     \<and> st_recovery_error t = st_recovery_error s"

definition roles_grow :: "durable_state \<Rightarrow> durable_state \<Rightarrow> bool" where
  "roles_grow s t \<longleftrightarrow> grows (st_job_clients s) (st_job_clients t)
     \<and> grows (st_apple_hosts s) (st_apple_hosts t) \<and> grows (st_job_agents s) (st_job_agents t)"

lemma quiet_grow: "quiet s t \<Longrightarrow> jobs_grow s t \<and> roles_grow s t"
  by (simp add: quiet_def jobs_grow_def roles_grow_def)

lemma add_apple_job_ok:
  assumes ok: "jobs_ok cfg s" and new: "hm_get (st_apple_requests s) (ar_idempotency_key r) = None"
    and adm: "admissible r"
  defines "job \<equiv> apple_job_id cfg (ar_idempotency_key r)"
  shows "jobs_ok cfg (add_apple_job peer r job target s) \<and> jobs_grow s (add_apple_job peer r job target s)"
proof -
  let ?t = "add_apple_job peer r job target s" and ?k = "ar_idempotency_key r"
  have noop: "hm_get (st_apple_operations s) ?k = None"
    using ok new operations_okD unfolding jobs_ok_def hm_has_def by (metis not_Some_eq)
  then have grow: "jobs_grow s ?t" using new by (simp add: jobs_grow_def add_apple_job_def grows_insert)
  have old: "hm_get (st_apple_pending s) j = Some q \<Longrightarrow> ar_idempotency_key q \<noteq> ?k" for j q
    using jobs_ok_pending(1) [OF ok] new unfolding pending_job_ok_def by (metis option.distinct(1))
  have "requests_ok cfg ?t"
    using ok by (simp add: add_apple_job_def jobs_ok_def requests_ok_def job_def)
  moreover have "operations_ok ?t"
    using ok adm by (simp add: add_apple_job_def jobs_ok_def operations_ok_def)
  moreover have "pending_ok ?t"
    using ok old by (simp add: add_apple_job_def jobs_ok_def pending_ok_def pending_job_ok_def)
  moreover have "roles_ok ?t"
    unfolding roles_ok_def
  proof (intro allI impI)
    fix j assume "hm_has (st_job_clients ?t) j \<or> hm_has (st_apple_hosts ?t) j \<or> hm_has (st_job_agents ?t) j"
    then have "j = job \<or> (\<exists>k. hm_get (st_apple_requests s) k = Some j)"
      using ok by (auto simp: add_apple_job_def jobs_ok_def roles_ok_def split: option.splits)
    then show "\<exists>k. hm_get (st_apple_requests ?t) k = Some j"
      using grow by (auto simp: jobs_grow_def grows_def) (auto simp: add_apple_job_def)
  qed
  ultimately show ?thesis using grow by (simp add: jobs_ok_def)
qed

lemma add_apple_job_roles:
  assumes ok: "jobs_ok cfg s" and new: "hm_get (st_apple_requests s) (ar_idempotency_key r) = None"
    and inj: "inj (gc_sha cfg)"
  shows "roles_grow s (add_apple_job peer r (apple_job_id cfg (ar_idempotency_key r)) target s)"
proof -
  let ?job = "apple_job_id cfg (ar_idempotency_key r)"
  have "hm_get (st_apple_requests s) k \<noteq> Some ?job" for k
  proof
    assume k: "hm_get (st_apple_requests s) k = Some ?job"
    have "requests_ok cfg s" using ok by (simp add: jobs_ok_def)
    from requests_okD [OF this k] have "gc_sha cfg (ar_idempotency_key r) = gc_sha cfg k"
      by (simp only: apple_job_id_inject)
    from injD [OF inj this] show False using k new by simp
  qed
  then have "\<not> hm_has (st_job_clients s) ?job" "\<not> hm_has (st_apple_hosts s) ?job" "\<not> hm_has (st_job_agents s) ?job"
    using ok by (auto simp: jobs_ok_def roles_ok_def)
  then show ?thesis by (simp add: roles_grow_def add_apple_job_def grows_insert hm_has_def split: option.split)
qed

lemma submit_cases:
  "settle g (apple_run_submit cfg ev peer r g) = g
   \<or> (hm_get (st_apple_requests (rg_state g)) (ar_idempotency_key r) = None
      \<and> (\<exists>target. rg_state (settle g (apple_run_submit cfg ev peer r g))
           = add_apple_job peer r (apple_job_id cfg (ar_idempotency_key r)) target (rg_state g)))"
  by (auto simp: apple_run_submit_def Let_def case_bool_if split: option.split)

text \<open>Every step keeps the job table consistent, and adds to what it records.\<close>

lemma registry_step_jobs:
  assumes "jobs_ok cfg (rg_state g)"
  shows "jobs_ok cfg (rg_state (registry_step cfg e g)) \<and> jobs_grow (rg_state g) (rg_state (registry_step cfg e g))
     \<and> (inj (gc_sha cfg) \<longrightarrow> roles_grow (rg_state g) (rg_state (registry_step cfg e g)))"
proof -
  obtain ev x where e: "e = (ev, x)" by (cases e)
  have q: ?thesis if "quiet (rg_state g) (rg_state (registry_step cfg e g))"
    using that assms jobs_ok_quiet quiet_grow by blast
  show ?thesis
  proof (cases x)
    case (SubmitSection peer r)
    show ?thesis
    proof (cases "admissible r")
      case True
      then show ?thesis
        using submit_cases [of g cfg ev peer r] add_apple_job_ok [OF assms _ True] add_apple_job_roles [OF assms]
          assms e SubmitSection quiet_grow [OF quiet_refl]
        by auto
    qed (use q e SubmitSection in simp)
  qed (use q e inventory_quiet dispatch_quiet whole_request_quiet in
      \<open>simp_all add: heartbeat_expire_def heartbeat_publish_def apple_run_guard_def case_bool_if Let_def
        split: sum.split\<close>)
qed

interpretation registry_run: invariant_machine "registry_step cfg" "\<lambda>g. jobs_ok cfg (rg_state g)" for cfg
  by unfold_locales (simp add: registry_step_jobs)

section \<open>Requests as runs of steps\<close>

lemma guard_admissible:
  assumes "apple_run_guard ev peer r g = (Inr u, g1)" shows "admissible r"
proof (cases "mutates_device (ar_operation r)")
  case True
  then have "holds_lease peer r (expire (ev_now ev) (rg_leases g))" "validate_request_envelope r = Ok ()"
    using assms by (auto simp: apple_run_guard_def Let_def case_bool_if split: sum.splits if_splits)
  then show ?thesis by (auto simp: admissible_def holds_lease_def is_some_and_iff)
next
  case False
  then show ?thesis using assms by (auto simp: admissible_def apple_run_guard_def split: sum.splits)
qed

lemma heartbeat_run:
  "\<exists>events. settle g (heartbeat cfg ev1 ev2 ev3 peer host g) = fold (registry_step cfg) events g"
proof -
  obtain r1 g1 where i: "heartbeat_inventory cfg ev1 peer host g = (r1, g1)" by fastforce
  obtain r2 g2 where e: "heartbeat_expire ev2 g1 = (r2, g2)" by fastforce
  let ?g3 = "heartbeat_publish ev2 host g2"
  have run: "fold (registry_step cfg) [(ev1, InventorySection peer host), (ev2, ExpirySection), (ev2, PublishSection host),
       (ev3, DispatchSection (hs_id host))] g = settle ?g3 (heartbeat_dispatch cfg ev3 (hs_id host) ?g3)"
    using i e by simp_all
  consider (a) x where "r1 = Inl x" | (b) u x where "r1 = Inr u" "r2 = Inl x"
    | (c) "heartbeat_dispatch cfg ev3 (hs_id host) ?g3 = None" "is_ok r1" "is_ok r2"
    | (d) p where "heartbeat_dispatch cfg ev3 (hs_id host) ?g3 = Some p" "is_ok r1" "is_ok r2"
    by (cases r1; cases r2; cases "heartbeat_dispatch cfg ev3 (hs_id host) ?g3") auto
  then show ?thesis
  proof cases
    case a then show ?thesis
      using i by (intro exI [of _ "[(ev1, InventorySection peer host)]"]) (simp add: heartbeat_def)
  next
    case b then show ?thesis
      using i e by (intro exI [of _ "[(ev1, InventorySection peer host), (ev2, ExpirySection)]"])
        (simp add: heartbeat_def)
  next
    case c
    then have "settle g (heartbeat cfg ev1 ev2 ev3 peer host g) = g"
      using i e by (cases r1; cases r2) (simp_all add: heartbeat_def)
    then show ?thesis by (intro exI [of _ "[]"]) simp
  next
    case d
    then have "settle g (heartbeat cfg ev1 ev2 ev3 peer host g) = snd p"
      using i e by (cases r1; cases r2) (simp_all add: heartbeat_def)
    then show ?thesis using d(1) run by (metis settle_simps(2))
  qed
qed

lemma apple_run_run:
  "\<exists>events. settle g (apple_run cfg ev1 ev2 peer r g) = fold (registry_step cfg) events g"
proof -
  obtain x g1 where gd: "apple_run_guard ev1 peer r g = (x, g1)" by fastforce
  show ?thesis
  proof (cases x)
    case (Inl e)
    then show ?thesis using gd by (intro exI [of _ "[(ev1, GuardSection peer r)]"]) (simp add: apple_run_def)
  next
    case (Inr u)
    then have adm: "admissible r" using gd guard_admissible by blast
    show ?thesis
    proof (cases "apple_run_submit cfg ev2 peer r g1")
      case None
      then show ?thesis using gd Inr by (intro exI [of _ "[]"]) (simp add: apple_run_def)
    next
      case (Some p)
      then have "fold (registry_step cfg) [(ev1, GuardSection peer r), (ev2, SubmitSection peer r)] g = snd p"
        using gd adm by simp
      moreover have "settle g (apple_run cfg ev1 ev2 peer r g) = snd p"
        using gd Inr Some by (simp add: apple_run_def)
      ultimately show ?thesis by metis
    qed
  qed
qed

text \<open>
  Handling a request is a run of critical sections: whatever the request, the peer and the outcomes
  of the saves, the state after it is one that the steps of the machine reach, so that what every
  interleaving of the steps keeps, the registry keeps.
\<close>

theorem handling_is_a_run:
  "\<exists>events. settle g (handle_request cfg ev peer r g) = fold (registry_step cfg) events g"
proof (cases "handle_request cfg ev peer r g = handle_open_request cfg ev peer r g")
  case True
  show ?thesis
  proof (cases "sectioned r")
    case s: True
    show ?thesis
    proof (cases r)
      case (HeartbeatRequest h)
      then show ?thesis using True heartbeat_run by simp
    next
      case (AppleRunRequest q)
      then show ?thesis using True apple_run_run by simp
    qed (use s in simp_all)
  next
    case False
    then have "handle_open_request cfg (\<lambda>_. ev 0) peer r g = handle_open_request cfg ev peer r g"
      by (cases r) simp_all
    then have "handle_request cfg (\<lambda>_. ev 0) peer r g = handle_request cfg ev peer r g"
      by (simp add: handle_request_def split: option.split)
    then have "fold (registry_step cfg) [(ev 0, WholeRequest peer r)] g = settle g (handle_request cfg ev peer r g)"
      using False by simp
    then show ?thesis by metis
  qed
next
  case False
  then have "settle g (handle_request cfg ev peer r g) = g"
    by (auto simp: handle_request_def split: option.splits if_splits)
  then show ?thesis by (intro exI [of _ "[]"]) simp
qed

section \<open>Durability of accepted jobs\<close>

text \<open>The idempotency tables of a running registry are those on disk.\<close>

definition tables_durable :: "registry \<Rightarrow> bool" where
  "tables_durable g \<longleftrightarrow> (st_recovery_error (rg_state g) = None \<longrightarrow>
     st_apple_requests (rg_disk_state g) = st_apple_requests (rg_state g)
     \<and> st_apple_operations (rg_disk_state g) = st_apple_operations (rg_state g))"

definition disk_follows :: "registry \<Rightarrow> registry \<Rightarrow> bool" where
  "disk_follows g h \<longleftrightarrow> rg_disk_state h = rg_disk_state g
     \<or> (st_apple_requests (rg_disk_state h) = st_apple_requests (rg_state h)
        \<and> st_apple_operations (rg_disk_state h) = st_apple_operations (rg_state h))"

lemma disk_follows_same [simp, intro]: "rg_disk_state h = rg_disk_state g \<Longrightarrow> disk_follows g h"
  by (simp add: disk_follows_def)

lemma durable_quiet:
  "tables_durable g \<Longrightarrow> quiet (rg_state g) (rg_state h) \<Longrightarrow> disk_follows g h \<Longrightarrow> tables_durable h"
  by (auto simp: tables_durable_def quiet_def disk_follows_def)

lemma persist_state_follows:
  assumes "rg_disk_state h = rg_disk_state g"
  shows "disk_follows g (snd (persist_state w h))"
  using assms by (auto simp: disk_follows_def persist_state_def)

lemma persist_leases_follows [simp]: "disk_follows g (snd (persist_leases w h)) = disk_follows g h"
  by (simp add: disk_follows_def)

lemma finish_dispatch_follows:
  assumes "rg_disk_state h = rg_disk_state g"
  shows "disk_follows g (snd (finish_dispatch ev r h))"
proof -
  let ?h = "snd (persist_state (ev_state_save ev) h)"
  have "st_apple_requests (fst (snd (reconcile_runtime_state now s b))) = st_apple_requests s"
    "st_apple_operations (fst (snd (reconcile_runtime_state now s b))) = st_apple_operations s" for now s b
    using reconcile_quiet [of s now b] by (simp_all add: quiet_def)
  then have "disk_follows g (?h\<lparr>rg_state := fst (snd (reconcile_runtime_state now
      ((rg_state h)\<lparr>st_dispatched := D\<rparr>) b)), rg_leases := c\<rparr>)" for now D b c
    using persist_state_follows [OF assms, of "ev_state_save ev"] by (simp add: disk_follows_def)
  then show ?thesis
    using persist_state_follows [OF assms]
    by (simp add: finish_dispatch_def Let_def case_bool_if split: option.split prod.split)
      (metis fst_conv snd_conv)
qed

lemma dispatch_apple_follows:
  assumes "rg_disk_state h = rg_disk_state g"
  shows "disk_follows g (settle h (dispatch_apple cfg ev job op r h))"
proof -
  have fence: "rg_disk_state h1 = rg_disk_state g" if "fence_job cfg ev job d l h = Some (f, h1)" for d l f h1
    using that assms by (auto simp: fence_job_def Let_def case_bool_if split: option.splits if_splits)
  have "disk_follows g h" using assms by (simp add: disk_follows_def)
  then show ?thesis
    using assms finish_dispatch_follows fence
    by (auto simp: dispatch_apple_def Let_def disk_follows_def split: option.split prod.split fencing.split)
qed

lemma dispatch_follows: "disk_follows g (settle g (heartbeat_dispatch cfg ev host g))"
proof -
  obtain r g0 where p: "dispatch_manifest host g = (r, g0)" by fastforce
  then have same: "rg_disk_state g0 = rg_disk_state g"
    by (auto simp: dispatch_manifest_def split: option.splits)
  have "disk_follows g (settle g0 (dispatch_apple cfg ev job op r g0))" for job op
    by (rule dispatch_apple_follows [OF same])
  then have "disk_follows g (settle g (dispatch_apple cfg ev job op r g0))" for job op
    by (cases "dispatch_apple cfg ev job op r g0") (simp_all, metis settle_simps(2))
  then show ?thesis
    using p finish_dispatch_follows [OF same] by (simp add: heartbeat_dispatch_eq split: option.split prod.split)
qed

lemma save_progress_follows:
  "rg_disk_state h = rg_disk_state g \<Longrightarrow> disk_follows g (snd (save_progress ev job restored terminal h))"
  by (auto simp: save_progress_def case_bool_if disk_follows_def persist_state_def persist_leases_def)

lemma whole_request_follows:
  assumes "\<not> sectioned r"
  shows "disk_follows g (settle g (handle_request cfg ev peer r g))"
proof -
  have "disk_follows g (settle g (handle_open_request cfg ev peer r g))"
  proof (cases r)
    case (AppleProgressRequest job events terminal)
    have "disk_follows g (snd (report_progress (ev 0) job events g))"
      by (simp add: report_progress_def case_bool_if save_progress_follows split: sum.split prod.split)
    moreover have "disk_follows g (snd (report_terminal (ev 0) job events g))"
      by (simp add: report_terminal_def save_progress_follows split: prod.split)
    ultimately show ?thesis using AppleProgressRequest by (simp add: apple_progress_def)
  qed (use assms in \<open>auto simp: complete_job_def Let_def case_bool_if persist_state_def disk_follows_def
      with_artifacts_def apple_cancel_def run_submit_def authenticate_dashboard_access_def registry_lease_def
      split: option.split prod.split sum.split\<close>)
  then show ?thesis by (simp add: handle_request_def split: option.split)
qed

lemma submit_follows: "disk_follows g (settle g (apple_run_submit cfg ev peer r g))"
  by (auto simp: apple_run_submit_def Let_def case_bool_if persist_state_def disk_follows_def split: option.split)

lemma submit_durable:
  assumes "tables_durable g" shows "tables_durable (settle g (apple_run_submit cfg ev peer r g))"
  using assms
  by (auto simp: apple_run_submit_def Let_def case_bool_if persist_state_def tables_durable_def split: option.split)

lemma registry_step_durable:
  assumes "tables_durable g" shows "tables_durable (registry_step cfg e g)"
proof -
  obtain ev x where e: "e = (ev, x)" by (cases e)
  have q: ?thesis if "quiet (rg_state g) (rg_state (registry_step cfg e g))" "disk_follows g (registry_step cfg e g)"
    using that assms durable_quiet by blast
  show ?thesis
  proof (cases x)
    case (InventorySection peer host)
    have "rg_disk_state (snd (heartbeat_inventory cfg ev peer host g)) = rg_disk_state g"
      by (simp add: heartbeat_inventory_def Let_def case_bool_if split: prod.split)
    then show ?thesis using q e InventorySection inventory_quiet by (simp add: disk_follows_def)
  next
    case (SubmitSection peer r)
    then show ?thesis using assms e submit_durable by simp
  qed (use q e dispatch_quiet whole_request_quiet dispatch_follows whole_request_follows in
      \<open>simp_all add: heartbeat_expire_def heartbeat_publish_def apple_run_guard_def case_bool_if Let_def
        disk_follows_def split: sum.split\<close>)
qed

interpretation durable_run: invariant_machine "registry_step cfg" tables_durable for cfg
  by unfold_locales (rule registry_step_durable)

section \<open>Properties of the job table\<close>

text \<open>What a run never takes away.\<close>

definition tables_grow :: "durable_state \<Rightarrow> durable_state \<Rightarrow> bool" where
  "tables_grow s t \<longleftrightarrow> grows (st_apple_requests s) (st_apple_requests t)
     \<and> grows (st_apple_operations s) (st_apple_operations t)
     \<and> grows (st_host_peers s) (st_host_peers t) \<and> st_recovery_error t = st_recovery_error s"

lemma tables_grow_trans: "tables_grow s t \<Longrightarrow> tables_grow t u \<Longrightarrow> tables_grow s u"
  by (auto simp: tables_grow_def dest: grows_trans)

lemma run_tables:
  assumes "jobs_ok cfg (rg_state g)"
  shows "tables_grow (rg_state g) (rg_state (fold (registry_step cfg) events g))
     \<and> (inj (gc_sha cfg) \<longrightarrow> roles_grow (rg_state g) (rg_state (fold (registry_step cfg) events g)))"
  using assms
proof (induction events arbitrary: g)
  case Nil
  then show ?case by (simp add: tables_grow_def roles_grow_def)
next
  case (Cons e events)
  let ?h = "registry_step cfg e g"
  have s: "tables_grow (rg_state g) (rg_state ?h)" "jobs_ok cfg (rg_state ?h)"
    "inj (gc_sha cfg) \<longrightarrow> roles_grow (rg_state g) (rg_state ?h)"
    using registry_step_jobs [OF Cons.prems, of e] by (simp_all add: tables_grow_def jobs_grow_def)
  then show ?case
    using Cons.IH [OF s(2)] tables_grow_trans [OF s(1)] by (auto simp: roles_grow_def dest: grows_trans)
qed

definition job_reply :: "string \<Rightarrow> reply" where
  "job_reply job = Reply (ok_response\<lparr>rs_job_id := Some job\<rparr>)"

lemma job_reply_inject [simp]:
  "Reply (ok_response\<lparr>rs_job_id := Some a\<rparr>) = job_reply b \<longleftrightarrow> a = b"
proof
  assume "Reply (ok_response\<lparr>rs_job_id := Some a\<rparr>) = job_reply b"
  then have "rs_job_id (ok_response\<lparr>rs_job_id := Some a\<rparr>) = rs_job_id (ok_response\<lparr>rs_job_id := Some b\<rparr>)"
    by (simp only: job_reply_def reply.inject)
  then show "a = b" by simp
qed (simp add: job_reply_def)

lemma refuse_no_job_reply [simp]: "refuse e \<noteq> job_reply b"
  by (simp add: job_reply_def)

lemma submit_known:
  "hm_get (st_apple_requests (rg_state g)) (ar_idempotency_key r) = Some job \<Longrightarrow>
   hm_get (st_apple_operations (rg_state g)) (ar_idempotency_key r) = Some q \<Longrightarrow>
     apple_run_submit cfg ev peer r g
       = Some (if q = r then job_reply job else refuse ''idempotency_conflict'', g)"
  by (simp add: apple_run_submit_def job_reply_def)

lemma submit_accepted:
  assumes ok: "jobs_ok cfg (rg_state g)" and run: "apple_run_submit cfg ev peer r g = Some (job_reply job, h)"
  shows "hm_get (st_apple_requests (rg_state h)) (ar_idempotency_key r) = Some job
     \<and> hm_get (st_apple_operations (rg_state h)) (ar_idempotency_key r) = Some r"
proof (cases "hm_get (st_apple_requests (rg_state g)) (ar_idempotency_key r)")
  case None
  then show ?thesis
    using run by (auto simp: apple_run_submit_def Let_def case_bool_if add_apple_job_def
        split: option.splits if_splits)
next
  case (Some j)
  then have "hm_has (st_apple_operations (rg_state g)) (ar_idempotency_key r)"
    using ok unfolding jobs_ok_def requests_ok_def by blast
  then show ?thesis
    using run Some by (auto simp: apple_run_submit_def hm_has_def split: if_splits)
qed

lemma start_quiet:
  assumes "start_registry ev rej (Loaded s) lb h = Some g" shows "quiet s (rg_state g)"
proof (cases "try_load_leases (ev_now ev) lb")
  case None
  then show ?thesis using assms by (simp add: start_registry_def Let_def split: if_splits)
next
  case (Some b)
  obtain c s2 b2 where r: "reconcile_runtime_state (ev_now ev) s b = (c, s2, b2)" by (cases rule: prod_cases3)
  have "rg_state g = s2"
    using assms Some r by (auto simp: start_registry_def Let_def case_bool_if split: if_splits)
  then show ?thesis using reconcile_quiet [of s "ev_now ev" b] r by simp
qed

section \<open>A concrete registry\<close>

definition sample_config :: registry_config where
  "sample_config = \<lparr>gc_offline_after = 30000, gc_agent_peers = {''agent''}, gc_sha = (\<lambda>s. s),
     gc_crypto = pair_crypto, gc_codec = sample_session_codec, gc_assertion_json = (\<lambda>a. [])\<rparr>"

definition sample_env :: env where
  "sample_env = \<lparr>ev_now = 5, ev_instant = 5, ev_random = [], ev_leases_save = Saved, ev_state_save = Saved,
     ev_leases_resave = Saved, ev_files = sample_io\<rparr>"

definition sample_mac :: host_snapshot where
  "sample_mac = \<lparr>hs_id = ''mac'', hs_operating_system = ''macos'', hs_architecture = ''arm64'',
     hs_status = ''online'', hs_capabilities = [''apple.discovery@1'', ''apple.simulator@1''],
     hs_devices = [\<lparr>ds_id = ''sim'', ds_platform = ''ios'', ds_state = ''connected''\<rparr>]\<rparr>"

definition sample_discovery :: apple_request where
  "sample_discovery = \<lparr>ar_version = \<lparr>rv_major = 1, rv_minor = 0\<rparr>, ar_request_id = ''r'',
     ar_idempotency_key = ''k'', ar_capability = ''apple.discovery@1'', ar_workspace_path = ''w'',
     ar_device_id = None, ar_lease_id = None, ar_operation = Discovery\<rparr>"

definition sample_launch :: apple_request where
  "sample_launch = \<lparr>ar_version = \<lparr>rv_major = 1, rv_minor = 0\<rparr>, ar_request_id = ''r'',
     ar_idempotency_key = ''l'', ar_capability = ''apple.simulator@1'', ar_workspace_path = ''w'',
     ar_device_id = Some ''sim'', ar_lease_id = Some ''lease-1'', ar_operation = LaunchApp ''a.b''\<rparr>"

definition sample_book :: lease_book where
  "sample_book = \<lparr>next_id = 1,
     active = [(''sim'', \<lparr>dl_id = ''lease-1'', dl_device_id = ''sim'', dl_client_id = ''c1'',
                         dl_expires_at_ms = 1000\<rparr>)],
     waiting = [], writers = [], pending_release = {}, pending_detach = {}\<rparr>"

definition sample_registry :: registry where
  "sample_registry = \<lparr>rg_entries = [(''mac'', \<lparr>ge_host = sample_mac, ge_heartbeat = 0\<rparr>)],
     rg_state = durable_state_default\<lparr>st_host_peers := [(''mac'', ''agent'')],
       st_device_peers := [(''sim'', ''agent'')]\<rparr>,
     rg_leases = sample_book, rg_artifacts = empty_store, rg_transport = machine ''registry'',
     rg_disk_state = durable_state_default, rg_disk_leases = sample_book\<rparr>"

lemma sample_jobs_ok: "jobs_ok cfg (rg_state sample_registry)" "tables_durable sample_registry"
  "st_recovery_error (rg_state sample_registry) = None"
  by (simp_all add: sample_registry_def jobs_ok_def requests_ok_def operations_ok_def pending_ok_def roles_ok_def
      durable_state_default_def tables_durable_def)

lemma sample_admissible: "admissible sample_discovery" "admissible sample_launch"
  by code_simp+

definition submitted :: "apple_request \<Rightarrow> registry" where
  "submitted r = settle sample_registry (apple_run_submit sample_config sample_env ''c1'' r sample_registry)"

lemmas sample_defs = sample_registry_def sample_config_def sample_env_def sample_mac_def
  durable_state_default_def

lemma add_apple_job_recovery [simp]:
  "st_recovery_error (add_apple_job peer r job target s) = st_recovery_error s"
  by (simp add: add_apple_job_def)

lemma sample_submit:
  assumes "r = sample_discovery \<or> r = sample_launch"
  shows "apple_run_submit sample_config sample_env ''c1'' r sample_registry
     = Some (job_reply (apple_job_id sample_config (ar_idempotency_key r)), submitted r)"
  using assms
  by (elim disjE) (simp_all add: submitted_def apple_run_submit_def Let_def case_bool_if job_reply_def
      sample_defs sample_discovery_def sample_launch_def eligible_entry_def apple_host_is_current_def)

section \<open>What the job table promises\<close>



text \<open>
  Roles are fixed: who submitted a job, which host and which agent run it, and which peer speaks for a
  host, never change over any run of requests. (The digest of the job identifier is taken to be
  injective: two keys with one digest would share a job.)
\<close>

theorem job_roles_are_fixed:
  assumes "jobs_ok cfg (rg_state g)" and "inj (gc_sha cfg)"
  shows "let s = rg_state g; t = rg_state (fold (registry_step cfg) events g) in
     (hm_get (st_job_clients s) job = Some c \<longrightarrow> hm_get (st_job_clients t) job = Some c)
   \<and> (hm_get (st_job_agents s) job = Some a \<longrightarrow> hm_get (st_job_agents t) job = Some a)
   \<and> (hm_get (st_apple_hosts s) job = Some h \<longrightarrow> hm_get (st_apple_hosts t) job = Some h)
   \<and> (hm_get (st_host_peers s) host = Some p \<longrightarrow> hm_get (st_host_peers t) host = Some p)"
  using run_tables [OF assms(1), of events] assms(2)
  by (simp add: tables_grow_def roles_grow_def grows_def)

theorem job_roles_are_fixed_witness:
  "hm_get (st_host_peers (rg_state (submitted sample_discovery))) ''mac'' = Some ''agent''"
proof -
  have "inj (gc_sha sample_config)" by (simp add: sample_config_def inj_on_def)
  from job_roles_are_fixed [OF sample_jobs_ok(1) this, where host = "''mac''" and p = "''agent''"
      and events = "[(sample_env, SubmitSection ''c1'' sample_discovery)]"]
  show ?thesis by (simp add: submitted_def sample_admissible Let_def) (simp add: sample_registry_def hm_get_def)
qed

lemma client_job_id:
  assumes "jobs_ok cfg s" and "hm_has (st_job_clients s) job"
  shows "\<exists>k. hm_get (st_apple_requests s) k = Some job \<and> job = apple_job_id cfg k"
proof -
  obtain k where k: "hm_get (st_apple_requests s) k = Some job"
    using assms unfolding jobs_ok_def roles_ok_def by blast
  moreover have "requests_ok cfg s" using assms(1) by (simp add: jobs_ok_def)
  ultimately show ?thesis using requests_okD by blast
qed

lemma step_log:
  assumes ok: "jobs_ok cfg (rg_state g)" and inj: "inj (gc_sha cfg)" and m: "manifest_ok (rg_state g)"
    and job: "hm_has (st_job_clients (rg_state g)) job"
  shows "manifest_ok (rg_state (registry_step cfg e g)) \<and> log_extends job (rg_state g) (rg_state (registry_step cfg e g))"
proof -
  obtain k where k: "hm_get (st_apple_requests (rg_state g)) k = Some job" "job = ''apple-'' @ gc_sha cfg k"
    using client_job_id [OF ok job] by (auto simp: apple_job_id_def)
  have kept: ?thesis if "quiet (rg_state g) (rg_state (registry_step cfg e g))"
    using that m k(2) by (simp add: quiet_def logs_kept_def)
  obtain ev x where e: "e = (ev, x)" by (cases e)
  show ?thesis
  proof (cases x)
    case (SubmitSection peer r)
    have "manifest_ok t \<and> log_extends job (rg_state g) t"
      if new: "hm_get (st_apple_requests (rg_state g)) (ar_idempotency_key r) = None"
        and t: "t = add_apple_job peer r (apple_job_id cfg (ar_idempotency_key r)) target (rg_state g)" for target t
    proof -
      have "job \<noteq> apple_job_id cfg (ar_idempotency_key r)"
        using k new injD [OF inj, of "ar_idempotency_key r" k] by (auto simp: apple_job_id_def)
      then show ?thesis using t m by (simp add: add_apple_job_def manifest_ok_def log_extends_def)
    qed
    then show ?thesis
      using submit_cases [of g cfg ev peer r] e SubmitSection m by auto
  qed (use kept e inventory_quiet dispatch_quiet whole_request_quiet in
      \<open>simp_all add: heartbeat_expire_def heartbeat_publish_def apple_run_guard_def case_bool_if Let_def
        split: sum.split\<close>)
qed

text \<open>
  The log of a job is append-only: whatever requests come, the events a client has seen stay where
  they are, so that asking for the events after the last one it knows misses none of the old ones.
\<close>

theorem job_log_append_only:
  assumes "jobs_ok cfg (rg_state g)" and "inj (gc_sha cfg)" and "manifest_ok (rg_state g)"
    and "hm_has (st_job_clients (rg_state g)) job" and "hm_get (st_jobs (rg_state g)) job = Some es"
  shows "\<exists>later. hm_get (st_jobs (rg_state (fold (registry_step cfg) events g))) job = Some (es @ later)"
proof -
  have "log_extends job (rg_state g) (rg_state (fold (registry_step cfg) events g))"
    using assms(1,3,4)
  proof (induction events arbitrary: g)
    case (Cons e events)
    let ?h = "registry_step cfg e g"
    have s: "jobs_ok cfg (rg_state ?h)" "hm_has (st_job_clients (rg_state ?h)) job"
      using registry_step_jobs [OF Cons.prems(1), of e] assms(2) Cons.prems(3)
      by (auto simp: roles_grow_def grows_def hm_has_def)
    have l: "manifest_ok (rg_state ?h)" "log_extends job (rg_state g) (rg_state ?h)"
      using step_log [OF Cons.prems(1) assms(2) Cons.prems(2,3), of e] by simp_all
    from Cons.IH [OF s(1) l(1) s(2)] show ?case using log_extends_trans [OF l(2)] by simp
  qed simp
  then show ?thesis using assms(5) by (simp add: log_extends_def)
qed

theorem job_log_append_only_witness:
  "\<exists>later. hm_get (st_jobs (rg_state (fold (registry_step sample_config)
      [(sample_env, WholeRequest ''c1'' (AppleCancelRequest ''apple-k''))] (submitted sample_discovery)))) ''apple-k''
    = Some ([] @ later)"
proof (rule job_log_append_only)
  show "jobs_ok sample_config (rg_state (submitted sample_discovery))"
    using registry_step_jobs [OF sample_jobs_ok(1), of sample_config "(sample_env, SubmitSection ''c1'' sample_discovery)"]
    by (simp add: submitted_def sample_admissible)
  show "inj (gc_sha sample_config)" by (simp add: sample_config_def inj_on_def)
  have s: "rg_state (submitted sample_discovery)
      = add_apple_job ''c1'' sample_discovery ''apple-k'' ''mac'' (rg_state sample_registry)"
    by (simp add: submitted_def apple_run_submit_def Let_def case_bool_if sample_defs sample_discovery_def
        eligible_entry_def apple_host_is_current_def apple_job_id_def)
  show "manifest_ok (rg_state (submitted sample_discovery))"
    "hm_has (st_job_clients (rg_state (submitted sample_discovery))) ''apple-k''"
    "hm_get (st_jobs (rg_state (submitted sample_discovery))) ''apple-k'' = Some []"
    unfolding s by (simp_all add: manifest_ok_def add_apple_job_def sample_registry_def durable_state_default_def)
qed

text \<open>
  A device cannot be taken over: no single step of any peer, with whatever inventory, makes another
  peer the owner of a device that has one; the device can only become free first.
\<close>

theorem device_owner_not_overwritten:
  assumes "jobs_ok cfg (rg_state g)" and "hm_get (st_device_peers (rg_state g)) device = Some p"
  shows "hm_get (st_device_peers (rg_state (registry_step cfg e g))) device \<in> {Some p, None}"
  using registry_step_jobs [OF assms(1), of e] assms(2) by (auto simp: jobs_grow_def owners_stay_def)

theorem device_owner_not_overwritten_witness:
  "hm_get (st_device_peers (rg_state (registry_step
     (sample_config\<lparr>gc_agent_peers := {''agent'', ''agent2''}\<rparr>) (sample_env, InventorySection ''agent2'' (sample_mac\<lparr>hs_id := ''pc''\<rparr>))
     sample_registry))) ''sim'' \<in> {Some ''agent'', None}"
  by (rule device_owner_not_overwritten [OF sample_jobs_ok(1)]) (simp add: sample_registry_def hm_get_def)

text \<open>
  After a recovery error the registry is read-only: every request that could change something is
  refused with that error and the connection is closed, and no request changes any state, in memory
  or on disk.
\<close>

theorem recovery_is_read_only:
  assumes "st_recovery_error (rg_state g) = Some e"
  shows "settle g (handle_request cfg ev peer r g) = g
     \<and> (\<not> read_only_during_recovery r \<longrightarrow> handle_request cfg ev peer r g = Some (refuse e, g))"
  using assms by (cases r) (auto simp: handle_request_def split: prod.split)

theorem recovery_is_read_only_witness:
  "handle_request sample_config (\<lambda>_. sample_env) ''c1'' (AppleRunRequest sample_launch)
      (update_state (\<lambda>s. s\<lparr>st_recovery_error := Some ''recovery_state_corrupt''\<rparr>) sample_registry)
   = Some (refuse ''recovery_state_corrupt'',
       update_state (\<lambda>s. s\<lparr>st_recovery_error := Some ''recovery_state_corrupt''\<rparr>) sample_registry)"
  using recovery_is_read_only [of "update_state (\<lambda>s. s\<lparr>st_recovery_error := Some ''recovery_state_corrupt''\<rparr>)
      sample_registry" "''recovery_state_corrupt''" sample_config "\<lambda>_. sample_env" "''c1''" "AppleRunRequest sample_launch"]
  by simp

end
