(* ===== verification/RegistryFence.thy ===== *)
theory RegistryFence
  imports RegistryServer
begin

text \<open>
  The device a running job writes to (\<open>registry_runtime.rs\<close>): a job that an agent has acknowledged keeps
  its writer fence and its client the lease, whatever requests of whatever peers come, until the agent
  reports its end or detaches the device; a job is only handed out with a signed grant for a device
  that no other job is writing to. The last section holds what the code does not promise.
\<close>

section \<open>A running job\<close>

definition job_alive :: "string \<Rightarrow> apple_request \<Rightarrow> string \<Rightarrow> durable_state \<Rightarrow> bool" where
  "job_alive job r client s \<longleftrightarrow> hm_get (st_apple_pending s) job = Some r
     \<and> job \<in> st_acknowledged s \<and> job \<in> st_dispatched s \<and> hm_get (st_job_clients s) job = Some client"

definition book_holds :: "string \<Rightarrow> string \<Rightarrow> string \<Rightarrow> string \<Rightarrow> lease_book \<Rightarrow> bool" where
  "book_holds job d i client b \<longleftrightarrow> book_wf b \<and> hm_get (writers b) d = Some \<lparr>dw_job_id = job\<rparr>
     \<and> (\<exists>l. hm_get (active b) d = Some l \<and> dl_id l = i \<and> dl_client_id l = client)"

text \<open>The job \<open>job\<close> with request \<open>r\<close> is running on \<open>d\<close> for \<open>client\<close>, under the lease the request names.\<close>

definition running :: "string \<Rightarrow> apple_request \<Rightarrow> string \<Rightarrow> string \<Rightarrow> string \<Rightarrow> registry \<Rightarrow> bool" where
  "running job r d i client g \<longleftrightarrow> job_alive job r client (rg_state g) \<and> book_holds job d i client (rg_leases g)
     \<and> ar_device_id r = Some d \<and> ar_lease_id r = Some i \<and> mutates_device (ar_operation r)"

section \<open>Operations on the book\<close>

lemma holds_wf: "book_holds job d i c b \<Longrightarrow> book_wf b"
  by (simp add: book_holds_def)

lemma holds_fenced: "book_holds job d i c b \<Longrightarrow> hm_has (writers b) d"
  by (simp add: book_holds_def hm_has_def)

lemma holds_cong:
  "book_wf b' \<Longrightarrow> hm_get (writers b') d = hm_get (writers b) d \<Longrightarrow> hm_get (active b') d = hm_get (active b) d \<Longrightarrow>
     book_holds job d i c b \<Longrightarrow> book_holds job d i c b'"
  by (simp add: book_holds_def)

lemma holds_expire:
  assumes "book_holds job d i c b" shows "book_holds job d i c (expire now b)"
  using expire_fenced [OF holds_fenced [OF assms], of now] assms
  by (intro holds_cong [OF _ _ _ assms] expire_wf) (simp_all add: book_holds_def)

lemma holds_release:
  assumes "book_holds job d i c b" shows "book_holds job d i c (release_device now e b)"
  using release_device_fenced [OF holds_fenced [OF assms]] assms
  by (intro holds_cong [OF _ _ _ assms] release_device_wf) (simp_all add: book_holds_def)

lemma holds_pending [simp]:
  "book_holds job d i c (b\<lparr>pending_detach := P\<rparr>) = book_holds job d i c b"
  "book_holds job d i c (b\<lparr>pending_release := P\<rparr>) = book_holds job d i c b"
  by (simp_all add: book_holds_def)

lemma holds_detach: "book_holds job d i c b \<Longrightarrow> book_holds job d i c (detach_inventory now e b)"
  by (simp add: detach_inventory_def holds_release)

lemma holds_fold_detach:
  "book_holds job d i c b \<Longrightarrow> book_holds job d i c (snd (fold (detach_one now) es (dp, b)))"
proof (induction es arbitrary: dp b)
  case (Cons e es)
  then show ?case by (simp add: detach_one_def holds_detach)
qed simp

lemma holds_new_writer:
  "book_holds job d i c b \<Longrightarrow> e \<noteq> d \<Longrightarrow>
     book_holds job d i c (b\<lparr>writers := hm_insert e w (writers b)\<rparr>)"
  by (auto simp: book_holds_def book_wf_def)

lemma holds_drop:
  assumes h: "book_holds job d i c b" and e: "e \<noteq> d"
  shows "book_holds job d i c (snd (drop_writer now e (s, b)))"
proof -
  have "book_holds job d i c (b\<lparr>writers := hm_remove e (writers b)\<rparr>)"
    using h e by (auto simp: book_holds_def book_wf_def)
  then show ?thesis by (simp add: drop_writer_def Let_def holds_release)
qed

lemma holds_fold_drop:
  "book_holds job d i c b \<Longrightarrow> d \<notin> set es \<Longrightarrow>
     book_holds job d i c (snd (fold (drop_writer now) es (s, b)))"
proof (induction es arbitrary: s b)
  case (Cons e es)
  obtain s1 b1 where "drop_writer now e (s, b) = (s1, b1)" by fastforce
  then show ?case using Cons holds_drop [OF Cons.prems(1), of e now s] by auto
qed simp

lemma holds_other_writers:
  "book_holds job d i c b \<Longrightarrow> d \<notin> set (hm_keys (filter (\<lambda>(e, w). P w) (writers b)))"
  if "\<not> P \<lparr>dw_job_id = job\<rparr>"
  using that by (auto simp: book_holds_def book_wf_def hm_keys_def hm_in_set_get)

lemma holds_reconcile:
  assumes "book_holds job d i c b" and "job_alive job r c s"
  shows "book_holds job d i c (snd (snd (reconcile_runtime_state now s b)))"
proof -
  have "\<not> orphaned_writer s \<lparr>dw_job_id = job\<rparr>"
    using assms(2) by (simp add: orphaned_writer_def job_alive_def hm_has_def)
  from holds_other_writers [of "orphaned_writer s", OF this assms(1)] show ?thesis
    by (simp add: reconcile_runtime_state_def Let_def holds_fold_drop [OF assms(1)])
qed

lemma holds_finish:
  assumes "book_holds job d i c b" and "other \<noteq> job"
  shows "book_holds job d i c (snd (finish_job now other (s, b)))"
proof -
  have "\<not> dw_job_id \<lparr>dw_job_id = job\<rparr> = other" using assms(2) by simp
  from holds_other_writers [of "\<lambda>w. dw_job_id w = other", OF this assms(1)] show ?thesis
    using holds_fold_drop [OF assms(1)] by (simp add: finish_job_def Let_def split: prod.split) (metis snd_conv)
qed

lemma holds_filter:
  assumes "book_holds job d i c b" and "other \<noteq> job"
  shows "book_holds job d i c (b\<lparr>writers := filter (\<lambda>(e, w). dw_job_id w \<noteq> other) (writers b)\<rparr>)"
  using assms by (auto simp: book_holds_def book_wf_def hm_get_filter)

lemma holds_lease:
  assumes h: "book_holds job d i c b" and req: "req \<noteq> AgentDetach d"
    and run: "lease sign now p ag req dp b = Some (x, dp', b')"
  shows "book_holds job d i c b'"
proof -
  have e: "book_holds job d i c (expire now b)" using h holds_expire by blast
  then obtain l where l: "hm_get (active (expire now b)) d = Some l" "dl_id l = i" "dl_client_id l = c"
    by (auto simp: book_holds_def)
  have wf: "book_wf (expire now b)" using e holds_wf by blast
  then have "holder_kept d l (expire now b) b'"
    using lease_request_op_fenced [OF _ holds_fenced [OF e] l(1) req] run by (simp add: lease_def book_wf_def)
  moreover have "book_wf b'" using lease_request_op_wf [OF wf] run by (simp add: lease_def)
  ultimately show ?thesis using e l by (auto simp: book_holds_def holder_kept_def)
qed

section \<open>Operations on the job table\<close>

lemma alive_cong:
  assumes "st_apple_pending t = st_apple_pending s" "st_job_clients t = st_job_clients s"
    and "job \<in> st_acknowledged s \<longrightarrow> job \<in> st_acknowledged t" "job \<in> st_dispatched s \<longrightarrow> job \<in> st_dispatched t"
    and "job_alive job r c s"
  shows "job_alive job r c t"
  using assms by (simp add: job_alive_def)

lemma alive_device_peers [simp]: "job_alive job r c (s\<lparr>st_device_peers := dp\<rparr>) = job_alive job r c s"
  by (simp add: job_alive_def)

lemma alive_drop [simp]: "job_alive job r c (fst (fold (drop_writer now) es (s, b))) = job_alive job r c s"
proof -
  obtain dp where "fst (fold (drop_writer now) es (s, b)) = s\<lparr>st_device_peers := dp\<rparr>"
    using fold_drop_writer_state by blast
  then show ?thesis by simp
qed

lemma alive_reconcile [simp]: "job_alive job r c (fst (snd (reconcile_runtime_state now s b))) = job_alive job r c s"
  by (simp add: reconcile_runtime_state_def Let_def)

lemma alive_push [simp]: "job_alive job r c (push_job_event j k p s) = job_alive job r c s"
  by (simp add: job_alive_def)

lemma alive_remove: "j \<noteq> job \<Longrightarrow> job_alive job r c s \<Longrightarrow>
    job_alive job r c (s\<lparr>st_apple_pending := hm_remove j (st_apple_pending s)\<rparr>)"
  by (simp add: job_alive_def)

lemma alive_dispatched: "job_alive job r c s \<Longrightarrow> job_alive job r c (mark_dispatched j s)"
  by (simp add: job_alive_def mark_dispatched_def)

lemma alive_reject: "j \<noteq> job \<Longrightarrow> job_alive job r c s \<Longrightarrow> job_alive job r c (reject_job j s)"
  by (simp add: reject_job_def alive_remove)

lemma alive_undispatch:
  "j \<noteq> job \<Longrightarrow> job_alive job r c s \<Longrightarrow> job_alive job r c (s\<lparr>st_dispatched := st_dispatched s - {j}\<rparr>)"
  by (simp add: job_alive_def)

lemma alive_record [simp]: "job_alive job r c (record_events j es s) = job_alive job r c s"
  by (simp add: job_alive_def record_events_def)

lemma alive_finish:
  assumes "j \<noteq> job" "job_alive job r c s"
  shows "job_alive job r c (fst (finish_job now j (s, b)))"
proof -
  let ?t = "fst (fold (drop_writer now) (hm_keys (filter (\<lambda>(d, w). dw_job_id w = j) (writers b))) (s, b))"
  have "job_alive job r c ?t" using assms by simp
  then show ?thesis using assms(1)
    by (simp add: finish_job_def Let_def job_alive_def split: prod.split) (metis fst_conv)
qed

section \<open>Every step but the end\<close>

lemma running_leases:
  "running job r d i c g \<Longrightarrow> book_holds job d i c b \<Longrightarrow> running job r d i c (g\<lparr>rg_leases := b\<rparr>)"
  by (simp add: running_def)

lemma running_persist [simp]:
  "running job r d i c (snd (persist_leases w g)) = running job r d i c g"
  "running job r d i c (snd (persist_state w g)) = running job r d i c g"
  by (simp_all add: running_def)

lemma running_state:
  "running job r d i c g \<Longrightarrow> job_alive job r c s \<Longrightarrow> running job r d i c (g\<lparr>rg_state := s\<rparr>)"
  by (simp add: running_def)

lemma running_alive: "running job r d i c g \<Longrightarrow> job_alive job r c (rg_state g)"
  by (simp add: running_def)

lemma running_holds: "running job r d i c g \<Longrightarrow> book_holds job d i c (rg_leases g)"
  by (simp add: running_def)

lemma running_expire: "running job r d i c g \<Longrightarrow> running job r d i c (update_leases (expire now) g)"
  by (simp add: running_def holds_expire)

lemma running_inventory:
  assumes "running job r d i c g"
  shows "running job r d i c (snd (heartbeat_inventory cfg ev peer host g))"
proof -
  have "book_holds job d i c (snd (fold (detach_one now) es (dp, (rg_leases g)\<lparr>pending_detach := P\<rparr>)))" for now es dp P
    using assms by (intro holds_fold_detach) (simp add: running_def)
  moreover have "job_alive job r c ((rg_state g)\<lparr>st_host_peers := hp, st_device_peers := dp\<rparr>)" for hp dp
    using assms by (simp add: running_def job_alive_def)
  ultimately have "running job r d i c (g\<lparr>rg_state := (rg_state g)\<lparr>st_host_peers := hp, st_device_peers := dp\<rparr>,
      rg_leases := snd (fold (detach_one now) es (dp2, (rg_leases g)\<lparr>pending_detach := P\<rparr>))\<rparr>)" for hp dp now es dp2 P
    using assms by (simp add: running_def)
  then show ?thesis
    using assms by (simp add: heartbeat_inventory_def Let_def case_bool_if split: prod.split) (metis snd_conv)
qed

lemma running_reconcile:
  assumes "running job r d i c g" and "job_alive job r c s"
  shows "running job r d i c (g\<lparr>rg_state := fst (snd (reconcile_runtime_state now s (rg_leases g))),
           rg_leases := snd (snd (reconcile_runtime_state now s (rg_leases g)))\<rparr>)"
  using assms holds_reconcile [OF running_holds [OF assms(1)] assms(2)] by (simp add: running_def)

lemma running_finish_dispatch:
  assumes h: "running job r d i c g" and other: "rs_job_id q \<noteq> Some job"
  shows "running job r d i c (snd (finish_dispatch ev q g))"
proof -
  have "running job r d i c
      (g1\<lparr>rg_state := fst (snd (reconcile_runtime_state now (s\<lparr>st_dispatched := st_dispatched s - {j}\<rparr>) (rg_leases g1))),
          rg_leases := snd (snd (reconcile_runtime_state now (s\<lparr>st_dispatched := st_dispatched s - {j}\<rparr>) (rg_leases g1)))\<rparr>)"
    if "j \<noteq> job" "running job r d i c g1" "s = rg_state g1" for now j s g1
    using that alive_undispatch running_alive by (intro running_reconcile) auto
  then show ?thesis
    using h other by (simp add: finish_dispatch_def Let_def case_bool_if split: option.split prod.split)
      (metis fst_conv snd_conv persist_state_simps(1,2) running_persist(2))
qed

lemma running_fence_job:
  assumes "running job r d i c g" and "e \<noteq> d" and "fence_job cfg ev j e l g = Some (f, g')"
  shows "running job r d i c g'"
proof -
  have "book_holds job d i c (expire (ev_now ev) (rg_leases g))" using assms(1) by (simp add: running_def holds_expire)
  then show ?thesis
    using assms holds_new_writer [of job d i c "expire (ev_now ev) (rg_leases g)" e]
    by (auto simp: fence_job_def Let_def case_bool_if running_def split: option.splits if_splits)
qed

lemma running_dispatch_apple:
  assumes h: "running job r d i c g" and j: "j \<noteq> job"
    and free: "\<And>e l. fence_target op = Some (e, l) \<Longrightarrow> e \<noteq> d"
  shows "running job r d i c (settle g (dispatch_apple cfg ev j op q g))"
proof (cases "fence_target op")
  case None
  then show ?thesis
    using h j running_state [OF h alive_dispatched [OF running_alive [OF h]]]
    by (simp add: dispatch_apple_def Let_def running_finish_dispatch)
next
  case (Some el)
  obtain e l where el: "el = (e, l)" by fastforce
  show ?thesis
  proof (cases "fence_job cfg ev j e l g")
    case None
    then show ?thesis using h Some el by (simp add: dispatch_apple_def Let_def)
  next
    case fj: (Some fg)
    obtain f g1 where fg: "fg = (f, g1)" by fastforce
    have g1: "running job r d i c g1" using running_fence_job [OF h free] Some el fj fg by blast
    have "running job r d i c (update_state (mark_dispatched j) g1)"
      "running job r d i c (update_state (reject_job j) g1)"
      using g1 running_alive [OF g1] j by (simp_all add: running_state alive_dispatched alive_reject)
    then show ?thesis
      using Some el fj fg g1 j
      by (cases f) (simp_all add: dispatch_apple_def Let_def running_finish_dispatch)
  qed
qed

lemma find_apple_free:
  assumes f: "find_apple host s b = Some (j, op)" and wf: "hm_wf (st_apple_pending s)"
  shows "hm_get (st_apple_pending s) j = Some op \<and> j \<notin> st_acknowledged s
     \<and> hm_get (st_apple_hosts s) j = Some host \<and> fence_free b j op"
proof -
  from f have "(j, op) \<in> set (st_apple_pending s)"
    and p: "hm_get (st_apple_hosts s) j = Some host" "j \<notin> st_acknowledged s"
      "is_none_or (fence_free b j) (hm_get (st_apple_pending s) j)"
    unfolding find_apple_def by (auto dest!: find_SomeD)
  then show ?thesis using hm_in_set_get [OF wf] by auto
qed

lemma fence_target_SomeD:
  "fence_target op = Some (e, l) \<Longrightarrow> mutates_device (ar_operation op) \<and> ar_device_id op = Some e \<and> ar_lease_id op = Some l"
  by (auto simp: fence_target_def split: if_splits option.splits)

lemma running_dispatch:
  assumes h: "running job r d i c g" and ok: "jobs_ok cfg (rg_state g)"
  shows "running job r d i c (settle g (heartbeat_dispatch cfg ev host g))"
proof -
  obtain q g0 where p: "dispatch_manifest host g = (q, g0)" by fastforce
  have nj: "rs_job_id q \<noteq> Some job" and g0: "running job r d i c g0"
    using p h by (auto simp: dispatch_manifest_def find_pending_def running_def job_alive_def mark_dispatched_def
        split: option.splits dest!: find_SomeD)
  have wf: "hm_wf (st_apple_pending (rg_state g0))"
    using p ok by (auto simp: dispatch_manifest_def jobs_ok_def pending_ok_def mark_dispatched_def split: option.splits)
  show ?thesis
  proof (cases "find_apple host (rg_state g0) (rg_leases g0)")
    case None
    then show ?thesis using p running_finish_dispatch [OF g0 nj] by (simp add: heartbeat_dispatch_eq)
  next
    case (Some jop)
    obtain j op where jop: "jop = (j, op)" by fastforce
    have f: "j \<notin> st_acknowledged (rg_state g0)" "fence_free (rg_leases g0) j op"
      using find_apple_free [OF _ wf] Some jop by blast+
    then have j: "j \<noteq> job" using running_alive [OF g0] by (auto simp: job_alive_def)
    have "e \<noteq> d" if "fence_target op = Some (e, l)" for e l
      using f(2) j running_holds [OF g0] fence_target_SomeD [OF that]
      by (auto simp: fence_free_def book_holds_def)
    then have "running job r d i c (settle g0 (dispatch_apple cfg ev j op q g0))"
      using running_dispatch_apple [OF g0 j] by blast
    then show ?thesis using p Some jop h
      by (cases "dispatch_apple cfg ev j op q g0") (simp_all add: heartbeat_dispatch_eq)
  qed
qed

text \<open>Restoring a fence adds one, at a device that had none.\<close>

lemma restore_book:
  assumes "restore_acknowledged_writer now s j b = (x, b')"
  shows "b' = b \<or> b' = expire now b
     \<or> (\<exists>e. hm_get (writers (expire now b)) e = None
          \<and> b' = (expire now b)\<lparr>writers := hm_insert e \<lparr>dw_job_id = j\<rparr> (writers (expire now b))\<rparr>)"
  using assms by (auto simp: restore_acknowledged_writer_def Let_def split: option.splits if_splits)

lemma holds_restore:
  assumes "book_holds job d i c b" and "restore_acknowledged_writer now s j b = (x, b')"
  shows "book_holds job d i c b'"
proof -
  have e: "book_holds job d i c (expire now b)" using assms(1) by (rule holds_expire)
  then have "hm_get (writers (expire now b)) f = None \<Longrightarrow> f \<noteq> d" for f by (auto simp: book_holds_def)
  then show ?thesis using restore_book [OF assms(2)] assms(1) e holds_new_writer [OF e] by auto
qed

lemma restored_other:
  assumes "restore_acknowledged_writer now s j b = (Inr True, b')"
    and "book_holds job d i c b" and "job_alive job r c s" and "ar_device_id r = Some d"
  shows "j \<noteq> job"
proof
  assume j: "j = job"
  have "hm_get (writers (expire now b)) d = Some \<lparr>dw_job_id = job\<rparr>"
    using holds_expire [OF assms(2)] by (simp add: book_holds_def)
  then show False
    using assms(1,3,4) j
    by (auto simp: restore_acknowledged_writer_def Let_def job_alive_def split: option.splits if_splits)
qed

lemma running_save:
  assumes h: "running job r d i c g" and other: "restored \<Longrightarrow> j \<noteq> job"
  shows "running job r d i c (snd (save_progress ev j restored terminal g))"
proof -
  let ?h = "snd (persist_state (ev_state_save ev) g)"
  have g1: "running job r d i c ?h" using h by simp
  have "restored \<Longrightarrow> running job r d i c
      (update_leases (\<lambda>b. b\<lparr>writers := filter (\<lambda>(d, w). dw_job_id w \<noteq> j) (writers b)\<rparr>) ?h)"
    using g1 holds_filter [OF running_holds [OF g1] other] by (intro running_leases)
  then show ?thesis using g1 by (simp add: save_progress_def case_bool_if)
qed

lemma running_progress:
  assumes h: "running job r d i c g" shows "running job r d i c (snd (report_progress ev j es g))"
proof -
  obtain x b where x: "restore_acknowledged_writer (ev_now ev) (rg_state g) j (rg_leases g) = (x, b)" by fastforce
  have g1: "running job r d i c (g\<lparr>rg_leases := b\<rparr>)"
    using h holds_restore [OF running_holds [OF h] x] by (rule running_leases)
  show ?thesis
  proof (cases x)
    case (Inl e)
    then show ?thesis using x g1 by (simp add: report_progress_def)
  next
    case (Inr restored)
    have other: "restored \<Longrightarrow> j \<noteq> job"
      using restored_other [OF _ running_holds [OF h] running_alive [OF h]] x Inr h by (auto simp: running_def)
    let ?g2 = "snd (persist_leases (ev_leases_save ev) (g\<lparr>rg_leases := b\<rparr>))"
    let ?g3 = "update_state (\<lambda>s. (record_events j es s)\<lparr>st_acknowledged := insert j (st_acknowledged s)\<rparr>) ?g2"
    have "running job r d i c ?g3"
      using g1 by (simp add: running_def job_alive_def record_events_def)
    then have "running job r d i c (snd (save_progress ev j restored False ?g3))"
      using running_save other by blast
    moreover have "snd (report_progress ev j es g)
        = (if ev_leases_save ev = Saved then snd (save_progress ev j restored False ?g3) else ?g2)"
      using x Inr by (simp add: report_progress_def case_bool_if)
    ultimately show ?thesis using g1 by (cases "ev_leases_save ev = Saved") simp_all
  qed
qed

lemma running_terminal:
  assumes h: "running job r d i c g" and other: "j \<noteq> job"
  shows "running job r d i c (snd (report_terminal ev j es g))"
proof -
  obtain s b where f: "finish_job (ev_now ev) j (record_events j es (rg_state g), rg_leases g) = (s, b)" by fastforce
  have "job_alive job r c s"
    using alive_finish [OF other, of r c "record_events j es (rg_state g)" "ev_now ev" "rg_leases g"]
      running_alive [OF h] f by simp
  moreover have "book_holds job d i c b"
    using holds_finish [OF running_holds [OF h] other, of "ev_now ev" "record_events j es (rg_state g)"] f by simp
  ultimately have "running job r d i c (g\<lparr>rg_state := s, rg_leases := b\<rparr>)" using h by (simp add: running_def)
  then show ?thesis using f by (simp add: report_terminal_def running_save)
qed

lemma running_cancel:
  assumes h: "running job r d i c g" shows "running job r d i c (settle g (apple_cancel ev peer j g))"
proof -
  have "job_alive job r c (if j \<in> st_dispatched (rg_state g) then (rg_state g)\<lparr>st_cancelled := cs\<rparr>
      else push_job_event j k p ((rg_state g)\<lparr>st_apple_pending := hm_remove j (st_apple_pending (rg_state g))\<rparr>))" for cs k p
    using running_alive [OF h] by (auto simp: job_alive_def)
  then show ?thesis
    using h by (auto simp: apple_cancel_def Let_def case_bool_if intro: running_state split: if_splits)
qed

lemma running_lease_request:
  assumes h: "running job r d i c g" and req: "req \<noteq> AgentDetach d"
  shows "running job r d i c (settle g (registry_lease cfg ev peer req g))"
proof (cases "lease (grant_signature cfg g) (ev_now ev) peer (gc_agent_peers cfg) req
    (st_device_peers (rg_state g)) (rg_leases g)")
  case None
  then show ?thesis using h by (simp add: registry_lease_def)
next
  case (Some q)
  obtain x dp b where q: "q = (x, dp, b)" by (cases q)
  have "book_holds job d i c b" using holds_lease [OF running_holds [OF h] req] Some q by blast
  then have "running job r d i c (g\<lparr>rg_state := (rg_state g)\<lparr>st_device_peers := dp\<rparr>, rg_leases := b\<rparr>)"
    using h by (simp add: running_def)
  then show ?thesis using Some q h by (simp add: registry_lease_def Let_def case_bool_if)
qed

lemma running_whole:
  assumes h: "running job r d i c g" and e: "\<not> sectioned q"
    and no_end: "\<And>es. q = AppleProgressRequest job es True \<Longrightarrow> hm_get (st_job_agents (rg_state g)) job \<noteq> Some peer"
    and no_detach: "q = LeaseOperation (AgentDetach d) \<Longrightarrow>
      peer \<notin> gc_agent_peers cfg \<or> hm_get (st_device_peers (rg_state g)) d \<noteq> Some peer"
  shows "running job r d i c (settle g (handle_request cfg ev peer q g))"
proof -
  have state: "running job r d i c (g\<lparr>rg_state := s\<rparr>)"
    if "st_apple_pending s = st_apple_pending (rg_state g)" "st_job_clients s = st_job_clients (rg_state g)"
      "st_acknowledged s = st_acknowledged (rg_state g)" "st_dispatched s = st_dispatched (rg_state g)" for s
    using that h by (simp add: running_def job_alive_def)
  have "running job r d i c (settle g (handle_open_request cfg ev peer q g))"
  proof (cases q)
    case (AppleProgressRequest j es terminal)
    show ?thesis
    proof (cases "terminal \<and> j = job")
      case True
      then show ?thesis using AppleProgressRequest no_end h by (simp add: apple_progress_def)
    next
      case False
      then show ?thesis
        using AppleProgressRequest h running_progress [OF h] running_terminal [OF h] by (auto simp: apple_progress_def)
    qed
  next
    case (LeaseOperation req)
    show ?thesis
    proof (cases "req = AgentDetach d")
      case True
      then show ?thesis
        using LeaseOperation no_detach h running_expire [OF h]
        by (auto simp: registry_lease_def lease_def Let_def case_bool_if error_response_def ok_response_def)
    next
      case False
      then show ?thesis using LeaseOperation running_lease_request [OF h] by simp
    qed
  next
    case (AppleCancelRequest j)
    then show ?thesis using running_cancel [OF h] by simp
  next
    case (AppleRunRequest x)
    then show ?thesis using e by simp
  next
    case (HeartbeatRequest x)
    then show ?thesis using e by simp
  next
    case (CompleteRequest j a es)
    then show ?thesis using h state by (auto simp: complete_job_def Let_def case_bool_if split: option.split)
  next
    case (RunRequest x)
    then show ?thesis using h state by (auto simp: run_submit_def Let_def case_bool_if split: option.split)
  qed (use h in \<open>auto simp: with_artifacts_def authenticate_dashboard_access_def running_def
      split: prod.split sum.split\<close>)
  then show ?thesis using h by (simp add: handle_request_def split: option.split)
qed

text \<open>The events that may end a running job: its agent reports the end, or detaches the device.\<close>

definition ends_job :: "registry_config \<Rightarrow> string \<Rightarrow> string \<Rightarrow> durable_state \<Rightarrow> registry_event \<Rightarrow> bool" where
  "ends_job cfg job d s x =
     (case x of WholeRequest peer (AppleProgressRequest j es terminal) \<Rightarrow>
          j = job \<and> terminal \<and> hm_get (st_job_agents s) job = Some peer
      | WholeRequest peer (LeaseOperation req) \<Rightarrow>
          req = AgentDetach d \<and> peer \<in> gc_agent_peers cfg \<and> hm_get (st_device_peers s) d = Some peer
      | _ \<Rightarrow> False)"

lemma running_step:
  assumes h: "running job r d i c g" and ok: "jobs_ok cfg (rg_state g)" and inj: "inj (gc_sha cfg)"
    and e: "\<not> ends_job cfg job d (rg_state g) x"
  shows "running job r d i c (registry_step cfg (ev, x) g)"
proof (cases x)
  case (InventorySection peer host)
  then show ?thesis using running_inventory [OF h] by simp
next
  case ExpirySection
  then show ?thesis using running_expire [OF h] by (simp add: heartbeat_expire_def case_bool_if)
next
  case (PublishSection host)
  then show ?thesis using h by (simp add: heartbeat_publish_def running_def)
next
  case (DispatchSection host)
  then show ?thesis using running_dispatch [OF h ok] by simp
next
  case (GuardSection peer q)
  then show ?thesis using running_expire [OF h] h
    by (simp add: apple_run_guard_def Let_def case_bool_if split: sum.split)
next
  case (SubmitSection peer q)
  have p: "pending_job_ok (rg_state g) job r"
    using jobs_ok_pending(1) [OF ok] running_alive [OF h] by (simp add: job_alive_def)
  have rq: "requests_ok cfg (rg_state g)" using ok by (simp add: jobs_ok_def)
  have "job \<noteq> apple_job_id cfg (ar_idempotency_key q)"
    if "hm_get (st_apple_requests (rg_state g)) (ar_idempotency_key q) = None"
  proof
    assume j: "job = apple_job_id cfg (ar_idempotency_key q)"
    have k: "hm_get (st_apple_requests (rg_state g)) (ar_idempotency_key r) = Some job"
      using p by (simp add: pending_job_ok_def)
    from requests_okD [OF rq k] j have "gc_sha cfg (ar_idempotency_key q) = gc_sha cfg (ar_idempotency_key r)"
      by (simp only: apple_job_id_inject)
    from injD [OF inj this] show False using that k by simp
  qed
  then have "running job r d i c (settle g (apple_run_submit cfg ev peer q g))"
    using h by (auto simp: apple_run_submit_def Let_def case_bool_if running_def job_alive_def add_apple_job_def
        split: option.split)
  then show ?thesis using SubmitSection h by simp
next
  case (WholeRequest peer q)
  then show ?thesis
    using h e by (auto intro!: running_whole [OF h] simp: ends_job_def)
qed

section \<open>A concrete run\<close>

text \<open>The launch of an app submitted to the sample registry, handed out, and acknowledged.\<close>

definition waiting_registry :: registry where
  "waiting_registry = update_state (add_apple_job ''c1'' sample_launch ''apple-l'' ''mac'') sample_registry"

definition launched_registry :: registry where
  "launched_registry = update_leases (\<lambda>b. b\<lparr>writers := [(''sim'', \<lparr>dw_job_id = ''apple-l''\<rparr>)]\<rparr>)
     (update_state (mark_dispatched ''apple-l'') waiting_registry)"

definition running_registry :: registry where
  "running_registry = update_state (\<lambda>s. s\<lparr>st_acknowledged := {''apple-l''}\<rparr>) launched_registry"

lemma hm_get_Cons: "hm_get ((k, v) # m) j = (if j = k then Some v else hm_get m j)"
  by (simp add: hm_get_def)

lemma sample_key: "ar_idempotency_key sample_launch = ''l''" "apple_job_id sample_config ''l'' = ''apple-l''"
  by (simp_all add: sample_launch_def sample_config_def apple_job_id_def)

lemma waiting_ok: "jobs_ok sample_config (rg_state waiting_registry)"
  using add_apple_job_ok [OF sample_jobs_ok(1) _ sample_admissible(2), of sample_config]
  by (simp add: sample_key waiting_registry_def) (simp add: sample_registry_def durable_state_default_def)

lemma running_ok: "jobs_ok sample_config (rg_state running_registry)"
  by (rule jobs_ok_quiet [OF waiting_ok]) (simp add: running_registry_def launched_registry_def mark_dispatched_def quiet_def)

lemma sample_running: "running ''apple-l'' sample_launch ''sim'' ''lease-1'' ''c1'' running_registry"
  by (simp add: running_def running_registry_def launched_registry_def waiting_registry_def job_alive_def
      mark_dispatched_def add_apple_job_def book_holds_def book_wf_def hm_wf_def sample_registry_def sample_book_def
      sample_launch_def hm_get_Cons)

lemma all_less_two: "(\<forall>n < Suc (Suc 0). P n) \<longleftrightarrow> P 0 \<and> P (Suc 0)"
  by (auto simp: less_Suc_eq)

lemma sample_inj: "inj (gc_sha sample_config)"
  by (simp add: sample_config_def inj_on_def)



section \<open>Handing a job out\<close>

lemma finish_dispatch_Reply:
  assumes "finish_dispatch ev q g = (Reply q', g')"
  shows "q' = q\<lparr>rs_cancel_jobs := st_cancelled (rg_state g)\<rparr> \<and> rg_leases g' = rg_leases g
     \<and> rg_state g' = rg_state g \<and> rg_disk_state g' = rg_state g \<and> rg_disk_leases g' = rg_disk_leases g"
  using assms by (auto simp: finish_dispatch_def Let_def case_bool_if persist_state_def
      split: if_splits option.splits prod.splits)

lemma fence_job_Fenced:
  assumes "fence_job cfg ev job d i g = Some (Fenced grant, g')"
  shows "\<exists>l. hm_get (active (rg_leases g')) d = Some l \<and> dl_id l = i
     \<and> hm_get (st_job_clients (rg_state g)) job = Some (dl_client_id l)
     \<and> grant = signed_grant (grant_signature cfg g) (ev_now ev) job l
     \<and> sign_message (gc_crypto cfg) (signed_payload grant) (rg_transport g) = Ok (lg_signature grant)
     \<and> hm_get (writers (rg_leases g')) d = Some \<lparr>dw_job_id = job\<rparr>
     \<and> rg_disk_leases g' = rg_leases g' \<and> rg_state g' = rg_state g"
proof -
  let ?b = "expire (ev_now ev) (rg_leases g)" and ?sign = "grant_signature cfg g"
  obtain l where l: "hm_get (active ?b) d = Some l" "dl_id l = i"
      "hm_get (st_job_clients (rg_state g)) job = Some (dl_client_id l)"
    and grant: "grant = signed_grant ?sign (ev_now ev) job l"
    and sign: "\<not> cannot_sign cfg g grant"
    and g': "g' = snd (persist_leases Saved (g\<lparr>rg_leases := ?b\<lparr>writers := hm_insert d \<lparr>dw_job_id = job\<rparr> (writers ?b)\<rparr>\<rparr>))"
    using assms by (auto simp: fence_job_def Let_def case_bool_if grant_signature_def split: option.splits if_splits)
  have "signed_payload grant = signed_payload (grant\<lparr>lg_signature := []\<rparr>)" by (simp add: signed_payload_def)
  then have "lg_signature grant = ?sign (signed_payload grant)"
    using grant by (simp add: signed_grant_def Let_def)
  then have "sign_message (gc_crypto cfg) (signed_payload grant) (rg_transport g) = Ok (lg_signature grant)"
    using sign by (simp add: cannot_sign_def grant_signature_def split: sum.splits)
  then show ?thesis using l grant g' by (simp add: persist_leases_def)
qed

lemma writer_of_job: "w = \<lparr>dw_job_id = job\<rparr> \<longleftrightarrow> dw_job_id w = job"
  by (cases w) simp

lemma dispatch_manifest_same:
  assumes "dispatch_manifest host g = (q, g0)"
  shows "st_apple_pending (rg_state g0) = st_apple_pending (rg_state g)"
    "st_apple_hosts (rg_state g0) = st_apple_hosts (rg_state g)"
    "st_job_clients (rg_state g0) = st_job_clients (rg_state g)"
    "st_acknowledged (rg_state g0) = st_acknowledged (rg_state g)"
    "rg_leases g0 = rg_leases g" "rg_transport g0 = rg_transport g" "rs_apple_operation q = None"
  using assms by (auto simp: dispatch_manifest_def mark_dispatched_def ok_response_def split: option.splits)

text \<open>
  C2. A job that writes to a device is only handed out fenced: when a heartbeat is answered with such a
  job, the job is pending for this host, no other job was writing to the device, the fence names the
  job, the lease is active, is the one the job names and belongs to its client, the grant in the
  answer is signed by the registry for exactly this job, lease, device and client, and all of this
  is on disk before the answer leaves.
\<close>

theorem dispatched_job_is_fenced:
  assumes "jobs_ok cfg (rg_state g)" and "heartbeat_dispatch cfg ev host g = Some (Reply q, g')"
    and "rs_apple_operation q = Some r" and "mutates_device (ar_operation r)"
  shows "\<exists>job d l grant. rs_job_id q = Some job \<and> rs_lease_grant q = Some grant \<and> ar_device_id r = Some d
     \<and> hm_get (st_apple_pending (rg_state g)) job = Some r \<and> hm_get (st_apple_hosts (rg_state g)) job = Some host
     \<and> hm_get (writers (rg_leases g)) d \<in> {None, Some \<lparr>dw_job_id = job\<rparr>}
     \<and> hm_get (writers (rg_leases g')) d = Some \<lparr>dw_job_id = job\<rparr>
     \<and> hm_get (active (rg_leases g')) d = Some l \<and> ar_lease_id r = Some (dl_id l)
     \<and> hm_get (st_job_clients (rg_state g)) job = Some (dl_client_id l)
     \<and> lg_job_id grant = job \<and> lg_lease_id grant = dl_id l \<and> lg_device_id grant = dl_device_id l
     \<and> lg_client_id grant = dl_client_id l
     \<and> sign_message (gc_crypto cfg) (signed_payload grant) (rg_transport g) = Ok (lg_signature grant)
     \<and> job \<in> st_dispatched (rg_state g') \<and> rg_disk_leases g' = rg_leases g' \<and> rg_disk_state g' = rg_state g'"
proof -
  obtain q0 g0 where p: "dispatch_manifest host g = (q0, g0)" by fastforce
  note same = dispatch_manifest_same [OF p]
  have wf: "hm_wf (st_apple_pending (rg_state g0))"
    using assms(1) same(1) by (simp add: jobs_ok_def pending_ok_def)
  show ?thesis
  proof (cases "find_apple host (rg_state g0) (rg_leases g0)")
    case None
    then have "finish_dispatch ev q0 g0 = (Reply q, g')" using assms(2) p by (simp add: heartbeat_dispatch_eq)
    then show ?thesis using finish_dispatch_Reply assms(3) same(7) by fastforce
  next
    case (Some jop)
    obtain job op where jop: "jop = (job, op)" by fastforce
    have f: "hm_get (st_apple_pending (rg_state g)) job = Some op"
      "hm_get (st_apple_hosts (rg_state g)) job = Some host" "fence_free (rg_leases g) job op"
      using find_apple_free [OF _ wf] Some jop same by auto
    have run: "dispatch_apple cfg ev job op q0 g0 = Some (Reply q, g')"
      using assms(2) p Some jop by (simp add: heartbeat_dispatch_eq)
    show ?thesis
    proof (cases "fence_target op")
      case None
      have fin: "finish_dispatch ev (q0\<lparr>rs_apple_operation := Some op, rs_job_id := Some job\<rparr>)
          (update_state (mark_dispatched job) g0) = (Reply q, g')"
        using run None by (simp add: dispatch_apple_def Let_def)
      then have "op = r" using finish_dispatch_Reply [OF fin] assms(3) by simp
      moreover have "admissible op" using jobs_ok_pending(2) [OF assms(1) f(1)] .
      ultimately show ?thesis
        using None assms(4) mutates_requires_device
        by (auto simp: admissible_def fence_target_def envelope_ok_iff split: option.splits)
    next
      case (Some di)
      obtain d i where di: "di = (d, i)" by fastforce
      note ft = fence_target_SomeD [OF Some [unfolded di]]
      obtain x g1 where fj: "fence_job cfg ev job d i g0 = Some (x, g1)"
        using run Some di by (cases "fence_job cfg ev job d i g0") (auto simp: dispatch_apple_def Let_def)
      show ?thesis
      proof (cases x)
        case (Fenced grant)
        have fin: "finish_dispatch ev (q0\<lparr>rs_apple_operation := Some op, rs_job_id := Some job, rs_lease_grant := Some grant\<rparr>)
            (update_state (mark_dispatched job) g1) = (Reply q, g')"
          using run Some di fj Fenced by (simp add: dispatch_apple_def Let_def)
        note fd = finish_dispatch_Reply [OF fin]
        note fe = fence_job_Fenced [OF fj [unfolded Fenced]]
        have op: "op = r" using fd assms(3) by simp
        have free: "hm_get (writers (rg_leases g)) d \<in> {None, Some \<lparr>dw_job_id = job\<rparr>}"
          using f(3) ft op assms(4)
          by (cases "hm_get (writers (rg_leases g)) d") (simp_all add: fence_free_def writer_of_job)
        obtain l where l: "hm_get (active (rg_leases g1)) d = Some l" "dl_id l = i"
            "hm_get (st_job_clients (rg_state g0)) job = Some (dl_client_id l)"
            "lg_job_id grant = job \<and> lg_lease_id grant = dl_id l \<and> lg_device_id grant = dl_device_id l
               \<and> lg_client_id grant = dl_client_id l"
            and fe': "sign_message (gc_crypto cfg) (signed_payload grant) (rg_transport g0) = Ok (lg_signature grant)"
            "hm_get (writers (rg_leases g1)) d = Some \<lparr>dw_job_id = job\<rparr>" "rg_disk_leases g1 = rg_leases g1"
          using fe by (auto simp: signed_grant_def Let_def)
        have "rs_job_id q = Some job" "rs_lease_grant q = Some grant" "job \<in> st_dispatched (rg_state g')"
          using fd by (simp_all add: mark_dispatched_def)
        then show ?thesis
          using fd l fe' f(1,2) ft op same free
          by (intro exI [of _ job] exI [of _ d] exI [of _ l] exI [of _ grant]) simp
      next
        case LeaseLost
        have fin: "finish_dispatch ev (q0\<lparr>rs_job_id := Some job, rs_apple_operation := None\<rparr>)
            (update_state (reject_job job) g1) = (Reply q, g')"
          using run Some di fj LeaseLost by (simp add: dispatch_apple_def Let_def)
        then show ?thesis using finish_dispatch_Reply [OF fin] assms(3) by simp
      qed (use run Some di fj in \<open>auto simp: dispatch_apple_def Let_def\<close>)
    qed
  qed
qed

lemma sample_dispatch:
  "\<exists>q g'. heartbeat_dispatch sample_config sample_env ''mac'' waiting_registry = Some (Reply q, g')
     \<and> rs_apple_operation q = Some sample_launch"
  by (simp add: heartbeat_dispatch_def find_pending_def find_apple_def waiting_registry_def add_apple_job_def
      sample_registry_def durable_state_default_def fence_free_def sample_book_def dispatch_apple_def
      fence_target_def fence_job_def Let_def case_bool_if expire_def expired_devices_def hm_keys_def sample_env_def
      sample_launch_def hm_get_def hm_insert_def cannot_sign_def sample_config_def pair_crypto_def sign_message_def
      machine_def finish_dispatch_def mark_dispatched_def)

theorem dispatched_job_is_fenced_witness:
  "\<exists>q g' grant. heartbeat_dispatch sample_config sample_env ''mac'' waiting_registry = Some (Reply q, g')
     \<and> rs_lease_grant q = Some grant \<and> lg_job_id grant = the (rs_job_id q)
     \<and> hm_get (writers (rg_leases g')) ''sim'' = Some \<lparr>dw_job_id = lg_job_id grant\<rparr>"
proof -
  obtain q g' where d: "heartbeat_dispatch sample_config sample_env ''mac'' waiting_registry = Some (Reply q, g')"
    "rs_apple_operation q = Some sample_launch" using sample_dispatch by blast
  from dispatched_job_is_fenced [OF waiting_ok d] d(1) show ?thesis by (auto simp: sample_launch_def)
qed

section \<open>Progress and end\<close>

lemma restore_running:
  assumes r: "restore_acknowledged_writer now s job b = (Inr restored, b')"
    and p: "hm_get (st_apple_pending s) job = Some r" "mutates_device (ar_operation r)" and wf: "book_wf b"
  shows "\<exists>d i c. ar_device_id r = Some d \<and> ar_lease_id r = Some i \<and> hm_get (st_job_clients s) job = Some c
     \<and> book_holds job d i c b'"
proof -
  let ?b = "expire now b"
  have "book_wf ?b" using wf by (rule expire_wf)
  then show ?thesis
    using r p by (auto simp: restore_acknowledged_writer_def Let_def is_some_and_iff book_holds_def book_wf_def
        writer_of_job split: option.splits if_splits)
qed

text \<open>
  Only a job that holds its device may go on: when a report of progress of a job that writes to a
  device is accepted, the job is running (its fence is on the device, the lease its request names is
  active for its client), and both halves of the state are on disk.
\<close>

theorem accepted_progress_holds_device:
  assumes "apple_progress ev peer job events False g = (Reply q, g')" and "book_wf (rg_leases g)"
    and "hm_get (st_apple_pending (rg_state g)) job = Some r" and "mutates_device (ar_operation r)"
    and "job \<in> st_dispatched (rg_state g)"
  shows "\<exists>d i c. running job r d i c g' \<and> rg_disk_state g' = rg_state g' \<and> rg_disk_leases g' = rg_leases g'
     \<and> hm_get (st_job_agents (rg_state g)) job = Some peer"
proof -
  obtain x b where x: "restore_acknowledged_writer (ev_now ev) (rg_state g) job (rg_leases g) = (x, b)" by fastforce
  obtain restored where xr: "x = Inr restored"
    using assms(1) x by (cases x) (auto simp: apple_progress_def report_progress_def split: if_splits)
  let ?s = "(record_events job events (rg_state g))\<lparr>st_acknowledged := insert job (st_acknowledged (rg_state g))\<rparr>"
  have g': "g' = snd (persist_state Saved (snd (persist_leases Saved (g\<lparr>rg_leases := b\<rparr>))\<lparr>rg_state := ?s\<rparr>))"
    "hm_get (st_job_agents (rg_state g)) job = Some peer" "st_recovery_error (rg_state g) = None"
    using assms(1) x xr
    by (auto simp: apple_progress_def report_progress_def save_progress_def case_bool_if split: if_splits)
  then have eq: "rg_leases g' = b" "rg_state g' = ?s" "rg_disk_leases g' = b" "rg_disk_state g' = ?s"
    by (simp_all add: persist_leases_def persist_state_def)
  obtain d i c where h: "ar_device_id r = Some d" "ar_lease_id r = Some i"
      "hm_get (st_job_clients (rg_state g)) job = Some c" "book_holds job d i c b"
    using restore_running [OF x [unfolded xr] assms(3,4,2)] by blast
  then have "job_alive job r c ?s" using assms(3,5) by (simp add: job_alive_def record_events_def)
  then show ?thesis using h eq assms(4) g'(2) by (auto simp: running_def)
qed

lemma launched_facts:
  "book_wf (rg_leases launched_registry)" "mutates_device (ar_operation sample_launch)"
  "hm_get (st_apple_pending (rg_state launched_registry)) ''apple-l'' = Some sample_launch"
  "''apple-l'' \<in> st_dispatched (rg_state launched_registry)"
  by (simp_all add: launched_registry_def waiting_registry_def mark_dispatched_def add_apple_job_def book_wf_def
      hm_wf_def sample_registry_def sample_book_def sample_launch_def)

lemma sample_progress:
  "\<exists>g'. apple_progress sample_env ''agent'' ''apple-l'' [] terminal launched_registry = (Reply ok_response, g')"
  by (simp add: apple_progress_def report_progress_def report_terminal_def save_progress_def
      restore_acknowledged_writer_def launched_registry_def waiting_registry_def add_apple_job_def
      sample_registry_def durable_state_default_def sample_book_def Let_def case_bool_if expire_def
      expired_devices_def hm_keys_def sample_env_def sample_launch_def hm_get_def hm_insert_def mark_dispatched_def
      finish_job_def drop_writer_def record_events_def add_new_events_def)

theorem accepted_progress_holds_device_witness:
  "\<exists>g' d i c. apple_progress sample_env ''agent'' ''apple-l'' [] False launched_registry = (Reply ok_response, g')
     \<and> running ''apple-l'' sample_launch d i c g'"
proof -
  obtain g' where p: "apple_progress sample_env ''agent'' ''apple-l'' [] False launched_registry = (Reply ok_response, g')"
    using sample_progress by blast
  from accepted_progress_holds_device [OF p launched_facts(1,3,2,4)] p show ?thesis by auto
qed

lemma drop_writer_writers:
  "hm_get (writers (snd (drop_writer now e (s, b)))) d = (if d = e then None else hm_get (writers b) d)"
  by (simp add: drop_writer_def Let_def)

lemma fold_drop_writers:
  "hm_get (writers (snd (fold (drop_writer now) es (s, b)))) d = (if d \<in> set es then None else hm_get (writers b) d)"
proof (induction es arbitrary: s b)
  case (Cons e es)
  obtain s1 b1 where d: "drop_writer now e (s, b) = (s1, b1)" by fastforce
  then have "hm_get (writers b1) d = (if d = e then None else hm_get (writers b) d)"
    using drop_writer_writers [of now e s b d] by simp
  then show ?case using d Cons.IH by auto
qed simp

lemma finish_job_writers:
  assumes "hm_wf (writers b)"
  shows "hm_get (writers (snd (finish_job now job (s, b)))) d \<noteq> Some \<lparr>dw_job_id = job\<rparr>"
proof
  let ?es = "hm_keys (filter (\<lambda>(d, w). dw_job_id w = job) (writers b))"
  assume "hm_get (writers (snd (finish_job now job (s, b)))) d = Some \<lparr>dw_job_id = job\<rparr>"
  then have "hm_get (writers (snd (fold (drop_writer now) ?es (s, b)))) d = Some \<lparr>dw_job_id = job\<rparr>"
    by (simp add: finish_job_def Let_def split: prod.splits)
  then have "d \<notin> set ?es" "hm_get (writers b) d = Some \<lparr>dw_job_id = job\<rparr>"
    by (simp_all add: fold_drop_writers split: if_splits)
  then show False using assms by (force simp: hm_keys_def hm_in_set_get image_iff)
qed

text \<open>
  The end of a job frees everything: once its agent has reported the end and the report was accepted,
  no device is fenced for the job any more, the job is neither pending nor to be cancelled, and that
  is on disk.
\<close>

theorem end_of_job_frees_devices:
  assumes "apple_progress ev peer job events True g = (Reply q, g')" and "book_wf (rg_leases g)"
  shows "\<not> hm_has (st_apple_pending (rg_state g')) job \<and> job \<notin> set (st_cancelled (rg_state g'))
     \<and> (\<forall>d. hm_get (writers (rg_leases g')) d \<noteq> Some \<lparr>dw_job_id = job\<rparr>)
     \<and> rg_disk_state g' = rg_state g' \<and> rg_disk_leases g' = rg_leases g'"
proof -
  obtain s b where f: "finish_job (ev_now ev) job (record_events job events (rg_state g), rg_leases g) = (s, b)" by fastforce
  have "g' = snd (persist_leases Saved (snd (persist_state Saved (g\<lparr>rg_state := s, rg_leases := b\<rparr>))))"
    "st_recovery_error s = None"
    using assms(1) f by (auto simp: apple_progress_def report_terminal_def save_progress_def case_bool_if split: if_splits)
  then have eq: "rg_state g' = s" "rg_leases g' = b" "rg_disk_state g' = s" "rg_disk_leases g' = b"
    by (simp_all add: persist_leases_def persist_state_def)
  have "\<not> hm_has (st_apple_pending s) job \<and> job \<notin> set (st_cancelled s)"
    using f by (auto simp: finish_job_def Let_def hm_has_def split: prod.splits)
  moreover have "hm_get (writers b) d \<noteq> Some \<lparr>dw_job_id = job\<rparr>" for d
    using finish_job_writers [of "rg_leases g" "ev_now ev" job "record_events job events (rg_state g)" d] assms(2) f
    by (simp add: book_wf_def)
  ultimately show ?thesis using eq by blast
qed

theorem end_of_job_frees_devices_witness:
  "\<exists>g'. apple_progress sample_env ''agent'' ''apple-l'' [] True launched_registry = (Reply ok_response, g')
     \<and> (\<forall>d. hm_get (writers (rg_leases g')) d \<noteq> Some \<lparr>dw_job_id = ''apple-l''\<rparr>)"
proof -
  obtain g' where p: "apple_progress sample_env ''agent'' ''apple-l'' [] True launched_registry = (Reply ok_response, g')"
    using sample_progress by blast
  from end_of_job_frees_devices [OF p launched_facts(1)] p show ?thesis by blast
qed

section \<open>What the code does not promise\<close>

text \<open>
  Completing a manifest job needs no authority: any authorised peer, agent or not, ends any pending
  manifest job with events and an artifact of its choice, and the audit record, in the name of the
  client that submitted it, says what those events claim.
\<close>

theorem any_peer_completes_manifest_job:
  assumes "hm_get (st_pending (rg_state g)) job = Some op" and "st_recovery_error (rg_state g) = None"
    and "ev_state_save (ev 0) = Saved" and "events \<noteq> []" and "last events = \<lparr>ne_sequence = n, ne_kind = ''exit'', ne_payload = ''0''\<rparr>"
  shows "\<exists>g'. handle_request cfg ev peer (CompleteRequest job artifact events) g = Some (Reply ok_response, g')
     \<and> \<not> hm_has (st_pending (rg_state g')) job \<and> hm_get (st_jobs (rg_state g')) job = Some events
     \<and> hm_get (st_artifacts (rg_state g')) job = Some artifact
     \<and> last (st_audit (rg_state g')) = \<lparr>au_principal_id = rr_principal_id op, au_host_id = rr_host_id op,
         au_device_id = rr_device_id op, au_workspace_id = rr_workspace_id op, au_job_id = job,
         au_result = ''succeeded''\<rparr>"
  using assms by (simp add: handle_request_def complete_job_def Let_def case_bool_if hm_has_def)

definition sample_run :: run_request where
  "sample_run = \<lparr>rr_principal_id = ''p'', rr_host_id = ''mac'', rr_device_id = ''sim'', rr_workspace_id = ''w'',
     rr_request_id = ''r'', rr_manifest = []\<rparr>"

theorem any_peer_completes_manifest_job_witness:
  "\<exists>g'. handle_request sample_config (\<lambda>_. sample_env) ''stranger''
       (CompleteRequest ''job-r'' ''x'' [\<lparr>ne_sequence = 1, ne_kind = ''exit'', ne_payload = ''0''\<rparr>])
       (update_state (\<lambda>s. s\<lparr>st_pending := [(''job-r'', sample_run)]\<rparr>) sample_registry) = Some (Reply ok_response, g')
     \<and> au_principal_id (last (st_audit (rg_state g'))) = ''p''"
proof -
  let ?g = "update_state (\<lambda>s. s\<lparr>st_pending := [(''job-r'', sample_run)]\<rparr>) sample_registry"
  have h: "hm_get (st_pending (rg_state ?g)) ''job-r'' = Some sample_run" "st_recovery_error (rg_state ?g) = None"
    "ev_state_save ((\<lambda>_. sample_env) 0) = Saved"
    by (simp_all add: hm_get_def sample_registry_def durable_state_default_def sample_env_def)
  from any_peer_completes_manifest_job [OF h, of "[\<lparr>ne_sequence = 1, ne_kind = ''exit'', ne_payload = ''0''\<rparr>]" 1
      sample_config "''stranger''" "''x''"] show ?thesis
    by (auto simp: sample_run_def)
qed

text \<open>
  A save that fails takes the fences of other jobs away: when the heartbeat that hands out one job
  cannot be saved, every device that another job was handed out for, and that its agent has not yet
  acknowledged, loses its fence, although that agent may already be writing to the device.
\<close>

theorem failed_save_drops_foreign_fence:
  assumes "hm_get (writers (rg_leases g)) d = Some \<lparr>dw_job_id = job\<rparr>" and "book_wf (rg_leases g)"
    and "job \<notin> st_acknowledged (rg_state g)" and "job \<in> st_dispatched (rg_state g)"
    and "find_pending host (rg_state g) = None" and "find_apple host (rg_state g) (rg_leases g) = Some (other, r)"
    and "\<not> mutates_device (ar_operation r)" and "ev_state_save ev = Unsaved" and "job \<noteq> other"
  shows "\<exists>g'. heartbeat_dispatch cfg ev host g = Some (refuse ''persistence_failed'', g')
     \<and> job \<in> st_dispatched (rg_state g') \<and> hm_get (writers (rg_leases g')) d = None"
proof -
  let ?t = "(mark_dispatched other (rg_state g))\<lparr>st_dispatched := st_dispatched (mark_dispatched other (rg_state g)) - {other}\<rparr>"
  let ?es = "hm_keys (filter (\<lambda>(d, w). orphaned_writer ?t w) (writers (rg_leases g)))"
  have "orphaned_writer ?t \<lparr>dw_job_id = job\<rparr>"
    using assms(3) by (simp add: orphaned_writer_def mark_dispatched_def)
  then have d: "d \<in> set ?es" using assms(1,2) by (force simp: hm_keys_def book_wf_def hm_in_set_get image_iff)
  obtain s b where f: "fold (drop_writer (ev_now ev)) ?es (?t, rg_leases g) = (s, b)" by fastforce
  obtain dp where "s = ?t\<lparr>st_device_peers := dp\<rparr>"
    using fold_drop_writer_state [of "ev_now ev" ?es ?t "rg_leases g"] f by auto
  then have "job \<in> st_dispatched s" using assms(4,9) by (simp add: mark_dispatched_def)
  moreover have "hm_get (writers b) d = None"
    using fold_drop_writers [of "ev_now ev" ?es ?t "rg_leases g" d] f d by simp
  ultimately show ?thesis
    using assms(5-8) f
    by (simp add: heartbeat_dispatch_def dispatch_apple_def fence_target_def finish_dispatch_def Let_def case_bool_if
        reconcile_runtime_state_def)
qed

definition crowded_registry :: registry where
  "crowded_registry = update_state (\<lambda>s. s\<lparr>st_apple_pending := [(''apple-k'', sample_discovery)],
     st_apple_hosts := [(''apple-k'', ''mac'')]\<rparr>) launched_registry"

theorem failed_save_drops_foreign_fence_witness:
  "\<exists>g'. heartbeat_dispatch sample_config (sample_env\<lparr>ev_state_save := Unsaved\<rparr>) ''mac'' crowded_registry
        = Some (refuse ''persistence_failed'', g')
     \<and> ''apple-l'' \<in> st_dispatched (rg_state g') \<and> hm_get (writers (rg_leases g')) ''sim'' = None"
  by (rule failed_save_drops_foreign_fence [where other = "''apple-k''" and r = sample_discovery])
    (simp_all add: crowded_registry_def launched_registry_def waiting_registry_def add_apple_job_def
      mark_dispatched_def sample_registry_def durable_state_default_def sample_book_def hm_get_def book_wf_def
      hm_wf_def find_pending_def find_apple_def sample_discovery_def fence_free_def)

text \<open>
  Two jobs, one identifier: a heartbeat that finds a manifest job and an Apple job answers with both
  but names only the Apple job; the completion the agent then sends changes nothing, and the manifest
  job, marked as handed out, stays pending and is never handed out again.
\<close>

theorem manifest_job_loses_its_identifier:
  assumes "find_pending host (rg_state g) = Some (m, op)" and "st_recovery_error (rg_state g) = None"
    and "find_apple host (rg_state g) (rg_leases g) = Some (a, r)" and "\<not> mutates_device (ar_operation r)"
    and "ev_state_save ev = Saved" and "\<not> hm_has (st_pending (rg_state g)) a"
  shows "\<exists>q g'. heartbeat_dispatch cfg ev host g = Some (Reply q, g')
     \<and> rs_operation q = Some op \<and> rs_apple_operation q = Some r \<and> rs_job_id q = Some a
     \<and> complete_job ev2 a artifact events g' = Some (Reply ok_response, g')
     \<and> find_pending host (rg_state g') \<noteq> Some (m, op) \<and> hm_has (st_pending (rg_state g')) m"
proof -
  have m: "(m, op) \<in> set (st_pending (rg_state g))"
    using assms(1) by (auto simp: find_pending_def dest: find_SomeD)
  then have h: "hm_has (st_pending (rg_state g)) m" by (force simp: hm_has_keys hm_keys_def)
  have "find_apple host (mark_dispatched m (rg_state g)) (rg_leases g) = Some (a, r)"
    using assms(3) by (simp add: find_apple_def mark_dispatched_def)
  moreover have "find_pending host (s\<lparr>st_dispatched := insert x (insert m D)\<rparr>) \<noteq> Some (m, op)" for s x D
    by (auto simp: find_pending_def dest!: find_SomeD)
  ultimately show ?thesis
    using assms h
    by (simp add: heartbeat_dispatch_def dispatch_apple_def fence_target_def finish_dispatch_def Let_def
        case_bool_if complete_job_def mark_dispatched_def hm_has_def)
qed

theorem manifest_job_loses_its_identifier_witness:
  "\<exists>q g'. heartbeat_dispatch sample_config sample_env ''mac''
        (update_state (\<lambda>s. s\<lparr>st_pending := [(''job-r'', sample_run)]\<rparr>) crowded_registry) = Some (Reply q, g')
     \<and> rs_operation q = Some sample_run \<and> rs_job_id q = Some ''apple-k''"
proof -
  let ?g = "update_state (\<lambda>s. s\<lparr>st_pending := [(''job-r'', sample_run)]\<rparr>) crowded_registry"
  have "find_pending ''mac'' (rg_state ?g) = Some (''job-r'', sample_run)" "st_recovery_error (rg_state ?g) = None"
    "find_apple ''mac'' (rg_state ?g) (rg_leases ?g) = Some (''apple-k'', sample_discovery)"
    "\<not> mutates_device (ar_operation sample_discovery)" "ev_state_save sample_env = Saved"
    "\<not> hm_has (st_pending (rg_state ?g)) ''apple-k''"
    by (simp_all add: crowded_registry_def launched_registry_def waiting_registry_def add_apple_job_def
        mark_dispatched_def sample_registry_def durable_state_default_def sample_book_def hm_get_def hm_has_def
        find_pending_def find_apple_def sample_discovery_def fence_free_def sample_run_def sample_env_def)
  from manifest_job_loses_its_identifier [OF this, of sample_config] show ?thesis by blast
qed

text \<open>
  The read-only start on a corrupt job table fails when the lease book holds any fence: the
  reconciliation finds it orphaned, and the corrupt table is not overwritten.
\<close>

theorem corrupt_table_with_fence_does_not_start:
  assumes "hm_has (writers (expire (ev_now ev) b)) d"
  shows "start_registry ev False Corrupt (Loaded b) g = None"
proof -
  let ?s = "load_state Corrupt" and ?b = "expire (ev_now ev) b"
  obtain c s2 b2 where r: "reconcile_runtime_state (ev_now ev) ?s ?b = (c, s2, b2)" by (cases rule: prod_cases3)
  have "orphaned_writer ?s w" for w by (simp add: orphaned_writer_def durable_state_default_def)
  then have c: "c" using r assms by (auto simp: reconcile_runtime_state_def Let_def hm_keys_def hm_has_def hm_get_def)
  have "st_recovery_error s2 \<noteq> None"
    using reconcile_quiet [of ?s "ev_now ev" ?b] r by (simp add: quiet_def)
  then show ?thesis using r c by (auto simp: start_registry_def Let_def case_bool_if)
qed

text \<open>
  A fence outlives its job: when the lease book could not be saved at the dispatch, the job is not marked
  as handed out, and cancelling it takes it out of the table while its fence stays.
\<close>

theorem cancelled_job_keeps_its_fence:
  assumes "hm_get (writers (rg_leases g)) d = Some \<lparr>dw_job_id = job\<rparr>" and "job \<notin> st_dispatched (rg_state g)"
    and "hm_has (st_apple_pending (rg_state g)) job" and "hm_get (st_job_clients (rg_state g)) job = Some peer"
    and "ev_state_save ev = Saved" and "st_recovery_error (rg_state g) = None"
  shows "\<exists>g'. apple_cancel ev peer job g = Some (Reply ok_response, g')
     \<and> \<not> hm_has (st_apple_pending (rg_state g')) job
     \<and> hm_get (writers (rg_leases g')) d = Some \<lparr>dw_job_id = job\<rparr>"
  using assms by (simp add: apple_cancel_def Let_def case_bool_if hm_has_def)

end
