(* ===== verification/Persistence.thy ===== *)
theory Persistence
  imports RegistryState
begin

text \<open>
  The files of the state directory (\<open>registry_runtime.rs\<close>: \<open>atomic_write_json\<close>, \<open>load_json_with_fallback\<close>
  and what they call): each value is kept under its own name with three sidecars, \<open>.next\<close>, \<open>.retired\<close> and
  \<open>.previous\<close>, in envelopes with a generation and a checksum.

  A write is a relation over the single calls to the file system, each of which may fail; a crash is any
  state on the way. A crash during a write leaves a part of the bytes in \<open>.next\<close>; renames and removals
  take effect in order and whole. JSON itself is an argument.
\<close>

section \<open>Files and formats\<close>

datatype file_slot = MainFile | NextFile | RetiredFile | PreviousFile

type_synonym files = "file_slot \<Rightarrow> string option"

record envelope =
  pj_schema_version :: nat
  pj_generation :: u64
  pj_sha256 :: string
  pj_payload :: string

text \<open>The serializer, for values of one type: \<open>to_value\<close> and \<open>to_vec\<close> of the value, \<open>from_value\<close> of a payload,
  \<open>from_slice\<close> of a file without envelope; \<open>to_vec\<close> and \<open>from_slice\<close> of an envelope; whether bytes are
  JSON at all; and the digest.\<close>

record 'a json =
  js_payload :: "'a \<Rightarrow> string option"
  js_value :: "string \<Rightarrow> 'a option"
  js_legacy :: "string \<Rightarrow> 'a option"
  js_envelope :: "envelope \<Rightarrow> string"
  js_parse :: "string \<Rightarrow> envelope option"
  js_is_json :: "string \<Rightarrow> bool"
  js_sha :: "string \<Rightarrow> string"

datatype io_error = InvalidData | OtherError

datatype file_read = NotFound | ReadError | Bytes string

definition read_slot :: "(file_slot \<Rightarrow> bool) \<Rightarrow> files \<Rightarrow> file_slot \<Rightarrow> file_read" where
  "read_slot io s k = (case s k of None \<Rightarrow> NotFound | Some b \<Rightarrow> if io k then Bytes b else ReadError)"

section \<open>Reading\<close>

definition validate_envelope :: "'a json \<Rightarrow> envelope \<Rightarrow> io_error + unit" where
  "validate_envelope j e =
     (if pj_schema_version e \<noteq> 1 then Err InvalidData
      else if js_sha j (pj_payload e) \<noteq> pj_sha256 e then Err InvalidData
      else Ok ())"

definition serialized_generation :: "'a json \<Rightarrow> string \<Rightarrow> io_error + u64" where
  "serialized_generation j b =
     (case js_parse j b of
        Some e \<Rightarrow> and_then (validate_envelope j e) (\<lambda>_. Ok (pj_generation e))
      | None \<Rightarrow> if js_is_json j b then Ok 0 else Err InvalidData)"

definition parse_persisted :: "'a json \<Rightarrow> string \<Rightarrow> io_error + 'a" where
  "parse_persisted j b =
     (case js_parse j b of
        Some e \<Rightarrow> and_then (validate_envelope j e)
          (\<lambda>_. case js_value j (pj_payload e) of None \<Rightarrow> Err InvalidData | Some v \<Rightarrow> Ok v)
      | None \<Rightarrow> (case js_legacy j b of None \<Rightarrow> Err InvalidData | Some v \<Rightarrow> Ok v))"

text \<open>The sidecars in the order they are read, with whether the file may be partial.\<close>

definition sidecars :: "(file_slot \<times> bool) list" where
  "sidecars = [(NextFile, True), (RetiredFile, False), (PreviousFile, False)]"

fun candidates :: "'a json \<Rightarrow> (file_slot \<Rightarrow> bool) \<Rightarrow> files \<Rightarrow> (file_slot \<times> bool) list
    \<Rightarrow> io_error + (u64 \<times> string) list" where
  "candidates j io s [] = Ok []"
| "candidates j io s ((k, may_be_partial) # ks) =
     (case read_slot io s k of
        NotFound \<Rightarrow> candidates j io s ks
      | ReadError \<Rightarrow> Err OtherError
      | Bytes b \<Rightarrow>
          (case serialized_generation j b of
             Inr generation \<Rightarrow> and_then (candidates j io s ks) (\<lambda>cs. Ok ((generation, b) # cs))
           | Inl e \<Rightarrow> if may_be_partial then candidates j io s ks else Err e))"

definition persisted_generation :: "'a json \<Rightarrow> (file_slot \<Rightarrow> bool) \<Rightarrow> files \<Rightarrow> io_error + u64" where
  "persisted_generation j io s =
     (case read_slot io s MainFile of
        Bytes b \<Rightarrow> serialized_generation j b
      | ReadError \<Rightarrow> Err OtherError
      | NotFound \<Rightarrow> and_then (candidates j io s sidecars) (\<lambda>cs. Ok (foldl (\<lambda>m c. max m (fst c)) 0 cs)))"

definition load_json :: "'a json \<Rightarrow> (file_slot \<Rightarrow> bool) \<Rightarrow> files \<Rightarrow> io_error + 'a option" where
  "load_json j io s =
     (case read_slot io s MainFile of
        Bytes b \<Rightarrow> and_then (parse_persisted j b) (\<lambda>v. Ok (Some v))
      | ReadError \<Rightarrow> Err OtherError
      | NotFound \<Rightarrow> and_then (candidates j io s sidecars)
          (\<lambda>cs. if cs = [] then Ok None
                else and_then (parse_persisted j (snd (last (sort_key fst cs)))) (\<lambda>v. Ok (Some v))))"

text \<open>What start-up makes of it (\<open>load_state\<close>, \<open>LeaseBook::try_load\<close>).\<close>

fun loaded_of :: "io_error + 'a option \<Rightarrow> 'a loaded" where
  "loaded_of (Inr (Some v)) = Loaded v"
| "loaded_of (Inr None) = Absent"
| "loaded_of (Inl InvalidData) = Corrupt"
| "loaded_of (Inl OtherError) = Unreadable"

section \<open>Writing\<close>

text \<open>The bytes that \<open>atomic_write_json\<close> hands to \<open>atomic_write\<close>.\<close>

definition envelope_bytes :: "'a json \<Rightarrow> (file_slot \<Rightarrow> bool) \<Rightarrow> files \<Rightarrow> 'a \<Rightarrow> io_error + string" where
  "envelope_bytes j io s v =
     (case js_payload j v of
        None \<Rightarrow> Err InvalidData
      | Some p \<Rightarrow> and_then (persisted_generation j io s)
          (\<lambda>n. Ok (js_envelope j \<lparr>pj_schema_version = 1, pj_generation = sat_add64 n 1,
             pj_sha256 = js_sha j p, pj_payload = p\<rparr>)))"

datatype phase =
    Starting
  | Writing nat
  | Synced
  | Cleared
  | MainRetired
  | Placed
  | Emptied
  | Finished
  | Failed

text \<open>The calls of \<open>atomic_write\<close>, one step each; \<open>Fails\<close> is the early return of any of them.\<close>

inductive write_step :: "string \<Rightarrow> phase \<times> files \<Rightarrow> phase \<times> files \<Rightarrow> bool" for bytes where
  Opens: "write_step bytes (Starting, s) (Writing 0, s(NextFile := Some []))"
| Writes: "n \<le> m \<Longrightarrow> m \<le> length bytes \<Longrightarrow>
    write_step bytes (Writing n, s) (Writing m, s(NextFile := Some (take m bytes)))"
| Syncs: "write_step bytes (Writing (length bytes), s) (Synced, s)"
| Clears: "write_step bytes (Synced, s) (Cleared, s(RetiredFile := None))"
| Retires: "write_step bytes (Cleared, s)
    (MainRetired, if s MainFile = None then s else s(RetiredFile := s MainFile, MainFile := None))"
| Places: "write_step bytes (MainRetired, s) (Placed, s(MainFile := s NextFile, NextFile := None))"
| Keeps: "s RetiredFile = None \<Longrightarrow> write_step bytes (Placed, s) (Finished, s)"
| Empties: "s RetiredFile \<noteq> None \<Longrightarrow> write_step bytes (Placed, s) (Emptied, s(PreviousFile := None))"
| Backs: "write_step bytes (Emptied, s) (Finished, s(PreviousFile := s RetiredFile, RetiredFile := None))"
| Fails: "p \<noteq> Finished \<Longrightarrow> write_step bytes (p, s) (Failed, s)"

abbreviation write_steps :: "string \<Rightarrow> phase \<times> files \<Rightarrow> phase \<times> files \<Rightarrow> bool" where
  "write_steps bytes \<equiv> (write_step bytes)\<^sup>*\<^sup>*"

inductive_cases write_stepE: "write_step bytes (p, s) (q, t)"

text \<open>The files after a write that nothing interrupts.\<close>

definition atomic_write :: "string \<Rightarrow> files \<Rightarrow> files" where
  "atomic_write bytes s = s(NextFile := None, RetiredFile := None, MainFile := Some bytes,
     PreviousFile := (if s MainFile = None then s PreviousFile else s MainFile))"

section \<open>What a write passes through\<close>

fun phase_files :: "string \<Rightarrow> files \<Rightarrow> phase \<Rightarrow> files \<Rightarrow> bool" where
  "phase_files bytes s Starting t = (t = s)"
| "phase_files bytes s (Writing n) t = (n \<le> length bytes \<and> t = s(NextFile := Some (take n bytes)))"
| "phase_files bytes s Synced t = (t = s(NextFile := Some bytes))"
| "phase_files bytes s Cleared t = (t = s(NextFile := Some bytes, RetiredFile := None))"
| "phase_files bytes s MainRetired t =
     (t = s(NextFile := Some bytes, RetiredFile := s MainFile, MainFile := None))"
| "phase_files bytes s Placed t = (t = s(NextFile := None, RetiredFile := s MainFile, MainFile := Some bytes))"
| "phase_files bytes s Emptied t = (s MainFile \<noteq> None
     \<and> t = s(NextFile := None, RetiredFile := s MainFile, MainFile := Some bytes, PreviousFile := None))"
| "phase_files bytes s Finished t = (t = atomic_write bytes s)"
| "phase_files bytes s Failed t = False"

definition on_the_way :: "string \<Rightarrow> files \<Rightarrow> phase \<times> files \<Rightarrow> bool" where
  "on_the_way bytes s pt \<longleftrightarrow> phase_files bytes s (fst pt) (snd pt)
     \<or> fst pt = Failed \<and> (\<exists>p. p \<noteq> Finished \<and> phase_files bytes s p (snd pt))"

lemma on_the_way_step:
  assumes "on_the_way bytes s pt" and "write_step bytes pt qu"
  shows "on_the_way bytes s qu"
  using assms(2,1)
proof (cases rule: write_step.cases)
  case (Fails p t)
  then show ?thesis using assms(1) by (cases "p = Failed") (auto simp: on_the_way_def)
qed (auto simp: on_the_way_def atomic_write_def fun_upd_twist)

lemma on_the_way_steps:
  "write_steps bytes (Starting, s) pt \<Longrightarrow> on_the_way bytes s pt"
  by (induction rule: rtranclp_induct) (auto simp: on_the_way_step, simp add: on_the_way_def)

lemma reaches_start: "write_steps bytes (Starting, s) (Writing 0, s(NextFile := Some []))"
  by (blast intro: Opens)

lemma reaches_cleared: "write_steps bytes (Starting, s) (Cleared, s(NextFile := Some bytes, RetiredFile := None))"
proof -
  let ?a = "s(NextFile := Some bytes)"
  have "write_steps bytes (Starting, s) (Writing (length bytes), ?a)"
    using reaches_start Writes [of 0 "length bytes" bytes "s(NextFile := Some [])"]
    by (auto intro: rtranclp.rtrancl_into_rtrancl)
  then have "write_steps bytes (Starting, s) (Synced, ?a)" using Syncs by (rule rtranclp.rtrancl_into_rtrancl)
  then show ?thesis using Clears by (rule rtranclp.rtrancl_into_rtrancl)
qed

lemma reaches_retired: "write_steps bytes (Starting, s)
    (MainRetired, s(NextFile := Some bytes, RetiredFile := s MainFile, MainFile := None))"
proof -
  let ?c = "s(NextFile := Some bytes, RetiredFile := None)"
  let ?r = "s(NextFile := Some bytes, RetiredFile := s MainFile, MainFile := None)"
  have eq: "(if ?c MainFile = None then ?c else ?c(RetiredFile := ?c MainFile, MainFile := None)) = ?r"
    by (auto simp: fun_eq_iff)
  have "write_step bytes (Cleared, ?c) (MainRetired, ?r)" unfolding eq [symmetric] by (rule Retires)
  with reaches_cleared show ?thesis by (rule rtranclp.rtrancl_into_rtrancl)
qed

lemma reaches_placed: "write_steps bytes (Starting, s)
    (Placed, s(NextFile := None, RetiredFile := s MainFile, MainFile := Some bytes))"
proof -
  let ?r = "s(NextFile := Some bytes, RetiredFile := s MainFile, MainFile := None)"
  have eq: "?r(MainFile := ?r NextFile, NextFile := None)
      = s(NextFile := None, RetiredFile := s MainFile, MainFile := Some bytes)"
    by (auto simp: fun_eq_iff)
  have "write_step bytes (MainRetired, ?r) (Placed, s(NextFile := None, RetiredFile := s MainFile, MainFile := Some bytes))"
    unfolding eq [symmetric] by (rule Places)
  with reaches_retired show ?thesis by (rule rtranclp.rtrancl_into_rtrancl)
qed

text \<open>A write that no call interrupts finishes.\<close>

lemma write_finishes: "write_steps bytes (Starting, s) (Finished, atomic_write bytes s)"
proof (cases "s MainFile")
  case None
  let ?t = "s(NextFile := None, RetiredFile := s MainFile, MainFile := Some bytes)"
  have "write_step bytes (Placed, ?t) (Finished, ?t)" using None by (intro Keeps) simp
  moreover have "?t = atomic_write bytes s" using None by (auto simp: atomic_write_def fun_eq_iff)
  ultimately show ?thesis using rtranclp.rtrancl_into_rtrancl [OF reaches_placed] by metis
next
  case (Some b)
  let ?t = "s(NextFile := None, RetiredFile := s MainFile, MainFile := Some bytes)"
  have "write_step bytes (Placed, ?t) (Emptied, ?t(PreviousFile := None))" using Some by (intro Empties) simp
  then have e: "write_steps bytes (Starting, s) (Emptied, ?t(PreviousFile := None))"
    by (rule rtranclp.rtrancl_into_rtrancl [OF reaches_placed])
  have "write_step bytes (Emptied, ?t(PreviousFile := None)) (Finished, atomic_write bytes s)"
    using Backs [of bytes "?t(PreviousFile := None)"] Some by (simp add: atomic_write_def fun_upd_twist)
  with e show ?thesis by (rule rtranclp.rtrancl_into_rtrancl)
qed

section \<open>Consistent files\<close>

text \<open>What is relied on of JSON: an envelope is read back, no part of one is JSON, and a payload is read back.\<close>

definition json_ok :: "'a json \<Rightarrow> bool" where
  "json_ok j \<longleftrightarrow> (\<forall>e. pj_generation e \<le> u64_max \<longrightarrow> js_parse j (js_envelope j e) = Some e)
     \<and> (\<forall>e b. strict_prefix b (js_envelope j e) \<longrightarrow> js_parse j b = None \<and> \<not> js_is_json j b)
     \<and> (\<forall>v p. js_payload j v = Some p \<longrightarrow> js_value j p = Some v)"

abbreviation readable :: "file_slot \<Rightarrow> bool" where "readable \<equiv> \<lambda>_. True"

definition good :: "'a json \<Rightarrow> string \<Rightarrow> u64 \<Rightarrow> 'a \<Rightarrow> bool" where
  "good j b n v \<longleftrightarrow> serialized_generation j b = Ok n \<and> parse_persisted j b = Ok v"

definition gen_of :: "'a json \<Rightarrow> files \<Rightarrow> file_slot \<Rightarrow> u64 option" where
  "gen_of j s k = (case s k of None \<Rightarrow> None
     | Some b \<Rightarrow> (case serialized_generation j b of Inr n \<Rightarrow> Some n | Inl _ \<Rightarrow> None))"

fun before :: "u64 option \<Rightarrow> u64 option \<Rightarrow> bool" where
  "before (Some m) (Some n) = (m < n)"
| "before _ _ = True"

text \<open>Every file but \<open>.next\<close> is whole, \<open>.next\<close> is whole or not readable, and the generations are in order.\<close>

definition disk_ok :: "'a json \<Rightarrow> files \<Rightarrow> bool" where
  "disk_ok j s \<longleftrightarrow> (\<forall>k b. s k = Some b \<longrightarrow> (\<exists>n v. good j b n v) \<or> k = NextFile \<and> \<not> is_ok (serialized_generation j b))
     \<and> before (gen_of j s PreviousFile) (gen_of j s MainFile)
     \<and> before (gen_of j s RetiredFile) (gen_of j s MainFile)
     \<and> (s MainFile = None \<longrightarrow> before (gen_of j s RetiredFile) (gen_of j s NextFile)
          \<and> before (gen_of j s PreviousFile) (gen_of j s NextFile)
          \<and> before (gen_of j s PreviousFile) (gen_of j s RetiredFile))"

text \<open>The file that a load reads.\<close>

definition newest :: "'a json \<Rightarrow> files \<Rightarrow> string option" where
  "newest j s = (if s MainFile \<noteq> None then s MainFile else if gen_of j s NextFile \<noteq> None then s NextFile
     else if s RetiredFile \<noteq> None then s RetiredFile else s PreviousFile)"

definition generation :: "'a json \<Rightarrow> files \<Rightarrow> u64" where
  "generation j s = (case newest j s of None \<Rightarrow> 0
     | Some b \<Rightarrow> (case serialized_generation j b of Inr n \<Rightarrow> n | Inl _ \<Rightarrow> 0))"

lemma before_None [simp]: "before m None" "before None m"
  by (cases m; simp)+

lemma gen_of_cases:
  assumes "disk_ok j s"
  shows "s k = None \<and> gen_of j s k = None
     \<or> (\<exists>b n v. s k = Some b \<and> good j b n v \<and> gen_of j s k = Some n)
     \<or> k = NextFile \<and> (\<exists>b e. s k = Some b \<and> serialized_generation j b = Inl e \<and> gen_of j s k = None)"
proof (cases "s k")
  case None
  then show ?thesis by (simp add: gen_of_def)
next
  case (Some b)
  then have "(\<exists>n v. good j b n v) \<or> k = NextFile \<and> \<not> is_ok (serialized_generation j b)"
    using assms unfolding disk_ok_def by blast
  then show ?thesis using Some
    by (cases "serialized_generation j b") (auto simp: gen_of_def good_def)
qed

lemma whole:
  assumes "disk_ok j s" and "k \<noteq> NextFile"
  shows "s k = None \<and> gen_of j s k = None \<or> (\<exists>b n v. s k = Some b \<and> good j b n v \<and> gen_of j s k = Some n)"
  using gen_of_cases [OF assms(1), of k] assms(2) by blast

lemma candidates_readable:
  assumes "disk_ok j s"
  shows "candidates j readable s sidecars = Ok (concat (map (\<lambda>k.
     case gen_of j s k of None \<Rightarrow> [] | Some n \<Rightarrow> [(n, the (s k))]) [NextFile, RetiredFile, PreviousFile]))"
  using gen_of_cases [OF assms, of NextFile] whole [OF assms, of RetiredFile] whole [OF assms, of PreviousFile]
  by (auto simp: sidecars_def read_slot_def good_def)

lemma newest_readable:
  assumes "disk_ok j s" and "s MainFile = None"
  shows "(newest j s = None \<longrightarrow> candidates j readable s sidecars = Ok [])
     \<and> (\<forall>b. newest j s = Some b \<longrightarrow> (\<exists>n v cs. good j b n v \<and> candidates j readable s sidecars = Ok ((n, b) # cs)
          \<and> (\<forall>c \<in> set cs. fst c < n)))"
proof -
  have "before (gen_of j s RetiredFile) (gen_of j s NextFile)" "before (gen_of j s PreviousFile) (gen_of j s NextFile)"
    "before (gen_of j s PreviousFile) (gen_of j s RetiredFile)"
    using assms by (simp_all add: disk_ok_def)
  then show ?thesis
    using gen_of_cases [OF assms(1), of NextFile] whole [OF assms(1), of RetiredFile] whole [OF assms(1), of PreviousFile]
      candidates_readable [OF assms(1)] assms(2)
    by (auto simp: newest_def)
qed

lemma last_sort_below:
  "\<forall>c \<in> set cs. fst c < (n :: u64) \<Longrightarrow> last (sort_key fst ((n, b) # cs)) = (n, b)"
proof (induction cs)
  case (Cons c cs)
  have app: "insort_key fst (n, b) xs = xs @ [(n, b)]" if "\<forall>d \<in> set xs. fst d < n" for xs
    using that by (induction xs) auto
  have "\<forall>d \<in> set (sort_key fst (c # cs)). fst d < n" using Cons.prems by (simp add: set_insort_key)
  from app [OF this] show ?case by (simp only: sort_key_simps last_snoc)
qed simp

lemma foldl_max_below:
  "\<forall>c \<in> set cs. fst c < (n :: u64) \<Longrightarrow> foldl (\<lambda>m c. max m (fst c)) n cs = n"
  by (induction cs) auto

lemma load_newest:
  assumes "disk_ok j s"
  shows "load_json j readable s = (case newest j s of None \<Rightarrow> Ok None
     | Some b \<Rightarrow> and_then (parse_persisted j b) (\<lambda>v. Ok (Some v)))"
proof (cases "s MainFile")
  case None
  show ?thesis
  proof (cases "newest j s")
    case n: None
    then show ?thesis using newest_readable [OF assms None] None by (simp add: load_json_def read_slot_def)
  next
    case (Some b)
    then obtain n v cs where "candidates j readable s sidecars = Ok ((n, b) # cs)" "\<forall>c \<in> set cs. fst c < n"
      using newest_readable [OF assms None] by blast
    then show ?thesis
      using Some None last_sort_below [of cs n b] by (simp add: load_json_def read_slot_def del: sort_key_simps)
  qed
qed (simp add: load_json_def read_slot_def newest_def)

lemma generation_newest:
  assumes "disk_ok j s" shows "persisted_generation j readable s = Ok (generation j s)"
proof (cases "s MainFile")
  case None
  show ?thesis
  proof (cases "newest j s")
    case n: None
    then show ?thesis using newest_readable [OF assms None] None
      by (simp add: persisted_generation_def read_slot_def generation_def)
  next
    case (Some b)
    then obtain n v cs where "good j b n v" "candidates j readable s sidecars = Ok ((n, b) # cs)" "\<forall>c \<in> set cs. fst c < n"
      using newest_readable [OF assms None] by blast
    then show ?thesis
      using Some None by (simp add: persisted_generation_def read_slot_def generation_def good_def foldl_max_below)
  qed
next
  case (Some b)
  then show ?thesis using whole [OF assms, of MainFile]
    by (auto simp: persisted_generation_def read_slot_def generation_def newest_def good_def)
qed

lemma newest_good:
  assumes "disk_ok j s" and "newest j s = Some b" shows "\<exists>v. good j b (generation j s) v"
proof (cases "s MainFile")
  case None
  then show ?thesis using newest_readable [OF assms(1) None] assms(2) by (auto simp: generation_def good_def)
next
  case (Some c)
  then show ?thesis using whole [OF assms(1), of MainFile] assms(2) by (auto simp: newest_def generation_def good_def)
qed

text \<open>The generation is above those of the files that a write does not truncate.\<close>

lemma generation_above:
  assumes "disk_ok j s" and "k \<noteq> NextFile" and "gen_of j s k = Some n" shows "n \<le> generation j s"
proof -
  have ord: "before (gen_of j s PreviousFile) (gen_of j s MainFile)" "before (gen_of j s RetiredFile) (gen_of j s MainFile)"
    "s MainFile = None \<longrightarrow> before (gen_of j s RetiredFile) (gen_of j s NextFile)
       \<and> before (gen_of j s PreviousFile) (gen_of j s NextFile)
       \<and> before (gen_of j s PreviousFile) (gen_of j s RetiredFile)"
    using assms(1) by (simp_all add: disk_ok_def)
  have present: "s l = None \<longleftrightarrow> gen_of j s l = None" if "l \<noteq> NextFile" for l
    using whole [OF assms(1) that] by auto
  have gen: "generation j s = n" if "newest j s = s l" "gen_of j s l = Some n" for l n
    using that by (auto simp: generation_def gen_of_def split: option.splits sum.splits)
  show ?thesis
    using gen [of MainFile] gen [of NextFile] gen [of RetiredFile] gen [of PreviousFile] ord present assms(2,3)
    by (cases k; cases "gen_of j s MainFile"; cases "gen_of j s NextFile"; cases "gen_of j s RetiredFile")
      (auto simp: newest_def)
qed

section \<open>Interrupted writes\<close>

text \<open>The bytes of a write: whole, they carry the value with the next generation; in part, they are not read.\<close>

definition staged :: "'a json \<Rightarrow> files \<Rightarrow> 'a \<Rightarrow> string \<Rightarrow> bool" where
  "staged j s v bytes \<longleftrightarrow> good j bytes (Suc (generation j s)) v
     \<and> (\<forall>m < length bytes. \<not> is_ok (serialized_generation j (take m bytes)))"

lemma envelope_staged:
  assumes "json_ok j" and "disk_ok j s" and "generation j s < u64_max" and "envelope_bytes j readable s v = Ok bytes"
  shows "staged j s v bytes"
proof -
  obtain p where p: "js_payload j v = Some p"
    using assms(4) by (cases "js_payload j v") (auto simp: envelope_bytes_def)
  let ?e = "\<lparr>pj_schema_version = 1, pj_generation = Suc (generation j s), pj_sha256 = js_sha j p, pj_payload = p\<rparr>"
  have b: "bytes = js_envelope j ?e"
    using assms(3,4) p by (simp add: envelope_bytes_def generation_newest [OF assms(2)] sat_add64_def)
  have parse: "js_parse j bytes = Some ?e" using assms(1,3) b by (simp add: json_ok_def)
  have "js_value j p = Some v" using assms(1) p unfolding json_ok_def by blast
  then have "good j bytes (Suc (generation j s)) v"
    using parse by (simp add: good_def serialized_generation_def parse_persisted_def validate_envelope_def)
  moreover have "\<not> is_ok (serialized_generation j (take m bytes))" if "m < length bytes" for m
  proof -
    have "strict_prefix (take m bytes) bytes" using that by (simp add: strict_prefix_def take_is_prefix)
    then have "js_parse j (take m bytes) = None \<and> \<not> js_is_json j (take m bytes)"
      using assms(1) unfolding json_ok_def b by blast
    then show ?thesis by (simp add: serialized_generation_def)
  qed
  ultimately show ?thesis by (simp add: staged_def)
qed

definition bytes_gen :: "'a json \<Rightarrow> string option \<Rightarrow> u64 option" where
  "bytes_gen j x = (case x of None \<Rightarrow> None
     | Some b \<Rightarrow> (case serialized_generation j b of Inr n \<Rightarrow> Some n | Inl _ \<Rightarrow> None))"

lemma gen_of_upd: "gen_of j (s(k := x)) l = (if l = k then bytes_gen j x else gen_of j s l)"
  by (simp add: gen_of_def bytes_gen_def)

lemma bytes_gen_old: "bytes_gen j (s k) = gen_of j s k" "bytes_gen j None = None"
  by (simp_all add: gen_of_def bytes_gen_def)

lemma bytes_gen_staged:
  assumes "staged j s v bytes"
  shows "bytes_gen j (Some bytes) = Some (Suc (generation j s))"
    and "m < length bytes \<Longrightarrow> bytes_gen j (Some (take m bytes)) = None"
  using assms by (auto simp: bytes_gen_def staged_def good_def split: sum.split)

lemma before_staged:
  assumes "disk_ok j s" and "k \<noteq> NextFile" shows "before (gen_of j s k) (Some (Suc (generation j s)))"
  using generation_above [OF assms] by (cases "gen_of j s k") (auto simp: le_imp_less_Suc)

lemma disk_slots:
  assumes "disk_ok j s" and "staged j s v bytes"
    and "\<forall>k b. t k = Some b \<longrightarrow> b = bytes \<or> (\<exists>l. l \<noteq> NextFile \<and> s l = Some b)
       \<or> k = NextFile \<and> (\<exists>m < length bytes. b = take m bytes)"
    and "before (gen_of j t PreviousFile) (gen_of j t MainFile)" "before (gen_of j t RetiredFile) (gen_of j t MainFile)"
    and "t MainFile = None \<longrightarrow> before (gen_of j t RetiredFile) (gen_of j t NextFile)
          \<and> before (gen_of j t PreviousFile) (gen_of j t NextFile)
          \<and> before (gen_of j t PreviousFile) (gen_of j t RetiredFile)"
  shows "disk_ok j t"
proof -
  have "(\<exists>n v. good j b n v) \<or> k = NextFile \<and> \<not> is_ok (serialized_generation j b)" if "t k = Some b" for k b
    using assms(3) [rule_format, OF that] assms(1,2) unfolding disk_ok_def staged_def by blast
  then show ?thesis using assms(4-6) unfolding disk_ok_def by blast
qed

text \<open>What a load finds after each step: the value before, or the value being written.\<close>

definition settled :: "'a json \<Rightarrow> files \<Rightarrow> bool" where
  "settled j s \<longleftrightarrow> s MainFile \<noteq> None \<or> gen_of j s NextFile = None"

lemmas gen_simps = gen_of_upd bytes_gen_old newest_def settled_def

lemma writing_disk:
  assumes ok: "disk_ok j s" and st: "staged j s v bytes" and m: "m \<le> length bytes"
    and t: "t = s(NextFile := Some (take m bytes))"
  shows "disk_ok j t \<and> (settled j s \<longrightarrow> newest j t \<in> {newest j s, Some bytes})"
proof (cases "m = length bytes")
  case True
  note g = bytes_gen_staged(1) [OF st] before_staged [OF ok]
  have "disk_ok j t"
    by (rule disk_slots [OF ok st])
      (use t True ok g in \<open>auto simp: gen_simps disk_ok_def split: if_splits\<close>)
  then show ?thesis using t True g by (auto simp: gen_simps)
next
  case False
  note g = bytes_gen_staged(2) [OF st, of m] before_staged [OF ok]
  have lt: "m < length bytes" using False m by simp
  have gt: "gen_of j t l = (if l = NextFile then None else gen_of j s l)" "t MainFile = s MainFile" for l
    using t g(1) [OF lt] by (simp_all add: gen_of_upd)
  have "\<forall>k b. t k = Some b \<longrightarrow> b = bytes \<or> (\<exists>l. l \<noteq> NextFile \<and> s l = Some b)
       \<or> k = NextFile \<and> (\<exists>m < length bytes. b = take m bytes)"
  proof (intro allI impI)
    fix k b assume "t k = Some b"
    then show "b = bytes \<or> (\<exists>l. l \<noteq> NextFile \<and> s l = Some b) \<or> k = NextFile \<and> (\<exists>m < length bytes. b = take m bytes)"
      using t lt by (cases "k = NextFile") auto
  qed
  then have "disk_ok j t"
    by (rule disk_slots [OF ok st]) (use ok gt in \<open>auto simp: disk_ok_def\<close>)
  then show ?thesis using t gt by (auto simp: newest_def settled_def)
qed

lemma phase_disk:
  assumes ok: "disk_ok j s" and st: "staged j s v bytes" and t: "phase_files bytes s p t"
  shows "disk_ok j t \<and> (settled j s \<longrightarrow> newest j t \<in> {newest j s, Some bytes})"
proof -
  note g = bytes_gen_staged(1) [OF st] before_staged [OF ok]
  have later: ?thesis
    if "disk_ok j t" "newest j t = Some bytes \<or> s MainFile \<noteq> None \<and> newest j t = s MainFile"
    using that by (auto simp: newest_def)
  note slots = disk_slots [OF ok st]
  show ?thesis
  proof (cases p)
    case Starting
    then show ?thesis using ok t by simp
  next
    case (Writing m)
    then show ?thesis using writing_disk [OF ok st, of m t] t by simp
  next
    case Synced
    then show ?thesis using writing_disk [OF ok st, of "length bytes" t] t by simp
  next
    case Cleared
    have "disk_ok j t"
      by (rule slots) (use t Cleared ok g in \<open>auto simp: gen_simps disk_ok_def split: if_splits\<close>)
    then show ?thesis using later t Cleared g by (auto simp: gen_simps)
  next
    case MainRetired
    have "disk_ok j t"
      by (rule slots) (use t MainRetired ok g in \<open>auto simp: gen_simps disk_ok_def split: if_splits\<close>)
    then show ?thesis using later t MainRetired g by (auto simp: gen_simps)
  next
    case Placed
    have "disk_ok j t"
      by (rule slots) (use t Placed ok g in \<open>auto simp: gen_simps disk_ok_def split: if_splits\<close>)
    then show ?thesis using later t Placed g by (auto simp: gen_simps)
  next
    case Emptied
    have "disk_ok j t"
      by (rule slots) (use t Emptied ok g in \<open>auto simp: gen_simps disk_ok_def split: if_splits\<close>)
    then show ?thesis using later t Emptied g by (auto simp: gen_simps)
  next
    case Finished
    have "disk_ok j t"
      by (rule slots) (use t Finished ok g in \<open>auto simp: gen_simps disk_ok_def atomic_write_def split: if_splits\<close>)
    then show ?thesis using later t Finished g by (auto simp: gen_simps atomic_write_def)
  next
    case Failed
    then show ?thesis using t by simp
  qed
qed

lemma load_good: "disk_ok j s \<Longrightarrow> newest j s = Some b \<Longrightarrow> good j b n v \<Longrightarrow> load_json j readable s = Ok (Some v)"
  by (simp add: load_newest good_def)

lemma load_same: "disk_ok j s \<Longrightarrow> disk_ok j t \<Longrightarrow> newest j t = newest j s \<Longrightarrow> load_json j readable t = load_json j readable s"
  by (simp add: load_newest)

lemma steps_disk:
  assumes "disk_ok j s" and "staged j s v bytes" and "write_steps bytes (Starting, s) (p, t)"
  shows "disk_ok j t \<and> (settled j s \<longrightarrow> newest j t \<in> {newest j s, Some bytes})"
  using on_the_way_steps [OF assms(3)] phase_disk [OF assms(1,2)] unfolding on_the_way_def by auto

lemma finished_files:
  "write_steps bytes (Starting, s) (Finished, t) \<Longrightarrow> t = atomic_write bytes s"
  by (drule on_the_way_steps) (simp add: on_the_way_def)

text \<open>
  C3. A write is atomic: whatever call of a write fails, and wherever a crash stops it, the next start
  reads either the value from before or the value being written, and never refuses the files; after a
  write that returned success it reads the new value, in the next generation. The three outcomes of a
  save in the model of the registry are exactly these. (The files must be settled: they are after
  every successful write.)
\<close>

theorem interrupted_write_is_atomic:
  assumes "json_ok j" and "disk_ok j s" and "settled j s" and "generation j s < u64_max"
    and "envelope_bytes j readable s v = Ok bytes" and "write_steps bytes (Starting, s) (p, t)"
  shows "disk_ok j t \<and> (\<exists>w. load_json j readable t = (if w = Unsaved then load_json j readable s else Ok (Some v))
     \<and> (p = Finished \<longrightarrow> w = Saved \<and> settled j t \<and> generation j t = Suc (generation j s)))"
proof -
  have st: "staged j s v bytes" by (rule envelope_staged [OF assms(1,2,4,5)])
  have t: "disk_ok j t" "newest j t \<in> {newest j s, Some bytes}"
    using steps_disk [OF assms(2) st assms(6)] assms(3) by auto
  have new: "load_json j readable t = Ok (Some v)" if "newest j t = Some bytes"
    using load_good [OF t(1) that] st by (auto simp: staged_def)
  show ?thesis
  proof (cases "p = Finished")
    case True
    then have f: "t = atomic_write bytes s" using finished_files assms(6) by blast
    then have n: "newest j t = Some bytes" by (simp add: newest_def atomic_write_def)
    have "settled j t" using f by (simp add: settled_def atomic_write_def)
    moreover have "generation j t = Suc (generation j s)"
      using n st by (simp add: generation_def staged_def good_def)
    ultimately show ?thesis using t new [OF n] by (auto intro!: exI [of _ Saved])
  next
    case False
    show ?thesis
    proof (cases "newest j t = Some bytes")
      case True
      then show ?thesis using t new False by (auto intro!: exI [of _ SavedWithError])
    next
      case old: False
      then have "load_json j readable t = load_json j readable s" using t load_same [OF assms(2)] by blast
      then show ?thesis using t False by (auto intro!: exI [of _ Unsaved])
    qed
  qed
qed

section \<open>Any number of interrupted writes\<close>

text \<open>Files that writes of the values \<open>vs\<close>, the last first, have left, each of them finished, failed or cut
  off by a crash.\<close>

inductive disk_history :: "'a json \<Rightarrow> 'a list \<Rightarrow> files \<Rightarrow> bool" for j where
  Fresh: "disk_history j [] (\<lambda>_. None)"
| Written: "disk_history j vs s \<Longrightarrow> envelope_bytes j readable s v = Ok bytes \<Longrightarrow>
    write_steps bytes (Starting, s) (p, t) \<Longrightarrow> disk_history j (v # vs) t"

definition values_in :: "'a json \<Rightarrow> 'a list \<Rightarrow> files \<Rightarrow> bool" where
  "values_in j vs s \<longleftrightarrow> (\<forall>k b n v. s k = Some b \<longrightarrow> good j b n v \<longrightarrow> n \<le> length vs \<and> v \<in> set vs)"

lemma phase_slots:
  "phase_files bytes s p t \<Longrightarrow> t k = Some b \<Longrightarrow>
     b = bytes \<or> (\<exists>l. s l = Some b) \<or> (\<exists>m < length bytes. b = take m bytes)"
  by (cases p) (auto simp: atomic_write_def le_less split: if_splits)

lemma generation_le:
  assumes "disk_ok j s" and "values_in j vs s" shows "generation j s \<le> length vs"
proof (cases "newest j s")
  case None
  then show ?thesis by (simp add: generation_def)
next
  case (Some b)
  obtain v where "good j b (generation j s) v" using newest_good [OF assms(1) Some] by blast
  moreover obtain k where "s k = Some b" using Some by (auto simp: newest_def split: if_splits)
  ultimately show ?thesis using assms(2) by (auto simp: values_in_def)
qed

lemma good_functional: "good j b n v \<Longrightarrow> good j b m w \<Longrightarrow> n = m \<and> v = w"
  by (simp add: good_def)

lemma steps_values:
  assumes "disk_ok j s" and "values_in j vs s" and "staged j s v bytes" and "write_steps bytes (Starting, s) (p, t)"
  shows "values_in j (v # vs) t"
  unfolding values_in_def
proof (intro allI impI)
  fix k b n w assume b: "t k = Some b" "good j b n w"
  obtain q where "phase_files bytes s q t"
    using on_the_way_steps [OF assms(4)] by (auto simp: on_the_way_def)
  from phase_slots [OF this b(1)]
  consider "b = bytes" | l where "s l = Some b" | m where "m < length bytes" "b = take m bytes" by blast
  then show "n \<le> length (v # vs) \<and> w \<in> set (v # vs)"
  proof cases
    case 1
    then show ?thesis
      using b(2) assms(3) generation_le [OF assms(1,2)] good_functional [of j bytes n w "Suc (generation j s)" v]
      by (simp add: staged_def)
  next
    case 2
    then have "n \<le> length vs \<and> w \<in> set vs" using b(2) assms(2) unfolding values_in_def by blast
    then show ?thesis by simp
  next
    case 3
    then have "\<not> is_ok (serialized_generation j b)" using assms(3) by (simp add: staged_def)
    then show ?thesis using b(2) by (simp add: good_def)
  qed
qed

lemma disk_ok_fresh: "disk_ok j (\<lambda>_. None)"
  by (simp add: disk_ok_def gen_of_def)

lemma history_ok:
  "disk_history j vs s \<Longrightarrow> json_ok j \<Longrightarrow> length vs \<le> u64_max \<Longrightarrow> disk_ok j s \<and> values_in j vs s"
proof (induction rule: disk_history.induct)
  case Fresh
  then show ?case by (simp add: disk_ok_fresh values_in_def)
next
  case (Written vs s v bytes p t)
  then have ok: "disk_ok j s" "values_in j vs s" by simp_all
  have "generation j s < u64_max" using generation_le [OF ok] Written.prems by simp
  from envelope_staged [OF Written.prems(1) ok(1) this Written.hyps(2)] have st: "staged j s v bytes" .
  show ?case using steps_disk [OF ok(1) st Written.hyps(3)] steps_values [OF ok st Written.hyps(3)] by simp
qed

text \<open>
  Interruptions never corrupt: after any number of writes, each finished, failed or cut off at any
  point, a start finds no file at all or reads one of the values that were written, so that it reports
  no corruption, and the next write can determine its generation.
\<close>

theorem interruptions_never_corrupt:
  assumes "json_ok j" and "disk_history j vs s" and "length vs \<le> u64_max"
  shows "(load_json j readable s = Ok None \<or> (\<exists>v \<in> set vs. load_json j readable s = Ok (Some v)))
     \<and> (\<exists>n \<le> length vs. persisted_generation j readable s = Ok n)"
proof -
  have ok: "disk_ok j s" "values_in j vs s" using history_ok [OF assms(2,1,3)] by simp_all
  have "load_json j readable s = Ok None \<or> (\<exists>v \<in> set vs. load_json j readable s = Ok (Some v))"
  proof (cases "newest j s")
    case None
    then show ?thesis by (simp add: load_newest [OF ok(1)])
  next
    case (Some b)
    obtain v where v: "good j b (generation j s) v" using newest_good [OF ok(1) Some] by blast
    obtain k where "s k = Some b" using Some by (auto simp: newest_def split: if_splits)
    then have "v \<in> set vs" using v ok(2) unfolding values_in_def by blast
    then show ?thesis using load_good [OF ok(1) Some v] by blast
  qed
  then show ?thesis using generation_newest [OF ok(1)] generation_le [OF ok] by blast
qed

section \<open>What interrupted writes can lose\<close>

lemma staged_bytes:
  assumes "json_ok j" and "disk_ok j s" and "generation j s < u64_max" and "js_payload j v \<noteq> None"
  shows "\<exists>bytes. envelope_bytes j readable s v = Ok bytes \<and> staged j s v bytes"
proof -
  obtain bytes where "envelope_bytes j readable s v = Ok bytes"
    using assms(4) by (auto simp: envelope_bytes_def generation_newest [OF assms(2)])
  then show ?thesis using envelope_staged [OF assms(1-3)] by blast
qed

lemma staged_nonempty: "staged j s v bytes \<Longrightarrow> json_ok j \<Longrightarrow> envelope_bytes j readable s v = Ok bytes \<Longrightarrow> bytes_gen j (Some []) = None"
proof -
  assume st: "staged j s v bytes" and j: "json_ok j" and e: "envelope_bytes j readable s v = Ok bytes"
  obtain x where x: "bytes = js_envelope j x"
    using e by (auto simp: envelope_bytes_def split: option.splits)
  have "js_envelope j (x\<lparr>pj_generation := 0\<rparr>) \<noteq> [] \<or> js_envelope j (x\<lparr>pj_generation := 1\<rparr>) \<noteq> []"
  proof (rule ccontr)
    assume "\<not> ?thesis"
    moreover have "js_parse j (js_envelope j (x\<lparr>pj_generation := 0\<rparr>)) = Some (x\<lparr>pj_generation := 0\<rparr>)"
      "js_parse j (js_envelope j (x\<lparr>pj_generation := 1\<rparr>)) = Some (x\<lparr>pj_generation := 1\<rparr>)"
      using j by (simp_all add: json_ok_def u64_max_def)
    ultimately have "x\<lparr>pj_generation := 0\<rparr> = x\<lparr>pj_generation := 1\<rparr>" by simp
    then have "pj_generation (x\<lparr>pj_generation := 0\<rparr>) = pj_generation (x\<lparr>pj_generation := 1\<rparr>)" by (rule arg_cong)
    then show False by simp
  qed
  then obtain y where "strict_prefix [] (js_envelope j y)" by (metis Nil_prefix strict_prefix_def)
  then have "js_parse j [] = None \<and> \<not> js_is_json j []" using j unfolding json_ok_def by blast
  then show ?thesis by (simp add: bytes_gen_def serialized_generation_def)
qed

text \<open>
  Interrupted recoveries lose what was read: a write truncates \<open>.next\<close> also when \<open>.next\<close> is the file the
  last start read. After a crash between the two renames a start reads the new value \<open>u\<close>; a crash at
  the beginning of the next write brings back the old value, and if that write gets further, past the
  removal of \<open>.retired\<close>, a crash at the beginning of the one after it leaves nothing: the next start
  finds no state and begins with an empty one.
\<close>

theorem interrupted_recoveries_lose_everything:
  assumes "json_ok j" and "disk_ok j s" and "s MainFile \<noteq> None" and "s PreviousFile = None"
    and "Suc (Suc (generation j s)) < u64_max"
    and "js_payload j u \<noteq> None" and "js_payload j v \<noteq> None" and "js_payload j w \<noteq> None"
  shows "\<exists>b1 b2 b3 t1 t2 r1 r2. envelope_bytes j readable s u = Ok b1 \<and> write_steps b1 (Starting, s) (MainRetired, t1)
     \<and> load_json j readable t1 = Ok (Some u)
     \<and> envelope_bytes j readable t1 v = Ok b2 \<and> write_steps b2 (Starting, t1) (Writing 0, r1)
     \<and> load_json j readable r1 = load_json j readable s
     \<and> write_steps b2 (Starting, t1) (Cleared, t2) \<and> load_json j readable t2 = Ok (Some v)
     \<and> envelope_bytes j readable t2 w = Ok b3 \<and> write_steps b3 (Starting, t2) (Writing 0, r2)
     \<and> loaded_of (load_json j readable r2) = Absent"
proof -
  have "generation j s < u64_max" using assms(5) by simp
  then obtain b1 where b1: "envelope_bytes j readable s u = Ok b1" "staged j s u b1"
    using staged_bytes [OF assms(1,2) _ assms(6)] by blast
  let ?t1 = "s(NextFile := Some b1, RetiredFile := s MainFile, MainFile := None)"
  note t1 = reaches_retired [of b1 s]
  have ok1: "disk_ok j ?t1" using steps_disk [OF assms(2) b1(2) t1] by blast
  have g1: "gen_of j ?t1 NextFile = Some (Suc (generation j s))"
    using bytes_gen_staged(1) [OF b1(2)] by (simp add: gen_of_upd)
  then have n1: "newest j ?t1 = Some b1" by (simp add: newest_def)
  then have gen1: "generation j ?t1 = Suc (generation j s)"
    using b1(2) by (simp add: generation_def staged_def good_def)
  then obtain b2 where b2: "envelope_bytes j readable ?t1 v = Ok b2" "staged j ?t1 v b2"
    using staged_bytes [OF assms(1) ok1 _ assms(7)] assms(5) by auto
  let ?r1 = "?t1(NextFile := Some [])" and ?t2 = "?t1(NextFile := Some b2, RetiredFile := None)"
  note r1 = reaches_start [of b2 ?t1] and t2 = reaches_cleared [of b2 ?t1]
  have ok2: "disk_ok j ?r1" "disk_ok j ?t2"
    using steps_disk [OF ok1 b2(2) r1] steps_disk [OF ok1 b2(2) t2] by blast+
  note empty = staged_nonempty [OF b1(2) assms(1) b1(1)]
  have old: "newest j ?r1 = newest j s"
    using assms(3) empty by (auto simp: newest_def gen_of_upd)
  have n2: "newest j ?t2 = Some b2" "generation j ?t2 = Suc (Suc (generation j s))"
    using b2(2) gen1 bytes_gen_staged(1) [OF b2(2)]
    by (simp_all add: newest_def gen_of_upd generation_def staged_def good_def)
  then obtain b3 where b3: "envelope_bytes j readable ?t2 w = Ok b3" "staged j ?t2 w b3"
    using staged_bytes [OF assms(1) ok2(2) _ assms(8)] assms(5) by auto
  let ?r2 = "?t2(NextFile := Some [])"
  note r2 = reaches_start [of b3 ?t2]
  have ok3: "disk_ok j ?r2" using steps_disk [OF ok2(2) b3(2) r2] by blast
  have "newest j ?r2 = None" using assms(4) empty by (simp add: newest_def gen_of_upd)
  then have gone: "loaded_of (load_json j readable ?r2) = Absent" using load_newest [OF ok3] by simp
  have "load_json j readable ?t1 = Ok (Some u)" "load_json j readable ?t2 = Ok (Some v)"
    using load_good [OF ok1 n1] load_good [OF ok2(2) n2(1)] b1(2) b2(2) by (auto simp: staged_def)
  then show ?thesis using b1(1) b2(1) b3(1) t1 r1 t2 r2 gone load_same [OF assms(2) ok2(1) old] by blast
qed

section \<open>A concrete format\<close>

text \<open>Numbers in unary, strings escaped; a closing bracket ends the envelope.\<close>

fun put_text :: "string \<Rightarrow> string" where
  "put_text [] = ''|''"
| "put_text (c # cs) = CHR ''.'' # c # put_text cs"

definition put_number :: "nat \<Rightarrow> string" where
  "put_number n = replicate n (CHR ''1'') @ ''|''"

fun get_text :: "string \<Rightarrow> (string \<times> string) option" where
  "get_text (d # c # cs) = (if d = CHR ''.'' then map_option (\<lambda>(x, r). (c # x, r)) (get_text cs)
     else if d = CHR ''|'' then Some ([], c # cs) else None)"
| "get_text [d] = (if d = CHR ''|'' then Some ([], []) else None)"
| "get_text [] = None"

fun get_number :: "string \<Rightarrow> (nat \<times> string) option" where
  "get_number [] = None"
| "get_number (c # cs) = (if c = CHR ''1'' then map_option (\<lambda>(n, r). (Suc n, r)) (get_number cs)
     else if c = CHR ''|'' then Some (0, cs) else None)"

definition plain_envelope :: "envelope \<Rightarrow> string" where
  "plain_envelope e = put_number (pj_schema_version e) @ put_number (pj_generation e)
     @ put_text (pj_sha256 e) @ put_text (pj_payload e)"

definition plain_parse :: "string \<Rightarrow> envelope option" where
  "plain_parse b = (case get_number b of None \<Rightarrow> None | Some (v, b1) \<Rightarrow>
     (case get_number b1 of None \<Rightarrow> None | Some (g, b2) \<Rightarrow>
     (case get_text b2 of None \<Rightarrow> None | Some (h, b3) \<Rightarrow>
     (case get_text b3 of None \<Rightarrow> None | Some (p, b4) \<Rightarrow>
     if b4 = [] then Some \<lparr>pj_schema_version = v, pj_generation = g, pj_sha256 = h, pj_payload = p\<rparr> else None))))"

definition plain_json :: "string json" where
  "plain_json = \<lparr>js_payload = Some, js_value = Some, js_legacy = (\<lambda>_. None), js_envelope = plain_envelope,
     js_parse = plain_parse, js_is_json = (\<lambda>b. plain_parse b \<noteq> None), js_sha = (\<lambda>s. s)\<rparr>"

lemma get_put_text: "get_text (put_text x @ r) = Some (x, r)"
  by (induction x) (cases r; simp)+

lemma get_put_number: "get_number (put_number n @ r) = Some (n, r)"
  by (induction n) (simp_all add: put_number_def)

lemma get_text_append: "get_text b = Some (x, r) \<Longrightarrow> get_text (b @ y) = Some (x, r @ y)"
  by (induction b arbitrary: x r rule: get_text.induct) (auto split: if_splits, (cases y; simp)?)

lemma get_number_append: "get_number b = Some (x, r) \<Longrightarrow> get_number (b @ y) = Some (x, r @ y)"
  by (induction b arbitrary: x r) (auto split: if_splits)

lemma plain_parse_envelope: "plain_parse (plain_envelope e) = Some e"
  by (simp add: plain_parse_def plain_envelope_def get_put_number get_put_text get_put_text [of _ "[]", simplified])

lemma plain_parse_prefix:
  assumes "strict_prefix b (plain_envelope e)" shows "plain_parse b = None"
proof (rule ccontr)
  assume "plain_parse b \<noteq> None"
  then obtain v b1 g b2 h b3 p where
    "get_number b = Some (v, b1)" "get_number b1 = Some (g, b2)" "get_text b2 = Some (h, b3)" "get_text b3 = Some (p, [])"
    by (auto simp: plain_parse_def split: option.splits if_splits)
  moreover obtain y where y: "plain_envelope e = b @ y" "y \<noteq> []" using assms by (auto elim: strict_prefixE')
  ultimately have "plain_parse (plain_envelope e) = None"
    unfolding y(1) by (simp add: plain_parse_def get_number_append get_text_append)
  then show False by (simp add: plain_parse_envelope)
qed

lemma plain_json_ok: "json_ok plain_json"
  by (simp add: json_ok_def plain_json_def plain_parse_envelope plain_parse_prefix)

lemma plain_bytes:
  assumes "disk_ok plain_json s" and "generation plain_json s = n" and "n < u64_max"
  shows "envelope_bytes plain_json readable s v = Ok (plain_envelope \<lparr>pj_schema_version = 1,
     pj_generation = Suc n, pj_sha256 = v, pj_payload = v\<rparr>)"
proof -
  have "persisted_generation plain_json readable s = Ok n" using generation_newest [OF assms(1)] assms(2) by simp
  moreover have "js_payload plain_json v = Some v" "js_sha plain_json v = v" "js_envelope plain_json = plain_envelope"
    by (simp_all add: plain_json_def)
  ultimately show ?thesis using assms(3) by (simp add: envelope_bytes_def sat_add64_def)
qed

lemma fresh_generation [simp]: "generation j (\<lambda>_. None) = 0" "newest j (\<lambda>_. None) = None"
  by (simp_all add: generation_def newest_def gen_of_def)

definition first_bytes :: string where
  "first_bytes = plain_envelope \<lparr>pj_schema_version = 1, pj_generation = 1, pj_sha256 = ''a'', pj_payload = ''a''\<rparr>"

lemma first_write: "envelope_bytes plain_json readable (\<lambda>_. None) ''a'' = Ok first_bytes"
  using plain_bytes [OF disk_ok_fresh refl] by (simp add: u64_max_def first_bytes_def)

theorem interrupted_write_is_atomic_witness:
  "load_json plain_json readable (atomic_write first_bytes (\<lambda>_. None)) = Ok (Some ''a'')
   \<and> settled plain_json (atomic_write first_bytes (\<lambda>_. None))"
proof -
  have "settled plain_json (\<lambda>_. None)" "generation plain_json (\<lambda>_. None) < u64_max"
    by (simp_all add: settled_def gen_of_def u64_max_def)
  from interrupted_write_is_atomic [OF plain_json_ok disk_ok_fresh this first_write write_finishes]
  show ?thesis by auto
qed

theorem interruptions_never_corrupt_witness:
  "load_json plain_json readable ((\<lambda>_. None)(NextFile := Some [])) \<in> {Ok None, Ok (Some ''a'')}"
proof -
  have "disk_history plain_json [''a''] ((\<lambda>_. None)(NextFile := Some []))"
    by (rule disk_history.Written [OF disk_history.Fresh first_write reaches_start])
  from interruptions_never_corrupt [OF plain_json_ok this] show ?thesis by (auto simp: u64_max_def)
qed

theorem interrupted_recoveries_lose_everything_witness:
  "\<exists>b1 b2 b3 t1 t2 r. write_steps b1 (Starting, atomic_write first_bytes (\<lambda>_. None)) (MainRetired, t1)
     \<and> load_json plain_json readable t1 = Ok (Some ''b'')
     \<and> write_steps b2 (Starting, t1) (Cleared, t2) \<and> write_steps b3 (Starting, t2) (Writing 0, r)
     \<and> loaded_of (load_json plain_json readable r) = Absent"
proof -
  let ?s = "atomic_write first_bytes (\<lambda>_. None)"
  have st: "settled plain_json (\<lambda>_. None)" "generation plain_json (\<lambda>_. None) < u64_max"
    by (simp_all add: settled_def gen_of_def u64_max_def)
  from interrupted_write_is_atomic [OF plain_json_ok disk_ok_fresh st first_write write_finishes]
  have ok: "disk_ok plain_json ?s" and g: "generation plain_json ?s = 1" by auto
  have m: "?s MainFile \<noteq> None" "?s PreviousFile = None" by (simp_all add: atomic_write_def)
  have "Suc (Suc (generation plain_json ?s)) < u64_max" by (simp add: g u64_max_def)
  moreover have "js_payload plain_json x \<noteq> None" for x by (simp add: plain_json_def)
  ultimately show ?thesis
    using interrupted_recoveries_lose_everything [OF plain_json_ok ok m, of "''b''" "''c''" "''d''"] by blast
qed

end
