(* ===== verification/AuditFrames.thy ===== *)
theory AuditFrames
  imports Policy
begin

text \<open>
  The framing of the audit log (\<open>dashboard/audit.rs\<close>): a segment file is a sequence of frames, each
  a big-endian 32-bit length, the payload, and the SHA-256 of the payload. Files are strings of
  bytes. \<open>read_frames\<close> is the loop of \<open>read_segment\<close>; it returns the entries it pushed, the contents
  the file has afterwards (the loop cuts a torn tail off the current segment) and its result. The
  digest \<open>sha\<close> and the JSON reader \<open>dec\<close> are arguments.
\<close>

section \<open>Errors\<close>

datatype audit_error =
    AeIo string | AeSerialization | AeInvalidRetention | AeInvalidSequence | AeInvalidRecord
  | AeFrameTooLarge | AeInsecureStorage | AeInjectedCrash | AeStoreLocked
  | AeNonMonotonicSequence | AeLimitExceeded | AeCursorAhead | AeCommittedCorruption
  | AeAuditUnavailable | AeSigning

fun audit_error_str :: "audit_error \<Rightarrow> string" where
  "audit_error_str (AeIo _) = ''audit_io_error''"
| "audit_error_str AeSerialization = ''audit_serialization_error''"
| "audit_error_str AeInvalidRetention = ''invalid_retention''"
| "audit_error_str AeInvalidSequence = ''invalid_sequence''"
| "audit_error_str AeInvalidRecord = ''invalid_record''"
| "audit_error_str AeFrameTooLarge = ''frame_too_large''"
| "audit_error_str AeInsecureStorage = ''insecure_storage''"
| "audit_error_str AeInjectedCrash = ''injected_crash''"
| "audit_error_str AeStoreLocked = ''store_locked''"
| "audit_error_str AeNonMonotonicSequence = ''non_monotonic_sequence''"
| "audit_error_str AeLimitExceeded = ''limit_exceeded''"
| "audit_error_str AeCursorAhead = ''cursor_ahead''"
| "audit_error_str AeCommittedCorruption = ''committed_corruption''"
| "audit_error_str AeAuditUnavailable = ''audit_unavailable''"
| "audit_error_str AeSigning = ''signing_failed''"

section \<open>Frames\<close>

definition HASH_BYTES :: nat where "HASH_BYTES = 32"
definition AUDIT_MAX_SEGMENT_BYTES :: nat where "AUDIT_MAX_SEGMENT_BYTES = 67108864"
definition u32_max :: nat where "u32_max = 4294967295"

text \<open>\<open>to_be_bytes\<close> and \<open>from_be_bytes\<close>; the cast \<open>as u32\<close> keeps the low 32 bits.\<close>

definition be32 :: "nat \<Rightarrow> string" where
  "be32 n = map char_of [n div 16777216 mod 256, n div 65536 mod 256, n div 256 mod 256, n mod 256]"

definition be32_value :: "string \<Rightarrow> nat" where
  "be32_value s = foldl (\<lambda>a c. 256 * a + byte_of c) 0 s"

definition frame_bytes :: "(string \<Rightarrow> string) \<Rightarrow> string \<Rightarrow> string" where
  "frame_bytes sha payload = be32 (length payload) @ payload @ sha payload"

definition frame_len :: "string \<Rightarrow> audit_error + nat" where
  "frame_len payload =
     (if length payload \<le> u32_max then Ok (length payload + 4 + HASH_BYTES)
      else Err AeFrameTooLarge)"

text \<open>
  One pass of the reading loop per call. The failing branches of the two \<open>read_exact\<close> calls after
  the length check cannot be reached, because the file does not shrink while the store is locked.
\<close>

function read_frames ::
    "(string \<Rightarrow> string) \<Rightarrow> (string \<Rightarrow> 'e option) \<Rightarrow> bool \<Rightarrow> string
     \<Rightarrow> 'e list \<times> string \<times> (audit_error + bool)" where
  "read_frames sha dec allow_tail_recovery file =
     (if length file < 4 then
        (if file = [] then ([], [], Ok False)
         else if \<not> allow_tail_recovery then ([], file, Err AeCommittedCorruption)
         else ([], [], Ok True))
      else
        (let n = be32_value (take 4 file);
             required = n + HASH_BYTES;
             rest = drop 4 file
         in if length rest < required then
              (if \<not> allow_tail_recovery then ([], file, Err AeCommittedCorruption)
               else ([], [], Ok True))
            else if required + 4 > AUDIT_MAX_SEGMENT_BYTES then ([], file, Err AeCommittedCorruption)
            else if sha (take n rest) \<noteq> take HASH_BYTES (drop n rest)
            then ([], file, Err AeCommittedCorruption)
            else (case dec (take n rest) of
                None \<Rightarrow> ([], file, Err AeCommittedCorruption)
              | Some e \<Rightarrow>
                  (case read_frames sha dec allow_tail_recovery (drop required rest) of
                     (es, kept, r) \<Rightarrow> (e # es, take (4 + required) file @ kept, r)))))"
  by pat_completeness auto
termination
  by (relation "measure (\<lambda>(sha, dec, allow, file). length file)") (auto simp: HASH_BYTES_def)

declare read_frames.simps [simp del]

section \<open>Laws of the codec\<close>

text \<open>
  What the store relies on: JSON reads back every valid entry it wrote (the reader refuses a record its
  validation refuses), and a SHA-256 digest has 32 bytes.
\<close>

definition codec_reads_back ::
    "('e \<Rightarrow> bool) \<Rightarrow> (string \<Rightarrow> string) \<Rightarrow> ('e \<Rightarrow> string) \<Rightarrow> (string \<Rightarrow> 'e option) \<Rightarrow> bool"
where
  "codec_reads_back valid sha enc dec \<longleftrightarrow>
     (\<forall>p. length (sha p) = HASH_BYTES) \<and> (\<forall>e. valid e \<longrightarrow> dec (enc e) = Some e)"

definition frames :: "(string \<Rightarrow> string) \<Rightarrow> ('e \<Rightarrow> string) \<Rightarrow> 'e list \<Rightarrow> string" where
  "frames sha enc es = concat (map (\<lambda>e. frame_bytes sha (enc e)) es)"

definition entry_fits :: "('e \<Rightarrow> bool) \<Rightarrow> ('e \<Rightarrow> string) \<Rightarrow> 'e \<Rightarrow> bool" where
  "entry_fits valid enc e \<longleftrightarrow> valid e \<and> length (enc e) + 36 \<le> AUDIT_MAX_SEGMENT_BYTES"

lemma codec_reads_backD:
  assumes "codec_reads_back valid sha enc dec"
  shows "length (sha p) = 32" "valid e \<Longrightarrow> dec (enc e) = Some e"
  using assms by (auto simp: codec_reads_back_def HASH_BYTES_def)

lemma byte_of_char_of_mod: "byte_of (char_of (n mod 256)) = n mod 256"
  by (simp add: byte_of_def)

lemma length_be32 [simp]: "length (be32 n) = 4"
  by (simp add: be32_def)

lemma be32_value_be32:
  assumes "n \<le> u32_max"
  shows "be32_value (be32 n) = n"
proof -
  let ?a = "n div 256" and ?b = "n div 65536" and ?c = "n div 16777216"
  have "?c < 256" using assms by (simp add: u32_max_def)
  moreover have "?b = ?a div 256" "?c = ?b div 256"
    using div_mult2_eq [of n 256 256] div_mult2_eq [of n 65536 256] by simp_all
  moreover have "n = 256 * ?a + n mod 256" "?a = 256 * (?a div 256) + ?a mod 256"
    "?b = 256 * (?b div 256) + ?b mod 256"
    by simp_all
  ultimately show ?thesis
    unfolding be32_def be32_value_def
    by (simp only: list.map foldl.simps byte_of_char_of_mod) (simp add: algebra_simps)
qed

lemma frames_Nil [simp]: "frames sha enc [] = []"
  by (simp add: frames_def)

lemma frames_Cons [simp]: "frames sha enc (e # es) = frame_bytes sha (enc e) @ frames sha enc es"
  by (simp add: frames_def)

lemma frames_append [simp]: "frames sha enc (es @ fs) = frames sha enc es @ frames sha enc fs"
  by (simp add: frames_def)

lemma frame_len_Ok:
  "frame_len p = Inr n \<longleftrightarrow> length p \<le> u32_max \<and> n = length p + 36"
  by (auto simp: frame_len_def HASH_BYTES_def)

lemma fits_u32: "entry_fits valid enc e \<Longrightarrow> length (enc e) \<le> u32_max"
  by (simp add: entry_fits_def u32_max_def AUDIT_MAX_SEGMENT_BYTES_def)

lemma length_frame_bytes:
  "codec_reads_back valid sha enc dec \<Longrightarrow> length (frame_bytes sha p) = length p + 36"
  by (simp add: frame_bytes_def codec_reads_backD)

lemma read_frames_Nil [simp]: "read_frames sha dec allow [] = ([], [], Inr False)"
  by (simp add: read_frames.simps)

lemma read_frames_frame:
  assumes "codec_reads_back valid sha enc dec" and "entry_fits valid enc e"
  shows "read_frames sha dec allow (frame_bytes sha (enc e) @ rest) =
    (case read_frames sha dec allow rest of
       (es, kept, r) \<Rightarrow> (e # es, frame_bytes sha (enc e) @ kept, r))"
proof -
  note c = codec_reads_backD [OF assms(1)]
  have v: "be32_value (be32 (length (enc e))) = length (enc e)"
    by (rule be32_value_be32 [OF fits_u32 [OF assms(2)]])
  have m: "length (enc e) + 36 \<le> AUDIT_MAX_SEGMENT_BYTES"
    using assms(2) by (simp add: entry_fits_def)
  show ?thesis
    by (subst read_frames.simps)
       (use m assms(2) in \<open>simp add: frame_bytes_def v c HASH_BYTES_def Let_def entry_fits_def split: prod.splits\<close>)
qed

lemma read_frames_frames:
  assumes "codec_reads_back valid sha enc dec" and "list_all (entry_fits valid enc) es"
  shows "read_frames sha dec allow (frames sha enc es @ rest) =
    (case read_frames sha dec allow rest of
       (fs, kept, r) \<Rightarrow> (es @ fs, frames sha enc es @ kept, r))"
  using assms(2)
proof (induction es)
  case Nil
  then show ?case by (simp split: prod.splits)
next
  case (Cons e es)
  then show ?case
    by (simp add: read_frames_frame [OF assms(1)] split: prod.splits)
qed

lemma read_frames_whole:
  assumes "codec_reads_back valid sha enc dec" and "list_all (entry_fits valid enc) es"
  shows "read_frames sha dec allow (frames sha enc es) = (es, frames sha enc es, Inr False)"
  using read_frames_frames [OF assms, of allow "[]"] by simp

lemma read_frames_short:
  assumes "4 \<le> length f" and "length f < be32_value (take 4 f) + 36"
  shows "read_frames sha dec allow f =
    (if allow then ([], [], Inr True) else ([], f, Inl AeCommittedCorruption))"
proof -
  have "length (drop 4 f) < be32_value (take 4 f) + HASH_BYTES" "\<not> length f < 4"
    using assms by (simp_all add: HASH_BYTES_def)
  then show ?thesis
    by (subst read_frames.simps) (cases allow; simp only: Let_def if_True if_False simp_thms)
qed

lemma read_frames_torn:
  assumes "codec_reads_back valid sha enc dec" and "entry_fits valid enc e"
    and "0 < n" and "n < length (frame_bytes sha (enc e))"
  shows "read_frames sha dec allow (take n (frame_bytes sha (enc e))) =
    (if allow then ([], [], Inr True)
     else ([], take n (frame_bytes sha (enc e)), Inl AeCommittedCorruption))"
proof -
  note c = codec_reads_backD [OF assms(1)]
  have l: "length (frame_bytes sha (enc e)) = length (enc e) + 36"
    by (rule length_frame_bytes [OF assms(1)])
  have v: "be32_value (be32 (length (enc e))) = length (enc e)"
    by (rule be32_value_be32 [OF fits_u32 [OF assms(2)]])
  have ne: "take n (frame_bytes sha (enc e)) \<noteq> []"
    using assms(3,4) by auto
  show ?thesis
  proof (cases "n < 4")
    case True
    then show ?thesis
      by (subst read_frames.simps) (use ne l assms(4) in simp)
  next
    case False
    have t4: "take 4 (take n (frame_bytes sha (enc e))) = be32 (length (enc e))"
      using False by (simp add: frame_bytes_def)
    show ?thesis
      by (rule read_frames_short) (use False assms(4) l t4 v in simp_all)
  qed
qed

text \<open>
  Reading a segment gives back exactly the entries framed into it. When the last frame was only
  partly written, the current segment is cut back to its whole frames and the recovery is reported;
  any other segment is refused as corrupt.
\<close>

theorem segment_survives_torn_tail:
  assumes "codec_reads_back valid sha enc dec" and "list_all (entry_fits valid enc) es" and "entry_fits valid enc e"
    and "n < length (frame_bytes sha (enc e))"
  shows "read_frames sha dec True (frames sha enc es @ take n (frame_bytes sha (enc e)))
      = (es, frames sha enc es, Ok (0 < n))
    \<and> snd (snd (read_frames sha dec False (frames sha enc es @ take n (frame_bytes sha (enc e)))))
      = (if n = 0 then Ok False else Err AeCommittedCorruption)"
proof (cases "n = 0")
  case True
  then show ?thesis using read_frames_whole [OF assms(1,2)] by simp
next
  case False
  then show ?thesis
    by (simp add: read_frames_frames [OF assms(1,2)] read_frames_torn [OF assms(1,3) _ assms(4)])
qed

text \<open>A codec for one-byte entries, to show that the laws can hold.\<close>

definition audit_sample_sha :: "string \<Rightarrow> string" where
  "audit_sample_sha p = replicate 32 (CHR ''0'')"

definition audit_sample_enc :: "char \<Rightarrow> string" where "audit_sample_enc c = [c]"
definition sample_dec :: "string \<Rightarrow> char option" where
  "sample_dec s = (case s of [c] \<Rightarrow> Some c | _ \<Rightarrow> None)"

lemma sample_codec: "codec_reads_back (\<lambda>_. True) audit_sample_sha audit_sample_enc sample_dec"
  by (simp add: codec_reads_back_def audit_sample_sha_def audit_sample_enc_def sample_dec_def HASH_BYTES_def)

lemma sample_fits: "entry_fits (\<lambda>_. True) audit_sample_enc c"
  by (simp add: entry_fits_def audit_sample_enc_def AUDIT_MAX_SEGMENT_BYTES_def)

theorem segment_survives_torn_tail_witness:
  "read_frames audit_sample_sha sample_dec True
     (frames audit_sample_sha audit_sample_enc ''ab'' @ take 7 (frame_bytes audit_sample_sha (audit_sample_enc (CHR ''c''))))
   = (''ab'', frames audit_sample_sha audit_sample_enc ''ab'', Ok True)"
  using segment_survives_torn_tail [OF sample_codec, of "''ab''" "CHR ''c''" 7]
  by (simp add: sample_fits length_frame_bytes [OF sample_codec] audit_sample_enc_def)

end
