(* ===== verification/AuditRecords.thy ===== *)
theory AuditRecords
  imports AuditFrames
begin

text \<open>
  What the audit log stores (\<open>dashboard/audit.rs\<close>): the retention period, the redaction of a raw
  record, the filters of queries, deletions and exports, and the signed export manifest. The JSON
  writers and the digest are arguments; \<open>serde_json\<close> writes a vector as its items between brackets,
  separated by commas.
\<close>

section \<open>Retention\<close>

type_synonym retention_policy = nat

definition retention_new :: "nat \<Rightarrow> audit_error + retention_policy" where
  "retention_new days = (if 1 \<le> days \<and> days \<le> 365 then Ok days else Err AeInvalidRetention)"

definition retention_default :: retention_policy where
  "retention_default = 30"

section \<open>Redaction\<close>

record raw_audit_record =
  ra_sequence :: u64
  ra_occurred_at_ms :: u64
  ra_activity_id :: "activity_id option"
  ra_principal_id :: principal_id
  ra_source_host_id :: host_id
  ra_target_host_id :: host_id
  ra_device_id :: "device_id option"
  ra_operation :: operation_id
  ra_resources :: "resource_class list"
  ra_decision :: policy_effect
  ra_result :: audit_result
  ra_message :: "string option"
  ra_arguments :: "string list"
  ra_environment :: "(string \<times> string) list"
  ra_stdout :: "string option"
  ra_stderr :: "string option"
  ra_workspace_path :: "string option"
  ra_artifact_metadata :: "(string \<times> string) list"

type_synonym redactor = "string list"

definition redactor_new :: "string list \<Rightarrow> redactor" where
  "redactor_new literals = filter (\<lambda>v. v \<noteq> []) literals"

definition contains_sensitive :: "redactor \<Rightarrow> string \<Rightarrow> bool" where
  "contains_sensitive literals value =
     (let lower = map to_ascii_lowercase value in
      str_contains lower ''bearer'' \<or> str_contains lower ''authorization''
      \<or> str_contains lower ''token'' \<or> str_contains lower ''secret''
      \<or> str_contains lower ''private-key''
      \<or> list_ex (\<lambda>literal. str_contains value literal) literals)"

definition redact_id :: "redactor \<Rightarrow> string \<Rightarrow> string" where
  "redact_id literals value = (if contains_sensitive literals value then ''redacted'' else value)"

definition redact :: "redactor \<Rightarrow> raw_audit_record \<Rightarrow> dashboard_audit_record" where
  "redact literals raw =
     (let sensitive = is_some_and (contains_sensitive literals) (ra_message raw);
          safe = (case ra_message raw of
              None \<Rightarrow> OperationSucceeded
            | Some m \<Rightarrow> (case message_code_of m of None \<Rightarrow> OperationSucceeded | Some code \<Rightarrow> code))
      in \<lparr>da_sequence = ra_sequence raw,
          da_occurred_at_ms = ra_occurred_at_ms raw,
          da_activity_id = map_option (redact_id literals) (ra_activity_id raw),
          da_principal_id = redact_id literals (ra_principal_id raw),
          da_source_host_id = redact_id literals (ra_source_host_id raw),
          da_target_host_id = redact_id literals (ra_target_host_id raw),
          da_device_id = map_option (redact_id literals) (ra_device_id raw),
          da_operation = redact_id literals (ra_operation raw),
          da_resources = ra_resources raw,
          da_decision = ra_decision raw,
          da_result = ra_result raw,
          da_redacted_message =
            map_option (\<lambda>_. \<lparr>dm_code = (if sensitive then Redacted else safe), dm_params = []\<rparr>)
              (ra_message raw)\<rparr>)"

section \<open>Filters\<close>

record audit_filter =
  af_from_ms :: "u64 option"
  af_through_ms :: "u64 option"
  af_principal_id :: "principal_id option"
  af_source_host_id :: "host_id option"
  af_target_host_id :: "host_id option"
  af_device_id :: "device_id option"
  af_operation :: "operation_id option"
  af_resource :: "resource_class option"
  af_decision :: "policy_effect option"
  af_result :: "audit_result option"

definition filter_default :: audit_filter where
  "filter_default = \<lparr>af_from_ms = None, af_through_ms = None, af_principal_id = None,
     af_source_host_id = None, af_target_host_id = None, af_device_id = None, af_operation = None,
     af_resource = None, af_decision = None, af_result = None\<rparr>"

definition filter_matches :: "audit_filter \<Rightarrow> dashboard_audit_record \<Rightarrow> bool" where
  "filter_matches f r =
     (is_none_or (\<lambda>v. da_occurred_at_ms r \<ge> v) (af_from_ms f)
      \<and> is_none_or (\<lambda>v. da_occurred_at_ms r \<le> v) (af_through_ms f)
      \<and> is_none_or (\<lambda>v. da_principal_id r = v) (af_principal_id f)
      \<and> is_none_or (\<lambda>v. da_source_host_id r = v) (af_source_host_id f)
      \<and> is_none_or (\<lambda>v. da_target_host_id r = v) (af_target_host_id f)
      \<and> is_none_or (\<lambda>v. da_device_id r = Some v) (af_device_id f)
      \<and> is_none_or (\<lambda>v. da_operation r = v) (af_operation f)
      \<and> is_none_or (\<lambda>v. v \<in> set (da_resources r)) (af_resource f)
      \<and> is_none_or (\<lambda>v. da_decision r = v) (af_decision f)
      \<and> is_none_or (\<lambda>v. da_result r = v) (af_result f))"

section \<open>Stored entries and codecs\<close>

record segment_summary =
  ss_id :: string
  ss_sha256 :: string

record retention_tombstone =
  rt_deleted_record_count :: nat
  rt_first_occurred_at_ms :: u64
  rt_last_occurred_at_ms :: u64
  rt_segments :: "segment_summary list"
  rt_replacement_segments :: "segment_summary list"

datatype stored_entry =
    StoredRecord dashboard_audit_record
  | StoredTombstone retention_tombstone

fun entry_valid :: "stored_entry \<Rightarrow> bool" where
  "entry_valid (StoredRecord r) = is_ok (audit_validate r)"
| "entry_valid (StoredTombstone t) = True"

fun entry_records :: "stored_entry list \<Rightarrow> dashboard_audit_record list" where
  "entry_records [] = []"
| "entry_records (StoredRecord r # es) = r # entry_records es"
| "entry_records (StoredTombstone t # es) = entry_records es"

fun entry_tombstones :: "stored_entry list \<Rightarrow> retention_tombstone list" where
  "entry_tombstones [] = []"
| "entry_tombstones (StoredRecord r # es) = entry_tombstones es"
| "entry_tombstones (StoredTombstone t # es) = t # entry_tombstones es"

record audit_index =
  ai_version :: nat
  ai_current :: u64
  ai_active_segments :: "u64 list"

text \<open>
  The writers and readers of \<open>serde_json\<close>, the digest, and the envelope an export signs.
\<close>

record audit_codec =
  ac_entry :: "stored_entry \<Rightarrow> string"
  ac_read_entry :: "string \<Rightarrow> stored_entry option"
  ac_index :: "audit_index \<Rightarrow> string"
  ac_read_index :: "string \<Rightarrow> audit_index option"
  ac_cursor :: "event_cursor \<Rightarrow> string"
  ac_envelope :: "string \<Rightarrow> nat \<Rightarrow> nat \<Rightarrow> string \<Rightarrow> string \<Rightarrow> string"
  ac_digest :: "string \<Rightarrow> string"

definition codec_ok :: "audit_codec \<Rightarrow> bool" where
  "codec_ok c \<longleftrightarrow>
     codec_reads_back entry_valid (ac_digest c) (ac_entry c) (ac_read_entry c)
     \<and> (\<forall>i. ac_read_index c (ac_index c i) = Some i)"

section \<open>Exports\<close>

datatype export_signature =
    ExportSigned string string
  | ExportUnavailable

record export_manifest =
  em_format_version :: nat
  em_record_count :: nat
  em_records_sha256 :: string
  em_signature :: export_signature

record audit_export =
  ax_records :: "dashboard_audit_record list"
  ax_records_json :: string
  ax_manifest :: export_manifest

record audit_signer =
  sg_key_id :: string
  sg_sign :: "string \<Rightarrow> audit_error + string"

definition signing_envelope :: "audit_codec \<Rightarrow> nat \<Rightarrow> nat \<Rightarrow> string \<Rightarrow> string \<Rightarrow> string" where
  "signing_envelope c version count digest key =
     ac_envelope c ''devicelane.audit-export.v1'' version count digest key"

definition canonical_export_signing_envelope :: "audit_codec \<Rightarrow> export_manifest \<Rightarrow> string" where
  "canonical_export_signing_envelope c m =
     signing_envelope c (em_format_version m) (em_record_count m) (em_records_sha256 m)
       (case em_signature m of ExportSigned key _ \<Rightarrow> key | ExportUnavailable \<Rightarrow> ''unavailable'')"

definition sign_export ::
    "audit_codec \<Rightarrow> audit_signer option \<Rightarrow> nat \<Rightarrow> string \<Rightarrow> audit_error + export_signature" where
  "sign_export c signer count digest =
     (case signer of
        None \<Rightarrow> Ok ExportUnavailable
      | Some s \<Rightarrow>
          and_then (sg_sign s (signing_envelope c 1 count digest (sg_key_id s)))
            (\<lambda>sig. Ok (ExportSigned (sg_key_id s) (hex sig))))"

section \<open>Lemmas on redaction and entries\<close>

lemma sensitive_literal:
  "l \<in> set literals \<Longrightarrow> sublist l value \<Longrightarrow> contains_sensitive literals value"
  by (auto simp: contains_sensitive_def Let_def list_ex_iff str_contains_iff)

lemma redact_sequence [simp]: "da_sequence (redact l raw) = ra_sequence raw"
  and redact_occurred [simp]: "da_occurred_at_ms (redact l raw) = ra_occurred_at_ms raw"
  and redact_resources [simp]: "da_resources (redact l raw) = ra_resources raw"
  by (simp_all add: redact_def Let_def)

lemma entry_records_append [simp]: "entry_records (es @ fs) = entry_records es @ entry_records fs"
  by (induction es rule: entry_records.induct) auto

lemma entry_tombstones_append [simp]:
  "entry_tombstones (es @ fs) = entry_tombstones es @ entry_tombstones fs"
  by (induction es rule: entry_tombstones.induct) auto

lemma entry_records_map [simp]: "entry_records (map StoredRecord rs) = rs"
  by (induction rs) auto

lemma entry_tombstones_map [simp]: "entry_tombstones (map StoredTombstone ts) = ts"
  by (induction ts) auto

lemma entry_records_tombs [simp]: "entry_records (map StoredTombstone ts) = []"
  by (induction ts) auto

lemma entry_tombstones_records [simp]: "entry_tombstones (map StoredRecord rs) = []"
  by (induction rs) auto

lemma in_entry_records: "r \<in> set (entry_records es) \<longleftrightarrow> StoredRecord r \<in> set es"
  by (induction es rule: entry_records.induct) auto

text \<open>
  The texts of a stored record: its identifiers and its message code, other than the code every
  message without a code of its own is given.
\<close>

definition audit_texts :: "dashboard_audit_record \<Rightarrow> string list" where
  "audit_texts r =
     [da_principal_id r, da_source_host_id r, da_target_host_id r, da_operation r]
     @ (case da_activity_id r of None \<Rightarrow> [] | Some a \<Rightarrow> [a])
     @ (case da_device_id r of None \<Rightarrow> [] | Some a \<Rightarrow> [a])
     @ (case da_redacted_message r of None \<Rightarrow> []
          | Some m \<Rightarrow> (if dm_code m = OperationSucceeded then [] else [message_code_str (dm_code m)]))"

lemma message_code_of_str: "message_code_of m = Some code \<Longrightarrow> m = message_code_str code"
  unfolding message_code_of_def by (auto split: if_splits)


end
