(* ===== verification/AuditSample.thy ===== *)
theory AuditSample
  imports AuditRecords
begin

text \<open>
  A concrete codec for the entries and the index of the audit log, on which the hypotheses about
  \<open>serde_json\<close> and SHA-256 hold: every field is written with its length or as a decimal number and
  read back by the matching reader. It stands for no code of the repository; the examples of the
  audit theories run on it.
\<close>

section \<open>Writers and readers\<close>

definition reads :: "('a \<Rightarrow> string) \<Rightarrow> (string \<Rightarrow> ('a \<times> string) option) \<Rightarrow> bool" where
  "reads w r \<longleftrightarrow> (\<forall>x rest. r (w x @ rest) = Some (x, rest))"

definition w_nat :: "nat \<Rightarrow> string" where "w_nat n = show_nat n @ '';''"

definition r_nat :: "string \<Rightarrow> (nat \<times> string) option" where
  "r_nat s = Some (read_nat (takeWhile (\<lambda>c. c \<noteq> CHR '';'') s), tl (dropWhile (\<lambda>c. c \<noteq> CHR '';'') s))"

definition w_pair :: "('a \<Rightarrow> string) \<Rightarrow> ('b \<Rightarrow> string) \<Rightarrow> 'a \<times> 'b \<Rightarrow> string" where
  "w_pair v w p = v (fst p) @ w (snd p)"

definition r_pair ::
    "(string \<Rightarrow> ('a \<times> string) option) \<Rightarrow> (string \<Rightarrow> ('b \<times> string) option)
     \<Rightarrow> string \<Rightarrow> (('a \<times> 'b) \<times> string) option" where
  "r_pair r q s =
     (case r s of None \<Rightarrow> None
      | Some (a, s1) \<Rightarrow> (case q s1 of None \<Rightarrow> None | Some (b, s2) \<Rightarrow> Some ((a, b), s2)))"

definition r_map :: "('a \<Rightarrow> 'b) \<Rightarrow> (string \<Rightarrow> ('a \<times> string) option) \<Rightarrow> string \<Rightarrow> ('b \<times> string) option" where
  "r_map f r s = map_option (\<lambda>(a, s1). (f a, s1)) (r s)"

fun r_times :: "nat \<Rightarrow> (string \<Rightarrow> ('a \<times> string) option) \<Rightarrow> string \<Rightarrow> ('a list \<times> string) option" where
  "r_times 0 r s = Some ([], s)"
| "r_times (Suc n) r s =
     (case r s of None \<Rightarrow> None
      | Some (a, s1) \<Rightarrow> (case r_times n r s1 of None \<Rightarrow> None | Some (xs, s2) \<Rightarrow> Some (a # xs, s2)))"

definition w_list :: "('a \<Rightarrow> string) \<Rightarrow> 'a list \<Rightarrow> string" where
  "w_list w xs = w_nat (length xs) @ concat (map w xs)"

definition r_list :: "(string \<Rightarrow> ('a \<times> string) option) \<Rightarrow> string \<Rightarrow> ('a list \<times> string) option" where
  "r_list r s = (case r_nat s of None \<Rightarrow> None | Some (n, s1) \<Rightarrow> r_times n r s1)"

definition w_opt :: "('a \<Rightarrow> string) \<Rightarrow> 'a option \<Rightarrow> string" where
  "w_opt w x = w_list w (case x of None \<Rightarrow> [] | Some y \<Rightarrow> [y])"

definition r_opt :: "(string \<Rightarrow> ('a \<times> string) option) \<Rightarrow> string \<Rightarrow> ('a option \<times> string) option" where
  "r_opt r = r_map (\<lambda>xs. case xs of [] \<Rightarrow> None | y # _ \<Rightarrow> Some y) (r_list r)"

text \<open>An enumeration is written as the position in a list of its values.\<close>

definition w_enum :: "'a list \<Rightarrow> 'a \<Rightarrow> string" where
  "w_enum vs x = w_nat (length (takeWhile (\<lambda>v. v \<noteq> x) vs))"

definition r_enum :: "'a list \<Rightarrow> string \<Rightarrow> ('a \<times> string) option" where
  "r_enum vs = r_map (\<lambda>n. vs ! n) r_nat"

definition w_char :: "char \<Rightarrow> string" where "w_char c = [c]"

fun r_char :: "string \<Rightarrow> (char \<times> string) option" where
  "r_char [] = None"
| "r_char (c # s) = Some (c, s)"

abbreviation w_str :: "string \<Rightarrow> string" where "w_str \<equiv> w_list w_char"
abbreviation r_str :: "string \<Rightarrow> (string \<times> string) option" where "r_str \<equiv> r_list r_char"

lemma semicolon_show_nat: "CHR '';'' \<notin> set (show_nat n)"
proof
  assume "CHR '';'' \<in> set (show_nat n)"
  from show_nat_digits [OF this] show False by simp
qed

lemma reads_nat: "reads w_nat r_nat"
proof -
  have all: "\<forall>c \<in> set (show_nat n). c \<noteq> CHR '';''" for n
    using semicolon_show_nat [of n] by auto
  have "takeWhile (\<lambda>c. c \<noteq> CHR '';'') (show_nat n @ CHR '';'' # rest) = show_nat n"
    "dropWhile (\<lambda>c. c \<noteq> CHR '';'') (show_nat n @ CHR '';'' # rest) = CHR '';'' # rest" for n rest
    using all [of n] by (simp_all add: takeWhile_append2 dropWhile_append2)
  then show ?thesis by (simp add: reads_def w_nat_def r_nat_def)
qed

lemma reads_pair: "reads v r \<Longrightarrow> reads w q \<Longrightarrow> reads (w_pair v w) (r_pair r q)"
  by (simp add: reads_def w_pair_def r_pair_def)

lemma reads_map: "reads w r \<Longrightarrow> (\<And>x. f (g x) = x) \<Longrightarrow> reads (\<lambda>x. w (g x)) (r_map f r)"
  by (simp add: reads_def r_map_def)

lemma reads_times: "reads w r \<Longrightarrow> r_times (length xs) r (concat (map w xs) @ rest) = Some (xs, rest)"
  by (induction xs) (simp_all add: reads_def)

lemma reads_list: "reads w r \<Longrightarrow> reads (w_list w) (r_list r)"
  using reads_nat by (simp add: reads_def w_list_def r_list_def reads_times)

lemma reads_opt: "reads w r \<Longrightarrow> reads (w_opt w) (r_opt r)"
  unfolding w_opt_def r_opt_def by (intro reads_map reads_list) (auto split: option.splits)

lemma nth_takeWhile: "x \<in> set vs \<Longrightarrow> vs ! length (takeWhile (\<lambda>v. v \<noteq> x) vs) = x"
  by (induction vs) auto

lemma reads_enum: "(\<And>x. x \<in> set vs) \<Longrightarrow> reads (w_enum vs) (r_enum vs)"
  unfolding w_enum_def r_enum_def by (intro reads_map reads_nat) (simp add: nth_takeWhile)

lemma reads_char: "reads w_char r_char"
  by (simp add: reads_def w_char_def)

lemmas readers = reads_nat reads_pair reads_list reads_opt reads_char

section \<open>The codec\<close>

definition resource_values :: "resource_class list" where
  "resource_values = [WorkspaceRead, WorkspaceWrite, ArtifactUpload, ArtifactDownload, DeviceLease,
     ApplicationInstall, ApplicationLaunch, Debugger, Signing, Microphone, ScreenCapture,
     NetworkEndpoint, DeviceLanePolicy, DeviceLaneService]"

definition message_values :: "message_code list" where
  "message_values = [ActivityStarted, RegistryStale, ObserverUnavailable, OperationSucceeded,
     OperationFailed, TargetOffline, RegistryDisconnected, DaemonRestarted, EventResyncRequired,
     AuditUnavailable, ApprovalExpired, message_code.PolicyDenied, LeaseStale, OperationCancelled,
     AgentIncompatible, AccessDenied, TargetConfirmationRequired, Redacted]"

definition param_values :: "message_param list" where
  "param_values = [ParamLocal, ParamRemote, ParamAllowed, ParamDenied, ParamUnavailable]"

definition result_values :: "audit_result list" where
  "result_values = [AuditAttempted, AuditSucceeded, AuditFailed, AuditDenied, AuditCancelled, AuditDeleted]"

lemma enum_readers:
  "reads (w_enum resource_values) (r_enum resource_values)"
  "reads (w_enum message_values) (r_enum message_values)"
  "reads (w_enum param_values) (r_enum param_values)"
  "reads (w_enum result_values) (r_enum result_values)"
  "reads (w_enum [Allow, Deny]) (r_enum [Allow, Deny])"
proof -
  show "reads (w_enum resource_values) (r_enum resource_values)"
    proof (rule reads_enum)
    fix x show "x \<in> set resource_values" by (cases x) (simp_all add: resource_values_def)
  qed
  show "reads (w_enum message_values) (r_enum message_values)"
    proof (rule reads_enum)
    fix x show "x \<in> set message_values" by (cases x) (simp_all add: message_values_def)
  qed
  show "reads (w_enum param_values) (r_enum param_values)"
    proof (rule reads_enum)
    fix x show "x \<in> set param_values" by (cases x) (simp_all add: param_values_def)
  qed
  show "reads (w_enum result_values) (r_enum result_values)"
    proof (rule reads_enum)
    fix x show "x \<in> set result_values" by (cases x) (simp_all add: result_values_def)
  qed
  show "reads (w_enum [Allow, Deny]) (r_enum [Allow, Deny])"
    proof (rule reads_enum)
    fix x show "x \<in> set [Allow, Deny]" by (cases x) simp_all
  qed
qed

definition message_fields :: "display_message \<Rightarrow> message_code \<times> message_param list" where
  "message_fields m = (dm_code m, dm_params m)"

definition message_from :: "message_code \<times> message_param list \<Rightarrow> display_message" where
  "message_from = (\<lambda>(code, ps). \<lparr>dm_code = code, dm_params = ps\<rparr>)"

definition w_message :: "display_message \<Rightarrow> string" where
  "w_message m = w_pair (w_enum message_values) (w_list (w_enum param_values)) (message_fields m)"

definition r_message :: "string \<Rightarrow> (display_message \<times> string) option" where
  "r_message = r_map message_from (r_pair (r_enum message_values) (r_list (r_enum param_values)))"

lemma reads_message: "reads w_message r_message"
proof -
  have "message_from (message_fields m) = m" for m
    by (simp add: message_from_def message_fields_def)
  then show ?thesis
    unfolding w_message_def r_message_def by (intro reads_map readers enum_readers)
qed

definition record_fields where
  "record_fields r =
     ((da_sequence r, da_occurred_at_ms r), (da_activity_id r, da_principal_id r),
      (da_source_host_id r, da_target_host_id r), (da_device_id r, da_operation r),
      (da_resources r, da_decision r), da_result r, da_redacted_message r)"

definition record_from where
  "record_from = (\<lambda>((s, t), (a, p), (h, g), (d, opn), (rs, dec), res, m).
     \<lparr>da_sequence = s, da_occurred_at_ms = t, da_activity_id = a, da_principal_id = p,
      da_source_host_id = h, da_target_host_id = g, da_device_id = d, da_operation = opn,
      da_resources = rs, da_decision = dec, da_result = res, da_redacted_message = m\<rparr>)"

definition w_record :: "dashboard_audit_record \<Rightarrow> string" where
  "w_record r =
     w_pair (w_pair w_nat w_nat) (w_pair (w_pair (w_opt w_str) w_str) (w_pair (w_pair w_str w_str)
       (w_pair (w_pair (w_opt w_str) w_str)
         (w_pair (w_pair (w_list (w_enum resource_values)) (w_enum [Allow, Deny]))
           (w_pair (w_enum result_values) (w_opt w_message)))))) (record_fields r)"

definition r_record :: "string \<Rightarrow> (dashboard_audit_record \<times> string) option" where
  "r_record = r_map record_from
     (r_pair (r_pair r_nat r_nat) (r_pair (r_pair (r_opt r_str) r_str) (r_pair (r_pair r_str r_str)
       (r_pair (r_pair (r_opt r_str) r_str)
         (r_pair (r_pair (r_list (r_enum resource_values)) (r_enum [Allow, Deny]))
           (r_pair (r_enum result_values) (r_opt r_message)))))))"

lemma reads_record: "reads w_record r_record"
proof -
  have "record_from (record_fields r) = r" for r
    by (simp add: record_from_def record_fields_def)
  then show ?thesis
    unfolding w_record_def r_record_def by (intro reads_map readers enum_readers reads_message)
qed

definition w_summary :: "segment_summary \<Rightarrow> string" where
  "w_summary s = w_pair w_str w_str (ss_id s, ss_sha256 s)"

definition r_summary :: "string \<Rightarrow> (segment_summary \<times> string) option" where
  "r_summary = r_map (\<lambda>(i, h). \<lparr>ss_id = i, ss_sha256 = h\<rparr>) (r_pair r_str r_str)"

lemma reads_summary: "reads w_summary r_summary"
  unfolding w_summary_def r_summary_def by (intro reads_map readers) simp

definition w_tombstone :: "retention_tombstone \<Rightarrow> string" where
  "w_tombstone t =
     w_pair (w_pair w_nat (w_pair w_nat w_nat)) (w_pair (w_list w_summary) (w_list w_summary))
       ((rt_deleted_record_count t, rt_first_occurred_at_ms t, rt_last_occurred_at_ms t),
        rt_segments t, rt_replacement_segments t)"

definition r_tombstone :: "string \<Rightarrow> (retention_tombstone \<times> string) option" where
  "r_tombstone = r_map (\<lambda>((n, a, b), ss, rs).
       \<lparr>rt_deleted_record_count = n, rt_first_occurred_at_ms = a, rt_last_occurred_at_ms = b,
        rt_segments = ss, rt_replacement_segments = rs\<rparr>)
     (r_pair (r_pair r_nat (r_pair r_nat r_nat)) (r_pair (r_list r_summary) (r_list r_summary)))"

lemma reads_tombstone: "reads w_tombstone r_tombstone"
  unfolding w_tombstone_def r_tombstone_def by (intro reads_map readers reads_summary) simp

fun w_entry :: "stored_entry \<Rightarrow> string" where
  "w_entry (StoredRecord r) = CHR ''R'' # w_record r"
| "w_entry (StoredTombstone t) = CHR ''T'' # w_tombstone t"

definition r_entry :: "string \<Rightarrow> stored_entry option" where
  "r_entry s =
     (case s of [] \<Rightarrow> None
      | k # s1 \<Rightarrow>
          (if k = CHR ''R'' then map_option (\<lambda>(r, _). StoredRecord r) (r_record s1)
           else map_option (\<lambda>(t, _). StoredTombstone t) (r_tombstone s1)))"

definition w_index :: "audit_index \<Rightarrow> string" where
  "w_index i = w_pair w_nat (w_pair w_nat (w_list w_nat)) (ai_version i, ai_current i, ai_active_segments i)"

definition r_index :: "string \<Rightarrow> audit_index option" where
  "r_index s = map_option (\<lambda>((v, n, a), _). \<lparr>ai_version = v, ai_current = n, ai_active_segments = a\<rparr>)
     (r_pair r_nat (r_pair r_nat (r_list r_nat)) s)"

definition sample_audit_codec :: audit_codec where
  "sample_audit_codec =
     \<lparr>ac_entry = w_entry, ac_read_entry = r_entry, ac_index = w_index, ac_read_index = r_index,
      ac_cursor = (\<lambda>_. ''cursor''), ac_envelope = (\<lambda>a b n d k. a @ w_nat b @ w_nat n @ d @ k),
      ac_digest = audit_sample_sha\<rparr>"

lemma reads_end: "reads w r \<Longrightarrow> r (w x) = Some (x, [])"
  unfolding reads_def by (metis append_Nil2)

theorem sample_audit_codec_ok: "codec_ok sample_audit_codec"
proof -
  have "r_entry (w_entry e) = Some e" for e
    using reads_end [OF reads_record] reads_end [OF reads_tombstone]
    by (cases e) (simp_all add: r_entry_def)
  moreover have "r_index (w_index i) = Some i" for i
    using reads_end [OF reads_pair [OF reads_nat reads_pair [OF reads_nat reads_list [OF reads_nat]]]]
    by (simp add: r_index_def w_index_def)
  ultimately show ?thesis
    by (simp add: codec_ok_def sample_audit_codec_def codec_reads_back_def audit_sample_sha_def HASH_BYTES_def)
qed

end
