(* ===== verification/AuditStore.thy ===== *)
theory AuditStore
  imports AuditSample
begin

text \<open>
  The audit store (\<open>dashboard/audit.rs\<close>): an index file that names the active segments and the
  current one, append-only segments, and the records in memory. A disk maps segment numbers to the
  bytes of \<open>segment-<number>.audit\<close>; the directory holds only files the store names itself. Of the
  failures of the file system the model has those the store can cause: creating a segment that
  exists and reading one that does not; the index is replaced atomically. A method takes the disk and
  the store and returns its result with both; a crash during \<open>append\<close> leaves one of the disks of
  \<open>append_crash_disks\<close>.
\<close>

section \<open>Disk and store\<close>

record audit_disk =
  ad_index :: "string option"
  ad_segments :: "(u64, string) hash_map"
  ad_locked :: bool

record audit_store =
  au_retention :: retention_policy
  au_redactor :: redactor
  au_current :: u64
  au_current_day :: "u64 option"
  au_records :: "dashboard_audit_record list"
  au_tombstones :: "retention_tombstone list"
  au_recovered :: bool
  au_available :: bool
  au_max_segment_bytes :: u64
  au_active_segments :: "u64 list"

definition DAY_MS :: nat where "DAY_MS = 86400000"
definition MAX_PAGE_RECORDS :: nat where "MAX_PAGE_RECORDS = 256"
definition AUDIT_MAX_PAGE_BYTES :: nat where "AUDIT_MAX_PAGE_BYTES = 1048576"
definition MAX_EXPORT_RECORDS :: nat where "MAX_EXPORT_RECORDS = 256"
definition MAX_EXPORT_BYTES :: nat where "MAX_EXPORT_BYTES = 8388608"

definition seg_exists :: "audit_disk \<Rightarrow> u64 \<Rightarrow> bool" where
  "seg_exists d n = hm_has (ad_segments d) n"

definition segment_numbers :: "audit_disk \<Rightarrow> u64 list" where
  "segment_numbers d = sort (hm_keys (ad_segments d))"

definition max_number :: "audit_disk \<Rightarrow> u64" where
  "max_number d = fold max (segment_numbers d) 0"

definition put_segment :: "u64 \<Rightarrow> string \<Rightarrow> audit_disk \<Rightarrow> audit_disk" where
  "put_segment n bytes d = d\<lparr>ad_segments := hm_insert n bytes (ad_segments d)\<rparr>"

definition remove_segment :: "u64 \<Rightarrow> audit_disk \<Rightarrow> audit_disk" where
  "remove_segment n d = d\<lparr>ad_segments := hm_remove n (ad_segments d)\<rparr>"

definition create_segment :: "u64 \<Rightarrow> audit_disk \<Rightarrow> audit_error + audit_disk" where
  "create_segment n d =
     (if seg_exists d n then Err (AeIo ''already_exists'') else Ok (put_segment n [] d))"

definition append_frame :: "audit_codec \<Rightarrow> u64 \<Rightarrow> string \<Rightarrow> audit_disk \<Rightarrow> audit_error + audit_disk" where
  "append_frame c n payload d =
     (case hm_get (ad_segments d) n of
        None \<Rightarrow> Err (AeIo ''not_found'')
      | Some bytes \<Rightarrow> Ok (put_segment n (bytes @ frame_bytes (ac_digest c) payload) d))"

definition segment_len :: "audit_disk \<Rightarrow> u64 \<Rightarrow> audit_error + nat" where
  "segment_len d n =
     (case hm_get (ad_segments d) n of None \<Rightarrow> Err (AeIo ''not_found'') | Some bytes \<Rightarrow> Ok (length bytes))"

definition write_audit_index :: "audit_codec \<Rightarrow> audit_store \<Rightarrow> audit_disk \<Rightarrow> audit_disk" where
  "write_audit_index c st d =
     d\<lparr>ad_index := Some (ac_index c \<lparr>ai_version = 2, ai_current = au_current st,
                           ai_active_segments = au_active_segments st\<rparr>)\<rparr>"

definition read_audit_index :: "audit_codec \<Rightarrow> audit_disk \<Rightarrow> audit_error + audit_index option" where
  "read_audit_index c d =
     (case ad_index d of
        None \<Rightarrow> Ok None
      | Some bytes \<Rightarrow>
          (case ac_read_index c bytes of
             None \<Rightarrow> Err AeCommittedCorruption
           | Some i \<Rightarrow>
               (if \<not> (1 \<le> ai_version i \<and> ai_version i \<le> 2) \<or> ai_current i = 0
                   \<or> (ai_active_segments i \<noteq> [] \<and> ai_current i \<notin> set (ai_active_segments i))
                then Err AeCommittedCorruption else Ok (Some i))))"

section \<open>Rotation and appending\<close>

definition rotate_segment ::
    "audit_codec \<Rightarrow> audit_disk \<times> audit_store \<Rightarrow> (audit_error + unit) \<times> audit_disk \<times> audit_store" where
  "rotate_segment c = (\<lambda>(d, st).
     (let next_number = wrap_add64 (au_current st) 1 in
      case create_segment next_number d of
        Inl e \<Rightarrow> (Err e, d, st)
      | Inr d1 \<Rightarrow>
          (let st1 = st\<lparr>au_current := next_number, au_current_day := None,
                        au_active_segments := au_active_segments st @ [next_number]\<rparr>
           in (Ok (), write_audit_index c st1 d1, st1))))"

definition last_record :: "audit_store \<Rightarrow> dashboard_audit_record option" where
  "last_record st = (if au_records st = [] then None else Some (last (au_records st)))"

definition needs_rotation :: "nat \<Rightarrow> u64 \<Rightarrow> nat \<Rightarrow> audit_store \<Rightarrow> bool" where
  "needs_rotation len day frame st =
     (len + frame > au_max_segment_bytes st \<or> is_some_and (\<lambda>old. old \<noteq> day) (au_current_day st))"

definition append_inner ::
    "audit_codec \<Rightarrow> dashboard_audit_record \<Rightarrow> string \<Rightarrow> nat \<Rightarrow> audit_disk \<times> audit_store
     \<Rightarrow> (audit_error + unit) \<times> audit_disk \<times> audit_store" where
  "append_inner c r payload frame = (\<lambda>(d, st).
     (let day = da_occurred_at_ms r div DAY_MS in
      case segment_len d (au_current st) of
        Inl e \<Rightarrow> (Err e, d, st)
      | Inr len \<Rightarrow>
          (case (if needs_rotation len day frame st then rotate_segment c (d, st)
                 else (Ok (), d, st)) of
             (Inl e, d1, st1) \<Rightarrow> (Err e, d1, st1)
           | (Inr _, d1, st1) \<Rightarrow>
               (case append_frame c (au_current st1) payload d1 of
                  Inl e \<Rightarrow> (Err e, d1, st1)
                | Inr d2 \<Rightarrow>
                    (let st2 = st1\<lparr>au_current_day := Some day, au_records := au_records st1 @ [r]\<rparr>
                     in (Ok (), write_audit_index c st2 d2, st2))))))"

definition audit_append ::
    "audit_codec \<Rightarrow> raw_audit_record \<Rightarrow> audit_disk \<times> audit_store
     \<Rightarrow> (audit_error + unit) \<times> audit_disk \<times> audit_store" where
  "audit_append c raw = (\<lambda>(d, st).
     (if \<not> au_available st then (Err AeAuditUnavailable, d, st)
      else if is_some_and (\<lambda>r. ra_sequence raw \<le> da_sequence r) (last_record st)
      then (Err AeInvalidSequence, d, st)
      else
        (let r = redact (au_redactor st) raw in
         if \<not> is_ok (audit_validate r) then (Err AeInvalidRecord, d, st)
         else
           (let payload = ac_entry c (StoredRecord r) in
            case frame_len payload of
              Inl e \<Rightarrow> (Err e, d, st)
            | Inr len \<Rightarrow>
                (if len > au_max_segment_bytes st \<or> len > AUDIT_MAX_SEGMENT_BYTES
                 then (Err AeFrameTooLarge, d, st)
                 else
                   (case append_inner c r payload len (d, st) of
                      (Inl e, d1, st1) \<Rightarrow> (Err e, d1, st1\<lparr>au_available := False\<rparr>)
                    | (Inr _, d1, st1) \<Rightarrow> (Ok (), d1, st1)))))))"

section \<open>Opening\<close>

text \<open>
  The loops over the active segments of \<open>open\<close> and \<open>compact_retention\<close>: the first tolerates a torn tail
  in the current segment, the second in none; they differ in the error for a missing segment.
\<close>

fun read_active ::
    "audit_codec \<Rightarrow> audit_error \<Rightarrow> u64 option \<Rightarrow> u64 list \<Rightarrow> audit_disk
     \<Rightarrow> stored_entry list \<times> audit_disk \<times> (audit_error + bool)"
where
  "read_active c missing current [] d = ([], d, Ok False)"
| "read_active c missing current (n # ns) d =
     (case hm_get (ad_segments d) n of
        None \<Rightarrow> ([], d, Err missing)
      | Some bytes \<Rightarrow>
          (case read_frames (ac_digest c) (ac_read_entry c) (current = Some n) bytes of
             (es, kept, Inl e) \<Rightarrow> (es, put_segment n kept d, Err e)
           | (es, kept, Inr torn) \<Rightarrow>
               (case read_active c missing current ns (put_segment n kept d) of
                  (fs, d1, Inl e) \<Rightarrow> (es @ fs, d1, Err e)
                | (fs, d1, Inr torn1) \<Rightarrow> (es @ fs, d1, Ok (torn \<or> torn1)))))"

fun strictly_increasing :: "dashboard_audit_record list \<Rightarrow> bool" where
  "strictly_increasing (r # s # rs) = (da_sequence r < da_sequence s \<and> strictly_increasing (s # rs))"
| "strictly_increasing _ = True"

definition recovery_record :: "audit_store \<Rightarrow> raw_audit_record" where
  "recovery_record st =
     \<lparr>ra_sequence = wrap_add64 (fold max (map da_sequence (au_records st)) 0) 1,
      ra_occurred_at_ms = (case last_record st of None \<Rightarrow> 0 | Some r \<Rightarrow> da_occurred_at_ms r),
      ra_activity_id = None, ra_principal_id = ''local-system'', ra_source_host_id = ''local-host'',
      ra_target_host_id = ''local-host'', ra_device_id = None,
      ra_operation = ''audit-tail-recovery'', ra_resources = [], ra_decision = Allow,
      ra_result = AuditFailed, ra_message = Some ''incomplete audit tail recovered'',
      ra_arguments = [], ra_environment = [], ra_stdout = None, ra_stderr = None,
      ra_workspace_path = None, ra_artifact_metadata = []\<rparr>"

definition drop_inactive :: "u64 list \<Rightarrow> u64 list \<Rightarrow> audit_disk \<Rightarrow> audit_disk" where
  "drop_inactive discovered active d =
     fold remove_segment (filter (\<lambda>n. n \<notin> set active) discovered) d"

definition loaded_store ::
    "retention_policy \<Rightarrow> redactor \<Rightarrow> u64 \<Rightarrow> u64 \<Rightarrow> u64 list \<Rightarrow> stored_entry list \<Rightarrow> bool \<Rightarrow> audit_store"
where
  "loaded_store retention redactor max_bytes current active es recovered =
     (let rs = entry_records es in
      \<lparr>au_retention = retention, au_redactor = redactor, au_current = current,
       au_current_day = (if rs = [] then None else Some (da_occurred_at_ms (last rs) div DAY_MS)),
       au_records = rs, au_tombstones = entry_tombstones es, au_recovered = recovered,
       au_available = True, au_max_segment_bytes = max_bytes, au_active_segments = active\<rparr>)"

definition finish_open ::
    "audit_codec \<Rightarrow> audit_disk \<times> audit_store \<Rightarrow> (audit_error + audit_store) \<times> audit_disk" where
  "finish_open c = (\<lambda>(d, st).
     (let (d1, st1) =
        (if seg_exists d (au_current st) then (d, st)
         else (put_segment (au_current st) [] d,
               st\<lparr>au_active_segments := au_active_segments st @ [au_current st]\<rparr>));
          d2 = write_audit_index c st1 d1
      in if au_recovered st1
         then (case audit_append c (recovery_record st1) (d2, st1) of
                 (Inl e, d3, _) \<Rightarrow> (Err e, d3\<lparr>ad_locked := False\<rparr>)
               | (Inr _, d3, st3) \<Rightarrow> (Ok st3, d3))
         else (Ok st1, d2)))"

definition audit_open ::
    "audit_codec \<Rightarrow> retention_policy \<Rightarrow> redactor \<Rightarrow> u64 \<Rightarrow> audit_disk
     \<Rightarrow> (audit_error + audit_store) \<times> audit_disk" where
  "audit_open c retention redactor max_bytes d =
     (if max_bytes = 0 \<or> max_bytes > AUDIT_MAX_SEGMENT_BYTES then (Err AeLimitExceeded, d)
      else if ad_locked d then (Err AeStoreLocked, d)
      else case read_audit_index c d of
        Inl e \<Rightarrow> (Err e, d)
      | Inr index \<Rightarrow>
          (let current = (case index of None \<Rightarrow> 1 | Some i \<Rightarrow> ai_current i);
               discovered = segment_numbers d;
               active = (case index of
                   None \<Rightarrow> discovered
                 | Some i \<Rightarrow> if ai_active_segments i = [] then discovered else ai_active_segments i)
           in case read_active c AeCommittedCorruption (Some current) active d of
                (es, d1, Inl e) \<Rightarrow> (Err e, d1)
              | (es, d1, Inr recovered) \<Rightarrow>
                  (if \<not> strictly_increasing (entry_records es) then (Err AeNonMonotonicSequence, d1)
                   else finish_open c
                     ((drop_inactive discovered active d1)\<lparr>ad_locked := True\<rparr>,
                      loaded_store retention redactor max_bytes current active es recovered))))"

definition audit_open_default ::
    "audit_codec \<Rightarrow> retention_policy \<Rightarrow> redactor \<Rightarrow> audit_disk
     \<Rightarrow> (audit_error + audit_store) \<times> audit_disk" where
  "audit_open_default c retention redactor d =
     audit_open c retention redactor AUDIT_MAX_SEGMENT_BYTES d"

text \<open>Dropping the store, or the process, releases the lock and keeps the files.\<close>

definition release_lock :: "audit_disk \<Rightarrow> audit_disk" where
  "release_lock d = d\<lparr>ad_locked := False\<rparr>"

section \<open>Agreement of memory and disk\<close>

abbreviation enc_frames :: "audit_codec \<Rightarrow> stored_entry list \<Rightarrow> string" where
  "enc_frames c \<equiv> frames (ac_digest c) (ac_entry c)"

abbreviation fits :: "audit_codec \<Rightarrow> stored_entry \<Rightarrow> bool" where
  "fits c \<equiv> entry_fits entry_valid (ac_entry c)"

text \<open>The segments \<open>ns\<close> hold, framed, the entries \<open>f\<close> gives them.\<close>

definition on_disk :: "audit_codec \<Rightarrow> audit_disk \<Rightarrow> u64 list \<Rightarrow> (u64 \<Rightarrow> stored_entry list) \<Rightarrow> bool" where
  "on_disk c d ns f \<longleftrightarrow>
     (\<forall>n \<in> set ns. hm_get (ad_segments d) n = Some (enc_frames c (f n)) \<and> list_all (fits c) (f n))"

definition audit_inv :: "audit_codec \<Rightarrow> audit_disk \<Rightarrow> audit_store \<Rightarrow> bool" where
  "audit_inv c d st \<longleftrightarrow>
     au_active_segments st \<noteq> [] \<and> distinct (au_active_segments st)
     \<and> last (au_active_segments st) = au_current st \<and> au_current st \<noteq> 0
     \<and> 0 < au_max_segment_bytes st \<and> au_max_segment_bytes st \<le> AUDIT_MAX_SEGMENT_BYTES
     \<and> ad_index d = Some (ac_index c \<lparr>ai_version = 2, ai_current = au_current st,
                                     ai_active_segments = au_active_segments st\<rparr>)
     \<and> strictly_increasing (au_records st)
     \<and> (\<exists>f. on_disk c d (au_active_segments st) f
          \<and> au_records st = entry_records (concat (map f (au_active_segments st)))
          \<and> au_tombstones st = entry_tombstones (concat (map f (au_active_segments st))))"

definition newest_is_current :: "audit_disk \<Rightarrow> audit_store \<Rightarrow> bool" where
  "newest_is_current d st \<longleftrightarrow> (\<forall>n. seg_exists d n \<longrightarrow> n \<le> au_current st)"

lemma codec_okD:
  assumes "codec_ok c"
  shows "codec_reads_back entry_valid (ac_digest c) (ac_entry c) (ac_read_entry c)"
    "ac_read_index c (ac_index c i) = Some i"
  using assms by (auto simp: codec_ok_def)

lemma get_put_segment [simp]:
  "hm_get (ad_segments (put_segment n b d)) m = (if m = n then Some b else hm_get (ad_segments d) m)"
  by (simp add: put_segment_def)

lemma index_put_segment [simp]: "ad_index (put_segment n b d) = ad_index d"
  and locked_put_segment [simp]: "ad_locked (put_segment n b d) = ad_locked d"
  by (simp_all add: put_segment_def)

lemma put_segment_same: "hm_get (ad_segments d) n = Some b \<Longrightarrow> put_segment n b d = d"
  by (simp add: put_segment_def hm_insert_idem)

lemma segments_write_index [simp]: "ad_segments (write_audit_index c st d) = ad_segments d"
  and locked_write_index [simp]: "ad_locked (write_audit_index c st d) = ad_locked d"
  and index_write_index [simp]: "ad_index (write_audit_index c st d) =
    Some (ac_index c \<lparr>ai_version = 2, ai_current = au_current st,
                      ai_active_segments = au_active_segments st\<rparr>)"
  by (simp_all add: write_audit_index_def)

lemma seg_exists_iff: "seg_exists d n \<longleftrightarrow> (\<exists>b. hm_get (ad_segments d) n = Some b)"
  by (simp add: seg_exists_def hm_has_def)

lemma create_segment_Ok: "create_segment n d = Inr d1 \<longleftrightarrow> \<not> seg_exists d n \<and> d1 = put_segment n [] d"
  by (auto simp: create_segment_def)

lemma on_disk_put_other: "n \<notin> set ns \<Longrightarrow> on_disk c (put_segment n b d) ns f = on_disk c d ns f"
  by (auto simp: on_disk_def)

lemma on_disk_fun_other: "n \<notin> set ns \<Longrightarrow> on_disk c d ns (f(n := es)) = on_disk c d ns f"
  by (auto simp: on_disk_def)

lemma on_disk_segments: "ad_segments d' = ad_segments d \<Longrightarrow> on_disk c d' ns f = on_disk c d ns f"
  by (simp add: on_disk_def)

lemma on_disk_cong:
  "(\<And>n. n \<in> set ns \<Longrightarrow> hm_get (ad_segments d') n = hm_get (ad_segments d) n) \<Longrightarrow>
     on_disk c d' ns f = on_disk c d ns f"
  by (simp add: on_disk_def)

lemma on_disk_append: "on_disk c d (ns @ ms) f \<longleftrightarrow> on_disk c d ns f \<and> on_disk c d ms f"
  by (auto simp: on_disk_def)

lemma on_disk_Cons: "on_disk c d (n # ns) f \<longleftrightarrow>
    hm_get (ad_segments d) n = Some (enc_frames c (f n)) \<and> list_all (fits c) (f n) \<and> on_disk c d ns f"
  by (auto simp: on_disk_def)

lemma on_disk_Nil [simp]: "on_disk c d [] f"
  by (simp add: on_disk_def)

lemma map_fun_upd_other: "n \<notin> set ns \<Longrightarrow> map (f(n := x)) ns = map f ns"
  by simp

lemma read_active_whole:
  assumes "codec_ok c" and "on_disk c d ns f"
  shows "read_active c missing current ns d = (concat (map f ns), d, Inr False)"
  using assms(2)
proof (induction ns)
  case Nil
  then show ?case by simp
next
  case (Cons n ns)
  then show ?case
    by (simp add: on_disk_Cons read_frames_whole [OF codec_okD(1) [OF assms(1)]] put_segment_same)
qed

text \<open>The first \<open>k\<close> bytes of the frame of \<open>e\<close>, a frame some write was cut short in.\<close>

definition torn_frame :: "audit_codec \<Rightarrow> stored_entry \<Rightarrow> nat \<Rightarrow> bool" where
  "torn_frame c e k \<longleftrightarrow>
     k = 0 \<or> (fits c e \<and> k < length (frame_bytes (ac_digest c) (ac_entry c e)))"

lemma read_frames_tail:
  assumes "codec_ok c" and "list_all (fits c) es" and "torn_frame c e k"
  shows "read_frames (ac_digest c) (ac_read_entry c) True
      (enc_frames c es @ take k (frame_bytes (ac_digest c) (ac_entry c e)))
    = (es, enc_frames c es, Inr (0 < k))"
proof (cases "k = 0")
  case True
  then show ?thesis using read_frames_whole [OF codec_okD(1) [OF assms(1)] assms(2)] by simp
next
  case False
  then have "fits c e" "0 < k" "k < length (frame_bytes (ac_digest c) (ac_entry c e))"
    using assms(3) by (auto simp: torn_frame_def)
  note torn = read_frames_torn [OF codec_okD(1) [OF assms(1)] this]
  show ?thesis
    using \<open>0 < k\<close> by (simp add: read_frames_frames [OF codec_okD(1) [OF assms(1)] assms(2)] torn)
qed

lemma read_active_tail:
  assumes "codec_ok c" and "on_disk c d ns f" and "cur \<notin> set ns"
    and "list_all (fits c) es" and "torn_frame c e k"
    and "hm_get (ad_segments d) cur =
      Some (enc_frames c es @ take k (frame_bytes (ac_digest c) (ac_entry c e)))"
  shows "read_active c missing (Some cur) (ns @ [cur]) d
    = (concat (map f ns) @ es, put_segment cur (enc_frames c es) d, Inr (0 < k))"
  using assms(2,3)
proof (induction ns)
  case Nil
  then show ?case by (simp add: assms(6) read_frames_tail [OF assms(1,4,5)])
next
  case (Cons n ns)
  then show ?case
    by (simp add: on_disk_Cons read_frames_whole [OF codec_okD(1) [OF assms(1)]] put_segment_same)
qed

section \<open>Rotation and appending keep the agreement\<close>

lemma strictly_increasing_snoc:
  "strictly_increasing (rs @ [r]) \<longleftrightarrow>
     strictly_increasing rs \<and> (rs = [] \<or> da_sequence (last rs) < da_sequence r)"
proof (induction rs rule: strictly_increasing.induct)
  case (1 a b rs)
  then show ?case by auto
qed auto

lemma audit_invE:
  assumes "audit_inv c d st"
  obtains ns f where "au_active_segments st = ns @ [au_current st]" "distinct ns"
    "au_current st \<notin> set ns" "on_disk c d (ns @ [au_current st]) f"
    "au_records st = entry_records (concat (map f ns) @ f (au_current st))"
    "au_tombstones st = entry_tombstones (concat (map f ns) @ f (au_current st))"
proof -
  have "au_active_segments st = butlast (au_active_segments st) @ [au_current st]"
    using assms by (metis append_butlast_last_id audit_inv_def)
  then obtain ns where ns: "au_active_segments st = ns @ [au_current st]" by blast
  have "distinct (ns @ [au_current st])" using assms ns by (simp add: audit_inv_def)
  moreover obtain f where "on_disk c d (ns @ [au_current st]) f"
    "au_records st = entry_records (concat (map f (ns @ [au_current st])))"
    "au_tombstones st = entry_tombstones (concat (map f (ns @ [au_current st])))"
    using assms unfolding audit_inv_def ns by blast
  ultimately show thesis using ns by (intro that [of ns f]) simp_all
qed

lemma audit_inv_facts:
  assumes "audit_inv c d st"
  shows "au_current st \<noteq> 0" "0 < au_max_segment_bytes st"
    "au_max_segment_bytes st \<le> AUDIT_MAX_SEGMENT_BYTES"
    "ad_index d = Some (ac_index c \<lparr>ai_version = 2, ai_current = au_current st,
                                    ai_active_segments = au_active_segments st\<rparr>)"
    "strictly_increasing (au_records st)"
  using assms by (auto simp: audit_inv_def)

lemma audit_invI:
  assumes "au_active_segments st = ns @ [au_current st]" "distinct ns" "au_current st \<notin> set ns"
    "on_disk c d (ns @ [au_current st]) f"
    "au_records st = entry_records (concat (map f ns) @ f (au_current st))"
    "au_tombstones st = entry_tombstones (concat (map f ns) @ f (au_current st))"
    "au_current st \<noteq> 0" "0 < au_max_segment_bytes st"
    "au_max_segment_bytes st \<le> AUDIT_MAX_SEGMENT_BYTES"
    "ad_index d = Some (ac_index c \<lparr>ai_version = 2, ai_current = au_current st,
                                    ai_active_segments = au_active_segments st\<rparr>)"
    "strictly_increasing (au_records st)"
  shows "audit_inv c d st"
  unfolding audit_inv_def using assms by (auto intro!: exI [of _ f])

lemma active_exist:
  "audit_inv c d st \<Longrightarrow> n \<in> set (au_active_segments st) \<Longrightarrow> seg_exists d n"
  by (auto simp: audit_inv_def on_disk_def seg_exists_iff)

definition rotated :: "audit_store \<Rightarrow> audit_store" where
  "rotated st = st\<lparr>au_current := Suc (au_current st), au_current_day := None,
     au_active_segments := au_active_segments st @ [Suc (au_current st)]\<rparr>"

lemma rotate_Ok:
  assumes "au_current st < u64_max" and "\<not> seg_exists d (Suc (au_current st))"
  shows "rotate_segment c (d, st) =
    (Inr (), write_audit_index c (rotated st) (put_segment (Suc (au_current st)) [] d), rotated st)"
  using assms by (simp add: rotate_segment_def wrap_add64_exact create_segment_def rotated_def Let_def)

lemma rotate_blocked:
  assumes "au_current st < u64_max" and "seg_exists d (Suc (au_current st))"
  shows "rotate_segment c (d, st) = (Inl (AeIo ''already_exists''), d, st)"
  using assms by (simp add: rotate_segment_def wrap_add64_exact create_segment_def Let_def)

lemma rotated_simps [simp]:
  "au_current (rotated st) = Suc (au_current st)" "au_records (rotated st) = au_records st"
  "au_tombstones (rotated st) = au_tombstones st" "au_available (rotated st) = au_available st"
  "au_max_segment_bytes (rotated st) = au_max_segment_bytes st"
  "au_redactor (rotated st) = au_redactor st" "au_retention (rotated st) = au_retention st"
  "au_active_segments (rotated st) = au_active_segments st @ [Suc (au_current st)]"
  "au_current_day (rotated st) = None" "au_recovered (rotated st) = au_recovered st"
  by (simp_all add: rotated_def)

lemma rotated_inv:
  assumes "audit_inv c d st" and "\<not> seg_exists d (Suc (au_current st))"
  shows "audit_inv c (write_audit_index c (rotated st) (put_segment (Suc (au_current st)) [] d)) (rotated st)"
proof -
  obtain ns f where act: "au_active_segments st = ns @ [au_current st]" and dist: "distinct ns"
    and cur: "au_current st \<notin> set ns" and disk: "on_disk c d (ns @ [au_current st]) f"
    and recs: "au_records st = entry_records (concat (map f ns) @ f (au_current st))"
    and tombs: "au_tombstones st = entry_tombstones (concat (map f ns) @ f (au_current st))"
    using assms(1) by (rule audit_invE)
  let ?s = "Suc (au_current st)" and ?ms = "ns @ [au_current st]"
  have new: "?s \<notin> set ?ms" using active_exist [OF assms(1)] assms(2) act by auto
  have "on_disk c (put_segment ?s [] d) (?ms @ [?s]) (f(?s := []))"
    unfolding on_disk_append
    using disk new by (simp add: on_disk_put_other on_disk_fun_other) (simp add: on_disk_def)
  then have "on_disk c (write_audit_index c (rotated st) (put_segment ?s [] d)) (?ms @ [?s]) (f(?s := []))"
    by (simp add: on_disk_def)
  moreover have "map (f(?s := [])) ns = map f ns" using new by simp
  ultimately show ?thesis
    using act dist cur new recs tombs audit_inv_facts [OF assms(1)]
    by (intro audit_invI [where ns = ?ms and f = "f(?s := [])"]) simp_all
qed

lemma append_frame_inv:
  assumes "audit_inv c d st" and "fits c (StoredRecord r)"
    and "au_records st = [] \<or> da_sequence (last (au_records st)) < da_sequence r"
  obtains d2 where
    "append_frame c (au_current st) (ac_entry c (StoredRecord r)) d = Inr d2"
    "audit_inv c (write_audit_index c (st\<lparr>au_current_day := day, au_records := au_records st @ [r]\<rparr>) d2)
       (st\<lparr>au_current_day := day, au_records := au_records st @ [r]\<rparr>)"
    "ad_locked d2 = ad_locked d" "\<And>n. seg_exists d2 n = seg_exists d n"
    "d2 = put_segment (au_current st) (the (hm_get (ad_segments d) (au_current st))
       @ frame_bytes (ac_digest c) (ac_entry c (StoredRecord r))) d"
proof -
  obtain ns f where act: "au_active_segments st = ns @ [au_current st]" and dist: "distinct ns"
    and cur: "au_current st \<notin> set ns" and disk: "on_disk c d (ns @ [au_current st]) f"
    and recs: "au_records st = entry_records (concat (map f ns) @ f (au_current st))"
    and tombs: "au_tombstones st = entry_tombstones (concat (map f ns) @ f (au_current st))"
    using assms(1) by (rule audit_invE)
  let ?n = "au_current st"
  let ?st = "st\<lparr>au_current_day := day, au_records := au_records st @ [r]\<rparr>"
  let ?f = "f(?n := f ?n @ [StoredRecord r])"
  let ?d = "put_segment ?n (enc_frames c (f ?n) @ frame_bytes (ac_digest c) (ac_entry c (StoredRecord r))) d"
  have get: "hm_get (ad_segments d) ?n = Some (enc_frames c (f ?n))"
    using disk by (simp add: on_disk_def)
  then have step: "append_frame c ?n (ac_entry c (StoredRecord r)) d = Inr ?d"
    by (simp add: append_frame_def)
  have "on_disk c ?d (ns @ [?n]) ?f"
    unfolding on_disk_append
    using disk cur assms(2) by (simp add: on_disk_put_other on_disk_fun_other on_disk_append on_disk_Cons)
  then have od: "on_disk c (write_audit_index c ?st ?d) (ns @ [?n]) ?f"
    by (simp add: on_disk_def)
  have m: "map ?f ns = map f ns" using cur by simp
  have inc: "strictly_increasing (entry_records (concat (map f ns)) @ entry_records (f ?n) @ [r])"
    using strictly_increasing_snoc [of "au_records st" r] assms(3) audit_inv_facts(5) [OF assms(1)]
    by (simp add: recs)
  have "audit_inv c (write_audit_index c ?st ?d) ?st"
    using act dist cur od m recs tombs inc audit_inv_facts [OF assms(1)]
    by (intro audit_invI [where ns = ns and f = ?f]) simp_all
  then show thesis
    using step get by (intro that [of ?d]) (auto simp: seg_exists_iff)
qed

lemma last_record_ge:
  "is_some_and (\<lambda>r. n \<le> da_sequence r) (last_record st) \<longleftrightarrow>
     au_records st \<noteq> [] \<and> n \<le> da_sequence (last (au_records st))"
  by (simp add: last_record_def)

text \<open>What appending leaves alone.\<close>

definition same_frame :: "audit_store \<Rightarrow> audit_store \<Rightarrow> bool" where
  "same_frame st st' \<longleftrightarrow> au_available st' = au_available st \<and> au_redactor st' = au_redactor st
     \<and> au_retention st' = au_retention st \<and> au_max_segment_bytes st' = au_max_segment_bytes st
     \<and> au_recovered st' = au_recovered st \<and> au_tombstones st' = au_tombstones st"

lemma write_frame_spec:
  assumes "audit_inv c d st" and "fits c (StoredRecord r)"
    and "au_records st = [] \<or> da_sequence (last (au_records st)) < da_sequence r"
  obtains d' st' where
    "(case append_frame c (au_current st) (ac_entry c (StoredRecord r)) d of
        Inl e \<Rightarrow> (Err e, d, st)
      | Inr d2 \<Rightarrow>
          (let st2 = st\<lparr>au_current_day := Some day, au_records := au_records st @ [r]\<rparr>
           in (Ok (), write_audit_index c st2 d2, st2))) = (Inr (), d', st')"
    "audit_inv c d' st'" "au_records st' = au_records st @ [r]" "same_frame st st'"
    "au_current st' = au_current st" "ad_locked d' = ad_locked d" "newest_is_current d st \<Longrightarrow> newest_is_current d' st'"
proof -
  obtain d2 where d2: "append_frame c (au_current st) (ac_entry c (StoredRecord r)) d = Inr d2"
    "audit_inv c (write_audit_index c (st\<lparr>au_current_day := Some day, au_records := au_records st @ [r]\<rparr>) d2)
       (st\<lparr>au_current_day := Some day, au_records := au_records st @ [r]\<rparr>)"
    "ad_locked d2 = ad_locked d" "\<And>n. seg_exists d2 n = seg_exists d n"
    by (rule append_frame_inv [OF assms, where day = "Some day"]) blast
  show thesis
    by (rule that [OF _ d2(2)])
       (use d2(1,3,4) in \<open>simp_all add: same_frame_def newest_is_current_def Let_def seg_exists_def\<close>)
qed

lemma append_inner_spec:
  assumes "audit_inv c d st" and "au_current st < u64_max" and "fits c (StoredRecord r)"
    and "au_records st = [] \<or> da_sequence (last (au_records st)) < da_sequence r"
  shows "(\<exists>d' st'. append_inner c r (ac_entry c (StoredRecord r)) len (d, st) = (Inr (), d', st')
        \<and> audit_inv c d' st' \<and> au_records st' = au_records st @ [r] \<and> same_frame st st'
        \<and> au_current st' \<le> Suc (au_current st) \<and> ad_locked d' = ad_locked d
        \<and> (newest_is_current d st \<longrightarrow> newest_is_current d' st'))
    \<or> (append_inner c r (ac_entry c (StoredRecord r)) len (d, st) = (Inl (AeIo ''already_exists''), d, st)
        \<and> seg_exists d (Suc (au_current st)))"
proof -
  have "seg_exists d (au_current st)"
    using active_exist [OF assms(1)] assms(1) by (metis audit_inv_def last_in_set)
  then obtain b where b: "hm_get (ad_segments d) (au_current st) = Some b"
    by (auto simp: seg_exists_iff)
  let ?day = "da_occurred_at_ms r div DAY_MS"
  show ?thesis
  proof (cases "needs_rotation (length b) ?day len st")
    case False
    obtain d' st' where w: "(case append_frame c (au_current st) (ac_entry c (StoredRecord r)) d of
        Inl e \<Rightarrow> (Err e, d, st)
      | Inr d2 \<Rightarrow>
          (let st2 = st\<lparr>au_current_day := Some ?day, au_records := au_records st @ [r]\<rparr>
           in (Ok (), write_audit_index c st2 d2, st2))) = (Inr (), d', st')"
      "audit_inv c d' st'" "au_records st' = au_records st @ [r]" "same_frame st st'"
      "au_current st' = au_current st" "ad_locked d' = ad_locked d" "newest_is_current d st \<Longrightarrow> newest_is_current d' st'"
      by (rule write_frame_spec [OF assms(1,3,4), where day = ?day]) blast
    have "append_inner c r (ac_entry c (StoredRecord r)) len (d, st) = (Inr (), d', st')"
      using w(1) False b by (simp add: append_inner_def segment_len_def Let_def)
    with w show ?thesis by auto
  next
    case True
    show ?thesis
    proof (cases "seg_exists d (Suc (au_current st))")
      case blocked: True
      then have "append_inner c r (ac_entry c (StoredRecord r)) len (d, st)
          = (Inl (AeIo ''already_exists''), d, st)"
        using True b assms(2)
        by (simp add: append_inner_def segment_len_def Let_def rotate_blocked)
      with blocked show ?thesis by blast
    next
      case free: False
      let ?d1 = "write_audit_index c (rotated st) (put_segment (Suc (au_current st)) [] d)"
      have inv1: "audit_inv c ?d1 (rotated st)" by (rule rotated_inv [OF assms(1) free])
      have ord: "au_records (rotated st) = [] \<or> da_sequence (last (au_records (rotated st))) < da_sequence r"
        using assms(4) by simp
      obtain d' st' where w: "(case append_frame c (au_current (rotated st)) (ac_entry c (StoredRecord r)) ?d1 of
          Inl e \<Rightarrow> (Err e, ?d1, rotated st)
        | Inr d2 \<Rightarrow>
            (let st2 = (rotated st)\<lparr>au_current_day := Some ?day, au_records := au_records (rotated st) @ [r]\<rparr>
             in (Ok (), write_audit_index c st2 d2, st2))) = (Inr (), d', st')"
        "audit_inv c d' st'" "au_records st' = au_records (rotated st) @ [r]" "same_frame (rotated st) st'"
        "au_current st' = au_current (rotated st)" "ad_locked d' = ad_locked ?d1" "newest_is_current ?d1 (rotated st) \<Longrightarrow> newest_is_current d' st'"
        by (rule write_frame_spec [OF inv1 assms(3) ord, where day = ?day]) blast
      have run: "append_inner c r (ac_entry c (StoredRecord r)) len (d, st) = (Inr (), d', st')"
        using w(1) True b assms(2) free
        by (simp add: append_inner_def segment_len_def Let_def rotate_Ok)
      have newest: "newest_is_current d st \<Longrightarrow> newest_is_current ?d1 (rotated st)"
        by (auto simp: newest_is_current_def seg_exists_def hm_has_def le_SucI split: if_splits)
      have frame: "same_frame st st'"
        using w(4) by (auto simp: same_frame_def)
      show ?thesis using run w(2,3,5-7) newest frame by auto
    qed
  qed
qed

text \<open>The records \<open>append\<close> takes.\<close>

definition accepts :: "audit_codec \<Rightarrow> raw_audit_record \<Rightarrow> audit_store \<Rightarrow> bool" where
  "accepts c raw st \<longleftrightarrow>
     au_available st
     \<and> (au_records st = [] \<or> da_sequence (last (au_records st)) < ra_sequence raw)
     \<and> is_ok (audit_validate (redact (au_redactor st) raw))
     \<and> length (ac_entry c (StoredRecord (redact (au_redactor st) raw))) + 36 \<le> au_max_segment_bytes st"

lemma accepts_fits:
  "audit_inv c d st \<Longrightarrow> accepts c raw st \<Longrightarrow> fits c (StoredRecord (redact (au_redactor st) raw))"
  by (auto simp: accepts_def entry_fits_def dest: audit_inv_facts(3))

lemma audit_append_accepted:
  assumes "audit_inv c d st" and "accepts c raw st"
  shows "audit_append c raw (d, st) =
    (case append_inner c (redact (au_redactor st) raw)
            (ac_entry c (StoredRecord (redact (au_redactor st) raw)))
            (length (ac_entry c (StoredRecord (redact (au_redactor st) raw))) + 36) (d, st) of
       (Inl e, d1, st1) \<Rightarrow> (Err e, d1, st1\<lparr>au_available := False\<rparr>)
     | (Inr _, d1, st1) \<Rightarrow> (Ok (), d1, st1))"
proof -
  let ?p = "ac_entry c (StoredRecord (redact (au_redactor st) raw))"
  have fit: "length ?p + 36 \<le> au_max_segment_bytes st"
    and ok: "au_available st" "is_ok (audit_validate (redact (au_redactor st) raw))"
    and seq: "\<not> is_some_and (\<lambda>r. ra_sequence raw \<le> da_sequence r) (last_record st)"
    using assms(2) by (auto simp: accepts_def last_record_ge)
  have big: "length ?p + 36 \<le> AUDIT_MAX_SEGMENT_BYTES"
    using fit audit_inv_facts(3) [OF assms(1)] by simp
  have "frame_len ?p = Inr (length ?p + 36)"
    using big by (simp add: frame_len_def HASH_BYTES_def u32_max_def AUDIT_MAX_SEGMENT_BYTES_def)
  then show ?thesis
    using fit big ok seq by (simp add: audit_append_def Let_def)
qed

lemma audit_append_refused:
  assumes "audit_inv c d st" and "\<not> accepts c raw st"
  shows "\<exists>e. audit_append c raw (d, st) = (Inl e, d, st)"
proof (cases "frame_len (ac_entry c (StoredRecord (redact (au_redactor st) raw)))")
  case (Inl e)
  then show ?thesis by (simp add: audit_append_def Let_def)
next
  case (Inr len)
  have "len = length (ac_entry c (StoredRecord (redact (au_redactor st) raw))) + 36"
    using Inr by (simp add: frame_len_Ok)
  then show ?thesis
    using assms(2) Inr by (auto simp: audit_append_def accepts_def last_record_ge Let_def)
qed

lemma audit_append_spec:
  assumes "audit_inv c d st" and "au_current st < u64_max"
  shows "(accepts c raw st
      \<and> (\<exists>d' st'. audit_append c raw (d, st) = (Inr (), d', st')
        \<and> audit_inv c d' st' \<and> au_records st' = au_records st @ [redact (au_redactor st) raw]
        \<and> same_frame st st' \<and> au_current st' \<le> Suc (au_current st) \<and> ad_locked d' = ad_locked d
        \<and> (newest_is_current d st \<longrightarrow> newest_is_current d' st')))
    \<or> (accepts c raw st \<and> seg_exists d (Suc (au_current st))
      \<and> audit_append c raw (d, st) = (Inl (AeIo ''already_exists''), d, st\<lparr>au_available := False\<rparr>))
    \<or> (\<not> accepts c raw st \<and> (\<exists>e. audit_append c raw (d, st) = (Inl e, d, st)))"
proof (cases "accepts c raw st")
  case False
  then show ?thesis using audit_append_refused [OF assms(1)] by blast
next
  case True
  let ?r = "redact (au_redactor st) raw"
  have "au_records st = [] \<or> da_sequence (last (au_records st)) < da_sequence ?r"
    using True by (simp add: accepts_def)
  note inner = append_inner_spec [OF assms accepts_fits [OF assms(1) True] this,
      of "length (ac_entry c (StoredRecord ?r)) + 36"]
  from inner show ?thesis
  proof (elim disjE)
    assume "\<exists>d' st'. append_inner c ?r (ac_entry c (StoredRecord ?r))
        (length (ac_entry c (StoredRecord ?r)) + 36) (d, st) = (Inr (), d', st')
        \<and> audit_inv c d' st' \<and> au_records st' = au_records st @ [?r] \<and> same_frame st st'
        \<and> au_current st' \<le> Suc (au_current st) \<and> ad_locked d' = ad_locked d
        \<and> (newest_is_current d st \<longrightarrow> newest_is_current d' st')"
    then obtain d' st' where "append_inner c ?r (ac_entry c (StoredRecord ?r))
        (length (ac_entry c (StoredRecord ?r)) + 36) (d, st) = (Inr (), d', st')"
      and keep: "audit_inv c d' st'" "au_records st' = au_records st @ [?r]" "same_frame st st'"
        "au_current st' \<le> Suc (au_current st)" "ad_locked d' = ad_locked d"
        "newest_is_current d st \<longrightarrow> newest_is_current d' st'"
      by blast
    then have "audit_append c raw (d, st) = (Inr (), d', st')"
      by (simp add: audit_append_accepted [OF assms(1) True])
    with True keep show ?thesis by blast
  next
    assume "append_inner c ?r (ac_entry c (StoredRecord ?r))
        (length (ac_entry c (StoredRecord ?r)) + 36) (d, st) = (Inl (AeIo ''already_exists''), d, st)
      \<and> seg_exists d (Suc (au_current st))"
    then show ?thesis using True by (simp add: audit_append_accepted [OF assms(1) True])
  qed
qed

section \<open>Opening what was written\<close>

lemma seg_remove: "hm_get (ad_segments (remove_segment n d)) m =
    (if m = n then None else hm_get (ad_segments d) m)"
  by (simp add: remove_segment_def)

lemma fold_remove_segment:
  "hm_get (ad_segments (fold remove_segment ns d)) m = (if m \<in> set ns then None else hm_get (ad_segments d) m)"
  "ad_index (fold remove_segment ns d) = ad_index d" "ad_locked (fold remove_segment ns d) = ad_locked d"
  by (induction ns arbitrary: d) (auto simp: seg_remove remove_segment_def)

lemma get_drop_inactive:
  "hm_get (ad_segments (drop_inactive disc act d)) n =
     (if n \<in> set disc \<and> n \<notin> set act then None else hm_get (ad_segments d) n)"
  "ad_index (drop_inactive disc act d) = ad_index d"
  by (auto simp: drop_inactive_def fold_remove_segment)

lemma segment_numbers_iff: "n \<in> set (segment_numbers d) \<longleftrightarrow> seg_exists d n"
  by (simp add: segment_numbers_def seg_exists_def hm_has_keys)

text \<open>
  A disk as a crash can leave it: the index names the segments \<open>ns\<close> and the current one last; the
  current one holds \<open>es\<close> and possibly a torn frame of \<open>e\<close>.
\<close>

definition crashed_disk ::
    "audit_codec \<Rightarrow> audit_disk \<Rightarrow> u64 list \<Rightarrow> (u64 \<Rightarrow> stored_entry list) \<Rightarrow> u64
     \<Rightarrow> stored_entry list \<Rightarrow> stored_entry \<Rightarrow> nat \<Rightarrow> bool" where
  "crashed_disk c d ns f cur es e k \<longleftrightarrow>
     cur \<noteq> 0 \<and> distinct ns \<and> cur \<notin> set ns \<and> on_disk c d ns f \<and> list_all (fits c) es \<and> torn_frame c e k
     \<and> \<not> ad_locked d
     \<and> ad_index d = Some (ac_index c \<lparr>ai_version = 2, ai_current = cur, ai_active_segments = ns @ [cur]\<rparr>)
     \<and> hm_get (ad_segments d) cur =
         Some (enc_frames c es @ take k (frame_bytes (ac_digest c) (ac_entry c e)))
     \<and> strictly_increasing (entry_records (concat (map f ns) @ es))"

definition reloaded_disk :: "audit_codec \<Rightarrow> audit_disk \<Rightarrow> u64 list \<Rightarrow> u64 \<Rightarrow> stored_entry list \<Rightarrow> audit_disk" where
  "reloaded_disk c d ns cur es =
     (drop_inactive (segment_numbers d) (ns @ [cur]) (put_segment cur (enc_frames c es) d))\<lparr>ad_locked := True\<rparr>"

lemma audit_open_crashed:
  assumes "codec_ok c" and "crashed_disk c d ns f cur es e k"
    and "0 < max_bytes" "max_bytes \<le> AUDIT_MAX_SEGMENT_BYTES"
  shows "audit_open c ret red max_bytes d =
    finish_open c (reloaded_disk c d ns cur es,
      loaded_store ret red max_bytes cur (ns @ [cur]) (concat (map f ns) @ es) (0 < k))"
proof -
  have k: "cur \<noteq> 0" "cur \<notin> set ns" "on_disk c d ns f" "list_all (fits c) es" "torn_frame c e k" "\<not> ad_locked d"
    "ad_index d = Some (ac_index c \<lparr>ai_version = 2, ai_current = cur, ai_active_segments = ns @ [cur]\<rparr>)"
    "hm_get (ad_segments d) cur =
      Some (enc_frames c es @ take k (frame_bytes (ac_digest c) (ac_entry c e)))"
    "strictly_increasing (entry_records (concat (map f ns) @ es))"
    using assms(2) by (auto simp: crashed_disk_def)
  have "read_audit_index c d = Inr (Some \<lparr>ai_version = 2, ai_current = cur, ai_active_segments = ns @ [cur]\<rparr>)"
    using k(1) by (simp add: read_audit_index_def k(7) codec_okD(2) [OF assms(1)])
  then show ?thesis
    using assms(3,4) k(6,9) read_active_tail [OF assms(1) k(3,2,4,5,8), of AeCommittedCorruption]
    by (simp add: audit_open_def reloaded_disk_def Let_def)
qed

lemma reloaded_segments:
  assumes "crashed_disk c d ns f cur es e k"
  shows "hm_get (ad_segments (reloaded_disk c d ns cur es)) n =
      (if n = cur then Some (enc_frames c es)
       else if n \<in> set ns then hm_get (ad_segments d) n else None)"
    and "ad_locked (reloaded_disk c d ns cur es)"
proof -
  have "hm_get (ad_segments d) m = None" if "\<not> seg_exists d m" for m
    using that by (simp add: seg_exists_iff)
  then show "hm_get (ad_segments (reloaded_disk c d ns cur es)) n =
      (if n = cur then Some (enc_frames c es)
       else if n \<in> set ns then hm_get (ad_segments d) n else None)"
    by (auto simp: reloaded_disk_def get_drop_inactive segment_numbers_iff)
qed (simp add: reloaded_disk_def)

lemma loaded_store_simps [simp]:
  "au_records (loaded_store ret red m cur act es rec) = entry_records es"
  "au_tombstones (loaded_store ret red m cur act es rec) = entry_tombstones es"
  "au_current (loaded_store ret red m cur act es rec) = cur"
  "au_active_segments (loaded_store ret red m cur act es rec) = act"
  "au_recovered (loaded_store ret red m cur act es rec) = rec"
  "au_available (loaded_store ret red m cur act es rec) = True"
  "au_max_segment_bytes (loaded_store ret red m cur act es rec) = m"
  "au_redactor (loaded_store ret red m cur act es rec) = red"
  "au_retention (loaded_store ret red m cur act es rec) = ret"
  by (simp_all add: loaded_store_def Let_def)

lemma reloaded_inv:
  assumes "crashed_disk c d ns f cur es e k" and "0 < m" "m \<le> AUDIT_MAX_SEGMENT_BYTES"
    and "st = loaded_store ret red m cur (ns @ [cur]) (concat (map f ns) @ es) rec"
  shows "audit_inv c (write_audit_index c st (reloaded_disk c d ns cur es)) st"
    and "seg_exists (reloaded_disk c d ns cur es) n \<longleftrightarrow> n \<in> set (ns @ [cur])"
proof -
  have k: "cur \<noteq> 0" "distinct ns" "cur \<notin> set ns" "on_disk c d ns f" "list_all (fits c) es"
    "strictly_increasing (entry_records (concat (map f ns) @ es))"
    using assms(1) by (auto simp: crashed_disk_def)
  note seg = reloaded_segments(1) [OF assms(1)]
  show "seg_exists (reloaded_disk c d ns cur es) n \<longleftrightarrow> n \<in> set (ns @ [cur])"
    using k(4) by (auto simp: seg_exists_iff seg on_disk_def)
  have "on_disk c (reloaded_disk c d ns cur es) (ns @ [cur]) (f(cur := es))"
    using k(3,4,5) by (auto simp: on_disk_def seg)
  then have od: "on_disk c (write_audit_index c st (reloaded_disk c d ns cur es)) (ns @ [cur]) (f(cur := es))"
    by (simp add: on_disk_def)
  have "map (f(cur := es)) ns = map f ns" using k(3) by simp
  then show "audit_inv c (write_audit_index c st (reloaded_disk c d ns cur es)) st"
    using od k assms(2,3)
    by (intro audit_invI [where ns = ns and f = "f(cur := es)"]) (simp_all add: assms(4))
qed

definition opened_as :: "redactor \<Rightarrow> u64 \<Rightarrow> audit_store \<Rightarrow> bool" where
  "opened_as red m st \<longleftrightarrow> au_redactor st = red \<and> au_max_segment_bytes st = m
     \<and> au_current_day st = map_option (\<lambda>r. da_occurred_at_ms r div DAY_MS) (last_record st)"

text \<open>When the last run ended between two writes, opening finds exactly what is on disk.\<close>

lemma audit_open_clean:
  assumes "codec_ok c" and "crashed_disk c d ns f cur es e 0"
    and "0 < m" "m \<le> AUDIT_MAX_SEGMENT_BYTES"
  obtains d' st' where "audit_open c ret red m d = (Inr st', d')" "audit_inv c d' st'"
    "au_records st' = entry_records (concat (map f ns) @ es)"
    "au_tombstones st' = entry_tombstones (concat (map f ns) @ es)" "\<not> au_recovered st'"
    "au_available st'" "au_current st' = cur" "au_active_segments st' = ns @ [cur]" "ad_locked d'"
    "\<And>n. seg_exists d' n \<longleftrightarrow> n \<in> set (ns @ [cur])"
    "\<And>n. n \<in> set (ns @ [cur]) \<Longrightarrow> hm_get (ad_segments d') n = hm_get (ad_segments d) n"
    "opened_as red m st'"
proof -
  let ?st = "loaded_store ret red m cur (ns @ [cur]) (concat (map f ns) @ es) False"
  let ?d = "reloaded_disk c d ns cur es"
  note inv = reloaded_inv [OF assms(2-4), of ?st ret red False, OF refl]
  have "audit_open c ret red m d = (Inr ?st, write_audit_index c ?st ?d)"
    using audit_open_crashed [OF assms, of ret red] inv(2) [of cur]
    by (simp add: finish_open_def Let_def)
  moreover have "hm_get (ad_segments d) cur = Some (enc_frames c es)"
    using assms(2) by (simp add: crashed_disk_def)
  ultimately show thesis
    using inv reloaded_segments [OF assms(2)]
    by (intro that [of ?st "write_audit_index c ?st ?d"])
       (auto simp: seg_exists_def opened_as_def last_record_def loaded_store_def Let_def)
qed

lemma fold_max_ge: "x \<in> set xs \<or> x \<le> a \<Longrightarrow> x \<le> fold max xs (a :: nat)"
proof (induction xs arbitrary: a)
  case Nil
  then show ?case by simp
next
  case (Cons y xs)
  have "x \<in> set xs \<or> x \<le> max y a" using Cons.prems by auto
  then show ?case using Cons.IH by simp
qed

lemma fold_max_less: "(\<forall>x \<in> set xs. x < m) \<Longrightarrow> a < m \<Longrightarrow> fold max xs a < (m :: nat)"
  by (induction xs arbitrary: a) auto

lemma recovery_record_cong: "au_records st = au_records st' \<Longrightarrow> recovery_record st = recovery_record st'"
  by (simp add: recovery_record_def last_record_def)

definition recovery_fits :: "audit_codec \<Rightarrow> redactor \<Rightarrow> u64 \<Rightarrow> audit_store \<Rightarrow> bool" where
  "recovery_fits c red m st \<longleftrightarrow>
     (\<forall>r \<in> set (au_records st). da_sequence r < u64_max)
     \<and> length (ac_entry c (StoredRecord (redact red (recovery_record st)))) + 36 \<le> m"

lemma recovery_accepted:
  assumes "recovery_fits c (au_redactor st) (au_max_segment_bytes st) st" and "au_available st"
  shows "accepts c (recovery_record st) st"
proof -
  let ?m = "fold max (map da_sequence (au_records st)) 0"
  have "?m < u64_max"
    using assms(1) by (intro fold_max_less) (auto simp: recovery_fits_def u64_max_def)
  moreover have "au_records st = [] \<or> da_sequence (last (au_records st)) \<le> ?m"
    by (cases "au_records st = []") (auto intro: fold_max_ge)
  ultimately have "au_records st = [] \<or>
      da_sequence (last (au_records st)) < ra_sequence (recovery_record st)"
    by (simp add: recovery_record_def wrap_add64_exact less_Suc_eq_le)
  moreover have "is_ok (audit_validate (redact (au_redactor st) (recovery_record st)))"
    by (simp add: audit_validate_def recovery_record_def validate_unique_resources_def
        validate_len_def MAX_COLLECTION_ITEMS_def)
  ultimately show ?thesis
    using assms by (simp add: accepts_def recovery_fits_def)
qed

lemma audit_open_torn:
  assumes "codec_ok c" and "crashed_disk c d ns f cur es e k" and "0 < k"
    and "0 < m" "m \<le> AUDIT_MAX_SEGMENT_BYTES" and "cur < u64_max" and "\<forall>n \<in> set ns. n \<le> cur"
    and "au_records st = entry_records (concat (map f ns) @ es)" and "recovery_fits c red m st"
  obtains d' st' where "audit_open c ret red m d = (Inr st', d')" "audit_inv c d' st'"
    "au_records st' = au_records st @ [redact red (recovery_record st)]" "au_recovered st'"
    "au_available st'" "ad_locked d'"
proof -
  let ?st = "loaded_store ret red m cur (ns @ [cur]) (concat (map f ns) @ es) True"
  let ?d = "reloaded_disk c d ns cur es"
  let ?d1 = "write_audit_index c ?st ?d"
  note inv = reloaded_inv [OF assms(2,4,5), of ?st ret red True, OF refl]
  have same: "au_records ?st = au_records st" by (simp add: assms(8))
  note rec = recovery_record_cong [OF same]
  have "recovery_fits c (au_redactor ?st) (au_max_segment_bytes ?st) ?st"
    using assms(9) same rec by (simp add: recovery_fits_def)
  then have acc: "accepts c (recovery_record ?st) ?st" by (rule recovery_accepted) simp
  have free: "\<not> seg_exists ?d1 (Suc (au_current ?st))"
  proof -
    have "Suc cur \<notin> set (ns @ [cur])" using assms(7) by auto
    then have "\<not> seg_exists ?d (Suc cur)" using inv(2) by blast
    then show ?thesis by (simp add: seg_exists_def)
  qed
  have cur: "au_current ?st < u64_max" using assms(6) by simp
  obtain d3 st3 where app: "audit_append c (recovery_record ?st) (?d1, ?st) = (Inr (), d3, st3)"
    "audit_inv c d3 st3" "au_records st3 = au_records ?st @ [redact (au_redactor ?st) (recovery_record ?st)]"
    "same_frame ?st st3" "ad_locked d3 = ad_locked ?d1"
    using audit_append_spec [OF inv(1) cur, of "recovery_record ?st"] acc free by blast
  have "audit_open c ret red m d = (Inr st3, d3)"
    using audit_open_crashed [OF assms(1,2,4,5), of ret red] inv(2) [of cur] app(1) assms(3)
    by (simp add: finish_open_def Let_def)
  then show thesis
    using app same rec reloaded_segments(2) [OF assms(2)]
    by (intro that [of st3 d3]) (simp_all add: same_frame_def)
qed

lemma audit_inv_crashed:
  assumes "audit_inv c d st"
  obtains ns f where "crashed_disk c (release_lock d) ns f (au_current st) (f (au_current st)) e 0"
    "au_active_segments st = ns @ [au_current st]"
    "au_records st = entry_records (concat (map f ns) @ f (au_current st))"
    "au_tombstones st = entry_tombstones (concat (map f ns) @ f (au_current st))"
proof -
  obtain ns f where act: "au_active_segments st = ns @ [au_current st]" and dist: "distinct ns"
    and cur: "au_current st \<notin> set ns" and disk: "on_disk c d (ns @ [au_current st]) f"
    and recs: "au_records st = entry_records (concat (map f ns) @ f (au_current st))"
    and tombs: "au_tombstones st = entry_tombstones (concat (map f ns) @ f (au_current st))"
    using assms(1) by (rule audit_invE)
  have "crashed_disk c (release_lock d) ns f (au_current st) (f (au_current st)) e 0"
    using act dist cur disk recs audit_inv_facts [OF assms]
    by (auto simp: crashed_disk_def torn_frame_def release_lock_def on_disk_def)
  then show thesis using act recs tombs by (rule that)
qed

text \<open>A store that is closed and opened again has the records it had.\<close>

lemma reopen:
  assumes "codec_ok c" and "audit_inv c d st" and "0 < m" "m \<le> AUDIT_MAX_SEGMENT_BYTES"
  obtains d' st' where "audit_open c ret red m (release_lock d) = (Inr st', d')" "audit_inv c d' st'"
    "au_records st' = au_records st" "au_tombstones st' = au_tombstones st" "\<not> au_recovered st'"
    "au_available st'" "au_current st' = au_current st"
    "au_active_segments st' = au_active_segments st" "ad_locked d'"
    "\<And>n. seg_exists d' n \<longleftrightarrow> n \<in> set (au_active_segments st)"
    "\<And>n. n \<in> set (au_active_segments st) \<Longrightarrow> hm_get (ad_segments d') n = hm_get (ad_segments d) n"
    "opened_as red m st'"
proof -
  obtain ns f where c: "crashed_disk c (release_lock d) ns f (au_current st) (f (au_current st)) undefined 0"
    and st: "au_active_segments st = ns @ [au_current st]"
      "au_records st = entry_records (concat (map f ns) @ f (au_current st))"
      "au_tombstones st = entry_tombstones (concat (map f ns) @ f (au_current st))"
    using assms(2) by (rule audit_inv_crashed)
  have seg: "ad_segments (release_lock d) = ad_segments d" by (simp add: release_lock_def)
  show thesis
  proof (rule audit_open_clean [OF assms(1) c assms(3,4), of ret red])
    fix d' st'
    assume a: "audit_open c ret red m (release_lock d) = (Inr st', d')" "audit_inv c d' st'"
      "au_records st' = entry_records (concat (map f ns) @ f (au_current st))"
      "au_tombstones st' = entry_tombstones (concat (map f ns) @ f (au_current st))"
      "\<not> au_recovered st'" "au_available st'" "au_current st' = au_current st"
      "au_active_segments st' = ns @ [au_current st]" "ad_locked d'"
      "\<And>n. seg_exists d' n \<longleftrightarrow> n \<in> set (ns @ [au_current st])"
      "\<And>n. n \<in> set (ns @ [au_current st]) \<Longrightarrow>
        hm_get (ad_segments d') n = hm_get (ad_segments (release_lock d)) n"
      "opened_as red m st'"
    show thesis by (rule that [OF a(1,2)]) (use a st seg in simp_all)
  qed
qed

section \<open>Crashes during an append\<close>

text \<open>
  The disks an append can leave behind: before it, after creating the next segment, after the index
  names it, after each byte of the frame, and at the end. (An append that does not rotate never
  leaves the second; it is in the list all the same.)
\<close>

definition frame_crash_disks :: "audit_codec \<Rightarrow> u64 \<Rightarrow> string \<Rightarrow> audit_disk \<Rightarrow> audit_disk list" where
  "frame_crash_disks c n payload d =
     (case hm_get (ad_segments d) n of
        None \<Rightarrow> []
      | Some bytes \<Rightarrow>
          (let frame = frame_bytes (ac_digest c) payload
           in map (\<lambda>k. put_segment n (bytes @ take k frame) d) [0..<Suc (length frame)]))"

definition append_crash_disks ::
    "audit_codec \<Rightarrow> raw_audit_record \<Rightarrow> audit_disk \<times> audit_store \<Rightarrow> audit_disk list" where
  "append_crash_disks c raw = (\<lambda>(d, st).
     (let r = redact (au_redactor st) raw;
          payload = ac_entry c (StoredRecord r);
          fresh = Suc (au_current st);
          (d1, st1) = (if is_some_and (\<lambda>b. needs_rotation (length b) (da_occurred_at_ms r div DAY_MS)
                              (length payload + 36) st) (hm_get (ad_segments d) (au_current st))
                       then snd (rotate_segment c (d, st)) else (d, st))
      in [d, put_segment fresh [] d, d1] @ frame_crash_disks c (au_current st1) payload d1
         @ [fst (snd (audit_append c raw (d, st)))]))"

text \<open>What a reopened store must be after a crash while \<open>raw\<close> was appended to \<open>st\<close>.\<close>

definition recovers_from ::
    "audit_codec \<Rightarrow> audit_store \<Rightarrow> raw_audit_record \<Rightarrow> audit_disk \<Rightarrow> bool" where
  "recovers_from c st raw d \<longleftrightarrow>
     (\<exists>st' d'. audit_open c (au_retention st) (au_redactor st) (au_max_segment_bytes st) (release_lock d)
          = (Ok st', d')
        \<and> audit_inv c d' st' \<and> au_available st'
        \<and> ((\<not> au_recovered st' \<and> au_records st' = au_records st)
         \<or> (\<not> au_recovered st' \<and> au_records st' = au_records st @ [redact (au_redactor st) raw])
         \<or> (au_recovered st'
            \<and> au_records st' = au_records st @ [redact (au_redactor st) (recovery_record st)])))"

lemma recovers_from_cong:
  "au_records st1 = au_records st \<Longrightarrow> same_frame st st1 \<Longrightarrow> recovers_from c st1 raw d = recovers_from c st raw d"
  by (simp add: recovers_from_def same_frame_def recovery_record_cong [of st1 st])

lemma crash_between_writes:
  assumes "codec_ok c" and "audit_inv c d st"
    and "ad_index d' = ad_index d" and "\<And>n. n \<in> set (au_active_segments st) \<Longrightarrow>
      hm_get (ad_segments d') n = hm_get (ad_segments d) n"
  shows "recovers_from c st raw d'"
proof -
  have "audit_inv c d' st"
    using assms(2-4) by (simp add: audit_inv_def on_disk_def)
  from reopen [OF assms(1) this audit_inv_facts(2,3) [OF this], of "au_retention st" "au_redactor st"]
  show ?thesis unfolding recovers_from_def by metis
qed

lemma crash_in_frame:
  assumes "codec_ok c" and "audit_inv c d st" and "newest_is_current d st" and "accepts c raw st"
    and "au_current st < u64_max" and "recovery_fits c (au_redactor st) (au_max_segment_bytes st) st"
    and "d' \<in> set (frame_crash_disks c (au_current st)
           (ac_entry c (StoredRecord (redact (au_redactor st) raw))) d)"
  shows "recovers_from c st raw d'"
proof -
  let ?n = "au_current st" and ?e = "StoredRecord (redact (au_redactor st) raw)"
  let ?frame = "frame_bytes (ac_digest c) (ac_entry c ?e)"
  note bounds = audit_inv_facts(2,3) [OF assms(2)]
  obtain ns f where c: "crashed_disk c (release_lock d) ns f ?n (f ?n) ?e 0"
    and act: "au_active_segments st = ns @ [?n]"
    and recs: "au_records st = entry_records (concat (map f ns) @ f ?n)"
    using assms(2) by (rule audit_inv_crashed)
  have get: "hm_get (ad_segments d) ?n = Some (enc_frames c (f ?n))" and nin: "?n \<notin> set ns"
    using c by (simp_all add: crashed_disk_def release_lock_def)
  have "\<exists>k < Suc (length ?frame). d' = put_segment ?n (enc_frames c (f ?n) @ take k ?frame) d"
    using assms(7) by (auto simp: frame_crash_disks_def get Let_def simp del: upt_Suc)
  then obtain k where d': "d' = put_segment ?n (enc_frames c (f ?n) @ take k ?frame) d"
    by blast
  have fit: "fits c ?e" by (rule accepts_fits [OF assms(2,4)])
  have le: "\<forall>m \<in> set ns. m \<le> ?n"
  proof
    fix m assume "m \<in> set ns"
    then have "seg_exists d m" using active_exist [OF assms(2)] act by simp
    then show "m \<le> ?n" using assms(3) by (simp add: newest_is_current_def)
  qed
  have other: "on_disk c (release_lock d') ns f"
    using c nin d' by (auto simp: crashed_disk_def on_disk_def release_lock_def)
  show ?thesis
  proof (cases "k < length ?frame")
    case True
    have c': "crashed_disk c (release_lock d') ns f ?n (f ?n) ?e k"
      using c other True fit by (simp add: crashed_disk_def torn_frame_def release_lock_def d')
    show ?thesis
    proof (cases "k = 0")
      case True
      then have "d' = d" using d' get by (simp add: put_segment_same)
      then show ?thesis using crash_between_writes [OF assms(1,2)] by blast
    next
      case False
      then have "0 < k" by simp
      show ?thesis
        by (rule audit_open_torn [OF assms(1) c' \<open>0 < k\<close> bounds assms(5) le recs assms(6),
              where ret = "au_retention st"])
           (unfold recovers_from_def, metis)
    qed
  next
    case False
    then have whole: "take k ?frame = ?frame" by simp
    have snoc: "strictly_increasing (entry_records (concat (map f ns) @ f ?n @ [?e]))"
      using strictly_increasing_snoc [of "au_records st" "redact (au_redactor st) raw"] assms(4)
        audit_inv_facts(5) [OF assms(2)] by (simp add: recs accepts_def)
    have c': "crashed_disk c (release_lock d') ns f ?n (f ?n @ [?e]) ?e 0"
      using c other fit snoc whole
      by (simp add: crashed_disk_def torn_frame_def release_lock_def d')
    obtain d2 st2 where o: "audit_open c (au_retention st) (au_redactor st) (au_max_segment_bytes st)
        (release_lock d') = (Inr st2, d2)" "audit_inv c d2 st2"
      "au_records st2 = entry_records (concat (map f ns) @ f ?n @ [?e])" "\<not> au_recovered st2"
      "au_available st2"
      by (rule audit_open_clean [OF assms(1) c' bounds, of "au_retention st" "au_redactor st"]) blast
    then have "au_records st2 = au_records st @ [redact (au_redactor st) raw]"
      by (simp add: recs)
    with o show ?thesis unfolding recovers_from_def by blast
  qed
qed


text \<open>
  An append that returns success has put the redacted record last in memory and on disk: opening
  the store again gives exactly the records it had, in the same order. An append that fails has
  changed neither the disk nor the records, and when the failure came from the file system the store
  takes no further record.
\<close>

theorem append_is_durable:
  assumes "codec_ok c" and "audit_inv c d st" and "au_current st < u64_max"
    and "audit_append c raw (d, st) = (res, d', st')"
  shows "case res of
      Inr _ \<Rightarrow> audit_inv c d' st' \<and> au_records st' = au_records st @ [redact (au_redactor st) raw]
        \<and> (\<exists>st2 d2. audit_open c (au_retention st) (au_redactor st) (au_max_segment_bytes st)
              (release_lock d') = (Ok st2, d2) \<and> au_records st2 = au_records st'
              \<and> au_tombstones st2 = au_tombstones st' \<and> \<not> au_recovered st2)
    | Inl e \<Rightarrow> d' = d \<and> au_records st' = au_records st
        \<and> (st' = st \<or> audit_append c raw2 (d', st') = (Err AeAuditUnavailable, d', st'))"
proof -
  consider "res = Inr ()" "audit_inv c d' st'"
      "au_records st' = au_records st @ [redact (au_redactor st) raw]"
    | e where "res = Inl e" "d' = d" "st' = st"
    | e where "res = Inl e" "d' = d" "st' = st\<lparr>au_available := False\<rparr>"
    using audit_append_spec [OF assms(2,3), of raw] assms(4) by auto
  then show ?thesis
  proof cases
    case 1
    show ?thesis
      using 1 reopen [OF assms(1) 1(2) ,of "au_max_segment_bytes st" "au_retention st" "au_redactor st"]
        audit_inv_facts(2,3) [OF assms(2)] by (auto; metis)
  next
    case 2
    then show ?thesis by simp
  next
    case 3
    then show ?thesis by (simp add: audit_append_def)
  qed
qed

section \<open>Examples\<close>

text \<open>A store on the codec of \<open>AuditSample\<close>, with one segment that holds the records \<open>rs\<close>.\<close>

definition sample_raw :: "u64 \<Rightarrow> u64 \<Rightarrow> raw_audit_record" where
  "sample_raw sequence occurred =
     \<lparr>ra_sequence = sequence, ra_occurred_at_ms = occurred, ra_activity_id = Some ''act'',
      ra_principal_id = ''user'', ra_source_host_id = ''mac'', ra_target_host_id = ''pc'',
      ra_device_id = None, ra_operation = ''build'', ra_resources = [WorkspaceRead],
      ra_decision = Allow, ra_result = AuditSucceeded, ra_message = Some ''operation_succeeded'',
      ra_arguments = [''--token=x''], ra_environment = [], ra_stdout = None, ra_stderr = None,
      ra_workspace_path = None, ra_artifact_metadata = []\<rparr>"

definition sample_audit_store :: "dashboard_audit_record list \<Rightarrow> audit_store" where
  "sample_audit_store rs =
     loaded_store 30 [] AUDIT_MAX_SEGMENT_BYTES 1 [1] (map StoredRecord rs) False"

definition sample_audit_disk :: "dashboard_audit_record list \<Rightarrow> audit_disk" where
  "sample_audit_disk rs =
     \<lparr>ad_index = Some (w_index \<lparr>ai_version = 2, ai_current = 1, ai_active_segments = [1]\<rparr>),
      ad_segments = [(1, enc_frames sample_audit_codec (map StoredRecord rs))], ad_locked = True\<rparr>"

lemma sample_store_inv:
  assumes "strictly_increasing rs" and "list_all (fits sample_audit_codec) (map StoredRecord rs)"
  shows "audit_inv sample_audit_codec (sample_audit_disk rs) (sample_audit_store rs)"
  by (rule audit_invI [where ns = "[]" and f = "\<lambda>_. map StoredRecord rs"])
     (use assms in \<open>simp_all add: sample_audit_store_def sample_audit_disk_def sample_audit_codec_def
        on_disk_Cons hm_get_def AUDIT_MAX_SEGMENT_BYTES_def\<close>)

lemma sample_store_newest: "newest_is_current (sample_audit_disk rs) (sample_audit_store rs)"
  by (auto simp: newest_is_current_def seg_exists_iff sample_audit_disk_def sample_audit_store_def
      hm_get_def split: if_splits)

lemmas sample_writers = sample_audit_codec_def w_record_def record_fields_def w_pair_def w_nat_def
  w_opt_def w_list_def w_char_def w_enum_def w_message_def message_fields_def result_values_def
  resource_values_def message_values_def

lemma sample_redacted:
  "redact [] (sample_raw s t) =
     \<lparr>da_sequence = s, da_occurred_at_ms = t, da_activity_id = Some ''act'', da_principal_id = ''user'',
      da_source_host_id = ''mac'', da_target_host_id = ''pc'', da_device_id = None,
      da_operation = ''build'', da_resources = [WorkspaceRead], da_decision = Allow,
      da_result = AuditSucceeded,
      da_redacted_message = Some \<lparr>dm_code = OperationSucceeded, dm_params = []\<rparr>\<rparr>"
  by (simp add: redact_def sample_raw_def redact_id_def contains_sensitive_def to_ascii_lowercase_def
      is_ascii_uppercase_def byte_of_def message_code_of_def Let_def)

lemma length_show_nat: "n < 10 ^ Suc k \<Longrightarrow> length (show_nat n) \<le> Suc k"
proof (induction k arbitrary: n)
  case 0
  then show ?case by (subst show_nat.simps) simp
next
  case (Suc k)
  then have "length (show_nat (n div 10)) \<le> Suc k"
    by (intro Suc.IH) (simp add: less_mult_imp_div_less mult.commute)
  then show ?case by (subst show_nat.simps) simp
qed

lemma show_digit: "n < 10 \<Longrightarrow> show_nat n = [digit_char n]"
  by (subst show_nat.simps) simp

lemma show_two_digits:
  "10 \<le> n \<Longrightarrow> n < 100 \<Longrightarrow> show_nat n = [digit_char (n div 10), digit_char (n mod 10)]"
  by (subst show_nat.simps) (simp add: show_digit)

lemma sample_record_size:
  assumes "s < 10 ^ 20" and "t < 10 ^ 20"
  shows "length (ac_entry sample_audit_codec (StoredRecord (redact [] (sample_raw s t)))) \<le> 200"
proof -
  have "length (show_nat s) \<le> 20" "length (show_nat t) \<le> 20"
    using length_show_nat [of s 19] length_show_nat [of t 19] assms by simp_all
  then show ?thesis by (simp add: sample_redacted sample_writers show_digit)
qed

lemma sample_fits_segment:
  "s < 10 ^ 20 \<Longrightarrow> t < 10 ^ 20 \<Longrightarrow> fits sample_audit_codec (StoredRecord (redact [] (sample_raw s t)))"
  using sample_record_size [of s t]
  by (simp add: entry_fits_def AUDIT_MAX_SEGMENT_BYTES_def audit_validate_def sample_redacted
      validate_unique_resources_def validate_len_def MAX_COLLECTION_ITEMS_def)

lemma sample_store_simps [simp]:
  "au_records (sample_audit_store rs) = rs" "au_current (sample_audit_store rs) = 1"
  "au_redactor (sample_audit_store rs) = []" "au_available (sample_audit_store rs)"
  "au_max_segment_bytes (sample_audit_store rs) = AUDIT_MAX_SEGMENT_BYTES"
  "au_retention (sample_audit_store rs) = 30" "au_active_segments (sample_audit_store rs) = [1]"
  "au_tombstones (sample_audit_store rs) = []"
  by (simp_all add: sample_audit_store_def)

definition one_record :: "dashboard_audit_record list" where
  "one_record = [redact [] (sample_raw 1 0)]"

lemma one_record_inv:
  "audit_inv sample_audit_codec (sample_audit_disk one_record) (sample_audit_store one_record)"
  by (rule sample_store_inv) (use sample_fits_segment [of 1 0] in \<open>simp_all add: one_record_def\<close>)

lemma one_record_accepts:
  "accepts sample_audit_codec (sample_raw 2 0) (sample_audit_store one_record)"
  using sample_fits_segment [of 2 0] by (simp add: accepts_def one_record_def sample_raw_def entry_fits_def)

lemma one_record_free: "\<not> seg_exists (sample_audit_disk rs) 2"
  by (simp add: seg_exists_def hm_has_def hm_get_def sample_audit_disk_def)

theorem append_is_durable_witness:
  "\<exists>d' st' st2 d2. audit_append sample_audit_codec (sample_raw 2 0)
        (sample_audit_disk one_record, sample_audit_store one_record) = (Ok (), d', st')
     \<and> audit_open sample_audit_codec 30 [] AUDIT_MAX_SEGMENT_BYTES (release_lock d') = (Ok st2, d2)
     \<and> map da_sequence (au_records st2) = [1, 2]"
proof -
  have room: "au_current (sample_audit_store one_record) < u64_max" by (simp add: u64_max_def)
  have free: "\<not> seg_exists (sample_audit_disk one_record) (Suc (au_current (sample_audit_store one_record)))"
    using one_record_free [of one_record] by (simp add: numeral_2_eq_2)
  obtain d' st' where run: "audit_append sample_audit_codec (sample_raw 2 0)
      (sample_audit_disk one_record, sample_audit_store one_record) = (Ok (), d', st')"
    using audit_append_spec [OF one_record_inv room, of "sample_raw 2 0"] one_record_accepts free by blast
  from append_is_durable [OF sample_audit_codec_ok one_record_inv room run]
  obtain st2 d2 where "audit_open sample_audit_codec 30 [] AUDIT_MAX_SEGMENT_BYTES (release_lock d') = (Ok st2, d2)"
    and "au_records st2 = one_record @ [redact [] (sample_raw 2 0)]"
    by auto
  then show ?thesis using run by (auto simp: one_record_def sample_raw_def)
qed

lemma one_record_recovery: "recovery_fits sample_audit_codec [] AUDIT_MAX_SEGMENT_BYTES (sample_audit_store one_record)"
proof -
  have "redact [] (recovery_record (sample_audit_store one_record)) =
      \<lparr>da_sequence = 2, da_occurred_at_ms = 0, da_activity_id = None, da_principal_id = ''local-system'',
       da_source_host_id = ''local-host'', da_target_host_id = ''local-host'', da_device_id = None,
       da_operation = ''audit-tail-recovery'', da_resources = [], da_decision = Allow,
       da_result = AuditFailed,
       da_redacted_message = Some \<lparr>dm_code = OperationSucceeded, dm_params = []\<rparr>\<rparr>"
    by (simp add: redact_def recovery_record_def redact_id_def contains_sensitive_def to_ascii_lowercase_def
        is_ascii_uppercase_def byte_of_def message_code_of_def Let_def one_record_def last_record_def
        sample_raw_def wrap_add64_def u64_max_def)
  then have "length (ac_entry sample_audit_codec (StoredRecord (redact [] (recovery_record
      (sample_audit_store one_record))))) + 36 \<le> AUDIT_MAX_SEGMENT_BYTES"
    by (simp add: AUDIT_MAX_SEGMENT_BYTES_def sample_writers show_digit show_two_digits)
  then show ?thesis
    by (simp add: recovery_fits_def) (simp add: one_record_def sample_raw_def u64_max_def)
qed


end
