(* ===== verification/AuditQueries.thy ===== *)
theory AuditQueries
  imports AuditStore
begin

text \<open>
  Reading the audit log (\<open>dashboard/audit.rs\<close>): pages of a query, exports and their manifests, the
  guard of remote mutations and the activity checkpoint file. The interface \<open>cursor_pages\<close> says what
  a client that follows cursors relies on, and that following them ends with every item.
\<close>

section \<open>Pages\<close>

record audit_page =
  pg_items :: "dashboard_audit_record list"
  pg_next_cursor :: "event_cursor option"

definition cursor_page_encoded_len :: "audit_codec \<Rightarrow> nat \<Rightarrow> event_cursor \<Rightarrow> nat" where
  "cursor_page_encoded_len c items_bytes cursor = 10 + items_bytes + 16 + length (ac_cursor c cursor) + 1"

definition cursor_at :: "u64 \<Rightarrow> event_cursor" where
  "cursor_at n = \<lparr>ec_epoch = 1, ec_sequence = n\<rparr>"

fun page_items ::
    "audit_codec \<Rightarrow> nat \<Rightarrow> dashboard_audit_record list \<Rightarrow> nat \<Rightarrow> dashboard_audit_record list
     \<Rightarrow> dashboard_audit_record list" where
  "page_items c limit items bytes [] = items"
| "page_items c limit items bytes (r # rs) =
     (let item_bytes = length (ac_entry c (StoredRecord r));
          candidate = sat_add64 bytes (item_bytes + (if items = [] then 0 else 1))
      in if cursor_page_encoded_len c candidate (cursor_at (da_sequence r)) > AUDIT_MAX_PAGE_BYTES then items
         else if length (items @ [r]) = limit then items @ [r]
         else page_items c limit (items @ [r]) candidate rs)"

definition audit_query ::
    "audit_codec \<Rightarrow> audit_filter \<Rightarrow> event_cursor option \<Rightarrow> nat \<Rightarrow> audit_store
     \<Rightarrow> audit_error + audit_page" where
  "audit_query c f cursor limit st =
     (if \<not> au_available st then Err AeAuditUnavailable
      else if limit = 0 \<or> limit > MAX_PAGE_RECORDS then Err AeLimitExceeded
      else
        (let after = (case cursor of None \<Rightarrow> 0 | Some v \<Rightarrow> ec_sequence v) in
         if after > (case last_record st of None \<Rightarrow> 0 | Some r \<Rightarrow> da_sequence r) then Err AeCursorAhead
         else
           (let items = page_items c limit [] 0
                  (filter (\<lambda>r. da_sequence r > after \<and> filter_matches f r) (au_records st))
            in Ok \<lparr>pg_items = items,
                   pg_next_cursor = (if items = [] then None
                                     else Some (cursor_at (da_sequence (last items))))\<rparr>)))"

section \<open>Exports\<close>

text \<open>\<open>serde_json::to_vec\<close> of a vector, from the JSON of its items.\<close>

fun json_items :: "string list \<Rightarrow> string" where
  "json_items [] = []"
| "json_items [x] = x"
| "json_items (x # xs) = x @ '','' @ json_items xs"

definition json_array :: "string list \<Rightarrow> string" where
  "json_array xs = ''['' @ json_items xs @ '']''"

fun export_items ::
    "audit_codec \<Rightarrow> nat \<Rightarrow> dashboard_audit_record list \<Rightarrow> dashboard_audit_record list
     \<Rightarrow> audit_error + dashboard_audit_record list" where
  "export_items c bytes records [] = Ok records"
| "export_items c bytes records (r # rs) =
     (if length records = MAX_EXPORT_RECORDS then Err AeLimitExceeded
      else
        (let item_bytes = length (ac_entry c (StoredRecord r));
             bytes1 = sat_add64 bytes (item_bytes + (if records = [] then 0 else 1))
         in if bytes1 > MAX_EXPORT_BYTES then Err AeLimitExceeded
            else export_items c bytes1 (records @ [r]) rs))"

definition export_audit ::
    "audit_codec \<Rightarrow> audit_filter \<Rightarrow> audit_signer option \<Rightarrow> audit_store \<Rightarrow> audit_error + audit_export" where
  "export_audit c f signer st =
     and_then (export_items c 2 [] (filter (filter_matches f) (au_records st)))
       (\<lambda>records.
          let json = json_array (map (\<lambda>r. ac_entry c (StoredRecord r)) records);
              digest = hex (ac_digest c json)
          in and_then (sign_export c signer (length records) digest)
               (\<lambda>sig. Ok \<lparr>ax_records = records, ax_records_json = json,
                  ax_manifest = \<lparr>em_format_version = 1, em_record_count = length records,
                                 em_records_sha256 = digest, em_signature = sig\<rparr>\<rparr>))"

text \<open>
  The manifest alone, for any number of records: the digest is fed the bracket, each record with a
  comma before all but the first, and the closing bracket.
\<close>

fun digest_input :: "audit_codec \<Rightarrow> nat \<Rightarrow> string \<Rightarrow> dashboard_audit_record list \<Rightarrow> nat \<times> string" where
  "digest_input c count fed [] = (count, fed)"
| "digest_input c count fed (r # rs) =
     digest_input c (count + 1)
       ((if count > 0 then fed @ '','' else fed) @ ac_entry c (StoredRecord r)) rs"

definition audit_export_manifest ::
    "audit_codec \<Rightarrow> audit_filter \<Rightarrow> audit_signer option \<Rightarrow> audit_store \<Rightarrow> audit_error + export_manifest"
where
  "audit_export_manifest c f signer st =
     (if \<not> au_available st then Err AeAuditUnavailable
      else
        (case digest_input c 0 ''['' (filter (filter_matches f) (au_records st)) of (count, fed) \<Rightarrow>
           (let digest = hex (ac_digest c (fed @ '']''))
            in and_then (sign_export c signer count digest)
                 (\<lambda>sig. Ok \<lparr>em_format_version = 1, em_record_count = count,
                            em_records_sha256 = digest, em_signature = sig\<rparr>))))"

section \<open>Guard and checkpoint\<close>

text \<open>The guard asks the shared store; a poisoned lock gives no store.\<close>

definition may_start_remote_mutation :: "audit_store option \<Rightarrow> audit_error + unit" where
  "may_start_remote_mutation store =
     (case store of None \<Rightarrow> Err AeAuditUnavailable | Some st \<Rightarrow> ensure (au_available st) AeAuditUnavailable)"

definition audit_last_sequence :: "audit_store \<Rightarrow> u64" where
  "audit_last_sequence st = (case last_record st of None \<Rightarrow> 0 | Some r \<Rightarrow> da_sequence r)"

definition MAX_ACTIVITY_CHECKPOINT_BYTES :: nat where "MAX_ACTIVITY_CHECKPOINT_BYTES = 8388608"

definition read_activity_checkpoint :: "string option \<Rightarrow> audit_error + string option" where
  "read_activity_checkpoint file =
     (case file of
        None \<Rightarrow> Ok None
      | Some bytes \<Rightarrow>
          (if length bytes > MAX_ACTIVITY_CHECKPOINT_BYTES then Err AeLimitExceeded else Ok (Some bytes)))"

definition write_activity_checkpoint :: "string \<Rightarrow> string option \<Rightarrow> (audit_error + unit) \<times> string option" where
  "write_activity_checkpoint bytes file =
     (if length bytes > MAX_ACTIVITY_CHECKPOINT_BYTES then (Err AeLimitExceeded, file)
      else (Ok (), Some bytes))"

section \<open>Following cursors\<close>

text \<open>
  A client that asks for the page after its cursor until a page is empty. The fuel bounds the number
  of pages; \<open>None\<close> means it did not suffice.
\<close>

fun follow_cursors :: "(nat \<Rightarrow> 'i list) \<Rightarrow> ('i \<Rightarrow> nat) \<Rightarrow> nat \<Rightarrow> nat \<Rightarrow> 'i list option" where
  "follow_cursors page seq 0 after = None"
| "follow_cursors page seq (Suc fuel) after =
     (let items = page after in
      if items = [] then Some []
      else map_option (\<lambda>rest. items @ rest) (follow_cursors page seq fuel (seq (last items))))"

lemma filter_split: "\<forall>i \<in> set xs. \<not> P i \<Longrightarrow> \<forall>i \<in> set ys. P i \<Longrightarrow> filter P (xs @ ys) = ys"
  by simp

locale cursor_pages =
  fixes page :: "'s \<Rightarrow> nat \<Rightarrow> 'i list"
    and seq :: "'i \<Rightarrow> nat"
    and items :: "'s \<Rightarrow> 'i list"
    and ok :: "'s \<Rightarrow> bool"
  assumes increasing: "ok s \<Longrightarrow> sorted_wrt (<) (map seq (items s))"
    and page_prefix: "ok s \<Longrightarrow> after = 0 \<or> (\<exists>i \<in> set (items s). seq i = after) \<Longrightarrow>
      \<exists>k. page s after = take k (filter (\<lambda>i. after < seq i) (items s))"
    and page_progress: "ok s \<Longrightarrow> after = 0 \<or> (\<exists>i \<in> set (items s). seq i = after) \<Longrightarrow>
      filter (\<lambda>i. after < seq i) (items s) \<noteq> [] \<Longrightarrow> page s after \<noteq> []"
begin

lemma rest_after_page:
  assumes "sorted_wrt (<) (map seq xs)" and "take k (filter (\<lambda>i. after < seq i) xs) \<noteq> []"
  shows "filter (\<lambda>i. seq (last (take k (filter (\<lambda>i. after < seq i) xs))) < seq i) xs
    = drop k (filter (\<lambda>i. after < seq i) xs)"
proof -
  let ?ys = "filter (\<lambda>i. after < seq i) xs"
  let ?l = "last (take k ?ys)"
  have s: "sorted_wrt (<) (map seq ?ys)"
    using assms(1) by (simp add: sorted_wrt_map sorted_wrt_filter)
  have l_in: "?l \<in> set (take k ?ys)" using assms(2) by (rule last_in_set)
  then have "?l \<in> set ?ys" by (rule in_set_takeD)
  then have "after < seq ?l" by simp
  then have "filter (\<lambda>i. seq ?l < seq i) xs = filter (\<lambda>i. seq ?l < seq i) ?ys"
    by (auto intro: filter_cong)
  also have "\<dots> = drop k ?ys"
  proof -
    have ends: "sorted_wrt (<) (map seq (take k ?ys) @ map seq (drop k ?ys))"
      using s by (simp flip: map_append)
    have "\<not> seq ?l < seq i" if "i \<in> set (take k ?ys)" for i
    proof -
      have b: "take k ?ys = butlast (take k ?ys) @ [?l]" using assms(2) by simp
      have "sorted_wrt (<) (map seq (butlast (take k ?ys) @ [?l]))"
        using ends unfolding b [symmetric] sorted_wrt_append by blast
      then have "\<forall>j \<in> set (butlast (take k ?ys)). seq j < seq ?l"
        by (simp add: sorted_wrt_append)
      moreover have "i \<in> set (butlast (take k ?ys)) \<or> i = ?l"
        using that b by (metis Un_iff empty_iff empty_set set_ConsD set_append)
      ultimately show ?thesis by auto
    qed
    moreover have "seq ?l < seq j" if "j \<in> set (drop k ?ys)" for j
      using ends l_in that by (simp add: sorted_wrt_append)
    ultimately have "filter (\<lambda>i. seq ?l < seq i) (take k ?ys @ drop k ?ys) = drop k ?ys"
      by (intro filter_split) blast+
    then show ?thesis by (simp only: append_take_drop_id)
  qed
  finally show ?thesis .
qed

lemma follow_cursors_returns:
  assumes "ok s" and "after = 0 \<or> (\<exists>i \<in> set (items s). seq i = after)"
    and "length (filter (\<lambda>i. after < seq i) (items s)) < fuel"
  shows "follow_cursors (page s) seq fuel after = Some (filter (\<lambda>i. after < seq i) (items s))"
  using assms(2,3)
proof (induction fuel arbitrary: after)
  case 0
  then show ?case by simp
next
  case (Suc fuel)
  let ?ys = "filter (\<lambda>i. after < seq i) (items s)"
  obtain k where k: "page s after = take k ?ys" using page_prefix [OF assms(1) Suc.prems(1)] by blast
  show ?case
  proof (cases "page s after = []")
    case True
    then have "?ys = []" using page_progress [OF assms(1) Suc.prems(1)] by blast
    then show ?thesis using True by simp
  next
    case False
    let ?l = "last (page s after)"
    have rest: "filter (\<lambda>i. seq ?l < seq i) (items s) = drop k ?ys"
      using rest_after_page [OF increasing [OF assms(1)], of k after] False k by simp
    have "?l \<in> set ?ys" using False k in_set_takeD last_in_set by metis
    then have at: "seq ?l = 0 \<or> (\<exists>i \<in> set (items s). seq i = seq ?l)" by auto
    have "length (take k ?ys) + length (drop k ?ys) = length ?ys"
      by (metis append_take_drop_id length_append)
    then have "length (drop k ?ys) < fuel"
      using False k Suc.prems(2) by (cases "take k ?ys") auto
    then have "follow_cursors (page s) seq fuel (seq ?l) = Some (drop k ?ys)"
      using Suc.IH [OF at] rest by simp
    then show ?thesis using False k by (simp add: Let_def)
  qed
qed

end

section \<open>Pages of a query\<close>

lemma strictly_increasing_sorted: "strictly_increasing rs \<longleftrightarrow> sorted_wrt (<) (map da_sequence rs)"
proof (induction rs rule: strictly_increasing.induct)
  case (1 r s rs)
  then show ?case by (auto intro: less_trans)
qed auto

lemma page_items_prefix: "\<exists>k. page_items c limit items bytes rs = items @ take k rs"
proof (induction rs arbitrary: items bytes)
  case Nil
  then show ?case by simp
next
  case (Cons r rs)
  have stop: "\<exists>k. items = items @ take k (r # rs)" by (rule exI [of _ 0]) simp
  have one: "\<exists>k. items @ [r] = items @ take k (r # rs)" by (rule exI [of _ 1]) simp
  have more: "\<exists>k. page_items c limit (items @ [r]) b rs = items @ take k (r # rs)" for b
  proof -
    obtain k where "page_items c limit (items @ [r]) b rs = (items @ [r]) @ take k rs"
      using Cons.IH by blast
    then show ?thesis by (intro exI [of _ "Suc k"]) simp
  qed
  show ?case using stop one more by (simp add: Let_def)
qed

lemma page_items_limit:
  "length items < limit \<Longrightarrow> length (page_items c limit items bytes rs) \<le> limit"
  by (induction rs arbitrary: items bytes) (auto simp: Let_def)

definition fits_page :: "audit_codec \<Rightarrow> dashboard_audit_record \<Rightarrow> bool" where
  "fits_page c r \<longleftrightarrow>
     length (ac_entry c (StoredRecord r)) + length (ac_cursor c (cursor_at (da_sequence r))) + 27
       \<le> AUDIT_MAX_PAGE_BYTES"

lemma page_items_keeps: "items \<noteq> [] \<Longrightarrow> page_items c limit items bytes rs \<noteq> []"
  using page_items_prefix [of c limit items bytes rs] by auto

lemma page_items_progress:
  assumes "fits_page c r"
  shows "page_items c limit [] 0 (r # rs) \<noteq> []"
proof -
  have "sat_add64 0 (length (ac_entry c (StoredRecord r)) + 0) = length (ac_entry c (StoredRecord r))"
    using assms by (simp add: sat_add64_def fits_page_def AUDIT_MAX_PAGE_BYTES_def u64_max_def)
  moreover have "cursor_page_encoded_len c (length (ac_entry c (StoredRecord r))) (cursor_at (da_sequence r))
      \<le> AUDIT_MAX_PAGE_BYTES"
    using assms by (simp add: fits_page_def cursor_page_encoded_len_def)
  ultimately show ?thesis
    by (simp only: page_items.simps Let_def if_True append_Nil split: if_split)
       (simp add: page_items_keeps)
qed

type_synonym page_source = "audit_codec \<times> audit_filter \<times> nat \<times> audit_store"

definition source_items :: "page_source \<Rightarrow> dashboard_audit_record list" where
  "source_items = (\<lambda>(c, f, limit, st). filter (filter_matches f) (au_records st))"

definition source_page :: "page_source \<Rightarrow> nat \<Rightarrow> dashboard_audit_record list" where
  "source_page = (\<lambda>(c, f, limit, st) after.
     (case audit_query c f (Some (cursor_at after)) limit st of Inl _ \<Rightarrow> [] | Inr p \<Rightarrow> pg_items p))"

definition source_ok :: "page_source \<Rightarrow> bool" where
  "source_ok = (\<lambda>(c, f, limit, st).
     au_available st \<and> 1 \<le> limit \<and> limit \<le> MAX_PAGE_RECORDS \<and> strictly_increasing (au_records st)
     \<and> (\<forall>r \<in> set (au_records st). fits_page c r))"

lemma sequence_le_last:
  assumes "strictly_increasing (au_records st)" and "r \<in> set (au_records st)"
  shows "da_sequence r \<le> audit_last_sequence st"
proof -
  have b: "au_records st = butlast (au_records st) @ [last (au_records st)]"
    using assms(2) by (cases "au_records st = []") simp_all
  have "sorted_wrt (<) (map da_sequence (butlast (au_records st) @ [last (au_records st)]))"
    using assms(1) b by (simp add: strictly_increasing_sorted)
  then have "\<forall>s \<in> set (butlast (au_records st)). da_sequence s < da_sequence (last (au_records st))"
    by (simp add: sorted_wrt_append)
  moreover have "r \<in> set (butlast (au_records st)) \<or> r = last (au_records st)"
    using assms(2) b by (metis Un_iff empty_iff empty_set set_ConsD set_append)
  moreover have "au_records st \<noteq> []" using assms(2) by auto
  ultimately show ?thesis by (auto simp: audit_last_sequence_def last_record_def)
qed

lemma audit_query_Ok:
  assumes "au_available st" "1 \<le> limit" "limit \<le> MAX_PAGE_RECORDS"
    and "after \<le> audit_last_sequence st"
  shows "audit_query c f (Some (cursor_at after)) limit st =
    (let items = page_items c limit [] 0
        (filter (\<lambda>r. after < da_sequence r \<and> filter_matches f r) (au_records st))
     in Inr \<lparr>pg_items = items,
             pg_next_cursor = (if items = [] then None else Some (cursor_at (da_sequence (last items))))\<rparr>)"
  using assms by (simp add: audit_query_def audit_last_sequence_def cursor_at_def Let_def)

lemma source_page_items:
  assumes "source_ok (c, f, limit, st)"
    and "after = 0 \<or> (\<exists>i \<in> set (source_items (c, f, limit, st)). da_sequence i = after)"
  shows "source_page (c, f, limit, st) after =
    page_items c limit [] 0 (filter (\<lambda>r. after < da_sequence r) (source_items (c, f, limit, st)))"
proof -
  have "after \<le> audit_last_sequence st"
    using assms by (auto simp: source_ok_def source_items_def intro: sequence_le_last)
  then show ?thesis
    using assms(1)
    by (simp add: source_page_def source_ok_def source_items_def audit_query_Ok Let_def filter_filter conj_commute)
qed

interpretation audit_pages: cursor_pages source_page da_sequence source_items source_ok
proof
  fix s :: page_source and after :: nat
  obtain c f limit st where s: "s = (c, f, limit, st)" by (cases s)
  assume ok: "source_ok s"
  show "sorted_wrt (<) (map da_sequence (source_items s))"
    using ok by (simp add: s source_ok_def source_items_def strictly_increasing_sorted sorted_wrt_map sorted_wrt_filter)
  assume at: "after = 0 \<or> (\<exists>i \<in> set (source_items s). da_sequence i = after)"
  note page = source_page_items [OF ok [unfolded s] at [unfolded s], folded s]
  show "\<exists>k. source_page s after = take k (filter (\<lambda>i. after < da_sequence i) (source_items s))"
    using page_items_prefix [of c limit "[]" 0] by (simp add: page)
  assume rest: "filter (\<lambda>i. after < da_sequence i) (source_items s) \<noteq> []"
  then obtain r rs where rs: "filter (\<lambda>i. after < da_sequence i) (source_items s) = r # rs"
    by (cases "filter (\<lambda>i. after < da_sequence i) (source_items s)") auto
  then have "r \<in> set (filter (\<lambda>i. after < da_sequence i) (source_items s))" by simp
  then have "fits_page c r" using ok by (auto simp: s source_ok_def source_items_def)
  then show "source_page s after \<noteq> []" by (simp only: page rs page_items_progress) simp
qed


section \<open>Exports and manifests\<close>

lemma digest_input_eq:
  "digest_input c count fed rs =
     (count + length rs,
      fed @ (if count > 0 \<and> rs \<noteq> [] then '','' else [])
        @ json_items (map (\<lambda>r. ac_entry c (StoredRecord r)) rs))"
proof (induction rs arbitrary: count fed)
  case Nil
  then show ?case by simp
next
  case (Cons r rs)
  show ?case
    by (subst digest_input.simps, subst Cons.IH) (cases rs; simp)
qed

lemma export_items_Ok:
  "export_items c bytes records rs = Inr out \<Longrightarrow> length records \<le> MAX_EXPORT_RECORDS \<Longrightarrow>
     out = records @ rs \<and> length out \<le> MAX_EXPORT_RECORDS"
proof (induction rs arbitrary: bytes records)
  case Nil
  then show ?case by simp
next
  case (Cons r rs)
  from Cons.prems have "length records < MAX_EXPORT_RECORDS"
    by (auto simp: Let_def split: if_splits)
  with Cons.IH [of _ "records @ [r]"] Cons.prems show ?case
    by (auto simp: Let_def split: if_splits)
qed

text \<open>
  An export holds exactly the records that match its filter, at most 256 of them, and its
  manifest is the one the store gives when asked for the manifest alone: the digest fed record by
  record is the digest of the exported JSON, and what the signer signed is the canonical envelope of
  the manifest, so the signature of either can be checked against the other.
\<close>

theorem export_agrees_with_manifest:
  assumes "export_audit c f signer st = Ok x" and "au_available st"
  shows "audit_export_manifest c f signer st = Ok (ax_manifest x)
    \<and> ax_records x = filter (filter_matches f) (au_records st)
    \<and> length (ax_records x) \<le> MAX_EXPORT_RECORDS
    \<and> ax_records_json x = json_array (map (\<lambda>r. ac_entry c (StoredRecord r)) (ax_records x))
    \<and> (case signer of
         None \<Rightarrow> em_signature (ax_manifest x) = ExportUnavailable
       | Some s \<Rightarrow> \<exists>sig. sg_sign s (canonical_export_signing_envelope c (ax_manifest x)) = Inr sig
            \<and> em_signature (ax_manifest x) = ExportSigned (sg_key_id s) (hex sig))"
proof -
  let ?rs = "filter (filter_matches f) (au_records st)"
  obtain records where items: "export_items c 2 [] ?rs = Inr records"
    using assms(1) by (auto simp: export_audit_def)
  have out: "records = [] @ ?rs \<and> length records \<le> MAX_EXPORT_RECORDS"
    by (rule export_items_Ok [OF items]) simp
  have recs: "records = ?rs" using conjunct1 [OF out] by simp
  note len = conjunct2 [OF out]
  show ?thesis
    using assms items recs len [unfolded recs]
    by (cases signer)
       (auto simp: export_audit_def audit_export_manifest_def digest_input_eq json_array_def Let_def
         sign_export_def canonical_export_signing_envelope_def)
qed

section \<open>Examples\<close>

definition two_records :: "dashboard_audit_record list" where
  "two_records = [redact [] (sample_raw 1 0), redact [] (sample_raw 2 5)]"

lemma filter_default_matches [simp]: "filter_matches filter_default r"
  by (simp add: filter_matches_def filter_default_def)

lemma sample_fits_page: "s < 10 ^ 20 \<Longrightarrow> t < 10 ^ 20 \<Longrightarrow> fits_page sample_audit_codec (redact [] (sample_raw s t))"
  using sample_record_size [of s t]
  by (simp add: fits_page_def AUDIT_MAX_PAGE_BYTES_def sample_audit_codec_def)


definition sample_signer :: audit_signer where
  "sample_signer = \<lparr>sg_key_id = ''key-1'', sg_sign = (\<lambda>bytes. Ok (take 4 bytes))\<rparr>"

theorem export_agrees_with_manifest_witness:
  "\<exists>x. export_audit sample_audit_codec filter_default (Some sample_signer) (sample_audit_store one_record) = Ok x
     \<and> audit_export_manifest sample_audit_codec filter_default (Some sample_signer)
         (sample_audit_store one_record) = Ok (ax_manifest x)
     \<and> ax_records x = one_record"
proof -
  let ?len = "length (ac_entry sample_audit_codec (StoredRecord (redact [] (sample_raw 1 0))))"
  have "?len \<le> 200" using sample_record_size [of 1 0] by simp
  then have "export_items sample_audit_codec 2 [] one_record = Inr one_record"
    by (simp add: one_record_def MAX_EXPORT_RECORDS_def MAX_EXPORT_BYTES_def sat_add64_def Let_def)
  then obtain x where x: "export_audit sample_audit_codec filter_default (Some sample_signer)
      (sample_audit_store one_record) = Ok x"
    by (simp add: export_audit_def sign_export_def sample_signer_def Let_def)
  from export_agrees_with_manifest [OF x] x show ?thesis by simp
qed

end
