(* ===== verification/AuditRetention.thy ===== *)
theory AuditRetention
  imports AuditQueries
begin

text \<open>
  Removing records from the audit log (\<open>dashboard/audit.rs\<close>): deletion by filter, which rewrites the
  whole log into new segments, and retention, which seals the current segment, rewrites the segments
  that hold expired records and leaves a tombstone. As in the code, a failure part way leaves the
  segments already written on disk.
\<close>

section \<open>Deletion\<close>

fun write_entries ::
    "audit_codec \<Rightarrow> u64 \<Rightarrow> stored_entry list \<Rightarrow> u64 \<Rightarrow> u64 list \<Rightarrow> audit_disk
     \<Rightarrow> (audit_error + u64 \<times> u64 list) \<times> audit_disk" where
  "write_entries c max_bytes [] n active d = (Ok (n, active), d)"
| "write_entries c max_bytes (e # es) n active d =
     (let payload = ac_entry c e in
      case frame_len payload of
        Inl err \<Rightarrow> (Err err, d)
      | Inr len \<Rightarrow>
          (if len > max_bytes then (Err AeFrameTooLarge, d)
           else case segment_len d n of
             Inl err \<Rightarrow> (Err err, d)
           | Inr used \<Rightarrow>
               (if sat_add64 used len > max_bytes
                then (let n1 = sat_add64 n 1 in
                      case create_segment n1 d of
                        Inl err \<Rightarrow> (Err err, d)
                      | Inr d1 \<Rightarrow>
                          (case append_frame c n1 payload d1 of
                             Inl err \<Rightarrow> (Err err, d1)
                           | Inr d2 \<Rightarrow> write_entries c max_bytes es n1 (active @ [n1]) d2))
                else (case append_frame c n payload d of
                        Inl err \<Rightarrow> (Err err, d)
                      | Inr d1 \<Rightarrow> write_entries c max_bytes es n active d1))))"

definition deletion_record :: "u64 \<Rightarrow> u64 \<Rightarrow> dashboard_audit_record" where
  "deletion_record sequence now_ms =
     \<lparr>da_sequence = sequence, da_occurred_at_ms = now_ms, da_activity_id = None,
      da_principal_id = ''local-user'', da_source_host_id = ''local-host'',
      da_target_host_id = ''local-host'', da_device_id = None, da_operation = ''audit-delete'',
      da_resources = [], da_decision = Allow, da_result = AuditDeleted,
      da_redacted_message = Some \<lparr>dm_code = Redacted, dm_params = []\<rparr>\<rparr>"

definition next_sequence :: "audit_store \<Rightarrow> u64" where
  "next_sequence st = (case last_record st of None \<Rightarrow> 1 | Some r \<Rightarrow> sat_add64 (da_sequence r) 1)"

definition remove_existing :: "u64 list \<Rightarrow> audit_disk \<Rightarrow> audit_disk" where
  "remove_existing ns d = fold (\<lambda>n d. if seg_exists d n then remove_segment n d else d) ns d"

text \<open>\<open>write_index\<close> does not fail in the model, so the branch that rolls the store back is absent.\<close>

definition audit_delete ::
    "audit_codec \<Rightarrow> audit_filter \<Rightarrow> u64 \<Rightarrow> audit_disk \<times> audit_store
     \<Rightarrow> (audit_error + nat) \<times> audit_disk \<times> audit_store" where
  "audit_delete c f now_ms = (\<lambda>(d, st).
     (if \<not> au_available st then (Err AeAuditUnavailable, d, st)
      else
        (let deleted = length (filter (filter_matches f) (au_records st)) in
         if deleted = 0 then (Ok 0, d, st)
         else if next_sequence st = u64_max
                 \<and> is_some_and (\<lambda>r. da_sequence r = u64_max) (last_record st)
         then (Err AeInvalidSequence, d, st)
         else
           (let retained = filter (\<lambda>r. \<not> filter_matches f r) (au_records st)
                  @ [deletion_record (next_sequence st) now_ms];
                first = sat_add64 (max_number d) 1
            in case create_segment first d of
                 Inl e \<Rightarrow> (Err e, d, st)
               | Inr d1 \<Rightarrow>
                   (case write_entries c (au_max_segment_bytes st)
                           (map StoredRecord retained @ map StoredTombstone (au_tombstones st))
                           first [first] d1 of
                      (Inl e, d2) \<Rightarrow> (Err e, d2, st)
                    | (Inr (n, active), d2) \<Rightarrow>
                        (let st2 = st\<lparr>au_records := retained, au_current := n,
                                     au_current_day := Some (now_ms div DAY_MS),
                                     au_active_segments := active\<rparr>;
                             d3 = write_audit_index c st2 d2
                         in (Ok deleted, remove_existing (au_active_segments st) d3, st2)))))))"

section \<open>Retention\<close>

datatype retention_fault = NoFault | BeforeIndexSwap | AfterIndexSwap

text \<open>\<open>format!("segment-{number:020}.audit")\<close>.\<close>

definition segment_id :: "u64 \<Rightarrow> string" where
  "segment_id n =
     ''segment-'' @ replicate (20 - length (show_nat n)) (CHR ''0'') @ show_nat n @ ''.audit''"

fun append_all :: "audit_codec \<Rightarrow> u64 \<Rightarrow> u64 \<Rightarrow> stored_entry list \<Rightarrow> audit_disk
     \<Rightarrow> (audit_error + unit) \<times> audit_disk" where
  "append_all c max_bytes n [] d = (Ok (), d)"
| "append_all c max_bytes n (e # es) d =
     (case frame_len (ac_entry c e) of
        Inl err \<Rightarrow> (Err err, d)
      | Inr len \<Rightarrow>
          (if len > max_bytes then (Err AeFrameTooLarge, d)
           else (case append_frame c n (ac_entry c e) d of
                   Inl err \<Rightarrow> (Err err, d)
                 | Inr d1 \<Rightarrow> append_all c max_bytes n es d1)))"

text \<open>What the loop over the sealed segments has collected so far.\<close>

record compaction =
  cm_next_number :: u64
  cm_new_active :: "u64 list"
  cm_originals :: "(u64 \<times> segment_summary) list"
  cm_replacements :: "segment_summary list"
  cm_deleted :: "dashboard_audit_record list"

definition segment_summary_of :: "audit_codec \<Rightarrow> u64 \<Rightarrow> string \<Rightarrow> segment_summary" where
  "segment_summary_of c n bytes = \<lparr>ss_id = segment_id n, ss_sha256 = hex (ac_digest c bytes)\<rparr>"

definition expired :: "u64 \<Rightarrow> dashboard_audit_record \<Rightarrow> bool" where
  "expired cutoff r = (da_occurred_at_ms r < cutoff)"

definition retained_entries :: "u64 \<Rightarrow> stored_entry list \<Rightarrow> stored_entry list" where
  "retained_entries cutoff es =
     map StoredRecord (filter (\<lambda>r. \<not> expired cutoff r) (entry_records es))
     @ map StoredTombstone (entry_tombstones es)"

definition compact_segment ::
    "audit_codec \<Rightarrow> u64 \<Rightarrow> u64 \<Rightarrow> u64 \<Rightarrow> audit_disk \<times> compaction
     \<Rightarrow> (audit_error + unit) \<times> audit_disk \<times> compaction" where
  "compact_segment c cutoff max_bytes n = (\<lambda>(d, k).
     (case hm_get (ad_segments d) n of
        None \<Rightarrow> (Err (AeIo ''not_found''), d, k)
      | Some bytes \<Rightarrow>
          (case read_frames (ac_digest c) (ac_read_entry c) False bytes of
             (_, _, Inl e) \<Rightarrow> (Err e, d, k)
           | (es, _, Inr _) \<Rightarrow>
               (if \<not> list_ex (expired cutoff) (entry_records es)
                then (Ok (), d, k\<lparr>cm_new_active := cm_new_active k @ [n]\<rparr>)
                else
                  (let k1 = k\<lparr>cm_originals := cm_originals k @ [(n, segment_summary_of c n bytes)],
                              cm_deleted := cm_deleted k @ filter (expired cutoff) (entry_records es)\<rparr>;
                       retained = retained_entries cutoff es;
                       m = cm_next_number k
                   in if retained = [] then (Ok (), d, k1)
                      else case create_segment m d of
                        Inl e \<Rightarrow> (Err e, d, k1)
                      | Inr d1 \<Rightarrow>
                          (case append_all c max_bytes m retained d1 of
                             (Inl e, d2) \<Rightarrow> (Err e, d2, k1)
                           | (Inr _, d2) \<Rightarrow>
                               (Ok (), d2,
                                k1\<lparr>cm_replacements := cm_replacements k1
                                     @ [segment_summary_of c m (the (hm_get (ad_segments d2) m))],
                                   cm_new_active := cm_new_active k1 @ [m],
                                   cm_next_number := wrap_add64 m 1\<rparr>)))))))"

fun compact_segments ::
    "audit_codec \<Rightarrow> u64 \<Rightarrow> u64 \<Rightarrow> u64 list \<Rightarrow> audit_disk \<times> compaction
     \<Rightarrow> (audit_error + unit) \<times> audit_disk \<times> compaction" where
  "compact_segments c cutoff max_bytes [] s = (Ok (), s)"
| "compact_segments c cutoff max_bytes (n # ns) s =
     (case compact_segment c cutoff max_bytes n s of
        (Inl e, s1) \<Rightarrow> (Err e, s1)
      | (Inr _, s1) \<Rightarrow> compact_segments c cutoff max_bytes ns s1)"

definition min_list :: "nat list \<Rightarrow> nat" where
  "min_list xs = (case xs of [] \<Rightarrow> 0 | x # ys \<Rightarrow> fold min ys x)"

definition max_list :: "nat list \<Rightarrow> nat" where
  "max_list xs = fold max xs 0"

definition tombstone_of :: "compaction \<Rightarrow> retention_tombstone" where
  "tombstone_of k =
     \<lparr>rt_deleted_record_count = length (cm_deleted k),
      rt_first_occurred_at_ms = min_list (map da_occurred_at_ms (cm_deleted k)),
      rt_last_occurred_at_ms = max_list (map da_occurred_at_ms (cm_deleted k)),
      rt_segments = map snd (cm_originals k), rt_replacement_segments = cm_replacements k\<rparr>"

definition retention_cutoff :: "retention_policy \<Rightarrow> u64 \<Rightarrow> u64" where
  "retention_cutoff days now_ms = now_ms - days * DAY_MS"

text \<open>
  The second half of \<open>compact_retention\<close>: the tombstone is written and read back, the index
  swapped, the replaced originals removed and the records read again. The number of an original is
  read back from its id in the code; here it is kept beside it.
\<close>

definition swap_compacted ::
    "audit_codec \<Rightarrow> retention_fault \<Rightarrow> compaction \<Rightarrow> audit_disk \<times> audit_store
     \<Rightarrow> (audit_error + unit) \<times> audit_disk \<times> audit_store" where
  "swap_compacted c fault k = (\<lambda>(d, st).
     (let summary = tombstone_of k;
          payload = ac_entry c (StoredTombstone summary);
          n = cm_next_number k
      in case frame_len payload of
           Inl e \<Rightarrow> (Err e, d, st)
         | Inr len \<Rightarrow>
             (if len > au_max_segment_bytes st \<or> len > AUDIT_MAX_SEGMENT_BYTES
              then (Err AeFrameTooLarge, d, st)
              else case create_segment n d of
                Inl e \<Rightarrow> (Err e, d, st)
              | Inr d1 \<Rightarrow>
                  (case append_frame c n payload d1 of
                     Inl e \<Rightarrow> (Err e, d1, st)
                   | Inr d2 \<Rightarrow>
                       (let st1 = st\<lparr>au_tombstones := au_tombstones st @ [summary]\<rparr> in
                        case read_frames (ac_digest c) (ac_read_entry c) False
                               (the (hm_get (ad_segments d2) n)) of
                          (_, _, Inl e) \<Rightarrow> (Err e, d2, st1)
                        | (es, _, Inr _) \<Rightarrow>
                            (if entry_tombstones es = [] \<or> last (entry_tombstones es) \<noteq> summary
                             then (Err AeCommittedCorruption, d2, st1)
                             else if fault = BeforeIndexSwap then (Err AeInjectedCrash, d2, st1)
                             else
                               (let active = cm_new_active k @ [n, au_current st];
                                    st2 = st1\<lparr>au_active_segments := active, au_current_day := None\<rparr>;
                                    d3 = write_audit_index c st2 d2
                                in if fault = AfterIndexSwap then (Err AeInjectedCrash, d3, st2)
                                   else
                                     (let d4 = fold remove_segment (map fst (cm_originals k)) d3 in
                                      case read_active c (AeIo ''not_found'') None active d4 of
                                        (es2, _, r) \<Rightarrow>
                                          (let st3 = st2\<lparr>au_records := entry_records es2,
                                                         au_tombstones := entry_tombstones es2\<rparr>
                                           in case r of
                                                Inl e \<Rightarrow> (Err e, d4, st3)
                                              | Inr _ \<Rightarrow> (Ok (), d4, st3))))))))))"

definition compact_retention ::
    "audit_codec \<Rightarrow> u64 \<Rightarrow> retention_fault \<Rightarrow> audit_disk \<times> audit_store
     \<Rightarrow> (audit_error + unit) \<times> audit_disk \<times> audit_store" where
  "compact_retention c now_ms fault = (\<lambda>(d, st).
     (let cutoff = retention_cutoff (au_retention st) now_ms in
      if \<not> list_ex (expired cutoff) (au_records st) then (Ok (), d, st)
      else case rotate_segment c (d, st) of
        (Inl e, s1) \<Rightarrow> (Err e, s1)
      | (Inr _, d1, st1) \<Rightarrow>
          (let candidates = filter (\<lambda>n. n \<noteq> au_current st1) (au_active_segments st1);
               k = \<lparr>cm_next_number = wrap_add64 (max_number d1) 1, cm_new_active = [],
                    cm_originals = [], cm_replacements = [], cm_deleted = []\<rparr>
           in case compact_segments c cutoff (au_max_segment_bytes st1) candidates (d1, k) of
                (Inl e, d2, _) \<Rightarrow> (Err e, d2, st1)
              | (Inr _, d2, k2) \<Rightarrow> swap_compacted c fault k2 (d2, st1))))"

definition enforce_retention ::
    "audit_codec \<Rightarrow> u64 \<Rightarrow> audit_disk \<times> audit_store
     \<Rightarrow> (audit_error + unit) \<times> audit_disk \<times> audit_store" where
  "enforce_retention c now_ms s =
     (case compact_retention c now_ms NoFault s of
        (Inl e, d, st) \<Rightarrow> (Err e, d, st\<lparr>au_available := False\<rparr>)
      | (Inr _, d, st) \<Rightarrow> (Ok (), d, st))"

definition enforce_retention_with_fault ::
    "audit_codec \<Rightarrow> u64 \<Rightarrow> retention_fault \<Rightarrow> audit_disk \<times> audit_store
     \<Rightarrow> (audit_error + unit) \<times> audit_disk \<times> audit_store" where
  "enforce_retention_with_fault c now_ms fault s = compact_retention c now_ms fault s"

section \<open>What compaction keeps\<close>

lemma fold_max_eq:
  assumes "\<forall>x \<in> set xs. x \<le> m" and "m \<in> set xs"
  shows "fold max xs 0 = (m :: nat)"
proof -
  have "fold max xs 0 < Suc m" using assms(1) by (intro fold_max_less) auto
  moreover have "m \<le> fold max xs 0" using assms(2) by (intro fold_max_ge) simp
  ultimately show ?thesis by simp
qed

lemma max_number_eq:
  "(\<And>n. seg_exists d n \<Longrightarrow> n \<le> m) \<Longrightarrow> seg_exists d m \<Longrightarrow> max_number d = m"
  unfolding max_number_def by (rule fold_max_eq) (auto simp: segment_numbers_iff)

lemma in_entry_tombstones: "t \<in> set (entry_tombstones es) \<longleftrightarrow> StoredTombstone t \<in> set es"
  by (induction es rule: entry_tombstones.induct) auto

lemma retained_entries_simps [simp]:
  "entry_records (retained_entries cutoff es) = filter (\<lambda>r. \<not> expired cutoff r) (entry_records es)"
  "entry_tombstones (retained_entries cutoff es) = entry_tombstones es"
  by (simp_all add: retained_entries_def)

lemma retained_fits: "list_all (fits c) es \<Longrightarrow> list_all (fits c) (retained_entries cutoff es)"
  by (auto simp: retained_entries_def list_all_iff in_entry_records in_entry_tombstones)

lemma hm_insert_twice: "hm_insert k x (hm_insert k y m) = hm_insert k x m"
  by (induction m) (auto simp: hm_insert_def)

lemma append_all_spec:
  assumes "hm_get (ad_segments d) n = Some b" and "list_all (fits c) es"
  shows "append_all c max_bytes n es d = (Inr (), put_segment n (b @ enc_frames c es) d)
    \<or> (\<exists>d'. append_all c max_bytes n es d = (Inl AeFrameTooLarge, d'))"
  using assms
proof (induction es arbitrary: b d)
  case Nil
  then show ?case by (simp add: put_segment_same)
next
  case (Cons e es)
  have len: "frame_len (ac_entry c e) = Inr (length (ac_entry c e) + 36)"
    using fits_u32 [of entry_valid "ac_entry c" e] Cons.prems(2)
    by (simp add: frame_len_def HASH_BYTES_def)
  let ?b = "b @ frame_bytes (ac_digest c) (ac_entry c e)"
  have put2: "put_segment n x (put_segment n y d) = put_segment n x d" for x y
    by (simp add: put_segment_def hm_insert_twice)
  show ?case
    using Cons.IH [of "put_segment n ?b d" ?b] Cons.prems put2
    by (auto simp: len append_frame_def)
qed

text \<open>
  The loop invariant of compaction: \<open>d0\<close> is the disk it started with, \<open>m\<close> the first new number,
  \<open>finished\<close> the segments it has passed, whose entries \<open>f\<close> gives.
\<close>

definition compacting ::
    "audit_codec \<Rightarrow> u64 \<Rightarrow> (u64 \<Rightarrow> stored_entry list) \<Rightarrow> u64 \<Rightarrow> audit_disk \<Rightarrow> u64 list
     \<Rightarrow> audit_disk \<Rightarrow> compaction \<Rightarrow> (u64 \<Rightarrow> stored_entry list) \<Rightarrow> bool" where
  "compacting c cutoff f m d0 finished d k g \<longleftrightarrow>
     (\<forall>n < m. hm_get (ad_segments d) n = hm_get (ad_segments d0) n)
     \<and> (\<forall>n. seg_exists d n \<longrightarrow> n < cm_next_number k)
     \<and> {m..<cm_next_number k} \<subseteq> set (cm_new_active k)
     \<and> m \<le> cm_next_number k \<and> cm_next_number k \<le> m + length finished
     \<and> distinct (cm_new_active k) \<and> set (cm_new_active k) \<subseteq> set finished \<union> {m..<cm_next_number k}
     \<and> fst ` set (cm_originals k) \<subseteq> set finished - set (cm_new_active k)
     \<and> on_disk c d (cm_new_active k) g
     \<and> entry_records (concat (map g (cm_new_active k)))
         = filter (\<lambda>r. \<not> expired cutoff r) (entry_records (concat (map f finished)))
     \<and> entry_tombstones (concat (map g (cm_new_active k))) = entry_tombstones (concat (map f finished))
     \<and> cm_deleted k = filter (expired cutoff) (entry_records (concat (map f finished)))
     \<and> ad_locked d = ad_locked d0"

lemma compacting_kept:
  assumes "compacting c cutoff f m d0 finished d k g" and "n \<notin> set finished" "n < m"
    and "hm_get (ad_segments d0) n = Some (enc_frames c (f n))" and "list_all (fits c) (f n)"
    and "\<not> list_ex (expired cutoff) (entry_records (f n))"
  shows "compacting c cutoff f m d0 (finished @ [n]) d (k\<lparr>cm_new_active := cm_new_active k @ [n]\<rparr>)
    (g(n := f n))"
proof -
  have i: "set (cm_new_active k) \<subseteq> set finished \<union> {m..<cm_next_number k}"
    "hm_get (ad_segments d) n = hm_get (ad_segments d0) n"
    "on_disk c d (cm_new_active k) g"
    using assms(1,3) by (auto simp: compacting_def)
  have nin: "n \<notin> set (cm_new_active k)" using i(1) assms(2,3) by auto
  have m: "map (g(n := f n)) (cm_new_active k) = map g (cm_new_active k)" using nin by simp
  have od: "on_disk c d (cm_new_active k @ [n]) (g(n := f n))"
    using i nin assms(4,5) by (auto simp: on_disk_def)
  have all: "filter (\<lambda>r. \<not> expired cutoff r) (entry_records (f n)) = entry_records (f n)"
    "filter (expired cutoff) (entry_records (f n)) = []"
    using assms(6) by (auto simp: list_ex_iff filter_id_conv filter_empty_conv)
  show ?thesis
    using assms(1,2) nin od m all unfolding compacting_def by (auto simp: le_SucI)
qed

lemma compacting_dropped:
  assumes "compacting c cutoff f m d0 finished d k g" and "n \<notin> set finished" "n < m"
    and "retained_entries cutoff (f n) = []"
    and "cm_new_active k' = cm_new_active k" "cm_next_number k' = cm_next_number k"
    and "cm_originals k' = cm_originals k @ [(n, s)]"
    and "cm_deleted k' = cm_deleted k @ filter (expired cutoff) (entry_records (f n))"
  shows "compacting c cutoff f m d0 (finished @ [n]) d k' g"
proof -
  have "set (cm_new_active k) \<subseteq> set finished \<union> {m..<cm_next_number k}"
    using assms(1) by (auto simp: compacting_def)
  then have nin: "n \<notin> set (cm_new_active k)" using assms(2,3) by auto
  have none: "filter (\<lambda>r. \<not> expired cutoff r) (entry_records (f n)) = []"
    "entry_tombstones (f n) = []"
    using assms(4) by (metis entry_records.simps(1) retained_entries_simps(1))
      (metis assms(4) entry_tombstones.simps(1) retained_entries_simps(2))
  show ?thesis
    using assms(1,2) nin none unfolding compacting_def assms(5-8) by (auto simp: le_SucI)
qed

lemma compacting_replaced:
  assumes "compacting c cutoff f m d0 finished d k g" and "n \<notin> set finished" "n < m"
    and "list_all (fits c) (f n)"
    and "cm_new_active k' = cm_new_active k @ [cm_next_number k]"
    and "cm_next_number k' = Suc (cm_next_number k)"
    and "cm_originals k' = cm_originals k @ [(n, s)]"
    and "cm_deleted k' = cm_deleted k @ filter (expired cutoff) (entry_records (f n))"
    and "\<forall>x \<in> set finished. x < m"
  shows "compacting c cutoff f m d0 (finished @ [n])
    (put_segment (cm_next_number k) (enc_frames c (retained_entries cutoff (f n))) d) k'
    (g(cm_next_number k := retained_entries cutoff (f n)))"
proof -
  let ?m = "cm_next_number k"
  let ?g = "g(?m := retained_entries cutoff (f n))"
  have i: "set (cm_new_active k) \<subseteq> set finished \<union> {m..<?m}" "m \<le> ?m"
    "on_disk c d (cm_new_active k) g"
    using assms(1) by (auto simp: compacting_def)
  have nin: "n \<notin> set (cm_new_active k)" using i(1) assms(2,3) by auto
  have fin: "?m \<notin> set finished" using assms(9) i(2) leD by blast
  then have min: "?m \<notin> set (cm_new_active k)" "?m \<notin> set finished" "?m \<noteq> n"
    using i(1,2) assms(3) by auto
  have m: "map ?g (cm_new_active k) = map g (cm_new_active k)" using min by simp
  have od: "on_disk c (put_segment ?m (enc_frames c (retained_entries cutoff (f n))) d)
      (cm_new_active k @ [?m]) ?g"
    using i(3) min retained_fits [OF assms(4), of cutoff] by (auto simp: on_disk_def)
  have ex: "seg_exists (put_segment ?m b d) x \<longleftrightarrow> x = ?m \<or> seg_exists d x" for b x
    by (auto simp: seg_exists_def hm_has_def)
  show ?thesis
    using assms(1,2) nin min od m i(2) unfolding compacting_def assms(5-8)
    by (auto simp: ex less_Suc_eq le_SucI)
qed

lemma compact_segment_step:
  assumes "codec_ok c" and "compacting c cutoff f m d0 finished d k g"
    and "n \<notin> set finished" "n < m" "\<forall>x \<in> set finished. x < m"
    and "hm_get (ad_segments d0) n = Some (enc_frames c (f n))" and "list_all (fits c) (f n)"
    and "cm_next_number k < u64_max"
  shows "(\<exists>d' k' g'. compact_segment c cutoff max_bytes n (d, k) = (Inr (), d', k')
        \<and> compacting c cutoff f m d0 (finished @ [n]) d' k' g')
    \<or> (\<exists>s'. compact_segment c cutoff max_bytes n (d, k) = (Inl AeFrameTooLarge, s'))"
proof -
  have i: "hm_get (ad_segments d) n = Some (enc_frames c (f n))"
    and free: "\<not> seg_exists d (cm_next_number k)"
    using assms(2,4,6) by (auto simp: compacting_def)
  note read = read_frames_whole [OF codec_okD(1) [OF assms(1)] assms(7)]
  let ?k1 = "k\<lparr>cm_originals := cm_originals k @ [(n, segment_summary_of c n (enc_frames c (f n)))],
               cm_deleted := cm_deleted k @ filter (expired cutoff) (entry_records (f n))\<rparr>"
  let ?m = "cm_next_number k" and ?es = "retained_entries cutoff (f n)"
  consider "\<not> list_ex (expired cutoff) (entry_records (f n))"
    | "list_ex (expired cutoff) (entry_records (f n))" "?es = []"
    | "list_ex (expired cutoff) (entry_records (f n))" "?es \<noteq> []" by blast
  then show ?thesis
  proof cases
    case 1
    then have "compact_segment c cutoff max_bytes n (d, k)
        = (Inr (), d, k\<lparr>cm_new_active := cm_new_active k @ [n]\<rparr>)"
      by (simp add: compact_segment_def i read)
    then show ?thesis using compacting_kept [OF assms(2-4,6,7) 1] by blast
  next
    case 2
    then have "compact_segment c cutoff max_bytes n (d, k) = (Inr (), d, ?k1)"
      by (simp add: compact_segment_def i read Let_def)
    moreover have "compacting c cutoff f m d0 (finished @ [n]) d ?k1 g"
      by (rule compacting_dropped [OF assms(2-4) 2(2)]) simp_all
    ultimately show ?thesis by blast
  next
    case 3
    have get: "hm_get (ad_segments (put_segment ?m [] d)) ?m = Some []" by simp
    have put2: "put_segment ?m x (put_segment ?m y d) = put_segment ?m x d" for x y
      by (simp add: put_segment_def hm_insert_twice)
    from append_all_spec [OF get retained_fits [OF assms(7), of cutoff], of max_bytes]
    show ?thesis
    proof (elim disjE exE)
      assume a: "append_all c max_bytes ?m ?es (put_segment ?m [] d)
        = (Inr (), put_segment ?m ([] @ enc_frames c ?es) (put_segment ?m [] d))"
      let ?k2 = "?k1\<lparr>cm_replacements := cm_replacements k @ [segment_summary_of c ?m (enc_frames c ?es)],
        cm_new_active := cm_new_active k @ [?m], cm_next_number := Suc ?m\<rparr>"
      have "compact_segment c cutoff max_bytes n (d, k) = (Inr (), put_segment ?m (enc_frames c ?es) d, ?k2)"
        using 3 a assms(8) free
        by (simp add: compact_segment_def i read Let_def create_segment_def put2 wrap_add64_exact)
      moreover have "compacting c cutoff f m d0 (finished @ [n])
          (put_segment ?m (enc_frames c ?es) d) ?k2 (g(?m := ?es))"
        by (rule compacting_replaced [OF assms(2-4,7)]) (use assms(5) in simp_all)
      ultimately show ?thesis by blast
    next
      fix d'
      assume "append_all c max_bytes ?m ?es (put_segment ?m [] d) = (Inl AeFrameTooLarge, d')"
      then have "compact_segment c cutoff max_bytes n (d, k) = (Inl AeFrameTooLarge, d', ?k1)"
        using 3 free by (simp add: compact_segment_def i read Let_def create_segment_def)
      then show ?thesis by blast
    qed
  qed
qed

lemma compact_segments_all:
  assumes "codec_ok c" and "compacting c cutoff f m d0 finished d k g"
    and "distinct (finished @ ns)" "\<forall>x \<in> set (finished @ ns). x < m"
    and "on_disk c d0 ns f" and "m + length (finished @ ns) \<le> u64_max"
  shows "(\<exists>d' k' g'. compact_segments c cutoff max_bytes ns (d, k) = (Inr (), d', k')
        \<and> compacting c cutoff f m d0 (finished @ ns) d' k' g')
    \<or> (\<exists>s'. compact_segments c cutoff max_bytes ns (d, k) = (Inl AeFrameTooLarge, s'))"
  using assms(2-6)
proof (induction ns arbitrary: finished d k g)
  case Nil
  then show ?case by auto
next
  case (Cons n ns)
  have "cm_next_number k < u64_max"
    using Cons.prems(1,5) by (simp add: compacting_def)
  then have "(\<exists>d' k' g'. compact_segment c cutoff max_bytes n (d, k) = (Inr (), d', k')
        \<and> compacting c cutoff f m d0 (finished @ [n]) d' k' g')
    \<or> (\<exists>s'. compact_segment c cutoff max_bytes n (d, k) = (Inl AeFrameTooLarge, s'))"
    using Cons.prems by (intro compact_segment_step [OF assms(1)]) (auto simp: on_disk_Cons)
  then show ?case
  proof (elim disjE exE conjE)
    fix d' k' g'
    assume step: "compact_segment c cutoff max_bytes n (d, k) = (Inr (), d', k')"
      and inv: "compacting c cutoff f m d0 (finished @ [n]) d' k' g'"
    have "on_disk c d0 ns f" using Cons.prems(4) by (simp add: on_disk_Cons)
    then show ?case
      using Cons.IH [OF inv] Cons.prems(2,3,5) step by auto
  next
    fix s'
    assume "compact_segment c cutoff max_bytes n (d, k) = (Inl AeFrameTooLarge, s')"
    then show ?case by (cases s') simp
  qed
qed

text \<open>What compaction leaves of the store besides its records.\<close>

definition same_settings :: "audit_store \<Rightarrow> audit_store \<Rightarrow> bool" where
  "same_settings st st' \<longleftrightarrow> au_available st' = au_available st \<and> au_redactor st' = au_redactor st
     \<and> au_retention st' = au_retention st \<and> au_max_segment_bytes st' = au_max_segment_bytes st"

lemma swap_compacted_spec:
  assumes "codec_ok c" and "compacting c cutoff f m d0 finished d k g"
    and "\<forall>x \<in> set finished. x < m" "au_current st < m" "au_current st \<notin> set finished"
    and "au_current st \<noteq> 0" and "hm_get (ad_segments d0) (au_current st) = Some []"
    and "0 < au_max_segment_bytes st" "au_max_segment_bytes st \<le> AUDIT_MAX_SEGMENT_BYTES"
    and "strictly_increasing (filter (\<lambda>r. \<not> expired cutoff r) (entry_records (concat (map f finished))))"
  shows "(\<exists>d' st'. swap_compacted c NoFault k (d, st) = (Inr (), d', st') \<and> audit_inv c d' st'
      \<and> au_records st' = filter (\<lambda>r. \<not> expired cutoff r) (entry_records (concat (map f finished)))
      \<and> au_tombstones st' = entry_tombstones (concat (map f finished)) @ [tombstone_of k]
      \<and> seg_exists d' m \<and> au_current st' = au_current st \<and> m \<in> set (au_active_segments st')
      \<and> same_settings st st')
    \<or> (\<exists>s'. swap_compacted c NoFault k (d, st) = (Inl AeFrameTooLarge, s')
      \<and> au_max_segment_bytes st < length (ac_entry c (StoredTombstone (tombstone_of k))) + 36)"
proof -
  let ?n = "cm_next_number k" and ?t = "tombstone_of k" and ?cur = "au_current st"
  let ?p = "ac_entry c (StoredTombstone ?t)"
  let ?frame = "frame_bytes (ac_digest c) ?p"
  show ?thesis
  proof (cases "length ?p + 36 \<le> au_max_segment_bytes st")
    case False
    show ?thesis
    proof (cases "frame_len ?p")
      case (Inl e)
      then have "e = AeFrameTooLarge" by (auto simp: frame_len_def split: if_splits)
      then show ?thesis using Inl False by (simp add: swap_compacted_def Let_def)
    next
      case (Inr len)
      then have "len = length ?p + 36" by (simp add: frame_len_Ok)
      then show ?thesis using Inr False by (simp add: swap_compacted_def Let_def)
    qed
  next
    case True
    have fit: "fits c (StoredTombstone ?t)" using True assms(9) by (simp add: entry_fits_def)
    have len: "frame_len ?p = Inr (length ?p + 36)"
      using fits_u32 [OF fit] by (simp add: frame_len_def HASH_BYTES_def)
    have i: "\<not> seg_exists d ?n" "m \<le> ?n" "distinct (cm_new_active k)"
      "set (cm_new_active k) \<subseteq> set finished \<union> {m..<?n}"
      "fst ` set (cm_originals k) \<subseteq> set finished - set (cm_new_active k)"
      "on_disk c d (cm_new_active k) g"
      "hm_get (ad_segments d) ?cur = Some []"
      "{m..<?n} \<subseteq> set (cm_new_active k)"
      "entry_records (concat (map g (cm_new_active k)))
         = filter (\<lambda>r. \<not> expired cutoff r) (entry_records (concat (map f finished)))"
      "entry_tombstones (concat (map g (cm_new_active k))) = entry_tombstones (concat (map f finished))"
      using assms(2,4,7) by (auto simp: compacting_def)
    have n_new: "?n \<notin> set (cm_new_active k)" "?n \<notin> set finished" "?n \<noteq> ?cur" "?cur \<notin> set (cm_new_active k)"
    proof -
      show fin: "?n \<notin> set finished" using assms(3) i(2) leD by blast
      then show "?n \<notin> set (cm_new_active k)" using i(4) by auto
      show "?n \<noteq> ?cur" using i(2) assms(4) by simp
      show "?cur \<notin> set (cm_new_active k)" using i(4) assms(4,5) by auto
    qed
    have origs: "set (map fst (cm_originals k)) \<subseteq> set finished - set (cm_new_active k)"
      using i(5) by simp
    let ?active = "cm_new_active k @ [?n, ?cur]"
    let ?f = "g(?n := [StoredTombstone ?t], ?cur := [])"
    let ?d2 = "put_segment ?n ?frame d"
    let ?st2 = "st\<lparr>au_tombstones := au_tombstones st @ [?t], au_active_segments := ?active,
        au_current_day := None\<rparr>"
    obtain d4 where d4: "d4 = fold remove_segment (map fst (cm_originals k)) (write_audit_index c ?st2 ?d2)"
      by blast
    let ?es = "concat (map g (cm_new_active k)) @ [StoredTombstone ?t]"
    let ?st3 = "?st2\<lparr>au_records := entry_records ?es, au_tombstones := entry_tombstones ?es\<rparr>"
    have reread: "read_frames (ac_digest c) (ac_read_entry c) False ?frame
        = ([StoredTombstone ?t], ?frame, Inr False)"
      using read_frames_whole [OF codec_okD(1) [OF assms(1)], of "[StoredTombstone ?t]"] fit by simp
    have get: "hm_get (ad_segments d4) n =
        (if n \<in> set (map fst (cm_originals k)) then None else hm_get (ad_segments ?d2) n)" for n
      by (simp only: d4 fold_remove_segment segments_write_index)
    have keep: "n \<notin> set (map fst (cm_originals k))" if "n \<in> set ?active" for n
    proof
      assume "n \<in> set (map fst (cm_originals k))"
      then have "n \<in> set finished" "n \<notin> set (cm_new_active k)" using origs by blast+
      moreover from this that have "n = ?n \<or> n = ?cur" by simp
      ultimately show False using n_new(2) assms(5) by blast
    qed
    have "on_disk c ?d2 (cm_new_active k) ?f"
      using i(6) n_new(1,4) by (simp add: on_disk_put_other on_disk_fun_other)
    moreover have "on_disk c ?d2 [?n, ?cur] ?f"
      using i(7) fit n_new(3) by (simp add: on_disk_Cons)
    ultimately have "on_disk c ?d2 ?active ?f" by (simp add: on_disk_append)
    moreover have "hm_get (ad_segments d4) n = hm_get (ad_segments ?d2) n" if "n \<in> set ?active" for n
      by (simp only: get keep [OF that] if_False)
    ultimately have od: "on_disk c d4 ?active ?f" using on_disk_cong by blast
    have es: "concat (map ?f ?active) = ?es"
    proof -
      have "map ?f (cm_new_active k) = map g (cm_new_active k)" using n_new by simp
      then show ?thesis using n_new by simp
    qed
    have put2: "put_segment ?n x (put_segment ?n y d) = put_segment ?n x d" for x y
      by (simp add: put_segment_def hm_insert_twice)
    have rd: "read_active c (AeIo ''not_found'') None ?active d4 = (?es, d4, Inr False)"
      by (simp only: read_active_whole [OF assms(1) od] es)
    have run: "swap_compacted c NoFault k (d, st) = (Inr (), d4, ?st3)"
      using True assms(9) i(1)
      by (simp add: rd swap_compacted_def Let_def len create_segment_def append_frame_def put2 reread
          flip: d4)
    have idx: "ad_index d4 = Some (ac_index c \<lparr>ai_version = 2, ai_current = ?cur, ai_active_segments = ?active\<rparr>)"
      by (simp add: d4 fold_remove_segment)
    have recs: "entry_records ?es = filter (\<lambda>r. \<not> expired cutoff r) (entry_records (concat (map f finished)))"
      "entry_tombstones ?es = entry_tombstones (concat (map f finished)) @ [?t]"
      using i(9,10) by simp_all
    have es2: "concat (map ?f (cm_new_active k @ [?n])) @ ?f ?cur = ?es"
      using es by simp
    have "audit_inv c d4 ?st3"
      by (rule audit_invI [where ns = "cm_new_active k @ [?n]" and f = ?f])
         (use i(3) n_new od es2 assms(6,8,9) idx recs(1) assms(10) in simp_all)
    moreover have m: "m \<in> set ?active" using i(2,8) by (cases "m < ?n") auto
    moreover have "seg_exists d4 m" using od m by (auto simp: on_disk_def seg_exists_iff)
    ultimately show ?thesis using run recs
      by (intro disjI1 exI [of _ d4] exI [of _ ?st3]) (simp add: same_settings_def)
  qed
qed

text \<open>The records a store keeps when retention runs at \<open>now_ms\<close>.\<close>

definition unexpired :: "u64 \<Rightarrow> audit_store \<Rightarrow> dashboard_audit_record list" where
  "unexpired now_ms st =
     filter (\<lambda>r. \<not> expired (retention_cutoff (au_retention st) now_ms) r) (au_records st)"

definition has_expired :: "u64 \<Rightarrow> audit_store \<Rightarrow> bool" where
  "has_expired now_ms st = list_ex (expired (retention_cutoff (au_retention st) now_ms)) (au_records st)"

lemma strictly_increasing_filter: "strictly_increasing rs \<Longrightarrow> strictly_increasing (filter P rs)"
  by (simp add: strictly_increasing_sorted sorted_wrt_map sorted_wrt_filter)

lemma compact_retention_spec:
  assumes "codec_ok c" and "audit_inv c d st" and "newest_is_current d st" and "has_expired now_ms st"
    and "au_current st + length (au_active_segments st) + 3 \<le> u64_max"
  shows "(\<exists>d' st' t. compact_retention c now_ms NoFault (d, st) = (Inr (), d', st') \<and> audit_inv c d' st'
      \<and> au_records st' = unexpired now_ms st \<and> au_tombstones st' = au_tombstones st @ [t]
      \<and> rt_deleted_record_count t = length (au_records st) - length (unexpired now_ms st)
      \<and> au_current st' = Suc (au_current st) \<and> Suc (au_current st') \<in> set (au_active_segments st')
      \<and> same_settings st st')
    \<or> (\<exists>s'. compact_retention c now_ms NoFault (d, st) = (Inl AeFrameTooLarge, s'))"
proof -
  let ?s = "Suc (au_current st)" and ?cutoff = "retention_cutoff (au_retention st) now_ms"
  let ?d1 = "write_audit_index c (rotated st) (put_segment ?s [] d)"
  let ?m = "Suc ?s"
  let ?k = "\<lparr>cm_next_number = ?m, cm_new_active = [], cm_originals = [], cm_replacements = [], cm_deleted = []\<rparr>"
  have room: "au_current st < u64_max" "?s < u64_max" using assms(5) by simp_all
  have free: "\<not> seg_exists d ?s" using assms(3) by (auto simp: newest_is_current_def)
  obtain ns f where act: "au_active_segments st = ns @ [au_current st]" and dist: "distinct ns"
    and cur: "au_current st \<notin> set ns" and disk: "on_disk c d (ns @ [au_current st]) f"
    and recs: "au_records st = entry_records (concat (map f ns) @ f (au_current st))"
    and tombs: "au_tombstones st = entry_tombstones (concat (map f ns) @ f (au_current st))"
    using assms(2) by (rule audit_invE)
  let ?act = "ns @ [au_current st]"
  have le: "x \<le> au_current st" if "x \<in> set ?act" for x
    using active_exist [OF assms(2)] assms(3) that act by (simp add: newest_is_current_def)
  have new: "?s \<notin> set ?act" using le by fastforce
  have d1: "hm_get (ad_segments ?d1) n = (if n = ?s then Some [] else hm_get (ad_segments d) n)" for n
    by simp
  have ex1: "seg_exists ?d1 n \<Longrightarrow> n \<le> ?s" for n
    using assms(3) by (auto simp: seg_exists_iff newest_is_current_def le_SucI split: if_splits)
  have num: "wrap_add64 (max_number ?d1) 1 = ?m"
    using max_number_eq [of ?d1 ?s] ex1 room(2) by (simp add: seg_exists_iff wrap_add64_exact)
  have cands: "filter (\<lambda>n. n \<noteq> ?s) (?act @ [?s]) = ?act"
    using new by (auto simp: filter_id_conv)
  have start: "compacting c ?cutoff f ?m ?d1 [] ?d1 ?k f"
    using ex1 by (simp add: compacting_def less_Suc_eq_le)
  have od: "on_disk c ?d1 ?act f"
    using disk new by (subst on_disk_cong [where d = d]) (auto simp: d1)
  have dist2: "distinct ([] @ ?act)" using dist cur by simp
  have below: "\<forall>x \<in> set ([] @ ?act). x < ?m" using le by fastforce
  have fuel: "?m + length ([] @ ?act) \<le> u64_max" using assms(5) act by simp
  have run: "compact_retention c now_ms NoFault (d, st) =
      (case compact_segments c ?cutoff (au_max_segment_bytes st) ?act (?d1, ?k) of
         (Inl e, d2, _) \<Rightarrow> (Err e, d2, rotated st)
       | (Inr _, d2, k2) \<Rightarrow> swap_compacted c NoFault k2 (d2, rotated st))"
    using assms(4) num cands
    by (simp add: compact_retention_def has_expired_def Let_def rotate_Ok [OF room(1) free] act)
  have all: "entry_records (concat (map f ?act)) = au_records st"
    "entry_tombstones (concat (map f ?act)) = au_tombstones st"
    by (simp_all add: recs tombs)
  from compact_segments_all [OF assms(1) start dist2 below od fuel, of "au_max_segment_bytes st"]
  show ?thesis
  proof (elim disjE exE conjE)
    fix d2 k2 g
    assume loop: "compact_segments c ?cutoff (au_max_segment_bytes st) ?act (?d1, ?k) = (Inr (), d2, k2)"
      and inv: "compacting c ?cutoff f ?m ?d1 ([] @ ?act) d2 k2 g"
    have del: "cm_deleted k2 = filter (expired ?cutoff) (au_records st)"
      using inv by (simp add: compacting_def recs)
    have inc: "strictly_increasing (filter (\<lambda>r. \<not> expired ?cutoff r) (entry_records (concat (map f ([] @ ?act)))))"
      using audit_inv_facts(5) [OF assms(2)] all by (simp add: strictly_increasing_filter)
    have cnt: "rt_deleted_record_count (tombstone_of k2) = length (au_records st) - length (unexpired now_ms st)"
      using sum_length_filter_compl [of "expired ?cutoff" "au_records st"]
      by (simp add: tombstone_of_def del unexpired_def)
    have "(\<exists>d' st'. swap_compacted c NoFault k2 (d2, rotated st) = (Inr (), d', st') \<and> audit_inv c d' st'
        \<and> au_records st' = filter (\<lambda>r. \<not> expired ?cutoff r) (entry_records (concat (map f ([] @ ?act))))
        \<and> au_tombstones st' = entry_tombstones (concat (map f ([] @ ?act))) @ [tombstone_of k2]
        \<and> seg_exists d' ?m \<and> au_current st' = au_current (rotated st)
        \<and> ?m \<in> set (au_active_segments st') \<and> same_settings (rotated st) st')
      \<or> (\<exists>s'. swap_compacted c NoFault k2 (d2, rotated st) = (Inl AeFrameTooLarge, s')
        \<and> au_max_segment_bytes (rotated st) < length (ac_entry c (StoredTombstone (tombstone_of k2))) + 36)"
      by (rule swap_compacted_spec [OF assms(1) inv])
         (use below new inc audit_inv_facts [OF assms(2)] in \<open>simp_all add: d1\<close>)
    then show ?thesis
      using cnt loop all
      by (elim disjE exE conjE) (auto simp: run unexpired_def same_settings_def)
  next
    fix s'
    assume "compact_segments c ?cutoff (au_max_segment_bytes st) ?act (?d1, ?k) = (Inl AeFrameTooLarge, s')"
    then show ?thesis by (cases s') (simp add: run)
  qed
qed

lemma enforced:
  assumes "codec_ok c" and "audit_inv c d st" and "newest_is_current d st" and "has_expired now_ms st"
    and "au_current st + length (au_active_segments st) + 3 \<le> u64_max"
    and "enforce_retention c now_ms (d, st) = (Ok (), d', st')"
  shows "audit_inv c d' st'" "au_records st' = unexpired now_ms st"
    "au_current st' = Suc (au_current st)" "Suc (au_current st') \<in> set (au_active_segments st')"
  using compact_retention_spec [OF assms(1-5)] assms(6)
  by (auto simp: enforce_retention_def split: prod.splits)


text \<open>
  After retention has removed anything, the store cannot rotate any more: the segment after the
  current one exists already (it holds a replacement or the tombstone), also after the store is closed
  and opened again. So the first record that needs a new segment, because it is of another day than
  the last one or does not fit, is refused with an I/O error and makes the store unavailable, and so
  does the next retention that has something to remove.
\<close>

theorem retention_blocks_rotation:
  assumes "codec_ok c" and "audit_inv c d st" and "newest_is_current d st" and "has_expired now_ms st"
    and "au_current st + length (au_active_segments st) + 3 \<le> u64_max"
    and "enforce_retention c now_ms (d, st) = (Ok (), d', st')"
    and "(d2, st2) = (d', st') \<or> audit_open c ret red (au_max_segment_bytes st) (release_lock d') = (Ok st2, d2)"
  shows "rotate_segment c (d2, st2) = (Err (AeIo ''already_exists''), d2, st2)
    \<and> (accepts c raw st2 \<and> is_some_and (\<lambda>day. day \<noteq> ra_occurred_at_ms raw div DAY_MS) (au_current_day st2)
         \<longrightarrow> audit_append c raw (d2, st2)
             = (Err (AeIo ''already_exists''), d2, st2\<lparr>au_available := False\<rparr>))
    \<and> (has_expired later st2 \<longrightarrow> enforce_retention c later (d2, st2)
             = (Err (AeIo ''already_exists''), d2, st2\<lparr>au_available := False\<rparr>))"
proof -
  note kept = enforced [OF assms(1-6)]
  note inv = kept(1) and cur = kept(3) and blocked = kept(4)
  have two: "audit_inv c d2 st2 \<and> au_current st2 = au_current st' \<and> au_active_segments st2 = au_active_segments st'"
    using assms(7)
  proof
    assume "(d2, st2) = (d', st')"
    then show ?thesis using inv by simp
  next
    assume o: "audit_open c ret red (au_max_segment_bytes st) (release_lock d') = (Ok st2, d2)"
    show ?thesis
      by (rule reopen [OF assms(1) inv audit_inv_facts(2,3) [OF assms(2)], of ret red]) (use o in simp)
  qed
  have room: "au_current st2 < u64_max" using two cur assms(5) by simp
  have ex: "seg_exists d2 (Suc (au_current st2))"
    using two blocked active_exist [of c d2 st2] by simp
  note rot = rotate_blocked [OF room ex]
  have "audit_append c raw (d2, st2) = (Err (AeIo ''already_exists''), d2, st2\<lparr>au_available := False\<rparr>)"
    if a: "accepts c raw st2" "is_some_and (\<lambda>day. day \<noteq> ra_occurred_at_ms raw div DAY_MS) (au_current_day st2)"
  proof -
    obtain b where b: "hm_get (ad_segments d2) (au_current st2) = Some b"
      using active_exist [of c d2 st2 "au_current st2"] two
      by (metis audit_inv_def last_in_set seg_exists_iff)
    have day: "\<exists>day. au_current_day st2 = Some day \<and> day \<noteq> ra_occurred_at_ms raw div DAY_MS"
      using a(2) by (simp add: is_some_and_iff)
    have inner: "append_inner c (redact (au_redactor st2) raw) p len (d2, st2)
        = (Inl (AeIo ''already_exists''), d2, st2)" for p len
      using day by (auto simp: append_inner_def segment_len_def b Let_def needs_rotation_def rot)
    show ?thesis
      using two by (simp add: audit_append_accepted [OF _ a(1)] inner)
  qed
  moreover have "enforce_retention c later (d2, st2) = (Err (AeIo ''already_exists''), d2, st2\<lparr>au_available := False\<rparr>)"
    if "has_expired later st2"
    using that by (simp add: enforce_retention_def compact_retention_def has_expired_def Let_def rot)
  ultimately show ?thesis using rot by blast
qed

section \<open>What deletion keeps\<close>

definition writing ::
    "audit_codec \<Rightarrow> audit_disk \<Rightarrow> u64 \<Rightarrow> u64 \<Rightarrow> u64 list \<Rightarrow> audit_disk
     \<Rightarrow> (u64 \<Rightarrow> stored_entry list) \<Rightarrow> bool" where
  "writing c d0 first n active d f \<longleftrightarrow>
     active \<noteq> [] \<and> distinct active \<and> last active = n \<and> set active \<subseteq> {first..n} \<and> on_disk c d active f
     \<and> (\<forall>x. seg_exists d x \<longrightarrow> x \<le> n) \<and> (\<forall>x < first. hm_get (ad_segments d) x = hm_get (ad_segments d0) x)
     \<and> ad_index d = ad_index d0"

lemma writing_append:
  assumes "writing c d0 first n active d f" and "fits c e"
  shows "\<exists>d' f'. append_frame c n (ac_entry c e) d = Inr d' \<and> writing c d0 first n active d' f'
    \<and> concat (map f' active) = concat (map f active) @ [e]"
proof -
  have w: "active \<noteq> []" "distinct active" "last active = n" "set active \<subseteq> {first..n}" "on_disk c d active f"
    "\<forall>x. seg_exists d x \<longrightarrow> x \<le> n" "\<forall>x < first. hm_get (ad_segments d) x = hm_get (ad_segments d0) x"
    "ad_index d = ad_index d0"
    using assms(1) by (auto simp: writing_def)
  obtain ns where act: "active = ns @ [n]" using w(1,3) append_butlast_last_id by metis
  have nin: "n \<notin> set ns" using w(2) act by simp
  have get: "hm_get (ad_segments d) n = Some (enc_frames c (f n))" using w(5) act by (simp add: on_disk_def)
  have low: "first \<le> n" using w(4) act by auto
  let ?f = "f(n := f n @ [e])"
  let ?d = "put_segment n (enc_frames c (f n) @ frame_bytes (ac_digest c) (ac_entry c e)) d"
  have "append_frame c n (ac_entry c e) d = Inr ?d" by (simp add: append_frame_def get)
  moreover have "on_disk c ?d active ?f"
    using w(5) nin assms(2) unfolding act on_disk_append
    by (simp add: on_disk_put_other on_disk_fun_other on_disk_Cons)
  moreover have "concat (map ?f active) = concat (map f active) @ [e]"
  proof -
    show ?thesis using map_fun_upd_other [OF nin, of f] by (simp add: act del: map_eq_conv)
  qed
  moreover have "x \<le> n" if "seg_exists ?d x" for x
    using that w(6) by (auto simp: seg_exists_iff split: if_splits)
  ultimately show ?thesis
    using w low unfolding writing_def by (intro exI [of _ ?d] exI [of _ ?f]) auto
qed

lemma writing_create:
  assumes "writing c d0 first n active d f"
  shows "\<exists>d'. create_segment (Suc n) d = Inr d'
    \<and> writing c d0 first (Suc n) (active @ [Suc n]) d' (f(Suc n := []))
    \<and> concat (map (f(Suc n := [])) (active @ [Suc n])) = concat (map f active)"
proof -
  have w: "active \<noteq> []" "distinct active" "last active = n" "set active \<subseteq> {first..n}" "on_disk c d active f"
    "\<forall>x. seg_exists d x \<longrightarrow> x \<le> n" "\<forall>x < first. hm_get (ad_segments d) x = hm_get (ad_segments d0) x"
    "ad_index d = ad_index d0"
    using assms(1) by (auto simp: writing_def)
  have nin: "Suc n \<notin> set active" using w(4) by auto
  have low: "first \<le> n" using w(1,3,4) last_in_set by fastforce
  have "\<not> seg_exists d (Suc n)" using w(6) by auto
  then have "create_segment (Suc n) d = Inr (put_segment (Suc n) [] d)"
    by (simp add: create_segment_Ok)
  moreover have "on_disk c (put_segment (Suc n) [] d) (active @ [Suc n]) (f(Suc n := []))"
    unfolding on_disk_append using w(5) nin
    by (simp add: on_disk_put_other on_disk_fun_other on_disk_Cons)
  moreover have "map (f(Suc n := [])) active = map f active" using nin by simp
  moreover have "x \<le> Suc n" if "seg_exists (put_segment (Suc n) [] d) x" for x
    using that w(6) by (auto simp: seg_exists_iff le_SucI split: if_splits)
  ultimately show ?thesis
    using w low nin unfolding writing_def by (auto simp: le_SucI)
qed

lemma write_entries_spec:
  assumes "writing c d0 first n active d f" and "list_all (fits c) es" and "n + length es \<le> u64_max"
  shows "(\<exists>n' active' d' f'. write_entries c max_bytes es n active d = (Inr (n', active'), d')
        \<and> writing c d0 first n' active' d' f' \<and> concat (map f' active') = concat (map f active) @ es)
    \<or> (\<exists>d'. write_entries c max_bytes es n active d = (Inl AeFrameTooLarge, d')
        \<and> (\<forall>x < first. hm_get (ad_segments d') x = hm_get (ad_segments d0) x)
        \<and> ad_index d' = ad_index d0)"
  using assms
proof (induction es arbitrary: n active d f)
  case Nil
  then show ?case by auto
next
  case (Cons e es)
  have fit: "fits c e" and rest: "list_all (fits c) es" using Cons.prems(2) by simp_all
  have len: "frame_len (ac_entry c e) = Inr (length (ac_entry c e) + 36)"
    using fits_u32 [OF fit] by (simp add: frame_len_def HASH_BYTES_def)
  have sat: "sat_add64 n (Suc 0) = Suc n" using Cons.prems(3) by (simp add: sat_add64_exact)
  obtain b where b: "hm_get (ad_segments d) n = Some b"
    using Cons.prems(1) last_in_set by (fastforce simp: writing_def on_disk_def)
  consider "length (ac_entry c e) + 36 > max_bytes"
    | "length (ac_entry c e) + 36 \<le> max_bytes" "sat_add64 (length b) (length (ac_entry c e) + 36) > max_bytes"
    | "length (ac_entry c e) + 36 \<le> max_bytes" "sat_add64 (length b) (length (ac_entry c e) + 36) \<le> max_bytes"
    by linarith
  then show ?case
  proof cases
    case 1
    then show ?thesis using Cons.prems(1) by (simp add: len writing_def)
  next
    case 2
    obtain d1 where d1: "create_segment (Suc n) d = Inr d1"
      "writing c d0 first (Suc n) (active @ [Suc n]) d1 (f(Suc n := []))"
      "concat (map (f(Suc n := [])) (active @ [Suc n])) = concat (map f active)"
      using writing_create [OF Cons.prems(1)] by blast
    obtain d2 f2 where d2: "append_frame c (Suc n) (ac_entry c e) d1 = Inr d2"
      "writing c d0 first (Suc n) (active @ [Suc n]) d2 f2"
      "concat (map f2 (active @ [Suc n])) = concat (map f active) @ [e]"
      using writing_append [OF d1(2) fit] unfolding d1(3) by blast
    have "write_entries c max_bytes (e # es) n active d
        = write_entries c max_bytes es (Suc n) (active @ [Suc n]) d2"
      using 2 by (simp add: len segment_len_def b sat d1(1) d2(1) Let_def)
    moreover have "Suc n + length es \<le> u64_max" using Cons.prems(3) by simp
    ultimately show ?thesis
      using Cons.IH [OF d2(2) rest] unfolding d2(3) by simp
  next
    case 3
    obtain d2 f2 where d2: "append_frame c n (ac_entry c e) d = Inr d2"
      "writing c d0 first n active d2 f2" "concat (map f2 active) = concat (map f active) @ [e]"
      using writing_append [OF Cons.prems(1) fit] by blast
    have "write_entries c max_bytes (e # es) n active d = write_entries c max_bytes es n active d2"
      using 3 by (simp add: len segment_len_def b d2(1) Let_def)
    moreover have "n + length es \<le> u64_max" using Cons.prems(3) by simp
    ultimately show ?thesis
      using Cons.IH [OF d2(2) rest] unfolding d2(3) by simp
  qed
qed

lemma inv_entries_fit:
  assumes "audit_inv c d st"
  shows "r \<in> set (au_records st) \<Longrightarrow> fits c (StoredRecord r)"
    and "t \<in> set (au_tombstones st) \<Longrightarrow> fits c (StoredTombstone t)"
proof -
  obtain f where f: "on_disk c d (au_active_segments st) f"
    "au_records st = entry_records (concat (map f (au_active_segments st)))"
    "au_tombstones st = entry_tombstones (concat (map f (au_active_segments st)))"
    using assms by (auto simp: audit_inv_def)
  have all: "\<forall>e \<in> set (concat (map f (au_active_segments st))). fits c e"
    using f(1) by (auto simp: on_disk_def list_all_iff)
  show "r \<in> set (au_records st) \<Longrightarrow> fits c (StoredRecord r)"
    using all f(2) in_entry_records by metis
  show "t \<in> set (au_tombstones st) \<Longrightarrow> fits c (StoredTombstone t)"
    using all f(3) in_entry_tombstones by metis
qed

lemma get_remove_existing:
  "hm_get (ad_segments (remove_existing ns d)) m = (if m \<in> set ns then None else hm_get (ad_segments d) m)"
  "ad_index (remove_existing ns d) = ad_index d"
  unfolding remove_existing_def
  by (induction ns arbitrary: d) (auto simp: seg_remove seg_exists_iff remove_segment_def split: if_splits)

text \<open>
  Deleting by a filter removes exactly the records the filter matches, keeps the others in order
  and all tombstones, and appends a record of the deletion with a higher sequence number; memory and
  disk agree afterwards and the store can rotate again. A deletion that fails, because an entry does
  not fit a segment, leaves the store as it was.
\<close>

theorem deletion_removes_exactly_the_matches:
  assumes "codec_ok c" and "audit_inv c d st" and "newest_is_current d st" and "au_available st"
    and "au_current st + length (au_records st) + length (au_tombstones st) + 2 \<le> u64_max"
    and "\<forall>r \<in> set (au_records st). da_sequence r < u64_max"
    and "fits c (StoredRecord (deletion_record (next_sequence st) now_ms))"
    and "list_ex (filter_matches f) (au_records st)"
    and "audit_delete c f now_ms (d, st) = (res, d', st')"
  shows "case res of
      Inr n \<Rightarrow> n = length (filter (filter_matches f) (au_records st))
        \<and> au_records st' = filter (\<lambda>r. \<not> filter_matches f r) (au_records st)
             @ [deletion_record (next_sequence st) now_ms]
        \<and> au_tombstones st' = au_tombstones st
        \<and> audit_inv c d' st' \<and> newest_is_current d' st'
    | Inl e \<Rightarrow> e = AeFrameTooLarge \<and> st' = st \<and> audit_inv c d' st"
proof -
  let ?del = "deletion_record (next_sequence st) now_ms"
  let ?kept = "filter (\<lambda>r. \<not> filter_matches f r) (au_records st) @ [?del]"
  let ?es = "map StoredRecord ?kept @ map StoredTombstone (au_tombstones st)"
  let ?first = "Suc (au_current st)"
  have ne: "au_records st \<noteq> []" and matched: "filter (filter_matches f) (au_records st) \<noteq> []"
    using assms(8) by (auto simp: list_ex_iff filter_empty_conv)
  have last: "last_record st = Some (last (au_records st))" using ne by (simp add: last_record_def)
  have lastm: "da_sequence (last (au_records st)) < u64_max" using assms(6) ne by simp
  have seq: "next_sequence st = Suc (da_sequence (last (au_records st)))"
    using lastm by (simp add: next_sequence_def last sat_add64_exact)
  have act: "seg_exists d n" if "n \<in> set (au_active_segments st)" for n
    using active_exist [OF assms(2) that] .
  have "seg_exists d (au_current st)" using assms(2) act by (metis audit_inv_def last_in_set)
  then have "max_number d = au_current st"
    using assms(3) by (intro max_number_eq) (simp_all add: newest_is_current_def)
  then have first: "sat_add64 (max_number d) 1 = ?first" using assms(5) by (simp add: sat_add64_exact)
  have free: "\<not> seg_exists d ?first" using assms(3) by (auto simp: newest_is_current_def)
  let ?d1 = "put_segment ?first [] d"
  have new1: "x \<le> ?first" if "seg_exists ?d1 x" for x
    using that assms(3) by (auto simp: seg_exists_iff newest_is_current_def le_SucI split: if_splits)
  have start: "writing c d ?first ?first [?first] ?d1 (\<lambda>_. [])"
    using new1 by (auto simp: writing_def on_disk_Cons)
  have fits: "list_all (fits c) ?es"
    using inv_entries_fit [OF assms(2)] assms(7) by (auto simp: list_all_iff)
  have "length ?es \<le> length (au_records st) + 1 + length (au_tombstones st)" by simp
  then have fuel: "?first + length ?es \<le> u64_max" using assms(5) by linarith
  have inc: "strictly_increasing ?kept"
  proof -
    have "da_sequence r < da_sequence ?del" if "r \<in> set (au_records st)" for r
      using sequence_le_last [OF audit_inv_facts(5) [OF assms(2)] that]
      by (simp add: seq deletion_record_def audit_last_sequence_def last)
    then show ?thesis
      using strictly_increasing_filter [OF audit_inv_facts(5) [OF assms(2)]]
      by (auto simp: strictly_increasing_sorted sorted_wrt_append)
  qed
  have run: "audit_delete c f now_ms (d, st) =
      (case write_entries c (au_max_segment_bytes st) ?es ?first [?first] ?d1 of
         (Inl e, d2) \<Rightarrow> (Err e, d2, st)
       | (Inr (n, active), d2) \<Rightarrow>
           (let st2 = st\<lparr>au_records := ?kept, au_current := n, au_current_day := Some (now_ms div DAY_MS),
                        au_active_segments := active\<rparr>;
                d3 = write_audit_index c st2 d2
            in (Ok (length (filter (filter_matches f) (au_records st))),
                remove_existing (au_active_segments st) d3, st2)))"
  proof -
    have "\<not> is_some_and (\<lambda>r. da_sequence r = u64_max) (last_record st)" using lastm by (simp add: last)
    then show ?thesis
      unfolding audit_delete_def
      using assms(4) matched first free by (simp add: Let_def [of "length xs" for xs] Let_def [of "sat_add64 a b" for a b] Let_def [of "xs @ ys" for xs ys] create_segment_def)
  qed
  from write_entries_spec [OF start fits fuel, of "au_max_segment_bytes st"]
  show ?thesis
  proof (elim disjE exE conjE)
    fix n active d2 g
    assume w: "write_entries c (au_max_segment_bytes st) ?es ?first [?first] ?d1 = (Inr (n, active), d2)"
      "writing c d ?first n active d2 g" "concat (map g active) = concat (map (\<lambda>_. []) [?first]) @ ?es"
    let ?st2 = "st\<lparr>au_records := ?kept, au_current := n, au_current_day := Some (now_ms div DAY_MS),
                  au_active_segments := active\<rparr>"
    let ?d3 = "remove_existing (au_active_segments st) (write_audit_index c ?st2 d2)"
    have i: "active \<noteq> []" "distinct active" "last active = n" "set active \<subseteq> {?first..n}" "on_disk c d2 active g"
      "\<forall>x. seg_exists d2 x \<longrightarrow> x \<le> n"
      using w(2) by (auto simp: writing_def)
    have old: "x \<notin> set (au_active_segments st)" if "x \<in> set active" for x
      using that i(4) act assms(3) by (fastforce simp: newest_is_current_def)
    have od: "on_disk c ?d3 active g"
      using i(5) old by (subst on_disk_cong [where d = d2]) (auto simp: get_remove_existing)
    have pos: "n \<noteq> 0" using i(1,3,4) last_in_set by fastforce
    have inv: "audit_inv c ?d3 ?st2"
      unfolding audit_inv_def
      using i(1-3) od pos inc w(3) audit_inv_facts [OF assms(2)]
      by (auto simp: get_remove_existing intro!: exI [of _ g])
    have "newest_is_current ?d3 ?st2"
      using i(6) by (auto simp: newest_is_current_def seg_exists_iff get_remove_existing split: if_splits)
    with inv show ?thesis using run w(1) assms(9) by (auto simp: Let_def)
  next
    fix d2
    assume w: "write_entries c (au_max_segment_bytes st) ?es ?first [?first] ?d1 = (Inl AeFrameTooLarge, d2)"
      "\<forall>x < ?first. hm_get (ad_segments d2) x = hm_get (ad_segments d) x" "ad_index d2 = ad_index d"
    have "hm_get (ad_segments d2) x = hm_get (ad_segments d) x" if "x \<in> set (au_active_segments st)" for x
      using w(2) act [OF that] assms(3) by (simp add: newest_is_current_def le_imp_less_Suc)
    then have "audit_inv c d2 st"
      using assms(2) w(3) by (simp add: audit_inv_def on_disk_def)
    then show ?thesis using run w(1) assms(9) by auto
  qed
qed

section \<open>Examples\<close>

text \<open>One record of the first day and one of day 31; retention runs on day 31 and keeps 30 days.\<close>

definition old_and_new :: "dashboard_audit_record list" where
  "old_and_new = [redact [] (sample_raw 1 0), redact [] (sample_raw 2 2678400000)]"

lemma old_and_new_inv:
  "audit_inv sample_audit_codec (sample_audit_disk old_and_new) (sample_audit_store old_and_new)"
  by (rule sample_store_inv)
     (use sample_fits_segment [of 1 0] sample_fits_segment [of 2 2678400000]
      in \<open>simp_all add: old_and_new_def sample_raw_def\<close>)

lemma old_and_new_expired:
  "has_expired 2678400000 (sample_audit_store old_and_new)"
  "unexpired 2678400000 (sample_audit_store old_and_new) = [redact [] (sample_raw 2 2678400000)]"
  by (simp_all add: has_expired_def unexpired_def old_and_new_def expired_def retention_cutoff_def DAY_MS_def
      sample_raw_def)

lemma old_and_new_room:
  "au_current (sample_audit_store old_and_new) + length (au_active_segments (sample_audit_store old_and_new)) + 3
    \<le> u64_max"
  by (simp add: u64_max_def)

lemma length_w_list_char: "length s < 100 \<Longrightarrow> length (w_str s) \<le> length s + 3"
proof -
  assume "length s < 100"
  then have "length (show_nat (length s)) \<le> 2" using length_show_nat [of "length s" 1] by simp
  moreover have "length (concat (map w_char s)) = length s" by (induction s) (simp_all add: w_char_def)
  ultimately show ?thesis by (simp add: w_list_def w_nat_def)
qed

lemma length_hex: "length (hex b) = 2 * length b"
  by (induction b) (simp_all add: hex_def)

lemma small_retention_runs:
  assumes "fits sample_audit_codec (StoredRecord r1)" "fits sample_audit_codec (StoredRecord r2)"
    and "da_occurred_at_ms r1 = 0" "da_occurred_at_ms r2 = 2678400000"
    and "da_sequence r1 < da_sequence r2"
  shows "\<exists>d' st'. enforce_retention sample_audit_codec 2678400000
    (sample_audit_disk [r1, r2], sample_audit_store [r1, r2]) = (Inr (), d', st')"
proof -
  let ?c = sample_audit_codec and ?d = "sample_audit_disk [r1, r2]" and ?st = "sample_audit_store [r1, r2]"
  let ?k = "\<lparr>cm_next_number = 3, cm_new_active = [], cm_originals = [], cm_replacements = [], cm_deleted = []\<rparr>"
  let ?es = "[StoredRecord r1, StoredRecord r2]"
  note codec = codec_okD(1) [OF sample_audit_codec_ok]
  have g: "hm_get (ad_segments ?d) n = (if n = 1 then Some (enc_frames ?c ?es) else None)" for n
    by (simp add: sample_audit_disk_def hm_get_def)
  obtain d1 where d1: "d1 = write_audit_index ?c (rotated ?st) (put_segment 2 [] ?d)" by blast
  have g1: "hm_get (ad_segments d1) n =
      (if n = 1 then Some (enc_frames ?c ?es) else if n = 2 then Some [] else None)" for n
    by (simp add: d1 g)
  have rot: "rotate_segment ?c (?d, ?st) = (Inr (), d1, rotated ?st)"
    using rotate_Ok [of ?st ?d ?c] one_record_free [of "[r1, r2]"]
    by (simp add: u64_max_def numeral_2_eq_2 d1)
  have max1: "wrap_add64 (max_number d1) 1 = 3"
    by (simp add: d1 max_number_def segment_numbers_def hm_keys_def write_audit_index_def put_segment_def
        sample_audit_disk_def hm_insert_def wrap_add64_def u64_max_def)
  have run: "enforce_retention ?c 2678400000 (?d, ?st) =
      (case compact_segments ?c 86400000 AUDIT_MAX_SEGMENT_BYTES [1] (d1, ?k) of
         (Inl e, d2, _) \<Rightarrow> (Err e, d2, (rotated ?st)\<lparr>au_available := False\<rparr>)
       | (Inr _, d2, k2) \<Rightarrow>
          (case swap_compacted ?c NoFault k2 (d2, rotated ?st) of
             (Inl e, d, st) \<Rightarrow> (Err e, d, st\<lparr>au_available := False\<rparr>)
           | (Inr _, d, st) \<Rightarrow> (Ok (), d, st)))"
    using assms(3,4) max1
    by (simp add: enforce_retention_def compact_retention_def Let_def retention_cutoff_def expired_def DAY_MS_def
        rot split: prod.splits sum.splits)
  have read: "read_frames (ac_digest ?c) (ac_read_entry ?c) False (enc_frames ?c ?es) = (?es, enc_frames ?c ?es, Inr False)"
    by (rule read_frames_whole [OF codec]) (use assms(1,2) in simp)
  have kept: "retained_entries 86400000 ?es = [StoredRecord r2]"
    using assms(3,4) by (simp add: retained_entries_def expired_def)
  have free3: "create_segment 3 d1 = Inr (put_segment 3 [] d1)"
    by (simp add: create_segment_def seg_exists_iff g1)
  let ?frame = "frame_bytes (ac_digest ?c) (ac_entry ?c (StoredRecord r2))"
  let ?k2 = "\<lparr>cm_next_number = 4, cm_new_active = [3],
      cm_originals = [(1, segment_summary_of ?c 1 (enc_frames ?c ?es))],
      cm_replacements = [segment_summary_of ?c 3 ?frame], cm_deleted = [r1]\<rparr>"
  have app: "append_all ?c AUDIT_MAX_SEGMENT_BYTES 3 [StoredRecord r2] (put_segment 3 [] d1)
      = (Inr (), put_segment 3 ?frame d1)"
    using fits_u32 [OF assms(2)] assms(2)
    by (simp add: frame_len_def HASH_BYTES_def append_frame_def entry_fits_def put_segment_def hm_insert_twice)
  have ex: "list_ex (expired 86400000) (entry_records ?es)"
    "filter (expired 86400000) (entry_records ?es) = [r1]"
    using assms(3,4) by (simp_all add: expired_def)
  have step: "compact_segment ?c 86400000 AUDIT_MAX_SEGMENT_BYTES 1 (d1, ?k) = (Inr (), put_segment 3 ?frame d1, ?k2)"
    using app free3 by (simp add: compact_segment_def g1 read [simplified] kept [simplified] ex [simplified] Let_def
        wrap_add64_def u64_max_def)
  have loop: "compact_segments ?c 86400000 AUDIT_MAX_SEGMENT_BYTES [1] (d1, ?k) = (Inr (), put_segment 3 ?frame d1, ?k2)"
    using step by simp
  let ?p = "ac_entry ?c (StoredTombstone (tombstone_of ?k2))"
  have small: "length ?p + 36 \<le> AUDIT_MAX_SEGMENT_BYTES"
  proof -
    have sha: "length (hex (ac_digest ?c b)) = 64" for b
      by (simp add: length_hex sample_audit_codec_def audit_sample_sha_def)
    have ids: "length (segment_id 1) = 34" "length (segment_id 3) = 34"
      by (simp_all add: segment_id_def show_digit)
    have strs: "length (w_str (segment_id 1)) \<le> 37" "length (w_str (segment_id 3)) \<le> 37"
      "length (w_str (hex (ac_digest ?c b))) \<le> 67" for b
      using length_w_list_char [of "segment_id 1"] length_w_list_char [of "segment_id 3"]
        length_w_list_char [of "hex (ac_digest ?c b)"] ids sha [of b] by simp_all
    have list1: "w_list w_summary [x] = w_nat 1 @ w_summary x" for x
      by (simp add: w_list_def)
    have "length (w_tombstone (tombstone_of ?k2)) \<le> 500"
      using strs(1,2) strs(3) [of "enc_frames ?c ?es"] strs(3) [of ?frame] assms(3)
      by (simp add: w_tombstone_def w_pair_def tombstone_of_def list1 w_summary_def segment_summary_of_def
          w_nat_def show_digit min_list_def max_list_def)
    then show ?thesis by (simp add: sample_audit_codec_def AUDIT_MAX_SEGMENT_BYTES_def)
  qed
  have start: "compacting ?c 86400000 (\<lambda>_. ?es) 3 d1 [] d1 ?k (\<lambda>_. ?es)"
    by (auto simp: compacting_def seg_exists_iff g1 split: if_splits)
  have "(\<exists>d' k' g'. compact_segments ?c 86400000 AUDIT_MAX_SEGMENT_BYTES [1] (d1, ?k) = (Inr (), d', k')
        \<and> compacting ?c 86400000 (\<lambda>_. ?es) 3 d1 ([] @ [1]) d' k' g')
    \<or> (\<exists>s'. compact_segments ?c 86400000 AUDIT_MAX_SEGMENT_BYTES [1] (d1, ?k) = (Inl AeFrameTooLarge, s'))"
    by (rule compact_segments_all [OF sample_audit_codec_ok start])
       (use assms(1,2) g1 in \<open>simp_all add: on_disk_def u64_max_def\<close>)
  then obtain g' where inv: "compacting ?c 86400000 (\<lambda>_. ?es) 3 d1 ([] @ [1]) (put_segment 3 ?frame d1) ?k2 g'"
    using loop by auto
  obtain k2 where k2: "k2 = ?k2" by blast
  have one: "filter (\<lambda>r. \<not> expired 86400000 r) (entry_records (concat (map (\<lambda>_. ?es) ([] @ [1 :: nat])))) = [r2]"
    using assms(3,4) by (simp add: expired_def)
  note spec = swap_compacted_spec [OF sample_audit_codec_ok inv [folded k2], of "rotated ?st"]
  have "\<exists>d' st'. swap_compacted ?c NoFault k2 (put_segment 3 ?frame d1, rotated ?st) = (Inr (), d', st')"
  proof (rule disjE [OF spec])
    show "strictly_increasing (filter (\<lambda>r. \<not> expired 86400000 r)
        (entry_records (concat (map (\<lambda>_. ?es) ([] @ [1 :: nat])))))"
      unfolding one by simp
  qed (use small [folded k2] in \<open>auto simp: g1 AUDIT_MAX_SEGMENT_BYTES_def\<close>)
  then show ?thesis using loop [folded k2] by (auto simp: run)
qed

lemma old_and_new_runs:
  obtains d' st' where "enforce_retention sample_audit_codec 2678400000
    (sample_audit_disk old_and_new, sample_audit_store old_and_new) = (Ok (), d', st')"
  using small_retention_runs [OF sample_fits_segment [of 1 0] sample_fits_segment [of 2 2678400000]]
  unfolding old_and_new_def by (auto simp: sample_raw_def)


text \<open>The store is closed and opened after retention; the first record of the next day is refused.\<close>

theorem retention_blocks_rotation_witness:
  "\<exists>d' st' d2 st2. enforce_retention sample_audit_codec 2678400000
       (sample_audit_disk old_and_new, sample_audit_store old_and_new) = (Ok (), d', st')
     \<and> audit_open sample_audit_codec 30 [] AUDIT_MAX_SEGMENT_BYTES (release_lock d') = (Ok st2, d2)
     \<and> audit_append sample_audit_codec (sample_raw 3 2764800000) (d2, st2)
         = (Err (AeIo ''already_exists''), d2, st2\<lparr>au_available := False\<rparr>)"
proof -
  let ?c = sample_audit_codec
  obtain d' st' where run: "enforce_retention ?c 2678400000
      (sample_audit_disk old_and_new, sample_audit_store old_and_new) = (Ok (), d', st')"
    by (rule old_and_new_runs)
  note kept = enforced [OF sample_audit_codec_ok old_and_new_inv sample_store_newest
      old_and_new_expired(1) old_and_new_room run]
  obtain st2 d2 where o: "audit_open ?c 30 [] AUDIT_MAX_SEGMENT_BYTES (release_lock d') = (Inr st2, d2)"
    and recs: "au_records st2 = au_records st'" "au_available st2" "opened_as [] AUDIT_MAX_SEGMENT_BYTES st2"
    by (rule reopen [OF sample_audit_codec_ok kept(1), of AUDIT_MAX_SEGMENT_BYTES 30 "[]"])
       (simp_all add: AUDIT_MAX_SEGMENT_BYTES_def)
  have recs2: "au_records st2 = [redact [] (sample_raw 2 2678400000)]"
    using recs(1) kept(2) by (simp add: old_and_new_expired(2))
  have o2: "(d2, st2) = (d', st') \<or> audit_open ?c 30 [] (au_max_segment_bytes (sample_audit_store old_and_new))
      (release_lock d') = (Ok st2, d2)"
    using o by simp
  have acc: "accepts ?c (sample_raw 3 2764800000) st2"
    using sample_fits_segment [of 3 2764800000] recs(2,3) recs2
    by (simp add: accepts_def opened_as_def entry_fits_def sample_raw_def)
  have day: "is_some_and (\<lambda>day. day \<noteq> ra_occurred_at_ms (sample_raw 3 2764800000) div DAY_MS) (au_current_day st2)"
    using recs(3) recs2 by (simp add: opened_as_def last_record_def sample_raw_def DAY_MS_def)
  from retention_blocks_rotation [OF sample_audit_codec_ok old_and_new_inv sample_store_newest
      old_and_new_expired(1) old_and_new_room run o2, of "sample_raw 3 2764800000" 0] acc day
  have "audit_append ?c (sample_raw 3 2764800000) (d2, st2)
      = (Err (AeIo ''already_exists''), d2, st2\<lparr>au_available := False\<rparr>)" by blast
  then show ?thesis using run o by blast
qed

lemma sample_deletion_fits:
  "length (ac_entry sample_audit_codec (StoredRecord (deletion_record 2 7))) \<le> 200"
  by (simp add: deletion_record_def sample_writers show_digit show_two_digits)

theorem deletion_removes_exactly_the_matches_witness:
  "\<exists>d' st'. audit_delete sample_audit_codec (filter_default\<lparr>af_operation := Some ''build''\<rparr>) 7
       (sample_audit_disk one_record, sample_audit_store one_record) = (Ok 1, d', st')
     \<and> au_records st' = [deletion_record 2 7]"
proof -
  let ?c = sample_audit_codec and ?f = "filter_default\<lparr>af_operation := Some ''build''\<rparr>"
  let ?d = "sample_audit_disk one_record" and ?st = "sample_audit_store one_record"
  have matches: "filter_matches ?f r \<longleftrightarrow> da_operation r = ''build''" for r
    by (simp add: filter_matches_def filter_default_def)
  have ops: "da_operation (redact [] (sample_raw s t)) = ''build''" for s t by (simp add: sample_redacted)
  have seq: "next_sequence ?st = 2"
    by (simp add: next_sequence_def last_record_def one_record_def sample_raw_def sat_add64_def u64_max_def)
  have fit: "fits ?c (StoredRecord (deletion_record 2 7))"
    using sample_deletion_fits
    by (simp add: entry_fits_def AUDIT_MAX_SEGMENT_BYTES_def audit_validate_def deletion_record_def
        validate_unique_resources_def validate_len_def MAX_COLLECTION_ITEMS_def)
  obtain res d' st' where run: "audit_delete ?c ?f 7 (?d, ?st) = (res, d', st')"
    by (cases "audit_delete ?c ?f 7 (?d, ?st)")
  have some: "list_ex (filter_matches ?f) (au_records ?st)"
    by (simp add: one_record_def matches ops)
  have small: "\<forall>r \<in> set (au_records ?st). da_sequence r < u64_max"
    by (simp add: one_record_def sample_raw_def u64_max_def)
  have room: "au_current ?st + length (au_records ?st) + length (au_tombstones ?st) + 2 \<le> u64_max"
    by (simp add: one_record_def u64_max_def)
  have fit2: "fits ?c (StoredRecord (deletion_record (next_sequence ?st) 7))" using fit by (simp add: seq)
  note del = deletion_removes_exactly_the_matches [OF sample_audit_codec_ok one_record_inv sample_store_newest
      sample_store_simps(4) room small fit2 some run]
  have "\<exists>n. res = Inr n"
  proof -
    obtain d1 where d1: "d1 = put_segment 2 [] ?d" by blast
    have first: "sat_add64 (max_number ?d) (Suc 0) = 2"
      by (simp add: max_number_def segment_numbers_def hm_keys_def sample_audit_disk_def sat_add64_def u64_max_def)
    have created: "create_segment 2 ?d = Inr d1"
      using one_record_free [of one_record] by (simp add: create_segment_def d1)
    have written: "\<exists>s d2. write_entries ?c AUDIT_MAX_SEGMENT_BYTES [StoredRecord (deletion_record 2 7)] 2 [2] d1
        = (Inr s, d2)"
      using sample_deletion_fits
      by (simp add: frame_len_def u32_max_def HASH_BYTES_def segment_len_def d1 append_frame_def Let_def
          AUDIT_MAX_SEGMENT_BYTES_def sat_add64_def u64_max_def)
    have kept: "filter (\<lambda>r. \<not> filter_matches ?f r) one_record = []" "filter (filter_matches ?f) one_record \<noteq> []"
      by (simp_all add: one_record_def matches ops)
    show ?thesis
      using run written
      by (auto simp: audit_delete_def Let_def kept seq first created u64_max_def simp del: write_entries.simps
          split: sum.splits prod.splits)
  qed
  then obtain n where "res = Inr n" by blast
  with del run show ?thesis
    by (simp add: seq) (simp add: one_record_def matches ops)
qed

end
