(* ===== verification/AppleAgent.thy ===== *)
theory AppleAgent
  imports Protocol
begin

text \<open>
  The two agents that run Apple jobs (\<open>lib.rs\<close>, modules \<open>remote_apple_protocol\<close> and
  \<open>remote_apple_agent\<close>). Submitting validates a request, finds the job of an earlier request with the
  same identifiers or creates one, and starts a worker that appends progress events and one terminal
  event. The state behind the mutex is a record; a method takes it and returns it; the workers'
  appends are steps of their own that interleave with the methods in any order. What the file system
  answers to \<open>canonicalize\<close> is part of the environment.
\<close>

section \<open>Validation\<close>

text \<open>
  \<open>env_canonical\<close> is \<open>fs::canonicalize\<close> of the path joined to the root, as components; \<open>None\<close> when it
  fails. \<open>starts_with\<close> compares whole components.
\<close>

record apple_env =
  env_root :: "string list"
  env_canonical :: "string \<Rightarrow> string list option"
  env_capabilities :: "string list"
  env_devices :: "string list"

definition apple_validate :: "apple_env \<Rightarrow> apple_request \<Rightarrow> protocol_error + unit" where
  "apple_validate env r =
     and_then (validate_request_envelope r) (\<lambda>_.
       if ar_capability r \<notin> set (env_capabilities env)
       then Err (ProtocolError ''unsupported_capability'' ''capability is not available'')
       else if \<not> is_some_and (\<lambda>resolved. prefix (env_root env) resolved) (env_canonical env (ar_workspace_path r))
       then Err (ProtocolError ''workspace_path_denied'' ''workspace path is outside the workspace'')
       else if is_some_and (\<lambda>device. device \<notin> set (env_devices env)) (ar_device_id r)
               \<or> (requires_device (ar_operation r) \<and> ar_device_id r = None)
       then Err (ProtocolError ''unknown_device'' ''device is not available'')
       else Ok ())"

text \<open>
  What \<open>parse_and_validate\<close> reads of a JSON text: the two version numbers where the text is JSON and
  has them, and the request or the message of the deserialiser's error.
\<close>

record request_json =
  rj_major :: "nat option"
  rj_minor :: "nat option"
  rj_request :: "string + apple_request"

definition apple_parse_and_validate ::
    "(string \<Rightarrow> request_json option) \<Rightarrow> apple_env \<Rightarrow> string \<Rightarrow> protocol_error + apple_request" where
  "apple_parse_and_validate read_json env json =
     (case read_json json of
        None \<Rightarrow> Err (ProtocolError ''invalid_request'' ''request is not valid JSON'')
      | Some v \<Rightarrow>
          (if rj_major v \<noteq> Some 1 \<or> rj_minor v \<noteq> Some 0
           then Err (ProtocolError ''unsupported_version'' ''unsupported protocol version'')
           else case rj_request v of
             Inl message \<Rightarrow>
               (if str_contains message ''unknown variant''
                then Err (ProtocolError ''unsupported_operation'' ''unsupported Apple operation'')
                else Err (ProtocolError ''invalid_request'' ''request fields are invalid''))
           | Inr request \<Rightarrow> and_then (apple_validate env request) (\<lambda>_. Ok request)))"

section \<open>Progress events\<close>

record progress_event =
  pv_sequence :: u64
  pv_kind :: string
  pv_payload :: string
  pv_terminal :: bool

definition accepted_event :: progress_event where
  "accepted_event = \<lparr>pv_sequence = 1, pv_kind = ''accepted'', pv_payload = [], pv_terminal = False\<rparr>"

text \<open>The tail of \<open>append_event\<close> and \<open>append\<close>: nothing follows a terminal event.\<close>

definition push_event :: "string \<Rightarrow> string \<Rightarrow> bool \<Rightarrow> progress_event list \<Rightarrow> progress_event list" where
  "push_event kind payload terminal es =
     (if list_ex pv_terminal es then es
      else es @ [\<lparr>pv_sequence = length es + 1, pv_kind = kind, pv_payload = payload,
                  pv_terminal = terminal\<rparr>])"

definition events_after :: "u64 \<Rightarrow> progress_event list \<Rightarrow> protocol_error + progress_event list" where
  "events_after after es =
     (if after > length es
      then Err (ProtocolError ''invalid_event_cursor'' ''event cursor is beyond the job'')
      else Ok (filter (\<lambda>e. pv_sequence e > after) es))"

text \<open>A well-formed history: numbered from 1 without gaps, and only its last event is terminal.\<close>

definition history_ok :: "progress_event list \<Rightarrow> bool" where
  "history_ok es \<longleftrightarrow>
     es \<noteq> [] \<and> hd es = accepted_event
     \<and> (\<forall>i < length es. pv_sequence (es ! i) = i + 1)
     \<and> list_all (\<lambda>e. \<not> pv_terminal e) (butlast es)"

lemma history_ok_accepted [simp]: "history_ok [accepted_event]"
  by (simp add: history_ok_def accepted_event_def)

lemma history_ok_push [simp, intro]:
  assumes "history_ok es"
  shows "history_ok (push_event kind payload terminal es)"
proof (cases "list_ex pv_terminal es")
  case True
  then show ?thesis using assms by (simp add: push_event_def)
next
  case False
  then have "list_all (\<lambda>e. \<not> pv_terminal e) es" by (simp add: list_all_iff list_ex_iff)
  then show ?thesis
    using assms False by (auto simp: push_event_def history_ok_def nth_append less_Suc_eq)
qed

lemma history_drop:
  assumes "history_ok es"
  shows "filter (\<lambda>e. pv_sequence e > after) es = drop after es"
proof -
  have num: "\<forall>i < length es. pv_sequence (es ! i) = i + 1" using assms by (simp add: history_ok_def)
  have "\<not> pv_sequence e > after" if "e \<in> set (take after es)" for e
    using that num by (auto simp: in_set_conv_nth)
  moreover have "pv_sequence e > after" if "e \<in> set (drop after es)" for e
    using that num by (auto simp: in_set_conv_nth)
  ultimately have "filter (\<lambda>e. pv_sequence e > after) (take after es @ drop after es) = drop after es"
    by (simp del: append_take_drop_id)
  then show ?thesis by simp
qed

lemma push_event_terminal: "list_ex pv_terminal es \<Longrightarrow> push_event kind payload terminal es = es"
  by (simp add: push_event_def)

section \<open>The agent\<close>

record apple_agent =
  ag_next_job :: u64
  ag_request_jobs :: "(string, string) hash_map"
  ag_idempotency_jobs :: "(string, string) hash_map"
  ag_job_requests :: "(string, apple_request) hash_map"
  ag_events :: "(string, progress_event list) hash_map"

definition apple_agent_new :: apple_agent where
  "apple_agent_new = \<lparr>ag_next_job = 1, ag_request_jobs = [], ag_idempotency_jobs = [],
     ag_job_requests = [], ag_events = []\<rparr>"

definition agent_job_id :: "nat \<Rightarrow> string" where
  "agent_job_id n = ''apple-job-'' @ show_nat n"

definition idempotency_conflict :: "string \<Rightarrow> protocol_error" where
  "idempotency_conflict message = ProtocolError ''idempotency_conflict'' message"

definition agent_new_job :: "apple_request \<Rightarrow> apple_agent \<Rightarrow> string \<times> apple_agent" where
  "agent_new_job r s =
     (let j = agent_job_id (ag_next_job s) in
      (j, \<lparr>ag_next_job = wrap_add64 (ag_next_job s) 1,
           ag_request_jobs = hm_insert (ar_request_id r) j (ag_request_jobs s),
           ag_idempotency_jobs = hm_insert (ar_idempotency_key r) j (ag_idempotency_jobs s),
           ag_job_requests = hm_insert j r (ag_job_requests s),
           ag_events = hm_insert j [accepted_event] (ag_events s)\<rparr>))"

definition agent_submit ::
    "apple_env \<Rightarrow> apple_request \<Rightarrow> apple_agent \<Rightarrow> (protocol_error + string) \<times> apple_agent" where
  "agent_submit env r s =
     (case apple_validate env r of
        Inl e \<Rightarrow> (Err e, s)
      | Inr _ \<Rightarrow>
          (let request_job = hm_get (ag_request_jobs s) (ar_request_id r);
               idempotency_job = hm_get (ag_idempotency_jobs s) (ar_idempotency_key r)
           in if request_job \<noteq> None \<and> idempotency_job \<noteq> None \<and> request_job \<noteq> idempotency_job
              then (Err (idempotency_conflict ''request identifiers refer to different jobs''), s)
              else (case (case request_job of None \<Rightarrow> idempotency_job | Some j \<Rightarrow> Some j) of
                  Some j \<Rightarrow>
                    (if \<not> is_some_and (\<lambda>original. same_operation original r) (hm_get (ag_job_requests s) j)
                     then (Err (idempotency_conflict
                             ''request identifier was reused for a different operation''), s)
                     else (Ok j, s\<lparr>ag_request_jobs := hm_insert (ar_request_id r) j (ag_request_jobs s),
                             ag_idempotency_jobs :=
                               hm_insert (ar_idempotency_key r) j (ag_idempotency_jobs s)\<rparr>))
                | None \<Rightarrow> (case agent_new_job r s of (j, s1) \<Rightarrow> (Ok j, s1)))))"

text \<open>\<open>append_event\<close> of the worker of job \<open>j\<close>; \<open>None\<close> is the panic of \<open>unwrap\<close> on an unknown job.\<close>

definition agent_append ::
    "string \<Rightarrow> string \<Rightarrow> string \<Rightarrow> bool \<Rightarrow> apple_agent \<Rightarrow> apple_agent option" where
  "agent_append j kind payload terminal s =
     (case hm_get (ag_events s) j of
        None \<Rightarrow> None
      | Some es \<Rightarrow> Some (s\<lparr>ag_events := hm_insert j (push_event kind payload terminal es) (ag_events s)\<rparr>))"

definition agent_events :: "string \<Rightarrow> u64 \<Rightarrow> apple_agent \<Rightarrow> protocol_error + progress_event list" where
  "agent_events j after s =
     (case hm_get (ag_events s) j of
        None \<Rightarrow> Err (ProtocolError ''unknown_job'' ''job is not available'')
      | Some es \<Rightarrow> events_after after es)"

text \<open>How the operation of a job ends: it returns, or it panics and \<open>catch_unwind\<close> stops the panic.\<close>

datatype job_outcome = Returned "string + string" | Panicked

fun outcome_event :: "job_outcome \<Rightarrow> string \<times> string" where
  "outcome_event (Returned (Inr payload)) = (''succeeded'', payload)"
| "outcome_event (Returned (Inl payload)) = (''failed'', payload)"
| "outcome_event Panicked = (''failed'', ''operation panicked'')"

datatype agent_op =
    AgentSubmit apple_env apple_request
  | WorkerProgress string string
  | WorkerEnds string job_outcome

fun agent_step :: "agent_op \<Rightarrow> apple_agent \<Rightarrow> apple_agent" where
  "agent_step (AgentSubmit env r) s = snd (agent_submit env r s)"
| "agent_step (WorkerProgress j payload) s =
     (case agent_append j ''progress'' payload False s of None \<Rightarrow> s | Some t \<Rightarrow> t)"
| "agent_step (WorkerEnds j outcome) s =
     (case outcome_event outcome of (kind, payload) \<Rightarrow>
        case agent_append j kind payload True s of None \<Rightarrow> s | Some t \<Rightarrow> t)"

text \<open>The registry in front of the agent forwards.\<close>

definition apple_registry_submit where "apple_registry_submit = agent_submit"
definition apple_registry_events where "apple_registry_events = agent_events"

section \<open>The agent with cancellation\<close>

record apple_job =
  jb_request :: apple_request
  jb_cancelled :: bool
  jb_events :: "progress_event list"

record remote_agent =
  rm_next_job :: u64
  rm_request_jobs :: "(string, string) hash_map"
  rm_idempotency_jobs :: "(string, string) hash_map"
  rm_jobs :: "(string, apple_job) hash_map"

definition remote_agent_new :: remote_agent where
  "remote_agent_new = \<lparr>rm_next_job = 1, rm_request_jobs = [], rm_idempotency_jobs = [], rm_jobs = []\<rparr>"

definition remote_job_id :: "nat \<Rightarrow> string" where
  "remote_job_id n = ''remote-apple-job-'' @ show_nat n"

text \<open>
  \<open>submit\<close> of \<open>RemoteAppleAgent\<close>. The first argument is what \<open>AppleAgent::new\<close> makes of the discovered
  capabilities and devices: \<open>None\<close> when the workspace root is gone.
\<close>

definition remote_submit ::
    "apple_env option \<Rightarrow> apple_request \<Rightarrow> remote_agent \<Rightarrow> (protocol_error + string) \<times> remote_agent" where
  "remote_submit env r s =
     (case env of
        None \<Rightarrow> (Err (ProtocolError ''workspace_path_denied'' ''workspace is unavailable''), s)
      | Some en \<Rightarrow>
          (case apple_validate en r of
             Inl e \<Rightarrow> (Err e, s)
           | Inr _ \<Rightarrow>
               (case (case hm_get (rm_request_jobs s) (ar_request_id r) of
                        None \<Rightarrow> hm_get (rm_idempotency_jobs s) (ar_idempotency_key r)
                      | Some j \<Rightarrow> Some j) of
                  Some j \<Rightarrow>
                    (if is_some_and (\<lambda>job. same_operation (jb_request job) r) (hm_get (rm_jobs s) j)
                     then (Ok j, s)
                     else (Err (idempotency_conflict
                             ''request identifier was reused for a different operation''), s))
                | None \<Rightarrow>
                    (let j = remote_job_id (rm_next_job s) in
                     (Ok j,
                      \<lparr>rm_next_job = wrap_add64 (rm_next_job s) 1,
                       rm_request_jobs = hm_insert (ar_request_id r) j (rm_request_jobs s),
                       rm_idempotency_jobs = hm_insert (ar_idempotency_key r) j (rm_idempotency_jobs s),
                       rm_jobs = hm_insert j \<lparr>jb_request = r, jb_cancelled = False,
                                               jb_events = [accepted_event]\<rparr> (rm_jobs s)\<rparr>)))))"

definition remote_append ::
    "string \<Rightarrow> string \<Rightarrow> string \<Rightarrow> bool \<Rightarrow> remote_agent \<Rightarrow> remote_agent option" where
  "remote_append j kind payload terminal s =
     (case hm_get (rm_jobs s) j of
        None \<Rightarrow> None
      | Some job \<Rightarrow>
          Some (s\<lparr>rm_jobs := hm_insert j
            (job\<lparr>jb_events := push_event kind payload terminal (jb_events job)\<rparr>) (rm_jobs s)\<rparr>))"

definition remote_events :: "string \<Rightarrow> u64 \<Rightarrow> remote_agent \<Rightarrow> protocol_error + progress_event list" where
  "remote_events j after s =
     (case hm_get (rm_jobs s) j of
        None \<Rightarrow> Err (ProtocolError ''unknown_job'' ''job is not available'')
      | Some job \<Rightarrow> events_after after (jb_events job))"

definition remote_cancel :: "string \<Rightarrow> remote_agent \<Rightarrow> (protocol_error + unit) \<times> remote_agent" where
  "remote_cancel j s =
     (case hm_get (rm_jobs s) j of
        None \<Rightarrow> (Err (ProtocolError ''unknown_job'' ''job is not available''), s)
      | Some job \<Rightarrow> (Ok (), s\<lparr>rm_jobs := hm_insert j (job\<lparr>jb_cancelled := True\<rparr>) (rm_jobs s)\<rparr>))"

text \<open>
  What the worker appends when the operation ends. The worker reads the cancellation token itself;
  nothing catches a panic here, so a panicking operation appends nothing.
\<close>

fun remote_outcome :: "bool \<Rightarrow> job_outcome \<Rightarrow> (string \<times> string) option" where
  "remote_outcome cancelled (Returned (Inr payload)) = Some (''succeeded'', payload)"
| "remote_outcome cancelled (Returned (Inl payload)) =
     Some (if cancelled then ''cancelled'' else ''failed'', payload)"
| "remote_outcome cancelled Panicked = None"

datatype remote_op =
    RemoteSubmit "apple_env option" apple_request
  | RemoteProgress string string
  | RemoteEnds string job_outcome
  | RemoteCancel string

definition job_cancelled :: "string \<Rightarrow> remote_agent \<Rightarrow> bool" where
  "job_cancelled j s = is_some_and jb_cancelled (hm_get (rm_jobs s) j)"

fun remote_step :: "remote_op \<Rightarrow> remote_agent \<Rightarrow> remote_agent" where
  "remote_step (RemoteSubmit env r) s = snd (remote_submit env r s)"
| "remote_step (RemoteProgress j payload) s =
     (case remote_append j ''progress'' payload False s of None \<Rightarrow> s | Some t \<Rightarrow> t)"
| "remote_step (RemoteEnds j outcome) s =
     (case remote_outcome (job_cancelled j s) outcome of
        None \<Rightarrow> s
      | Some (kind, payload) \<Rightarrow>
          (case remote_append j kind payload True s of None \<Rightarrow> s | Some t \<Rightarrow> t))"
| "remote_step (RemoteCancel j) s = snd (remote_cancel j s)"

text \<open>
  \<open>RemoteAppleRegistry\<close> sends the request through its JSON text; \<open>wire\<close> is that round trip, \<open>None\<close> when
  it fails.
\<close>

definition remote_registry_submit ::
    "(apple_request \<Rightarrow> apple_request option) \<Rightarrow> apple_env option \<Rightarrow> apple_request \<Rightarrow> remote_agent
     \<Rightarrow> (protocol_error + string) \<times> remote_agent" where
  "remote_registry_submit wire env r s =
     (case wire r of
        None \<Rightarrow> (Err (ProtocolError ''invalid_request'' ''request fields are invalid''), s)
      | Some forwarded \<Rightarrow> remote_submit env forwarded s)"

section \<open>The invariant of the agent\<close>

definition agent_inv :: "apple_agent \<Rightarrow> bool" where
  "agent_inv s \<longleftrightarrow>
     (\<forall>j. hm_has (ag_job_requests s) j \<longrightarrow> hm_has (ag_events s) j)
     \<and> (\<forall>j. hm_has (ag_events s) j \<longrightarrow> (\<exists>n < ag_next_job s. j = agent_job_id n))
     \<and> (\<forall>k j. hm_get (ag_request_jobs s) k = Some j \<longrightarrow> hm_has (ag_job_requests s) j)
     \<and> (\<forall>k j. hm_get (ag_idempotency_jobs s) k = Some j \<longrightarrow> hm_has (ag_job_requests s) j)
     \<and> (\<forall>j es. hm_get (ag_events s) j = Some es \<longrightarrow> history_ok es)"

lemma agent_job_id_inject [simp]: "agent_job_id a = agent_job_id b \<longleftrightarrow> a = b"
  by (simp add: agent_job_id_def)

lemma agent_inv_new [simp]: "agent_inv apple_agent_new"
  by (simp add: agent_inv_def apple_agent_new_def)

lemma agent_inv_fresh:
  "agent_inv s \<Longrightarrow> \<not> hm_has (ag_events s) (agent_job_id (ag_next_job s))"
  by (auto simp: agent_inv_def)

lemma agent_inv_new_job:
  assumes "agent_inv s" and "ag_next_job s < u64_max"
  shows "agent_inv (snd (agent_new_job r s))"
proof -
  have n: "wrap_add64 (ag_next_job s) 1 = Suc (ag_next_job s)"
    using assms(2) by (simp add: wrap_add64_exact)
  show ?thesis
    using assms(1) unfolding agent_inv_def agent_new_job_def Let_def n
    by (auto simp: less_Suc_eq)
qed

lemma agent_inv_append:
  assumes "agent_inv s" and "agent_append j kind payload terminal s = Some t"
  shows "agent_inv t \<and> ag_next_job t = ag_next_job s"
proof -
  obtain es where es: "hm_get (ag_events s) j = Some es"
    and t: "t = s\<lparr>ag_events := hm_insert j (push_event kind payload terminal es) (ag_events s)\<rparr>"
    using assms(2) by (auto simp: agent_append_def split: option.splits)
  have "history_ok es" using assms(1) es by (auto simp: agent_inv_def)
  moreover have "hm_has (ag_events s) j" using es by (simp add: hm_has_def)
  ultimately show ?thesis using assms(1) unfolding agent_inv_def t by auto
qed

text \<open>What \<open>submit\<close> does, by cases.\<close>

lemma agent_submit_cases:
  obtains (refused) e where "agent_submit env r s = (Inl e, s)"
  | (known) j q where "agent_submit env r s = (Inr j, s\<lparr>
        ag_request_jobs := hm_insert (ar_request_id r) j (ag_request_jobs s),
        ag_idempotency_jobs := hm_insert (ar_idempotency_key r) j (ag_idempotency_jobs s)\<rparr>)"
      "hm_get (ag_job_requests s) j = Some q" "same_operation q r"
      "hm_get (ag_request_jobs s) (ar_request_id r) \<in> {None, Some j}"
      "hm_get (ag_idempotency_jobs s) (ar_idempotency_key r) \<in> {None, Some j}"
  | (created) "agent_submit env r s = (Inr (fst (agent_new_job r s)), snd (agent_new_job r s))"
      "hm_get (ag_request_jobs s) (ar_request_id r) = None"
      "hm_get (ag_idempotency_jobs s) (ar_idempotency_key r) = None"
proof (cases "apple_validate env r")
  case (Inl e)
  then show thesis by (intro refused [of e]) (simp add: agent_submit_def)
next
  case (Inr u)
  let ?q = "hm_get (ag_request_jobs s) (ar_request_id r)"
  let ?i = "hm_get (ag_idempotency_jobs s) (ar_idempotency_key r)"
  show thesis
  proof (cases "?q \<noteq> None \<and> ?i \<noteq> None \<and> ?q \<noteq> ?i")
    case True
    then show thesis using Inr by (intro refused) (simp add: agent_submit_def Let_def)
  next
    case False
    show thesis
    proof (cases "case ?q of None \<Rightarrow> ?i | Some j \<Rightarrow> Some j")
      case None
      then show thesis
        using Inr by (intro created) (auto simp: agent_submit_def Let_def split: option.splits prod.splits)
    next
      case (Some j)
      show thesis
      proof (cases "is_some_and (\<lambda>original. same_operation original r) (hm_get (ag_job_requests s) j)")
        case True
        then obtain q where q: "hm_get (ag_job_requests s) j = Some q" "same_operation q r"
          by (auto simp: is_some_and_iff)
        show thesis
          by (rule known [of j q])
             (use Inr False Some True q in \<open>auto simp: agent_submit_def Let_def split: option.splits\<close>)
      next
        case no: False
        show thesis
          by (rule refused [of "idempotency_conflict ''request identifier was reused for a different operation''"])
             (use no Inr False Some in \<open>auto simp: agent_submit_def Let_def\<close>)
      qed
    qed
  qed
qed

lemma agent_append_Some:
  "agent_append j kind payload terminal s = Some t \<longleftrightarrow>
     (\<exists>es. hm_get (ag_events s) j = Some es
       \<and> t = s\<lparr>ag_events := hm_insert j (push_event kind payload terminal es) (ag_events s)\<rparr>)"
  by (auto simp: agent_append_def split: option.splits)

text \<open>Nothing recorded is lost: mappings and requests stay, histories are only extended.\<close>

definition kept :: "apple_agent \<Rightarrow> apple_agent \<Rightarrow> bool" where
  "kept s t \<longleftrightarrow>
     (\<forall>k j. hm_get (ag_request_jobs s) k = Some j \<longrightarrow> hm_get (ag_request_jobs t) k = Some j)
     \<and> (\<forall>k j. hm_get (ag_idempotency_jobs s) k = Some j \<longrightarrow> hm_get (ag_idempotency_jobs t) k = Some j)
     \<and> (\<forall>j q. hm_get (ag_job_requests s) j = Some q \<longrightarrow> hm_get (ag_job_requests t) j = Some q)
     \<and> (\<forall>j es. hm_get (ag_events s) j = Some es \<longrightarrow>
          (\<exists>fs. hm_get (ag_events t) j = Some (es @ fs) \<and> (list_ex pv_terminal es \<longrightarrow> fs = [])))"

lemma kept_refl [simp, intro]: "kept s s"
  by (simp add: kept_def)

lemma kept_trans:
  assumes "kept s t" and "kept t u"
  shows "kept s u"
proof -
  have "\<exists>fs. hm_get (ag_events u) j = Some (es @ fs) \<and> (list_ex pv_terminal es \<longrightarrow> fs = [])"
    if es: "hm_get (ag_events s) j = Some es" for j es
  proof -
    obtain fs where fs: "hm_get (ag_events t) j = Some (es @ fs)" "list_ex pv_terminal es \<longrightarrow> fs = []"
      using assms(1) es unfolding kept_def by blast
    obtain gs where "hm_get (ag_events u) j = Some ((es @ fs) @ gs)"
      "list_ex pv_terminal (es @ fs) \<longrightarrow> gs = []"
      using assms(2) fs(1) unfolding kept_def by blast
    then show ?thesis using fs(2) by (intro exI [of _ "fs @ gs"]) auto
  qed
  then show ?thesis using assms by (simp add: kept_def)
qed

lemma kept_append:
  assumes "agent_append j kind payload terminal s = Some t"
  shows "kept s t"
  using assms by (auto simp: agent_append_Some kept_def push_event_def)

lemma kept_new_job:
  assumes "agent_inv s" "hm_get (ag_request_jobs s) (ar_request_id r) = None"
    and "hm_get (ag_idempotency_jobs s) (ar_idempotency_key r) = None"
  shows "kept s (snd (agent_new_job r s))"
proof -
  let ?j = "agent_job_id (ag_next_job s)"
  have ev: "hm_get (ag_events s) ?j = None" using agent_inv_fresh [OF assms(1)] by (simp add: hm_has_def)
  then have rq: "hm_get (ag_job_requests s) ?j = None"
    using assms(1) by (auto simp: agent_inv_def hm_has_def)
  show ?thesis
    using ev rq assms(2,3) unfolding kept_def agent_new_job_def Let_def
    by (auto split: if_splits)
qed

lemma agent_step_budget:
  assumes "agent_inv s" and "ag_next_job s < u64_max"
  shows "agent_inv (agent_step opn s) \<and> ag_next_job (agent_step opn s) \<le> ag_next_job s + 1 \<and> kept s (agent_step opn s)"
proof (cases opn)
  case (AgentSubmit env r)
  show ?thesis
  proof (cases rule: agent_submit_cases [of env r s])
    case (refused e)
    then show ?thesis using assms AgentSubmit by simp
  next
    case (known j q)
    let ?t = "s\<lparr>ag_request_jobs := hm_insert (ar_request_id r) j (ag_request_jobs s),
        ag_idempotency_jobs := hm_insert (ar_idempotency_key r) j (ag_idempotency_jobs s)\<rparr>"
    have "agent_inv ?t"
      using assms(1) known(2) unfolding agent_inv_def by (auto simp: hm_has_def)
    moreover have "kept s ?t" using known(4,5) by (auto simp: kept_def)
    ultimately show ?thesis using AgentSubmit known(1) by simp
  next
    case created
    have "ag_next_job (snd (agent_new_job r s)) = Suc (ag_next_job s)"
      using assms(2) by (simp add: agent_new_job_def Let_def wrap_add64_exact)
    then show ?thesis
      using AgentSubmit created agent_inv_new_job [OF assms, of r] kept_new_job [OF assms(1) created(2,3)]
      by simp
  qed
next
  case (WorkerProgress j payload)
  then show ?thesis
    using assms agent_inv_append kept_append by (auto split: option.splits)
next
  case (WorkerEnds j outcome)
  then show ?thesis
    using assms agent_inv_append kept_append by (auto split: option.splits prod.splits)
qed

interpretation agent_run: budgeted_machine agent_step agent_inv ag_next_job u64_max
  by unfold_locales (use agent_step_budget in blast)

lemma kept_run:
  assumes "agent_inv s" and "ag_next_job s + length ops \<le> u64_max"
  shows "kept s (fold agent_step ops s)"
  using assms
proof (induction ops arbitrary: s)
  case Nil
  then show ?case by simp
next
  case (Cons x ops)
  have "ag_next_job s < u64_max" using Cons.prems(2) by simp
  note step = agent_step_budget [OF Cons.prems(1) this, of x]
  have "kept (agent_step x s) (fold agent_step ops (agent_step x s))"
    using step Cons.prems(2) by (intro Cons.IH) auto
  then show ?case using step kept_trans by auto
qed

section \<open>Properties\<close>


text \<open>
  C23. A job is started once: when a request was accepted as job \<open>j\<close>, then after anything else that
  happened, an accepted request with the same request id or the same idempotency key is given \<open>j\<close>
  again, only if it asks for the same operation, and no job is created for it; the history of \<open>j\<close> has
  only grown, and not at all once it had a terminal event.
\<close>

theorem resubmission_returns_the_same_job:
  assumes "agent_inv s0" and "ag_next_job s0 + length ops + 1 \<le> u64_max"
    and "agent_submit env r s0 = (Ok j, s1)"
    and "agent_submit env2 r2 (fold agent_step ops s1) = (Ok j2, s3)"
    and "ar_request_id r2 = ar_request_id r \<or> ar_idempotency_key r2 = ar_idempotency_key r"
  shows "j2 = j \<and> same_operation r r2 \<and> ag_events s3 = ag_events (fold agent_step ops s1)
    \<and> (\<exists>es fs. hm_get (ag_events s1) j = Some es \<and> hm_get (ag_events s3) j = Some (es @ fs)
         \<and> (list_ex pv_terminal es \<longrightarrow> fs = []))"
proof -
  let ?s2 = "fold agent_step ops s1"
  have s1: "s1 = agent_step (AgentSubmit env r) s0" using assms(3) by simp
  have "ag_next_job s0 < u64_max" using assms(2) by simp
  note first = agent_step_budget [OF assms(1) this, of "AgentSubmit env r", folded s1]
  have kept: "kept s1 ?s2" using first assms(2) by (intro kept_run) auto
  have known1: "hm_get (ag_request_jobs s1) (ar_request_id r) = Some j
      \<and> hm_get (ag_idempotency_jobs s1) (ar_idempotency_key r) = Some j
      \<and> (\<exists>q. hm_get (ag_job_requests s1) j = Some q \<and> same_operation q r)"
    using assms(3)
    by (cases rule: agent_submit_cases [of env r s0])
       (auto simp: agent_new_job_def Let_def same_operation_equiv(1))
  then obtain q where q: "hm_get (ag_job_requests s1) j = Some q" "same_operation q r" by blast
  have at2: "hm_get (ag_request_jobs ?s2) (ar_request_id r) = Some j"
    "hm_get (ag_idempotency_jobs ?s2) (ar_idempotency_key r) = Some j"
    "hm_get (ag_job_requests ?s2) j = Some q"
    using kept known1 q(1) by (auto simp: kept_def)
  have again: "j2 = j \<and> same_operation q r2 \<and> ag_events s3 = ag_events ?s2"
    using assms(4)
  proof (cases rule: agent_submit_cases [of env2 r2 ?s2])
    case (known j3 q3)
    then show ?thesis using assms(4,5) at2 by auto
  qed (use assms(4,5) at2 in auto)
  have inv1: "agent_inv s1" using first by blast
  have "hm_has (ag_events s1) j" using inv1 q(1) by (auto simp: agent_inv_def hm_has_def)
  then obtain es where "hm_get (ag_events s1) j = Some es" by (auto simp: hm_has_def)
  then show ?thesis
    using again kept q(2) same_operation_equiv(2) [OF q(2)] same_operation_equiv(3) [of r q r2]
    by (auto simp: kept_def)
qed

text \<open>
  The two agents disagree on a reused request id. A second submission with a new request id and
  the idempotency key of the first is given the first job by both; when that second request id then
  comes back for another operation, \<open>AppleAgent\<close> refuses it as an idempotency conflict, while
  \<open>RemoteAppleAgent\<close>, which does not record the second id, starts a second job for it.
\<close>

theorem remote_agent_loses_aliases:
  assumes "apple_validate env r1 = Ok ()" "apple_validate env r2 = Ok ()" "apple_validate env r3 = Ok ()"
    and "ar_request_id r2 \<noteq> ar_request_id r1" "ar_idempotency_key r2 = ar_idempotency_key r1"
    and "same_operation r1 r2"
    and "ar_request_id r3 = ar_request_id r2" "ar_idempotency_key r3 \<noteq> ar_idempotency_key r1"
    and "\<not> same_operation r2 r3"
  shows "(let (a1, s1) = agent_submit env r1 apple_agent_new;
              (a2, s2) = agent_submit env r2 s1;
              (a3, s3) = agent_submit env r3 s2
          in a1 = Ok (agent_job_id 1) \<and> a2 = Ok (agent_job_id 1) \<and> s3 = s2
             \<and> a3 = Err (idempotency_conflict ''request identifier was reused for a different operation''))
    \<and> (let (b1, t1) = remote_submit (Some env) r1 remote_agent_new;
            (b2, t2) = remote_submit (Some env) r2 t1;
            (b3, t3) = remote_submit (Some env) r3 t2
        in b1 = Ok (remote_job_id 1) \<and> b2 = Ok (remote_job_id 1) \<and> b3 = Ok (remote_job_id 2))"
proof -
  have no: "\<not> same_operation r1 r3"
    using assms(6,9) same_operation_equiv by blast
  have w: "wrap_add64 1 1 = 2" by (simp add: wrap_add64_def u64_max_def)
  show ?thesis
    using assms no w
    by (simp add: agent_submit_def agent_new_job_def apple_agent_new_def remote_submit_def remote_agent_new_def Let_def)
qed

section \<open>Examples\<close>

definition sample_apple_env :: apple_env where
  "sample_apple_env = \<lparr>env_root = [''srv'', ''ws''], env_canonical = (\<lambda>p. Some [''srv'', ''ws'', p]),
     env_capabilities = [''apple.discovery@1'', ''apple.simulator@1''], env_devices = [''sim-1'']\<rparr>"

definition sample_apple_request :: "string \<Rightarrow> string \<Rightarrow> apple_operation \<Rightarrow> apple_request" where
  "sample_apple_request request key opn =
     \<lparr>ar_version = \<lparr>rv_major = 1, rv_minor = 0\<rparr>, ar_request_id = request, ar_idempotency_key = key,
      ar_capability = apple_capability opn, ar_workspace_path = ''app'', ar_device_id = None,
      ar_lease_id = None, ar_operation = opn\<rparr>"

lemma sample_apple_valid:
  "request \<noteq> [] \<Longrightarrow> key \<noteq> [] \<Longrightarrow> opn \<in> {Discovery, DiscoverSimulator} \<Longrightarrow>
     apple_validate sample_apple_env (sample_apple_request request key opn) = Ok ()"
  by (auto simp: apple_validate_def validate_request_envelope_def sample_apple_request_def sample_apple_env_def
      relative_normal_def path_components_def is_absolute_def segment_component_def)

theorem remote_agent_loses_aliases_witness:
  "fst (agent_submit sample_apple_env (sample_apple_request ''r2'' ''k2'' DiscoverSimulator)
      (snd (agent_submit sample_apple_env (sample_apple_request ''r2'' ''k1'' Discovery)
        (snd (agent_submit sample_apple_env (sample_apple_request ''r1'' ''k1'' Discovery) apple_agent_new)))))
     = Err (idempotency_conflict ''request identifier was reused for a different operation'')
   \<and> fst (remote_submit (Some sample_apple_env) (sample_apple_request ''r2'' ''k2'' DiscoverSimulator)
      (snd (remote_submit (Some sample_apple_env) (sample_apple_request ''r2'' ''k1'' Discovery)
        (snd (remote_submit (Some sample_apple_env) (sample_apple_request ''r1'' ''k1'' Discovery)
           remote_agent_new))))) = Ok (remote_job_id 2)"
  using remote_agent_loses_aliases [of sample_apple_env "sample_apple_request ''r1'' ''k1'' Discovery"
      "sample_apple_request ''r2'' ''k1'' Discovery" "sample_apple_request ''r2'' ''k2'' DiscoverSimulator"]
    sample_apple_valid [of "''r1''" "''k1''" Discovery] sample_apple_valid [of "''r2''" "''k1''" Discovery]
    sample_apple_valid [of "''r2''" "''k2''" DiscoverSimulator]
  by (simp add: case_prod_beta sample_apple_request_def same_operation_def Let_def)

theorem resubmission_returns_the_same_job_witness:
  "fst (agent_submit sample_apple_env (sample_apple_request ''r2'' ''k1'' Discovery)
      (fold agent_step [WorkerProgress (agent_job_id 1) ''half'', WorkerEnds (agent_job_id 1) Panicked]
        (snd (agent_submit sample_apple_env (sample_apple_request ''r1'' ''k1'' Discovery) apple_agent_new))))
     = Ok (agent_job_id 1)"
proof -
  let ?e = sample_apple_env and ?r = "sample_apple_request ''r1'' ''k1'' Discovery"
  let ?r2 = "sample_apple_request ''r2'' ''k1'' Discovery"
  let ?ops = "[WorkerProgress (agent_job_id 1) ''half'', WorkerEnds (agent_job_id 1) Panicked]"
  note valid = sample_apple_valid [of "''r1''" "''k1''" Discovery] sample_apple_valid [of "''r2''" "''k1''" Discovery]
  obtain s1 where s1: "agent_submit ?e ?r apple_agent_new = (Ok (agent_job_id 1), s1)"
    "s1 = snd (agent_new_job ?r apple_agent_new)"
    using valid(1) by (simp add: agent_submit_def agent_new_job_def apple_agent_new_def Let_def)
  have "\<exists>j s3. agent_submit ?e ?r2 (fold agent_step ?ops s1) = (Ok j, s3)"
    using valid(2)
    by (simp add: s1(2) agent_new_job_def apple_agent_new_def Let_def agent_append_def agent_submit_def
        sample_apple_request_def same_operation_def)
  then obtain j s3 where s3: "agent_submit ?e ?r2 (fold agent_step ?ops s1) = (Ok j, s3)" by blast
  have "j = (agent_job_id 1)"
    using resubmission_returns_the_same_job [OF agent_inv_new _ s1(1) s3]
    by (simp add: apple_agent_new_def u64_max_def sample_apple_request_def)
  then show ?thesis using s1(1) s3 by simp
qed


end
