(* ===== verification/Authorization.thy ===== *)
theory Authorization
  imports Prelude
begin

text \<open>
  Authorization of device operations (\<open>lib.rs\<close>, modules \<open>authorization\<close> and \<open>device_adapter\<close>): principals
  with a role and capabilities, leases of devices with a lifetime, and the adapter that asks the
  engine before it lets a call reach the backend of a device. Each method that reads
  \<open>Instant::now\<close> takes the time it reads as an argument; time is monotonic.
\<close>

section \<open>Operations\<close>

datatype role = Operator | Observer

datatype operation =
    DiscoverDevices
  | LeaseDevice
  | ReadLogs
  | StartProcess string
  | StopProcess string
  | InstallDevice string
  | ReadDeviceLogs string
  | ReadArtifact string
  | AttachDebugger string
  | SimulatorLifecycle string
  | SimulatorScreenshot string
  | SimulatorLocation string
  | SimulatorPrivacy string
  | SimulatorMedia string
  | AppleInstall string
  | AppleLaunch string
  | AppleTerminate string
  | AppleUninstall string
  | AppleLogStream string
  | AppleDeviceInfo
  | AppleReadReleasedLogs
  | AppleDebug string

fun operation_capability :: "operation \<Rightarrow> string" where
  "operation_capability DiscoverDevices = ''device.discover''"
| "operation_capability LeaseDevice = ''device.lease''"
| "operation_capability ReadLogs = ''logs.read''"
| "operation_capability (StartProcess _) = ''process.start''"
| "operation_capability (StopProcess _) = ''process.stop''"
| "operation_capability (InstallDevice _) = ''device.install''"
| "operation_capability (ReadDeviceLogs _) = ''logs.read''"
| "operation_capability (ReadArtifact _) = ''artifact.read''"
| "operation_capability (AttachDebugger _) = ''debug.attach''"
| "operation_capability (SimulatorLifecycle _) = ''simulator.lifecycle''"
| "operation_capability (SimulatorScreenshot _) = ''simulator.screenshot''"
| "operation_capability (SimulatorLocation _) = ''simulator.location''"
| "operation_capability (SimulatorPrivacy _) = ''simulator.privacy''"
| "operation_capability (SimulatorMedia _) = ''simulator.media''"
| "operation_capability (AppleInstall _) = ''apple.app.install@1''"
| "operation_capability (AppleLaunch _) = ''apple.app.launch@1''"
| "operation_capability (AppleTerminate _) = ''apple.app.terminate@1''"
| "operation_capability (AppleUninstall _) = ''apple.app.uninstall@1''"
| "operation_capability (AppleLogStream _) = ''apple.app.logs@1''"
| "operation_capability AppleDeviceInfo = ''apple.device.info@1''"
| "operation_capability AppleReadReleasedLogs = ''apple.app.logs.read@1''"
| "operation_capability (AppleDebug _) = ''apple.debug@1''"

fun operation_device :: "operation \<Rightarrow> string option" where
  "operation_device (StartProcess d) = Some d"
| "operation_device (StopProcess d) = Some d"
| "operation_device (InstallDevice d) = Some d"
| "operation_device (ReadDeviceLogs d) = Some d"
| "operation_device (ReadArtifact d) = Some d"
| "operation_device (AttachDebugger d) = Some d"
| "operation_device (SimulatorLifecycle d) = Some d"
| "operation_device (SimulatorScreenshot d) = Some d"
| "operation_device (SimulatorLocation d) = Some d"
| "operation_device (SimulatorPrivacy d) = Some d"
| "operation_device (SimulatorMedia d) = Some d"
| "operation_device (AppleInstall d) = Some d"
| "operation_device (AppleLaunch d) = Some d"
| "operation_device (AppleTerminate d) = Some d"
| "operation_device (AppleUninstall d) = Some d"
| "operation_device (AppleLogStream d) = Some d"
| "operation_device (AppleDebug d) = Some d"
| "operation_device _ = None"

datatype authorization_error =
  AzCapabilityDenied | AzDeviceAlreadyLeased | AzLeaseInactive | AzObserverReadOnly

section \<open>The engine\<close>

record device_lease_entry =
  le_device_id :: string
  le_holder :: string
  le_expires_at :: nat
  le_revoked :: bool

record principal_entry =
  pe_role :: role
  pe_capabilities :: "string list"

record authorizer =
  az_principals :: "(string, principal_entry) hash_map"
  az_leases :: "(nat, device_lease_entry) hash_map"
  az_next_lease_id :: u64

definition authorization_new :: authorizer where
  "authorization_new = \<lparr>az_principals = [], az_leases = [], az_next_lease_id = 1\<rparr>"

definition az_grant :: "string \<Rightarrow> role \<Rightarrow> string \<Rightarrow> authorizer \<Rightarrow> authorizer" where
  "az_grant actor role capability e =
     (let p = (case hm_get (az_principals e) actor of
                 None \<Rightarrow> \<lparr>pe_role = role, pe_capabilities = []\<rparr> | Some p \<Rightarrow> p)
      in e\<lparr>az_principals := hm_insert actor
             \<lparr>pe_role = role, pe_capabilities = List.insert capability (pe_capabilities p)\<rparr>
             (az_principals e)\<rparr>)"

definition entry_active :: "nat \<Rightarrow> device_lease_entry \<Rightarrow> bool" where
  "entry_active now l = (\<not> le_revoked l \<and> now < le_expires_at l)"

definition az_acquire_lease ::
    "nat \<Rightarrow> string \<Rightarrow> string \<Rightarrow> nat \<Rightarrow> authorizer
     \<Rightarrow> (authorization_error + nat) \<times> authorizer" where
  "az_acquire_lease now device holder lifetime e =
     (if map_option pe_role (hm_get (az_principals e) holder) \<noteq> Some Operator
      then (Err AzObserverReadOnly, e)
      else if list_ex (\<lambda>(i, l). le_device_id l = device \<and> entry_active now l) (az_leases e)
      then (Err AzDeviceAlreadyLeased, e)
      else
        (let i = az_next_lease_id e in
         (Ok i, e\<lparr>az_next_lease_id := wrap_add64 i 1,
                  az_leases := hm_insert i \<lparr>le_device_id = device, le_holder = holder,
                    le_expires_at = now + lifetime, le_revoked = False\<rparr> (az_leases e)\<rparr>)))"

definition az_revoke_lease :: "nat \<Rightarrow> authorizer \<Rightarrow> authorizer" where
  "az_revoke_lease i e =
     (case hm_get (az_leases e) i of
        None \<Rightarrow> e
      | Some l \<Rightarrow> e\<lparr>az_leases := hm_insert i (l\<lparr>le_revoked := True\<rparr>) (az_leases e)\<rparr>)"

definition az_lease_is_active :: "nat \<Rightarrow> nat \<Rightarrow> authorizer \<Rightarrow> bool" where
  "az_lease_is_active now i e = is_some_and (entry_active now) (hm_get (az_leases e) i)"

text \<open>The decision of \<open>execute\<close>; the adapter closure runs exactly when it is \<open>Ok\<close>.\<close>

definition az_execute ::
    "nat \<Rightarrow> string \<Rightarrow> operation \<Rightarrow> nat option \<Rightarrow> authorizer \<Rightarrow> authorization_error + unit" where
  "az_execute now actor operation lease e =
     (case hm_get (az_principals e) actor of
        None \<Rightarrow> Err AzCapabilityDenied
      | Some p \<Rightarrow>
          (if operation_capability operation \<notin> set (pe_capabilities p) then Err AzCapabilityDenied
           else if pe_role p = Observer \<and> operation \<noteq> ReadLogs \<and> operation \<noteq> AppleReadReleasedLogs
           then Err AzObserverReadOnly
           else case operation_device operation of
             None \<Rightarrow> Ok ()
           | Some device \<Rightarrow>
               (case lease of
                  None \<Rightarrow> Err AzLeaseInactive
                | Some i \<Rightarrow>
                    (if is_some_and (\<lambda>l. le_device_id l = device \<and> le_holder l = actor \<and> entry_active now l)
                          (hm_get (az_leases e) i)
                     then Ok () else Err AzLeaseInactive))))"

section \<open>The adapter\<close>

datatype adapter_error =
  AdCapabilityDenied | AdLeaseInactive | AdUnsupportedCapability | AdWaitingForDevice

fun adapter_error_code :: "adapter_error \<Rightarrow> string" where
  "adapter_error_code AdCapabilityDenied = ''capability_denied''"
| "adapter_error_code AdLeaseInactive = ''lease_inactive''"
| "adapter_error_code AdUnsupportedCapability = ''unsupported_capability''"
| "adapter_error_code AdWaitingForDevice = ''waiting_for_device''"

fun adapter_error_of :: "authorization_error \<Rightarrow> adapter_error" where
  "adapter_error_of AzLeaseInactive = AdLeaseInactive"
| "adapter_error_of _ = AdCapabilityDenied"

record adapter_context =
  cx_policy :: authorizer
  cx_actor :: string
  cx_lease :: "nat option"

definition context_new :: "authorizer \<Rightarrow> string \<Rightarrow> adapter_context" where
  "context_new policy actor = \<lparr>cx_policy = policy, cx_actor = actor, cx_lease = None\<rparr>"

definition authorize :: "nat \<Rightarrow> operation \<Rightarrow> adapter_context \<Rightarrow> adapter_error + unit" where
  "authorize now operation cx =
     (case az_execute now (cx_actor cx) operation (cx_lease cx) (cx_policy cx) of
        Inl e \<Rightarrow> Err (adapter_error_of e) | Inr u \<Rightarrow> Ok u)"

text \<open>The trait \<open>DeviceAdapterBackend\<close>: what a device can do, over a state of its own.\<close>

record device_info =
  dv_id :: string
  dv_attached :: bool

record 'b backend =
  be_discover :: "'b \<Rightarrow> device_info list \<times> 'b"
  be_install :: "string \<Rightarrow> string \<Rightarrow> 'b \<Rightarrow> 'b"
  be_launch :: "string \<Rightarrow> string \<Rightarrow> 'b \<Rightarrow> (adapter_error + unit) \<times> 'b"
  be_stop :: "string \<Rightarrow> 'b \<Rightarrow> 'b"
  be_logs :: "string \<Rightarrow> 'b \<Rightarrow> string \<times> 'b"
  be_artifact :: "string \<Rightarrow> 'b \<Rightarrow> string \<times> 'b"
  be_attach_debugger :: "string \<Rightarrow> 'b \<Rightarrow> (adapter_error + unit) \<times> 'b"

definition ad_lease ::
    "nat \<Rightarrow> string \<Rightarrow> nat \<Rightarrow> adapter_context \<Rightarrow> (adapter_error + unit) \<times> adapter_context" where
  "ad_lease now device lifetime cx =
     (case authorize now LeaseDevice cx of
        Inl e \<Rightarrow> (Err e, cx)
      | Inr _ \<Rightarrow>
          (case az_acquire_lease now device (cx_actor cx) lifetime (cx_policy cx) of
             (Inl e, p) \<Rightarrow> (Err (adapter_error_of e), cx\<lparr>cx_policy := p\<rparr>)
           | (Inr i, p) \<Rightarrow> (Ok (), cx\<lparr>cx_policy := p, cx_lease := Some i\<rparr>)))"

datatype adapter_call =
    CallDiscover
  | CallInstall string string
  | CallLaunch string string
  | CallStop string
  | CallLogs string
  | CallArtifact string
  | CallAttachDebugger string

fun call_operation :: "adapter_call \<Rightarrow> operation" where
  "call_operation CallDiscover = DiscoverDevices"
| "call_operation (CallInstall d a) = InstallDevice d"
| "call_operation (CallLaunch d a) = StartProcess d"
| "call_operation (CallStop d) = StopProcess d"
| "call_operation (CallLogs d) = ReadDeviceLogs d"
| "call_operation (CallArtifact d) = ReadArtifact d"
| "call_operation (CallAttachDebugger d) = AttachDebugger d"

datatype adapter_value = NoValue | Devices "device_info list" | Bytes string

definition unit_value :: "(adapter_error + unit) \<times> 'b \<Rightarrow> (adapter_error + adapter_value) \<times> 'b" where
  "unit_value = (\<lambda>(r, b). (case r of Inl e \<Rightarrow> Err e | Inr _ \<Rightarrow> Ok NoValue, b))"

fun backend_call :: "'b backend \<Rightarrow> adapter_call \<Rightarrow> 'b \<Rightarrow> (adapter_error + adapter_value) \<times> 'b" where
  "backend_call be CallDiscover b = (case be_discover be b of (ds, b1) \<Rightarrow> (Ok (Devices ds), b1))"
| "backend_call be (CallInstall d a) b = (Ok NoValue, be_install be d a b)"
| "backend_call be (CallLaunch d a) b = unit_value (be_launch be d a b)"
| "backend_call be (CallStop d) b = (Ok NoValue, be_stop be d b)"
| "backend_call be (CallLogs d) b = (case be_logs be d b of (l, b1) \<Rightarrow> (Ok (Bytes l), b1))"
| "backend_call be (CallArtifact d) b = (case be_artifact be d b of (l, b1) \<Rightarrow> (Ok (Bytes l), b1))"
| "backend_call be (CallAttachDebugger d) b = unit_value (be_attach_debugger be d b)"

text \<open>The methods of \<open>AuthorizedAdapter\<close>: ask, then reach the backend.\<close>

definition adapter_perform ::
    "'b backend \<Rightarrow> nat \<Rightarrow> adapter_call \<Rightarrow> adapter_context \<Rightarrow> 'b \<Rightarrow> (adapter_error + adapter_value) \<times> 'b" where
  "adapter_perform be now call cx b =
     (case authorize now (call_operation call) cx of
        Inl e \<Rightarrow> (Err e, b)
      | Inr _ \<Rightarrow> backend_call be call b)"

text \<open>The backend of the tests and the example tools.\<close>

record fake_backend =
  fk_attached :: bool
  fk_installed :: string
  fk_logs :: string
  fk_running :: bool

definition fake_new :: fake_backend where
  "fake_new = \<lparr>fk_attached = True, fk_installed = [], fk_logs = [], fk_running = False\<rparr>"

definition fake_backend_ops :: "fake_backend backend" where
  "fake_backend_ops =
     \<lparr>be_discover = (\<lambda>b. ([\<lparr>dv_id = ''fake-1'', dv_attached = fk_attached b\<rparr>], b)),
      be_install = (\<lambda>_ artifact b. b\<lparr>fk_installed := artifact\<rparr>),
      be_launch = (\<lambda>_ application b.
        if \<not> fk_attached b then (Err AdWaitingForDevice, b)
        else (Ok (), b\<lparr>fk_running := True, fk_logs := application @ '' launched''\<rparr>)),
      be_stop = (\<lambda>_ b. b\<lparr>fk_running := False\<rparr>),
      be_logs = (\<lambda>_ b. (fk_logs b, b)),
      be_artifact = (\<lambda>_ b. (fk_installed b, b)),
      be_attach_debugger = (\<lambda>_ b. (Err AdUnsupportedCapability, b))\<rparr>"

section \<open>One holder at a time\<close>

datatype az_op =
    OpGrant string role string
  | OpAcquire string string nat
  | OpRevoke nat

text \<open>Each operation happens some time after the one before it.\<close>

fun az_step :: "nat \<times> az_op \<Rightarrow> nat \<times> authorizer \<Rightarrow> nat \<times> authorizer" where
  "az_step (wait, OpGrant actor role capability) (t, e) = (t + wait, az_grant actor role capability e)"
| "az_step (wait, OpAcquire device holder lifetime) (t, e) =
     (t + wait, snd (az_acquire_lease (t + wait) device holder lifetime e))"
| "az_step (wait, OpRevoke i) (t, e) = (t + wait, az_revoke_lease i e)"

definition az_inv :: "nat \<times> authorizer \<Rightarrow> bool" where
  "az_inv = (\<lambda>(t, e).
     hm_wf (az_leases e)
     \<and> (\<forall>i. hm_has (az_leases e) i \<longrightarrow> i < az_next_lease_id e)
     \<and> (\<forall>i j l m. hm_get (az_leases e) i = Some l \<longrightarrow> hm_get (az_leases e) j = Some m
          \<longrightarrow> le_device_id l = le_device_id m \<longrightarrow> entry_active t l \<longrightarrow> entry_active t m \<longrightarrow> i = j))"

lemma entry_active_later: "entry_active (t + w) l \<Longrightarrow> entry_active t l"
  by (simp add: entry_active_def)

lemma az_inv_later: "az_inv (t, e) \<Longrightarrow> az_inv (t + w, e)"
  unfolding az_inv_def using entry_active_later by auto

lemma az_inv_acquire:
  assumes "az_inv (t, e)" and "az_next_lease_id e < u64_max"
  shows "az_inv (t, snd (az_acquire_lease t device holder lifetime e))"
proof (cases "az_acquire_lease t device holder lifetime e")
  case (Pair r e1)
  show ?thesis
  proof (cases r)
    case (Inl x)
    then show ?thesis using assms Pair by (auto simp: az_acquire_lease_def Let_def split: if_splits)
  next
    case (Inr i)
    let ?l = "\<lparr>le_device_id = device, le_holder = holder, le_expires_at = t + lifetime, le_revoked = False\<rparr>"
    have free: "\<not> (le_device_id l = device \<and> entry_active t l)" if "hm_get (az_leases e) j = Some l" for j l
      using Pair Inr hm_get_in_set [OF that]
      by (auto simp: az_acquire_lease_def Let_def list_ex_iff split: if_splits)
    have e1: "e1 = e\<lparr>az_next_lease_id := Suc (az_next_lease_id e),
        az_leases := hm_insert (az_next_lease_id e) ?l (az_leases e)\<rparr>"
      using Pair Inr assms(2) by (auto simp: az_acquire_lease_def Let_def wrap_add64_exact split: if_splits)
    show ?thesis
      using assms(1) free unfolding Pair snd_conv e1 az_inv_def
      by (auto simp: less_Suc_eq split: if_splits)
  qed
qed

lemma az_inv_revoke: "az_inv (t, e) \<Longrightarrow> az_inv (t, az_revoke_lease i e)"
  unfolding az_inv_def az_revoke_lease_def
  by (auto simp: entry_active_def hm_has_def split: option.splits if_splits)

lemma az_inv_grant: "az_inv (t, e) \<Longrightarrow> az_inv (t, az_grant a r c e)"
  by (simp add: az_inv_def az_grant_def Let_def)

lemma az_step_budget:
  assumes "az_inv s" and "az_next_lease_id (snd s) < u64_max"
  shows "az_inv (az_step x s) \<and> az_next_lease_id (snd (az_step x s)) \<le> az_next_lease_id (snd s) + 1"
proof -
  obtain w opn t e where x: "x = (w, opn)" and s: "s = (t, e)" by (cases x; cases s)
  have later: "az_inv (t + w, e)" using az_inv_later assms(1) s by simp
  have room: "az_next_lease_id e < u64_max" using assms(2) s by simp
  have step: "az_next_lease_id (snd (az_acquire_lease n d h l e)) \<le> az_next_lease_id e + 1" for n d h l
    using room by (simp add: az_acquire_lease_def Let_def wrap_add64_exact)
  show ?thesis
  proof (cases opn)
    case (OpGrant a r c)
    then show ?thesis using az_inv_grant [OF later] by (simp add: x s az_grant_def Let_def)
  next
    case (OpAcquire d h l)
    then show ?thesis using az_inv_acquire [OF later room] step by (simp add: x s)
  next
    case (OpRevoke i)
    then show ?thesis using az_inv_revoke [OF later]
      by (simp add: x s az_revoke_lease_def split: option.splits)
  qed
qed

interpretation authorization_run: budgeted_machine az_step az_inv "\<lambda>s. az_next_lease_id (snd s)" u64_max
  by unfold_locales (rule az_step_budget)

lemma az_inv_new: "az_inv (t, authorization_new)"
  by (simp add: az_inv_def authorization_new_def)

section \<open>Properties\<close>

lemma az_execute_device:
  assumes "az_execute now actor operation lease e = Inr ()" and "operation_device operation = Some device"
  shows "\<exists>i l p. lease = Some i \<and> hm_get (az_leases e) i = Some l \<and> le_device_id l = device
    \<and> le_holder l = actor \<and> entry_active now l \<and> hm_get (az_principals e) actor = Some p
    \<and> pe_role p = Operator \<and> operation_capability operation \<in> set (pe_capabilities p)"
proof -
  have "operation \<noteq> ReadLogs \<and> operation \<noteq> AppleReadReleasedLogs" using assms(2) by auto
  then show ?thesis
    using assms by (auto simp: az_execute_def is_some_and_iff split: option.splits if_splits)
      (metis role.exhaust)
qed

text \<open>
  Two principals never control one device at the same time: in every state the engine can reach,
  if at one moment two device operations on the same device are both allowed, they are of the same
  holder under the same lease, which is neither expired nor revoked.
\<close>

theorem device_control_is_exclusive:
  assumes "fold az_step ops (t0, authorization_new) = (t, e)" and "Suc (length ops) \<le> u64_max"
    and "az_execute t a1 op1 l1 e = Ok ()" "operation_device op1 = Some device"
    and "az_execute t a2 op2 l2 e = Ok ()" "operation_device op2 = Some device"
  shows "a1 = a2 \<and> l1 = l2 \<and> (\<exists>i. l1 = Some i \<and> az_lease_is_active t i e)"
proof -
  have inv: "az_inv (t, e)"
    using authorization_run.run_budget [OF az_inv_new, of t0 ops] assms(1,2)
    by (simp add: authorization_new_def)
  obtain i l where i: "l1 = Some i" "hm_get (az_leases e) i = Some l" "le_device_id l = device"
    "le_holder l = a1" "entry_active t l"
    using az_execute_device [OF assms(3,4)] by blast
  obtain j m where j: "l2 = Some j" "hm_get (az_leases e) j = Some m" "le_device_id m = device"
    "le_holder m = a2" "entry_active t m"
    using az_execute_device [OF assms(5,6)] by blast
  have "i = j" using inv i j by (auto simp: az_inv_def)
  then show ?thesis using i j by (auto simp: az_lease_is_active_def)
qed

text \<open>
  C24. The adapter lets nothing past the engine: a call changes the state of a device's backend, or
  returns anything but an error, only for an actor that has the capability of the call and, for a call
  on a device, is an operator holding an active lease of that device in this context.
\<close>

theorem adapter_reaches_backend_only_when_authorized:
  assumes "adapter_perform be now call cx b = (res, b1)" and "b1 \<noteq> b \<or> is_ok res"
  shows "\<exists>p. hm_get (az_principals (cx_policy cx)) (cx_actor cx) = Some p
     \<and> operation_capability (call_operation call) \<in> set (pe_capabilities p)
     \<and> pe_role p = Operator
     \<and> (call = CallDiscover \<or> (\<exists>i l. cx_lease cx = Some i \<and> hm_get (az_leases (cx_policy cx)) i = Some l
          \<and> operation_device (call_operation call) = Some (le_device_id l)
          \<and> le_holder l = cx_actor cx \<and> entry_active now l))"
proof -
  have ok: "az_execute now (cx_actor cx) (call_operation call) (cx_lease cx) (cx_policy cx) = Inr ()"
    using assms by (auto simp: adapter_perform_def authorize_def split: sum.splits)
  show ?thesis
  proof (cases "operation_device (call_operation call)")
    case None
    then have "call = CallDiscover" by (cases call) auto
    then show ?thesis using ok
      by (auto simp: az_execute_def split: option.splits if_splits) (metis role.exhaust)
  next
    case (Some device)
    from az_execute_device [OF ok Some] Some show ?thesis by blast
  qed
qed

section \<open>Examples\<close>

definition sample_az_ops :: "(nat \<times> az_op) list" where
  "sample_az_ops = [(0, OpGrant ''ann'' Operator ''process.start''), (1, OpAcquire ''sim-1'' ''ann'' 10)]"

definition sample_az :: authorizer where
  "sample_az = \<lparr>az_principals = [(''ann'', \<lparr>pe_role = Operator, pe_capabilities = [''process.start'']\<rparr>)],
     az_leases = [(1, \<lparr>le_device_id = ''sim-1'', le_holder = ''ann'', le_expires_at = 11, le_revoked = False\<rparr>)],
     az_next_lease_id = 2\<rparr>"

lemma sample_az_reached: "fold az_step sample_az_ops (0, authorization_new) = (1, sample_az)"
  by (simp add: sample_az_ops_def sample_az_def authorization_new_def az_grant_def az_acquire_lease_def
      hm_insert_def hm_get_def wrap_add64_def u64_max_def Let_def)

lemma sample_az_allows: "az_execute 1 ''ann'' (StartProcess ''sim-1'') (Some 1) sample_az = Ok ()"
  by (simp add: az_execute_def sample_az_def hm_get_def entry_active_def)

theorem device_control_is_exclusive_witness: "az_lease_is_active 1 1 sample_az"
  using device_control_is_exclusive [OF sample_az_reached _ sample_az_allows _ sample_az_allows, of "''sim-1''"]
  by (simp add: sample_az_ops_def u64_max_def)

theorem adapter_reaches_backend_only_when_authorized_witness:
  "fk_running (snd (adapter_perform fake_backend_ops 1 (CallLaunch ''sim-1'' ''app'')
      \<lparr>cx_policy = sample_az, cx_actor = ''ann'', cx_lease = Some 1\<rparr> fake_new))
   \<and> hm_has (az_principals sample_az) ''ann''"
proof -
  let ?cx = "\<lparr>cx_policy = sample_az, cx_actor = ''ann'', cx_lease = Some 1\<rparr>"
  have run: "adapter_perform fake_backend_ops 1 (CallLaunch ''sim-1'' ''app'') ?cx fake_new
      = (Ok NoValue, fake_new\<lparr>fk_running := True, fk_logs := ''app launched''\<rparr>)"
    using sample_az_allows
    by (simp add: adapter_perform_def authorize_def fake_backend_ops_def fake_new_def unit_value_def)
  from adapter_reaches_backend_only_when_authorized [OF run] run
  show ?thesis by (auto simp: hm_has_def)
qed

end
