(* ===== verification/Workspaces.thy ===== *)
theory Workspaces
  imports Paths
begin

text \<open>
  The workspace manager (\<open>lib.rs\<close>, module \<open>workspace\<close>): write leases of session directories, kept in
  memory and as files under \<open>.leases\<close>, and the upload of a manifest into a leased session. The directory
  below the root is a map from component lists to nodes. What symbolic links do to a path is an
  argument: \<open>outside\<close> tells that the canonical form of a path is not below a base, \<open>is_link\<close> that a
  path is a link itself; \<open>sha\<close> is the digest in hexadecimal.
\<close>

section \<open>Directory trees\<close>

type_synonym path = "string list"

datatype node = DirNode | FileNode string

type_synonym tree = "(path, node) hash_map"

datatype workspace_error = PathEscape | WriteLeaseConflict | WriteLeaseRequired | WorkspaceIo

definition path_of :: "string \<Rightarrow> path" where
  "path_of p = map component_name (path_components p)"

definition node_at :: "tree \<Rightarrow> path \<Rightarrow> node option" where
  "node_at t p = (if p = [] then Some DirNode else hm_get t p)"

definition is_file :: "tree \<Rightarrow> path \<Rightarrow> bool" where
  "is_file t p = (case node_at t p of Some (FileNode _) \<Rightarrow> True | _ \<Rightarrow> False)"

text \<open>\<open>create_dir_all\<close>: fails on a file in the way and then creates nothing.\<close>

definition create_dir_all :: "path \<Rightarrow> tree \<Rightarrow> tree option" where
  "create_dir_all p t =
     (let ps = filter (\<lambda>q. q \<noteq> []) (prefixes p) in
      if list_ex (is_file t) ps then None
      else Some (fold (\<lambda>q t. hm_insert q DirNode t) ps t))"

definition tree_write_file :: "path \<Rightarrow> string \<Rightarrow> tree \<Rightarrow> tree option" where
  "tree_write_file p bytes t =
     (if p = [] \<or> node_at t p = Some DirNode \<or> node_at t (butlast p) \<noteq> Some DirNode then None
      else Some (hm_insert p (FileNode bytes) t))"

section \<open>Names\<close>

definition validate_relative_path :: "string \<Rightarrow> workspace_error + unit" where
  "validate_relative_path p = ensure (relative_normal p) PathEscape"

definition validate_workspace_name :: "string \<Rightarrow> workspace_error + unit" where
  "validate_workspace_name name = validate_relative_path name"

definition validate_agent_name :: "string \<Rightarrow> workspace_error + unit" where
  "validate_agent_name name =
     (if map to_ascii_lowercase name = ''.leases'' then Err PathEscape else validate_workspace_name name)"

section \<open>The manager\<close>

record workspace_manager =
  wm_tree :: tree
  wm_write_leases :: "(string \<times> string, string) hash_map"

definition workspace_new :: "tree \<Rightarrow> workspace_manager" where
  "workspace_new t = \<lparr>wm_tree = t, wm_write_leases = []\<rparr>"

definition session_path :: "string \<Rightarrow> string \<Rightarrow> path" where
  "session_path agent session = path_of agent @ path_of session"

definition lease_path :: "string \<Rightarrow> string \<Rightarrow> path" where
  "lease_path agent session = ''.leases'' # path_of agent @ path_of session"

definition acquire_write_lease ::
    "(path \<Rightarrow> path \<Rightarrow> bool) \<Rightarrow> string \<Rightarrow> string \<Rightarrow> string \<Rightarrow> workspace_manager
     \<Rightarrow> (workspace_error + unit) \<times> workspace_manager" where
  "acquire_write_lease outside agent session client m =
     (case and_then (validate_agent_name agent) (\<lambda>_. validate_workspace_name session) of
        Inl e \<Rightarrow> (Err e, m)
      | Inr _ \<Rightarrow>
          (if is_some_and (\<lambda>holder. holder \<noteq> client) (hm_get (wm_write_leases m) (agent, session))
           then (Err WriteLeaseConflict, m)
           else case create_dir_all (session_path agent session) (wm_tree m) of
             None \<Rightarrow> (Err WorkspaceIo, m)
           | Some t1 \<Rightarrow>
               (if outside [] (session_path agent session) then (Err PathEscape, m\<lparr>wm_tree := t1\<rparr>)
                else case create_dir_all (butlast (lease_path agent session)) t1 of
                  None \<Rightarrow> (Err WorkspaceIo, m\<lparr>wm_tree := t1\<rparr>)
                | Some t2 \<Rightarrow>
                    (case node_at t2 (lease_path agent session) of
                       None \<Rightarrow>
                         (Ok (), \<lparr>wm_tree = hm_insert (lease_path agent session) (FileNode client) t2,
                                  wm_write_leases = hm_insert (agent, session) client (wm_write_leases m)\<rparr>)
                     | Some (FileNode holder) \<Rightarrow>
                         (if holder \<noteq> client then (Err WriteLeaseConflict, m\<lparr>wm_tree := t2\<rparr>)
                          else (Ok (), \<lparr>wm_tree = t2,
                                  wm_write_leases = hm_insert (agent, session) client (wm_write_leases m)\<rparr>))
                     | Some DirNode \<Rightarrow> (Err WorkspaceIo, m\<lparr>wm_tree := t2\<rparr>)))))"

record manifest_hash =
  mh_path :: string
  mh_sha256 :: string

definition slashes :: "string \<Rightarrow> string" where
  "slashes p = map (\<lambda>c. if c = CHR 0x5C then CHR ''/'' else c) p"

text \<open>The nearest ancestor that exists; the session itself does, so the loop stops there at the latest.\<close>

fun existing_ancestor :: "tree \<Rightarrow> path \<Rightarrow> nat \<Rightarrow> path" where
  "existing_ancestor t p 0 = p"
| "existing_ancestor t p (Suc n) = (if node_at t p \<noteq> None then p else existing_ancestor t (butlast p) n)"

definition upload_entry ::
    "(path \<Rightarrow> path \<Rightarrow> bool) \<Rightarrow> (path \<Rightarrow> bool) \<Rightarrow> path \<Rightarrow> string \<Rightarrow> string \<Rightarrow> tree
     \<Rightarrow> (workspace_error + unit) \<times> tree" where
  "upload_entry outside is_link base p contents t =
     (if \<not> relative_normal p then (Err PathEscape, t)
      else
        (let dest = base @ path_of p in
         if outside base (existing_ancestor t (butlast dest) (length dest)) then (Err PathEscape, t)
         else if is_link dest then (Err PathEscape, t)
         else case create_dir_all (butlast dest) t of
           None \<Rightarrow> (Err PathEscape, t)
         | Some t1 \<Rightarrow>
             (case tree_write_file dest contents t1 of
                None \<Rightarrow> (Err PathEscape, t1)
              | Some t2 \<Rightarrow> (Ok (), t2))))"

fun upload_entries ::
    "(path \<Rightarrow> path \<Rightarrow> bool) \<Rightarrow> (path \<Rightarrow> bool) \<Rightarrow> (string \<Rightarrow> string) \<Rightarrow> path \<Rightarrow> (string \<times> string) list
     \<Rightarrow> tree \<Rightarrow> (workspace_error + manifest_hash list) \<times> tree" where
  "upload_entries outside is_link sha base [] t = (Ok [], t)"
| "upload_entries outside is_link sha base ((p, contents) # entries) t =
     (case upload_entry outside is_link base p contents t of
        (Inl e, t1) \<Rightarrow> (Err e, t1)
      | (Inr _, t1) \<Rightarrow>
          (case upload_entries outside is_link sha base entries t1 of
             (Inl e, t2) \<Rightarrow> (Err e, t2)
           | (Inr hs, t2) \<Rightarrow> (Ok (\<lparr>mh_path = slashes p, mh_sha256 = sha contents\<rparr> # hs), t2)))"

definition upload_manifest ::
    "(path \<Rightarrow> path \<Rightarrow> bool) \<Rightarrow> (path \<Rightarrow> bool) \<Rightarrow> (string \<Rightarrow> string) \<Rightarrow> string \<Rightarrow> string \<Rightarrow> string
     \<Rightarrow> (string \<times> string) list \<Rightarrow> workspace_manager
     \<Rightarrow> (workspace_error + manifest_hash list) \<times> workspace_manager" where
  "upload_manifest outside is_link sha agent session client entries m =
     (case and_then (validate_agent_name agent) (\<lambda>_. validate_workspace_name session) of
        Inl e \<Rightarrow> (Err e, m)
      | Inr _ \<Rightarrow>
          (if hm_get (wm_write_leases m) (agent, session) \<noteq> Some client then (Err WriteLeaseRequired, m)
           else if node_at (wm_tree m) (session_path agent session) = None then (Err WorkspaceIo, m)
           else if is_file (wm_tree m) (session_path agent session) then (Err PathEscape, m)
           else
             (case upload_entries outside is_link sha (session_path agent session) entries (wm_tree m) of
                (r, t) \<Rightarrow> (r, m\<lparr>wm_tree := t\<rparr>))))"

section \<open>Lemmas on trees\<close>

lemma node_at_create_dir_all:
  assumes "create_dir_all p t = Some t1"
  shows "node_at t1 q = (if prefix q p then Some DirNode else node_at t q)"
proof -
  have fold: "hm_get (fold (\<lambda>q t. hm_insert q DirNode t) ps t) q
      = (if q \<in> set ps then Some DirNode else hm_get t q)" for ps
    using hm.fold_put_same [of q ps "\<lambda>_. DirNode" t] hm.fold_put_other [of q ps "\<lambda>_. DirNode" t]
    by (cases "q \<in> set ps") simp_all
  have t1: "t1 = fold (\<lambda>q t. hm_insert q DirNode t) (filter (\<lambda>q. q \<noteq> []) (prefixes p)) t"
    using assms by (simp add: create_dir_all_def Let_def split: if_splits)
  show ?thesis unfolding node_at_def t1 fold by simp
qed

lemma create_dir_all_keeps_files:
  assumes "create_dir_all p t = Some t1" and "node_at t q = Some (FileNode b)"
  shows "node_at t1 q = Some (FileNode b)"
proof -
  have "\<not> prefix q p"
  proof
    assume "prefix q p"
    moreover have "q \<noteq> []" using assms(2) by (auto simp: node_at_def)
    ultimately have "list_ex (is_file t) (filter (\<lambda>q. q \<noteq> []) (prefixes p))"
      using assms(2) by (auto simp: list_ex_iff is_file_def)
    then show False using assms(1) by (simp add: create_dir_all_def Let_def)
  qed
  then show ?thesis using node_at_create_dir_all [OF assms(1), of q] assms(2) by simp
qed

lemma node_at_write_file:
  "tree_write_file p bytes t = Some t1 \<Longrightarrow>
     node_at t1 q = (if q = p then Some (FileNode bytes) else node_at t q)"
  by (auto simp: tree_write_file_def node_at_def split: if_splits)

lemma path_of_nonempty: "relative_normal p \<Longrightarrow> path_of p \<noteq> []"
  using relative_normal_components_nonempty by (simp add: path_of_def)

text \<open>What uploading an entry can change: nodes below the session, and directories above it.\<close>

lemma upload_entry_confined:
  assumes "upload_entry outside is_link base p contents t = (r, t1)" and "\<not> prefix base q"
    and "prefix q base \<longrightarrow> node_at t q = Some DirNode"
  shows "node_at t1 q = node_at t q"
proof (cases "relative_normal p")
  case False
  then show ?thesis using assms(1) by (simp add: upload_entry_def)
next
  case True
  let ?dest = "base @ path_of p"
  have dest: "butlast ?dest = base @ butlast (path_of p)"
    using path_of_nonempty [OF True] by (simp add: butlast_append)
  have dir: "node_at t2 q = node_at t q" if "create_dir_all (butlast ?dest) t = Some t2" for t2
  proof -
    have "prefix q (base @ butlast (path_of p)) \<Longrightarrow> prefix q base"
      using assms(2) by (meson prefixI prefix_same_cases)
    then show ?thesis using node_at_create_dir_all [OF that, of q] assms(3) unfolding dest by auto
  qed
  have "q \<noteq> ?dest" using assms(2) by auto
  then show ?thesis
    using assms(1) dir
    by (auto simp: upload_entry_def Let_def node_at_write_file split: if_splits option.splits)
qed

lemma upload_entries_confined:
  assumes "upload_entries outside is_link sha base entries t = (r, t1)" and "\<not> prefix base q"
    and "prefix q base \<longrightarrow> node_at t q = Some DirNode"
  shows "node_at t1 q = node_at t q"
  using assms
proof (induction entries arbitrary: r t t1)
  case Nil
  then show ?case by simp
next
  case (Cons e entries)
  obtain p contents where e: "e = (p, contents)" by (cases e)
  obtain r1 t2 where one: "upload_entry outside is_link base p contents t = (r1, t2)"
    by (cases "upload_entry outside is_link base p contents t")
  have t2: "node_at t2 q = node_at t q"
    by (rule upload_entry_confined [OF one Cons.prems(2,3)])
  show ?case
  proof (cases r1)
    case (Inl x)
    then show ?thesis using Cons.prems(1) one t2 e by simp
  next
    case (Inr u)
    obtain r2 t3 where rest: "upload_entries outside is_link sha base entries t2 = (r2, t3)"
      by (cases "upload_entries outside is_link sha base entries t2")
    have "node_at t3 q = node_at t2 q"
      by (rule Cons.IH [OF rest Cons.prems(2)]) (use Cons.prems(3) t2 in simp)
    moreover have "t1 = t3" using Cons.prems(1) e one Inr rest by (cases r2) auto
    ultimately show ?thesis using t2 by simp
  qed
qed

section \<open>Leases and uploads\<close>

definition tree_ok :: "tree \<Rightarrow> bool" where
  "tree_ok t \<longleftrightarrow>
     list_all (\<lambda>(p, _). list_all (\<lambda>q. q = p \<or> node_at t q = Some DirNode) (prefixes p)) t"

lemma tree_ok_above:
  "tree_ok t \<Longrightarrow> node_at t p \<noteq> None \<Longrightarrow> strict_prefix q p \<Longrightarrow> node_at t q = Some DirNode"
  by (cases "p = []")
    (fastforce simp: tree_ok_def list_all_iff node_at_def strict_prefix_def dest!: hm_get_in_set)+


datatype workspace_op =
    OpAcquireLease string string string
  | OpUpload string string string "(string \<times> string) list"
  | OpRestart

text \<open>A restarted manager has the tree and no leases in memory.\<close>

fun workspace_step ::
    "(path \<Rightarrow> path \<Rightarrow> bool) \<Rightarrow> (path \<Rightarrow> bool) \<Rightarrow> (string \<Rightarrow> string) \<Rightarrow> workspace_op
     \<Rightarrow> workspace_manager \<Rightarrow> workspace_manager" where
  "workspace_step outside is_link sha (OpAcquireLease a s c) m = snd (acquire_write_lease outside a s c m)"
| "workspace_step outside is_link sha (OpUpload a s c es) m = snd (upload_manifest outside is_link sha a s c es m)"
| "workspace_step outside is_link sha OpRestart m = workspace_new (wm_tree m)"

text \<open>Agents whose directory is not the one of the lease files, however the name is spelled.\<close>

definition proper_agent :: "string \<Rightarrow> bool" where
  "proper_agent agent \<longleftrightarrow> path_of agent \<noteq> [] \<and> hd (path_of agent) \<noteq> ''.leases''"

fun proper_op :: "workspace_op \<Rightarrow> bool" where
  "proper_op (OpAcquireLease a s c) = proper_agent a"
| "proper_op (OpUpload a s c es) = proper_agent a"
| "proper_op OpRestart = True"

lemma proper_session:
  "proper_agent a \<Longrightarrow> \<not> prefix (session_path a s) (''.leases'' # p)"
  by (cases "path_of a") (auto simp: proper_agent_def session_path_def)

lemma proper_session_below:
  "proper_agent a \<Longrightarrow> \<not> prefix (''.leases'' # p) (session_path a s)"
  by (cases "path_of a") (auto simp: proper_agent_def session_path_def)

lemma acquire_keeps_file:
  assumes "node_at (wm_tree m) p = Some (FileNode c)"
  shows "node_at (wm_tree (snd (acquire_write_lease outside a s cl m))) p = Some (FileNode c)"
proof -
  have ins: "node_at (hm_insert l x t) p = Some (FileNode c)"
    if "node_at t p = Some (FileNode c)" "node_at t l = None" for l x t
    using that by (auto simp: node_at_def split: if_splits)
  show ?thesis
    using assms
    by (auto simp: acquire_write_lease_def ins dest!: create_dir_all_keeps_files
        split: sum.splits option.splits node.splits)
qed

lemma upload_keeps_lease_file:
  assumes "node_at (wm_tree m) (''.leases'' # p) = Some (FileNode c)" and "proper_agent a"
  shows "node_at (wm_tree (snd (upload_manifest outside is_link sha a s cl es m))) (''.leases'' # p)
    = Some (FileNode c)"
proof -
  have "node_at t1 (''.leases'' # p) = Some (FileNode c)"
    if "upload_entries outside is_link sha (session_path a s) es (wm_tree m) = (r, t1)" for r t1
    using upload_entries_confined [OF that proper_session [OF assms(2)]] proper_session_below [OF assms(2)]
      assms(1) by simp
  then show ?thesis
    using assms(1) by (auto simp: upload_manifest_def split: sum.splits prod.splits)
qed

lemma run_keeps_lease_file:
  assumes "node_at (wm_tree m) (''.leases'' # p) = Some (FileNode c)" and "list_all proper_op ops"
  shows "node_at (wm_tree (fold (workspace_step outside is_link sha) ops m)) (''.leases'' # p)
    = Some (FileNode c)"
  using assms
proof (induction ops arbitrary: m)
  case Nil
  then show ?case by simp
next
  case (Cons x ops)
  have "node_at (wm_tree (workspace_step outside is_link sha x m)) (''.leases'' # p) = Some (FileNode c)"
    using Cons.prems
    by (cases x) (simp_all add: acquire_keeps_file upload_keeps_lease_file workspace_new_def)
  then show ?case using Cons by simp
qed

text \<open>
  C26. A write lease is exclusive and durable: once it is granted to a client, no other client is
  granted the lease of the same session, after any further operations and restarts of the manager, as
  long as no agent is named into the directory of the lease files.
\<close>

theorem write_lease_is_exclusive:
  assumes "acquire_write_lease outside agent session client m0 = (Ok (), m)"
    and "list_all proper_op ops"
    and "lease_path agent2 session2 = lease_path agent session" and "client2 \<noteq> client"
  shows "fst (acquire_write_lease outside2 agent2 session2 client2
    (fold (workspace_step outside is_link sha) ops m)) \<noteq> Ok ()"
proof
  let ?m = "fold (workspace_step outside is_link sha) ops m"
  assume ok: "fst (acquire_write_lease outside2 agent2 session2 client2 ?m) = Ok ()"
  have "node_at (wm_tree m) (lease_path agent session) = Some (FileNode client)"
    using assms(1)
    by (auto simp: acquire_write_lease_def node_at_def lease_path_def split: sum.splits if_splits option.splits node.splits)
  then have held: "node_at (wm_tree ?m) (lease_path agent session) = Some (FileNode client)"
    unfolding lease_path_def by (rule run_keeps_lease_file [OF _ assms(2)])
  have "node_at t (lease_path agent session) = Some (FileNode client)"
    if "create_dir_all q t0 = Some t" "node_at t0 (lease_path agent session) = Some (FileNode client)" for q t0 t
    using create_dir_all_keeps_files [OF that] .
  then show False
    using ok held assms(3,4)
    by (auto simp: acquire_write_lease_def split: sum.splits if_splits option.splits node.splits)
qed

text \<open>A root without symbolic links, where nothing leaves a base.\<close>

definition sample_workspace :: workspace_manager where
  "sample_workspace = snd (acquire_write_lease (\<lambda>_ _. False) ''mac'' ''s1'' ''alice'' (workspace_new []))"


lemma write_lease_is_exclusive_witness:
  "fst (acquire_write_lease (\<lambda>_ _. False) ''mac'' ''s1'' ''bob''
     (fold (workspace_step (\<lambda>_ _. False) (\<lambda>_. False) (\<lambda>_. ''00''))
        [OpUpload ''mac'' ''s1'' ''alice'' [(''a'', ''x'')], OpRestart] sample_workspace)) \<noteq> Ok ()"
proof -
  have granted: "acquire_write_lease (\<lambda>_ _. False) ''mac'' ''s1'' ''alice'' (workspace_new [])
      = (Ok (), sample_workspace)"
    unfolding sample_workspace_def by code_simp
  have "list_all proper_op [OpUpload ''mac'' ''s1'' ''alice'' [(''a'', ''x'')], OpRestart]"
    by code_simp
  from write_lease_is_exclusive [OF granted this refl, of "''bob''" "\<lambda>_ _. False"] show ?thesis by simp
qed

text \<open>
  The reserved directory is refused as an agent only when the name is exactly \<open>.leases\<close>: with a
  trailing slash it passes the check, and its session directory holds the lease files of another
  agent. A client who is refused a lease can so overwrite its holder with an upload of its own; after
  a restart of the manager the client is granted the lease and the holder is refused.
\<close>

theorem reserved_name_bypass:
  "let ops = fold (workspace_step (\<lambda>_ _. False) (\<lambda>_. False) (\<lambda>_. ''00''));
       before = ops [OpAcquireLease ''mac'' ''s1'' ''alice''] (workspace_new []);
       after = ops [OpAcquireLease ''.leases/'' ''mac'' ''mallory'',
                    OpUpload ''.leases/'' ''mac'' ''mallory'' [(''s1'', ''mallory'')], OpRestart] before
   in fst (acquire_write_lease (\<lambda>_ _. False) ''mac'' ''s1'' ''mallory'' before) = Err WriteLeaseConflict
    \<and> fst (acquire_write_lease (\<lambda>_ _. False) ''mac'' ''s1'' ''mallory'' after) = Ok ()
    \<and> fst (acquire_write_lease (\<lambda>_ _. False) ''mac'' ''s1'' ''alice'' after) = Err WriteLeaseConflict"
  by code_simp

end
