(* ===== verification/Service.thy ===== *)
theory Service
  imports AuditRetention EventLog Topology
begin

text \<open>
  The dashboard service (\<open>dashboard/service.rs\<close>): the component that ties the topology projector, the
  event journal, the audit log and the policy engine together. It keeps the activities of the host,
  the approvals that wait for a decision and the one-use grants of administrative mutations, and writes
  a checkpoint of them with every change. An operation is a function from the state of the service to
  its result and the state after it; \<open>None\<close> is a panic. The lock around the audit log is not poisoned.
\<close>

section \<open>Errors and mutations\<close>

datatype service_error =
    SeConfigurationUnavailable | SePermissionDenied | SeApprovalExpired | SeAuditUnavailable
  | SeCursorAhead | SeResyncRequired | SeLimitExceeded | SeInvalidRequest | SeNotFound
  | SeRevisionConflict

fun service_error_code :: "service_error \<Rightarrow> string" where
  "service_error_code SeConfigurationUnavailable = ''configuration_unavailable''"
| "service_error_code SePermissionDenied = ''permission_denied''"
| "service_error_code SeApprovalExpired = ''approval_expired''"
| "service_error_code SeAuditUnavailable = ''audit_unavailable''"
| "service_error_code SeCursorAhead = ''cursor_ahead''"
| "service_error_code SeResyncRequired = ''resync_required''"
| "service_error_code SeLimitExceeded = ''limit_exceeded''"
| "service_error_code SeInvalidRequest = ''invalid_request''"
| "service_error_code SeNotFound = ''not_found''"
| "service_error_code SeRevisionConflict = ''revision_conflict''"

datatype existing_jobs = FinishJobs | CancelJobs

datatype audit_deletion_scope = CurrentFilter | AllRetained

record connection_config =
  cc_version :: nat
  cc_registry_address :: string
  cc_registry_peer_id :: string

datatype admin_mutation =
    ConnectionSet connection_config
  | PolicyPut policy_rule u64
  | PolicyDelete rule_id u64
  | AuditDelete audit_deletion_scope audit_filter

fun operation_and_resource :: "admin_mutation \<Rightarrow> string \<times> resource_class" where
  "operation_and_resource (ConnectionSet _) = (''devicelane.service.connection.set'', DeviceLaneService)"
| "operation_and_resource (PolicyPut _ _) = (''devicelane.policy.put'', DeviceLanePolicy)"
| "operation_and_resource (PolicyDelete _ _) = (''devicelane.policy.delete'', DeviceLanePolicy)"
| "operation_and_resource (AuditDelete _ _) = (''devicelane.audit.delete'', DeviceLanePolicy)"

fun map_approval_error :: "approval_error \<Rightarrow> service_error" where
  "map_approval_error Expired = SeApprovalExpired"
| "map_approval_error ApprovalRuleLimitExceeded = SeLimitExceeded"
| "map_approval_error ApprovalLimitExceeded = SeLimitExceeded"
| "map_approval_error _ = SePermissionDenied"

fun map_audit_error :: "audit_error \<Rightarrow> service_error" where
  "map_audit_error AeCursorAhead = SeCursorAhead"
| "map_audit_error AeLimitExceeded = SeLimitExceeded"
| "map_audit_error AeFrameTooLarge = SeLimitExceeded"
| "map_audit_error _ = SeAuditUnavailable"

section \<open>State\<close>

record pending =
  pd_nonce :: string
  pd_request :: approval_request
  pd_access :: access_request
  pd_admin_mutation_digest :: "string option"

record admin_grant =
  gr_access :: access_request
  gr_expires_at_ms :: u64
  gr_admin_mutation_digest :: "string option"

text \<open>A \<open>BTreeMap\<close>: an association list in the order of its keys.\<close>

definition bt_insert :: "string \<Rightarrow> 'v \<Rightarrow> (string, 'v) hash_map \<Rightarrow> (string, 'v) hash_map" where
  "bt_insert k v m = insort_key fst (k, v) (hm_remove k m)"

record checkpoint_payload =
  cp_version :: nat
  cp_audit_sequence :: u64
  cp_activities :: "activity_event list"
  cp_pending :: "(approval_id, pending) hash_map"
  cp_admin_grants :: "(string, admin_grant) hash_map"
  cp_policy :: policy_engine
  cp_paused :: bool

record activity_checkpoint = checkpoint_payload +
  cp_digest :: string

record dashboard_service =
  ds_local_host_id :: host_id
  ds_topology :: projector
  ds_events :: journal
  ds_disk :: audit_disk
  ds_audit :: audit_store
  ds_policy :: policy_engine
  ds_pending :: "(approval_id, pending) hash_map"
  ds_admin_grants :: "(string, admin_grant) hash_map"
  ds_activities :: "(activity_id, activity_event) hash_map"
  ds_paused :: bool
  ds_next_audit_sequence :: u64
  ds_audit_healthy :: bool
  ds_persistent :: bool
  ds_checkpoint_file :: "string option"

text \<open>
  What the host does with the bytes of a checkpoint: write them, fail before the rename, or fail after
  it, when the new file is in place although an error is reported.
\<close>

datatype checkpoint_write = CheckpointWritten | CheckpointNotWritten | CheckpointUnsynced

record service_env =
  sv_policy :: codec
  sv_event_json :: "activity_event \<Rightarrow> string"
  sv_sha :: "string \<Rightarrow> string"
  sv_audit :: audit_codec
  sv_mutation_json :: "admin_mutation \<Rightarrow> string"
  sv_payload_json :: "checkpoint_payload \<Rightarrow> string"
  sv_checkpoint_json :: "activity_checkpoint \<Rightarrow> string"
  sv_read_checkpoint :: "string \<Rightarrow> activity_checkpoint option"
  sv_write :: "string \<Rightarrow> checkpoint_write"

section \<open>Operations as state transformers\<close>

type_synonym 'a service_op = "dashboard_service \<Rightarrow> ((service_error + 'a) \<times> dashboard_service) option"

definition sv_ok :: "'a \<Rightarrow> 'a service_op" where
  "sv_ok x s = Some (Ok x, s)"

definition sv_fail :: "service_error \<Rightarrow> 'a service_op" where
  "sv_fail e s = Some (Err e, s)"

text \<open>The operator \<open>?\<close>: an error leaves the function.\<close>

definition sv_then :: "'a service_op \<Rightarrow> ('a \<Rightarrow> 'b service_op) \<Rightarrow> 'b service_op" where
  "sv_then m f s =
     (case m s of
        None \<Rightarrow> None
      | Some (Inl e, s1) \<Rightarrow> Some (Err e, s1)
      | Some (Inr x, s1) \<Rightarrow> f x s1)"

text \<open>\<open>if let Err(error)\<close>: the handler runs on the state the operation left.\<close>

definition sv_rescue :: "'a service_op \<Rightarrow> (service_error \<Rightarrow> 'a service_op) \<Rightarrow> 'a service_op" where
  "sv_rescue m h s =
     (case m s of
        None \<Rightarrow> None
      | Some (Inl e, s1) \<Rightarrow> h e s1
      | Some (Inr x, s1) \<Rightarrow> Some (Ok x, s1))"

definition sv_modify :: "(dashboard_service \<Rightarrow> dashboard_service) \<Rightarrow> unit service_op" where
  "sv_modify f s = Some (Ok (), f s)"

definition mutation_digest :: "service_env \<Rightarrow> admin_mutation \<Rightarrow> string" where
  "mutation_digest env m = hex (sv_sha env (sv_mutation_json env m))"

section \<open>Auditing\<close>

definition append_audit :: "service_env \<Rightarrow> raw_audit_record \<Rightarrow> unit service_op" where
  "append_audit env raw s =
     (if \<not> ds_audit_healthy s then Some (Err SeAuditUnavailable, s)
      else case audit_append (sv_audit env) raw (ds_disk s, ds_audit s) of
        (Inl e, d, st) \<Rightarrow>
          Some (Err (map_audit_error e), s\<lparr>ds_disk := d, ds_audit := st, ds_audit_healthy := False\<rparr>)
      | (Inr _, d, st) \<Rightarrow>
          (let s1 = s\<lparr>ds_disk := d, ds_audit := st\<rparr> in
           case checked_add64 (ds_next_audit_sequence s) 1 of
             None \<Rightarrow> Some (Err SeAuditUnavailable, s1)
           | Some n \<Rightarrow> Some (Ok (), s1\<lparr>ds_next_audit_sequence := n\<rparr>)))"

definition access_record ::
    "access_request \<Rightarrow> policy_effect \<Rightarrow> audit_result \<Rightarrow> message_code option \<Rightarrow> u64 \<Rightarrow> u64
     \<Rightarrow> raw_audit_record" where
  "access_record q effect result message sequence now =
     \<lparr>ra_sequence = sequence, ra_occurred_at_ms = now, ra_activity_id = Some (rq_activity_id q),
      ra_principal_id = rq_principal_id q, ra_source_host_id = rq_source_host_id q,
      ra_target_host_id = rq_target_host_id q, ra_device_id = rq_device_id q,
      ra_operation = rq_operation q, ra_resources = rq_resources q, ra_decision = effect,
      ra_result = result, ra_message = map_option message_code_str message,
      ra_arguments = [], ra_environment = [], ra_stdout = None, ra_stderr = None,
      ra_workspace_path = None, ra_artifact_metadata = []\<rparr>"

definition audit_access_with_message ::
    "service_env \<Rightarrow> access_request \<Rightarrow> policy_effect \<Rightarrow> audit_result \<Rightarrow> message_code option \<Rightarrow> u64
     \<Rightarrow> unit service_op" where
  "audit_access_with_message env q effect result message now s =
     append_audit env (access_record q effect result message (ds_next_audit_sequence s) now) s"

definition audit_access ::
    "service_env \<Rightarrow> access_request \<Rightarrow> policy_effect \<Rightarrow> audit_result \<Rightarrow> u64 \<Rightarrow> unit service_op" where
  "audit_access env q effect result now = audit_access_with_message env q effect result None now"

definition event_record ::
    "activity_event \<Rightarrow> audit_result \<Rightarrow> message_code option \<Rightarrow> u64 \<Rightarrow> u64 \<Rightarrow> raw_audit_record" where
  "event_record e result message sequence now =
     \<lparr>ra_sequence = sequence, ra_occurred_at_ms = now, ra_activity_id = Some (ae_activity_id e),
      ra_principal_id = ae_principal_id e, ra_source_host_id = ae_source_host_id e,
      ra_target_host_id = ae_target_host_id e, ra_device_id = ae_device_id e,
      ra_operation = ae_operation e, ra_resources = ae_resources e,
      ra_decision = az_effect (ae_authorization e), ra_result = result,
      ra_message = map_option message_code_str message,
      ra_arguments = [], ra_environment = [], ra_stdout = None, ra_stderr = None,
      ra_workspace_path = None, ra_artifact_metadata = []\<rparr>"

definition audit_event_with_message ::
    "service_env \<Rightarrow> activity_event \<Rightarrow> audit_result \<Rightarrow> message_code option \<Rightarrow> u64 \<Rightarrow> unit service_op" where
  "audit_event_with_message env e result message now s =
     append_audit env (event_record e result message (ds_next_audit_sequence s) now) s"

definition audit_event :: "service_env \<Rightarrow> activity_event \<Rightarrow> audit_result \<Rightarrow> u64 \<Rightarrow> unit service_op" where
  "audit_event env e result now = audit_event_with_message env e result None now"

definition local_record ::
    "host_id \<Rightarrow> string \<Rightarrow> audit_result \<Rightarrow> u64 \<Rightarrow> u64 \<Rightarrow> raw_audit_record" where
  "local_record host operation result sequence now =
     \<lparr>ra_sequence = sequence, ra_occurred_at_ms = now, ra_activity_id = None,
      ra_principal_id = ''local-user'', ra_source_host_id = host, ra_target_host_id = host,
      ra_device_id = None, ra_operation = operation, ra_resources = [], ra_decision = Allow,
      ra_result = result, ra_message = None, ra_arguments = [], ra_environment = [],
      ra_stdout = None, ra_stderr = None, ra_workspace_path = None, ra_artifact_metadata = []\<rparr>"

definition audit_local :: "service_env \<Rightarrow> string \<Rightarrow> audit_result \<Rightarrow> u64 \<Rightarrow> unit service_op" where
  "audit_local env operation result now s =
     append_audit env
       (local_record (ds_local_host_id s) operation result (ds_next_audit_sequence s) now) s"

section \<open>Checkpoints\<close>

definition MAX_CHECKPOINT_ENTRIES :: nat where "MAX_CHECKPOINT_ENTRIES = 1000"

definition checkpoint_digest :: "service_env \<Rightarrow> checkpoint_payload \<Rightarrow> string" where
  "checkpoint_digest env p = hex (sv_sha env (sv_payload_json env p))"

definition payload_of ::
    "(activity_id, activity_event) hash_map \<Rightarrow> dashboard_service \<Rightarrow> checkpoint_payload" where
  "payload_of activities s =
     \<lparr>cp_version = 2, cp_audit_sequence = ds_next_audit_sequence s - 1,
      cp_activities = sort_key ae_activity_id (map snd activities), cp_pending = ds_pending s,
      cp_admin_grants = ds_admin_grants s, cp_policy = ds_policy s, cp_paused = ds_paused s\<rparr>"

definition checkpoint_bytes :: "service_env \<Rightarrow> checkpoint_payload \<Rightarrow> string" where
  "checkpoint_bytes env p =
     sv_checkpoint_json env (checkpoint_payload.extend p \<lparr>cp_digest = checkpoint_digest env p\<rparr>)"

text \<open>\<open>persist_service_state\<close> with the given activities and the rest of the state as it is.\<close>

definition persist_service_state ::
    "service_env \<Rightarrow> (activity_id, activity_event) hash_map \<Rightarrow> dashboard_service
     \<Rightarrow> (service_error + unit) \<times> string option" where
  "persist_service_state env activities s =
     (if \<not> ds_persistent s then (Ok (), ds_checkpoint_file s)
      else if length activities > MAX_CHECKPOINT_ENTRIES then (Err SeLimitExceeded, ds_checkpoint_file s)
      else if length (ds_pending s) > MAX_CHECKPOINT_ENTRIES
              \<or> length (ds_admin_grants s) > MAX_CHECKPOINT_ENTRIES
      then (Err SeLimitExceeded, ds_checkpoint_file s)
      else
        (let bytes = checkpoint_bytes env (payload_of activities s) in
         case write_activity_checkpoint bytes (ds_checkpoint_file s) of
           (Inl e, old) \<Rightarrow> (Err SeAuditUnavailable, old)
         | (Inr _, new) \<Rightarrow>
             (case sv_write env bytes of
                CheckpointWritten \<Rightarrow> (Ok (), new)
              | CheckpointNotWritten \<Rightarrow> (Err SeAuditUnavailable, ds_checkpoint_file s)
              | CheckpointUnsynced \<Rightarrow> (Err SeAuditUnavailable, new))))"

definition persist_now :: "service_env \<Rightarrow> unit service_op" where
  "persist_now env s =
     (case persist_service_state env (ds_activities s) s of (r, file) \<Rightarrow> Some (r, s\<lparr>ds_checkpoint_file := file\<rparr>))"

text \<open>
  \<open>record_activity\<close>: the journal reserves a position, the checkpoint with the new activity is written,
  and then the event is published. The journal runs the write only once the event passed its checks,
  which is when its answer is a publication or the error of the write.
\<close>

definition record_activity ::
    "service_env \<Rightarrow> activity_event \<Rightarrow> string \<Rightarrow> unit service_op" where
  "record_activity env event key s =
     (let activities = hm_insert (ae_activity_id event) event (ds_activities s) in
      case persist_service_state env activities s of (written, file) \<Rightarrow>
        (case append_with_precommit (sv_event_json env) (sv_sha env) key event written (ds_events s) of
           None \<Rightarrow> None
         | Some (Inl (Append e), j) \<Rightarrow> Some (Err SeLimitExceeded, s\<lparr>ds_events := j\<rparr>)
         | Some (Inl (Precommit e), j) \<Rightarrow>
             Some (Err e, s\<lparr>ds_events := j, ds_checkpoint_file := file\<rparr>)
         | Some (Inr DuplicateCollapsed, j) \<Rightarrow>
             Some (Ok (), s\<lparr>ds_events := j, ds_activities := activities\<rparr>)
         | Some (Inr Appended, j) \<Rightarrow>
             Some (Ok (), s\<lparr>ds_events := j, ds_checkpoint_file := file, ds_activities := activities\<rparr>)))"

section \<open>Activities\<close>

definition unavailable_metrics :: metric_snapshot where
  "unavailable_metrics =
     \<lparr>ms_current_memory_bytes = Unavailable ''observer_unavailable'',
      ms_peak_memory_bytes = Unavailable ''observer_unavailable'',
      ms_cpu_time_ms = Unavailable ''observer_unavailable'',
      ms_process_count = Unavailable ''observer_unavailable''\<rparr>"

definition plain_message :: "message_code \<Rightarrow> display_message" where
  "plain_message code = \<lparr>dm_code = code, dm_params = []\<rparr>"

definition next_sequence_of :: "activity_id \<Rightarrow> dashboard_service \<Rightarrow> u64" where
  "next_sequence_of i s =
     (case hm_get (ds_activities s) i of None \<Rightarrow> 1 | Some e \<Rightarrow> sat_add64 (ae_sequence e) 1)"

definition access_event ::
    "access_request \<Rightarrow> authorization \<Rightarrow> activity_state \<Rightarrow> display_message option \<Rightarrow> u64 option
     \<Rightarrow> u64 option \<Rightarrow> u64 \<Rightarrow> u64 \<Rightarrow> activity_event" where
  "access_event q authorization state message started finished sequence now =
     \<lparr>ae_activity_id = rq_activity_id q, ae_sequence = sequence, ae_occurred_at_ms = now,
      ae_principal_id = rq_principal_id q, ae_source_host_id = rq_source_host_id q,
      ae_target_host_id = rq_target_host_id q, ae_device_id = rq_device_id q,
      ae_operation = rq_operation q, ae_resources = rq_resources q,
      ae_remote_operation_sha256 = map_option og_canonical_sha256 (rq_remote_operation q),
      ae_authorization = authorization, ae_state = state, ae_message = message,
      ae_metrics = unavailable_metrics, ae_started_at_ms = started, ae_finished_at_ms = finished\<rparr>"

text \<open>An event of the local user, which every administrative change records.\<close>

definition append_local_event :: "service_env \<Rightarrow> string \<Rightarrow> u64 \<Rightarrow> unit service_op" where
  "append_local_event env operation now s =
     (case validated_id_parse
             (''admin-'' @ show_nat (ds_next_audit_sequence s - 1) @ ''-'' @ operation) of
        Inl _ \<Rightarrow> Some (Err SeInvalidRequest, s)
      | Inr i \<Rightarrow>
          record_activity env
            \<lparr>ae_activity_id = i, ae_sequence = 1, ae_occurred_at_ms = now,
             ae_principal_id = ''local-user'', ae_source_host_id = ds_local_host_id s,
             ae_target_host_id = ds_local_host_id s, ae_device_id = None, ae_operation = operation,
             ae_resources = [], ae_remote_operation_sha256 = None,
             ae_authorization = \<lparr>az_effect = Allow, az_rule_id = None, az_approval_id = None\<rparr>,
             ae_state = Succeeded, ae_message = None, ae_metrics = unavailable_metrics,
             ae_started_at_ms = Some now, ae_finished_at_ms = Some now\<rparr>
            (''local-mutation:'' @ i @ '':'' @ operation) s)"

section \<open>Grants of administrative mutations\<close>

definition admin_request ::
    "dashboard_service \<Rightarrow> string \<Rightarrow> resource_class \<Rightarrow> service_error + access_request" where
  "admin_request s operation resource =
     (case (validated_id_parse (''admin-auth-'' @ show_nat (ds_next_audit_sequence s)),
            validated_id_parse operation) of
        (Inr i, Inr opn) \<Rightarrow>
          Ok \<lparr>rq_activity_id = i, rq_principal_id = ''local-user'',
              rq_source_host_id = ds_local_host_id s, rq_target_host_id = ds_local_host_id s,
              rq_device_id = None, rq_operation = opn, rq_resources = [resource],
              rq_remote_operation = None, rq_physical_device = False, rq_user_present = True\<rparr>
      | _ \<Rightarrow> Err SeInvalidRequest)"

definition grant_matches :: "access_request \<Rightarrow> string option \<Rightarrow> admin_grant \<Rightarrow> bool" where
  "grant_matches q digest g =
     (rq_operation (gr_access g) = rq_operation q
      \<and> rq_resources (gr_access g) = rq_resources q
      \<and> rq_source_host_id (gr_access g) = rq_source_host_id q
      \<and> rq_target_host_id (gr_access g) = rq_target_host_id q
      \<and> gr_admin_mutation_digest g = digest)"

text \<open>Taking a grant: the expired ones are dropped, the first that matches is spent.\<close>

definition take_grant ::
    "service_env \<Rightarrow> access_request \<Rightarrow> string option \<Rightarrow> u64 \<Rightarrow> unit service_op" where
  "take_grant env q digest now s =
     (let live = filter (\<lambda>(n, g). gr_expires_at_ms g > now) (ds_admin_grants s);
          s1 = s\<lparr>ds_admin_grants := live\<rparr>
      in case List.find (\<lambda>(n, g). grant_matches q digest g) live of
           None \<Rightarrow> Some (Err SePermissionDenied, s1)
         | Some (nonce, grant) \<Rightarrow>
             sv_rescue (persist_now env)
               (\<lambda>e s2. Some (Err e, s2\<lparr>ds_admin_grants := bt_insert nonce grant (ds_admin_grants s2)\<rparr>))
               (s1\<lparr>ds_admin_grants := hm_remove nonce live\<rparr>))"

definition authorize_admin ::
    "service_env \<Rightarrow> string \<Rightarrow> resource_class \<Rightarrow> string option \<Rightarrow> u64 \<Rightarrow> unit service_op" where
  "authorize_admin env operation resource digest now s =
     (case admin_request s operation resource of
        Inl e \<Rightarrow> Some (Err e, s)
      | Inr q \<Rightarrow>
          (case evaluate (sv_policy env) q now (ds_policy s) of
             Inl _ \<Rightarrow> Some (Err SeInvalidRequest, s)
           | Inr (PolicyDenied _) \<Rightarrow>
               sv_then (audit_access env q Deny AuditDenied now) (\<lambda>_. sv_fail SePermissionDenied) s
           | Inr (PolicyAllowed i) \<Rightarrow>
               if is_verified_managed_rule i (ds_policy s) then Some (Ok (), s)
               else take_grant env q digest now s
           | Inr (ApprovalRequired _) \<Rightarrow> take_grant env q digest now s))"

section \<open>Reading\<close>

definition service_pending_approvals :: "u64 \<Rightarrow> dashboard_service \<Rightarrow> approval_request list" where
  "service_pending_approvals now s =
     map pd_request (filter (\<lambda>p. aq_expires_at_ms (pd_request p) > now) (map snd (ds_pending s)))"

definition service_snapshot ::
    "dashboard_scope \<Rightarrow> u64 \<Rightarrow> dashboard_service \<Rightarrow> dashboard_snapshot option" where
  "service_snapshot scope now s =
     (case topology_snapshot now (ds_topology s) of
        None \<Rightarrow> None
      | Some n0 \<Rightarrow>
          (let here = ds_local_host_id s;
               n1 = (if scope = ScopeLocal
                     then n0\<lparr>sn_scope := ScopeLocal,
                            sn_hosts := filter (\<lambda>h. dh_id h = here) (sn_hosts n0),
                            sn_leases := filter (\<lambda>l. dbl_owner_host_id l = here) (sn_leases n0)\<rparr>
                     else n0);
               all = map (summary_of \<circ> snd) (ds_activities s)
           in Some (n1\<lparr>sn_activities :=
                  (if scope = ScopeLocal
                   then filter (\<lambda>a. as_source_host_id a = here \<or> as_target_host_id a = here) all
                   else all),
                sn_pending_approvals := service_pending_approvals now s\<rparr>)))"

definition events_in_scope ::
    "u64 \<Rightarrow> dashboard_scope \<Rightarrow> event_cursor \<Rightarrow> nat \<Rightarrow> dashboard_service \<Rightarrow> event_read \<times> dashboard_service"
where
  "events_in_scope now scope cursor limit s =
     (let j = snd (expire_idle now (ds_events s)) in
      (read_filtered cursor \<lparr>rl_max_events = limit, rl_max_bytes = MAX_PAGE_BYTES\<rparr>
         (\<lambda>e. scope = ScopeMesh \<or> ae_source_host_id e = ds_local_host_id s
              \<or> ae_target_host_id e = ds_local_host_id s) j,
       s\<lparr>ds_events := j\<rparr>))"

definition service_events ::
    "u64 \<Rightarrow> event_cursor \<Rightarrow> nat \<Rightarrow> dashboard_service \<Rightarrow> event_read \<times> dashboard_service" where
  "service_events now cursor limit s = events_in_scope now ScopeLocal cursor limit s"

fun map_acknowledge_error :: "acknowledge_error \<Rightarrow> service_error" where
  "map_acknowledge_error AckCursorAhead = SeCursorAhead"
| "map_acknowledge_error (AckResyncRequired _ _) = SeResyncRequired"
| "map_acknowledge_error WrongEpoch = SeResyncRequired"
| "map_acknowledge_error UnknownSubscriber = SeInvalidRequest"

definition service_acknowledge ::
    "subscriber_id \<Rightarrow> event_cursor \<Rightarrow> u64 \<Rightarrow> unit service_op" where
  "service_acknowledge i cursor now s =
     (let j = snd (expire_idle now (ds_events s)) in
      case subscribe i now j of
        (Inl SubscriberLimit, j1) \<Rightarrow> Some (Err SeLimitExceeded, s\<lparr>ds_events := j1\<rparr>)
      | (_, j1) \<Rightarrow>
          (case acknowledge i cursor now j1 of
             (Inl e, j2) \<Rightarrow> Some (Err (map_acknowledge_error e), s\<lparr>ds_events := j2\<rparr>)
           | (Inr _, j2) \<Rightarrow> Some (Ok (), s\<lparr>ds_events := j2\<rparr>)))"

definition pending_approval_for_notification ::
    "approval_id \<Rightarrow> u64 \<Rightarrow> dashboard_service \<Rightarrow> service_error + approval_request" where
  "pending_approval_for_notification i now s =
     (case hm_get (ds_pending s) i of
        None \<Rightarrow> Err SeNotFound
      | Some p \<Rightarrow>
          if aq_expires_at_ms (pd_request p) \<le> now then Err SeApprovalExpired
          else if aq_target_host_id (pd_request p) \<noteq> ds_local_host_id s then Err SePermissionDenied
          else Ok (pd_request p))"

definition audit_reader :: "(audit_store \<Rightarrow> audit_error + 'a) \<Rightarrow> dashboard_service \<Rightarrow> service_error + 'a" where
  "audit_reader read s =
     (if \<not> ds_audit_healthy s then Err SeAuditUnavailable
      else case read (ds_audit s) of Inl e \<Rightarrow> Err (map_audit_error e) | Inr x \<Rightarrow> Ok x)"

definition service_audit_query where
  "service_audit_query env f cursor limit = audit_reader (audit_query (sv_audit env) f cursor limit)"

definition service_audit_export where
  "service_audit_export env f signer = audit_reader (export_audit (sv_audit env) f signer)"

definition service_audit_export_manifest where
  "service_audit_export_manifest env f signer =
     audit_reader (audit_export_manifest (sv_audit env) f signer)"

section \<open>Peers\<close>

definition as_service ::
    "(projector \<Rightarrow> (topology_error + unit) \<times> projector) \<Rightarrow> unit service_op" where
  "as_service f s =
     (case f (ds_topology s) of
        (Inl _, p) \<Rightarrow> Some (Err SeInvalidRequest, s\<lparr>ds_topology := p\<rparr>)
      | (Inr _, p) \<Rightarrow> Some (Ok (), s\<lparr>ds_topology := p\<rparr>))"

definition observe_authenticated_controller :: "string \<Rightarrow> u64 \<Rightarrow> unit service_op" where
  "observe_authenticated_controller controller observed =
     sv_then (as_service (connect_registry controller (max observed 1) True))
       (\<lambda>_. as_service (observe_controller controller observed))"

definition inventory_host :: "host_snapshot \<Rightarrow> registry_host" where
  "inventory_host h =
     \<lparr>rh_snapshot = h, rh_display_name = hs_id h, rh_trust = Trusted,
      rh_connection_path = PathRegistry, rh_permissions = [], rh_devices = []\<rparr>"

text \<open>An inventory changes a copy of the projector, which replaces it only when every step succeeds.\<close>

definition observe_authenticated_inventory ::
    "string \<Rightarrow> u64 \<Rightarrow> host_snapshot list \<Rightarrow> unit service_op" where
  "observe_authenticated_inventory registry observed hosts s =
     (case sv_then (as_service (connect_registry registry (max observed 1) True))
             (\<lambda>_. sv_then (as_service (observe_controller registry observed))
               (\<lambda>_. as_service (observe_registry (max observed 1) observed True (map inventory_host hosts)))) s of
        Some (Inl e, _) \<Rightarrow> Some (Err e, s)
      | r \<Rightarrow> r)"

definition disconnect_inventory :: "dashboard_service \<Rightarrow> dashboard_service" where
  "disconnect_inventory s = s\<lparr>ds_topology := snd (disconnect_registry (ds_topology s))\<rparr>"

definition record_preapproval_target_offline ::
    "service_env \<Rightarrow> access_request \<Rightarrow> u64 \<Rightarrow> unit service_op" where
  "record_preapproval_target_offline env q now =
     sv_then (audit_access_with_message env q Deny AuditFailed (Some TargetOffline) now)
       (\<lambda>_ s. record_activity env
          (access_event q \<lparr>az_effect = Deny, az_rule_id = None, az_approval_id = None\<rparr> Failed
             (Some (plain_message TargetOffline)) (Some now) (Some now)
             (next_sequence_of (rq_activity_id q) s) now)
          (''target-offline-preapproval:'' @ rq_activity_id q) s)"

section \<open>Requesting an approval\<close>

definition local_resume :: "dashboard_service \<Rightarrow> access_request \<Rightarrow> bool" where
  "local_resume s q =
     (rq_source_host_id q = ds_local_host_id s \<and> rq_target_host_id q = ds_local_host_id s
      \<and> rq_operation q = ''devicelane.service.resume'' \<and> rq_resources q = [DeviceLaneService])"

definition deny_request :: "service_env \<Rightarrow> access_request \<Rightarrow> u64 \<Rightarrow> 'a service_op" where
  "deny_request env q now =
     sv_then (audit_access_with_message env q Deny AuditDenied (Some message_code.PolicyDenied) now)
       (\<lambda>_ s. let sequence = next_sequence_of (rq_activity_id q) s in
          sv_then (record_activity env
             (access_event q \<lparr>az_effect = Deny, az_rule_id = None, az_approval_id = None\<rparr> Denied
                (Some (plain_message message_code.PolicyDenied)) None (Some now) sequence now)
             (''policy-denied:'' @ rq_activity_id q @ '':'' @ show_nat sequence))
            (\<lambda>_. sv_fail SePermissionDenied) s)"

definition pending_of :: "access_request \<Rightarrow> approval_id \<Rightarrow> approval_challenge \<Rightarrow> u64 \<Rightarrow> pending" where
  "pending_of q i ch now =
     \<lparr>pd_nonce = ch_nonce ch,
      pd_request = \<lparr>aq_id = i, aq_activity_id = rq_activity_id q, aq_principal_id = rq_principal_id q,
        aq_source_host_id = rq_source_host_id q, aq_target_host_id = rq_target_host_id q,
        aq_device_id = rq_device_id q, aq_operation = rq_operation q, aq_resources = rq_resources q,
        aq_remote_operation_sha256 = map_option og_canonical_sha256 (rq_remote_operation q),
        aq_requested_at_ms = now, aq_expires_at_ms = ch_expires_at_ms ch,
        aq_risk = ''target_confirmation''\<rparr>,
      pd_access = q, pd_admin_mutation_digest = None\<rparr>"

text \<open>
  The tail of \<open>request_approval\<close>: the challenge is registered and the activity waits for it; when that
  cannot be recorded, the policy and the pending table go back. The slice of the nonce panics on a
  short nonce.
\<close>

definition open_challenge ::
    "service_env \<Rightarrow> access_request \<Rightarrow> approval_challenge \<Rightarrow> policy_engine \<Rightarrow> u64
     \<Rightarrow> (string \<times> u64) service_op" where
  "open_challenge env q ch policy now s =
     (if length (ch_nonce ch) < 16 then None
      else case validated_id_parse (''approval-'' @ take 16 (ch_nonce ch)) of
        Inl _ \<Rightarrow> Some (Err SeInvalidRequest, s)
      | Inr i \<Rightarrow>
          sv_then
            (sv_rescue
               (record_activity env
                  (access_event q \<lparr>az_effect = Allow, az_rule_id = None, az_approval_id = Some i\<rparr>
                     AwaitingApproval None None None (next_sequence_of (rq_activity_id q) s) now)
                  (''approval-request:'' @ ch_nonce ch))
               (\<lambda>e s1. sv_then (audit_access env q Allow AuditFailed now) (\<lambda>_. sv_fail e)
                  (s1\<lparr>ds_policy := ds_policy s, ds_pending := hm_remove i (ds_pending s1)\<rparr>)))
            (\<lambda>_. sv_ok (ch_nonce ch, ch_expires_at_ms ch))
            (s\<lparr>ds_policy := policy, ds_pending := bt_insert i (pending_of q i ch now) (ds_pending s)\<rparr>))"

definition challenge_access ::
    "service_env \<Rightarrow> string list \<Rightarrow> access_request \<Rightarrow> u64 \<Rightarrow> u64 \<Rightarrow> (string \<times> u64) service_op" where
  "challenge_access env random q lifetime now s =
     (case create_approval (sv_policy env) random q now lifetime (ds_policy s) of
        None \<Rightarrow> None
      | Some (Inl e, _) \<Rightarrow>
          sv_then (audit_access env q Allow AuditFailed now) (\<lambda>_. sv_fail (map_approval_error e)) s
      | Some (Inr ch, policy) \<Rightarrow> open_challenge env q ch policy now s)"

definition request_approval ::
    "service_env \<Rightarrow> string list \<Rightarrow> access_request \<Rightarrow> u64 \<Rightarrow> u64 \<Rightarrow> (string \<times> u64) service_op" where
  "request_approval env random q lifetime now s =
     (if (ds_paused s \<and> \<not> local_resume s q) \<or> rq_target_host_id q \<noteq> ds_local_host_id s
      then Some (Err SePermissionDenied, s)
      else case evaluate (sv_policy env) q now (ds_policy s) of
        Inl _ \<Rightarrow> Some (Err SeInvalidRequest, s)
      | Inr (PolicyDenied _) \<Rightarrow> deny_request env q now s
      | Inr _ \<Rightarrow>
          sv_then (audit_access env q Allow AuditAttempted now)
            (\<lambda>_. challenge_access env random q lifetime now) s)"

text \<open>\<open>values_mut().find\<close> and the assignment through it.\<close>

fun set_digest :: "string \<Rightarrow> string option \<Rightarrow> (approval_id, pending) hash_map
    \<Rightarrow> (approval_id, pending) hash_map option" where
  "set_digest nonce digest [] = None"
| "set_digest nonce digest ((i, p) # ps) =
     (if pd_nonce p = nonce then Some ((i, p\<lparr>pd_admin_mutation_digest := digest\<rparr>) # ps)
      else map_option (\<lambda>ps1. (i, p) # ps1) (set_digest nonce digest ps))"

definition bind_digest :: "service_env \<Rightarrow> string \<Rightarrow> string \<Rightarrow> unit service_op" where
  "bind_digest env nonce digest s =
     (case set_digest nonce (Some digest) (ds_pending s) of
        None \<Rightarrow> Some (Err SeInvalidRequest, s)
      | Some ps \<Rightarrow>
          sv_rescue (persist_now env)
            (\<lambda>e s1. Some (Err e, s1\<lparr>ds_pending :=
               (case set_digest nonce None (ds_pending s1) of None \<Rightarrow> ds_pending s1 | Some ps1 \<Rightarrow> ps1)\<rparr>))
            (s\<lparr>ds_pending := ps\<rparr>))"

definition request_admin_mutation_approval ::
    "service_env \<Rightarrow> string list \<Rightarrow> admin_mutation \<Rightarrow> u64 \<Rightarrow> u64 \<Rightarrow> (string \<times> u64) service_op" where
  "request_admin_mutation_approval env random mutation lifetime now s =
     (let digest = mutation_digest env mutation in
      case operation_and_resource mutation of (operation, resource) \<Rightarrow>
        if length digest < 16 then None
        else case (validated_id_parse (''admin-'' @ take 16 digest), validated_id_parse operation) of
          (Inr i, Inr opn) \<Rightarrow>
            sv_then
              (request_approval env random
                 \<lparr>rq_activity_id = i, rq_principal_id = ''local-user'',
                  rq_source_host_id = ds_local_host_id s, rq_target_host_id = ds_local_host_id s,
                  rq_device_id = None, rq_operation = opn, rq_resources = [resource],
                  rq_remote_operation = None, rq_physical_device = False, rq_user_present = True\<rparr>
                 lifetime now)
              (\<lambda>created. sv_then (bind_digest env (fst created) digest) (\<lambda>_. sv_ok created)) s
        | _ \<Rightarrow> Some (Err SeInvalidRequest, s))"

section \<open>The life of an activity\<close>

fun valid_transition :: "activity_state \<Rightarrow> activity_state \<Rightarrow> bool" where
  "valid_transition Queued Running = True"
| "valid_transition AwaitingApproval Failed = True"
| "valid_transition Queued Reconnecting = True"
| "valid_transition Running Reconnecting = True"
| "valid_transition Running Succeeded = True"
| "valid_transition Running Failed = True"
| "valid_transition Reconnecting Running = True"
| "valid_transition Reconnecting Succeeded = True"
| "valid_transition Reconnecting Failed = True"
| "valid_transition _ _ = False"

fun state_debug :: "activity_state \<Rightarrow> string" where
  "state_debug AwaitingApproval = ''AwaitingApproval''"
| "state_debug Queued = ''Queued''"
| "state_debug Running = ''Running''"
| "state_debug Reconnecting = ''Reconnecting''"
| "state_debug Succeeded = ''Succeeded''"
| "state_debug Failed = ''Failed''"
| "state_debug Denied = ''Denied''"
| "state_debug Cancelled = ''Cancelled''"

definition or_now :: "u64 option \<Rightarrow> u64 \<Rightarrow> u64 option" where
  "or_now t now = (case t of None \<Rightarrow> Some now | Some v \<Rightarrow> Some v)"

definition moved_event ::
    "activity_event \<Rightarrow> u64 \<Rightarrow> activity_state \<Rightarrow> metric_snapshot \<Rightarrow> display_message option \<Rightarrow> u64
     \<Rightarrow> activity_event" where
  "moved_event e sequence state metrics message now =
     e\<lparr>ae_sequence := sequence, ae_occurred_at_ms := now, ae_state := state, ae_metrics := metrics,
       ae_message := message, ae_started_at_ms := or_now (ae_started_at_ms e) now,
       ae_finished_at_ms := (if state = Running \<or> state = Reconnecting then None else Some now)\<rparr>"

fun transition_result :: "activity_state \<Rightarrow> audit_result option" where
  "transition_result Succeeded = Some AuditSucceeded"
| "transition_result Failed = Some AuditFailed"
| "transition_result _ = None"

definition audit_transition :: "service_env \<Rightarrow> activity_event \<Rightarrow> u64 \<Rightarrow> unit service_op" where
  "audit_transition env e now =
     (case transition_result (ae_state e) of
        None \<Rightarrow> sv_ok ()
      | Some result \<Rightarrow>
          audit_event_with_message env e result
            (if result = AuditFailed then map_option dm_code (ae_message e) else None) now)"

definition transition_activity ::
    "service_env \<Rightarrow> activity_id \<Rightarrow> activity_state \<Rightarrow> metric_snapshot \<Rightarrow> display_message option \<Rightarrow> u64
     \<Rightarrow> bool service_op" where
  "transition_activity env i state metrics message now s =
     (case hm_get (ds_activities s) i of
        None \<Rightarrow> Some (Err SeNotFound, s)
      | Some current \<Rightarrow>
     if ae_state current = state then Some (Ok False, s)
     else if \<not> valid_transition (ae_state current) state then Some (Err SeInvalidRequest, s)
     else case checked_add64 (ae_sequence current) 1 of
        None \<Rightarrow> Some (Err SeLimitExceeded, s)
      | Some sequence \<Rightarrow>
     let moved = moved_event current sequence state metrics message now in
     if \<not> is_ok (event_validate moved) then Some (Err SeInvalidRequest, s)
     else sv_then (audit_transition env moved now)
            (\<lambda>_. sv_then
               (record_activity env moved
                  (''observer:'' @ i @ '':'' @ show_nat sequence @ '':'' @ state_debug state))
               (\<lambda>_. sv_ok True)) s)"

definition closed_state :: "activity_state \<Rightarrow> bool" where
  "closed_state st = (st = Succeeded \<or> st = Failed \<or> st = Denied \<or> st = Cancelled)"

definition record_audit_unavailable_terminal ::
    "service_env \<Rightarrow> activity_id \<Rightarrow> metric_snapshot \<Rightarrow> u64 \<Rightarrow> bool service_op" where
  "record_audit_unavailable_terminal env i metrics now s =
     (case hm_get (ds_activities s) i of
        None \<Rightarrow> Some (Err SeNotFound, s)
      | Some current \<Rightarrow>
          if closed_state (ae_state current) then Some (Ok False, s)
          else sv_then
            (record_activity env
               (moved_event current (sat_add64 (ae_sequence current) 1) Failed metrics
                  (Some (plain_message AuditUnavailable)) now)
               (''audit-unavailable:'' @ i @ '':'' @ show_nat now))
            (\<lambda>_. sv_ok True) (s\<lparr>ds_audit_healthy := False\<rparr>))"

definition cancelled_event :: "activity_event \<Rightarrow> u64 \<Rightarrow> activity_event" where
  "cancelled_event e now =
     e\<lparr>ae_sequence := sat_add64 (ae_sequence e) 1, ae_occurred_at_ms := now, ae_state := Cancelled,
       ae_message := Some (plain_message OperationCancelled), ae_finished_at_ms := Some now\<rparr>"

definition cancel_activity_inner :: "service_env \<Rightarrow> activity_id \<Rightarrow> u64 \<Rightarrow> bool service_op" where
  "cancel_activity_inner env i now s =
     (case hm_get (ds_activities s) i of
        None \<Rightarrow> Some (Ok False, s)
      | Some current \<Rightarrow>
          if closed_state (ae_state current) then Some (Ok False, s)
          else sv_then (audit_event env current AuditAttempted now)
            (\<lambda>_. sv_then
               (sv_rescue (record_activity env (cancelled_event current now) (''cancel:'' @ i))
                  (\<lambda>e. sv_then (audit_event env current AuditFailed now) (\<lambda>_. sv_fail e)))
               (\<lambda>_. sv_then
                  (audit_event_with_message env current AuditCancelled (Some OperationCancelled) now)
                  (\<lambda>_. sv_ok True))) s)"

definition cancel_activity :: "service_env \<Rightarrow> activity_id \<Rightarrow> u64 \<Rightarrow> bool service_op" where
  "cancel_activity env i now =
     sv_then (authorize_admin env ''devicelane.activity.cancel'' DeviceLaneService None now)
       (\<lambda>_. cancel_activity_inner env i now)"

definition restarted_event :: "activity_event \<Rightarrow> u64 \<Rightarrow> activity_event" where
  "restarted_event e now =
     e\<lparr>ae_sequence := sat_add64 (ae_sequence e) 1, ae_occurred_at_ms := now, ae_state := Failed,
       ae_message := Some (plain_message DaemonRestarted),
       ae_started_at_ms := or_now (ae_started_at_ms e) now, ae_finished_at_ms := Some now\<rparr>"

fun fail_interrupted :: "service_env \<Rightarrow> u64 \<Rightarrow> activity_event list \<Rightarrow> unit service_op" where
  "fail_interrupted env now [] = sv_ok ()"
| "fail_interrupted env now (e # es) =
     sv_then (audit_event_with_message env (restarted_event e now) AuditFailed (Some DaemonRestarted) now)
       (\<lambda>_. sv_then
          (record_activity env (restarted_event e now)
             (''restart:'' @ ae_activity_id e @ '':'' @ show_nat (ae_sequence (restarted_event e now))))
          (\<lambda>_. fail_interrupted env now es))"

definition reconcile_after_restart :: "service_env \<Rightarrow> u64 \<Rightarrow> nat service_op" where
  "reconcile_after_restart env now s =
     (let active = filter (\<lambda>e. ae_state e = Queued \<or> ae_state e = Running) (map snd (ds_activities s))
      in sv_then (fail_interrupted env now active) (\<lambda>_. sv_ok (length active)) s)"

section \<open>Deciding an approval\<close>

definition find_matching_pending :: "string \<Rightarrow> access_request \<Rightarrow> dashboard_service \<Rightarrow> approval_id option" where
  "find_matching_pending nonce q s =
     map_option fst (List.find (\<lambda>(i, p). pd_nonce p = nonce \<and> pd_access p = q) (ds_pending s))"

definition decision_effect :: "approval_decision \<Rightarrow> policy_effect" where
  "decision_effect d = (if d = DenyOnce \<or> d = DenyAndBlock then Deny else Allow)"

definition refuse_decision ::
    "service_env \<Rightarrow> access_request \<Rightarrow> policy_effect \<Rightarrow> approval_id option \<Rightarrow> approval_error \<Rightarrow> u64
     \<Rightarrow> 'a service_op" where
  "refuse_decision env q effect i e now s =
     (if map_approval_error e = SeApprovalExpired
      then sv_then
             (transition_activity env (rq_activity_id q) Failed unavailable_metrics
                (Some (plain_message ApprovalExpired)) now)
             (\<lambda>_. sv_fail (map_approval_error e))
             (s\<lparr>ds_pending := (case i of None \<Rightarrow> ds_pending s | Some j \<Rightarrow> hm_remove j (ds_pending s))\<rparr>)
      else sv_then (audit_access env q effect AuditFailed now) (\<lambda>_. sv_fail (map_approval_error e)) s)"

definition administrative :: "dashboard_service \<Rightarrow> access_request \<Rightarrow> bool" where
  "administrative s q =
     (rq_source_host_id q = ds_local_host_id s \<and> rq_target_host_id q = ds_local_host_id s
      \<and> length (rq_resources q) = 1
      \<and> list_all (\<lambda>r. r = DeviceLanePolicy \<or> r = DeviceLaneService) (rq_resources q))"

definition decided_grants ::
    "string \<Rightarrow> access_request \<Rightarrow> policy_effect \<Rightarrow> approval_id option \<Rightarrow> u64 \<Rightarrow> dashboard_service
     \<Rightarrow> (string, admin_grant) hash_map" where
  "decided_grants nonce q effect i now s =
     (if effect = Allow \<and> administrative s q
      then bt_insert nonce
        \<lparr>gr_access = q, gr_expires_at_ms = sat_add64 now (5 * 60 * 1000),
         gr_admin_mutation_digest =
           (case i of None \<Rightarrow> None
            | Some j \<Rightarrow> (case hm_get (ds_pending s) j of None \<Rightarrow> None
                         | Some p \<Rightarrow> pd_admin_mutation_digest p))\<rparr> (ds_admin_grants s)
      else ds_admin_grants s)"

definition settle_decision ::
    "service_env \<Rightarrow> string \<Rightarrow> access_request \<Rightarrow> policy_effect \<Rightarrow> approval_id option
     \<Rightarrow> approval_outcome \<Rightarrow> policy_engine \<Rightarrow> u64 \<Rightarrow> policy_rule option service_op" where
  "settle_decision env nonce q effect i out policy now s =
     sv_then
       (sv_rescue
          (record_activity env
             (access_event q
                \<lparr>az_effect = effect, az_rule_id = map_option pr_id (ao_created_rule out), az_approval_id = i\<rparr>
                (if effect = Deny then Denied else Queued) None None
                (if effect = Deny then Some now else None)
                (next_sequence_of (rq_activity_id q) s) now)
             (''approval-decision:'' @ nonce))
          (\<lambda>e s1. sv_then (audit_access env q effect AuditFailed now) (\<lambda>_. sv_fail e)
             (s1\<lparr>ds_policy := ds_policy s, ds_admin_grants := ds_admin_grants s,
                 ds_pending := ds_pending s\<rparr>)))
       (\<lambda>_. sv_ok (ao_created_rule out))
       (s\<lparr>ds_policy := policy,
          ds_pending := (case i of None \<Rightarrow> ds_pending s | Some j \<Rightarrow> hm_remove j (ds_pending s)),
          ds_admin_grants := decided_grants nonce q effect i now s\<rparr>)"

definition carry_out_decision ::
    "service_env \<Rightarrow> string \<Rightarrow> host_id \<Rightarrow> access_request \<Rightarrow> approval_decision \<Rightarrow> u64
     \<Rightarrow> approval_id option \<Rightarrow> policy_rule option service_op" where
  "carry_out_decision env nonce session_host q d now i s =
     (case decide (sv_policy env) nonce session_host q d now (ds_policy s) of
        None \<Rightarrow> None
      | Some (Inl e, _) \<Rightarrow> refuse_decision env q (decision_effect d) i e now s
      | Some (Inr out, policy) \<Rightarrow> settle_decision env nonce q (decision_effect d) i out policy now s)"

definition decide_approval ::
    "service_env \<Rightarrow> string \<Rightarrow> host_id \<Rightarrow> access_request \<Rightarrow> approval_decision \<Rightarrow> u64
     \<Rightarrow> policy_rule option service_op" where
  "decide_approval env nonce session_host q d now s =
     (if ds_paused s \<and> \<not> local_resume s q then Some (Err SePermissionDenied, s)
      else if (case evaluate (sv_policy env) q now (ds_policy s) of
                 Inr (PolicyDenied _) \<Rightarrow> True | _ \<Rightarrow> False)
      then sv_then (audit_access env q Deny AuditDenied now) (\<lambda>_. sv_fail SePermissionDenied) s
      else sv_then (audit_access env q (decision_effect d) AuditAttempted now)
             (\<lambda>_. carry_out_decision env nonce session_host q d now (find_matching_pending nonce q s)) s)"

definition decide_pending_approval ::
    "service_env \<Rightarrow> approval_id \<Rightarrow> host_id \<Rightarrow> approval_decision \<Rightarrow> u64 \<Rightarrow> policy_rule option service_op"
where
  "decide_pending_approval env i session_host d now s =
     (case hm_get (ds_pending s) i of
        None \<Rightarrow> Some (Err SeNotFound, s)
      | Some p \<Rightarrow> decide_approval env (pd_nonce p) session_host (pd_access p) d now s)"

section \<open>Administrative changes\<close>

text \<open>
  The pattern every change follows once it is authorized: audit the attempt, change the state, record
  the event; when that fails, undo the change and audit the failure.
\<close>

definition apply_local ::
    "service_env \<Rightarrow> string \<Rightarrow> (dashboard_service \<Rightarrow> dashboard_service)
     \<Rightarrow> (dashboard_service \<Rightarrow> dashboard_service) \<Rightarrow> u64 \<Rightarrow> unit service_op" where
  "apply_local env operation change undo now s =
     sv_rescue (append_local_event env operation now)
       (\<lambda>e s1. sv_then (audit_local env operation AuditFailed now) (\<lambda>_. sv_fail e) (undo s1))
       (change s)"

definition revision_conflict :: "policy_rule \<Rightarrow> u64 \<Rightarrow> policy_engine \<Rightarrow> bool" where
  "revision_conflict r expected e =
     (case List.find (\<lambda>x. pr_id x = pr_id r) (pg_rules e) of
        None \<Rightarrow> expected \<noteq> 0
      | Some current \<Rightarrow> pr_revision current \<noteq> expected)"

definition put_policy_rule_exact ::
    "service_env \<Rightarrow> policy_rule \<Rightarrow> u64 \<Rightarrow> u64 \<Rightarrow> unit service_op" where
  "put_policy_rule_exact env r expected now =
     sv_then (authorize_admin env ''devicelane.policy.put'' DeviceLanePolicy
                (Some (mutation_digest env (PolicyPut r expected))) now)
       (\<lambda>_ s. if revision_conflict r expected (ds_policy s) then Some (Err SeRevisionConflict, s)
         else sv_then (audit_local env ''policy-put'' AuditAttempted now)
           (\<lambda>_ s1. case put_user_rule r (ds_policy s1) of
                (Inl _, _) \<Rightarrow>
                  sv_then (audit_local env ''policy-put'' AuditFailed now)
                    (\<lambda>_. sv_fail SePermissionDenied) s1
              | (Inr _, policy) \<Rightarrow>
                  apply_local env ''policy-put'' (\<lambda>t. t\<lparr>ds_policy := policy\<rparr>)
                    (\<lambda>t. t\<lparr>ds_policy := ds_policy s1\<rparr>) now s1) s)"

definition put_policy_rule :: "service_env \<Rightarrow> policy_rule \<Rightarrow> u64 \<Rightarrow> unit service_op" where
  "put_policy_rule env r now = put_policy_rule_exact env r (pr_revision r - 1) now"

definition delete_policy_rule_authorized ::
    "service_env \<Rightarrow> rule_id \<Rightarrow> u64 \<Rightarrow> bool service_op" where
  "delete_policy_rule_authorized env i now =
     sv_then (audit_local env ''policy-delete'' AuditAttempted now)
       (\<lambda>_ s. case delete_user_rule i (ds_policy s) of
            (Inl _, _) \<Rightarrow>
              sv_then (audit_local env ''policy-delete'' AuditFailed now)
                (\<lambda>_. sv_fail SePermissionDenied) s
          | (Inr deleted, policy) \<Rightarrow>
              sv_then (apply_local env ''policy-delete'' (\<lambda>t. t\<lparr>ds_policy := policy\<rparr>)
                         (\<lambda>t. t\<lparr>ds_policy := ds_policy s\<rparr>) now)
                (\<lambda>_. sv_ok deleted) s)"

definition delete_policy_rule :: "service_env \<Rightarrow> rule_id \<Rightarrow> u64 \<Rightarrow> bool service_op" where
  "delete_policy_rule env i now =
     sv_then (authorize_admin env ''devicelane.policy.delete'' DeviceLanePolicy
                (Some (mutation_digest env (PolicyDelete i 0))) now)
       (\<lambda>_. delete_policy_rule_authorized env i now)"

definition delete_policy_rule_exact :: "service_env \<Rightarrow> rule_id \<Rightarrow> u64 \<Rightarrow> u64 \<Rightarrow> bool service_op" where
  "delete_policy_rule_exact env i expected now =
     sv_then (authorize_admin env ''devicelane.policy.delete'' DeviceLanePolicy
                (Some (mutation_digest env (PolicyDelete i expected))) now)
       (\<lambda>_ s. case List.find (\<lambda>r. pr_id r = i) (pg_rules (ds_policy s)) of
            None \<Rightarrow> Some (Err SeNotFound, s)
          | Some current \<Rightarrow>
              if pr_revision current \<noteq> expected then Some (Err SeRevisionConflict, s)
              else delete_policy_rule_authorized env i now s)"

definition delete_policy_rule_if_revision where
  "delete_policy_rule_if_revision = delete_policy_rule_exact"

text \<open>
  A connection change: \<open>persist\<close> is what the caller's write answers. It runs only once the attempt is in
  the audit log.
\<close>

definition apply_connection_change ::
    "service_env \<Rightarrow> connection_config \<Rightarrow> service_error + unit \<Rightarrow> u64 \<Rightarrow> unit service_op" where
  "apply_connection_change env configuration persist now =
     sv_then (authorize_admin env ''devicelane.service.connection.set'' DeviceLaneService
                (Some (mutation_digest env (ConnectionSet configuration))) now)
       (\<lambda>_. sv_then (audit_local env ''connection-set'' AuditAttempted now)
         (\<lambda>_. case persist of
            Inr _ \<Rightarrow> audit_local env ''connection-set'' AuditSucceeded now
          | Inl e \<Rightarrow> sv_then (audit_local env ''connection-set'' AuditFailed now) (\<lambda>_. sv_fail e)))"

definition delete_audit_exact ::
    "service_env \<Rightarrow> audit_deletion_scope \<Rightarrow> audit_filter \<Rightarrow> u64 \<Rightarrow> nat service_op" where
  "delete_audit_exact env scope f now =
     sv_then (authorize_admin env ''devicelane.audit.delete'' DeviceLanePolicy
                (Some (mutation_digest env (AuditDelete scope f))) now)
       (\<lambda>_ s. case audit_delete (sv_audit env) (if scope = CurrentFilter then f else filter_default) now
                 (ds_disk s, ds_audit s) of
            (Inl e, d, st) \<Rightarrow> Some (Err (map_audit_error e), s\<lparr>ds_disk := d, ds_audit := st\<rparr>)
          | (Inr n, d, st) \<Rightarrow> Some (Ok n, s\<lparr>ds_disk := d, ds_audit := st\<rparr>))"

definition service_delete_audit :: "service_env \<Rightarrow> audit_filter \<Rightarrow> u64 \<Rightarrow> nat service_op" where
  "service_delete_audit env f now = delete_audit_exact env CurrentFilter f now"

section \<open>Pausing\<close>

fun cancel_all :: "service_env \<Rightarrow> u64 \<Rightarrow> activity_id list \<Rightarrow> unit service_op" where
  "cancel_all env now [] = sv_ok ()"
| "cancel_all env now (i # ids) =
     sv_then
       (sv_rescue (cancel_activity_inner env i now)
          (\<lambda>e s. sv_then (audit_local env ''remote-access-pause'' AuditFailed now) (\<lambda>_. sv_fail e)
             (s\<lparr>ds_paused := False\<rparr>)))
       (\<lambda>_. cancel_all env now ids)"

definition pause :: "service_env \<Rightarrow> existing_jobs \<Rightarrow> u64 \<Rightarrow> unit service_op" where
  "pause env existing now =
     sv_then (authorize_admin env ''devicelane.service.pause'' DeviceLaneService None now)
       (\<lambda>_. sv_then (audit_local env ''remote-access-pause'' AuditAttempted now)
         (\<lambda>_ s. sv_then
            (if existing = CancelJobs then cancel_all env now (hm_keys (ds_activities s)) else sv_ok ())
            (\<lambda>_. apply_local env ''remote-access-pause'' id (\<lambda>t. t\<lparr>ds_paused := False\<rparr>) now)
            (s\<lparr>ds_paused := True\<rparr>)))"

definition resume :: "service_env \<Rightarrow> u64 \<Rightarrow> unit service_op" where
  "resume env now =
     sv_then (authorize_admin env ''devicelane.service.resume'' DeviceLaneService None now)
       (\<lambda>_. sv_then (audit_local env ''remote-access-resume'' AuditAttempted now)
         (\<lambda>_. apply_local env ''remote-access-resume'' (\<lambda>t. t\<lparr>ds_paused := False\<rparr>)
            (\<lambda>t. t\<lparr>ds_paused := True\<rparr>) now))"

section \<open>Starting\<close>

definition service_new ::
    "host_id \<Rightarrow> projector \<Rightarrow> journal \<Rightarrow> audit_disk \<Rightarrow> audit_store \<Rightarrow> policy_engine \<Rightarrow> dashboard_service"
where
  "service_new host topology events d audit policy =
     \<lparr>ds_local_host_id = host, ds_topology = topology, ds_events = events, ds_disk = d,
      ds_audit = audit, ds_policy = policy, ds_pending = [], ds_admin_grants = [],
      ds_activities = [], ds_paused = False,
      ds_next_audit_sequence = sat_add64 (audit_last_sequence audit) 1, ds_audit_healthy = True,
      ds_persistent = False, ds_checkpoint_file = None\<rparr>"

fun restore_activities :: "activity_event list \<Rightarrow> unit service_op" where
  "restore_activities [] s = Some (Ok (), s)"
| "restore_activities (e # es) s =
     (if \<not> is_ok (event_validate e) then Some (Err SeAuditUnavailable, s)
      else if hm_has (ds_activities s) (ae_activity_id e) then Some (Err SeAuditUnavailable, s)
      else case restore_activity_sequence (ae_activity_id e) (ae_sequence e) (ds_events s) of
        (Inl _, j) \<Rightarrow> Some (Err SeAuditUnavailable, s\<lparr>ds_events := j\<rparr>)
      | (Inr _, j) \<Rightarrow>
          restore_activities es
            (s\<lparr>ds_events := j, ds_activities := hm_insert (ae_activity_id e) e (ds_activities s)\<rparr>))"

definition stored_pending_ok :: "approval_id \<times> pending \<Rightarrow> bool" where
  "stored_pending_ok = (\<lambda>(i, p). aq_id (pd_request p) = i \<and> pd_nonce p \<noteq> [] \<and> aq_expires_at_ms (pd_request p) \<noteq> 0)"

definition grant_ok :: "host_id \<Rightarrow> string \<times> admin_grant \<Rightarrow> bool" where
  "grant_ok host = (\<lambda>(n, g). n \<noteq> [] \<and> gr_expires_at_ms g \<noteq> 0 \<and> rq_target_host_id (gr_access g) = host)"

definition checkpoint_acceptable :: "service_env \<Rightarrow> u64 \<Rightarrow> activity_checkpoint \<Rightarrow> bool" where
  "checkpoint_acceptable env audit_sequence c =
     (cp_version c = 2 \<and> length (cp_activities c) \<le> MAX_CHECKPOINT_ENTRIES
      \<and> length (cp_pending c) \<le> MAX_CHECKPOINT_ENTRIES
      \<and> length (cp_admin_grants c) \<le> MAX_CHECKPOINT_ENTRIES
      \<and> cp_audit_sequence c \<le> audit_sequence
      \<and> checkpoint_digest env ((checkpoint_payload.truncate c)\<lparr>cp_version := 2\<rparr>) = cp_digest c)"

definition restore_tables :: "service_env \<Rightarrow> activity_checkpoint \<Rightarrow> u64 \<Rightarrow> unit service_op" where
  "restore_tables env c now s =
     (if \<not> list_all stored_pending_ok (cp_pending c)
         \<or> \<not> list_all (grant_ok (ds_local_host_id s)) (cp_admin_grants c)
      then Some (Err SeAuditUnavailable, s)
      else case restore_checkpoint (cp_policy c) (ds_policy s) of
        (Inl _, _) \<Rightarrow> Some (Err SeAuditUnavailable,
             s\<lparr>ds_pending := cp_pending c, ds_admin_grants := cp_admin_grants c\<rparr>)
      | (Inr _, policy) \<Rightarrow>
          sv_then (reconcile_after_restart env now) (\<lambda>_. sv_ok ())
            (s\<lparr>ds_pending := cp_pending c, ds_admin_grants := cp_admin_grants c,
               ds_policy := policy, ds_paused := cp_paused c\<rparr>))"

text \<open>
  A persistent service: the result is an error or the service is ready in the state next to it. \<open>file\<close>
  is the checkpoint beside the audit log.
\<close>

definition service_new_persistent ::
    "service_env \<Rightarrow> string option \<Rightarrow> u64 \<Rightarrow> dashboard_service
     \<Rightarrow> ((service_error + unit) \<times> dashboard_service) option" where
  "service_new_persistent env file now s0 =
     (let s = s0\<lparr>ds_persistent := True, ds_checkpoint_file := file\<rparr> in
      case read_activity_checkpoint file of
        Inl _ \<Rightarrow> Some (Err SeAuditUnavailable, s)
      | Inr None \<Rightarrow> Some (Ok (), s)
      | Inr (Some bytes) \<Rightarrow>
          (case sv_read_checkpoint env bytes of
             None \<Rightarrow> Some (Err SeAuditUnavailable, s)
           | Some c \<Rightarrow>
               if \<not> checkpoint_acceptable env (audit_last_sequence (ds_audit s)) c
               then Some (Err SeAuditUnavailable, s)
               else sv_then (restore_activities (cp_activities c)) (\<lambda>_. restore_tables env c now) s))"

end
