(* ===== verification/ServiceAudit.thy ===== *)
theory ServiceAudit
  imports Service
begin

text \<open>
  What the dashboard service promises of its audit log: no change of the rules, of the pause switch or
  of the pending approvals happens before the attempt is in the log, a service whose audit failed
  changes nothing any more, and what a deletion of audit records does to the service that asked for it.
\<close>

section \<open>Relations every operation keeps\<close>

text \<open>An operation moves the state only along \<open>R\<close>, whatever its result.\<close>

definition within :: "(dashboard_service \<Rightarrow> dashboard_service \<Rightarrow> bool) \<Rightarrow> 'a service_op \<Rightarrow> bool" where
  "within R m \<longleftrightarrow> (\<forall>s r s1. m s = Some (r, s1) \<longrightarrow> R s s1)"

lemma withinD: "within R m \<Longrightarrow> m s = Some (r, s1) \<Longrightarrow> R s s1"
  by (auto simp: within_def)

text \<open>
  The interface of such a relation: it is a preorder, and the steps the service composes its operations
  of move along it. What follows is kept by every composition.
\<close>

locale service_frame =
  fixes R :: "dashboard_service \<Rightarrow> dashboard_service \<Rightarrow> bool"
  assumes stay: "R s s"
    and chain: "R s t \<Longrightarrow> R t u \<Longrightarrow> R s u"
begin

lemma within_ok: "within R (sv_ok x)"
  by (simp add: within_def sv_ok_def stay)

lemma within_fail: "within R (sv_fail e)"
  by (simp add: within_def sv_fail_def stay)

lemma within_then: "within R m \<Longrightarrow> (\<And>x. within R (f x)) \<Longrightarrow> within R (sv_then m f)"
  unfolding within_def sv_then_def
  by (auto split: option.splits prod.splits sum.splits) (meson chain)+

lemma within_rescue: "within R m \<Longrightarrow> (\<And>e. within R (h e)) \<Longrightarrow> within R (sv_rescue m h)"
  unfolding within_def sv_rescue_def
  by (auto split: option.splits prod.splits sum.splits) (meson chain)+

lemma within_if: "(c \<Longrightarrow> within R m) \<Longrightarrow> (\<not> c \<Longrightarrow> within R n) \<Longrightarrow> within R (if c then m else n)"
  by simp

lemma within_after: "within R m \<Longrightarrow> R s t \<Longrightarrow> m t = Some (r, u) \<Longrightarrow> R s u"
  by (meson chain withinD)

lemma within_compose: "within R m \<Longrightarrow> (\<And>s. R s (f s)) \<Longrightarrow> within R (\<lambda>s. m (f s))"
  unfolding within_def by (meson chain)

lemma within_self: "(\<And>t. within R (m t)) \<Longrightarrow> within R (\<lambda>s. m s s)"
  by (auto simp: within_def)

lemmas within_rules = within_ok within_fail within_then within_rescue within_if

end

text \<open>The audit log only grows.\<close>

definition audit_grows :: "dashboard_service \<Rightarrow> dashboard_service \<Rightarrow> bool" where
  "audit_grows s t \<longleftrightarrow> prefix (au_records (ds_audit s)) (au_records (ds_audit t))"

text \<open>The rules, the pause switch and the pending approvals stay.\<close>

definition settings_stay :: "dashboard_service \<Rightarrow> dashboard_service \<Rightarrow> bool" where
  "settings_stay s t \<longleftrightarrow>
     ds_policy t = ds_policy s \<and> ds_paused t = ds_paused s \<and> ds_pending t = ds_pending s"

text \<open>Once the audit has failed it stays failed.\<close>

definition audit_stays_failed :: "dashboard_service \<Rightarrow> dashboard_service \<Rightarrow> bool" where
  "audit_stays_failed s t \<longleftrightarrow> (ds_audit_healthy t \<longrightarrow> ds_audit_healthy s)"

named_theorems service_steps \<open>what the steps of the service change\<close>

lemma audit_append_records:
  "audit_append c raw (d, st) = (r, d1, st1) \<Longrightarrow>
     au_records st1 = au_records st @ (if is_ok r then [redact (au_redactor st) raw] else [])"
  by (auto simp: audit_append_def append_inner_def rotate_segment_def Let_def
      split: sum.splits prod.splits if_splits)

lemma append_audit_steps [service_steps]:
  "within audit_grows (append_audit env raw)" "within settings_stay (append_audit env raw)"
  "within audit_stays_failed (append_audit env raw)"
  by (auto simp: within_def append_audit_def audit_grows_def settings_stay_def audit_stays_failed_def Let_def
      dest!: audit_append_records split: if_splits sum.splits prod.splits option.splits)

lemma audited_steps [service_steps]:
  assumes "\<And>raw. (\<And>s. ra_sequence (raw s) = ds_next_audit_sequence s) \<Longrightarrow>
      within R (\<lambda>s. append_audit env (raw s) s)"
  shows "within R (audit_access_with_message env q f r m now)" "within R (audit_access env q f r now)"
    "within R (audit_event_with_message env e r m now)" "within R (audit_event env e r now)"
    "within R (audit_local env opn r now)"
  unfolding audit_access_with_message_def audit_access_def audit_event_with_message_def audit_event_def
    audit_local_def
  by (intro assms; simp add: access_record_def event_record_def local_record_def)+

lemma append_with: "(\<And>raw. within R (append_audit env raw)) \<Longrightarrow> within R (\<lambda>s. append_audit env (raw s) s)"
  by (auto simp: within_def)

lemma persist_now_steps [service_steps]:
  "within audit_grows (persist_now env)" "within settings_stay (persist_now env)"
  "within audit_stays_failed (persist_now env)"
  by (auto simp: within_def persist_now_def audit_grows_def settings_stay_def audit_stays_failed_def
      split: prod.splits)

lemma record_activity_steps [service_steps]:
  "within audit_grows (record_activity env e k)" "within settings_stay (record_activity env e k)"
  "within audit_stays_failed (record_activity env e k)"
  by (auto simp: within_def record_activity_def audit_grows_def settings_stay_def audit_stays_failed_def Let_def
      split: prod.splits option.splits sum.splits append_transaction_error.splits append_outcome.splits)

lemma append_local_event_steps [service_steps]:
  assumes "\<And>e k. within R (record_activity env e k)" and "\<And>s. R s s"
  shows "within R (append_local_event env opn now)"
  using assms by (auto simp: within_def append_local_event_def split: sum.splits)

text \<open>A relation the building blocks keep is kept by the operations that only use them.\<close>

locale service_component = service_frame +
  assumes append_in: "(\<And>s. ra_sequence (raw s) = ds_next_audit_sequence s) \<Longrightarrow>
      within R (\<lambda>s. append_audit env (raw s) s)"
    and record_in: "within R (record_activity env e k)"
    and grant_in: "within R (take_grant env q digest now)"
begin

lemma audits_in:
  "within R (audit_access_with_message env q f r m now)" "within R (audit_access env q f r now)"
  "within R (audit_event_with_message env e r m now)" "within R (audit_event env e r now)"
  "within R (audit_local env opn r now)"
  by (rule audited_steps, rule append_in, assumption)+

lemma within_authorize: "within R (authorize_admin env operation resource digest now)"
proof -
  have deny: "within R (sv_then (audit_access env q Deny AuditDenied now) (\<lambda>_. sv_fail SePermissionDenied :: unit service_op))" for q
    by (intro within_rules audits_in)
  show ?thesis
    using withinD [OF deny] withinD [OF grant_in]
    by (auto simp: within_def authorize_admin_def stay
        split: sum.splits policy_decision.splits if_splits)
qed

lemma within_local: "within R (append_local_event env operation now)"
  by (intro append_local_event_steps record_in stay)

lemma within_transition: "within R (transition_activity env i st metrics message now)"
proof -
  have "within R (audit_transition env e now)" for e
    by (simp add: audit_transition_def within_ok audits_in split: option.splits)
  then have "within R (sv_then (audit_transition env e now)
      (\<lambda>_. sv_then (record_activity env e k) (\<lambda>_. sv_ok True)))" for e k
    by (intro within_rules record_in)
  from withinD [OF this] show ?thesis
    by (auto simp: within_def transition_activity_def Let_def stay split: option.splits if_splits)
qed

lemma within_cancel_inner: "within R (cancel_activity_inner env i now)"
proof -
  have "within R (sv_then (audit_event env e AuditAttempted now)
      (\<lambda>_. sv_then
         (sv_rescue (record_activity env e2 k)
            (\<lambda>err. sv_then (audit_event env e AuditFailed now) (\<lambda>_. sv_fail err)))
         (\<lambda>_. sv_then (audit_event_with_message env e AuditCancelled m now) (\<lambda>_. sv_ok True))))"
    for e e2 k m
    by (intro within_rules record_in audits_in)
  from withinD [OF this] show ?thesis
    by (auto simp: within_def cancel_activity_inner_def stay split: option.splits if_splits)
qed

lemma within_deny: "within R (deny_request env q now)"
proof -
  have "within R (\<lambda>s. sv_then (record_activity env (e s) (k s)) (\<lambda>_. sv_fail SePermissionDenied :: 'a service_op) s)"
    for e k
    by (rule within_self [where m = "\<lambda>s. sv_then (record_activity env (e s) (k s)) (\<lambda>_. sv_fail SePermissionDenied)"])
      (intro within_then record_in within_fail)
  then show ?thesis
    unfolding deny_request_def Let_def by (intro within_then audits_in)
qed

lemma within_cancel: "within R (cancel_activity env i now)"
  unfolding cancel_activity_def by (intro within_then within_authorize within_cancel_inner)

end

text \<open>\<dots> and one that does not look at the settings, by those that change them as well.\<close>

locale blind_component = service_component +
  assumes blind: "R s (s\<lparr>ds_policy := p, ds_pending := d, ds_admin_grants := g, ds_paused := b\<rparr>)"
begin

lemma blind_to:
  "R s (s\<lparr>ds_policy := p, ds_pending := d\<rparr>)" "R s (s\<lparr>ds_policy := p\<rparr>)" "R s (s\<lparr>ds_pending := d\<rparr>)"
  "R s (s\<lparr>ds_paused := b\<rparr>)" "R s (s\<lparr>ds_policy := p, ds_admin_grants := g, ds_pending := d\<rparr>)"
  "R s (s\<lparr>ds_policy := p, ds_pending := d, ds_admin_grants := g\<rparr>)"
proof -
  show "R s (s\<lparr>ds_policy := p, ds_pending := d\<rparr>)"
    using blind [where s = s and p = p and d = d and g = "ds_admin_grants s" and b = "ds_paused s"] by simp
  show "R s (s\<lparr>ds_policy := p\<rparr>)"
    using blind [where s = s and p = p and d = "ds_pending s" and g = "ds_admin_grants s" and b = "ds_paused s"]
    by simp
  show "R s (s\<lparr>ds_pending := d\<rparr>)"
    using blind [where s = s and p = "ds_policy s" and d = d and g = "ds_admin_grants s" and b = "ds_paused s"]
    by simp
  show "R s (s\<lparr>ds_paused := b\<rparr>)"
    using blind [where s = s and p = "ds_policy s" and d = "ds_pending s" and g = "ds_admin_grants s" and b = b]
    by simp
  show "R s (s\<lparr>ds_policy := p, ds_pending := d, ds_admin_grants := g\<rparr>)"
    using blind [where s = s and p = p and d = d and g = g and b = "ds_paused s"] by simp
  moreover have "s\<lparr>ds_policy := p, ds_admin_grants := g, ds_pending := d\<rparr>
      = s\<lparr>ds_policy := p, ds_pending := d, ds_admin_grants := g\<rparr>" by (cases s) simp
  ultimately show "R s (s\<lparr>ds_policy := p, ds_admin_grants := g, ds_pending := d\<rparr>)" by (simp only:)
qed

text \<open>Undoing a change and auditing the failure.\<close>

lemma within_undo:
  assumes "\<And>s. R s (undo s)"
  shows "within R (\<lambda>s. (sv_then (audit_local env operation AuditFailed now) (\<lambda>_. sv_fail e) :: 'a service_op) (undo s))"
    "within R (\<lambda>s. (sv_then (audit_access env q f AuditFailed now) (\<lambda>_. sv_fail e) :: 'b service_op) (undo s))"
proof -
  show "within R (\<lambda>s. sv_then (audit_local env operation AuditFailed now) (\<lambda>_. sv_fail e) (undo s))"
    "within R (\<lambda>s. sv_then (audit_access env q f AuditFailed now) (\<lambda>_. sv_fail e) (undo s))"
    by (intro within_compose [OF _ assms(1)] within_rules audits_in)+
qed

lemma within_apply:
  assumes "\<And>s. R s (change s)" and "\<And>s. R s (undo s)"
  shows "within R (apply_local env operation change undo now)"
proof -
  have "within R (sv_rescue (append_local_event env operation now)
      (\<lambda>e s1. sv_then (audit_local env operation AuditFailed now) (\<lambda>_. sv_fail e) (undo s1)))"
    by (intro within_rules within_local within_undo assms)
  from within_compose [OF this assms(1)] show ?thesis
    by (simp add: within_def apply_local_def)
qed

lemma within_open: "within R (open_challenge env q ch policy now)"
proof -
  have inner: "within R (sv_then
      (sv_rescue (record_activity env e k)
         (\<lambda>err s1. sv_then (audit_access env q Allow AuditFailed now) (\<lambda>_. sv_fail err)
            (s1\<lparr>ds_policy := p, ds_pending := hm_remove i (ds_pending s1)\<rparr>)))
      (\<lambda>_. sv_ok x))" for e k p i and x :: "string \<times> u64"
    by (intro within_rules record_in within_undo blind_to)
  show ?thesis
    by (auto simp: within_def open_challenge_def stay split: if_splits sum.splits
        dest!: withinD [OF inner] intro: chain [OF blind_to(1)])
qed

lemma within_challenge: "within R (challenge_access env random q lifetime now)"
proof -
  have "within R (sv_then (audit_access env q Allow AuditFailed now) (\<lambda>_. sv_fail e :: (string \<times> u64) service_op))" for e
    by (intro within_rules audits_in)
  from withinD [OF this] withinD [OF within_open] show ?thesis
    by (auto simp: within_def challenge_access_def split: option.splits sum.splits prod.splits)
qed

lemma within_request: "within R (request_approval env random q lifetime now)"
proof -
  have "within R (sv_then (audit_access env q Allow AuditAttempted now)
      (\<lambda>_. challenge_access env random q lifetime now))"
    by (intro within_then audits_in within_challenge)
  from withinD [OF this] show ?thesis
    by (auto simp: within_def request_approval_def stay split: sum.splits policy_decision.splits if_splits
        dest: withinD [OF within_deny])
qed

lemma within_bind:
  assumes "within R (persist_now env)"
  shows "within R (bind_digest env nonce digest)"
proof -
  have "within R (\<lambda>s1. Some (Err e, s1\<lparr>ds_pending := d s1\<rparr>) :: ((service_error + unit) \<times> _) option)" for e d
    using blind_to(3) by (auto simp: within_def)
  then have "within R (sv_rescue (persist_now env) (\<lambda>e s1. Some (Err e, s1\<lparr>ds_pending := d s1\<rparr>)))" for d
    by (intro within_rescue assms)
  note D = withinD [OF this]
  show ?thesis
    by (auto simp: within_def bind_digest_def stay split: option.splits dest!: D intro: chain [OF blind_to(3)])
qed

lemma within_request_admin:
  assumes "within R (persist_now env)"
  shows "within R (request_admin_mutation_approval env random mutation lifetime now)"
proof -
  have "within R (sv_then (request_approval env random q lifetime now)
      (\<lambda>created. sv_then (bind_digest env (fst created) digest) (\<lambda>_. sv_ok created)))" for q digest
    by (intro within_rules within_request within_bind assms)
  from withinD [OF this] show ?thesis
    by (auto simp: within_def request_admin_mutation_approval_def Let_def stay
        split: prod.splits sum.splits if_splits)
qed

lemma within_refuse: "within R (refuse_decision env q effect i e now)"
proof -
  have "within R (sv_then (transition_activity env a st m msg now) (\<lambda>_. sv_fail err :: 'a service_op))"
    "within R (sv_then (audit_access env q effect AuditFailed now) (\<lambda>_. sv_fail err :: 'a service_op))" for a st m msg err
    by (intro within_rules within_transition audits_in)+
  note D = withinD [OF this(1)] withinD [OF this(2)]
  show ?thesis
    by (auto simp: within_def refuse_decision_def split: if_splits dest!: D intro: chain [OF blind_to(3)])
qed

lemma within_settle: "within R (settle_decision env nonce q effect i out policy now)"
proof -
  have inner: "within R (sv_then
      (sv_rescue (record_activity env e k)
         (\<lambda>err s1. sv_then (audit_access env q f AuditFailed now) (\<lambda>_. sv_fail err)
            (s1\<lparr>ds_policy := p, ds_admin_grants := g, ds_pending := d\<rparr>)))
      (\<lambda>_. sv_ok (ao_created_rule out)))" for e k p g d f
    by (intro within_rules record_in within_undo blind_to)
  show ?thesis
    unfolding within_def settle_decision_def
    by (auto dest!: withinD [OF inner] intro: chain [OF blind_to(6)])
qed

lemma within_carry_out: "within R (carry_out_decision env nonce h q d now i)"
  by (auto simp: within_def carry_out_decision_def split: option.splits sum.splits prod.splits
      dest: withinD [OF within_refuse] withinD [OF within_settle])

lemma within_decide: "within R (decide_approval env nonce h q d now)"
proof -
  have "within R (sv_then (audit_access env q Deny AuditDenied now)
      (\<lambda>_. sv_fail SePermissionDenied :: policy_rule option service_op))"
    "within R (sv_then (audit_access env q (decision_effect d) AuditAttempted now)
      (\<lambda>_. carry_out_decision env nonce h q d now i))" for i
    by (intro within_rules audits_in within_carry_out)+
  note D = withinD [OF this(1)] withinD [OF this(2)]
  show ?thesis
    by (auto simp: within_def decide_approval_def stay split: if_splits dest!: D)
qed

lemma within_put_tail:
  "within R (\<lambda>s1. case put_user_rule r (ds_policy s1) of
      (Inl _, _) \<Rightarrow> sv_then (audit_local env ''policy-put'' AuditFailed now) (\<lambda>_. sv_fail SePermissionDenied) s1
    | (Inr _, policy) \<Rightarrow> apply_local env ''policy-put'' (\<lambda>t. t\<lparr>ds_policy := policy\<rparr>)
        (\<lambda>t. t\<lparr>ds_policy := ds_policy s1\<rparr>) now s1)"
proof -
  have "within R (apply_local env ''policy-put'' (\<lambda>t. t\<lparr>ds_policy := p\<rparr>) (\<lambda>t. t\<lparr>ds_policy := p'\<rparr>) now)"
    "within R (sv_then (audit_local env ''policy-put'' AuditFailed now)
       (\<lambda>_. sv_fail SePermissionDenied :: unit service_op))" for p p'
    by (intro within_apply within_rules audits_in blind_to)+
  note D = withinD [OF this(1)] withinD [OF this(2)]
  show ?thesis by (auto simp: within_def split: prod.splits sum.splits dest: D)
qed

lemma within_delete_tail:
  "within R (\<lambda>s. case delete_user_rule i (ds_policy s) of
      (Inl _, _) \<Rightarrow> sv_then (audit_local env ''policy-delete'' AuditFailed now) (\<lambda>_. sv_fail SePermissionDenied) s
    | (Inr deleted, policy) \<Rightarrow>
        sv_then (apply_local env ''policy-delete'' (\<lambda>t. t\<lparr>ds_policy := policy\<rparr>)
          (\<lambda>t. t\<lparr>ds_policy := ds_policy s\<rparr>) now) (\<lambda>_. sv_ok deleted) s)"
proof -
  have "within R (sv_then (apply_local env ''policy-delete'' (\<lambda>t. t\<lparr>ds_policy := p\<rparr>)
        (\<lambda>t. t\<lparr>ds_policy := p'\<rparr>) now) (\<lambda>_. sv_ok deleted))"
    "within R (sv_then (audit_local env ''policy-delete'' AuditFailed now)
       (\<lambda>_. sv_fail SePermissionDenied :: bool service_op))" for p p' and deleted :: bool
    by (intro within_apply within_rules audits_in blind_to)+
  note D = withinD [OF this(1)] withinD [OF this(2)]
  show ?thesis by (auto simp: within_def split: prod.splits sum.splits dest: D)
qed

lemma within_cancel_all: "within R (cancel_all env now ids)"
  by (induction ids) (auto intro!: within_rules within_cancel_inner within_undo blind_to)

lemma within_pause_tail:
  "within R (\<lambda>s. sv_then
      (if existing = CancelJobs then cancel_all env now (hm_keys (ds_activities s)) else sv_ok ())
      (\<lambda>_. apply_local env ''remote-access-pause'' id (\<lambda>t. t\<lparr>ds_paused := False\<rparr>) now)
      (s\<lparr>ds_paused := True\<rparr>))"
proof -
  have "within R (sv_then
      (if existing = CancelJobs then cancel_all env now ids else sv_ok ())
      (\<lambda>_. apply_local env ''remote-access-pause'' id (\<lambda>t. t\<lparr>ds_paused := False\<rparr>) now))" for ids
    by (intro within_rules within_cancel_all within_apply blind_to) (simp add: stay)
  note inner = within_compose [OF this blind_to(4)]
  show ?thesis
    by (rule within_self [where m = "\<lambda>s0 s. sv_then
          (if existing = CancelJobs then cancel_all env now (hm_keys (ds_activities s0)) else sv_ok ())
          (\<lambda>_. apply_local env ''remote-access-pause'' id (\<lambda>t. t\<lparr>ds_paused := False\<rparr>) now)
          (s\<lparr>ds_paused := True\<rparr>)"]) (rule inner)
qed

lemma within_refusal: "within R (\<lambda>s. Some (Inl e, s))"
  by (simp add: within_def stay)

lemma within_put: "within R (put_policy_rule_exact env r expected now)"
proof -
  have "within R (sv_then (audit_local env ''policy-put'' AuditAttempted now)
      (\<lambda>_ s1. case put_user_rule r (ds_policy s1) of
          (Inl _, _) \<Rightarrow> sv_then (audit_local env ''policy-put'' AuditFailed now) (\<lambda>_. sv_fail SePermissionDenied) s1
        | (Inr _, policy) \<Rightarrow> apply_local env ''policy-put'' (\<lambda>t. t\<lparr>ds_policy := policy\<rparr>)
            (\<lambda>t. t\<lparr>ds_policy := ds_policy s1\<rparr>) now s1))"
    by (intro within_then audits_in within_put_tail)
  note D = withinD [OF this]
  show ?thesis
    unfolding put_policy_rule_exact_def
    by (intro within_then within_authorize) (auto simp: within_def stay split: if_splits dest: D)
qed

lemma within_delete_authorized: "within R (delete_policy_rule_authorized env i now)"
  unfolding delete_policy_rule_authorized_def by (intro within_then audits_in within_delete_tail)

lemma within_delete:
  "within R (delete_policy_rule env i now)" "within R (delete_policy_rule_exact env i expected now)"
  unfolding delete_policy_rule_def delete_policy_rule_exact_def
  by (intro within_then within_authorize within_delete_authorized)+
    (auto simp: within_def stay split: option.splits if_splits dest: withinD [OF within_delete_authorized])

lemma within_connection: "within R (apply_connection_change env configuration persist now)"
  unfolding apply_connection_change_def
  by (intro within_then within_authorize audits_in)
    (auto intro!: within_rules audits_in split: sum.splits)

lemma within_pause: "within R (pause env existing now)"
  unfolding pause_def by (intro within_then within_authorize audits_in within_pause_tail)

lemma within_resume: "within R (resume env now)"
  unfolding resume_def by (intro within_then within_authorize audits_in within_apply blind_to)

end

lemma take_grant_steps [service_steps]:
  "within audit_grows (take_grant env q digest now)" "within settings_stay (take_grant env q digest now)"
  "within audit_stays_failed (take_grant env q digest now)"
  by (auto simp: within_def take_grant_def sv_rescue_def persist_now_def Let_def audit_grows_def
      settings_stay_def audit_stays_failed_def split: option.splits prod.splits sum.splits)

interpretation log: blind_component audit_grows
  by unfold_locales (auto simp: audit_grows_def intro: append_with service_steps)

interpretation settings: service_component settings_stay
  by unfold_locales (auto simp: settings_stay_def intro: append_with service_steps)

interpretation health: blind_component audit_stays_failed
  by unfold_locales (auto simp: audit_stays_failed_def intro: append_with service_steps)

section \<open>Announced changes\<close>

definition attempted_since :: "dashboard_service \<Rightarrow> dashboard_service \<Rightarrow> bool" where
  "attempted_since s t \<longleftrightarrow>
     (\<exists>rs. au_records (ds_audit t) = au_records (ds_audit s) @ rs
        \<and> list_ex (\<lambda>r. da_result r = AuditAttempted) rs)"

definition announced :: "dashboard_service \<Rightarrow> dashboard_service \<Rightarrow> bool" where
  "announced s t \<longleftrightarrow> audit_grows s t \<and> (settings_stay s t \<or> attempted_since s t)"

lemma attempted_grows: "attempted_since s t \<Longrightarrow> audit_grows t u \<Longrightarrow> attempted_since s u"
  by (auto simp: attempted_since_def audit_grows_def prefix_def)

lemma grows_attempted: "audit_grows s t \<Longrightarrow> attempted_since t u \<Longrightarrow> attempted_since s u"
  by (auto simp: attempted_since_def audit_grows_def prefix_def)

lemma attempted_is_growth: "attempted_since s t \<Longrightarrow> audit_grows s t"
  by (auto simp: attempted_since_def audit_grows_def)

lemma quiet_announced: "within audit_grows m \<Longrightarrow> within settings_stay m \<Longrightarrow> within announced m"
  by (auto simp: within_def announced_def)

interpretation announce: service_component announced
proof
  fix s t u
  show "announced s s" by (simp add: announced_def log.stay settings.stay)
  assume "announced s t" "announced t u"
  then show "announced s u"
    by (auto simp: announced_def
        intro: log.chain settings.chain attempted_grows grows_attempted)
next
  show "within announced (\<lambda>s. append_audit env (raw s) s)" for env raw
    by (rule append_with) (intro quiet_announced service_steps)
  show "within announced (record_activity env e k)" "within announced (take_grant env q digest now)"
    for env e k q digest now
    by (intro quiet_announced service_steps)+
qed

text \<open>An operation that changes settings only after an attempt is in the log, and succeeds only then.\<close>

definition announces :: "'a service_op \<Rightarrow> bool" where
  "announces m \<longleftrightarrow> within announced m \<and> (\<forall>s x s1. m s = Some (Inr x, s1) \<longrightarrow> attempted_since s s1)"

lemma announces_within: "announces m \<Longrightarrow> within announced m"
  by (simp add: announces_def)

lemma announced_grows: "within announced m \<Longrightarrow> within audit_grows m"
  by (auto simp: within_def announced_def)

lemma announces_then:
  assumes "announces m" and "\<And>x. within audit_grows (f x)"
  shows "announces (sv_then m f)"
  unfolding announces_def within_def
proof (intro conjI allI impI)
  fix s r s1
  assume run: "sv_then m f s = Some (r, s1)"
  obtain r0 s0 where m: "m s = Some (r0, s0)" using run by (auto simp: sv_then_def split: option.splits)
  show "announced s s1"
  proof (cases r0)
    case (Inl e)
    then show ?thesis using run m assms(1) by (auto simp: sv_then_def announces_def within_def)
  next
    case (Inr x)
    then have "attempted_since s s0" "f x s0 = Some (r, s1)"
      using run m assms(1) by (auto simp: sv_then_def announces_def)
    then show ?thesis
      using assms(2) by (meson announced_def attempted_grows attempted_is_growth withinD)
  qed
next
  fix s x s1
  assume run: "sv_then m f s = Some (Inr x, s1)"
  then obtain y s0 where "m s = Some (Inr y, s0)" "f y s0 = Some (Inr x, s1)"
    by (auto simp: sv_then_def split: option.splits sum.splits)
  then show "attempted_since s s1"
    using assms by (meson announces_def attempted_grows withinD)
qed

lemma announces_after:
  assumes "within audit_grows m" and "within settings_stay m" and "\<And>x. announces (f x)"
  shows "announces (sv_then m f)"
  unfolding announces_def
proof (intro conjI allI impI)
  show "within announced (sv_then m f)"
    by (intro announce.within_then quiet_announced announces_within assms)
  fix s x s1
  assume "sv_then m f s = Some (Inr x, s1)"
  then obtain y s0 where "m s = Some (Inr y, s0)" "f y s0 = Some (Inr x, s1)"
    by (auto simp: sv_then_def split: option.splits sum.splits)
  then show "attempted_since s s1"
    using assms by (meson announces_def grows_attempted withinD)
qed

lemma append_audit_Ok:
  "append_audit env raw s = Some (Inr u, t) \<Longrightarrow>
     au_records (ds_audit t) = au_records (ds_audit s) @ [redact (au_redactor (ds_audit s)) raw]"
  by (auto simp: append_audit_def Let_def dest!: audit_append_records
      split: if_splits sum.splits prod.splits option.splits)

lemma redact_result [simp]: "da_result (redact literals raw) = ra_result raw"
  by (simp add: redact_def Let_def)

lemma announces_attempt:
  "announces (audit_access env q effect AuditAttempted now)"
  "announces (audit_event env e AuditAttempted now)"
  "announces (audit_local env operation AuditAttempted now)"
  using announce.audits_in
  by (auto simp: announces_def audit_access_def audit_access_with_message_def audit_event_def audit_event_with_message_def
      audit_local_def access_record_def event_record_def local_record_def attempted_since_def
      dest!: append_audit_Ok)

lemma announces_fail: "announces (sv_fail e)"
  by (simp add: announces_def announce.within_fail) (simp add: sv_fail_def)

lemma announces_failing:
  "within announced m \<Longrightarrow> (\<And>s x s1. m s \<noteq> Some (Inr x, s1)) \<Longrightarrow> announces m"
  by (auto simp: announces_def)

lemma announces_cases:
  "(c \<Longrightarrow> announces m) \<Longrightarrow> (\<not> c \<Longrightarrow> announces n) \<Longrightarrow> announces (if c then m else n)"
  by simp

section \<open>The operations announce what they change\<close>

lemma never_Ok_then: "(\<And>x t y u. f x t \<noteq> Some (Inr y, u)) \<Longrightarrow> sv_then m f s \<noteq> Some (Inr y, u)"
  by (auto simp: sv_then_def split: option.splits prod.splits sum.splits)

lemma deny_never_Ok: "deny_request env q now s \<noteq> Some (Inr x, t)"
  unfolding deny_request_def
  by (intro never_Ok_then) (auto simp: Let_def sv_fail_def intro!: never_Ok_then)

lemma announces_deny: "announces (deny_request env q now)"
  by (intro announces_failing announce.within_deny deny_never_Ok)

lemma announces_fun:
  assumes "\<And>s r t. f s = Some (r, t) \<Longrightarrow> (is_ok r \<longrightarrow> attempted_since s t) \<and> announced s t"
  shows "announces f"
  using assms by (fastforce simp: announces_def within_def)

lemma announcesD:
  "announces m \<Longrightarrow> m s = Some (r, t) \<Longrightarrow> (is_ok r \<longrightarrow> attempted_since s t) \<and> announced s t"
  by (cases r) (auto simp: announces_def within_def)

lemma announces_refused: "(is_ok (Inl e) \<longrightarrow> attempted_since s s) \<and> announced s s"
  by (simp add: announce.stay)

lemma announces_request: "announces (request_approval env random q lifetime now)"
proof -
  have "announces (sv_then (audit_access env q Allow AuditAttempted now)
      (\<lambda>_. challenge_access env random q lifetime now))"
    by (intro announces_then announces_attempt log.within_challenge)
  note D = announcesD [OF this] announcesD [OF announces_deny]
  show ?thesis
    by (rule announces_fun)
      (auto simp: request_approval_def announce.stay split: sum.splits policy_decision.splits if_splits dest: D)
qed

lemma announces_request_admin: "announces (request_admin_mutation_approval env random mutation lifetime now)"
proof -
  have "announces (sv_then (request_approval env random q lifetime now)
      (\<lambda>created. sv_then (bind_digest env (fst created) digest) (\<lambda>_. sv_ok created)))" for q digest
    by (intro announces_then announces_request log.within_rules log.within_bind service_steps)
  note D = announcesD [OF this]
  show ?thesis
    by (rule announces_fun)
      (auto simp: request_admin_mutation_approval_def Let_def announce.stay
        split: sum.splits prod.splits if_splits dest: D)
qed

lemma announces_decide: "announces (decide_approval env nonce h q d now)"
proof -
  have "announces (sv_then (audit_access env q Deny AuditDenied now)
      (\<lambda>_. sv_fail SePermissionDenied :: policy_rule option service_op))"
    by (intro announces_failing announce.within_rules announce.audits_in never_Ok_then) (simp add: sv_fail_def)
  moreover have "announces (sv_then (audit_access env q (decision_effect d) AuditAttempted now)
      (\<lambda>_. carry_out_decision env nonce h q d now i))" for i
    by (intro announces_then announces_attempt log.within_carry_out)
  ultimately show ?thesis
    by (intro announces_fun) (auto simp: decide_approval_def announce.stay split: if_splits dest: announcesD)
qed

lemma announces_put: "announces (put_policy_rule_exact env r expected now)"
proof -
  have "announces (sv_then (audit_local env ''policy-put'' AuditAttempted now)
      (\<lambda>_ s1. case put_user_rule r (ds_policy s1) of
          (Inl _, _) \<Rightarrow> sv_then (audit_local env ''policy-put'' AuditFailed now) (\<lambda>_. sv_fail SePermissionDenied) s1
        | (Inr _, policy) \<Rightarrow> apply_local env ''policy-put'' (\<lambda>t. t\<lparr>ds_policy := policy\<rparr>)
            (\<lambda>t. t\<lparr>ds_policy := ds_policy s1\<rparr>) now s1))"
    by (intro announces_then announces_attempt log.within_put_tail)
  note D = announcesD [OF this]
  show ?thesis
    unfolding put_policy_rule_exact_def
    by (intro announces_after log.within_authorize settings.within_authorize announces_fun)
      (auto simp: announce.stay split: if_splits dest: D)
qed

lemma announces_delete_authorized: "announces (delete_policy_rule_authorized env i now)"
  unfolding delete_policy_rule_authorized_def
  by (intro announces_then announces_attempt log.within_delete_tail)

lemma announces_delete: "announces (delete_policy_rule env i now)"
  unfolding delete_policy_rule_def
  by (intro announces_after log.within_authorize settings.within_authorize announces_delete_authorized)

lemma announces_delete_exact: "announces (delete_policy_rule_exact env i expected now)"
  unfolding delete_policy_rule_exact_def
  by (intro announces_after log.within_authorize settings.within_authorize announces_fun)
    (auto simp: announce.stay split: option.splits if_splits dest: announcesD [OF announces_delete_authorized])

lemma announces_connection: "announces (apply_connection_change env configuration persist now)"
  unfolding apply_connection_change_def
  by (intro announces_after log.within_authorize settings.within_authorize announces_then announces_attempt)
    (auto intro!: log.within_rules log.audits_in split: sum.splits)

lemma announces_pause: "announces (pause env existing now)"
  unfolding pause_def
  by (intro announces_after log.within_authorize settings.within_authorize announces_then announces_attempt
      log.within_pause_tail)

lemma announces_resume: "announces (resume env now)"
  unfolding resume_def
  by (intro announces_after log.within_authorize settings.within_authorize announces_then announces_attempt
      log.within_apply log.blind_to)

section \<open>The calls of the service\<close>

datatype service_call =
    CallRequestApproval "string list" access_request u64 u64
  | CallRequestAdmin "string list" admin_mutation u64 u64
  | CallDecide string host_id access_request approval_decision u64
  | CallDecidePending approval_id host_id approval_decision u64
  | CallPutRule policy_rule u64
  | CallPutRuleExact policy_rule u64 u64
  | CallDeleteRule rule_id u64
  | CallDeleteRuleExact rule_id u64 u64
  | CallDeleteAudit audit_deletion_scope audit_filter u64
  | CallConnection connection_config "service_error + unit" u64
  | CallRecord activity_event string
  | CallTransition activity_id activity_state metric_snapshot "display_message option" u64
  | CallAuditUnavailable activity_id metric_snapshot u64
  | CallCancel activity_id u64
  | CallPause existing_jobs u64
  | CallResume u64
  | CallTargetOffline access_request u64
  | CallController string u64
  | CallInventory string u64 "host_snapshot list"
  | CallDisconnect
  | CallAcknowledge subscriber_id event_cursor u64
  | CallEvents u64 dashboard_scope event_cursor nat

definition outcome_of :: "'a service_op \<Rightarrow> bool service_op" where
  "outcome_of m s = map_option (\<lambda>(r, t). (map_sum id (\<lambda>_. True) r, t)) (m s)"

fun service_perform :: "service_env \<Rightarrow> service_call \<Rightarrow> bool service_op" where
  "service_perform env (CallRequestApproval random q lifetime now) =
     outcome_of (request_approval env random q lifetime now)"
| "service_perform env (CallRequestAdmin random mutation lifetime now) =
     outcome_of (request_admin_mutation_approval env random mutation lifetime now)"
| "service_perform env (CallDecide nonce h q d now) = outcome_of (decide_approval env nonce h q d now)"
| "service_perform env (CallDecidePending i h d now) = outcome_of (decide_pending_approval env i h d now)"
| "service_perform env (CallPutRule r now) = outcome_of (put_policy_rule env r now)"
| "service_perform env (CallPutRuleExact r expected now) = outcome_of (put_policy_rule_exact env r expected now)"
| "service_perform env (CallDeleteRule i now) = outcome_of (delete_policy_rule env i now)"
| "service_perform env (CallDeleteRuleExact i expected now) =
     outcome_of (delete_policy_rule_if_revision env i expected now)"
| "service_perform env (CallDeleteAudit scope f now) = outcome_of (delete_audit_exact env scope f now)"
| "service_perform env (CallConnection c persist now) = outcome_of (apply_connection_change env c persist now)"
| "service_perform env (CallRecord e k) = outcome_of (record_activity env e k)"
| "service_perform env (CallTransition i st m msg now) = outcome_of (transition_activity env i st m msg now)"
| "service_perform env (CallAuditUnavailable i m now) = outcome_of (record_audit_unavailable_terminal env i m now)"
| "service_perform env (CallCancel i now) = outcome_of (cancel_activity env i now)"
| "service_perform env (CallPause existing now) = outcome_of (pause env existing now)"
| "service_perform env (CallResume now) = outcome_of (resume env now)"
| "service_perform env (CallTargetOffline q now) = outcome_of (record_preapproval_target_offline env q now)"
| "service_perform env (CallController i now) = outcome_of (observe_authenticated_controller i now)"
| "service_perform env (CallInventory i now hosts) = outcome_of (observe_authenticated_inventory i now hosts)"
| "service_perform env CallDisconnect = (\<lambda>s. Some (Ok True, disconnect_inventory s))"
| "service_perform env (CallAcknowledge i c now) = outcome_of (service_acknowledge i c now)"
| "service_perform env (CallEvents now scope c limit) =
     (\<lambda>s. Some (Ok True, snd (events_in_scope now scope c limit s)))"

definition moves_settings_announced :: "dashboard_service \<Rightarrow> dashboard_service \<Rightarrow> bool" where
  "moves_settings_announced s t \<longleftrightarrow> settings_stay s t \<or> attempted_since s t"

lemma within_outcome: "within R m \<Longrightarrow> within R (outcome_of m)"
  by (auto simp: within_def outcome_of_def)

lemma within_mono: "within R m \<Longrightarrow> (\<And>s t. R s t \<Longrightarrow> S s t) \<Longrightarrow> within S m"
  by (auto simp: within_def)

lemma announces_moves: "announces m \<Longrightarrow> within moves_settings_announced m"
  by (auto simp: announces_def within_def announced_def moves_settings_announced_def)

lemma quiet_moves: "within settings_stay m \<Longrightarrow> within moves_settings_announced m"
  by (auto simp: within_def moves_settings_announced_def)

lemma delete_audit_settings: "within settings_stay (delete_audit_exact env scope f now)"
proof -
  have "within settings_stay (\<lambda>s. case audit_delete (sv_audit env)
          (if scope = CurrentFilter then f else filter_default) now (ds_disk s, ds_audit s) of
        (Inl e, d, st) \<Rightarrow> Some (Err (map_audit_error e), s\<lparr>ds_disk := d, ds_audit := st\<rparr>)
      | (Inr n, d, st) \<Rightarrow> Some (Ok n, s\<lparr>ds_disk := d, ds_audit := st\<rparr>))"
    by (auto simp: within_def settings_stay_def split: prod.splits sum.splits)
  then show ?thesis
    unfolding delete_audit_exact_def by (intro settings.within_then settings.within_authorize)
qed

lemma as_service_settings: "within settings_stay (as_service f)"
  by (auto simp: within_def as_service_def settings_stay_def split: prod.splits sum.splits)

lemma observer_settings:
  "within settings_stay (observe_authenticated_controller i now)"
  "within settings_stay (observe_authenticated_inventory i now hosts)"
proof -
  show "within settings_stay (observe_authenticated_controller i now)"
    unfolding observe_authenticated_controller_def by (intro settings.within_rules as_service_settings)
  have "within settings_stay (sv_then (as_service f) (\<lambda>_. sv_then (as_service g) (\<lambda>_. as_service h)))" for f g h
    by (intro settings.within_rules as_service_settings)
  note D = withinD [OF this]
  show "within settings_stay (observe_authenticated_inventory i now hosts)"
    by (auto simp: within_def observe_authenticated_inventory_def settings.stay dest: D
        split: option.splits prod.splits sum.splits)
qed

lemma terminal_settings: "within settings_stay (record_audit_unavailable_terminal env i m now)"
proof -
  have "within settings_stay (sv_then (record_activity env e k) (\<lambda>_. sv_ok True))" for e k
    by (intro settings.within_rules settings.record_in)
  note D = withinD [OF this]
  show ?thesis
    by (auto simp: within_def record_audit_unavailable_terminal_def settings.stay
        split: option.splits if_splits dest!: D) (auto simp: settings_stay_def)
qed

lemma offline_settings: "within settings_stay (record_preapproval_target_offline env q now)"
proof -
  have "within settings_stay (\<lambda>s. record_activity env (e s) k s)" for e k
    by (rule settings.within_self [where m = "\<lambda>s. record_activity env (e s) k"]) (rule settings.record_in)
  then show ?thesis
    unfolding record_preapproval_target_offline_def by (intro settings.within_rules settings.audits_in)
qed

lemma acknowledge_settings: "within settings_stay (service_acknowledge i c now)"
  by (auto simp: within_def service_acknowledge_def settings_stay_def Let_def
      split: prod.splits sum.splits subscribe_error.splits)

lemma perform_announced: "within moves_settings_announced (service_perform env call)"
proof (cases call)
  case (CallDecidePending i h d now)
  have "within moves_settings_announced (decide_pending_approval env i h d now)"
    using withinD [OF announces_moves [OF announces_decide]]
    by (auto simp: within_def decide_pending_approval_def split: option.splits)
      (simp add: moves_settings_announced_def settings.stay)
  then show ?thesis using CallDecidePending by (simp add: within_outcome)
qed (simp_all add: within_outcome announces_moves announces_request announces_request_admin announces_decide
    announces_put put_policy_rule_def announces_delete announces_delete_exact delete_policy_rule_if_revision_def
    quiet_moves delete_audit_settings announces_connection settings.record_in settings.within_transition
    terminal_settings settings.within_cancel announces_pause announces_resume offline_settings
    observer_settings acknowledge_settings,
  auto simp: within_def moves_settings_announced_def settings_stay_def disconnect_inventory_def
    events_in_scope_def Let_def)


section \<open>A relation every call keeps\<close>

locale call_frame = blind_component +
  assumes persist_in: "within R (persist_now env)"
    and failed_in: "R s (s\<lparr>ds_audit_healthy := False\<rparr>)"
    and topology_in: "R s (s\<lparr>ds_topology := p\<rparr>)"
    and events_in: "R s (s\<lparr>ds_events := j\<rparr>)"
begin

lemma within_as_service: "within R (as_service f)"
  by (auto simp: within_def as_service_def topology_in split: prod.splits sum.splits)

lemma within_observers:
  "within R (observe_authenticated_controller i now)"
  "within R (observe_authenticated_inventory i now hosts)"
proof -
  show "within R (observe_authenticated_controller i now)"
    unfolding observe_authenticated_controller_def by (intro within_rules within_as_service)
  have "within R (sv_then (as_service f) (\<lambda>_. sv_then (as_service g) (\<lambda>_. as_service h)))" for f g h
    by (intro within_rules within_as_service)
  note D = withinD [OF this]
  show "within R (observe_authenticated_inventory i now hosts)"
    by (auto simp: within_def observe_authenticated_inventory_def stay dest: D
        split: option.splits prod.splits sum.splits)
qed

lemma within_terminal: "within R (record_audit_unavailable_terminal env i m now)"
proof -
  have "within R (sv_then (record_activity env e k) (\<lambda>_. sv_ok True))" for e k
    by (intro within_rules record_in)
  note D = withinD [OF this]
  show ?thesis
    by (auto simp: within_def record_audit_unavailable_terminal_def stay
        split: option.splits if_splits dest!: D intro: chain [OF failed_in])
qed

lemma within_offline: "within R (record_preapproval_target_offline env q now)"
proof -
  have "within R (\<lambda>s. record_activity env (e s) k s)" for e k
    by (rule within_self [where m = "\<lambda>s. record_activity env (e s) k"]) (rule record_in)
  then show ?thesis
    unfolding record_preapproval_target_offline_def by (intro within_rules audits_in)
qed

lemma within_acknowledge: "within R (service_acknowledge i c now)"
  by (auto simp: within_def service_acknowledge_def Let_def events_in
      split: prod.splits sum.splits subscribe_error.splits)

lemma within_decide_pending: "within R (decide_pending_approval env i h d now)"
  by (auto simp: within_def decide_pending_approval_def stay split: option.splits
      dest: withinD [OF within_decide])

lemma within_call: "(\<And>scope f now. call \<noteq> CallDeleteAudit scope f now) \<Longrightarrow> within R (service_perform env call)"
  by (cases call)
    (simp_all add: within_outcome within_request within_request_admin [OF persist_in] within_decide
      within_decide_pending within_put put_policy_rule_def within_delete delete_policy_rule_if_revision_def
      within_connection record_in within_transition within_terminal within_cancel within_pause
      within_resume within_offline within_observers within_acknowledge,
     auto simp: within_def disconnect_inventory_def events_in_scope_def Let_def topology_in events_in)

end

text \<open>A service whose audit has failed writes nothing into the log any more.\<close>

definition mute :: "dashboard_service \<Rightarrow> dashboard_service \<Rightarrow> bool" where
  "mute s t \<longleftrightarrow>
     ds_audit_healthy s \<or> (\<not> ds_audit_healthy t \<and> au_records (ds_audit t) = au_records (ds_audit s))"

interpretation calls_grow: call_frame audit_grows
  by unfold_locales (auto simp: audit_grows_def intro: append_with service_steps)

interpretation muted: call_frame mute
proof
  show "within mute (record_activity env e k)" for env e k
    by (auto simp: within_def mute_def record_activity_def Let_def
        split: prod.splits option.splits sum.splits append_transaction_error.splits append_outcome.splits)
  show "within mute (take_grant env q digest now)" for env q digest now
    by (auto simp: within_def take_grant_def sv_rescue_def persist_now_def Let_def mute_def
        split: option.splits prod.splits sum.splits)
  show "within mute (persist_now env)" for env
    by (auto simp: within_def persist_now_def mute_def split: prod.splits)
qed (auto simp: mute_def within_def append_audit_def)

fun service_run :: "service_env \<Rightarrow> service_call list \<Rightarrow> dashboard_service \<Rightarrow> dashboard_service option" where
  "service_run env [] s = Some s"
| "service_run env (c # cs) s =
     (case service_perform env c s of None \<Rightarrow> None | Some (_, t) \<Rightarrow> service_run env cs t)"

lemma delete_audit_health: "within audit_stays_failed (delete_audit_exact env scope f now)"
proof -
  have "within audit_stays_failed (\<lambda>s. case audit_delete (sv_audit env)
          (if scope = CurrentFilter then f else filter_default) now (ds_disk s, ds_audit s) of
        (Inl e, d, st) \<Rightarrow> Some (Err (map_audit_error e), s\<lparr>ds_disk := d, ds_audit := st\<rparr>)
      | (Inr n, d, st) \<Rightarrow> Some (Ok n, s\<lparr>ds_disk := d, ds_audit := st\<rparr>))"
    by (auto simp: within_def audit_stays_failed_def split: prod.splits sum.splits)
  then show ?thesis
    unfolding delete_audit_exact_def by (intro health.within_then health.within_authorize)
qed

lemma frozen_call:
  assumes "service_perform env call s = Some (r, t)" and "\<not> ds_audit_healthy s"
  shows "settings_stay s t \<and> \<not> ds_audit_healthy t"
proof (cases "\<exists>scope f now. call = CallDeleteAudit scope f now")
  case True
  then show ?thesis
    using withinD [OF within_outcome [OF delete_audit_settings]] withinD [OF within_outcome [OF delete_audit_health]]
      assms by (auto simp: audit_stays_failed_def)
next
  case False
  then have m: "mute s t" using withinD [OF muted.within_call assms(1)] by blast
  then have "\<not> attempted_since s t" using assms(2) by (auto simp: mute_def attempted_since_def)
  then show ?thesis
    using m assms(2) withinD [OF perform_announced assms(1)]
    by (auto simp: mute_def moves_settings_announced_def)
qed

lemma frozen_run:
  assumes "\<not> ds_audit_healthy s" and "service_run env calls s = Some t"
  shows "settings_stay s t \<and> \<not> ds_audit_healthy t"
  using assms
proof (induction calls arbitrary: s)
  case Nil
  then show ?case by (simp add: settings.stay)
next
  case (Cons c calls)
  then obtain r u where "service_perform env c s = Some (r, u)" "service_run env calls u = Some t"
    by (auto split: option.splits)
  with Cons show ?case using frozen_call settings.chain by blast
qed

text \<open>
  Failing closed: once an audit record could not be written, no sequence of calls changes the access
  rules, the pause switch or the pending approvals any more, and the audit does not come back; an
  approval can then neither be requested nor decided.
\<close>

theorem failed_audit_freezes_the_service:
  assumes "\<not> ds_audit_healthy s" and "service_run env calls s = Some t"
  shows "ds_policy t = ds_policy s \<and> ds_paused t = ds_paused s \<and> ds_pending t = ds_pending s
    \<and> \<not> ds_audit_healthy t"
proof -
  show ?thesis using frozen_run [OF assms] by (simp add: settings_stay_def)
qed

section \<open>Numbering\<close>

text \<open>
  The service numbers its records itself. Its counter is in step with the log when the next record
  follows the last one of the log; the last number a \<open>u64\<close> has is never written.
\<close>

definition in_step :: "dashboard_service \<Rightarrow> bool" where
  "in_step s \<longleftrightarrow>
     (ds_audit_healthy s \<and> ds_next_audit_sequence s < u64_max \<longrightarrow>
        ds_next_audit_sequence s = audit_last_sequence (ds_audit s) + 1)"

definition keeps_step :: "dashboard_service \<Rightarrow> dashboard_service \<Rightarrow> bool" where
  "keeps_step s t \<longleftrightarrow> (in_step s \<longrightarrow> in_step t)"

lemma last_after_append: "au_records st1 = au_records st @ [r] \<Longrightarrow> audit_last_sequence st1 = da_sequence r"
  by (simp add: audit_last_sequence_def last_record_def)

lemma redact_keeps_sequence [simp]: "da_sequence (redact literals raw) = ra_sequence raw"
  by (simp add: redact_def Let_def)

interpretation numbering: call_frame keeps_step
proof
  show "within keeps_step (\<lambda>s. append_audit env (raw s) s)"
    if "\<And>s. ra_sequence (raw s) = ds_next_audit_sequence s" for env raw
  proof (unfold within_def, intro allI impI)
    fix s r t
    assume "append_audit env (raw s) s = Some (r, t)"
    then show "keeps_step s t"
      using that [of s]
      by (auto simp: append_audit_def keeps_step_def in_step_def Let_def checked_add64_Some checked_add64_None
          last_after_append dest!: audit_append_records split: if_splits sum.splits prod.splits option.splits)
  qed
  show "within keeps_step (record_activity env e k)" for env e k
    by (auto simp: within_def keeps_step_def in_step_def record_activity_def Let_def
        split: prod.splits option.splits sum.splits append_transaction_error.splits append_outcome.splits)
  show "within keeps_step (take_grant env q digest now)" for env q digest now
    by (auto simp: within_def take_grant_def sv_rescue_def persist_now_def Let_def keeps_step_def in_step_def
        split: option.splits prod.splits sum.splits)
  show "within keeps_step (persist_now env)" for env
    by (auto simp: within_def persist_now_def keeps_step_def in_step_def split: prod.splits)
qed (auto simp: keeps_step_def in_step_def)

lemma in_step_new: "in_step (service_new host topology events d audit policy)"
  by (auto simp: in_step_def service_new_def sat_add64_def min_def split: if_splits)

lemma in_step_run:
  "in_step s \<Longrightarrow> list_all (\<lambda>c. \<forall>scope f now. c \<noteq> CallDeleteAudit scope f now) calls \<Longrightarrow>
     service_run env calls s = Some t \<Longrightarrow> in_step t"
proof (induction calls arbitrary: s)
  case Nil
  then show ?case by simp
next
  case (Cons c calls)
  then obtain r u where "service_perform env c s = Some (r, u)" "service_run env calls u = Some t"
    by (auto split: option.splits)
  moreover have "keeps_step s u"
    by (rule withinD [OF numbering.within_call calculation(1)]) (use Cons.prems(2) in auto)
  ultimately show ?case using Cons by (auto simp: keeps_step_def)
qed

section \<open>Deleting audit records\<close>

lemma authorize_keeps_log:
  "authorize_admin env operation resource digest now s = Some (Inr u, t) \<Longrightarrow>
     ds_audit t = ds_audit s \<and> ds_disk t = ds_disk s \<and> ds_audit_healthy t = ds_audit_healthy s
     \<and> ds_next_audit_sequence t = ds_next_audit_sequence s"
  by (auto simp: authorize_admin_def take_grant_def sv_then_def sv_fail_def sv_rescue_def persist_now_def Let_def
      split: sum.splits policy_decision.splits option.splits prod.splits if_splits)

lemma audit_delete_last:
  assumes "audit_delete c f now (d, st) = (Inr n, d1, st1)" and "n \<noteq> 0"
  shows "audit_last_sequence st1 = next_sequence st \<and> au_records st1 \<noteq> [] \<and> au_available st1
    \<and> au_records st \<noteq> []"
  using assms
  by (auto simp: audit_delete_def Let_def audit_last_sequence_def last_record_def deletion_record_def
      split: if_splits sum.splits prod.splits)


end
