(* ===== verification/ServiceSample.thy ===== *)
theory ServiceSample
  imports ServiceAudit
begin

text \<open>
  Concrete services for the examples: an environment with short encodings, a service that just started,
  and one that holds a grant for an administrative mutation.
\<close>

definition short_audit_codec :: audit_codec where
  "short_audit_codec = sample_audit_codec\<lparr>ac_entry := (\<lambda>_. ''e''), ac_digest := (\<lambda>_. ''d'')\<rparr>"

definition sample_service_env :: service_env where
  "sample_service_env =
     \<lparr>sv_policy = sample_codec, sv_event_json = ae_activity_id, sv_sha = (\<lambda>b. b),
      sv_audit = short_audit_codec, sv_mutation_json = (\<lambda>_. ''mutation''),
      sv_payload_json = (\<lambda>_. ''payload''), sv_checkpoint_json = (\<lambda>_. ''checkpoint''),
      sv_read_checkpoint = (\<lambda>_. None), sv_write = (\<lambda>_. CheckpointWritten)\<rparr>"

definition sample_service :: "dashboard_audit_record list \<Rightarrow> dashboard_service" where
  "sample_service rs =
     service_new ''mac'' (new_at_revision 0) (new_journal 1 0)
       \<lparr>ad_index = None, ad_segments = [(1, [])], ad_locked = True\<rparr>
       (loaded_store 30 [] AUDIT_MAX_SEGMENT_BYTES 1 [1] (map StoredRecord rs) False) new_engine"

definition admin_access :: "string \<Rightarrow> resource_class \<Rightarrow> access_request" where
  "admin_access operation resource =
     \<lparr>rq_activity_id = ''admin-1'', rq_principal_id = ''local-user'', rq_source_host_id = ''mac'',
      rq_target_host_id = ''mac'', rq_device_id = None, rq_operation = operation,
      rq_resources = [resource], rq_remote_operation = None, rq_physical_device = False,
      rq_user_present = True\<rparr>"

definition granted ::
    "string \<Rightarrow> resource_class \<Rightarrow> string option \<Rightarrow> dashboard_service \<Rightarrow> dashboard_service" where
  "granted operation resource digest s =
     s\<lparr>ds_admin_grants := [(''nonce'',
        \<lparr>gr_access = admin_access operation resource, gr_expires_at_ms = 1000,
         gr_admin_mutation_digest = digest\<rparr>)]\<rparr>"

lemma admin_asks:
  "rq_resources q = [r] \<Longrightarrow> rq_remote_operation q = None \<Longrightarrow>
     \<exists>why. evaluate sample_codec q now new_engine = Ok (ApprovalRequired why)"
  by (simp add: evaluate_def validate_request_def new_engine_def select_rule_def
      MAX_COLLECTION_ITEMS_def)

lemma granted_authorized:
  assumes "\<not> ds_persistent s" and "ds_policy s = new_engine" and "ds_local_host_id s = ''mac''"
    and "validated_id_parse (''admin-auth-'' @ show_nat (ds_next_audit_sequence s)) = Ok i"
    and "validated_id_parse operation = Ok operation" and "now < 1000"
  shows "authorize_admin sample_service_env operation resource digest now (granted operation resource digest s)
    = Some (Ok (), s\<lparr>ds_admin_grants := []\<rparr>)"
proof -
  let ?s = "granted operation resource digest s"
  obtain q where q: "admin_request ?s operation resource = Ok q" "rq_resources q = [resource]"
    "rq_remote_operation q = None" "rq_operation q = operation"
    "rq_source_host_id q = ''mac''" "rq_target_host_id q = ''mac''"
    using assms(3-5) by (simp add: admin_request_def granted_def)
  obtain why where "evaluate sample_codec q now new_engine = Ok (ApprovalRequired why)"
    using admin_asks [OF q(2,3)] by blast
  then show ?thesis
    using q assms(1,2,6)
    by (simp add: authorize_admin_def sample_service_env_def granted_def take_grant_def grant_matches_def
        admin_access_def sv_rescue_def persist_now_def persist_service_state_def hm_remove_def Let_def)
qed

section \<open>Examples\<close>

definition deleting_service :: dashboard_service where
  "deleting_service = granted ''devicelane.audit.delete'' DeviceLanePolicy
     (Some (mutation_digest sample_service_env (AuditDelete AllRetained filter_default))) (sample_service one_record)"

lemma deleting_service_simps [simp]:
  "ds_audit_healthy deleting_service" "ds_next_audit_sequence deleting_service = 2"
  "in_step deleting_service"
  by (simp_all add: deleting_service_def granted_def sample_service_def service_new_def in_step_def
      audit_last_sequence_def last_record_def one_record_def loaded_store_def sat_add64_def u64_max_def
      sample_raw_def)

lemma deletion_runs:
  "\<exists>t. delete_audit_exact sample_service_env AllRetained filter_default 7 deleting_service = Some (Ok 1, t)
     \<and> ds_next_audit_sequence t = 2"
proof -
  let ?s = "sample_service one_record"
  have next_number: "ds_next_audit_sequence ?s = 2"
    using deleting_service_simps(2) by (simp add: deleting_service_def granted_def)
  have parse: "validated_id_parse (''admin-auth-'' @ show_nat 2) = Ok ''admin-auth-2''"
    "validated_id_parse ''devicelane.audit.delete'' = Ok ''devicelane.audit.delete''"
    by code_simp+
  have auth: "authorize_admin sample_service_env ''devicelane.audit.delete'' DeviceLanePolicy
      (Some (mutation_digest sample_service_env (AuditDelete AllRetained filter_default))) 7 deleting_service
      = Some (Ok (), ?s\<lparr>ds_admin_grants := []\<rparr>)"
    unfolding deleting_service_def
    by (rule granted_authorized [OF _ _ _ _ parse(2)])
      (simp_all only: next_number parse, simp_all add: sample_service_def service_new_def)
  have "\<exists>d st. audit_delete short_audit_codec filter_default 7 (ds_disk ?s, ds_audit ?s) = (Ok 1, d, st)"
    by (simp add: audit_delete_def sample_service_def service_new_def loaded_store_def one_record_def
        filter_matches_def filter_default_def next_sequence_def last_record_def sample_raw_def Let_def
        max_number_def segment_numbers_def hm_keys_def sat_add64_def u64_max_def create_segment_def
        seg_exists_iff hm_get_def put_segment_def hm_insert_def short_audit_codec_def frame_len_def
        u32_max_def HASH_BYTES_def segment_len_def append_frame_def AUDIT_MAX_SEGMENT_BYTES_def)
  then obtain d st where del: "audit_delete short_audit_codec filter_default 7 (ds_disk ?s, ds_audit ?s) = (Ok 1, d, st)"
    by blast
  show ?thesis
    using auth del next_number by (simp add: delete_audit_exact_def sv_then_def sample_service_env_def)
qed


definition resuming_service :: dashboard_service where
  "resuming_service = (granted ''devicelane.service.resume'' DeviceLaneService None (sample_service []))
     \<lparr>ds_paused := True\<rparr>"

lemma audit_local_runs:
  assumes "ds_audit_healthy s" and "ds_audit s = ds_audit (sample_service [])"
    and "ds_disk s = ds_disk (sample_service [])" and "ds_next_audit_sequence s = 1"
  shows "\<exists>d st. audit_local sample_service_env operation result 7 s
    = Some (Ok (), s\<lparr>ds_disk := d, ds_audit := st, ds_next_audit_sequence := Suc (Suc 0)\<rparr>)"
  using assms
  by (simp add: audit_local_def append_audit_def sample_service_env_def local_record_def audit_append_def
      sample_service_def service_new_def loaded_store_def last_record_def Let_def redact_def
      audit_validate_def validate_unique_resources_def validate_len_def MAX_COLLECTION_ITEMS_def
      short_audit_codec_def frame_len_def u32_max_def HASH_BYTES_def AUDIT_MAX_SEGMENT_BYTES_def
      append_inner_def segment_len_def hm_get_def needs_rotation_def append_frame_def checked_add64_def
      u64_max_def) blast

lemma resume_runs:
  "\<exists>t. service_perform sample_service_env (CallResume 7) resuming_service = Some (Ok True, t) \<and> \<not> ds_paused t"
proof -
  let ?s = "(sample_service [])\<lparr>ds_paused := True\<rparr>"
  have parse: "validated_id_parse (''admin-auth-'' @ show_nat 1) = Ok ''admin-auth-1''"
    "validated_id_parse ''devicelane.service.resume'' = Ok ''devicelane.service.resume''"
    "validated_id_parse (''admin-'' @ show_nat 1 @ ''-remote-access-resume'') = Ok ''admin-1-remote-access-resume''"
    by code_simp+
  have start: "ds_next_audit_sequence ?s = 1" "ds_local_host_id ?s = ''mac''" "\<not> ds_persistent ?s"
    "ds_policy ?s = new_engine" "ds_audit_healthy ?s" "ds_audit ?s = ds_audit (sample_service [])"
    "ds_disk ?s = ds_disk (sample_service [])"
    by (simp_all add: sample_service_def service_new_def audit_last_sequence_def last_record_def
        loaded_store_def sat_add64_def u64_max_def)
  have eq: "resuming_service = granted ''devicelane.service.resume'' DeviceLaneService None ?s"
    by (simp add: resuming_service_def granted_def)
  have num: "validated_id_parse (''admin-auth-'' @ show_nat (ds_next_audit_sequence ?s)) = Ok ''admin-auth-1''"
    by (simp only: start(1) parse(1))
  have auth: "authorize_admin sample_service_env ''devicelane.service.resume'' DeviceLaneService None 7 resuming_service
      = Some (Ok (), ?s\<lparr>ds_admin_grants := []\<rparr>)"
    unfolding eq by (rule granted_authorized [OF start(3,4,2) num parse(2)]) simp
  obtain d st where audited: "audit_local sample_service_env ''remote-access-resume'' AuditAttempted 7 (?s\<lparr>ds_admin_grants := []\<rparr>)
      = Some (Ok (), ?s\<lparr>ds_admin_grants := [], ds_disk := d, ds_audit := st, ds_next_audit_sequence := Suc (Suc 0)\<rparr>)"
    using audit_local_runs [of "?s\<lparr>ds_admin_grants := []\<rparr>" "''remote-access-resume''" AuditAttempted] start
    by simp blast
  have key: "trim ''local-mutation:admin-1-remote-access-resume:remote-access-resume'' \<noteq> []" by code_simp
  have recorded: "\<exists>t. append_local_event sample_service_env ''remote-access-resume'' 7
      (?s\<lparr>ds_admin_grants := [], ds_disk := d, ds_audit := st, ds_next_audit_sequence := Suc (Suc 0), ds_paused := False\<rparr>)
      = Some (Ok (), t) \<and> \<not> ds_paused t"
  proof -
    let ?t = "?s\<lparr>ds_admin_grants := [], ds_disk := d, ds_audit := st, ds_next_audit_sequence := Suc (Suc 0), ds_paused := False\<rparr>"
    have "validated_id_parse (''admin-'' @ show_nat (ds_next_audit_sequence ?t - 1) @ ''-remote-access-resume'')
        = Ok ''admin-1-remote-access-resume''" using parse(3) by simp
    moreover have "\<exists>u. record_activity sample_service_env e k ?t = Some (Ok (), u) \<and> \<not> ds_paused u"
      if "event_validate e = Ok ()" "trim k \<noteq> []" "length k \<le> 256" "ae_sequence e = 1"
        "length (ae_activity_id e) \<le> 128" for e k
      using that
      by (simp add: record_activity_def persist_service_state_def sample_service_def service_new_def sample_service_env_def
          append_with_precommit_def append_locked_def new_journal_def with_bounds_def MAX_EVENTS_def
          MAX_EVENT_BYTES_def expected_sequence_def make_slot_def checked_add64_def u64_max_def publish_event_def)
    ultimately show ?thesis
      using key
      by (simp add: append_local_event_def event_validate_def unavailable_metrics_def
          validate_unique_resources_def validate_len_def MAX_COLLECTION_ITEMS_def validate_lifecycle_def
          validate_lifecycle_state_def)
  qed
  show ?thesis
    using auth audited recorded
    by (auto simp: resume_def outcome_of_def sv_then_def apply_local_def sv_rescue_def)
qed


lemma failed_audit_freezes_the_service_witness:
  "let s = resuming_service\<lparr>ds_audit_healthy := False\<rparr> in
   \<exists>t. service_run sample_service_env [CallDisconnect, CallDisconnect] s = Some t
     \<and> ds_paused t \<and> ds_policy t = new_engine \<and> \<not> ds_audit_healthy t"
proof -
  let ?s = "resuming_service\<lparr>ds_audit_healthy := False\<rparr>"
  obtain t where t: "service_run sample_service_env [CallDisconnect, CallDisconnect] ?s = Some t" by auto
  from failed_audit_freezes_the_service [OF _ t] show ?thesis
    using t by (auto simp: resuming_service_def granted_def sample_service_def service_new_def)
qed

end
