(* ===== verification/EventStore.thy ===== *)
theory EventStore
  imports Protocol "HOL-Library.Word"
begin

unbundle bit_operations_syntax

text \<open>
  The byte formats of the registry's event store (\<open>registry_event_store.rs\<close>, \<open>codec.rs\<close>,
  \<open>events.rs\<close>): the bindings of identities, the header of a segment, and the body that holds a batch
  of events. Files are strings of bytes and SHA-256 is an argument. The writer and the reader of a
  body work over any implementation of \<open>Write\<close> and \<open>Read\<close>; two locales state what they rely on.
\<close>

section \<open>Errors and little-endian numbers\<close>

datatype io_kind = InvalidData | UnexpectedEof | WriteZero | OtherIo

fun le_bytes :: "nat \<Rightarrow> nat \<Rightarrow> string" where
  "le_bytes 0 n = []"
| "le_bytes (Suc k) n = char_of (n mod 256) # le_bytes k (n div 256)"

fun le_value :: "string \<Rightarrow> nat" where
  "le_value [] = 0"
| "le_value (c # cs) = byte_of c + 256 * le_value cs"

lemma length_le_bytes [simp]: "length (le_bytes k n) = k"
  by (induction k arbitrary: n) auto

lemma le_value_bytes [simp]: "le_value (le_bytes k n) = n mod 256 ^ k"
proof (induction k arbitrary: n)
  case (Suc k)
  have "n mod 256 ^ Suc k = 256 * (n div 256 mod 256 ^ k) + n mod 256"
    by (simp add: mod_mult2_eq)
  then show ?case using Suc by (simp add: byte_of_def)
qed simp

lemma le_value_less: "le_value s < 256 ^ length s"
proof (induction s)
  case (Cons c s)
  have "byte_of c < 256" by (simp add: byte_of_def)
  then show ?case using Cons by simp
qed simp

lemma le_bytes_value: "length s = k \<Longrightarrow> le_bytes k (le_value s) = s"
proof (induction k arbitrary: s)
  case (Suc k)
  then obtain c cs where s: "s = c # cs" "length cs = k" by (cases s) auto
  have "byte_of c < 256" by (simp add: byte_of_def)
  then show ?case using Suc s by (simp add: byte_of_def)
qed simp

lemma le_u64 [simp]: "n \<le> u64_max \<Longrightarrow> le_value (le_bytes 8 n) = n"
  by (simp add: u64_max_def)

section \<open>Bindings of identities\<close>

definition EVENT_JOB :: string where "EVENT_JOB = ''DeviceLane/event-job/v1''"
definition EVENT_PEER :: string where "EVENT_PEER = ''DeviceLane/event-peer/v1''"
definition EVENT_SEGMENT :: string where "EVENT_SEGMENT = ''DeviceLane/event-segment/v1'' @ [char_of (0::nat)]"

definition identity_bytes :: "string \<Rightarrow> string \<Rightarrow> string" where
  "identity_bytes domain identity =
     domain @ [char_of (0::nat)] @ le_bytes 8 (length identity) @ identity"

definition identity_binding :: "(string \<Rightarrow> string) \<Rightarrow> string \<Rightarrow> string \<Rightarrow> string" where
  "identity_binding sha domain identity = sha (identity_bytes domain identity)"

definition job_binding :: "(string \<Rightarrow> string) \<Rightarrow> string \<Rightarrow> string" where
  "job_binding sha identity = identity_binding sha EVENT_JOB identity"

definition peer_binding :: "(string \<Rightarrow> string) \<Rightarrow> string \<Rightarrow> string" where
  "peer_binding sha identity = identity_binding sha EVENT_PEER identity"

definition segment_digest :: "(string \<Rightarrow> string) \<Rightarrow> string \<Rightarrow> string" where
  "segment_digest sha bytes = sha (EVENT_SEGMENT @ bytes)"

lemma domains_differ: "EVENT_JOB @ x \<noteq> EVENT_PEER @ y" "EVENT_JOB @ x \<noteq> EVENT_SEGMENT @ y"
  "EVENT_PEER @ x \<noteq> EVENT_SEGMENT @ y"
  by (simp_all add: EVENT_JOB_def EVENT_PEER_def EVENT_SEGMENT_def)

text \<open>
  Domain separation: if SHA-256 has no collision among the texts that are hashed, the binding of a
  job, the binding of a peer and the digest of a segment never coincide, and two jobs, or two peers, with
  one binding are the same.
\<close>
theorem bindings_never_collide:
  assumes "inj_on sha texts"
    and "{identity_bytes EVENT_JOB a, identity_bytes EVENT_JOB b, identity_bytes EVENT_PEER a,
      identity_bytes EVENT_PEER b, EVENT_SEGMENT @ bytes} \<subseteq> texts"
  shows "job_binding sha a \<noteq> peer_binding sha b"
    and "job_binding sha a \<noteq> segment_digest sha bytes" and "peer_binding sha a \<noteq> segment_digest sha bytes"
    and "job_binding sha a = job_binding sha b \<longleftrightarrow> a = b"
    and "peer_binding sha a = peer_binding sha b \<longleftrightarrow> a = b"
proof -
  have same: "identity_bytes d a = identity_bytes d b \<longleftrightarrow> a = b" for d
  proof
    assume "identity_bytes d a = identity_bytes d b"
    then have "drop 8 (le_bytes 8 (length a) @ a) = drop 8 (le_bytes 8 (length b) @ b)"
      by (simp add: identity_bytes_def)
    then show "a = b" by simp
  qed simp
  have "identity_bytes EVENT_JOB a \<noteq> identity_bytes EVENT_PEER b"
    "identity_bytes EVENT_JOB a \<noteq> EVENT_SEGMENT @ bytes" "identity_bytes EVENT_PEER a \<noteq> EVENT_SEGMENT @ bytes"
    by (simp_all add: identity_bytes_def domains_differ)
  with inj_on_eq_iff [OF assms(1)] assms(2) same
  show "job_binding sha a \<noteq> peer_binding sha b"
    and "job_binding sha a \<noteq> segment_digest sha bytes" and "peer_binding sha a \<noteq> segment_digest sha bytes"
    and "job_binding sha a = job_binding sha b \<longleftrightarrow> a = b"
    and "peer_binding sha a = peer_binding sha b \<longleftrightarrow> a = b"
    by (auto simp: job_binding_def peer_binding_def identity_binding_def segment_digest_def)
qed

section \<open>The header of a segment\<close>

definition HEADER_BYTES :: nat where "HEADER_BYTES = 158"
definition MAX_BODY_BYTES :: nat where "MAX_BODY_BYTES = 524288"
definition SEGMENT_MAGIC :: string where "SEGMENT_MAGIC = ''DLSEG001''"

definition zero_bytes :: "nat \<Rightarrow> string" where
  "zero_bytes n = replicate n (char_of (0::nat))"

record segment_header =
  sh_store_id :: string
  sh_job :: string
  sh_predecessor :: string
  sh_origin :: "8 word"
  sh_actor :: string
  sh_flags :: "8 word"
  sh_event_count :: u64
  sh_first_sequence :: u64
  sh_last_sequence :: u64
  sh_part_index :: u64
  sh_body_length :: nat

definition flag_first :: "8 word \<Rightarrow> bool" where "flag_first f \<longleftrightarrow> f AND 1 \<noteq> 0"
definition flag_last :: "8 word \<Rightarrow> bool" where "flag_last f \<longleftrightarrow> f AND 2 \<noteq> 0"
definition flag_terminal :: "8 word \<Rightarrow> bool" where "flag_terminal f \<longleftrightarrow> f AND 4 \<noteq> 0"

definition header_invalid :: "segment_header \<Rightarrow> bool" where
  "header_invalid h =
     (let first = flag_first (sh_flags h);
          last = flag_last (sh_flags h);
          terminal = flag_terminal (sh_flags h)
      in \<not> (1 \<le> sh_origin h \<and> sh_origin h \<le> 4)
         \<or> (sh_origin h \<noteq> 1 \<and> sh_actor h \<noteq> zero_bytes 32)
         \<or> sh_flags h AND NOT 7 \<noteq> 0
         \<or> (terminal \<and> \<not> last)
         \<or> first \<noteq> (sh_part_index h = 0)
         \<or> (\<not> first \<and> sh_predecessor h = zero_bytes 32)
         \<or> sh_body_length h = 0
         \<or> sh_body_length h > MAX_BODY_BYTES
         \<or> (\<not> last \<and> sh_body_length h \<noteq> MAX_BODY_BYTES)
         \<or> (sh_event_count h = 0
             \<and> (\<not> first \<or> \<not> last \<or> sh_body_length h \<noteq> 8 \<or> sh_first_sequence h \<noteq> 0
                 \<or> sh_last_sequence h \<noteq> 0))
         \<or> (sh_event_count h = 1 \<and> sh_first_sequence h \<noteq> sh_last_sequence h))"

definition header_validate :: "segment_header \<Rightarrow> io_kind + unit" where
  "header_validate h = ensure (\<not> header_invalid h) InvalidData"

definition header_bytes :: "segment_header \<Rightarrow> string" where
  "header_bytes h =
     SEGMENT_MAGIC @ sh_store_id h @ sh_job h @ sh_predecessor h
     @ [char_of (unat (sh_origin h))] @ sh_actor h @ [char_of (unat (sh_flags h))]
     @ le_bytes 8 (sh_event_count h) @ le_bytes 8 (sh_first_sequence h)
     @ le_bytes 8 (sh_last_sequence h) @ le_bytes 8 (sh_part_index h)
     @ le_bytes 4 (sh_body_length h)"

definition header_encode :: "segment_header \<Rightarrow> io_kind + string" where
  "header_encode h = and_then (header_validate h) (\<lambda>_. Ok (header_bytes h))"

definition byte_range :: "nat \<Rightarrow> nat \<Rightarrow> string \<Rightarrow> string" where
  "byte_range a b s = take (b - a) (drop a s)"

definition header_fields :: "string \<Rightarrow> segment_header" where
  "header_fields bytes =
     \<lparr>sh_store_id = byte_range 8 24 bytes, sh_job = byte_range 24 56 bytes,
      sh_predecessor = byte_range 56 88 bytes, sh_origin = of_nat (byte_of (bytes ! 88)),
      sh_actor = byte_range 89 121 bytes, sh_flags = of_nat (byte_of (bytes ! 121)),
      sh_event_count = le_value (byte_range 122 130 bytes),
      sh_first_sequence = le_value (byte_range 130 138 bytes),
      sh_last_sequence = le_value (byte_range 138 146 bytes),
      sh_part_index = le_value (byte_range 146 154 bytes),
      sh_body_length = le_value (byte_range 154 158 bytes)\<rparr>"

definition header_decode :: "string \<Rightarrow> io_kind + segment_header" where
  "header_decode bytes =
     (if length bytes \<noteq> HEADER_BYTES \<or> take 8 bytes \<noteq> SEGMENT_MAGIC then Err InvalidData
      else and_then (header_validate (header_fields bytes)) (\<lambda>_. Ok (header_fields bytes)))"

text \<open>The checked addition in \<open>decode_segment\<close> adds a 32-bit number to 158 and does not overflow.\<close>

definition decode_segment :: "string \<Rightarrow> io_kind + segment_header \<times> string" where
  "decode_segment bytes =
     (if length bytes < HEADER_BYTES \<or> HEADER_BYTES + MAX_BODY_BYTES < length bytes then Err InvalidData
      else and_then (header_decode (take HEADER_BYTES bytes)) (\<lambda>h.
        if length bytes \<noteq> HEADER_BYTES + sh_body_length h then Err InvalidData
        else Ok (h, drop HEADER_BYTES bytes)))"

text \<open>What the Rust types guarantee: the lengths of the arrays and the ranges of the integers.\<close>

definition header_typed :: "segment_header \<Rightarrow> bool" where
  "header_typed h \<longleftrightarrow>
     length (sh_store_id h) = 16 \<and> length (sh_job h) = 32 \<and> length (sh_predecessor h) = 32
     \<and> length (sh_actor h) = 32 \<and> sh_event_count h \<le> u64_max \<and> sh_first_sequence h \<le> u64_max
     \<and> sh_last_sequence h \<le> u64_max \<and> sh_part_index h \<le> u64_max \<and> sh_body_length h < 2 ^ 32"

lemma length_byte_range [simp]: "length (byte_range a b s) = min (b - a) (length s - a)"
  by (simp add: byte_range_def)

lemma byte_of_char_word: "byte_of (char_of (unat (w :: 8 word))) = unat w"
proof -
  have "unat w < 256" using unsigned_less [of w] by simp
  then show ?thesis by (simp add: byte_of_def)
qed

lemma char_of_word_byte: "char_of (unat (of_nat (byte_of c) :: 8 word)) = c"
proof -
  have "byte_of c < 256" by (simp add: byte_of_def)
  then have "unat (of_nat (byte_of c) :: 8 word) = byte_of c"
    by (simp add: unsigned_of_nat take_bit_eq_mod)
  then show ?thesis by (simp add: byte_of_def)
qed

lemma length_header_bytes: "header_typed h \<Longrightarrow> length (header_bytes h) = HEADER_BYTES"
  by (simp add: header_typed_def header_bytes_def SEGMENT_MAGIC_def HEADER_BYTES_def)

lemma range_skip: "length p \<le> a \<Longrightarrow> byte_range a b (p @ s) = byte_range (a - length p) (b - length p) s"
  by (simp add: byte_range_def)

lemma range_Cons: "0 < a \<Longrightarrow> byte_range a b (c # s) = byte_range (a - 1) (b - 1) s"
  by (cases a; cases b) (simp_all add: byte_range_def)

lemma range_take: "b = length p \<Longrightarrow> byte_range 0 b (p @ s) = p"
  by (simp add: byte_range_def)

lemma nth_skip: "length p \<le> n \<Longrightarrow> (p @ s) ! n = s ! (n - length p)"
  by (simp add: nth_append)

lemma header_fields_bytes:
  assumes "header_typed h"
  shows "header_fields (header_bytes h) = h"
proof -
  have lengths: "length SEGMENT_MAGIC = 8" "length (sh_store_id h) = 16" "length (sh_job h) = 32"
    "length (sh_predecessor h) = 32" "length (sh_actor h) = 32"
    using assms by (simp_all add: header_typed_def SEGMENT_MAGIC_def)
  have "byte_range 0 4 (le_bytes 4 n) = le_bytes 4 n" for n by (simp add: byte_range_def)
  then show ?thesis
    using assms
    by (cases h) (simp add: header_fields_def header_bytes_def u64_max_def lengths range_skip range_Cons range_take nth_skip
        byte_of_char_word header_typed_def)
qed

lemma split_at:
  assumes "length s = HEADER_BYTES"
  shows "s = take 8 s @ byte_range 8 24 s @ byte_range 24 56 s @ byte_range 56 88 s @ [s ! 88] @ byte_range 89 121 s
    @ [s ! 121] @ byte_range 122 130 s @ byte_range 130 138 s @ byte_range 138 146 s @ byte_range 146 154 s @ byte_range 154 158 s"
proof -
  have cut: "drop a s = byte_range a b s @ drop b s" if "a \<le> b" for a b
    using that by (metis append_take_drop_id drop_drop le_add_diff_inverse2 byte_range_def)
  have one: "drop n s = [s ! n] @ drop (Suc n) s" if "n < 158" for n
    using that assms by (simp add: Cons_nth_drop_Suc HEADER_BYTES_def)
  have "drop 158 s = []" using assms by (simp add: HEADER_BYTES_def)
  then show ?thesis
    using append_take_drop_id [of 8 s] cut [of 8 24] cut [of 24 56] cut [of 56 88] one [of 88]
      cut [of 89 121] one [of 121] cut [of 122 130] cut [of 130 138] cut [of 138 146] cut [of 146 154]
      cut [of 154 158]
    by simp
qed

lemma header_bytes_fields:
  assumes "length s = HEADER_BYTES" and "take 8 s = SEGMENT_MAGIC"
  shows "header_bytes (header_fields s) = s"
proof -
  have "le_bytes 8 (le_value (byte_range a (a + 8) s)) = byte_range a (a + 8) s" if "a + 8 \<le> 158" for a
    using that assms by (intro le_bytes_value) (simp add: HEADER_BYTES_def)
  note this [of 122, simplified] this [of 130, simplified] this [of 138, simplified]
    this [of 146, simplified]
  moreover have "le_bytes 4 (le_value (byte_range 154 158 s)) = byte_range 154 158 s"
    using assms by (intro le_bytes_value) (simp add: HEADER_BYTES_def)
  ultimately show ?thesis
    using split_at [OF assms(1)] assms(2)
    by (simp add: header_bytes_def header_fields_def char_of_word_byte)
qed

lemma header_fields_typed: "length s = HEADER_BYTES \<Longrightarrow> header_typed (header_fields s)"
proof -
  assume s: "length s = HEADER_BYTES"
  have "le_value (byte_range a (a + 8) s) \<le> u64_max" if "a + 8 \<le> 158" for a
    using le_value_less [of "byte_range a (a + 8) s"] that s by (simp add: u64_max_def HEADER_BYTES_def)
  note this [of 122, simplified] this [of 130, simplified] this [of 138, simplified]
    this [of 146, simplified]
  moreover have "le_value (byte_range 154 158 s) < 2 ^ 32"
    using le_value_less [of "byte_range 154 158 s"] s by (simp add: HEADER_BYTES_def)
  ultimately show ?thesis
    using s by (simp add: header_typed_def header_fields_def HEADER_BYTES_def)
qed

text \<open>
  The codec of segment headers is exact: the 158 bytes that decode to a header are the bytes that
  encode it, and every header that a program can hold and the writer accepts is decoded again as it was.
  No other file decodes to it.
\<close>
theorem segment_header_codec:
  "header_decode bytes = Ok h \<longleftrightarrow> header_typed h \<and> header_encode h = Ok bytes"
proof
  assume "header_decode bytes = Ok h"
  then have "length bytes = HEADER_BYTES" "take 8 bytes = SEGMENT_MAGIC" "h = header_fields bytes"
    "\<not> header_invalid h"
    by (auto simp: header_decode_def header_validate_def split: if_splits)
  then show "header_typed h \<and> header_encode h = Ok bytes"
    by (simp add: header_encode_def header_validate_def header_fields_typed header_bytes_fields)
next
  assume h: "header_typed h \<and> header_encode h = Ok bytes"
  then have "bytes = header_bytes h" "\<not> header_invalid h"
    by (auto simp: header_encode_def header_validate_def)
  moreover have "take 8 (header_bytes h) = SEGMENT_MAGIC"
    by (simp add: header_bytes_def SEGMENT_MAGIC_def)
  ultimately show "header_decode bytes = Ok h"
    using h by (simp add: header_decode_def header_validate_def length_header_bytes header_fields_bytes)
qed

section \<open>Witnesses\<close>

theorem bindings_never_collide_witness:
  "job_binding id ''registry'' \<noteq> peer_binding id ''agent''
   \<and> job_binding id ''registry'' \<noteq> segment_digest id ''bytes''"
  using bindings_never_collide(1,2) [of id UNIV "''registry''" "''agent''" "''bytes''"] by simp

end
