(* ===== verification/EventBatch.thy ===== *)
theory EventBatch
  imports EventStore
begin

text \<open>
  The body of an event batch (\<open>registry_event_store/events.rs\<close>): the writer over any \<open>Write\<close>, the reader
  over any \<open>Read\<close>, and the pure parser both agree with. A writer is its \<open>write_all\<close>; a reader is its
  \<open>read\<close>, from which \<open>read_exact\<close> and \<open>Take\<close> of the standard library are built.
\<close>

section \<open>UTF-8\<close>

text \<open>\<open>String::from_utf8\<close>: the byte sequences that are UTF-8.\<close>

definition byte_between :: "nat \<Rightarrow> nat \<Rightarrow> char \<Rightarrow> bool" where
  "byte_between a b c \<longleftrightarrow> a \<le> byte_of c \<and> byte_of c \<le> b"

definition continuation :: "char \<Rightarrow> bool" where
  "continuation c = byte_between 128 191 c"

fun utf8_valid :: "string \<Rightarrow> bool" where
  "utf8_valid [] = True"
| "utf8_valid (a # s) =
     (if byte_of a < 128 then utf8_valid s
      else case s of
          [] \<Rightarrow> False
        | b # s1 \<Rightarrow>
            if byte_between 194 223 a then continuation b \<and> utf8_valid s1
            else case s1 of
                [] \<Rightarrow> False
              | c # s2 \<Rightarrow>
                  if byte_between 224 239 a
                  then (if byte_of a = 224 then byte_between 160 191 b
                        else if byte_of a = 237 then byte_between 128 159 b
                        else continuation b) \<and> continuation c \<and> utf8_valid s2
                  else case s2 of
                      [] \<Rightarrow> False
                    | d # s3 \<Rightarrow>
                        byte_between 240 244 a
                        \<and> (if byte_of a = 240 then byte_between 144 191 b
                           else if byte_of a = 244 then byte_between 128 143 b
                           else continuation b)
                        \<and> continuation c \<and> continuation d \<and> utf8_valid s3)"

declare utf8_valid.simps(2) [simp del]

section \<open>Writing\<close>

definition io_then ::
    "('w \<Rightarrow> ('e + 'a) \<times> 'w) \<Rightarrow> ('a \<Rightarrow> 'w \<Rightarrow> ('e + 'b) \<times> 'w) \<Rightarrow> 'w \<Rightarrow> ('e + 'b) \<times> 'w"
where
  "io_then m f w = (case m w of (Inl e, w1) \<Rightarrow> (Err e, w1) | (Inr x, w1) \<Rightarrow> f x w1)"

type_synonym 'w writer = "string \<Rightarrow> 'w \<Rightarrow> (io_kind + unit) \<times> 'w"

definition write_u64 :: "'w writer \<Rightarrow> u64 \<Rightarrow> 'w \<Rightarrow> (io_kind + unit) \<times> 'w" where
  "write_u64 write_all v = write_all (le_bytes 8 v)"

definition write_string :: "'w writer \<Rightarrow> string \<Rightarrow> 'w \<Rightarrow> (io_kind + unit) \<times> 'w" where
  "write_string write_all s = io_then (write_u64 write_all (length s)) (\<lambda>_. write_all s)"

fun write_events :: "'w writer \<Rightarrow> network_event list \<Rightarrow> 'w \<Rightarrow> (io_kind + unit) \<times> 'w" where
  "write_events write_all [] = (\<lambda>w. (Ok (), w))"
| "write_events write_all (e # es) =
     io_then (write_u64 write_all (ne_sequence e)) (\<lambda>_.
     io_then (write_string write_all (ne_kind e)) (\<lambda>_.
     io_then (write_string write_all (ne_payload e)) (\<lambda>_.
     write_events write_all es)))"

definition write_event_batch ::
    "'w writer \<Rightarrow> network_event list \<Rightarrow> 'w \<Rightarrow> (io_kind + unit) \<times> 'w" where
  "write_event_batch write_all events =
     io_then (write_u64 write_all (length events)) (\<lambda>_. write_events write_all events)"

section \<open>Reading\<close>

type_synonym 'r reader = "nat \<Rightarrow> 'r \<Rightarrow> string \<times> 'r"

text \<open>\<open>read_exact\<close> calls \<open>read\<close> until the buffer is full; a read of nothing is the end of the input.\<close>

function io_read_exact :: "'r reader \<Rightarrow> nat \<Rightarrow> 'r \<Rightarrow> (io_kind + string) \<times> 'r" where
  "io_read_exact rd n r =
     (if n = 0 then (Ok [], r)
      else (case rd n r of (bs, r1) \<Rightarrow>
        if bs = [] then (Err UnexpectedEof, r1)
        else (case io_read_exact rd (n - length bs) r1 of
            (Inl e, r2) \<Rightarrow> (Err e, r2)
          | (Inr cs, r2) \<Rightarrow> (Ok (bs @ cs), r2))))"
  by pat_completeness auto
termination
  by (relation "measure (\<lambda>(rd, n, r). n)") auto

declare io_read_exact.simps [simp del]

text \<open>\<open>Take\<close>: the limit that is left, and the reader behind it.\<close>

definition take_read :: "'r reader \<Rightarrow> (u64 \<times> 'r) reader" where
  "take_read rd n t =
     (case t of (limit, r) \<Rightarrow>
        if limit = 0 then ([], t)
        else (case rd (min n limit) r of (bs, r1) \<Rightarrow> (bs, limit - length bs, r1)))"

definition read_u64 :: "'r reader \<Rightarrow> 'r \<Rightarrow> (io_kind + u64) \<times> 'r" where
  "read_u64 rd = io_then (io_read_exact rd 8) (\<lambda>bs r. (Ok (le_value bs), r))"

function read_chunks :: "'r reader \<Rightarrow> nat \<Rightarrow> string \<Rightarrow> 'r \<Rightarrow> (io_kind + string) \<times> 'r" where
  "read_chunks rd remaining bytes r =
     (if remaining = 0 then (Ok bytes, r)
      else (let chunk = min remaining 8192 in
        case io_read_exact rd chunk r of
          (Inl e, r1) \<Rightarrow> (Err e, r1)
        | (Inr bs, r1) \<Rightarrow> read_chunks rd (remaining - chunk) (bytes @ bs) r1))"
  by pat_completeness auto
termination
  by (relation "measure (\<lambda>(rd, remaining, bytes, r). remaining)") auto

declare read_chunks.simps [simp del]

definition read_string :: "'r reader \<Rightarrow> u64 \<times> 'r \<Rightarrow> (io_kind + string) \<times> (u64 \<times> 'r)" where
  "read_string rd =
     io_then (read_u64 (take_read rd)) (\<lambda>n t.
       if n > fst t then (Err InvalidData, t)
       else io_then (read_chunks (take_read rd) n [])
         (\<lambda>bytes t. (if utf8_valid bytes then Ok bytes else Err InvalidData, t)) t)"

fun read_event_list :: "'r reader \<Rightarrow> nat \<Rightarrow> u64 \<times> 'r \<Rightarrow> (io_kind + network_event list) \<times> (u64 \<times> 'r)" where
  "read_event_list rd 0 = (\<lambda>t. (Ok [], t))"
| "read_event_list rd (Suc n) =
     io_then (read_u64 (take_read rd)) (\<lambda>sequence.
     io_then (read_string rd) (\<lambda>kind.
     io_then (read_string rd) (\<lambda>payload.
     io_then (read_event_list rd n) (\<lambda>es t.
       (Ok (\<lparr>ne_sequence = sequence, ne_kind = kind, ne_payload = payload\<rparr> # es), t)))))"

definition read_event_batch ::
    "'r reader \<Rightarrow> u64 \<Rightarrow> 'r \<Rightarrow> (io_kind + network_event list) \<times> 'r" where
  "read_event_batch rd encoded_length r =
     apsnd snd (io_then (read_u64 (take_read rd)) (\<lambda>count t.
       if count > fst t div 24 then (Err InvalidData, t)
       else io_then (read_event_list rd count)
         (\<lambda>es t. (if fst t \<noteq> 0 then Err InvalidData else Ok es, t)) t) (encoded_length, r))"

text \<open>
  The source pushes the events it has read to a vector and the model conses them; a failing read
  drops them in both.
\<close>

section \<open>The format\<close>

definition event_text :: "network_event \<Rightarrow> string" where
  "event_text e =
     le_bytes 8 (ne_sequence e) @ le_bytes 8 (length (ne_kind e)) @ ne_kind e
     @ le_bytes 8 (length (ne_payload e)) @ ne_payload e"

definition batch_bytes :: "network_event list \<Rightarrow> string" where
  "batch_bytes events = le_bytes 8 (length events) @ concat (map event_text events)"

text \<open>What the Rust types guarantee of an event: strings are UTF-8 and numbers have 64 bits.\<close>

definition event_typed :: "network_event \<Rightarrow> bool" where
  "event_typed e \<longleftrightarrow> ne_sequence e \<le> u64_max \<and> utf8_valid (ne_kind e) \<and> utf8_valid (ne_payload e)"

definition parse_u64 :: "string \<Rightarrow> (u64 \<times> string) option" where
  "parse_u64 s = (if length s < 8 then None else Some (le_value (take 8 s), drop 8 s))"

definition parse_string :: "string \<Rightarrow> (string \<times> string) option" where
  "parse_string s =
     (case parse_u64 s of
        None \<Rightarrow> None
      | Some (n, s1) \<Rightarrow>
          if n > length s1 \<or> \<not> utf8_valid (take n s1) then None else Some (take n s1, drop n s1))"

fun parse_events :: "nat \<Rightarrow> string \<Rightarrow> (network_event list \<times> string) option" where
  "parse_events 0 s = Some ([], s)"
| "parse_events (Suc n) s =
     (case parse_u64 s of None \<Rightarrow> None | Some (sequence, s1) \<Rightarrow>
      (case parse_string s1 of None \<Rightarrow> None | Some (kind, s2) \<Rightarrow>
       (case parse_string s2 of None \<Rightarrow> None | Some (payload, s3) \<Rightarrow>
        map_option (apfst ((#) \<lparr>ne_sequence = sequence, ne_kind = kind, ne_payload = payload\<rparr>))
          (parse_events n s3))))"

definition parse_batch :: "string \<Rightarrow> network_event list option" where
  "parse_batch s =
     (case parse_u64 s of
        None \<Rightarrow> None
      | Some (count, s1) \<Rightarrow>
          if count > length s1 div 24 then None
          else (case parse_events count s1 of
              None \<Rightarrow> None
            | Some (es, s2) \<Rightarrow> if s2 \<noteq> [] then None else Some es))"

lemma parse_u64_iff: "parse_u64 s = Some (v, s1) \<longleftrightarrow> v \<le> u64_max \<and> s = le_bytes 8 v @ s1"
proof
  assume "parse_u64 s = Some (v, s1)"
  then have s: "8 \<le> length s" "v = le_value (take 8 s)" "s1 = drop 8 s"
    by (auto simp: parse_u64_def split: if_splits)
  then have "le_bytes 8 v = take 8 s" by (simp add: le_bytes_value)
  moreover have "v \<le> u64_max"
    using le_value_less [of "take 8 s"] s by (simp add: u64_max_def)
  ultimately show "v \<le> u64_max \<and> s = le_bytes 8 v @ s1" using s by simp
qed (auto simp: parse_u64_def u64_max_def)

lemma parse_string_iff:
  assumes "length s \<le> u64_max"
  shows "parse_string s = Some (v, s1) \<longleftrightarrow> utf8_valid v \<and> s = le_bytes 8 (length v) @ v @ s1"
proof
  assume p: "parse_string s = Some (v, s1)"
  then obtain n s0 where u: "parse_u64 s = Some (n, s0)" by (auto simp: parse_string_def split: option.splits)
  then have "n \<le> length s0" "utf8_valid (take n s0)" "v = take n s0" "s1 = drop n s0"
    using p by (simp_all add: parse_string_def split: if_splits)
  then show "utf8_valid v \<and> s = le_bytes 8 (length v) @ v @ s1" using u by (simp add: parse_u64_iff)
next
  assume v: "utf8_valid v \<and> s = le_bytes 8 (length v) @ v @ s1"
  then have "length v \<le> u64_max" using assms by simp
  then have "parse_u64 s = Some (length v, v @ s1)" using v by (simp add: parse_u64_iff)
  then show "parse_string s = Some (v, s1)" using v by (simp add: parse_string_def)
qed

lemma parse_events_iff:
  assumes "length s \<le> u64_max"
  shows "parse_events n s = Some (es, s1) \<longleftrightarrow>
    length es = n \<and> list_all event_typed es \<and> s = concat (map event_text es) @ s1"
  using assms
proof (induction n arbitrary: s es)
  case (Suc n)
  show ?case
  proof
    assume "parse_events (Suc n) s = Some (es, s1)"
    then obtain q s2 k s3 p s4 fs where
      parts: "parse_u64 s = Some (q, s2)" "parse_string s2 = Some (k, s3)" "parse_string s3 = Some (p, s4)"
      and fs: "parse_events n s4 = Some (fs, s1)"
      and es: "es = \<lparr>ne_sequence = q, ne_kind = k, ne_payload = p\<rparr> # fs"
      by (auto split: option.splits)
    have s2: "q \<le> u64_max" "s = le_bytes 8 q @ s2" using parts by (simp_all add: parse_u64_iff)
    then have "utf8_valid k" "s2 = le_bytes 8 (length k) @ k @ s3"
      using parts Suc.prems by (simp_all add: parse_string_iff)
    moreover from this s2 have "utf8_valid p" "s3 = le_bytes 8 (length p) @ p @ s4"
      using parts Suc.prems by (simp_all add: parse_string_iff)
    moreover from calculation s2 have "length s4 \<le> u64_max" using Suc.prems by simp
    ultimately show "length es = Suc n \<and> list_all event_typed es \<and> s = concat (map event_text es) @ s1"
      using s2 fs Suc.IH by (simp add: es event_typed_def [of "\<lparr>ne_sequence = q, ne_kind = k, ne_payload = p\<rparr>"]
          event_text_def [of "\<lparr>ne_sequence = q, ne_kind = k, ne_payload = p\<rparr>"])
  next
    assume es: "length es = Suc n \<and> list_all event_typed es \<and> s = concat (map event_text es) @ s1"
    then obtain e fs where e: "es = e # fs" by (cases es) auto
    let ?s4 = "concat (map event_text fs) @ s1"
    let ?s3 = "le_bytes 8 (length (ne_payload e)) @ ne_payload e @ ?s4"
    let ?s2 = "le_bytes 8 (length (ne_kind e)) @ ne_kind e @ ?s3"
    have s: "s = le_bytes 8 (ne_sequence e) @ ?s2" using es by (simp add: e event_text_def [of e])
    have typed: "event_typed e" using es by (simp add: e)
    have "parse_u64 s = Some (ne_sequence e, ?s2)"
      using typed by (simp add: parse_u64_iff s event_typed_def)
    moreover have "parse_string ?s2 = Some (ne_kind e, ?s3)" "parse_string ?s3 = Some (ne_payload e, ?s4)"
      using typed Suc.prems s by (simp_all add: parse_string_iff event_typed_def)
    moreover have "parse_events n ?s4 = Some (fs, s1)"
      using es Suc.prems s by (subst Suc.IH) (auto simp: e)
    ultimately show "parse_events (Suc n) s = Some (es, s1)" by (simp add: e)
  qed
qed auto

lemma event_text_length: "24 \<le> length (event_text e)"
  by (simp add: event_text_def)

lemma events_text_length: "24 * length es \<le> length (concat (map event_text es))"
proof (induction es)
  case (Cons e es)
  then show ?case using event_text_length [of e] by simp
qed simp

text \<open>A batch is the only one its bytes describe, and its bytes are the only ones that describe it.\<close>

lemma parse_batch_iff:
  assumes "length s \<le> u64_max"
  shows "parse_batch s = Some es \<longleftrightarrow> list_all event_typed es \<and> s = batch_bytes es"
proof
  assume "parse_batch s = Some es"
  then obtain n s1 where "parse_u64 s = Some (n, s1)" "parse_events n s1 = Some (es, [])"
    by (auto simp: parse_batch_def split: option.splits if_splits prod.splits)
  then show "list_all event_typed es \<and> s = batch_bytes es"
    using assms by (auto simp: parse_u64_iff parse_events_iff batch_bytes_def)
next
  assume es: "list_all event_typed es \<and> s = batch_bytes es"
  let ?s1 = "concat (map event_text es)"
  have "length es \<le> length ?s1 div 24" using events_text_length [of es] by (simp add: less_eq_div_iff_mult_less_eq mult.commute)
  moreover have "length es \<le> u64_max"
    using events_text_length [of es] assms es by (simp add: batch_bytes_def)
  then have "parse_u64 s = Some (length es, ?s1)" using es by (simp add: parse_u64_iff batch_bytes_def)
  moreover have "parse_events (length es) ?s1 = Some (es, [])"
    using assms es by (subst parse_events_iff) (simp_all add: batch_bytes_def)
  ultimately show "parse_batch s = Some es" by (simp add: parse_batch_def)
qed

section \<open>Writers\<close>

text \<open>
  A writer with room for \<open>n\<close> more bytes takes that many, whatever the pieces, and appends them.
\<close>

locale byte_writer =
  fixes write_all :: "'w writer"
    and written :: "'w \<Rightarrow> string"
    and room :: "nat \<Rightarrow> 'w \<Rightarrow> bool"
  assumes accepts: "room (length bs + n) w \<Longrightarrow>
    \<exists>w1. write_all bs w = (Ok (), w1) \<and> room n w1 \<and> written w1 = written w @ bs"
begin

definition appends :: "string \<Rightarrow> ('w \<Rightarrow> (io_kind + unit) \<times> 'w) \<Rightarrow> bool" where
  "appends bs m \<longleftrightarrow> (\<forall>n w. room (length bs + n) w \<longrightarrow>
     (\<exists>w1. m w = (Ok (), w1) \<and> room n w1 \<and> written w1 = written w @ bs))"

lemma appends_all: "appends bs (write_all bs)"
  using accepts by (simp add: appends_def)

lemma appends_then:
  assumes "appends as m" and "appends bs k"
  shows "appends (as @ bs) (io_then m (\<lambda>_. k))"
  unfolding appends_def
proof (intro allI impI)
  fix n w
  assume "room (length (as @ bs) + n) w"
  then have "room (length as + (length bs + n)) w" by (simp add: add.assoc)
  then obtain w1 where w1: "m w = (Ok (), w1)" "room (length bs + n) w1" "written w1 = written w @ as"
    using assms(1) unfolding appends_def by blast
  then obtain w2 where "k w1 = (Ok (), w2)" "room n w2" "written w2 = written w1 @ bs"
    using assms(2) unfolding appends_def by blast
  then show "\<exists>w2. io_then m (\<lambda>_. k) w = (Ok (), w2) \<and> room n w2 \<and> written w2 = written w @ as @ bs"
    using w1 by (simp add: io_then_def)
qed

lemma appends_string: "appends (le_bytes 8 (length s) @ s) (write_string write_all s)"
  unfolding write_string_def write_u64_def by (intro appends_then appends_all)

lemma appends_events: "appends (concat (map event_text es)) (write_events write_all es)"
proof (induction es)
  case Nil
  show ?case by (simp add: appends_def)
next
  case (Cons e es)
  have "appends (le_bytes 8 (ne_sequence e) @ (le_bytes 8 (length (ne_kind e)) @ ne_kind e)
      @ (le_bytes 8 (length (ne_payload e)) @ ne_payload e) @ concat (map event_text es))
      (write_events write_all (e # es))"
    unfolding write_events.simps write_u64_def
    by (intro appends_then appends_all appends_string Cons)
  then show ?case by (simp add: event_text_def [of e])
qed

lemma appends_batch: "appends (batch_bytes es) (write_event_batch write_all es)"
  unfolding write_event_batch_def batch_bytes_def write_u64_def
  by (intro appends_then appends_all appends_events)

lemma batch_written:
  assumes "room (length (batch_bytes es) + n) w"
  shows "\<exists>w1. write_event_batch write_all es w = (Ok (), w1) \<and> room n w1
    \<and> written w1 = written w @ batch_bytes es"
  using appends_batch assms unfolding appends_def by blast

end

text \<open>\<open>Vec<u8>\<close> as a writer.\<close>

definition vec_write :: "string writer" where
  "vec_write bs w = (Ok (), w @ bs)"

interpretation vec: byte_writer vec_write id "\<lambda>_ _. True"
  by unfold_locales (simp add: vec_write_def)

section \<open>Readers\<close>

text \<open>
  A read returns at most what it was asked for and what is next, and nothing only at the end of the
  input. \<open>Take\<close> of such a reader is such a reader, and leaves what is beyond the limit.
\<close>

locale byte_reader =
  fixes rd :: "'r reader"
    and rest :: "'r \<Rightarrow> string"
    and good :: "'r \<Rightarrow> bool"
  assumes progress: "good r \<Longrightarrow> 0 < n \<Longrightarrow> rd n r = (bs, r1) \<Longrightarrow>
    good r1 \<and> length bs \<le> n \<and> rest r = bs @ rest r1 \<and> (bs = [] \<longrightarrow> rest r = [])"
begin

lemma exact:
  assumes "good r" and "n \<le> length (rest r)"
  shows "\<exists>r1. io_read_exact rd n r = (Ok (take n (rest r)), r1) \<and> good r1 \<and> rest r1 = drop n (rest r)"
  using assms
proof (induction n arbitrary: r rule: less_induct)
  case (less n)
  show ?case
  proof (cases "n = 0")
    case True
    then show ?thesis using less.prems by (simp add: io_read_exact.simps)
  next
    case False
    obtain bs r1 where rd: "rd n r = (bs, r1)" by fastforce
    have law: "good r1" "length bs \<le> n" "rest r = bs @ rest r1" "bs = [] \<longrightarrow> rest r = []"
      using progress [OF less.prems(1) _ rd] False by auto
    then have bs: "bs \<noteq> []" using less.prems False by auto
    then have "n - length bs < n" "n - length bs \<le> length (rest r1)" using law less.prems False by auto
    then obtain r2 where "io_read_exact rd (n - length bs) r1 = (Ok (take (n - length bs) (rest r1)), r2)"
      "good r2" "rest r2 = drop (n - length bs) (rest r1)"
      using less.IH [OF _ law(1)] by blast
    then show ?thesis using rd bs False law by (subst io_read_exact.simps) simp
  qed
qed

lemma exact_short:
  assumes "good r" and "length (rest r) < n"
  shows "\<exists>r1. io_read_exact rd n r = (Err UnexpectedEof, r1)"
  using assms
proof (induction n arbitrary: r rule: less_induct)
  case (less n)
  obtain bs r1 where rd: "rd n r = (bs, r1)" by fastforce
  have law: "good r1" "length bs \<le> n" "rest r = bs @ rest r1" "bs = [] \<longrightarrow> rest r = []"
    using progress [OF less.prems(1) _ rd] less.prems by auto
  show ?case
  proof (cases "bs = []")
    case True
    then show ?thesis using rd less.prems by (subst io_read_exact.simps) auto
  next
    case False
    then have "\<exists>r2. io_read_exact rd (n - length bs) r1 = (Err UnexpectedEof, r2)"
      using less.IH [of "n - length bs" r1] law less.prems by auto
    then show ?thesis using rd False less.prems by (subst io_read_exact.simps) auto
  qed
qed

definition taken_rest :: "u64 \<times> 'r \<Rightarrow> string" where
  "taken_rest t = take (fst t) (rest (snd t))"

definition taken_good :: "string \<Rightarrow> u64 \<times> 'r \<Rightarrow> bool" where
  "taken_good tail t \<longleftrightarrow>
     good (snd t) \<and> fst t \<le> length (rest (snd t)) \<and> drop (fst t) (rest (snd t)) = tail"

lemma taken_limit: "taken_good tail t \<Longrightarrow> fst t = length (taken_rest t)"
  by (simp add: taken_good_def taken_rest_def)

lemma taken: "byte_reader (take_read rd) taken_rest (taken_good tail)"
proof
  fix t :: "u64 \<times> 'r" and n bs t1
  assume good: "taken_good tail t" and n: "0 < n" and run: "take_read rd n t = (bs, t1)"
  obtain l r where t: "t = (l, r)" by fastforce
  show "taken_good tail t1 \<and> length bs \<le> n \<and> taken_rest t = bs @ taken_rest t1 \<and> (bs = [] \<longrightarrow> taken_rest t = [])"
  proof (cases "l = 0")
    case True
    then show ?thesis using run good t by (auto simp: take_read_def taken_rest_def)
  next
    case False
    obtain r1 where r1: "rd (min n l) r = (bs, r1)" "t1 = (l - length bs, r1)"
      using run False t by (auto simp: take_read_def split: prod.splits)
    then have "good r1" "length bs \<le> min n l" "rest r = bs @ rest r1" "bs = [] \<longrightarrow> rest r = []"
      using progress [of r "min n l" bs r1] good n False t by (auto simp: taken_good_def)
    then show ?thesis using good t r1 by (auto simp: taken_good_def taken_rest_def)
  qed
qed

text \<open>A reading operation that follows a parser.\<close>

definition follows ::
    "(u64 \<times> 'r \<Rightarrow> (io_kind + 'a) \<times> (u64 \<times> 'r)) \<Rightarrow> (string \<Rightarrow> ('a \<times> string) option) \<Rightarrow> bool"
where
  "follows m p \<longleftrightarrow> (\<forall>tail t. taken_good tail t \<longrightarrow>
     (case p (taken_rest t) of
        None \<Rightarrow> (\<exists>e t1. m t = (Err e, t1))
      | Some (v, s1) \<Rightarrow> (\<exists>t1. m t = (Ok v, t1) \<and> taken_good tail t1 \<and> taken_rest t1 = s1)))"

lemma followsD:
  assumes "follows m p" and "taken_good tail t"
  shows "p (taken_rest t) = None \<Longrightarrow> \<exists>e t1. m t = (Err e, t1)"
    and "p (taken_rest t) = Some (v, s1) \<Longrightarrow>
      \<exists>t1. m t = (Ok v, t1) \<and> taken_good tail t1 \<and> taken_rest t1 = s1"
proof -
  have "case p (taken_rest t) of None \<Rightarrow> \<exists>e t1. m t = (Err e, t1)
    | Some (v, s1) \<Rightarrow> \<exists>t1. m t = (Ok v, t1) \<and> taken_good tail t1 \<and> taken_rest t1 = s1"
    using assms unfolding follows_def by blast
  then show "p (taken_rest t) = None \<Longrightarrow> \<exists>e t1. m t = (Err e, t1)"
    and "p (taken_rest t) = Some (v, s1) \<Longrightarrow>
      \<exists>t1. m t = (Ok v, t1) \<and> taken_good tail t1 \<and> taken_rest t1 = s1"
    by auto
qed

lemma followsI:
  assumes "\<And>tail t. taken_good tail t \<Longrightarrow> p (taken_rest t) = None \<Longrightarrow> \<exists>e t1. m t = (Err e, t1)"
    and "\<And>tail t v s1. taken_good tail t \<Longrightarrow> p (taken_rest t) = Some (v, s1) \<Longrightarrow>
      \<exists>t1. m t = (Ok v, t1) \<and> taken_good tail t1 \<and> taken_rest t1 = s1"
  shows "follows m p"
  unfolding follows_def using assms by (auto split: option.split)

lemma follows_then:
  assumes "follows m p" and "\<And>x. follows (f x) (q x)"
  shows "follows (io_then m f) (\<lambda>s. case p s of None \<Rightarrow> None | Some (x, s1) \<Rightarrow> q x s1)"
proof (rule followsI)
  fix tail t
  assume good: "taken_good tail t"
    and none: "(case p (taken_rest t) of None \<Rightarrow> None | Some (x, s1) \<Rightarrow> q x s1) = None"
  show "\<exists>e t1. io_then m f t = (Err e, t1)"
  proof (cases "p (taken_rest t)")
    case None
    then show ?thesis using followsD(1) [OF assms(1) good] by (auto simp: io_then_def)
  next
    case (Some a)
    then obtain x s1 where p: "p (taken_rest t) = Some (x, s1)" by (cases a) auto
    then obtain t1 where "m t = (Ok x, t1)" "taken_good tail t1" "taken_rest t1 = s1"
      using followsD(2) [OF assms(1) good] by blast
    then show ?thesis using followsD(1) [OF assms(2)] none p by (fastforce simp: io_then_def)
  qed
next
  fix tail t v s2
  assume good: "taken_good tail t"
    and "(case p (taken_rest t) of None \<Rightarrow> None | Some (x, s1) \<Rightarrow> q x s1) = Some (v, s2)"
  then obtain x s1 where p: "p (taken_rest t) = Some (x, s1)" and q: "q x s1 = Some (v, s2)"
    by (auto split: option.splits)
  then obtain t1 where "m t = (Ok x, t1)" "taken_good tail t1" "taken_rest t1 = s1"
    using followsD(2) [OF assms(1) good] by blast
  then show "\<exists>t1. io_then m f t = (Ok v, t1) \<and> taken_good tail t1 \<and> taken_rest t1 = s2"
    using followsD(2) [OF assms(2)] q by (fastforce simp: io_then_def)
qed

lemma follows_u64: "follows (read_u64 (take_read rd)) parse_u64"
proof (rule followsI)
  fix tail t
  assume good: "taken_good tail t" and "parse_u64 (taken_rest t) = None"
  then have "length (taken_rest t) < 8" by (simp add: parse_u64_def split: if_splits)
  then show "\<exists>e t1. read_u64 (take_read rd) t = (Err e, t1)"
    using byte_reader.exact_short [OF taken good, of 8] by (auto simp: read_u64_def io_then_def)
next
  fix tail t v s1
  assume good: "taken_good tail t" and p: "parse_u64 (taken_rest t) = Some (v, s1)"
  then have "8 \<le> length (taken_rest t)" by (auto simp: parse_u64_def split: if_splits)
  then obtain t1 where "io_read_exact (take_read rd) 8 t = (Ok (take 8 (taken_rest t)), t1)"
    "taken_good tail t1" "taken_rest t1 = drop 8 (taken_rest t)"
    using byte_reader.exact [OF taken good] by blast
  then show "\<exists>t1. read_u64 (take_read rd) t = (Ok v, t1) \<and> taken_good tail t1 \<and> taken_rest t1 = s1"
    using p by (auto simp: read_u64_def io_then_def parse_u64_def split: if_splits)
qed

lemma chunks:
  assumes "taken_good tail t" and "n \<le> length (taken_rest t)"
  shows "\<exists>t1. read_chunks (take_read rd) n bytes t = (Ok (bytes @ take n (taken_rest t)), t1)
    \<and> taken_good tail t1 \<and> taken_rest t1 = drop n (taken_rest t)"
  using assms
proof (induction n arbitrary: bytes t rule: less_induct)
  case (less n)
  show ?case
  proof (cases "n = 0")
    case True
    then show ?thesis using less.prems by (simp add: read_chunks.simps)
  next
    case False
    let ?c = "min n 8192"
    obtain t1 where t1: "io_read_exact (take_read rd) ?c t = (Ok (take ?c (taken_rest t)), t1)"
      "taken_good tail t1" "taken_rest t1 = drop ?c (taken_rest t)"
      using byte_reader.exact [OF taken less.prems(1), of ?c] less.prems by fastforce
    have "n - ?c < n" "n - ?c \<le> length (taken_rest t1)" using t1 less.prems False by auto
    then obtain t2 where "read_chunks (take_read rd) (n - ?c) (bytes @ take ?c (taken_rest t)) t1
        = (Ok ((bytes @ take ?c (taken_rest t)) @ take (n - ?c) (taken_rest t1)), t2)"
      "taken_good tail t2" "taken_rest t2 = drop (n - ?c) (taken_rest t1)"
      using less.IH [OF _ t1(2)] by blast
    moreover have "take ?c s @ take (n - ?c) (drop ?c s) = take n s" for s :: string
      by (metis le_add_diff_inverse min.cobounded1 take_add)
    ultimately show ?thesis
      using t1 False by (subst read_chunks.simps) (simp add: Let_def)
  qed
qed

lemma follows_string: "follows (read_string rd) parse_string"
proof -
  let ?body = "\<lambda>n t. if n > fst t then (Err InvalidData, t)
    else io_then (read_chunks (take_read rd) n [])
      (\<lambda>bytes t. (if utf8_valid bytes then Ok bytes else Err InvalidData, t)) t"
  have "follows (?body n)
      (\<lambda>s. if n > length s \<or> \<not> utf8_valid (take n s) then None else Some (take n s, drop n s))" for n
  proof (rule followsI)
    fix tail t
    assume good: "taken_good tail t"
      and "(if n > length (taken_rest t) \<or> \<not> utf8_valid (take n (taken_rest t)) then None
        else Some (take n (taken_rest t), drop n (taken_rest t))) = None"
    then show "\<exists>e t1. ?body n t = (Err e, t1)"
      using chunks [OF good, of n "[]"] taken_limit [OF good]
      by (cases "n > length (taken_rest t)") (auto simp: io_then_def)
  next
    fix tail t v s1
    assume good: "taken_good tail t"
      and "(if n > length (taken_rest t) \<or> \<not> utf8_valid (take n (taken_rest t)) then None
        else Some (take n (taken_rest t), drop n (taken_rest t))) = Some (v, s1)"
    then have "n \<le> length (taken_rest t)" "utf8_valid (take n (taken_rest t))"
      "v = take n (taken_rest t)" "s1 = drop n (taken_rest t)"
      by (auto split: if_splits)
    then show "\<exists>t1. ?body n t = (Ok v, t1) \<and> taken_good tail t1 \<and> taken_rest t1 = s1"
      using chunks [OF good, of n "[]"] taken_limit [OF good] by (auto simp: io_then_def)
  qed
  from follows_then [OF follows_u64 this] show ?thesis
    unfolding read_string_def parse_string_def [abs_def] .
qed

lemma follows_events: "follows (read_event_list rd n) (parse_events n)"
proof (induction n)
  case 0
  show ?case by (intro followsI) auto
next
  case (Suc n)
  have last: "follows (io_then (read_event_list rd n) (\<lambda>es t. (Ok (e # es), t)))
      (\<lambda>s. case parse_events n s of None \<Rightarrow> None | Some (es, s1) \<Rightarrow> Some (e # es, s1))" for e
    by (rule follows_then [OF Suc]) (rule followsI, auto)
  have same: "map_option (apfst ((#) e)) x = (case x of None \<Rightarrow> None | Some (es, s1) \<Rightarrow> Some (e # es, s1))"
    for e and x :: "(network_event list \<times> string) option"
    by (cases x) auto
  show ?case
    unfolding read_event_list.simps parse_events.simps [abs_def] same
    by (intro follows_then follows_u64 follows_string last)
qed

lemma batch_read:
  assumes "good r" and "n \<le> length (rest r)"
  shows "parse_batch (take n (rest r)) = None \<Longrightarrow> \<exists>e r1. read_event_batch rd n r = (Err e, r1)"
    and "parse_batch (take n (rest r)) = Some es \<Longrightarrow>
      \<exists>r1. read_event_batch rd n r = (Ok es, r1) \<and> good r1 \<and> rest r1 = drop n (rest r)"
proof -
  let ?body = "\<lambda>count t. if count > fst t div 24 then (Err InvalidData, t)
    else io_then (read_event_list rd count) (\<lambda>es t. (if fst t \<noteq> 0 then Err InvalidData else Ok es, t)) t"
  let ?q = "\<lambda>count s. if count > length s div 24 then None
    else case parse_events count s of None \<Rightarrow> None
      | Some (es, s2) \<Rightarrow> if s2 \<noteq> [] then None else Some (es, s2)"
  have ending: "follows (\<lambda>t. (if fst t \<noteq> 0 then Err InvalidData else Ok es, t))
      (\<lambda>s. if s \<noteq> [] then None else Some (es, s))" for es :: "network_event list"
    by (rule followsI) (simp_all add: taken_limit split: if_splits)
  have inner: "follows (io_then (read_event_list rd count) (\<lambda>es t. (if fst t \<noteq> 0 then Err InvalidData else Ok es, t)))
      (\<lambda>s. case parse_events count s of None \<Rightarrow> None
        | Some (es, s2) \<Rightarrow> if s2 \<noteq> [] then None else Some (es, s2))" for count
    by (rule follows_then [OF follows_events ending])
  have "follows (?body count) (?q count)" for count
  proof (rule followsI)
    fix tail t
    assume good: "taken_good tail t" and none: "?q count (taken_rest t) = None"
    show "\<exists>e t1. ?body count t = (Err e, t1)"
      using followsD(1) [OF inner [of count] good] none taken_limit [OF good]
      by (cases "count > fst t div 24") auto
  next
    fix tail t v s1
    assume good: "taken_good tail t" and some: "?q count (taken_rest t) = Some (v, s1)"
    then have "count \<le> length (taken_rest t) div 24" by (auto split: if_splits)
    then show "\<exists>t1. ?body count t = (Ok v, t1) \<and> taken_good tail t1 \<and> taken_rest t1 = s1"
      using followsD(2) [OF inner [of count] good] some taken_limit [OF good] by auto
  qed
  then have F: "follows (io_then (read_u64 (take_read rd)) ?body)
      (\<lambda>s. case parse_u64 s of None \<Rightarrow> None | Some (count, s1) \<Rightarrow> ?q count s1)"
    by (intro follows_then follows_u64)
  have good: "taken_good (drop n (rest r)) (n, r)" and rest: "taken_rest (n, r) = take n (rest r)"
    using assms by (simp_all add: taken_good_def taken_rest_def)
  { assume "parse_batch (take n (rest r)) = None"
    then have "(case parse_u64 (taken_rest (n, r)) of None \<Rightarrow> None | Some (count, s1) \<Rightarrow> ?q count s1) = None"
      by (auto simp: rest parse_batch_def split: option.splits if_splits)
    from followsD(1) [OF F good this]
    show "\<exists>e r1. read_event_batch rd n r = (Err e, r1)" by (auto simp: read_event_batch_def) }
  { assume "parse_batch (take n (rest r)) = Some es"
    then have "(case parse_u64 (taken_rest (n, r)) of None \<Rightarrow> None | Some (count, s1) \<Rightarrow> ?q count s1)
        = Some (es, [])"
      by (auto simp: rest parse_batch_def split: option.splits if_splits)
    from followsD(2) [OF F good this]
    show "\<exists>r1. read_event_batch rd n r = (Ok es, r1) \<and> good r1 \<and> rest r1 = drop n (rest r)"
      by (auto simp: read_event_batch_def taken_good_def taken_rest_def) }
qed

end

end
