(* ===== verification/EventSegments.thy ===== *)
theory EventSegments
  imports EventBatch
begin

text \<open>
  Hash-linked segments (\<open>registry_event_store/fragments.rs\<close> and \<open>reader.rs\<close>): a batch of events is
  written as a chain of files, each of which carries the digest of the one before, and is read back
  from the digest of the last. The callback that publishes a file has a state of its own; the loader is
  a function, because the reader asks for no digest twice. \<open>'e\<close> are the errors of the caller.
\<close>

section \<open>The writer\<close>

record batch_binding =
  bb_store_id :: string
  bb_job :: string
  bb_predecessor :: string
  bb_origin :: "8 word"
  bb_actor :: string

datatype 'e segment_error = SegmentIo io_kind | CallerError 'e

record ('x, 'e) fragment_writer =
  fw_header :: segment_header
  fw_terminal :: bool
  fw_buffer :: string
  fw_sink :: 'x
  fw_failure :: "'e option"

type_synonym ('x, 'e) emitter = "string \<Rightarrow> string \<Rightarrow> 'x \<Rightarrow> ('e + unit) \<times> 'x"

definition part_flags :: "u64 \<Rightarrow> bool \<Rightarrow> bool \<Rightarrow> 8 word" where
  "part_flags index final terminal =
     of_bool (index = 0) OR push_bit 1 (of_bool final) OR push_bit 2 (of_bool (final \<and> terminal))"

definition emit_part ::
    "(string \<Rightarrow> string) \<Rightarrow> ('x, 'e) emitter \<Rightarrow> bool \<Rightarrow> ('x, 'e) fragment_writer
     \<Rightarrow> (io_kind + string) \<times> ('x, 'e) fragment_writer"
where
  "emit_part sha emit final w =
     (if length (fw_buffer w) < HEADER_BYTES \<or> 2 ^ 32 \<le> length (fw_buffer w) - HEADER_BYTES
      then (Err InvalidData, w)
      else
        (let index = sh_part_index (fw_header w);
             header = (fw_header w)\<lparr>sh_body_length := length (fw_buffer w) - HEADER_BYTES,
                                    sh_flags := part_flags index final (fw_terminal w)\<rparr>
         in case header_encode header of
              Inl e \<Rightarrow> (Err e, w\<lparr>fw_header := header\<rparr>)
            | Inr encoded \<Rightarrow>
                let buffer = encoded @ drop HEADER_BYTES (fw_buffer w);
                    digest = segment_digest sha buffer;
                    w1 = w\<lparr>fw_header := header, fw_buffer := buffer\<rparr>
                in (case (if final then Some index else checked_add64 index 1) of
                      None \<Rightarrow> (Err InvalidData, w1)
                    | Some next_index \<Rightarrow>
                        (case emit digest buffer (fw_sink w) of
                           (Inl e, x) \<Rightarrow> (Err OtherIo, w1\<lparr>fw_sink := x, fw_failure := Some e\<rparr>)
                         | (Inr _, x) \<Rightarrow>
                             (Ok digest,
                              w1\<lparr>fw_sink := x,
                                 fw_header := header\<lparr>sh_predecessor := digest, sh_part_index := next_index\<rparr>,
                                 fw_buffer := take HEADER_BYTES buffer\<rparr>)))))"

definition fragment_write ::
    "(string \<Rightarrow> string) \<Rightarrow> ('x, 'e) emitter \<Rightarrow> string \<Rightarrow> ('x, 'e) fragment_writer
     \<Rightarrow> (io_kind + nat) \<times> ('x, 'e) fragment_writer"
where
  "fragment_write sha emit bytes w =
     (if bytes = [] then (Ok 0, w)
      else io_then
        (\<lambda>w. if length (fw_buffer w) = HEADER_BYTES + MAX_BODY_BYTES
             then apfst (map_sum id (\<lambda>_. ())) (emit_part sha emit False w) else (Ok (), w))
        (\<lambda>_ w. let count = min (length bytes) (HEADER_BYTES + MAX_BODY_BYTES - length (fw_buffer w))
               in (Ok count, w\<lparr>fw_buffer := fw_buffer w @ take count bytes\<rparr>)) w)"

text \<open>
  \<open>write_all\<close> of the standard library. It repeats an interrupted write; no error of
  \<open>fragment_write\<close> is of that kind.
\<close>

function io_write_all ::
    "(string \<Rightarrow> 'w \<Rightarrow> (io_kind + nat) \<times> 'w) \<Rightarrow> string \<Rightarrow> 'w \<Rightarrow> (io_kind + unit) \<times> 'w"
where
  "io_write_all wr bytes w =
     (if bytes = [] then (Ok (), w)
      else (case wr bytes w of
          (Inl e, w1) \<Rightarrow> (Err e, w1)
        | (Inr n, w1) \<Rightarrow> if n = 0 then (Err WriteZero, w1) else io_write_all wr (drop n bytes) w1))"
  by pat_completeness auto
termination
  by (relation "measure (\<lambda>(wr, bytes, w). length bytes)") auto

declare io_write_all.simps [simp del]

definition first_sequence :: "network_event list \<Rightarrow> u64" where
  "first_sequence events = (case events of [] \<Rightarrow> 0 | e # _ \<Rightarrow> ne_sequence e)"

definition last_sequence :: "network_event list \<Rightarrow> u64" where
  "last_sequence events = (if events = [] then 0 else ne_sequence (last events))"

definition batch_header :: "batch_binding \<Rightarrow> network_event list \<Rightarrow> segment_header" where
  "batch_header b events =
     \<lparr>sh_store_id = bb_store_id b, sh_job = bb_job b, sh_predecessor = bb_predecessor b,
      sh_origin = bb_origin b, sh_actor = bb_actor b, sh_flags = 0,
      sh_event_count = length events, sh_first_sequence = first_sequence events,
      sh_last_sequence = last_sequence events, sh_part_index = 0, sh_body_length = 8\<rparr>"

definition writer_error :: "io_kind \<Rightarrow> ('x, 'e) fragment_writer \<Rightarrow> 'e segment_error" where
  "writer_error e w = (case fw_failure w of Some f \<Rightarrow> CallerError f | None \<Rightarrow> SegmentIo e)"

definition write_event_segments ::
    "(string \<Rightarrow> string) \<Rightarrow> ('x, 'e) emitter \<Rightarrow> batch_binding \<Rightarrow> network_event list \<Rightarrow> bool \<Rightarrow> 'x
     \<Rightarrow> ('e segment_error + string) \<times> 'x"
where
  "write_event_segments sha emit b events terminal x =
     (if \<not> (1 \<le> bb_origin b \<and> bb_origin b \<le> 4) \<or> (bb_origin b \<noteq> 1 \<and> bb_actor b \<noteq> zero_bytes 32)
      then (Err (SegmentIo InvalidData), x)
      else
        (let w = \<lparr>fw_header = batch_header b events, fw_terminal = terminal,
                  fw_buffer = zero_bytes HEADER_BYTES, fw_sink = x, fw_failure = None\<rparr>
         in case io_then (write_event_batch (io_write_all (fragment_write sha emit)) events)
                (\<lambda>_. emit_part sha emit True) w of
              (Inl e, w1) \<Rightarrow> (Err (writer_error e w1), fw_sink w1)
            | (Inr digest, w1) \<Rightarrow> (Ok digest, fw_sink w1)))"

section \<open>The reader\<close>

record decoded_batch =
  db_binding :: batch_binding
  db_events :: "network_event list"
  db_terminal :: bool
  db_physical_bytes :: u64
  db_parts :: u64

record body_reader =
  br_parts :: "string list"
  br_index :: nat
  br_offset :: nat

text \<open>The offset never exceeds the length of the part, so the subtraction does not underflow.\<close>

function body_read :: "nat \<Rightarrow> body_reader \<Rightarrow> string \<times> body_reader" where
  "body_read n r =
     (if n = 0 then ([], r)
      else if br_index r < length (br_parts r) then
        (let part = br_parts r ! br_index r in
         if br_offset r = length part
         then body_read n (r\<lparr>br_index := br_index r + 1, br_offset := HEADER_BYTES\<rparr>)
         else let count = min n (length part - br_offset r) in
           (take count (drop (br_offset r) part), r\<lparr>br_offset := br_offset r + count\<rparr>))
      else ([], r))"
  by pat_completeness auto
termination
  by (relation "measure (\<lambda>(n, r). length (br_parts r) - br_index r)") auto

declare body_read.simps [simp del]

definition same_batch :: "segment_header \<Rightarrow> segment_header \<Rightarrow> u64 \<Rightarrow> bool" where
  "same_batch expected h index \<longleftrightarrow>
     sh_origin h = sh_origin expected \<and> sh_actor h = sh_actor expected
     \<and> sh_event_count h = sh_event_count expected \<and> sh_first_sequence h = sh_first_sequence expected
     \<and> sh_last_sequence h = sh_last_sequence expected \<and> sh_part_index h = index
     \<and> sh_flags h AND 6 = 0"

text \<open>What the loop leaves: the parts from last to first and the sums.\<close>

record segment_walk =
  wk_retained :: "string list"
  wk_body_bytes :: u64
  wk_physical_bytes :: u64
  wk_parts :: u64

definition retain :: "string \<Rightarrow> string \<Rightarrow> segment_walk \<Rightarrow> segment_walk option" where
  "retain bytes body k =
     (case checked_add64 (wk_physical_bytes k) (length bytes) of None \<Rightarrow> None | Some physical \<Rightarrow>
      (case checked_add64 (wk_body_bytes k) (length body) of None \<Rightarrow> None | Some bodies \<Rightarrow>
       (case checked_add64 (wk_parts k) 1 of None \<Rightarrow> None | Some parts \<Rightarrow>
         Some \<lparr>wk_retained = wk_retained k @ [bytes], wk_body_bytes = bodies,
               wk_physical_bytes = physical, wk_parts = parts\<rparr>)))"

definition load_part ::
    "(string \<Rightarrow> string) \<Rightarrow> (string \<Rightarrow> 'e + string) \<Rightarrow> string \<Rightarrow> string \<Rightarrow> string
     \<Rightarrow> 'e segment_error + string \<times> segment_header \<times> string"
where
  "load_part sha load store_id job d =
     (case load d of
        Inl e \<Rightarrow> Err (CallerError e)
      | Inr bytes \<Rightarrow>
          (case decode_segment bytes of
             Inl e \<Rightarrow> Err (SegmentIo e)
           | Inr (h, body) \<Rightarrow>
               if segment_digest sha bytes \<noteq> d \<or> sh_store_id h \<noteq> store_id \<or> sh_job h \<noteq> job
               then Err (SegmentIo InvalidData) else Ok (bytes, h, body)))"

text \<open>The loop after its first pass: every part but the last of the batch.\<close>

fun walk_back ::
    "(string \<Rightarrow> string) \<Rightarrow> (string \<Rightarrow> 'e + string) \<Rightarrow> string \<Rightarrow> string \<Rightarrow> segment_header \<Rightarrow> nat
     \<Rightarrow> string \<Rightarrow> string list \<Rightarrow> segment_walk \<Rightarrow> 'e segment_error + string \<times> segment_walk"
where
  "walk_back sha load store_id job expected 0 predecessor seen k = Ok (predecessor, k)"
| "walk_back sha load store_id job expected (Suc index) current seen k =
     (if current \<in> set seen then Err (SegmentIo InvalidData)
      else and_then (load_part sha load store_id job current) (\<lambda>(bytes, h, body).
        case retain bytes body k of
          None \<Rightarrow> Err (SegmentIo InvalidData)
        | Some k1 \<Rightarrow>
            if \<not> same_batch expected h index then Err (SegmentIo InvalidData)
            else walk_back sha load store_id job expected index (sh_predecessor h) (current # seen) k1))"

definition walk_tail ::
    "(string \<Rightarrow> string) \<Rightarrow> (string \<Rightarrow> 'e + string) \<Rightarrow> string \<Rightarrow> string \<Rightarrow> string
     \<Rightarrow> 'e segment_error + segment_header \<times> string \<times> segment_walk"
where
  "walk_tail sha load store_id job tail =
     and_then (load_part sha load store_id job tail) (\<lambda>(bytes, h, body).
       case retain bytes body
              \<lparr>wk_retained = [], wk_body_bytes = 0, wk_physical_bytes = 0, wk_parts = 0\<rparr> of
         None \<Rightarrow> Err (SegmentIo InvalidData)
       | Some k \<Rightarrow>
           if \<not> flag_last (sh_flags h) then Err (SegmentIo InvalidData)
           else and_then (walk_back sha load store_id job h (sh_part_index h) (sh_predecessor h) [tail] k)
             (\<lambda>r. Ok (h, r)))"

definition read_event_segment_batch ::
    "(string \<Rightarrow> string) \<Rightarrow> (string \<Rightarrow> 'e + string) \<Rightarrow> string \<Rightarrow> string \<Rightarrow> string
     \<Rightarrow> 'e segment_error + decoded_batch"
where
  "read_event_segment_batch sha load store_id job tail =
     and_then (walk_tail sha load store_id job tail) (\<lambda>(expected, preceding, k).
       case fst (read_event_batch body_read (wk_body_bytes k)
              \<lparr>br_parts = rev (wk_retained k), br_index = 0, br_offset = HEADER_BYTES\<rparr>) of
         Inl e \<Rightarrow> Err (SegmentIo e)
       | Inr events \<Rightarrow>
           if length events \<noteq> sh_event_count expected
             \<or> first_sequence events \<noteq> sh_first_sequence expected
             \<or> last_sequence events \<noteq> sh_last_sequence expected
           then Err (SegmentIo InvalidData)
           else Ok \<lparr>db_binding = \<lparr>bb_store_id = store_id, bb_job = job, bb_predecessor = preceding,
                                   bb_origin = sh_origin expected, bb_actor = sh_actor expected\<rparr>,
                    db_events = events, db_terminal = flag_terminal (sh_flags expected),
                    db_physical_bytes = wk_physical_bytes k, db_parts = wk_parts k\<rparr>)"

section \<open>The chain of a batch\<close>

definition segment_file :: "segment_header \<Rightarrow> bool \<Rightarrow> nat \<Rightarrow> string \<Rightarrow> bool \<Rightarrow> string \<Rightarrow> string" where
  "segment_file h terminal index predecessor final body =
     header_bytes (h\<lparr>sh_predecessor := predecessor, sh_flags := part_flags index final terminal,
                     sh_part_index := index, sh_body_length := length body\<rparr>) @ body"

fun link ::
    "(string \<Rightarrow> string) \<Rightarrow> segment_header \<Rightarrow> bool \<Rightarrow> nat \<Rightarrow> string \<Rightarrow> string list \<Rightarrow> string list"
where
  "link sha h t k predecessor [] = []"
| "link sha h t k predecessor (c # cs) =
     (let f = segment_file h t k predecessor False c
      in f # link sha h t (Suc k) (segment_digest sha f) cs)"

definition chain_tail :: "(string \<Rightarrow> string) \<Rightarrow> string \<Rightarrow> string list \<Rightarrow> string" where
  "chain_tail sha predecessor fs = (if fs = [] then predecessor else segment_digest sha (last fs))"

text \<open>The full parts of a body, and the last one.\<close>

function cut :: "string \<Rightarrow> string list \<times> string" where
  "cut s = (if length s \<le> MAX_BODY_BYTES then ([], s)
            else apfst ((#) (take MAX_BODY_BYTES s)) (cut (drop MAX_BODY_BYTES s)))"
  by pat_completeness auto
termination
  by (relation "measure length") (auto simp: MAX_BODY_BYTES_def)

declare cut.simps [simp del]

definition chain_of ::
    "(string \<Rightarrow> string) \<Rightarrow> segment_header \<Rightarrow> bool \<Rightarrow> string list \<Rightarrow> string \<Rightarrow> string list"
where
  "chain_of sha h t cs c =
     (let fs = link sha h t 0 (sh_predecessor h) cs
      in fs @ [segment_file h t (length cs) (chain_tail sha (sh_predecessor h) fs) True c])"

definition segments :: "(string \<Rightarrow> string) \<Rightarrow> batch_binding \<Rightarrow> network_event list \<Rightarrow> bool \<Rightarrow> string list" where
  "segments sha b events terminal =
     (case cut (batch_bytes events) of (cs, c) \<Rightarrow> chain_of sha (batch_header b events) terminal cs c)"

text \<open>SHA-256 digests have 32 bytes, and none of them is the mark of a missing predecessor.\<close>

definition digest_ok :: "(string \<Rightarrow> string) \<Rightarrow> bool" where
  "digest_ok sha \<longleftrightarrow> (\<forall>p. length (sha p) = 32 \<and> sha p \<noteq> zero_bytes 32)"

definition binding_ok :: "batch_binding \<Rightarrow> bool" where
  "binding_ok b \<longleftrightarrow>
     length (bb_store_id b) = 16 \<and> length (bb_job b) = 32 \<and> length (bb_predecessor b) = 32
     \<and> length (bb_actor b) = 32 \<and> 1 \<le> bb_origin b \<and> bb_origin b \<le> 4
     \<and> (bb_origin b = 1 \<or> bb_actor b = zero_bytes 32)"

lemma digest_okD: "digest_ok sha \<Longrightarrow> length (segment_digest sha f) = 32 \<and> segment_digest sha f \<noteq> zero_bytes 32"
  by (simp add: digest_ok_def segment_digest_def)

lemma length_zero_bytes [simp]: "length (zero_bytes n) = n"
  by (simp add: zero_bytes_def)

lemma length_link [simp]: "length (link sha h t k p cs) = length cs"
  by (induction cs arbitrary: k p) (auto simp: Let_def)

lemma link_append:
  "link sha h t k p (cs @ [c]) = link sha h t k p cs
    @ [segment_file h t (k + length cs) (chain_tail sha p (link sha h t k p cs)) False c]"
  by (induction cs arbitrary: k p) (auto simp: Let_def chain_tail_def neq_Nil_conv)

lemma part_flags_bits [simp]:
  "flag_first (part_flags k final t) \<longleftrightarrow> k = 0"
  "flag_last (part_flags k final t) \<longleftrightarrow> final"
  "flag_terminal (part_flags k final t) \<longleftrightarrow> final \<and> t"
  "part_flags k final t AND - 8 = 0"
  "part_flags k final t AND 6 = 0 \<longleftrightarrow> \<not> final"
  by (cases "k = 0"; cases final; cases t;
      simp add: flag_first_def flag_last_def flag_terminal_def part_flags_def)+

lemma flags_from_bits:
  fixes f :: "8 word"
  assumes "f AND NOT 7 = 0" and "flag_first f \<longleftrightarrow> k = 0" and "flag_last f \<longleftrightarrow> final"
    and "flag_terminal f \<longrightarrow> final"
  shows "f = part_flags k final (flag_terminal f)"
proof -
  have one: "f AND 1 \<noteq> 0 \<longleftrightarrow> bit f 0" "f AND 2 \<noteq> 0 \<longleftrightarrow> bit f 1" "f AND 4 \<noteq> 0 \<longleftrightarrow> bit f 2"
    using and_exp_eq_0_iff_not_bit [of f 0] and_exp_eq_0_iff_not_bit [of f 1]
      and_exp_eq_0_iff_not_bit [of f 2]
    by simp_all
  show ?thesis
  proof (rule bit_eqI)
    fix n
    assume n: "possible_bit TYPE(8 word) n"
    have "NOT (7 :: 8 word) = NOT (mask 3)" by (simp add: mask_eq_exp_minus_1)
    moreover have "bit (f AND NOT 7) n = False" using assms(1) by simp
    ultimately have "\<not> bit (f AND NOT (mask 3)) n" by simp
    then have high: "bit f n \<Longrightarrow> n < 3"
      using n by (simp only: bit_and_iff bit_not_iff bit_mask_iff) auto
    have "bit (2 :: 8 word) n \<longleftrightarrow> n = 1" "bit (4 :: 8 word) n \<longleftrightarrow> n = 2"
      using bit_exp_iff [of 1 n, where ?'a = "8 word"] bit_exp_iff [of 2 n, where ?'a = "8 word"]
      by auto
    note one = one this
    consider "n = 0" | "n = 1" | "n = 2" | "3 \<le> n" by linarith
    then show "bit f n = bit (part_flags k final (flag_terminal f)) n"
      using high assms one
      by cases (auto simp: part_flags_def flag_first_def flag_last_def flag_terminal_def bit_or_iff
          bit_push_bit_iff bit_of_bool_iff)
  qed
qed

section \<open>The writer follows the format\<close>

text \<open>A sink that keeps what it is given.\<close>

definition collect :: "((string \<times> string) list, 'e) emitter" where
  "collect d f xs = (Ok (), xs @ [(d, f)])"

definition emitted :: "(string \<Rightarrow> string) \<Rightarrow> string list \<Rightarrow> (string \<times> string) list" where
  "emitted sha fs = map (\<lambda>f. (segment_digest sha f, f)) fs"

definition fw_written :: "((string \<times> string) list, 'e) fragment_writer \<Rightarrow> string" where
  "fw_written w = concat (map (\<lambda>(d, f). drop HEADER_BYTES f) (fw_sink w)) @ drop HEADER_BYTES (fw_buffer w)"

text \<open>The header of a batch with any part index; every such header encodes to 158 bytes.\<close>

definition header_at :: "segment_header \<Rightarrow> string \<Rightarrow> nat \<Rightarrow> segment_header" where
  "header_at h p k = h\<lparr>sh_predecessor := p, sh_part_index := k\<rparr>"

lemma length_batch_header:
  assumes "binding_ok b" and "length p = 32"
  shows "length (header_bytes ((batch_header b events)\<lparr>sh_predecessor := p, sh_flags := f,
    sh_part_index := k, sh_body_length := n\<rparr>)) = HEADER_BYTES"
  using assms by (simp add: header_bytes_def batch_header_def binding_ok_def SEGMENT_MAGIC_def HEADER_BYTES_def)

lemma drop_segment_file [simp]:
  assumes "binding_ok b" and "length p = 32"
  shows "drop HEADER_BYTES (segment_file (batch_header b events) t k p final c) = c"
  using assms by (simp add: segment_file_def length_batch_header)

lemma chain_tail_length:
  "digest_ok sha \<Longrightarrow> length p = 32 \<Longrightarrow> length (chain_tail sha p fs) = 32"
  by (simp add: chain_tail_def digest_okD)

lemma link_bodies:
  assumes "digest_ok sha" and "binding_ok b" and "length p = 32"
  shows "map (drop HEADER_BYTES) (link sha (batch_header b events) t k p cs) = cs"
  using assms(3)
proof (induction cs arbitrary: k p)
  case (Cons c cs)
  then show ?case using assms(1,2) by (simp add: Let_def digest_okD)
qed simp

definition sequences_ok :: "segment_header \<Rightarrow> bool" where
  "sequences_ok h \<longleftrightarrow>
     (sh_event_count h = 0 \<longrightarrow> sh_first_sequence h = 0 \<and> sh_last_sequence h = 0)
     \<and> (sh_event_count h = 1 \<longrightarrow> sh_first_sequence h = sh_last_sequence h)"

lemma batch_sequences_ok: "sequences_ok (batch_header b events)"
  by (auto simp: sequences_ok_def batch_header_def first_sequence_def last_sequence_def length_Suc_conv)

text \<open>The headers the writer makes pass validation.\<close>

lemma part_header_valid:
  assumes "binding_ok b" and "k = 0 \<or> p \<noteq> zero_bytes 32"
    and "0 < n" and "n \<le> MAX_BODY_BYTES" and "final \<or> n = MAX_BODY_BYTES"
    and "events = [] \<longrightarrow> k = 0 \<and> final \<and> n = 8"
  shows "\<not> header_invalid ((batch_header b events)\<lparr>sh_predecessor := p, sh_flags := part_flags k final t,
    sh_part_index := k, sh_body_length := n\<rparr>)"
proof -
  have "sh_event_count (batch_header b events) = 0 \<longleftrightarrow> events = []" by (simp add: batch_header_def)
  then show ?thesis
    using assms batch_sequences_ok [of b events]
    unfolding header_invalid_def Let_def sequences_ok_def
    by (simp add: batch_header_def binding_ok_def)
qed

text \<open>
  The invariant of the writer: the full parts \<open>cs\<close> are published as a chain, the rest of the body is in
  the buffer, and there is room for \<open>n\<close> more bytes.
\<close>

definition frag_state ::
    "(string \<Rightarrow> string) \<Rightarrow> batch_binding \<Rightarrow> network_event list \<Rightarrow> bool \<Rightarrow> string list
     \<Rightarrow> ((string \<times> string) list, 'e) fragment_writer \<Rightarrow> bool"
where
  "frag_state sha b events t cs w \<longleftrightarrow>
     (let h = batch_header b events; fs = link sha h t 0 (bb_predecessor b) cs in
        fw_sink w = emitted sha fs
        \<and> (\<forall>c \<in> set cs. length c = MAX_BODY_BYTES)
        \<and> (fw_header w)\<lparr>sh_flags := 0, sh_body_length := 8\<rparr>
            = header_at h (chain_tail sha (bb_predecessor b) fs) (length cs)
        \<and> fw_terminal w = t
        \<and> HEADER_BYTES \<le> length (fw_buffer w) \<and> length (fw_buffer w) \<le> HEADER_BYTES + MAX_BODY_BYTES)"

definition frag_room ::
    "(string \<Rightarrow> string) \<Rightarrow> batch_binding \<Rightarrow> network_event list \<Rightarrow> bool \<Rightarrow> nat
     \<Rightarrow> ((string \<times> string) list, 'e) fragment_writer \<Rightarrow> bool"
where
  "frag_room sha b events t n w \<longleftrightarrow>
     digest_ok sha \<and> binding_ok b
     \<and> (\<exists>cs. frag_state sha b events t cs w \<and> (cs \<noteq> [] \<longrightarrow> HEADER_BYTES < length (fw_buffer w)))
     \<and> length (fw_written w) + n \<le> u64_max
     \<and> (events = [] \<longrightarrow> length (fw_written w) + n \<le> 8)"

lemma frag_written:
  assumes "digest_ok sha" and "binding_ok b" and "frag_state sha b events t cs w"
  shows "fw_written w = concat cs @ drop HEADER_BYTES (fw_buffer w)"
proof -
  have "map (\<lambda>(d, f). drop HEADER_BYTES f) (emitted sha (link sha (batch_header b events) t 0 (bb_predecessor b) cs))
      = cs"
    using link_bodies [of sha b "bb_predecessor b"] assms
    by (simp add: emitted_def comp_def binding_ok_def)
  then show ?thesis using assms(3) by (simp add: fw_written_def frag_state_def Let_def)
qed

lemma full_parts_length:
  "\<forall>c \<in> set cs. length c = n \<Longrightarrow> length (concat cs) = n * length cs"
  by (induction cs) auto

text \<open>Publishing the part in the buffer.\<close>

lemma emit_part_step:
  assumes "digest_ok sha" and "binding_ok b" and state: "frag_state sha b events t cs w"
    and bytes: "HEADER_BYTES < length (fw_buffer w)"
    and len: "length (fw_written w) \<le> u64_max"
    and ends: "final \<or> length (fw_buffer w) = HEADER_BYTES + MAX_BODY_BYTES"
    and none: "events = [] \<longrightarrow> cs = [] \<and> final \<and> length (fw_buffer w) = HEADER_BYTES + 8"
  defines "f \<equiv> segment_file (batch_header b events) t (length cs)
      (chain_tail sha (bb_predecessor b) (link sha (batch_header b events) t 0 (bb_predecessor b) cs))
      final (drop HEADER_BYTES (fw_buffer w))"
  shows "\<exists>w1. emit_part sha collect final w = (Ok (segment_digest sha f), w1)
    \<and> fw_sink w1 = fw_sink w @ [(segment_digest sha f, f)]
    \<and> (\<not> final \<longrightarrow> frag_state sha b events t (cs @ [drop HEADER_BYTES (fw_buffer w)]) w1
        \<and> length (fw_buffer w1) = HEADER_BYTES)"
proof -
  let ?h = "batch_header b events" and ?c = "drop HEADER_BYTES (fw_buffer w)"
  let ?fs = "link sha ?h t 0 (bb_predecessor b) cs"
  let ?p = "chain_tail sha (bb_predecessor b) ?fs" and ?k = "length cs"
  have p32: "length ?p = 32" using assms(1,2) by (simp add: chain_tail_length binding_ok_def)
  have st: "fw_sink w = emitted sha ?fs" "\<forall>c \<in> set cs. length c = MAX_BODY_BYTES" "fw_terminal w = t"
    "(fw_header w)\<lparr>sh_flags := 0, sh_body_length := 8\<rparr> = header_at ?h ?p ?k"
    "length (fw_buffer w) \<le> HEADER_BYTES + MAX_BODY_BYTES"
    using state by (auto simp: frag_state_def Let_def)
  have hd: "(fw_header w)\<lparr>sh_body_length := n, sh_flags := g\<rparr>
      = ?h\<lparr>sh_predecessor := ?p, sh_flags := g, sh_part_index := ?k, sh_body_length := n\<rparr>" for n g
    using st(4) by (cases "fw_header w"; cases ?h) (simp add: header_at_def)
  have ix: "sh_part_index (fw_header w) = ?k"
    using st(4) by (cases "fw_header w"; cases ?h) (simp add: header_at_def)
  let ?H = "?h\<lparr>sh_predecessor := ?p, sh_flags := part_flags ?k final t, sh_part_index := ?k,
      sh_body_length := length (fw_buffer w) - HEADER_BYTES\<rparr>"
  have "\<not> header_invalid ?H"
  proof (rule part_header_valid [OF assms(2)])
    show "?k = 0 \<or> ?p \<noteq> zero_bytes 32"
    proof (cases "cs = []")
      case False
      then have "?fs \<noteq> []" by (metis length_link length_0_conv)
      then show ?thesis using digest_okD [OF assms(1)] by (simp add: chain_tail_def)
    qed simp
  qed (use bytes st(5) ends none in auto)
  then have enc: "header_encode ?H = Ok (header_bytes ?H)"
    by (simp add: header_encode_def header_validate_def ensure_def)
  have f: "f = header_bytes ?H @ ?c" by (simp add: f_def segment_file_def)
  have "MAX_BODY_BYTES * ?k \<le> u64_max"
    using len frag_written [OF assms(1,2) state] full_parts_length [OF st(2)] by simp
  then have kmax: "?k + 1 \<le> u64_max" by (simp add: MAX_BODY_BYTES_def u64_max_def)
  have small: "\<not> (length (fw_buffer w) < HEADER_BYTES \<or> 2 ^ 32 \<le> length (fw_buffer w) - HEADER_BYTES)"
    using bytes st(5) by (simp add: MAX_BODY_BYTES_def HEADER_BYTES_def)
  let ?w1 = "w\<lparr>fw_sink := fw_sink w @ [(segment_digest sha f, f)],
      fw_header := ?H\<lparr>sh_predecessor := segment_digest sha f,
                       sh_part_index := if final then ?k else ?k + 1\<rparr>,
      fw_buffer := take HEADER_BYTES f\<rparr>"
  have "(if final then Some ?k else checked_add64 ?k 1) = Some (if final then ?k else ?k + 1)"
    using kmax by (simp add: checked_add64_def)
  then have run: "emit_part sha collect final w = (Ok (segment_digest sha f), ?w1)"
    unfolding emit_part_def ix st(3) hd Let_def if_not_P [OF small]
    by (simp only: enc sum.case f [symmetric] option.case collect_def prod.case) simp
  have "frag_state sha b events t (cs @ [?c]) ?w1 \<and> length (fw_buffer ?w1) = HEADER_BYTES" if "\<not> final"
  proof -
    have c: "length ?c = MAX_BODY_BYTES" using that ends by simp
    have h158: "length (take HEADER_BYTES f) = HEADER_BYTES"
      unfolding f using length_batch_header [OF assms(2) p32] by simp
    have "emitted sha (?fs @ [f]) = emitted sha ?fs @ [(segment_digest sha f, f)]" by (simp add: emitted_def)
    moreover have "link sha ?h t 0 (bb_predecessor b) (cs @ [?c]) = ?fs @ [f]"
      using that by (simp add: link_append f_def)
    ultimately show ?thesis
      using st c h158 that
      by (auto simp: frag_state_def Let_def chain_tail_def header_at_def batch_header_def)
  qed
  then show ?thesis using run by auto
qed

lemma frag_push:
  assumes "digest_ok sha" and "binding_ok b" and state: "frag_state sha b events t cs w"
    and "length (fw_buffer w) < HEADER_BYTES + MAX_BODY_BYTES" and "bs \<noteq> []"
    and room: "length (fw_written w) + (length bs + n) \<le> u64_max"
    and none: "events = [] \<longrightarrow> length (fw_written w) + (length bs + n) \<le> 8"
  defines "k \<equiv> min (length bs) (HEADER_BYTES + MAX_BODY_BYTES - length (fw_buffer w))"
  defines "w1 \<equiv> w\<lparr>fw_buffer := fw_buffer w @ take k bs\<rparr>"
  shows "0 < k \<and> k \<le> length bs \<and> frag_room sha b events t (length bs - k + n) w1
    \<and> fw_written w1 = fw_written w @ take k bs"
proof -
  have k: "0 < k" "k \<le> length bs" using assms(4,5) by (auto simp: k_def)
  have "frag_state sha b events t cs w1"
    using state by (auto simp: frag_state_def Let_def w1_def k_def)
  moreover from this have written: "fw_written w1 = fw_written w @ take k bs"
    using state by (simp add: w1_def fw_written_def frag_state_def Let_def)
  moreover have "HEADER_BYTES < length (fw_buffer w1)"
    using state k by (auto simp: frag_state_def Let_def w1_def)
  ultimately show ?thesis
    using assms(1,2) room none k by (auto simp: frag_room_def)
qed

lemma fragment_write_step:
  assumes room: "frag_room sha b events t (length bs + n) w" and "bs \<noteq> []"
  shows "\<exists>k w1. fragment_write sha collect bs w = (Ok k, w1) \<and> 0 < k \<and> k \<le> length bs
    \<and> frag_room sha b events t (length bs - k + n) w1 \<and> fw_written w1 = fw_written w @ take k bs"
proof -
  obtain cs where ok: "digest_ok sha" "binding_ok b" and state: "frag_state sha b events t cs w"
    and room: "length (fw_written w) + (length bs + n) \<le> u64_max"
    and none: "events = [] \<longrightarrow> length (fw_written w) + (length bs + n) \<le> 8"
    using room by (auto simp: frag_room_def)
  show ?thesis
  proof (cases "length (fw_buffer w) = HEADER_BYTES + MAX_BODY_BYTES")
    case False
    then have "length (fw_buffer w) < HEADER_BYTES + MAX_BODY_BYTES"
      using state by (auto simp: frag_state_def Let_def)
    from frag_push [OF ok state this assms(2) room none] show ?thesis
      using False assms(2) by (auto simp: fragment_write_def io_then_def Let_def)
  next
    case True
    have written: "length (fw_written w) = length (concat cs) + MAX_BODY_BYTES"
      using frag_written [OF ok state] True by simp
    then have "events \<noteq> []" using none by (auto simp: MAX_BODY_BYTES_def)
    moreover have "HEADER_BYTES < length (fw_buffer w)" using True by (simp add: MAX_BODY_BYTES_def)
    ultimately obtain d w1 where emit: "emit_part sha collect False w = (Ok d, w1)"
      and state1: "frag_state sha b events t (cs @ [drop HEADER_BYTES (fw_buffer w)]) w1"
      and buffer: "length (fw_buffer w1) = HEADER_BYTES"
      using emit_part_step [OF ok state, of False] True room by auto
    have same: "fw_written w1 = fw_written w"
      using frag_written [OF ok state1] frag_written [OF ok state] buffer by simp
    have "length (fw_buffer w1) < HEADER_BYTES + MAX_BODY_BYTES"
      using buffer by (simp add: MAX_BODY_BYTES_def)
    from frag_push [OF ok state1 this assms(2)] room none show ?thesis
      using True emit assms(2) by (auto simp: same fragment_write_def io_then_def Let_def)
  qed
qed

lemma write_all_room:
  assumes "frag_room sha b events t (length bs + n) w"
  shows "\<exists>w1. io_write_all (fragment_write sha collect) bs w = (Ok (), w1)
    \<and> frag_room sha b events t n w1 \<and> fw_written w1 = fw_written w @ bs"
  using assms
proof (induction bs arbitrary: w rule: length_induct)
  case (1 bs)
  show ?case
  proof (cases "bs = []")
    case True
    then show ?thesis using 1 by (simp add: io_write_all.simps)
  next
    case False
    obtain k w1 where step: "fragment_write sha collect bs w = (Ok k, w1)" "0 < k" "k \<le> length bs"
      "frag_room sha b events t (length bs - k + n) w1" "fw_written w1 = fw_written w @ take k bs"
      using fragment_write_step [OF 1(2) False] by blast
    then obtain w2 where "io_write_all (fragment_write sha collect) (drop k bs) w1 = (Ok (), w2)"
      "frag_room sha b events t n w2" "fw_written w2 = fw_written w1 @ drop k bs"
      using 1(1) by (metis False diff_less length_drop length_greater_0_conv)
    then show ?thesis using step False by (subst io_write_all.simps) simp
  qed
qed

interpretation fragments: byte_writer "io_write_all (fragment_write sha collect)" fw_written
  "frag_room sha b events t" for sha b events t
  by unfold_locales (rule write_all_room)

lemma cut_parts:
  assumes "\<forall>c \<in> set cs. length c = MAX_BODY_BYTES" and "length c \<le> MAX_BODY_BYTES"
    and "cs = [] \<or> c \<noteq> []"
  shows "cut (concat cs @ c) = (cs, c)"
  using assms
proof (induction cs)
  case Nil
  then show ?case by (simp add: cut.simps)
next
  case (Cons d cs)
  have "concat cs @ c \<noteq> []" using Cons.prems by simp
  then show ?case using Cons by (subst cut.simps) auto
qed

lemma writer_publishes_the_chain_lemma:
  fixes sha :: "string \<Rightarrow> string"
  assumes "digest_ok sha" and "binding_ok b" and "length (batch_bytes events) < 2 ^ 63"
  shows "write_event_segments sha (collect :: ((string \<times> string) list, 'e) emitter) b events terminal []
    = (Ok (segment_digest sha (last (segments sha b events terminal))),
       emitted sha (segments sha b events terminal))"
proof -
  let ?h = "batch_header b events"
  let ?w = "\<lparr>fw_header = ?h, fw_terminal = terminal, fw_buffer = zero_bytes HEADER_BYTES, fw_sink = [],
    fw_failure = None\<rparr> :: ((string \<times> string) list, 'e) fragment_writer"
  have body8: "events = [] \<Longrightarrow> length (batch_bytes events) = 8" by (simp add: batch_bytes_def)
  have "frag_state sha b events terminal [] ?w"
    by (simp add: frag_state_def Let_def emitted_def header_at_def chain_tail_def batch_header_def)
  then have "frag_room sha b events terminal (length (batch_bytes events) + 0) ?w"
    using assms body8 by (auto simp: frag_room_def fw_written_def u64_max_def)
  then obtain w1 where w1: "write_event_batch (io_write_all (fragment_write sha collect)) events ?w = (Ok (), w1)"
    and room: "frag_room sha b events terminal 0 w1" and body: "fw_written w1 = batch_bytes events"
    using fragments.batch_written [of sha b events terminal events 0 ?w] by (auto simp: fw_written_def)
  obtain cs where state: "frag_state sha b events terminal cs w1"
    and nonempty: "cs \<noteq> [] \<longrightarrow> HEADER_BYTES < length (fw_buffer w1)"
    using room by (auto simp: frag_room_def)
  let ?c = "drop HEADER_BYTES (fw_buffer w1)" and ?fs = "link sha ?h terminal 0 (bb_predecessor b) cs"
  have cs: "\<forall>c \<in> set cs. length c = MAX_BODY_BYTES" "length (fw_buffer w1) \<le> HEADER_BYTES + MAX_BODY_BYTES"
    "fw_sink w1 = emitted sha ?fs"
    using state by (auto simp: frag_state_def Let_def)
  have split: "batch_bytes events = concat cs @ ?c"
    using frag_written [OF assms(1,2) state] body by simp
  have "cut (concat cs @ ?c) = (cs, ?c)" using cs nonempty by (intro cut_parts) auto
  then have chain: "segments sha b events terminal = chain_of sha ?h terminal cs ?c"
    by (simp add: segments_def split)
  have small: "events = [] \<longrightarrow> cs = []"
    using split body8 full_parts_length [OF cs(1)] by (cases cs) (auto simp: MAX_BODY_BYTES_def)
  have some: "HEADER_BYTES < length (fw_buffer w1)"
  proof (cases "cs = []")
    case True
    then have "length (batch_bytes events) = length ?c" using split by simp
    then show ?thesis by (simp add: batch_bytes_def)
  qed (use nonempty in simp)
  have "length (fw_written w1) \<le> u64_max" using assms(3) body by (simp add: u64_max_def)
  moreover have "events = [] \<longrightarrow> cs = [] \<and> True \<and> length (fw_buffer w1) = HEADER_BYTES + 8"
    using small split body8 some by auto
  ultimately have "\<exists>w2. emit_part sha collect True w1 = (Ok (segment_digest sha (last (segments sha b events terminal))), w2)
      \<and> fw_sink w2 = emitted sha (segments sha b events terminal)"
    using emit_part_step [OF assms(1,2) state some, of True] cs(3)
    by (auto simp: chain chain_of_def Let_def emitted_def batch_header_def)
  then show ?thesis
    using w1 assms(2) by (auto simp: write_event_segments_def Let_def io_then_def binding_ok_def)
qed


end
