(* ===== verification/EventReader.thy ===== *)
theory EventReader
  imports EventSegments
begin

text \<open>
  What the reader of segments (\<open>registry_event_store/reader.rs\<close>) accepts: exactly the chains that the
  writer publishes. The round trip and the uniqueness of what a digest stands for follow.
\<close>

section \<open>Segments\<close>

lemma decode_segmentD:
  assumes "decode_segment f = Ok (h, body)"
  shows "f = header_bytes h @ body" "header_typed h" "\<not> header_invalid h" "length body = sh_body_length h"
    "HEADER_BYTES \<le> length f"
proof -
  from assms have d: "header_decode (take HEADER_BYTES f) = Ok h" "body = drop HEADER_BYTES f"
    "length f = HEADER_BYTES + sh_body_length h"
    by (auto simp: decode_segment_def split: if_splits)
  from d have "take 8 (take HEADER_BYTES f) = SEGMENT_MAGIC" "h = header_fields (take HEADER_BYTES f)"
    "\<not> header_invalid h" "length (take HEADER_BYTES f) = HEADER_BYTES"
    by (auto simp: header_decode_def header_validate_def split: if_splits)
  then show "f = header_bytes h @ body" "header_typed h" "\<not> header_invalid h"
    "length body = sh_body_length h" "HEADER_BYTES \<le> length f"
    using d by (simp_all add: header_bytes_fields header_fields_typed)
qed

lemma decode_segmentI:
  assumes "header_typed h" and "\<not> header_invalid h" and "length body = sh_body_length h"
  shows "decode_segment (header_bytes h @ body) = Ok (h, body)"
proof -
  have "take 8 (header_bytes h) = SEGMENT_MAGIC" by (simp add: header_bytes_def SEGMENT_MAGIC_def)
  moreover have "sh_body_length h \<le> MAX_BODY_BYTES"
    using assms(2) unfolding header_invalid_def Let_def by linarith
  ultimately show ?thesis
    using assms length_header_bytes [OF assms(1)]
    by (simp add: decode_segment_def header_decode_def header_validate_def header_fields_bytes)
qed

lemma validD:
  assumes "\<not> header_invalid h"
  shows "1 \<le> sh_origin h \<and> sh_origin h \<le> 4" "sh_origin h = 1 \<or> sh_actor h = zero_bytes 32"
    "sh_flags h AND NOT 7 = 0" "flag_terminal (sh_flags h) \<longrightarrow> flag_last (sh_flags h)"
    "flag_first (sh_flags h) \<longleftrightarrow> sh_part_index h = 0" "0 < sh_body_length h"
    "sh_body_length h \<le> MAX_BODY_BYTES" "flag_last (sh_flags h) \<or> sh_body_length h = MAX_BODY_BYTES"
  using assms unfolding header_invalid_def Let_def by auto

text \<open>A valid header is one that the writer makes, with the flags of its position.\<close>

lemma valid_flags:
  assumes "\<not> header_invalid h"
  shows "sh_flags h = part_flags (sh_part_index h) (flag_last (sh_flags h)) (flag_terminal (sh_flags h))"
  using validD [OF assms] by (intro flags_from_bits) auto

lemma six_bits:
  fixes f :: "8 word"
  assumes "f AND 6 = 0"
  shows "\<not> flag_last f" "\<not> flag_terminal f"
proof -
  have "(f AND 6) AND 2 = f AND 2" "(f AND 6) AND 4 = f AND 4"
    by (simp_all add: and.assoc)
  then show "\<not> flag_last f" "\<not> flag_terminal f"
    unfolding assms by (simp_all add: flag_last_def flag_terminal_def)
qed

section \<open>Reading the bodies\<close>

definition br_rest :: "body_reader \<Rightarrow> string" where
  "br_rest r =
     (if br_index r < length (br_parts r)
      then drop (br_offset r) (br_parts r ! br_index r)
        @ concat (map (drop HEADER_BYTES) (drop (Suc (br_index r)) (br_parts r)))
      else [])"

definition br_good :: "body_reader \<Rightarrow> bool" where
  "br_good r \<longleftrightarrow>
     (\<forall>p \<in> set (br_parts r). HEADER_BYTES \<le> length p)
     \<and> (br_index r < length (br_parts r) \<longrightarrow> br_offset r \<le> length (br_parts r ! br_index r))"

lemma body_read_progress:
  "br_good r \<Longrightarrow> 0 < n \<Longrightarrow> body_read n r = (bs, r1) \<Longrightarrow>
    br_good r1 \<and> length bs \<le> n \<and> br_rest r = bs @ br_rest r1 \<and> (bs = [] \<longrightarrow> br_rest r = [])"
proof (induction n r rule: body_read.induct)
  case (1 n r)
  let ?part = "br_parts r ! br_index r"
  consider (over) "\<not> br_index r < length (br_parts r)"
    | (skip) "br_index r < length (br_parts r)" "br_offset r = length ?part"
    | (bytes) "br_index r < length (br_parts r)" "br_offset r \<noteq> length ?part"
    by blast
  then show ?case
  proof cases
    case over
    then have "body_read n r = ([], r)" by (subst body_read.simps) simp
    then show ?thesis using over "1.prems" by (auto simp: br_rest_def)
  next
    case skip
    let ?r = "r\<lparr>br_index := br_index r + 1, br_offset := HEADER_BYTES\<rparr>"
    have run: "body_read n ?r = (bs, r1)"
      using "1.prems" skip by (subst (asm) body_read.simps) (simp add: Let_def)
    have good: "br_good ?r" using "1.prems"(1) by (auto simp: br_good_def)
    have "br_rest ?r = br_rest r"
      using skip by (auto simp: br_rest_def Cons_nth_drop_Suc [symmetric] not_less)
    moreover have "br_good r1 \<and> length bs \<le> n \<and> br_rest ?r = bs @ br_rest r1 \<and> (bs = [] \<longrightarrow> br_rest ?r = [])"
      using "1.IH" [OF _ skip(1) refl skip(2) good "1.prems"(2) run] "1.prems"(2) by blast
    ultimately show ?thesis by metis
  next
    case bytes
    let ?k = "min n (length ?part - br_offset r)"
    have run: "bs = take ?k (drop (br_offset r) ?part)" "r1 = r\<lparr>br_offset := br_offset r + ?k\<rparr>"
      using "1.prems" bytes by (subst (asm) body_read.simps; simp add: Let_def)+
    have "br_offset r < length ?part" using "1.prems"(1) bytes by (auto simp: br_good_def)
    then have k: "0 < ?k" using "1.prems"(2) by simp
    have split: "drop (br_offset r) ?part = take ?k (drop (br_offset r) ?part) @ drop (br_offset r + ?k) ?part"
      by (metis add.commute append_take_drop_id drop_drop)
    have "br_rest r = bs @ br_rest r1"
      using bytes split by (simp add: br_rest_def run)
    moreover have "br_good r1" "length bs \<le> n" "bs \<noteq> []"
      using "1.prems"(1) bytes k \<open>br_offset r < length ?part\<close> by (auto simp: br_good_def run)
    ultimately show ?thesis by simp
  qed
qed

interpretation bodies: byte_reader body_read br_rest br_good
  by unfold_locales (rule body_read_progress)

lemma bodies_parse:
  assumes "\<forall>p \<in> set parts. HEADER_BYTES \<le> length p" and "parts \<noteq> []"
    and "n = length (concat (map (drop HEADER_BYTES) parts))" and "n \<le> u64_max"
  shows "fst (read_event_batch body_read n \<lparr>br_parts = parts, br_index = 0, br_offset = HEADER_BYTES\<rparr>) = Ok es
    \<longleftrightarrow> list_all event_typed es \<and> concat (map (drop HEADER_BYTES) parts) = batch_bytes es"
proof -
  let ?r = "\<lparr>br_parts = parts, br_index = 0, br_offset = HEADER_BYTES\<rparr>"
  let ?s = "concat (map (drop HEADER_BYTES) parts)"
  have rest: "br_rest ?r = ?s" using assms(2) by (cases parts) (simp_all add: br_rest_def)
  have good: "br_good ?r" using assms by (auto simp: br_good_def)
  have whole: "take n (br_rest ?r) = ?s" using rest assms(3) by simp
  have n: "n \<le> length (br_rest ?r)" using rest assms(3) by simp
  have "fst (read_event_batch body_read n ?r) = Ok es \<longleftrightarrow> parse_batch ?s = Some es"
  proof (cases "parse_batch ?s")
    case None
    then show ?thesis using bodies.batch_read(1) [OF good n] whole by auto
  next
    case (Some fs)
    then show ?thesis using bodies.batch_read(2) [OF good n] whole by fastforce
  qed
  then show ?thesis using parse_batch_iff [of ?s es] assms(3,4) by simp
qed

section \<open>Walking back\<close>

definition walked :: "segment_walk \<Rightarrow> string list \<Rightarrow> segment_walk" where
  "walked k fs =
     \<lparr>wk_retained = wk_retained k @ fs,
      wk_body_bytes = wk_body_bytes k + length (concat (map (drop HEADER_BYTES) fs)),
      wk_physical_bytes = wk_physical_bytes k + length (concat fs),
      wk_parts = wk_parts k + length fs\<rparr>"

definition walk_small :: "segment_walk \<Rightarrow> bool" where
  "walk_small k \<longleftrightarrow> wk_body_bytes k \<le> wk_physical_bytes k \<and> wk_parts k \<le> wk_physical_bytes k"

lemma walked_append: "walked (walked k fs) gs = walked k (fs @ gs)"
  by (simp add: walked_def)

lemma walked_Nil [simp]: "walked k [] = k"
  by (simp add: walked_def)

lemma walked_small: "walk_small k \<Longrightarrow> HEADER_BYTES \<le> length f \<Longrightarrow> walk_small (walked k [f])"
  by (auto simp: walk_small_def walked_def HEADER_BYTES_def)

lemma retain_iff:
  assumes "HEADER_BYTES \<le> length f" and "walk_small k" and "body = drop HEADER_BYTES f"
  shows "retain f body k = Some k1 \<longleftrightarrow> k1 = walked k [f] \<and> wk_physical_bytes k1 \<le> u64_max"
proof -
  have "wk_body_bytes k + length body \<le> wk_physical_bytes k + length f"
    "wk_parts k + 1 \<le> wk_physical_bytes k + length f"
    using assms by (auto simp: walk_small_def HEADER_BYTES_def)
  then show ?thesis
    using assms(3) by (auto simp: retain_def checked_add64_def walked_def split: option.splits)
qed

text \<open>The fields that every part of a batch has in common.\<close>

definition same_identity :: "segment_header \<Rightarrow> segment_header \<Rightarrow> bool" where
  "same_identity B h \<longleftrightarrow>
     B\<lparr>sh_predecessor := sh_predecessor h, sh_flags := sh_flags h, sh_part_index := sh_part_index h,
       sh_body_length := sh_body_length h\<rparr> = h"

lemma same_identity_iff:
  "same_identity B h \<longleftrightarrow> sh_store_id B = sh_store_id h \<and> sh_job B = sh_job h \<and> sh_origin B = sh_origin h
     \<and> sh_actor B = sh_actor h \<and> sh_event_count B = sh_event_count h
     \<and> sh_first_sequence B = sh_first_sequence h \<and> sh_last_sequence B = sh_last_sequence h"
  by (cases B; cases h) (auto simp: same_identity_def)

lemma header_file:
  assumes "same_identity B h" and "\<not> header_invalid h" and "length body = sh_body_length h"
    and "flag_last (sh_flags h) = final" and "flag_terminal (sh_flags h) \<longleftrightarrow> final \<and> t"
  shows "header_bytes h @ body = segment_file B t (sh_part_index h) (sh_predecessor h) final body"
proof -
  have "part_flags i final (final \<and> t) = part_flags i final t" for i
    by (simp add: part_flags_def)
  then have "sh_flags h = part_flags (sh_part_index h) final t"
    using valid_flags [OF assms(2)] assms(4,5) by simp
  then have "h = B\<lparr>sh_predecessor := sh_predecessor h, sh_flags := part_flags (sh_part_index h) final t,
      sh_part_index := sh_part_index h, sh_body_length := length body\<rparr>"
    using assms(1,3) by (simp add: same_identity_def)
  then show ?thesis unfolding segment_file_def by simp
qed

text \<open>A file of the chain, decoded again.\<close>

definition chain_header :: "segment_header \<Rightarrow> bool \<Rightarrow> nat \<Rightarrow> string \<Rightarrow> bool \<Rightarrow> string \<Rightarrow> segment_header" where
  "chain_header B t k p final body =
     B\<lparr>sh_predecessor := p, sh_flags := part_flags k final t, sh_part_index := k,
       sh_body_length := length body\<rparr>"

lemma load_partD:
  assumes "load_part sha load store_id job d = Ok (f, h, body)"
  shows "load d = Ok f" "segment_digest sha f = d" "sh_store_id h = store_id" "sh_job h = job"
    "f = header_bytes h @ body" "header_typed h" "\<not> header_invalid h" "length body = sh_body_length h"
    "HEADER_BYTES \<le> length f" "body = drop HEADER_BYTES f"
proof -
  from assms have l: "load d = Ok f" and dec: "decode_segment f = Ok (h, body)"
    and rest: "segment_digest sha f = d" "sh_store_id h = store_id" "sh_job h = job"
    by (auto simp: load_part_def split: sum.splits if_splits)
  note D = decode_segmentD [OF dec]
  have "body = drop HEADER_BYTES f" by (subst D(1)) (simp add: length_header_bytes [OF D(2)])
  then show "load d = Ok f" "segment_digest sha f = d" "sh_store_id h = store_id" "sh_job h = job"
    "f = header_bytes h @ body" "header_typed h" "\<not> header_invalid h" "length body = sh_body_length h"
    "HEADER_BYTES \<le> length f" "body = drop HEADER_BYTES f"
    using l rest D by blast+
qed

definition chain_readable :: "(string \<Rightarrow> string) \<Rightarrow> (string \<Rightarrow> 'e + string) \<Rightarrow> string list \<Rightarrow> bool" where
  "chain_readable sha load fs \<longleftrightarrow>
     (\<forall>f \<in> set fs. load (segment_digest sha f) = Ok f) \<and> distinct (map (segment_digest sha) fs)"

text \<open>What the loop has accepted is a chain of full parts.\<close>

lemma walk_back_sound:
  assumes "walk_back sha load store_id job E n cur seen k = Ok (p, k1)"
    and "same_identity B E" and "sh_store_id E = store_id" and "sh_job E = job"
    and "length cur = 32" and "walk_small k" and "wk_physical_bytes k \<le> u64_max"
  shows "\<exists>cs. length cs = n \<and> (\<forall>c \<in> set cs. length c = MAX_BODY_BYTES) \<and> length p = 32
    \<and> cur = chain_tail sha p (link sha B t 0 p cs)
    \<and> chain_readable sha load (link sha B t 0 p cs)
    \<and> segment_digest sha ` set (link sha B t 0 p cs) \<inter> set seen = {}
    \<and> k1 = walked k (rev (link sha B t 0 p cs)) \<and> wk_physical_bytes k1 \<le> u64_max"
  using assms(1,5-7)
proof (induction n arbitrary: cur seen k)
  case 0
  then show ?case by (auto simp: chain_tail_def chain_readable_def)
next
  case (Suc m)
  obtain f h body k' where part: "load_part sha load store_id job cur = Ok (f, h, body)"
    and fresh: "cur \<notin> set seen" and ret: "retain f body k = Some k'" and same: "same_batch E h m"
    and rec: "walk_back sha load store_id job E m (sh_predecessor h) (cur # seen) k' = Ok (p, k1)"
    using Suc.prems(1) by (auto split: if_splits option.splits)
  note D = load_partD [OF part]
  have k': "k' = walked k [f]" "wk_physical_bytes k' \<le> u64_max"
    using ret retain_iff [OF D(9) Suc.prems(3) D(10)] by auto
  have "length (sh_predecessor h) = 32" using D(6) by (simp add: header_typed_def)
  from Suc.IH [OF rec this] obtain cs where cs: "length cs = m" "\<forall>c \<in> set cs. length c = MAX_BODY_BYTES"
    "length p = 32" "sh_predecessor h = chain_tail sha p (link sha B t 0 p cs)"
    "chain_readable sha load (link sha B t 0 p cs)"
    "segment_digest sha ` set (link sha B t 0 p cs) \<inter> set (cur # seen) = {}"
    "k1 = walked k' (rev (link sha B t 0 p cs))" "wk_physical_bytes k1 \<le> u64_max"
    using k' walked_small [OF Suc.prems(3) D(9)] by auto
  have index: "sh_part_index h = m" and bits: "sh_flags h AND 6 = 0" using same by (auto simp: same_batch_def)
  have "same_identity B h" using assms(2-4) same D(3,4) by (auto simp: same_identity_iff same_batch_def)
  then have "header_bytes h @ body = segment_file B t (sh_part_index h) (sh_predecessor h) False body"
    using D(7,8) six_bits [OF bits] by (intro header_file) auto
  then have f: "f = segment_file B t m (chain_tail sha p (link sha B t 0 p cs)) False body"
    using D(5) cs(4) index by metis
  have body: "length body = MAX_BODY_BYTES"
    using validD(8) [OF D(7)] six_bits [OF bits] D(8) by simp
  have chain: "link sha B t 0 p (cs @ [body]) = link sha B t 0 p cs @ [f]"
    using cs(1) by (simp add: link_append f)
  have "chain_tail sha p (link sha B t 0 p (cs @ [body])) = cur"
    using D(2) by (simp add: chain chain_tail_def)
  moreover have "chain_readable sha load (link sha B t 0 p (cs @ [body]))"
    using cs(5,6) D(1,2) by (auto simp: chain chain_readable_def)
  moreover have "k1 = walked k (rev (link sha B t 0 p (cs @ [body])))"
    using cs(7) k'(1) by (simp add: chain walked_append)
  moreover have "segment_digest sha ` set (link sha B t 0 p (cs @ [body])) \<inter> set seen = {}"
    using cs(6) fresh D(2) by (auto simp: chain)
  ultimately show ?case using cs body by (intro exI [of _ "cs @ [body]"]) auto
qed

text \<open>Every chain of full parts is accepted.\<close>

lemma walk_back_complete:
  assumes "\<forall>c \<in> set cs. length c = MAX_BODY_BYTES" and "digest_ok sha" and "length p = 32"
    and valid: "\<And>k q c. k < length cs \<Longrightarrow> length q = 32 \<Longrightarrow> k = 0 \<or> q \<noteq> zero_bytes 32 \<Longrightarrow>
      length c = MAX_BODY_BYTES \<Longrightarrow>
      header_typed (chain_header B t k q False c) \<and> \<not> header_invalid (chain_header B t k q False c)"
    and "same_identity B E" and "sh_store_id E = store_id" and "sh_job E = job"
    and "chain_readable sha load (link sha B t 0 p cs)"
    and "segment_digest sha ` set (link sha B t 0 p cs) \<inter> set seen = {}"
    and "walk_small k" and "wk_physical_bytes (walked k (rev (link sha B t 0 p cs))) \<le> u64_max"
  shows "walk_back sha load store_id job E (length cs) (chain_tail sha p (link sha B t 0 p cs)) seen k
    = Ok (p, walked k (rev (link sha B t 0 p cs)))"
  using assms(1,4,8-11)
proof (induction cs arbitrary: seen k rule: rev_induct)
  case Nil
  then show ?case by (simp add: chain_tail_def)
next
  case (snoc c cs)
  let ?fs = "link sha B t 0 p cs"
  let ?q = "chain_tail sha p ?fs" and ?m = "length cs"
  let ?f = "segment_file B t ?m ?q False c"
  let ?h = "chain_header B t ?m ?q False c"
  have chain: "link sha B t 0 p (cs @ [c]) = ?fs @ [?f]" by (simp add: link_append)
  have q32: "length ?q = 32" using assms(2,3) by (rule chain_tail_length)
  have "?m = 0 \<or> ?q \<noteq> zero_bytes 32"
    using digest_okD [OF assms(2)] by (cases cs rule: rev_cases) (auto simp: chain_tail_def link_append)
  then have ok: "header_typed ?h" "\<not> header_invalid ?h" using snoc.prems(1,2) q32 by auto
  have f: "?f = header_bytes ?h @ c" by (simp add: segment_file_def chain_header_def)
  have "decode_segment ?f = Ok (?h, c)"
    unfolding f by (rule decode_segmentI [OF ok]) (simp add: chain_header_def)
  moreover have "load (segment_digest sha ?f) = Ok ?f" using snoc.prems(3) by (simp add: chain_readable_def chain)
  ultimately have part: "load_part sha load store_id job (segment_digest sha ?f) = Ok (?f, ?h, c)"
    using assms(5-7) by (simp add: load_part_def chain_header_def same_identity_iff)
  have len: "HEADER_BYTES \<le> length ?f" "c = drop HEADER_BYTES ?f"
    using length_header_bytes [OF ok(1)] by (simp_all add: f)
  have big: "wk_physical_bytes (walked (walked k [?f]) (rev ?fs)) \<le> u64_max"
    using snoc.prems(6) by (simp add: chain walked_append)
  then have "wk_physical_bytes (walked k [?f]) \<le> u64_max" by (simp add: walked_def)
  then have ret: "retain ?f c k = Some (walked k [?f])" using retain_iff [OF len(1) snoc.prems(5) len(2)] by auto
  have same: "same_batch E ?h ?m"
    using assms(5) by (simp add: same_batch_def chain_header_def same_identity_iff)
  have fresh: "segment_digest sha ?f \<notin> set seen" using snoc.prems(4) by (simp add: chain)
  have "walk_back sha load store_id job E ?m ?q (segment_digest sha ?f # seen) (walked k [?f])
      = Ok (p, walked (walked k [?f]) (rev ?fs))"
  proof (rule snoc.IH)
    show "chain_readable sha load ?fs" using snoc.prems(3) by (simp add: chain_readable_def chain)
    show "segment_digest sha ` set ?fs \<inter> set (segment_digest sha ?f # seen) = {}"
      using snoc.prems(3,4) by (auto simp: chain_readable_def chain)
    show "walk_small (walked k [?f])" by (rule walked_small [OF snoc.prems(5) len(1)])
  qed (use snoc.prems big in auto)
  moreover have "sh_predecessor ?h = ?q" by (simp add: chain_header_def)
  ultimately show ?case
    using part ret same fresh by (simp add: chain chain_tail_def walked_append)
qed

section \<open>Whole batches\<close>

lemma cutD:
  "cut s = (cs, c) \<Longrightarrow> (\<forall>d \<in> set cs. length d = MAX_BODY_BYTES) \<and> length c \<le> MAX_BODY_BYTES
    \<and> concat cs @ c = s \<and> (s \<noteq> [] \<longrightarrow> c \<noteq> [])"
proof (induction s arbitrary: cs rule: cut.induct)
  case (1 s)
  show ?case
  proof (cases "length s \<le> MAX_BODY_BYTES")
    case True
    then show ?thesis using "1.prems" by (subst (asm) cut.simps) auto
  next
    case False
    then obtain ds where ds: "cut (drop MAX_BODY_BYTES s) = (ds, c)" "cs = take MAX_BODY_BYTES s # ds"
      using "1.prems" by (subst (asm) cut.simps) (cases "cut (drop MAX_BODY_BYTES s)", auto)
    then show ?thesis using "1.IH" [OF False ds(1)] False by auto
  qed
qed

lemma concat_chain:
  assumes "digest_ok sha" and "binding_ok b"
  shows "concat (map (drop HEADER_BYTES) (chain_of sha (batch_header b events) t cs c)) = concat cs @ c"
proof -
  let ?fs = "link sha (batch_header b events) t 0 (bb_predecessor b) cs"
  have p: "length (bb_predecessor b) = 32" using assms(2) by (simp add: binding_ok_def)
  have "chain_of sha (batch_header b events) t cs c = ?fs @
      [segment_file (batch_header b events) t (length cs) (chain_tail sha (bb_predecessor b) ?fs) True c]"
    by (simp add: chain_of_def Let_def batch_header_def)
  then show ?thesis
    using link_bodies [OF assms p] drop_segment_file [OF assms(2) chain_tail_length [OF assms(1) p]]
    by (simp add: map_concat)
qed

lemma segment_file_long:
  "binding_ok b \<Longrightarrow> length q = 32 \<Longrightarrow> HEADER_BYTES \<le> length (segment_file (batch_header b events) t j q final c)"
  by (simp add: segment_file_def length_batch_header)

lemma link_long:
  assumes "digest_ok sha" and "binding_ok b" and "length q = 32"
  shows "\<forall>f \<in> set (link sha (batch_header b events) t j q ds). HEADER_BYTES \<le> length f"
  using assms(3)
proof (induction ds arbitrary: j q)
  case (Cons d ds)
  then show ?case
    using Cons.IH [of "segment_digest sha (segment_file (batch_header b events) t j q False d)" "Suc j"]
      assms(1,2)
    by (simp add: Let_def digest_okD segment_file_long)
qed simp

lemma walked_chain:
  fixes f :: string and ls :: "string list"
  defines "k \<equiv> walked (walked \<lparr>wk_retained = [], wk_body_bytes = 0, wk_physical_bytes = 0, wk_parts = 0\<rparr> [f]) (rev ls)"
  shows "rev (wk_retained k) = ls @ [f]" "wk_physical_bytes k = length (concat (ls @ [f]))"
    "wk_parts k = length (ls @ [f])" "wk_body_bytes k = length (concat (map (drop HEADER_BYTES) (ls @ [f])))"
proof -
  have "length (concat (rev xs)) = length (concat xs)" for xs :: "string list"
    by (induction xs) auto
  from this [of ls] this [of "map (drop HEADER_BYTES) ls"]
  show "rev (wk_retained k) = ls @ [f]" "wk_physical_bytes k = length (concat (ls @ [f]))"
    "wk_parts k = length (ls @ [f])" "wk_body_bytes k = length (concat (map (drop HEADER_BYTES) (ls @ [f])))"
    by (simp_all add: k_def walked_def rev_map)
qed

lemma walk_tailD:
  assumes "walk_tail sha load store_id job tail = Ok (E, p, k)"
  shows "\<exists>f body k1. load_part sha load store_id job tail = Ok (f, E, body)
    \<and> retain f body \<lparr>wk_retained = [], wk_body_bytes = 0, wk_physical_bytes = 0, wk_parts = 0\<rparr> = Some k1
    \<and> flag_last (sh_flags E)
    \<and> walk_back sha load store_id job E (sh_part_index E) (sh_predecessor E) [tail] k1 = Ok (p, k)"
proof -
  obtain f E' body where part: "load_part sha load store_id job tail = Ok (f, E', body)"
    using assms by (auto simp: walk_tail_def)
  obtain k1 where ret: "retain f body \<lparr>wk_retained = [], wk_body_bytes = 0, wk_physical_bytes = 0,
      wk_parts = 0\<rparr> = Some k1"
    using assms part by (auto simp: walk_tail_def split: option.splits)
  show ?thesis
    using assms part ret by (auto simp: walk_tail_def split: if_splits)
qed

lemma read_event_segment_batchD:
  assumes "read_event_segment_batch sha load store_id job tail = Ok r"
  shows "\<exists>E p k events. walk_tail sha load store_id job tail = Ok (E, p, k)
    \<and> fst (read_event_batch body_read (wk_body_bytes k)
        \<lparr>br_parts = rev (wk_retained k), br_index = 0, br_offset = HEADER_BYTES\<rparr>) = Ok events
    \<and> length events = sh_event_count E \<and> first_sequence events = sh_first_sequence E
    \<and> last_sequence events = sh_last_sequence E
    \<and> r = \<lparr>db_binding = \<lparr>bb_store_id = store_id, bb_job = job, bb_predecessor = p,
        bb_origin = sh_origin E, bb_actor = sh_actor E\<rparr>, db_events = events,
        db_terminal = flag_terminal (sh_flags E), db_physical_bytes = wk_physical_bytes k,
        db_parts = wk_parts k\<rparr>"
proof -
  obtain E p k where tail: "walk_tail sha load store_id job tail = Ok (E, p, k)"
    using assms by (auto simp: read_event_segment_batch_def)
  obtain events where ev: "fst (read_event_batch body_read (wk_body_bytes k)
        \<lparr>br_parts = rev (wk_retained k), br_index = 0, br_offset = HEADER_BYTES\<rparr>) = Ok events"
    using assms tail by (auto simp: read_event_segment_batch_def split: sum.splits)
  show ?thesis
    using assms tail ev
    by (intro exI [of _ E] exI [of _ p] exI [of _ k] exI [of _ events])
      (auto simp: read_event_segment_batch_def split: if_splits)
qed

lemma read_sound:
  assumes sha: "digest_ok sha"
    and read: "read_event_segment_batch sha load store_id job tail = Ok r"
  defines "fs \<equiv> segments sha (db_binding r) (db_events r) (db_terminal r)"
  shows "binding_ok (db_binding r)" and "bb_store_id (db_binding r) = store_id"
    and "bb_job (db_binding r) = job" and "list_all event_typed (db_events r)"
    and "tail = segment_digest sha (last fs)" and "chain_readable sha load fs"
    and "db_physical_bytes r = length (concat fs)" and "db_parts r = length fs"
    and "length (concat fs) \<le> u64_max"
proof -
  let ?k0 = "\<lparr>wk_retained = [], wk_body_bytes = 0, wk_physical_bytes = 0, wk_parts = 0\<rparr>"
  obtain E p k events where tail: "walk_tail sha load store_id job tail = Ok (E, p, k)"
    and ev: "fst (read_event_batch body_read (wk_body_bytes k)
      \<lparr>br_parts = rev (wk_retained k), br_index = 0, br_offset = HEADER_BYTES\<rparr>) = Ok events"
    and sums: "length events = sh_event_count E" "first_sequence events = sh_first_sequence E"
      "last_sequence events = sh_last_sequence E"
    and r: "r = \<lparr>db_binding = \<lparr>bb_store_id = store_id, bb_job = job, bb_predecessor = p,
        bb_origin = sh_origin E, bb_actor = sh_actor E\<rparr>, db_events = events,
        db_terminal = flag_terminal (sh_flags E), db_physical_bytes = wk_physical_bytes k,
        db_parts = wk_parts k\<rparr>"
    using read_event_segment_batchD [OF read] by blast
  obtain f body k1 where part: "load_part sha load store_id job tail = Ok (f, E, body)"
    and ret: "retain f body ?k0 = Some k1" and final: "flag_last (sh_flags E)"
    and walk: "walk_back sha load store_id job E (sh_part_index E) (sh_predecessor E) [tail] k1 = Ok (p, k)"
    using walk_tailD [OF tail] by blast
  note D = load_partD [OF part]
  let ?b = "db_binding r" and ?t = "flag_terminal (sh_flags E)"
  let ?B = "batch_header ?b events"
  have k0: "walk_small ?k0" by (simp add: walk_small_def)
  have k1: "k1 = walked ?k0 [f]" "wk_physical_bytes k1 \<le> u64_max"
    using ret retain_iff [OF D(9) k0 D(10)] by auto
  have same: "same_identity ?B E"
    using sums D(3,4) by (simp add: same_identity_iff batch_header_def r)
  have p32: "length (sh_predecessor E) = 32" using D(6) by (simp add: header_typed_def)
  have small1: "walk_small k1" unfolding k1(1) by (rule walked_small [OF k0 D(9)])
  obtain cs where cs: "length cs = sh_part_index E"
    "\<forall>c \<in> set cs. length c = MAX_BODY_BYTES" "length p = 32"
    "sh_predecessor E = chain_tail sha p (link sha ?B ?t 0 p cs)"
    "chain_readable sha load (link sha ?B ?t 0 p cs)"
    "segment_digest sha ` set (link sha ?B ?t 0 p cs) \<inter> set [tail] = {}"
    "k = walked k1 (rev (link sha ?B ?t 0 p cs))" "wk_physical_bytes k \<le> u64_max"
    using walk_back_sound [OF walk same D(3,4) p32 small1 k1(2), of ?t] by blast
  have b: "binding_ok ?b"
    using D(3,4,6) validD(1,2) [OF D(7)] cs(3) by (auto simp: r binding_ok_def header_typed_def)
  have "header_bytes E @ body = segment_file ?B ?t (sh_part_index E) (sh_predecessor E) True body"
    using D(7,8) final same by (intro header_file) auto
  then have f: "f = segment_file ?B ?t (length cs) (chain_tail sha p (link sha ?B ?t 0 p cs)) True body"
    using D(5) cs(1,4) by metis
  have B: "sh_predecessor ?B = p" by (simp add: batch_header_def r)
  have chain: "chain_of sha ?B ?t cs body = link sha ?B ?t 0 p cs @ [f]"
    by (simp add: chain_of_def Let_def B f)
  let ?fs = "link sha ?B ?t 0 p cs @ [f]"
  have k: "rev (wk_retained k) = ?fs" "wk_physical_bytes k = length (concat ?fs)" "wk_parts k = length ?fs"
    "wk_body_bytes k = length (concat (map (drop HEADER_BYTES) ?fs))"
    unfolding cs(7) k1(1) by (rule walked_chain)+
  have small: "wk_body_bytes k \<le> u64_max"
    using k(4) cs(8) k(2) le_trans [OF sum_list_mono [of ?fs "\<lambda>f. length (drop HEADER_BYTES f)" length]]
    by (simp add: length_concat comp_def)
  have long: "\<forall>f \<in> set ?fs. HEADER_BYTES \<le> length f"
    using link_long [OF sha b cs(3)] D(9) by auto
  have events: "list_all event_typed events" "concat cs @ body = batch_bytes events"
    using ev bodies_parse [OF long _ k(4) small, of events] concat_chain [OF sha b, of events ?t cs body]
    by (simp_all add: k(1) chain)
  have "cut (concat cs @ body) = (cs, body)"
    using cs(2) validD(6,7) [OF D(7)] D(8) by (intro cut_parts) auto
  then have fs: "fs = ?fs"
    unfolding fs_def segments_def using events(2) chain by (simp add: r)
  show "binding_ok ?b" "bb_store_id ?b = store_id" "bb_job ?b = job" by (simp_all add: b) (simp_all add: r)
  show "list_all event_typed (db_events r)" using events(1) by (simp add: r)
  show "tail = segment_digest sha (last fs)" using D(2) by (simp add: fs)
  show "chain_readable sha load fs" using cs(5,6) D(1,2) by (auto simp: fs chain_readable_def)
  have "db_physical_bytes r = wk_physical_bytes k" "db_parts r = wk_parts k" by (simp_all add: r)
  from trans [OF this(1) k(2)] trans [OF this(2) k(3)] cs(8) [unfolded k(2)]
  show "db_physical_bytes r = length (concat fs)" "db_parts r = length fs" "length (concat fs) \<le> u64_max"
    unfolding fs .
qed

lemma read_complete:
  fixes t :: bool
  assumes sha: "digest_ok sha" and b: "binding_ok b" and typed: "list_all event_typed events"
  defines "fs \<equiv> segments sha b events t"
  assumes load: "chain_readable sha load fs" and len: "length (concat fs) \<le> u64_max"
  shows "read_event_segment_batch sha load (bb_store_id b) (bb_job b) (segment_digest sha (last fs))
    = Ok \<lparr>db_binding = b, db_events = events, db_terminal = t, db_physical_bytes = length (concat fs),
          db_parts = length fs\<rparr>"
proof -
  let ?B = "batch_header b events" and ?p = "bb_predecessor b"
  obtain cs c where cut: "cut (batch_bytes events) = (cs, c)" by fastforce
  have cs: "\<forall>d \<in> set cs. length d = MAX_BODY_BYTES" "length c \<le> MAX_BODY_BYTES"
    "concat cs @ c = batch_bytes events" "c \<noteq> []"
    using cutD [OF cut] by (auto simp: batch_bytes_def simp flip: length_greater_0_conv)
  let ?ls = "link sha ?B t 0 ?p cs"
  let ?q = "chain_tail sha ?p ?ls"
  let ?f = "segment_file ?B t (length cs) ?q True c" and ?E = "chain_header ?B t (length cs) ?q True c"
  have chain: "fs = ?ls @ [?f]" "fs = chain_of sha ?B t cs c"
    by (simp_all add: fs_def segments_def cut chain_of_def Let_def batch_header_def)
  have p: "length ?p = 32" using b by (simp add: binding_ok_def)
  have q: "length ?q = 32" using sha p by (rule chain_tail_length)
  have whole: "concat (map (drop HEADER_BYTES) fs) = batch_bytes events"
    using concat_chain [OF sha b] cs(3) by (simp add: chain(2))
  have "length (concat (map (drop HEADER_BYTES) fs)) \<le> length (concat fs)"
    using sum_list_mono [of fs "\<lambda>f. length (drop HEADER_BYTES f)" length] by (simp add: length_concat comp_def)
  then have body: "length (batch_bytes events) \<le> u64_max" using len whole by simp
  have count: "24 * length events \<le> u64_max" and parts: "MAX_BODY_BYTES * length cs \<le> u64_max"
    using body events_text_length [of events] full_parts_length [OF cs(1)] arg_cong [OF cs(3), of length]
    by (simp_all add: batch_bytes_def)
  have small: "length events \<le> u64_max" "length cs \<le> u64_max"
    using count parts by (simp_all add: MAX_BODY_BYTES_def)
  have sequences: "first_sequence events \<le> u64_max" "last_sequence events \<le> u64_max"
    using typed by (auto simp: first_sequence_def last_sequence_def list_all_iff event_typed_def split: list.split)
  have hdr: "header_typed (chain_header ?B t k q final d)"
    if "length q = 32" "k \<le> u64_max" "length d \<le> MAX_BODY_BYTES" for k q final d
    using that b small sequences
    by (simp add: header_typed_def chain_header_def batch_header_def binding_ok_def MAX_BODY_BYTES_def)
  have some: "events \<noteq> []" if "cs \<noteq> []"
  proof
    assume "events = []"
    then have "length (concat cs @ c) = 8" by (simp add: cs(3) batch_bytes_def)
    then show False using full_parts_length [OF cs(1)] that by (cases cs) (auto simp: MAX_BODY_BYTES_def)
  qed
  have last8: "events = [] \<longrightarrow> length cs = 0 \<and> True \<and> length c = 8"
    using some arg_cong [OF cs(3), of length] by (cases cs) (auto simp: batch_bytes_def)
  have nz: "length cs = 0 \<or> ?q \<noteq> zero_bytes 32"
    using digest_okD [OF sha] by (cases cs rule: rev_cases) (auto simp: chain_tail_def link_append)
  have E: "header_typed ?E" "\<not> header_invalid ?E"
    using hdr [OF q small(2) cs(2)] part_header_valid [OF b nz _ cs(2), of True events t] cs(4) last8
    by (simp_all add: chain_header_def)
  have f: "?f = header_bytes ?E @ c" by (simp add: segment_file_def chain_header_def)
  have "decode_segment ?f = Ok (?E, c)"
    unfolding f by (rule decode_segmentI [OF E]) (simp add: chain_header_def)
  moreover have "load (segment_digest sha ?f) = Ok ?f" using load by (simp add: chain_readable_def chain(1))
  ultimately have part: "load_part sha load (bb_store_id b) (bb_job b) (segment_digest sha ?f) = Ok (?f, ?E, c)"
    by (simp add: load_part_def chain_header_def batch_header_def)
  let ?start = "\<lparr>wk_retained = [], wk_body_bytes = 0, wk_physical_bytes = 0, wk_parts = 0\<rparr>"
  let ?done = "walked (walked ?start [?f]) (rev ?ls)"
  have k0: "walk_small ?start" by (simp add: walk_small_def)
  have flen: "HEADER_BYTES \<le> length ?f" "c = drop HEADER_BYTES ?f"
    using length_header_bytes [OF E(1)] by (simp_all add: f)
  have phys: "wk_physical_bytes ?done = length (concat fs)"
    unfolding chain(1) by (rule walked_chain)
  have "length ?f \<le> length (concat fs)" by (simp add: chain(1))
  then have ret: "retain ?f c ?start = Some (walked ?start [?f])"
    using retain_iff [OF flen(1) k0 flen(2)] len by (auto simp: walked_def)
  have walk: "walk_back sha load (bb_store_id b) (bb_job b) ?E (length cs) ?q [segment_digest sha ?f]
      (walked ?start [?f]) = Ok (?p, ?done)"
  proof (rule walk_back_complete [OF cs(1) sha p])
    fix k q and d :: string
    assume k: "k < length cs" and q: "length q = 32" "k = 0 \<or> q \<noteq> zero_bytes 32" and d: "length d = MAX_BODY_BYTES"
    have "0 < length d" using d by (simp add: MAX_BODY_BYTES_def)
    moreover have "events \<noteq> []" using some k by (cases cs) auto
    ultimately show "header_typed (chain_header ?B t k q False d) \<and> \<not> header_invalid (chain_header ?B t k q False d)"
      using hdr [OF q(1), of k d False] part_header_valid [OF b q(2), of "length d" False events t] k d small
      by (auto simp: chain_header_def)
  next
    show "same_identity ?B ?E" by (simp add: same_identity_iff chain_header_def)
    show "sh_store_id ?E = bb_store_id b" "sh_job ?E = bb_job b"
      by (simp_all add: chain_header_def batch_header_def)
    show "chain_readable sha load ?ls" "segment_digest sha ` set ?ls \<inter> set [segment_digest sha ?f] = {}"
      using load by (auto simp: chain_readable_def chain(1))
    show "walk_small (walked ?start [?f])" by (rule walked_small [OF k0 flen(1)])
    show "wk_physical_bytes ?done \<le> u64_max" using phys len by simp
  qed
  have tail: "walk_tail sha load (bb_store_id b) (bb_job b) (segment_digest sha ?f) = Ok (?E, ?p, ?done)"
    using part ret walk by (simp add: walk_tail_def chain_header_def)
  have long: "\<forall>g \<in> set fs. HEADER_BYTES \<le> length g"
    using link_long [OF sha b p] flen(1) by (auto simp: chain(1))
  have ret: "rev (wk_retained ?done) = fs" "wk_parts ?done = length fs"
    "wk_body_bytes ?done = length (concat (map (drop HEADER_BYTES) fs))"
    unfolding chain(1) by (rule walked_chain)+
  have "fs \<noteq> []" by (simp add: chain(1))
  moreover have "wk_body_bytes ?done \<le> u64_max" using ret(3) whole body by simp
  ultimately have "fst (read_event_batch body_read (wk_body_bytes ?done)
      \<lparr>br_parts = fs, br_index = 0, br_offset = HEADER_BYTES\<rparr>) = Ok events"
    using bodies_parse [OF long _ ret(3)] whole typed by blast
  moreover have "last fs = ?f" by (simp add: chain(1))
  ultimately show ?thesis
    using tail ret(1,2) phys
    by (simp add: read_event_segment_batch_def chain_header_def batch_header_def)
qed

section \<open>The theorems\<close>

text \<open>
  C32. The reader accepts exactly what the writer publishes. Reading from a digest gives a batch if and
  only if the loader holds, under their own digests, the files of the canonical chain of that batch, the
  digest is that of the last of them, and the batch is one a writer can be given: its binding and its
  events are well formed. In particular a missing, changed, reordered or repeated part, a wrong job or
  store, trailing bytes, invalid UTF-8 and wrong counts are all refused, and the sizes that are reported
  are those of the files.
\<close>
theorem reader_accepts_exactly_the_chain:
  assumes "digest_ok sha"
  shows "read_event_segment_batch sha load store_id job tail = Ok r \<longleftrightarrow>
    (let fs = segments sha (db_binding r) (db_events r) (db_terminal r) in
       binding_ok (db_binding r) \<and> bb_store_id (db_binding r) = store_id \<and> bb_job (db_binding r) = job
       \<and> list_all event_typed (db_events r)
       \<and> tail = segment_digest sha (last fs) \<and> chain_readable sha load fs
       \<and> db_physical_bytes r = length (concat fs) \<and> db_parts r = length fs
       \<and> length (concat fs) \<le> u64_max)"
proof
  assume "read_event_segment_batch sha load store_id job tail = Ok r"
  from read_sound [OF assms this] show "let fs = segments sha (db_binding r) (db_events r) (db_terminal r) in
       binding_ok (db_binding r) \<and> bb_store_id (db_binding r) = store_id \<and> bb_job (db_binding r) = job
       \<and> list_all event_typed (db_events r)
       \<and> tail = segment_digest sha (last fs) \<and> chain_readable sha load fs
       \<and> db_physical_bytes r = length (concat fs) \<and> db_parts r = length fs
       \<and> length (concat fs) \<le> u64_max"
    by (simp add: Let_def)
next
  assume "let fs = segments sha (db_binding r) (db_events r) (db_terminal r) in
       binding_ok (db_binding r) \<and> bb_store_id (db_binding r) = store_id \<and> bb_job (db_binding r) = job
       \<and> list_all event_typed (db_events r)
       \<and> tail = segment_digest sha (last fs) \<and> chain_readable sha load fs
       \<and> db_physical_bytes r = length (concat fs) \<and> db_parts r = length fs
       \<and> length (concat fs) \<le> u64_max"
  then show "read_event_segment_batch sha load store_id job tail = Ok r"
    using read_complete [OF assms, where b = "db_binding r" and events = "db_events r"
        and t = "db_terminal r" and load = load]
    by (cases r) (auto simp: Let_def)
qed

lemma batch_bytes_nonempty: "batch_bytes es \<noteq> []"
proof -
  have "8 \<le> length (batch_bytes es)" by (simp add: batch_bytes_def)
  then show ?thesis by auto
qed

text \<open>The bytes of a chain, bounded by those of its body.\<close>

lemma chain_size:
  assumes "digest_ok sha" and "binding_ok b"
  shows "length (concat (segments sha b events t)) \<le> 160 * length (batch_bytes events)"
proof -
  obtain cs c where cut: "cut (batch_bytes events) = (cs, c)" by fastforce
  let ?B = "batch_header b events"
  let ?fs = "chain_of sha ?B t cs c"
  have p: "length (bb_predecessor b) = 32" using assms(2) by (simp add: binding_ok_def)
  have B: "sh_predecessor ?B = bb_predecessor b" by (simp add: batch_header_def)
  have "\<forall>f \<in> set ?fs. HEADER_BYTES \<le> length f"
    using link_long [OF assms p, of events t 0 cs]
      segment_file_long [OF assms(2) chain_tail_length [OF assms(1) p]]
    by (auto simp: chain_of_def Let_def B)
  then have "length (concat fs) = 158 * length fs + length (concat (map (drop HEADER_BYTES) fs))"
    if "set fs \<subseteq> set ?fs" for fs
    using that by (induction fs) (auto simp: HEADER_BYTES_def)
  note this [of ?fs]
  moreover have "length ?fs = length cs + 1" by (simp add: chain_of_def Let_def)
  moreover have "concat (map (drop HEADER_BYTES) ?fs) = batch_bytes events"
    using concat_chain [OF assms, of events t cs c] cutD [OF cut] by simp
  ultimately have size: "length (concat ?fs) = 158 * (length cs + 1) + length (batch_bytes events)" by simp
  have "length (concat cs) + length c = length (batch_bytes events)"
    using arg_cong [of _ _ length, OF conjunct1 [OF conjunct2 [OF conjunct2 [OF cutD [OF cut]]]]] by simp
  moreover have "length (concat cs) = MAX_BODY_BYTES * length cs"
    using cutD [OF cut] by (intro full_parts_length) auto
  moreover have "c \<noteq> []" using cutD [OF cut] batch_bytes_nonempty [of events] by blast
  ultimately have "length cs + 1 \<le> length (batch_bytes events)"
    by (cases c) (auto simp: MAX_BODY_BYTES_def)
  then show ?thesis using size by (simp add: segments_def cut)
qed

text \<open>
  C33. Round trip of an event batch: what \<open>write_event_segments\<close> publishes is read back from the digest
  it returns as the same events with the same binding and the same terminal mark, for every batch of
  Rust values whose body is below \<open>2^56\<close> bytes, if no two parts of the batch have the same digest. The
  loader may hold any other files too.
\<close>
theorem event_batch_round_trip:
  fixes sha :: "string \<Rightarrow> string"
  assumes "digest_ok sha" and "binding_ok b" and "list_all event_typed events"
    and "length (batch_bytes events) < 2 ^ 56"
    and "write_event_segments sha (collect :: ((string \<times> string) list, 'e) emitter) b events terminal []
      = (Ok tail, published)"
    and "distinct (map fst published)"
    and "list_all (\<lambda>(d, f). load d = Ok f) published"
  shows "map_sum id (\<lambda>r. (db_binding r, db_events r, db_terminal r, db_parts r))
      (read_event_segment_batch sha load (bb_store_id b) (bb_job b) tail)
    = Ok (b, events, terminal, length published)"
proof -
  let ?fs = "segments sha b events terminal"
  have w: "tail = segment_digest sha (last ?fs)" "published = emitted sha ?fs"
    using assms(5) writer_publishes_the_chain_lemma [where ?'e = 'e, OF assms(1,2)] assms(4) by auto
  have "chain_readable sha load ?fs"
    using assms(6,7) by (auto simp: w(2) emitted_def chain_readable_def list_all_iff comp_def)
  moreover have "length (concat ?fs) \<le> u64_max"
    using chain_size [OF assms(1,2), of events terminal] assms(4) by (simp add: u64_max_def)
  ultimately show ?thesis
    using read_complete [OF assms(1-3), where t = terminal and load = load] by (simp add: w emitted_def)
qed

lemma load_part_agree:
  assumes "inj_on (segment_digest sha) ({f. Ok f \<in> range load1} \<union> {f. Ok f \<in> range load2})"
    and "load_part sha load1 store_id job d = Ok x1" and "load_part sha load2 store_id job d = Ok x2"
  shows "x1 = x2"
proof -
  obtain f1 h1 body1 f2 h2 body2 where x: "x1 = (f1, h1, body1)" "x2 = (f2, h2, body2)"
    by (metis prod_cases3)
  note D = load_partD [OF assms(2) [unfolded x]] load_partD [OF assms(3) [unfolded x]]
  have "f1 = f2"
    using inj_onD [OF assms(1), of f1 f2] D(1,2,11,12) by (metis (mono_tags, lifting) UnI1 UnI2 mem_Collect_eq rangeI)
  then show ?thesis
    using assms(2,3) D(1,11) x by (auto simp: load_part_def split: sum.splits if_splits)
qed

lemma walk_back_agree:
  assumes "inj_on (segment_digest sha) ({f. Ok f \<in> range load1} \<union> {f. Ok f \<in> range load2})"
    and "walk_back sha load1 store_id job E n cur seen k = Ok x1"
    and "walk_back sha load2 store_id job E n cur seen k = Ok x2"
  shows "x1 = x2"
  using assms(2,3)
proof (induction n arbitrary: cur seen k)
  case (Suc n)
  obtain y1 y2 where "load_part sha load1 store_id job cur = Ok y1" "load_part sha load2 store_id job cur = Ok y2"
    using Suc.prems by (auto split: if_splits)
  moreover from load_part_agree [OF assms(1) this] have "y1 = y2" .
  ultimately show ?case
    using Suc by (cases y2) (auto split: if_splits option.splits)
qed simp

text \<open>
  A digest commits to a batch: two loaders, whatever files they hold and whoever wrote them, give the
  same result for the same digest whenever both give one, unless two of their files have one digest.
\<close>
theorem tail_commits_to_the_batch:
  assumes "digest_ok sha"
    and "read_event_segment_batch sha load1 store_id job tail = Ok r1"
    and "read_event_segment_batch sha load2 store_id job tail = Ok r2"
    and "inj_on (segment_digest sha) ({f. Ok f \<in> range load1} \<union> {f. Ok f \<in> range load2})"
  shows "r1 = r2"
proof -
  obtain E1 p1 k1 E2 p2 k2 where tails: "walk_tail sha load1 store_id job tail = Ok (E1, p1, k1)"
    "walk_tail sha load2 store_id job tail = Ok (E2, p2, k2)"
    using read_event_segment_batchD [OF assms(2)] read_event_segment_batchD [OF assms(3)] by blast
  obtain f1 body1 j1 f2 body2 j2 where parts: "load_part sha load1 store_id job tail = Ok (f1, E1, body1)"
    "load_part sha load2 store_id job tail = Ok (f2, E2, body2)"
    and rets: "retain f1 body1 \<lparr>wk_retained = [], wk_body_bytes = 0, wk_physical_bytes = 0, wk_parts = 0\<rparr> = Some j1"
    "retain f2 body2 \<lparr>wk_retained = [], wk_body_bytes = 0, wk_physical_bytes = 0, wk_parts = 0\<rparr> = Some j2"
    and walks: "walk_back sha load1 store_id job E1 (sh_part_index E1) (sh_predecessor E1) [tail] j1 = Ok (p1, k1)"
    "walk_back sha load2 store_id job E2 (sh_part_index E2) (sh_predecessor E2) [tail] j2 = Ok (p2, k2)"
    using walk_tailD [OF tails(1)] walk_tailD [OF tails(2)] by blast
  have "f1 = f2 \<and> E1 = E2 \<and> body1 = body2" using load_part_agree [OF assms(4) parts] by simp
  then have "E1 = E2 \<and> p1 = p2 \<and> k1 = k2"
    using rets walks walk_back_agree [OF assms(4)] by fastforce
  then show ?thesis
    using assms(2,3) tails by (auto simp: read_event_segment_batch_def split: sum.splits if_splits)
qed

section \<open>A small batch\<close>

definition flat_sha :: "string \<Rightarrow> string" where
  "flat_sha s = replicate 32 (CHR ''A'')"

definition small_binding :: batch_binding where
  "small_binding =
     \<lparr>bb_store_id = replicate 16 (CHR ''s''), bb_job = flat_sha ''job'', bb_predecessor = zero_bytes 32,
      bb_origin = 1, bb_actor = flat_sha ''agent''\<rparr>"

definition small_events :: "network_event list" where
  "small_events = [\<lparr>ne_sequence = 1, ne_kind = ''started'', ne_payload = []\<rparr>]"

definition small_file :: string where
  "small_file = last (segments flat_sha small_binding small_events True)"

lemma flat_digest: "segment_digest flat_sha f = replicate 32 (CHR ''A'')"
  by (simp add: segment_digest_def flat_sha_def)

lemma flat_ok: "digest_ok flat_sha"
proof -
  have "replicate 32 (CHR ''A'') \<noteq> zero_bytes 32"
    unfolding zero_bytes_def by (simp only: replicate_eq_replicate) code_simp
  then show ?thesis by (simp add: digest_ok_def flat_sha_def)
qed

lemma small_binding_ok: "binding_ok small_binding"
  by (simp add: binding_ok_def small_binding_def flat_sha_def)

lemma small_typed: "list_all event_typed small_events"
  by (simp add: small_events_def u64_max_def event_typed_def utf8_valid.simps byte_of_def)

lemma small_bytes: "length (batch_bytes small_events) = 39"
  by (simp add: batch_bytes_def small_events_def event_text_def)

lemma small_segments: "segments flat_sha small_binding small_events True = [small_file]"
proof -
  have "cut (batch_bytes small_events) = ([], batch_bytes small_events)"
    by (subst cut.simps) (simp add: small_bytes MAX_BODY_BYTES_def)
  then show ?thesis by (simp add: small_file_def segments_def chain_of_def Let_def)
qed

lemma small_written:
  "write_event_segments flat_sha (collect :: ((string \<times> string) list, unit) emitter) small_binding
    small_events True [] = (Ok (replicate 32 (CHR ''A'')), [(replicate 32 (CHR ''A''), small_file)])"
  using writer_publishes_the_chain_lemma [where ?'e = unit, OF flat_ok small_binding_ok, of small_events True]
  by (simp add: small_bytes small_segments flat_digest emitted_def)

lemma small_read:
  "read_event_segment_batch flat_sha (\<lambda>_. Ok small_file) (bb_store_id small_binding)
    (bb_job small_binding) (replicate 32 (CHR ''A''))
   = Ok \<lparr>db_binding = small_binding, db_events = small_events, db_terminal = True,
         db_physical_bytes = length small_file, db_parts = 1\<rparr>"
proof -
  have "length (concat (segments flat_sha small_binding small_events True)) \<le> 160 * 39"
    using chain_size [OF flat_ok small_binding_ok, of small_events True] by (simp add: small_bytes)
  then have "length (concat (segments flat_sha small_binding small_events True)) \<le> u64_max"
    by (simp add: u64_max_def)
  then show ?thesis
    using read_complete [OF flat_ok small_binding_ok small_typed, where t = True and load = "\<lambda>_. Ok small_file"]
    by (simp add: small_segments flat_digest chain_readable_def)
qed


theorem reader_accepts_exactly_the_chain_witness:
  "db_events (projr (read_event_segment_batch flat_sha ((\<lambda>_. Ok small_file) :: string \<Rightarrow> unit + string)
    (bb_store_id small_binding) (bb_job small_binding) (replicate 32 (CHR ''A'')))) = small_events
   \<and> chain_readable flat_sha ((\<lambda>_. Ok small_file) :: string \<Rightarrow> unit + string) [small_file]"
proof -
  have "chain_readable flat_sha ((\<lambda>_. Ok small_file) :: string \<Rightarrow> unit + string) [small_file]"
    using iffD1 [OF reader_accepts_exactly_the_chain [OF flat_ok] small_read [where ?'a = unit]]
    by (simp add: small_segments Let_def)
  then show ?thesis by (simp add: small_read)
qed

theorem event_batch_round_trip_witness:
  "map_sum id (\<lambda>r. (db_binding r, db_events r, db_terminal r, db_parts r))
    (read_event_segment_batch flat_sha ((\<lambda>_. Ok small_file) :: string \<Rightarrow> unit + string)
      (bb_store_id small_binding) (bb_job small_binding) (replicate 32 (CHR ''A'')))
   = Ok (small_binding, small_events, True, 1)"
  using event_batch_round_trip [OF flat_ok small_binding_ok small_typed _ small_written,
      of "(\<lambda>_. Ok small_file) :: string \<Rightarrow> unit + string"]
  by (simp add: small_bytes)

theorem tail_commits_to_the_batch_witness:
  "projr (read_event_segment_batch flat_sha ((\<lambda>_. Ok small_file) :: string \<Rightarrow> unit + string)
      (bb_store_id small_binding) (bb_job small_binding) (replicate 32 (CHR ''A'')))
   = projr (read_event_segment_batch flat_sha ((\<lambda>_. Ok small_file) :: string \<Rightarrow> nat + string)
      (bb_store_id small_binding) (bb_job small_binding) (replicate 32 (CHR ''A'')))"
  using tail_commits_to_the_batch [OF flat_ok small_read [where ?'a = unit] small_read [where ?'a = nat]]
  by (simp add: small_read)

end
