(* ===== verification/LocalProtocol.thy ===== *)
theory LocalProtocol
  imports ServiceAudit ControllerSession
begin

text \<open>
  The local protocol of the daemon (\<open>local_ipc.rs\<close>): the requests of the desktop shell and the command
  line, the answers, the frames that carry them, the check of the peer, and the failures of a remote
  execution with the messages they become.
\<close>

section \<open>Versions, errors and requests\<close>

record local_version =
  lv_major :: nat
  lv_minor :: nat

definition CURRENT_VERSION :: local_version where "CURRENT_VERSION = \<lparr>lv_major = 1, lv_minor = 1\<rparr>"

definition is_compatible :: "local_version \<Rightarrow> bool" where
  "is_compatible v = (lv_major v = lv_major CURRENT_VERSION)"

datatype local_error =
    LeIncompatibleVersion | LeFrameTooLarge | LeInvalidFrame | LeIo | LeStatePathNotAbsolute
  | LeInvalidLocalEndpoint | LeUnauthorized | LeFeatureUnavailable | LePermissionDenied
  | LeApprovalExpired | LeAuditUnavailable | LeCursorAhead | LeResyncRequired | LeLimitExceeded
  | LeRevisionConflict | LeTargetOffline | LeMeshIdentityMismatch | LeRemoteUnavailable

fun local_error_text :: "local_error \<Rightarrow> string" where
  "local_error_text LeIncompatibleVersion = ''incompatible local protocol version''"
| "local_error_text LeFrameTooLarge = ''local IPC frame exceeds 512 KiB''"
| "local_error_text LeInvalidFrame = ''invalid local IPC frame''"
| "local_error_text LeIo = ''local IPC I/O failed''"
| "local_error_text LeStatePathNotAbsolute = ''daemon state paths must be absolute''"
| "local_error_text LeInvalidLocalEndpoint = ''invalid local IPC endpoint''"
| "local_error_text LeUnauthorized = ''local IPC peer is not authorized''"
| "local_error_text LeFeatureUnavailable = ''dashboard feature was not negotiated''"
| "local_error_text LePermissionDenied = ''dashboard permission denied''"
| "local_error_text LeApprovalExpired = ''dashboard approval expired''"
| "local_error_text LeAuditUnavailable = ''dashboard audit unavailable''"
| "local_error_text LeCursorAhead = ''dashboard cursor is ahead''"
| "local_error_text LeResyncRequired = ''dashboard resynchronization required''"
| "local_error_text LeLimitExceeded = ''dashboard limit exceeded''"
| "local_error_text LeRevisionConflict = ''dashboard revision conflict''"
| "local_error_text LeTargetOffline =
     ''target is offline; reconnect the paired target before requesting approval''"
| "local_error_text LeMeshIdentityMismatch =
     ''mesh identity does not match the signed authenticated session''"
| "local_error_text LeRemoteUnavailable =
     ''remote execution unavailable; verify paired registry and agent connectivity''"

fun local_error_code :: "local_error \<Rightarrow> string" where
  "local_error_code LeIncompatibleVersion = ''incompatible_version''"
| "local_error_code LeFrameTooLarge = ''frame_too_large''"
| "local_error_code LeUnauthorized = ''unauthorized''"
| "local_error_code LeFeatureUnavailable = ''feature_unavailable''"
| "local_error_code LePermissionDenied = ''permission_denied''"
| "local_error_code LeApprovalExpired = ''approval_expired''"
| "local_error_code LeAuditUnavailable = ''audit_unavailable''"
| "local_error_code LeCursorAhead = ''cursor_ahead''"
| "local_error_code LeResyncRequired = ''resync_required''"
| "local_error_code LeLimitExceeded = ''limit_exceeded''"
| "local_error_code LeRevisionConflict = ''revision_conflict''"
| "local_error_code LeTargetOffline = ''target_offline''"
| "local_error_code LeMeshIdentityMismatch = ''mesh_identity_mismatch''"
| "local_error_code LeRemoteUnavailable = ''remote_unavailable''"
| "local_error_code _ = ''invalid_request''"

datatype local_request =
    RqStatus (request_version: local_version)
  | RqConnectionSettings (request_version: local_version)
  | RqSetConnection (request_version: local_version) connection_config
  | RqPauseRemoteAccess (request_version: local_version)
  | RqResumeRemoteAccess (request_version: local_version)
  | RqSetAutostart (request_version: local_version) bool
  | RqDiagnostics (request_version: local_version)
  | RqRequestApproval (request_version: local_version) access_request u64
  | RqRequestAuthenticatedApproval (request_version: local_version) mesh_approval_assertion u64
  | RqRequestAdminMutationApproval (request_version: local_version) admin_mutation u64
  | RqDecideApproval (request_version: local_version) string access_request approval_decision
  | RqDecidePendingApproval (request_version: local_version) approval_id approval_decision
  | RqDashboardSnapshot (request_version: local_version) dashboard_scope
  | RqActivityEvents (request_version: local_version) dashboard_scope event_cursor nat
  | RqAcknowledgeEvents (request_version: local_version) subscriber_id event_cursor
  | RqPendingApprovals (request_version: local_version)
  | RqPendingApprovalForNotification (request_version: local_version) approval_id
  | RqPolicyRules (request_version: local_version)
  | RqPutPolicyRule (request_version: local_version) policy_rule
  | RqDeletePolicyRule (request_version: local_version) rule_id
  | RqDeletePolicyRuleIfRevision (request_version: local_version) rule_id u64
  | RqAuditQuery (request_version: local_version) audit_filter "event_cursor option" nat
  | RqAuditExport (request_version: local_version) audit_filter
  | RqAuditExportManifest (request_version: local_version) audit_filter
  | RqAuditDelete (request_version: local_version) audit_deletion_scope audit_filter
  | RqCancelActivity (request_version: local_version) activity_id
  | RqPauseRemoteAccessWithJobs (request_version: local_version) existing_jobs
  | RqStartRemoteExecution (request_version: local_version) activity_id string string string

fun requires_dashboard :: "local_request \<Rightarrow> bool" where
  "requires_dashboard (RqStatus _) = False"
| "requires_dashboard (RqPauseRemoteAccess _) = False"
| "requires_dashboard (RqResumeRemoteAccess _) = False"
| "requires_dashboard (RqSetAutostart _ _) = False"
| "requires_dashboard (RqDiagnostics _) = False"
| "requires_dashboard (RqRequestApproval _ _ _) = False"
| "requires_dashboard (RqDecideApproval _ _ _ _) = False"
| "requires_dashboard _ = True"

definition validate_local_request :: "local_request \<Rightarrow> local_error + unit" where
  "validate_local_request r =
     (if \<not> is_compatible (request_version r) then Err LeIncompatibleVersion
      else if requires_dashboard r \<and> lv_minor (request_version r) < 1 then Err LeFeatureUnavailable
      else Ok ())"

section \<open>Answers\<close>

datatype daemon_role = RoleWorkstation | RoleAgent | RoleRegistry

datatype connection_state = ConnDisconnected | ConnConnecting | ConnConnected | ConnDegraded

record daemon_snapshot =
  dsn_public_identity :: string
  dsn_daemon_version :: string
  dsn_os :: string
  dsn_architecture :: string
  dsn_role :: daemon_role
  dsn_endpoint :: string
  dsn_connection :: connection_state
  dsn_local_protocol :: local_version
  dsn_remote_protocol :: string
  dsn_warnings :: "string list"
  dsn_remote_access_paused :: bool
  dsn_autostart :: bool
  dsn_log_location :: string
  dsn_features :: "string list"

record diagnostic_item =
  dg_code :: string
  dg_message :: string
  dg_healthy :: bool

datatype local_response =
    RpSnapshot daemon_snapshot
  | RpConnectionSettings "string option" "string option" connection_state
  | RpAcknowledged
  | RpDiagnostics "diagnostic_item list"
  | RpApprovalCreated string u64
  | RpApprovalDecided approval_decision "policy_rule option"
  | RpDashboardSnapshot dashboard_snapshot
  | RpActivityEvents event_read
  | RpPendingApprovals "approval_request list"
  | RpPendingApprovalForNotification approval_request
  | RpPolicyRules "policy_rule list"
  | RpAuditRecords audit_page
  | RpAuditExport audit_export
  | RpAuditExportManifest export_manifest
  | RpAuditDeleted nat
  | RpCancellation bool
  | RpRuleDeleted bool
  | RpExecutionStarted activity_id
  | RpError string string

definition local_error_response :: "local_error \<Rightarrow> local_response" where
  "local_error_response e = RpError (local_error_code e) (local_error_text e)"

fun map_dashboard_error :: "service_error \<Rightarrow> local_error" where
  "map_dashboard_error SePermissionDenied = LePermissionDenied"
| "map_dashboard_error SeApprovalExpired = LeApprovalExpired"
| "map_dashboard_error SeAuditUnavailable = LeAuditUnavailable"
| "map_dashboard_error SeConfigurationUnavailable = LeIo"
| "map_dashboard_error SeCursorAhead = LeCursorAhead"
| "map_dashboard_error SeResyncRequired = LeResyncRequired"
| "map_dashboard_error SeLimitExceeded = LeLimitExceeded"
| "map_dashboard_error SeRevisionConflict = LeRevisionConflict"
| "map_dashboard_error SeInvalidRequest = LeInvalidFrame"
| "map_dashboard_error SeNotFound = LeInvalidFrame"

section \<open>Frames\<close>

definition MAX_FRAME_BYTES :: nat where "MAX_FRAME_BYTES = 512 * 1024"

abbreviation NEWLINE :: char where "NEWLINE \<equiv> CHR 0x0A"

text \<open>\<open>take(limit).read_until(b'\n')\<close>: what the reader hands out of the bytes that arrive.\<close>

definition taken_frame :: "nat \<Rightarrow> string \<Rightarrow> string" where
  "taken_frame limit s =
     (let t = take limit s; body = takeWhile (\<lambda>c. c \<noteq> NEWLINE) t
      in if length body < length t then body @ [NEWLINE] else body)"

definition ends_frame :: "string \<Rightarrow> bool" where
  "ends_frame f = (f \<noteq> [] \<and> last f = NEWLINE)"

text \<open>
  \<open>broken\<close>: the stream reports an error after the bytes \<open>s\<close>, instead of its end. The second component
  are the bytes that are left.
\<close>

definition read_frame ::
    "(string \<Rightarrow> 'a option) \<Rightarrow> bool \<Rightarrow> string \<Rightarrow> (local_error + 'a) \<times> string" where
  "read_frame parse broken s =
     (let f = taken_frame (MAX_FRAME_BYTES + 1) s;
          rest = drop (length f) s
      in if broken \<and> \<not> ends_frame f \<and> length f \<le> MAX_FRAME_BYTES then (Err LeIo, rest)
         else if length f > MAX_FRAME_BYTES then (Err LeFrameTooLarge, rest)
         else if \<not> ends_frame f then (Err LeInvalidFrame, rest)
         else (case parse (butlast f) of
                 None \<Rightarrow> (Err LeInvalidFrame, rest)
               | Some x \<Rightarrow> (Ok x, rest)))"

text \<open>The bytes a writer that accepts them is given.\<close>

definition write_frame :: "('a \<Rightarrow> string option) \<Rightarrow> 'a \<Rightarrow> local_error + string" where
  "write_frame encode x =
     (case encode x of
        None \<Rightarrow> Err LeInvalidFrame
      | Some f \<Rightarrow> if length f + 1 > MAX_FRAME_BYTES then Err LeFrameTooLarge else Ok (f @ [NEWLINE]))"

definition enforce_response_bound ::
    "(local_response \<Rightarrow> string option) \<Rightarrow> local_response \<Rightarrow> local_response" where
  "enforce_response_bound encode r =
     (case encode r of
        Some f \<Rightarrow>
          if length f + 1 \<le> MAX_FRAME_BYTES then r
          else RpError ''limit_exceeded'' ''local IPC response exceeds 512 KiB; request a smaller page''
      | None \<Rightarrow> RpError ''invalid_request'' ''local IPC response could not be encoded'')"

text \<open>The client: a request that is valid is sent without a bound on its frame; the answer is one frame.\<close>

definition send_local_request ::
    "(local_request \<Rightarrow> string option) \<Rightarrow> (string \<Rightarrow> local_error + local_response) \<Rightarrow> local_request
     \<Rightarrow> local_error + local_response" where
  "send_local_request encode exchange r =
     and_then (validate_local_request r)
       (\<lambda>_. case encode r of None \<Rightarrow> Err LeInvalidFrame | Some f \<Rightarrow> exchange (f @ [NEWLINE]))"

section \<open>Peers, paths and workers\<close>

datatype peer_credentials =
    UnixPeer (peer_uid: nat) (peer_gid: nat) (peer_pid: "nat option")
  | WindowsPeer (peer_process_id: nat) (peer_user_sid: string)

datatype expected_user = ExpectedUnix nat | ExpectedWindows string

fun same_user_authorizes :: "expected_user \<Rightarrow> peer_credentials \<Rightarrow> bool" where
  "same_user_authorizes (ExpectedUnix expected) (UnixPeer uid _ _) = (expected = uid)"
| "same_user_authorizes (ExpectedWindows expected) (WindowsPeer _ sid) =
     (expected \<noteq> [] \<and> expected = sid)"
| "same_user_authorizes _ _ = False"

definition valid_remote_identifier :: "string \<Rightarrow> bool" where
  "valid_remote_identifier value =
     (value \<noteq> [] \<and> length value \<le> 128
      \<and> list_all (\<lambda>c. is_ascii_alphanumeric c \<or> c = CHR ''-'' \<or> c = CHR ''_'' \<or> c = CHR ''.'') value)"

definition valid_remote_component :: "string \<Rightarrow> bool" where
  "valid_remote_component value =
     (value \<noteq> [] \<and> length value \<le> 1024 \<and> \<not> is_absolute value
      \<and> \<not> list_ex (\<lambda>c. c = CHR 0x0D \<or> c = NEWLINE \<or> c = CHR 0x00) value
      \<and> list_all (\<lambda>c. is_normal c \<or> c = CurDir) (path_components value))"

definition validate_state_paths :: "string list \<Rightarrow> local_error + unit" where
  "validate_state_paths paths =
     (if list_all is_absolute paths then Ok () else Err LeStatePathNotAbsolute)"

text \<open>What the start-up finds about the runtime directory on Unix; \<open>rd_canonical\<close> is its real path.\<close>

record runtime_dir =
  rd_path :: string
  rd_is_plain_directory :: "bool option"
  rd_canonical :: "string option"
  rd_owner_and_mode :: "(nat \<times> nat) option"

text \<open>\<open>Path::parent\<close> of the socket's path is the runtime directory.\<close>

definition names_of :: "string \<Rightarrow> component list" where
  "names_of p = path_components p"

definition directly_below :: "string \<Rightarrow> string \<Rightarrow> bool" where
  "directly_below dir p =
     (names_of p \<noteq> [] \<and> last (names_of p) \<noteq> RootDir \<and> butlast (names_of p) = names_of dir)"

definition join_name :: "string \<Rightarrow> string \<Rightarrow> string" where
  "join_name dir name = (if dir \<noteq> [] \<and> last dir = CHR ''/'' then dir @ name else dir @ ''/'' @ name)"

definition local_endpoint :: "nat \<Rightarrow> runtime_dir \<Rightarrow> string \<Rightarrow> local_error + string" where
  "local_endpoint euid d listen =
     (if \<not> is_absolute (rd_path d) then Err LeStatePathNotAbsolute
      else if str_contains listen ''://'' then Err LeInvalidLocalEndpoint
      else if rd_is_plain_directory d \<noteq> Some True then Err LeInvalidLocalEndpoint
      else case (rd_canonical d, rd_owner_and_mode d) of
        (Some dir, Some (uid, mode)) \<Rightarrow>
          if uid \<noteq> euid \<or> mode mod 512 \<noteq> 448 then Err LeUnauthorized
          else (let path = (if listen = [] then join_name dir ''devicelane.sock'' else listen)
                in if \<not> is_absolute path \<or> \<not> directly_below dir path then Err LeInvalidLocalEndpoint
                   else Ok path)
      | _ \<Rightarrow> Err LeInvalidLocalEndpoint)"

definition MAX_LOCAL_WORKERS :: nat where "MAX_LOCAL_WORKERS = 8"

text \<open>The counter of the connection workers: a slot is taken below the limit and given back on exit.\<close>

definition worker_acquire :: "nat \<Rightarrow> nat option" where
  "worker_acquire active = (if active < MAX_LOCAL_WORKERS then Some (active + 1) else None)"

definition worker_release :: "nat \<Rightarrow> nat" where
  "worker_release active = active - 1"

section \<open>Failures of a remote execution\<close>

datatype remote_failure =
    RfOperationFailed | RfTargetOffline | RfRegistryDisconnected | RfDaemonRestarted
  | RfObserverUnavailable | RfEventResyncRequired | RfAuditUnavailable | RfApprovalExpired
  | RfPolicyDenied | RfStaleLease | RfCancelled | RfAgentIncompatible

fun failure_message_code :: "remote_failure \<Rightarrow> message_code" where
  "failure_message_code RfOperationFailed = OperationFailed"
| "failure_message_code RfTargetOffline = TargetOffline"
| "failure_message_code RfRegistryDisconnected = RegistryDisconnected"
| "failure_message_code RfDaemonRestarted = DaemonRestarted"
| "failure_message_code RfObserverUnavailable = ObserverUnavailable"
| "failure_message_code RfEventResyncRequired = EventResyncRequired"
| "failure_message_code RfAuditUnavailable = AuditUnavailable"
| "failure_message_code RfApprovalExpired = ApprovalExpired"
| "failure_message_code RfPolicyDenied = message_code.PolicyDenied"
| "failure_message_code RfStaleLease = LeaseStale"
| "failure_message_code RfCancelled = OperationCancelled"
| "failure_message_code RfAgentIncompatible = AgentIncompatible"

definition map_transition_failure :: "local_error \<Rightarrow> remote_failure" where
  "map_transition_failure e =
     (if e = LeAuditUnavailable then RfAuditUnavailable else RfRegistryDisconnected)"

definition classify_remote_rejection :: "string option \<Rightarrow> remote_failure" where
  "classify_remote_rejection value =
     (let v = map to_ascii_lowercase (case value of None \<Rightarrow> [] | Some s \<Rightarrow> s) in
      if v = ''artifact_publish_failed'' then RfOperationFailed
      else if str_contains v ''observer_unavailable'' then RfObserverUnavailable
      else if str_contains v ''resync'' \<or> str_contains v ''overflow'' then RfEventResyncRequired
      else if str_contains v ''daemon_restarted'' then RfDaemonRestarted
      else if str_contains v ''audit_unavailable'' then RfAuditUnavailable
      else if str_contains v ''lease'' \<and> (str_contains v ''stale'' \<or> str_contains v ''expired'')
      then RfStaleLease
      else if str_contains v ''version'' \<or> str_contains v ''unsupported'' \<or> str_contains v ''incompatible''
      then RfAgentIncompatible
      else if str_contains v ''denied'' \<or> str_contains v ''policy'' then RfPolicyDenied
      else RfRegistryDisconnected)"

section \<open>Properties of the frames\<close>

lemma taken_frame_all:
  assumes "NEWLINE \<notin> set (take n s)" shows "taken_frame n s = take n s"
proof -
  have all: "takeWhile (\<lambda>c. c \<noteq> NEWLINE) (take n s) = take n s"
    using assms by (auto simp: takeWhile_eq_all_conv)
  show ?thesis unfolding taken_frame_def Let_def by (simp only: all less_irrefl if_False)
qed

lemma taken_frame_prefix: "prefix (taken_frame n s) (take n s)"
proof -
  let ?t = "take n s"
  have split: "takeWhile (\<lambda>c. c \<noteq> NEWLINE) ?t @ dropWhile (\<lambda>c. c \<noteq> NEWLINE) ?t = ?t" by simp
  show ?thesis
  proof (cases "dropWhile (\<lambda>c. c \<noteq> NEWLINE) ?t")
    case Nil
    then have "NEWLINE \<notin> set ?t" by (auto simp: dropWhile_eq_Nil_conv)
    then show ?thesis by (simp add: taken_frame_all)
  next
    case (Cons c cs)
    then have "c = NEWLINE" using hd_dropWhile [of "\<lambda>c. c \<noteq> NEWLINE" ?t] by simp
    with Cons split have t: "(takeWhile (\<lambda>c. c \<noteq> NEWLINE) ?t @ [NEWLINE]) @ cs = ?t" by simp
    have "prefix (takeWhile (\<lambda>c. c \<noteq> NEWLINE) ?t @ [NEWLINE]) ?t" by (rule prefixI [OF t [symmetric]])
    then show ?thesis
      unfolding taken_frame_def Let_def by (simp only: takeWhile_is_prefix split: if_split) simp
  qed
qed

lemma taken_frame_length: "length (taken_frame n s) \<le> n"
  using prefix_length_le [OF taken_frame_prefix, of n s] by simp

lemma taken_frame_line:
  "NEWLINE \<notin> set f \<Longrightarrow> length f < n \<Longrightarrow> taken_frame n (f @ NEWLINE # behind) = f @ [NEWLINE]"
proof -
  assume f: "NEWLINE \<notin> set f" "length f < n"
  then obtain k where k: "n = Suc (length f + k)" by (metis add_Suc_right less_imp_Suc_add)
  have "takeWhile (\<lambda>c. c \<noteq> NEWLINE) (f @ NEWLINE # take k behind) = f"
    using f(1) by (subst takeWhile_append2) auto
  then show ?thesis by (simp add: taken_frame_def k)
qed

lemma taken_frame_long:
  "NEWLINE \<notin> set f \<Longrightarrow> n \<le> length f \<Longrightarrow> taken_frame n (f @ s) = take n f"
  using taken_frame_all [of n "f @ s"] by (auto dest: in_set_takeD)

lemma read_frame_line:
  assumes "NEWLINE \<notin> set f" and "length f + 1 \<le> MAX_FRAME_BYTES"
  shows "read_frame parse broken (f @ NEWLINE # behind)
    = (case parse f of None \<Rightarrow> Err LeInvalidFrame | Some x \<Rightarrow> Ok x, behind)"
  using assms taken_frame_line [of f "MAX_FRAME_BYTES + 1" behind]
  by (simp add: read_frame_def ends_frame_def Let_def split: option.splits)

lemma read_frame_rest:
  "snd (read_frame parse broken s) = drop (length (taken_frame (MAX_FRAME_BYTES + 1) s)) s"
  by (simp add: read_frame_def Let_def split: option.split)

lemma read_frame_consumes: "length s - length (snd (read_frame parse broken s)) \<le> MAX_FRAME_BYTES + 1"
  unfolding read_frame_rest using taken_frame_length [of "MAX_FRAME_BYTES + 1" s] by simp

text \<open>A value that \<open>write_frame\<close> accepts is what \<open>read_frame\<close> returns from the bytes it wrote, with
  everything behind the frame left unread; a frame of more than 512 KiB is refused by both sides, the
  reader after at most one byte over the limit. The hypotheses state what JSON encoding promises: it
  escapes line feeds and parses back.\<close>

theorem local_frame_round_trip:
  assumes "encode x = Some f" and "NEWLINE \<notin> set f" and "parse f = Some x"
  shows "(length f < MAX_FRAME_BYTES \<longrightarrow>
      (\<exists>bytes. write_frame encode x = Ok bytes
         \<and> read_frame parse broken (bytes @ behind) = (Ok x, behind)))
    \<and> (MAX_FRAME_BYTES \<le> length f \<longrightarrow>
      write_frame encode x = Err LeFrameTooLarge
      \<and> fst (read_frame parse broken (f @ NEWLINE # behind)) = Err LeFrameTooLarge)"
proof (intro conjI impI)
  assume "length f < MAX_FRAME_BYTES"
  with assms show "\<exists>bytes. write_frame encode x = Ok bytes \<and> read_frame parse broken (bytes @ behind) = (Ok x, behind)"
    by (simp add: write_frame_def read_frame_line)
next
  assume big: "MAX_FRAME_BYTES \<le> length f"
  then show "write_frame encode x = Err LeFrameTooLarge" using assms by (simp add: write_frame_def)
  have "MAX_FRAME_BYTES < length (taken_frame (MAX_FRAME_BYTES + 1) (f @ NEWLINE # behind))"
  proof (cases "length f = MAX_FRAME_BYTES")
    case True
    then show ?thesis using taken_frame_line [of f "MAX_FRAME_BYTES + 1" behind] assms(2) by simp
  next
    case False
    then have "MAX_FRAME_BYTES + 1 \<le> length f" using big by simp
    from taken_frame_long [OF assms(2) this] show ?thesis using \<open>MAX_FRAME_BYTES + 1 \<le> length f\<close> by simp
  qed
  then show "fst (read_frame parse broken (f @ NEWLINE # behind)) = Err LeFrameTooLarge"
    by (simp add: read_frame_def Let_def)
qed

lemma local_frame_round_trip_witness:
  "\<exists>bytes. write_frame Some ''ping'' = Ok bytes \<and> read_frame Some False (bytes @ ''next'') = (Ok ''ping'', ''next'')"
  using local_frame_round_trip [of Some "''ping''" "''ping''" Some False "''next''"]
  by (simp add: MAX_FRAME_BYTES_def)

text \<open>After the bound is enforced the frame of the answer can be written, when the two replacement
  answers encode to frames within the limit.\<close>

lemma enforced_response_fits:
  assumes "\<And>m. \<exists>f. encode (RpError ''limit_exceeded'' m) = Some f \<and> length f < MAX_FRAME_BYTES"
    and "\<And>m. \<exists>f. encode (RpError ''invalid_request'' m) = Some f \<and> length f < MAX_FRAME_BYTES"
  shows "\<exists>bytes. write_frame encode (enforce_response_bound encode r) = Ok bytes"
proof -
  have small: "\<exists>bytes. write_frame encode x = Ok bytes" if "encode x = Some f" "length f < MAX_FRAME_BYTES" for x f
    using that by (simp add: write_frame_def)
  show ?thesis
  proof (cases "encode r")
    case None
    then show ?thesis using assms(2) small by (simp add: enforce_response_bound_def) blast
  next
    case (Some f)
    then show ?thesis
      using assms(1) small [OF Some] small by (cases "length f < MAX_FRAME_BYTES")
        (simp add: enforce_response_bound_def Suc_le_eq, simp add: enforce_response_bound_def Suc_le_eq, blast)
  qed
qed

text \<open>Every version below the dashboard's minor is refused before a dashboard request is looked at.\<close>

lemma validate_local_request_Ok:
  "validate_local_request r = Ok () \<longleftrightarrow>
     lv_major (request_version r) = 1 \<and> (requires_dashboard r \<longrightarrow> 1 \<le> lv_minor (request_version r))"
  by (auto simp: validate_local_request_def is_compatible_def CURRENT_VERSION_def)

lemma worker_slots: "worker_acquire n = Some m \<Longrightarrow> m \<le> MAX_LOCAL_WORKERS \<and> worker_release m = n"
  by (auto simp: worker_acquire_def worker_release_def split: if_splits)

end
