(* ===== verification/Daemon.thy ===== *)
theory Daemon
  imports LocalProtocol RegistryJobs
begin

text \<open>
  The daemon of a machine (\<open>local_ipc.rs\<close>): its state, every request it answers under its lock, the
  configuration of the connection to a registry and what becomes of it after a write, and the dispatch
  of one connection. An operation maps the state to its result and the state after it; \<open>None\<close> is a
  panic, which poisons the lock.
\<close>

section \<open>State\<close>

datatype runtime_state = RuntimeRunning | RuntimeStopped | RuntimeFailed string

datatype connection_error =
    CeInvalidFile | CeUnavailable | CeTooLarge | CeInvalidFormat | CeUnsupportedVersion
  | CeInvalidEndpoint | CeInvalidPeer

record remote_execution_config =
  rx_registry_address :: string
  rx_registry_peer_id :: string
  rx_identity_path :: string
  rx_client_id :: string

record connection_write =
  cw_before :: "connection_error + connection_config option"
  cw_saved :: "connection_error + unit"
  cw_after :: "connection_error + connection_config option"

record policy_runtime =
  pt_local_host_id :: host_id
  pt_engine :: policy_engine

text \<open>
  \<open>dm_generation\<close> numbers the token of the current connection: each replacement allocates a new one.
  \<open>dm_boundary\<close> holds whether the transport to the registry keeps a session. \<open>dm_tokens\<close> are the
  cancellation flags handed to workers, by the order of their creation, and \<open>dm_inflight\<close> names the flag
  of every execution that has not ended.
\<close>

record daemon_state =
  dm_registry_attached :: bool
  dm_connection_storage :: "string option"
  dm_snapshot :: daemon_snapshot
  dm_diagnostics :: "diagnostic_item list"
  dm_autostart_adapter :: bool
  dm_autostart_overridden :: bool
  dm_dashboard_policy :: "policy_runtime option"
  dm_dashboard :: "dashboard_service option"
  dm_remote_execution :: "remote_execution_config option"
  dm_generation :: nat
  dm_boundary :: "bool option"
  dm_timeout_ms :: nat
  dm_inflight :: "(activity_id, nat) hash_map"
  dm_tokens :: "bool list"

record execution_job =
  xj_generation :: nat
  xj_config :: remote_execution_config
  xj_persistent :: bool
  xj_timeout_ms :: nat
  xj_activity :: activity_event
  xj_workspace_path :: string
  xj_request_id :: string
  xj_app_path :: string
  xj_token :: nat

text \<open>
  What surrounds one operation: the clock (\<open>None\<close> before the epoch), randomness, the state of an attached
  registry, the files, the operating system's answer to an autostart change, what a connection write
  observes, the transport identity and the answer of the registry to an inventory request.
\<close>

record daemon_env =
  de_service :: service_env
  de_now :: "u64 option"
  de_random :: "string list"
  de_registry_state :: runtime_state
  de_autostart :: "bool \<Rightarrow> local_error + unit"
  de_write :: "string \<Rightarrow> connection_config \<Rightarrow> connection_write"
  de_crypto :: crypto
  de_session :: session_codec
  de_identity_files :: "string \<Rightarrow> bool"
  de_load_transport :: "string \<Rightarrow> string \<Rightarrow> transport option"
  de_list :: "remote_failure + response"
  de_response_json :: "local_response \<Rightarrow> string option"
  de_writer_ready :: bool

definition now_ms :: "daemon_env \<Rightarrow> u64" where
  "now_ms env = (case de_now env of None \<Rightarrow> 0 | Some t \<Rightarrow> t)"

type_synonym 'a daemon_op = "daemon_state \<Rightarrow> ((local_error + 'a) \<times> daemon_state) option"

definition dm_then :: "'a daemon_op \<Rightarrow> ('a \<Rightarrow> 'b daemon_op) \<Rightarrow> 'b daemon_op" where
  "dm_then m f s =
     (case m s of
        None \<Rightarrow> None
      | Some (Inl e, s1) \<Rightarrow> Some (Err e, s1)
      | Some (Inr x, s1) \<Rightarrow> f x s1)"

text \<open>An operation of the dashboard service, with the error for its absence.\<close>

definition on_dashboard :: "local_error \<Rightarrow> 'a service_op \<Rightarrow> 'a daemon_op" where
  "on_dashboard missing m s =
     (case dm_dashboard s of
        None \<Rightarrow> Some (Err missing, s)
      | Some sv \<Rightarrow>
          (case m sv of
             None \<Rightarrow> None
           | Some (Inl e, sv1) \<Rightarrow> Some (Err (map_dashboard_error e), s\<lparr>dm_dashboard := Some sv1\<rparr>)
           | Some (Inr x, sv1) \<Rightarrow> Some (Ok x, s\<lparr>dm_dashboard := Some sv1\<rparr>)))"

definition reading_dashboard :: "(dashboard_service \<Rightarrow> service_error + 'a) \<Rightarrow> 'a daemon_op" where
  "reading_dashboard f = on_dashboard LeFeatureUnavailable (\<lambda>sv. Some (f sv, sv))"

definition answering :: "('a \<Rightarrow> local_response) \<Rightarrow> 'a daemon_op \<Rightarrow> local_response daemon_op" where
  "answering f m = dm_then m (\<lambda>x s. Some (Ok (f x), s))"

section \<open>Building the state\<close>

definition daemon_new :: "daemon_snapshot \<Rightarrow> diagnostic_item list \<Rightarrow> daemon_state" where
  "daemon_new snapshot diagnostics =
     \<lparr>dm_registry_attached = False, dm_connection_storage = None, dm_snapshot = snapshot,
      dm_diagnostics = diagnostics, dm_autostart_adapter = False, dm_autostart_overridden = False,
      dm_dashboard_policy = None, dm_dashboard = None, dm_remote_execution = None, dm_generation = 0,
      dm_boundary = None, dm_timeout_ms = 30000, dm_inflight = [], dm_tokens = []\<rparr>"

definition new_with_autostart_adapter ::
    "daemon_snapshot \<Rightarrow> diagnostic_item list \<Rightarrow> daemon_state" where
  "new_with_autostart_adapter snapshot diagnostics =
     (daemon_new snapshot diagnostics)\<lparr>dm_autostart_adapter := True\<rparr>"

definition set_autostart_status :: "bool \<Rightarrow> daemon_state \<Rightarrow> daemon_state" where
  "set_autostart_status enabled s =
     (if dm_autostart_overridden s then s
      else s\<lparr>dm_snapshot := (dm_snapshot s)\<lparr>dsn_autostart := enabled\<rparr>\<rparr>)"

definition enable_dashboard_policy :: "host_id \<Rightarrow> policy_engine \<Rightarrow> daemon_state \<Rightarrow> daemon_state" where
  "enable_dashboard_policy host engine s =
     s\<lparr>dm_dashboard_policy := Some \<lparr>pt_local_host_id = host, pt_engine = engine\<rparr>\<rparr>"

definition enable_dashboard :: "dashboard_service \<Rightarrow> daemon_state \<Rightarrow> daemon_state" where
  "enable_dashboard service s = s\<lparr>dm_dashboard := Some service\<rparr>"

definition configure_connection_storage :: "string \<Rightarrow> unit daemon_op" where
  "configure_connection_storage identity s =
     (if \<not> is_absolute identity \<or> dm_connection_storage s \<noteq> None then Some (Err LeInvalidFrame, s)
      else Some (Ok (), s\<lparr>dm_connection_storage := Some identity\<rparr>))"

fun runtime_problem :: "runtime_state \<Rightarrow> (string \<times> string) option" where
  "runtime_problem RuntimeRunning = None"
| "runtime_problem RuntimeStopped = Some (''registry_listener_stopped'', ''The controller has stopped.'')"
| "runtime_problem (RuntimeFailed code) =
     Some (code, ''The controller failed. Restart the daemon after checking its logs.'')"

definition add_warning :: "string \<Rightarrow> daemon_snapshot \<Rightarrow> daemon_snapshot" where
  "add_warning code n =
     (if code \<in> set (dsn_warnings n) then n else n\<lparr>dsn_warnings := dsn_warnings n @ [code]\<rparr>)"

definition refresh_registry_status :: "daemon_env \<Rightarrow> daemon_state \<Rightarrow> daemon_state" where
  "refresh_registry_status env s =
     (if \<not> dm_registry_attached s then s
      else case runtime_problem (de_registry_state env) of
        None \<Rightarrow> s
      | Some (code, message) \<Rightarrow>
          (let kept = filter (\<lambda>d. dg_code d \<noteq> ''ready'') (dm_diagnostics s) in
           s\<lparr>dm_snapshot := add_warning code ((dm_snapshot s)\<lparr>dsn_connection := ConnDegraded\<rparr>),
             dm_diagnostics :=
               (if list_ex (\<lambda>d. dg_code d = code) kept then kept
                else kept @ [\<lparr>dg_code = code, dg_message = message, dg_healthy = False\<rparr>])\<rparr>))"

definition attach_registry_status :: "daemon_env \<Rightarrow> daemon_state \<Rightarrow> daemon_state" where
  "attach_registry_status env s = refresh_registry_status env (s\<lparr>dm_registry_attached := True\<rparr>)"

section \<open>The connection to a registry\<close>

definition with_connection :: "connection_state \<Rightarrow> daemon_state \<Rightarrow> daemon_state" where
  "with_connection c s = s\<lparr>dm_snapshot := (dm_snapshot s)\<lparr>dsn_connection := c\<rparr>\<rparr>"

definition invalidate_inventory_generation :: "daemon_state \<Rightarrow> daemon_state" where
  "invalidate_inventory_generation s =
     with_connection ConnConnecting
       (s\<lparr>dm_generation := dm_generation s + 1,
          dm_dashboard := map_option disconnect_inventory (dm_dashboard s)\<rparr>)"

definition enable_remote_execution :: "remote_execution_config \<Rightarrow> daemon_state \<Rightarrow> daemon_state" where
  "enable_remote_execution config s =
     (invalidate_inventory_generation s)
       \<lparr>dm_remote_execution := Some config, dm_boundary := Some True, dm_timeout_ms := 30000\<rparr>"

definition enable_remote_execution_with_boundary ::
    "remote_execution_config \<Rightarrow> bool \<Rightarrow> nat \<Rightarrow> daemon_state \<Rightarrow> daemon_state" where
  "enable_remote_execution_with_boundary config persistent timeout s =
     (invalidate_inventory_generation s)
       \<lparr>dm_remote_execution := Some config, dm_boundary := Some persistent,
        dm_timeout_ms := max timeout 1\<rparr>"

definition observed_target :: "connection_write \<Rightarrow> connection_config \<Rightarrow> bool" where
  "observed_target w target = (cw_after w = Inr (Some target))"

definition callback_result :: "connection_write \<Rightarrow> connection_config \<Rightarrow> service_error + unit" where
  "callback_result w target =
     (if is_ok (cw_saved w) \<and> observed_target w target then Ok () else Err SeConfigurationUnavailable)"

definition INVALID_CONNECTION :: string where "INVALID_CONNECTION = ''connection_configuration_invalid''"

definition reconcile_connection_write ::
    "connection_config \<Rightarrow> string \<Rightarrow> connection_write \<Rightarrow> daemon_state \<Rightarrow> daemon_state" where
  "reconcile_connection_write target identity w s =
     (if observed_target w target \<and> (is_ok (cw_saved w) \<or> cw_after w \<noteq> cw_before w)
      then
        (let t = enable_remote_execution
               \<lparr>rx_registry_address = cc_registry_address target,
                rx_registry_peer_id = cc_registry_peer_id target, rx_identity_path = identity,
                rx_client_id = dsn_public_identity (dm_snapshot s)\<rparr> s
         in t\<lparr>dm_snapshot := (dm_snapshot t)
               \<lparr>dsn_warnings := filter (\<lambda>x. x \<noteq> INVALID_CONNECTION) (dsn_warnings (dm_snapshot t))\<rparr>,
              dm_diagnostics := filter (\<lambda>d. dg_code d \<noteq> INVALID_CONNECTION) (dm_diagnostics t)\<rparr>)
      else if \<not> is_ok (cw_saved w) \<and> is_ok (cw_after w) \<and> cw_after w = cw_before w then s
      else
        (let t = (invalidate_inventory_generation s)\<lparr>dm_remote_execution := None, dm_boundary := None\<rparr>
         in t\<lparr>dm_snapshot := add_warning INVALID_CONNECTION
                ((dm_snapshot t)\<lparr>dsn_connection := ConnDegraded\<rparr>)\<rparr>))"

text \<open>The service calls back for the write once the change is authorized and its attempt audited.\<close>

definition connection_callback_runs ::
    "service_env \<Rightarrow> connection_config \<Rightarrow> u64 \<Rightarrow> dashboard_service \<Rightarrow> bool" where
  "connection_callback_runs env configuration now sv =
     (case sv_then (authorize_admin env ''devicelane.service.connection.set'' DeviceLaneService
                      (Some (mutation_digest env (ConnectionSet configuration))) now)
             (\<lambda>_. audit_local env ''connection-set'' AuditAttempted now) sv of
        Some (Inr _, _) \<Rightarrow> True
      | _ \<Rightarrow> False)"

definition set_connection :: "daemon_env \<Rightarrow> connection_config \<Rightarrow> u64 \<Rightarrow> local_response daemon_op" where
  "set_connection env configuration now s =
     (case dm_connection_storage s of
        None \<Rightarrow> Some (Err LeFeatureUnavailable, s)
      | Some identity \<Rightarrow>
     (case dm_dashboard s of
        None \<Rightarrow> Some (Err LeUnauthorized, s)
      | Some sv \<Rightarrow>
     (let w = de_write env identity configuration in
      case apply_connection_change (de_service env) configuration (callback_result w configuration) now sv of
        None \<Rightarrow> None
      | Some (r, sv1) \<Rightarrow>
          (let s1 = s\<lparr>dm_dashboard := Some sv1\<rparr>;
               s2 = (if connection_callback_runs (de_service env) configuration now sv
                     then reconcile_connection_write configuration identity w s1 else s1)
           in case r of
                Inl e \<Rightarrow> Some (Err (map_dashboard_error e), s2)
              | Inr _ \<Rightarrow> Some (Ok RpAcknowledged, s2)))))"

definition observe_job_controller ::
    "daemon_env \<Rightarrow> nat \<Rightarrow> string \<Rightarrow> daemon_state \<Rightarrow> ((remote_failure + unit) \<times> daemon_state) option" where
  "observe_job_controller env generation peer s =
     (if generation \<noteq> dm_generation s then Some (Ok (), s)
      else case dm_dashboard s of
        None \<Rightarrow> Some (Err RfAuditUnavailable, s)
      | Some sv \<Rightarrow>
          (case observe_authenticated_controller peer (now_ms env) sv of
             None \<Rightarrow> None
           | Some (Inl e, sv1) \<Rightarrow>
               Some (Err (map_transition_failure (map_dashboard_error e)), s\<lparr>dm_dashboard := Some sv1\<rparr>)
           | Some (Inr _, sv1) \<Rightarrow>
               Some (Ok (), with_connection ConnConnected (s\<lparr>dm_dashboard := Some sv1\<rparr>))))"

section \<open>Preparing a remote execution\<close>

definition install_operation :: "string \<Rightarrow> apple_operation" where
  "install_operation app_path = InstallApp app_path"

text \<open>What the approval must say about the operation that is asked for.\<close>

definition execution_permitted ::
    "host_id \<Rightarrow> activity_event \<Rightarrow> remote_operation_grant \<Rightarrow> bool" where
  "execution_permitted session_host e g =
     (ae_state e = Queued \<and> az_effect (ae_authorization e) = Allow
      \<and> ae_target_host_id e = session_host \<and> ae_device_id e \<noteq> None
      \<and> ae_operation e = ''apple.install_app''
      \<and> WorkspaceRead \<in> set (ae_resources e) \<and> DeviceLease \<in> set (ae_resources e)
      \<and> ApplicationInstall \<in> set (ae_resources e)
      \<and> ae_remote_operation_sha256 e = Some (og_canonical_sha256 g))"

definition prepare_remote_execution ::
    "daemon_env \<Rightarrow> activity_id \<Rightarrow> string \<Rightarrow> string \<Rightarrow> string \<Rightarrow> host_id \<Rightarrow> daemon_state
     \<Rightarrow> (local_error + execution_job) \<times> daemon_state" where
  "prepare_remote_execution env i workspace_path request_id app_path session_host s =
     (if \<not> valid_remote_component workspace_path \<or> \<not> valid_remote_component app_path
         \<or> \<not> valid_remote_identifier request_id
      then (Err LeInvalidFrame, s)
      else case dm_remote_execution s of
        None \<Rightarrow> (Err LeFeatureUnavailable, s)
      | Some config \<Rightarrow>
     (case dm_dashboard s of
        None \<Rightarrow> (Err LeFeatureUnavailable, s)
      | Some sv \<Rightarrow>
     (case hm_get (ds_activities sv) i of
        None \<Rightarrow> (Err LePermissionDenied, s)
      | Some e \<Rightarrow>
     (case remote_grant_new (sv_policy (de_service env)) request_id workspace_path (ae_device_id e)
             (install_operation app_path) of
        Inl _ \<Rightarrow> (Err LePermissionDenied, s)
      | Inr g \<Rightarrow>
          if \<not> execution_permitted session_host e g then (Err LePermissionDenied, s)
          else if hm_has (dm_inflight s) i then (Err LeRevisionConflict, s)
          else
            (let token = length (dm_tokens s);
                 s1 = s\<lparr>dm_inflight := hm_insert i token (dm_inflight s),
                        dm_tokens := dm_tokens s @ [False]\<rparr>
             in case dm_boundary s of
                  None \<Rightarrow> (Err LeFeatureUnavailable, s1)
                | Some persistent \<Rightarrow>
                    (Ok \<lparr>xj_generation = dm_generation s, xj_config = config,
                         xj_persistent = persistent, xj_timeout_ms = dm_timeout_ms s, xj_activity = e,
                         xj_workspace_path = workspace_path, xj_request_id = request_id,
                         xj_app_path = app_path, xj_token = token\<rparr>, s1))))))"

section \<open>Requests anyone on the connection may make\<close>

definition local_policy_host_id :: "daemon_state \<Rightarrow> host_id option" where
  "local_policy_host_id s =
     (case dm_dashboard s of
        Some sv \<Rightarrow> Some (ds_local_host_id sv)
      | None \<Rightarrow> map_option pt_local_host_id (dm_dashboard_policy s))"

definition set_paused :: "bool \<Rightarrow> daemon_state \<Rightarrow> daemon_state" where
  "set_paused b s = s\<lparr>dm_snapshot := (dm_snapshot s)\<lparr>dsn_remote_access_paused := b\<rparr>\<rparr>"

definition resume_remote_access :: "daemon_env \<Rightarrow> local_response daemon_op" where
  "resume_remote_access env s =
     (case dm_dashboard s of
        None \<Rightarrow> Some (Ok RpAcknowledged, set_paused False s)
      | Some _ \<Rightarrow>
          (case de_now env of
             None \<Rightarrow> Some (Err LeIo, s)
           | Some now \<Rightarrow>
               dm_then (on_dashboard LeFeatureUnavailable (resume (de_service env) now))
                 (\<lambda>_ s1. Some (Ok RpAcknowledged, set_paused False s1)) s))"

definition set_autostart :: "daemon_env \<Rightarrow> bool \<Rightarrow> local_response daemon_op" where
  "set_autostart env enabled s =
     (case (if dm_autostart_adapter s then de_autostart env enabled else Ok ()) of
        Inl e \<Rightarrow> Some (Err e, s)
      | Inr _ \<Rightarrow> Some (Ok RpAcknowledged,
          s\<lparr>dm_autostart_overridden := True,
            dm_snapshot := (dm_snapshot s)\<lparr>dsn_autostart := enabled\<rparr>\<rparr>))"

fun handle_plain :: "daemon_env \<Rightarrow> local_request \<Rightarrow> local_response daemon_op" where
  "handle_plain env (RqStatus _) s = Some (Ok (RpSnapshot (dm_snapshot s)), s)"
| "handle_plain env (RqConnectionSettings _) s =
     Some (Ok (RpConnectionSettings (map_option rx_registry_address (dm_remote_execution s))
             (map_option rx_registry_peer_id (dm_remote_execution s))
             (dsn_connection (dm_snapshot s))), s)"
| "handle_plain env (RqPauseRemoteAccess _) s = Some (Ok RpAcknowledged, set_paused True s)"
| "handle_plain env (RqResumeRemoteAccess _) s = resume_remote_access env s"
| "handle_plain env (RqSetAutostart _ enabled) s = set_autostart env enabled s"
| "handle_plain env (RqDiagnostics _) s = Some (Ok (RpDiagnostics (dm_diagnostics s)), s)"
| "handle_plain env _ s = Some (Err LeUnauthorized, s)"

definition handle_local :: "daemon_env \<Rightarrow> local_request \<Rightarrow> local_response daemon_op" where
  "handle_local env r s =
     (case validate_local_request r of
        Inl e \<Rightarrow> Some (Err e, s)
      | Inr _ \<Rightarrow> handle_plain env r (refresh_registry_status env s))"

section \<open>Requests of the authorized session\<close>

definition target_online :: "access_request \<Rightarrow> response \<Rightarrow> bool" where
  "target_online q r =
     (rs_accepted r \<and> list_ex (\<lambda>h. hs_id h = rq_target_host_id q \<and> hs_status h = ''online''
        \<and> is_none_or (\<lambda>d. list_ex (\<lambda>x. ds_id x = d \<and> ds_state x = ''connected'') (hs_devices h))
            (rq_device_id q)) (rs_hosts r))"

text \<open>Whether the registry shows the target online; without a connection it is offline.\<close>

definition target_seen :: "daemon_env \<Rightarrow> access_request \<Rightarrow> daemon_state \<Rightarrow> bool" where
  "target_seen env q s =
     (case (dm_remote_execution s, dm_boundary s, de_list env) of
        (Some _, Some _, Inr r) \<Rightarrow> target_online q r
      | _ \<Rightarrow> False)"

definition refuse_offline :: "daemon_env \<Rightarrow> access_request \<Rightarrow> u64 \<Rightarrow> 'a daemon_op" where
  "refuse_offline env q now =
     dm_then (on_dashboard LeFeatureUnavailable (record_preapproval_target_offline (de_service env) q now))
       (\<lambda>_ s. Some (Err LeTargetOffline, s))"

definition created_response :: "string \<times> u64 \<Rightarrow> local_response" where
  "created_response c = RpApprovalCreated (fst c) (snd c)"

definition ask_policy_engine ::
    "daemon_env \<Rightarrow> host_id \<Rightarrow> access_request \<Rightarrow> u64 \<Rightarrow> u64 \<Rightarrow> local_response daemon_op" where
  "ask_policy_engine env session_host q lifetime now s =
     (case dm_dashboard_policy s of
        None \<Rightarrow> Some (Err LeUnauthorized, s)
      | Some p \<Rightarrow>
          if session_host \<noteq> pt_local_host_id p \<or> rq_target_host_id q \<noteq> pt_local_host_id p
          then Some (Err LeUnauthorized, s)
          else case create_approval (sv_policy (de_service env)) (de_random env) q now lifetime (pt_engine p) of
            None \<Rightarrow> None
          | Some (Inl _, g) \<Rightarrow> Some (Err LeUnauthorized, s\<lparr>dm_dashboard_policy := Some (p\<lparr>pt_engine := g\<rparr>)\<rparr>)
          | Some (Inr ch, g) \<Rightarrow>
              Some (Ok (RpApprovalCreated (ch_nonce ch) (ch_expires_at_ms ch)),
                    s\<lparr>dm_dashboard_policy := Some (p\<lparr>pt_engine := g\<rparr>)\<rparr>))"

definition daemon_request_approval ::
    "daemon_env \<Rightarrow> host_id \<Rightarrow> access_request \<Rightarrow> u64 \<Rightarrow> u64 \<Rightarrow> local_response daemon_op" where
  "daemon_request_approval env session_host q lifetime now s =
     (let remote = WorkspaceRead \<in> set (rq_resources q) \<and> DeviceLease \<in> set (rq_resources q);
          mesh = (case dm_remote_execution s of None \<Rightarrow> False
                  | Some config \<Rightarrow> de_identity_files env (rx_identity_path config))
      in if remote \<and> mesh
            \<and> is_some_and (\<lambda>sv. rq_source_host_id q \<noteq> ds_local_host_id sv) (dm_dashboard s)
         then Some (Err LeMeshIdentityMismatch, s)
         else if remote \<and> \<not> target_seen env q s then refuse_offline env q now s
         else case dm_dashboard s of
           Some sv \<Rightarrow>
             if session_host \<noteq> ds_local_host_id sv \<or> rq_target_host_id q \<noteq> ds_local_host_id sv
             then Some (Err LeUnauthorized, s)
             else answering created_response (on_dashboard LeFeatureUnavailable
                    (request_approval (de_service env) (de_random env) q lifetime now)) s
         | None \<Rightarrow> ask_policy_engine env session_host q lifetime now s)"

definition authenticated_approval ::
    "daemon_env \<Rightarrow> host_id \<Rightarrow> mesh_approval_assertion \<Rightarrow> u64 \<Rightarrow> u64 \<Rightarrow> local_response daemon_op" where
  "authenticated_approval env session_host assertion lifetime now s =
     (case dm_remote_execution s of
        None \<Rightarrow> Some (Err LeMeshIdentityMismatch, s)
      | Some config \<Rightarrow>
     (case de_load_transport env (rx_identity_path config) (rx_client_id config) of
        None \<Rightarrow> Some (Err LeMeshIdentityMismatch, s)
      | Some verifier \<Rightarrow>
     (case dm_dashboard s of
        None \<Rightarrow> Some (Err LeFeatureUnavailable, s)
      | Some sv \<Rightarrow>
     (case fst (verify_mesh_approval (de_crypto env) (de_session env) assertion
                  (rx_registry_peer_id config) (ds_local_host_id sv) now verifier) of
        Inl _ \<Rightarrow> Some (Err LeMeshIdentityMismatch, s)
      | Inr q \<Rightarrow>
          if session_host \<noteq> ds_local_host_id sv then Some (Err LeMeshIdentityMismatch, s)
          else if \<not> target_seen env q s then refuse_offline env q now s
          else answering created_response (on_dashboard LeFeatureUnavailable
                 (request_approval (de_service env) (de_random env) q lifetime now)) s))))"

definition decide_with_engine ::
    "daemon_env \<Rightarrow> host_id \<Rightarrow> string \<Rightarrow> access_request \<Rightarrow> approval_decision \<Rightarrow> u64
     \<Rightarrow> local_response daemon_op" where
  "decide_with_engine env session_host nonce q d now s =
     (case dm_dashboard_policy s of
        None \<Rightarrow> Some (Err LeUnauthorized, s)
      | Some p \<Rightarrow>
          if session_host \<noteq> pt_local_host_id p \<or> rq_target_host_id q \<noteq> pt_local_host_id p
          then Some (Err LeUnauthorized, s)
          else case decide (sv_policy (de_service env)) nonce session_host q d now (pt_engine p) of
            None \<Rightarrow> None
          | Some (Inl _, g) \<Rightarrow> Some (Err LeUnauthorized, s\<lparr>dm_dashboard_policy := Some (p\<lparr>pt_engine := g\<rparr>)\<rparr>)
          | Some (Inr out, g) \<Rightarrow>
              Some (Ok (RpApprovalDecided (ao_decision out) (ao_created_rule out)),
                    s\<lparr>dm_dashboard_policy := Some (p\<lparr>pt_engine := g\<rparr>)\<rparr>))"

text \<open>A cancelled activity raises the flag of its execution, when one is in flight.\<close>

definition raise_token :: "activity_id \<Rightarrow> daemon_state \<Rightarrow> daemon_state" where
  "raise_token i s =
     (case hm_get (dm_inflight s) i of
        None \<Rightarrow> s
      | Some t \<Rightarrow> s\<lparr>dm_tokens := (dm_tokens s)[t := True]\<rparr>)"

definition daemon_cancel_activity :: "daemon_env \<Rightarrow> activity_id \<Rightarrow> u64 \<Rightarrow> local_response daemon_op" where
  "daemon_cancel_activity env i now =
     dm_then (on_dashboard LeFeatureUnavailable (cancel_activity (de_service env) i now))
       (\<lambda>cancelled s. Some (Ok (RpCancellation cancelled), if cancelled then raise_token i s else s))"

definition activity_events_of ::
    "u64 \<Rightarrow> dashboard_scope \<Rightarrow> event_cursor \<Rightarrow> nat \<Rightarrow> event_read service_op" where
  "activity_events_of now scope cursor limit sv =
     (case events_in_scope now scope cursor limit sv of (r, sv1) \<Rightarrow> Some (Ok r, sv1))"

definition snapshot_of :: "dashboard_scope \<Rightarrow> u64 \<Rightarrow> dashboard_snapshot service_op" where
  "snapshot_of scope now sv =
     (case service_snapshot scope now sv of None \<Rightarrow> None | Some n \<Rightarrow> Some (Ok n, sv))"

text \<open>
  The requests of an authorized session at the time \<open>now\<close>. Starting an execution has its own path in
  the dispatch; what is left goes through \<open>handle\<close>.
\<close>

fun handle_session ::
    "daemon_env \<Rightarrow> host_id \<Rightarrow> u64 \<Rightarrow> local_request \<Rightarrow> local_response daemon_op" where
  "handle_session env h now (RqSetConnection _ configuration) s = set_connection env configuration now s"
| "handle_session env h now (RqRequestApproval _ q lifetime) s =
     daemon_request_approval env h q lifetime now s"
| "handle_session env h now (RqRequestAuthenticatedApproval _ assertion lifetime) s =
     authenticated_approval env h assertion lifetime now s"
| "handle_session env h now (RqRequestAdminMutationApproval _ mutation lifetime) s =
     answering created_response (on_dashboard LeFeatureUnavailable
       (request_admin_mutation_approval (de_service env) (de_random env) mutation lifetime now)) s"
| "handle_session env h now (RqDecideApproval _ nonce q d) s =
     (if dm_dashboard s \<noteq> None
      then answering (RpApprovalDecided d)
             (on_dashboard LeUnauthorized (decide_approval (de_service env) nonce h q d now)) s
      else decide_with_engine env h nonce q d now s)"
| "handle_session env h now (RqDecidePendingApproval _ i d) s =
     answering (RpApprovalDecided d)
       (on_dashboard LeFeatureUnavailable (decide_pending_approval (de_service env) i h d now)) s"
| "handle_session env h now (RqDashboardSnapshot _ scope) s =
     answering RpDashboardSnapshot (on_dashboard LeFeatureUnavailable (snapshot_of scope now)) s"
| "handle_session env h now (RqActivityEvents _ scope cursor limit) s =
     answering RpActivityEvents
       (on_dashboard LeFeatureUnavailable (activity_events_of (now_ms env) scope cursor limit)) s"
| "handle_session env h now (RqAcknowledgeEvents _ subscriber cursor) s =
     answering (\<lambda>_. RpAcknowledged)
       (on_dashboard LeFeatureUnavailable (service_acknowledge subscriber cursor now)) s"
| "handle_session env h now (RqPendingApprovals _) s =
     answering RpPendingApprovals (reading_dashboard (\<lambda>sv. Ok (service_pending_approvals now sv))) s"
| "handle_session env h now (RqPendingApprovalForNotification _ i) s =
     answering RpPendingApprovalForNotification
       (reading_dashboard (pending_approval_for_notification i now)) s"
| "handle_session env h now (RqPolicyRules _) s =
     answering RpPolicyRules (reading_dashboard (\<lambda>sv. Ok (pg_rules (ds_policy sv)))) s"
| "handle_session env h now (RqPutPolicyRule _ r) s =
     answering (\<lambda>_. RpAcknowledged)
       (on_dashboard LeFeatureUnavailable (put_policy_rule (de_service env) r now)) s"
| "handle_session env h now (RqDeletePolicyRule _ i) s =
     answering RpRuleDeleted
       (on_dashboard LeFeatureUnavailable (delete_policy_rule (de_service env) i now)) s"
| "handle_session env h now (RqDeletePolicyRuleIfRevision _ i expected) s =
     answering RpRuleDeleted
       (on_dashboard LeFeatureUnavailable (delete_policy_rule_if_revision (de_service env) i expected now)) s"
| "handle_session env h now (RqAuditQuery _ f cursor limit) s =
     answering RpAuditRecords (reading_dashboard (service_audit_query (de_service env) f cursor limit)) s"
| "handle_session env h now (RqAuditExport _ f) s =
     answering RpAuditExport (reading_dashboard (service_audit_export (de_service env) f None)) s"
| "handle_session env h now (RqAuditExportManifest _ f) s =
     answering RpAuditExportManifest
       (reading_dashboard (service_audit_export_manifest (de_service env) f None)) s"
| "handle_session env h now (RqAuditDelete _ scope f) s =
     answering RpAuditDeleted
       (on_dashboard LeFeatureUnavailable (delete_audit_exact (de_service env) scope f now)) s"
| "handle_session env h now (RqCancelActivity _ i) s = daemon_cancel_activity env i now s"
| "handle_session env h now (RqPauseRemoteAccessWithJobs _ existing) s =
     dm_then (on_dashboard LeFeatureUnavailable (pause (de_service env) existing now))
       (\<lambda>_ s1. Some (Ok RpAcknowledged, set_paused True s1)) s"
| "handle_session env h now (RqStartRemoteExecution _ _ _ _ _) s = Some (Err LeFeatureUnavailable, s)"
| "handle_session env h now r s = handle_local env r s"

definition handle_authorized :: "daemon_env \<Rightarrow> host_id \<Rightarrow> local_request \<Rightarrow> local_response daemon_op" where
  "handle_authorized env h r s =
     (case validate_local_request r of
        Inl e \<Rightarrow> Some (Err e, s)
      | Inr _ \<Rightarrow>
          (let s1 = refresh_registry_status env s in
           case de_now env of
             None \<Rightarrow> Some (Err LeIo, s1)
           | Some now \<Rightarrow> handle_session env h now r s1))"

section \<open>Watching the inventory\<close>

text \<open>
  One round of the observer: it takes the configuration and the generation under the lock, asks the
  registry without it, and applies the answer only while the generation is still the current one.
  \<open>None\<close> of the first step ends the observer, when the daemon is gone.
\<close>

datatype poll_start = PollIdle | PollAsk remote_execution_config nat

definition poll_begin :: "daemon_state \<Rightarrow> poll_start" where
  "poll_begin s =
     (case dm_remote_execution s of None \<Rightarrow> PollIdle | Some config \<Rightarrow> PollAsk config (dm_generation s))"

definition poll_inventory ::
    "remote_execution_config \<Rightarrow> u64 \<Rightarrow> remote_failure + response \<Rightarrow> dashboard_service option
     \<Rightarrow> (bool \<times> dashboard_service option) option" where
  "poll_inventory config now result dashboard =
     (case dashboard of
        None \<Rightarrow> Some (False, None)
      | Some sv \<Rightarrow>
          (case result of
             Inr r \<Rightarrow>
               if rs_accepted r
               then (case observe_authenticated_inventory (rx_registry_peer_id config) now (rs_hosts r) sv of
                       None \<Rightarrow> None
                     | Some (x, sv1) \<Rightarrow> Some (is_ok x, Some sv1))
               else Some (False, Some sv)
           | Inl _ \<Rightarrow> Some (False, Some sv)))"

definition poll_finish ::
    "remote_execution_config \<Rightarrow> nat \<Rightarrow> u64 \<Rightarrow> remote_failure + response \<Rightarrow> daemon_state
     \<Rightarrow> daemon_state option" where
  "poll_finish config generation now result s =
     (if generation \<noteq> dm_generation s then Some s
      else case poll_inventory config now result (dm_dashboard s) of
        None \<Rightarrow> None
      | Some (connected, dashboard) \<Rightarrow>
          Some (with_connection (if connected then ConnConnected else ConnDisconnected)
            (s\<lparr>dm_dashboard := (if connected then dashboard else map_option disconnect_inventory dashboard)\<rparr>)))"

section \<open>One connection\<close>

text \<open>The state behind its lock.\<close>

record daemon_cell =
  dc_state :: daemon_state
  dc_poisoned :: bool

definition cell_op :: "'a daemon_op \<Rightarrow> daemon_cell \<Rightarrow> (local_error + 'a) option \<times> daemon_cell" where
  "cell_op op c =
     (case op (dc_state c) of
        None \<Rightarrow> (None, c\<lparr>dc_poisoned := True\<rparr>)
      | Some (r, s) \<Rightarrow> (Some r, c\<lparr>dc_state := s\<rparr>))"

definition answer_of :: "local_error + local_response \<Rightarrow> local_response" where
  "answer_of r = (case r of Inl e \<Rightarrow> local_error_response e | Inr x \<Rightarrow> x)"

definition internal_error :: local_response where
  "internal_error = RpError ''internal_error'' ''daemon state unavailable''"

definition needs_session :: "local_request \<Rightarrow> bool" where
  "needs_session r =
     (case r of
        RqStatus _ \<Rightarrow> False | RqConnectionSettings _ \<Rightarrow> False | RqPauseRemoteAccess _ \<Rightarrow> False
      | RqResumeRemoteAccess _ \<Rightarrow> False | RqSetAutostart _ _ \<Rightarrow> False | RqDiagnostics _ \<Rightarrow> False
      | _ \<Rightarrow> True)"

definition serve_request :: "daemon_env \<Rightarrow> local_request \<Rightarrow> local_response daemon_op" where
  "serve_request env r s =
     (if needs_session r
      then case local_policy_host_id s of
             None \<Rightarrow> Some (Err LeUnauthorized, s)
           | Some h \<Rightarrow> handle_authorized env h r s
      else handle_local env r s)"

definition start_execution ::
    "daemon_env \<Rightarrow> activity_id \<Rightarrow> string \<Rightarrow> string \<Rightarrow> string \<Rightarrow> execution_job daemon_op" where
  "start_execution env i workspace request app s =
     (case local_policy_host_id s of
        None \<Rightarrow> Some (Err LeUnauthorized, s)
      | Some h \<Rightarrow> Some (prepare_remote_execution env i workspace request app h s))"

text \<open>
  The answer before the bound, the state and the execution that a worker thread takes over. No answer:
  the thread panicked.
\<close>

definition dispatch ::
    "daemon_env \<Rightarrow> expected_user \<Rightarrow> peer_credentials \<Rightarrow> local_error + local_request \<Rightarrow> daemon_cell
     \<Rightarrow> local_response option \<times> daemon_cell \<times> execution_job option" where
  "dispatch env user peer request c =
     (if \<not> same_user_authorizes user peer
      then (Some (RpError ''unauthorized'' ''local IPC peer is not authorized''), c, None)
      else case request of
        Inl e \<Rightarrow> (Some (local_error_response e), c, None)
      | Inr r \<Rightarrow>
          if dc_poisoned c then (Some internal_error, c, None)
          else case r of
            RqStartRemoteExecution _ i workspace req app \<Rightarrow>
              (case cell_op (start_execution env i workspace req app) c of
                 (None, c1) \<Rightarrow> (None, c1, None)
               | (Some (Inl e), c1) \<Rightarrow> (Some (local_error_response e), c1, None)
               | (Some (Inr job), c1) \<Rightarrow> (Some (RpExecutionStarted i), c1, Some job))
          | _ \<Rightarrow> (case cell_op (serve_request env r) c of
                     (x, c1) \<Rightarrow> (map_option answer_of x, c1, None)))"

definition dispatch_connection ::
    "daemon_env \<Rightarrow> expected_user \<Rightarrow> peer_credentials \<Rightarrow> local_error + local_request \<Rightarrow> daemon_cell
     \<Rightarrow> string option \<times> daemon_cell \<times> execution_job option" where
  "dispatch_connection env user peer request c =
     (if \<not> de_writer_ready env then (None, c, None)
      else case dispatch env user peer request c of
        (answer, c1, job) \<Rightarrow>
          (case answer of
             None \<Rightarrow> (None, c1, job)
           | Some r \<Rightarrow>
               (case write_frame (de_response_json env) (enforce_response_bound (de_response_json env) r) of
                  Inl _ \<Rightarrow> (None, c1, job)
                | Inr bytes \<Rightarrow> (Some bytes, c1, job))))"

end
