(* ===== verification/RemoteExecution.thy ===== *)
theory RemoteExecution
  imports Daemon
begin

text \<open>
  The worker that carries out an approved remote execution (\<open>local_ipc.rs\<close>: \<open>execute_remote_job\<close>,
  \<open>run_remote_job\<close> and the guard that cleans up behind it), as a machine whose steps are the pieces
  between two uses of the daemon's lock or of the network, and the daemon with its workers and its
  inventory observer, in which requests and the steps of the workers interleave.
\<close>

section \<open>Transitions of the activity\<close>

definition transition_execution ::
    "daemon_env \<Rightarrow> activity_id \<Rightarrow> activity_state \<Rightarrow> message_code \<Rightarrow> bool daemon_op" where
  "transition_execution env i state message =
     on_dashboard LeFeatureUnavailable
       (transition_activity (de_service env) i state unavailable_metrics (Some (plain_message message))
          (now_ms env))"

text \<open>What an operation under the lock comes to: a panic, an error, or its result.\<close>

definition locked :: "'a daemon_op \<Rightarrow> daemon_cell \<Rightarrow> (local_error + 'a) option \<times> daemon_cell" where
  "locked op c = (if dc_poisoned c then (Some (Err LeIo), c) else cell_op op c)"

section \<open>The machine\<close>

datatype execution_end = EndedWell | EndedWith remote_failure | EndedByPanic

record poll_state =
  px_lease :: string
  px_job_id :: string
  px_after :: u64
  px_reconnecting :: bool
  px_last_failure :: remote_failure

datatype exec_phase =
    ExAcquire
  | ExGranted string
  | ExObserve string
  | ExRun string
  | ExAccepted string string
  | ExStart string string
  | ExPoll poll_state
  | ExAwait poll_state
  | ExAnswer poll_state "remote_failure + response"
  | ExEvents poll_state response
  | ExCleanup string "string option" execution_end
  | ExRelease string execution_end
  | ExFailed remote_failure
  | ExInspect remote_failure
  | ExReconnect remote_failure activity_event
  | ExFail remote_failure activity_event
  | ExRemove
  | ExDone

text \<open>What a worker has asked the registry, the lease and the job it was given, and the end of that job.\<close>

datatype exec_note =
    Asked registry_request
  | Leased string
  | Started string
  | Finished string

text \<open>
  One step's surroundings: those of the daemon, the registry's answer (for a poll: whether it is there
  yet), and whether the deadline of the execution has passed.
\<close>

record exec_env =
  xe_daemon :: daemon_env
  xe_answer :: "remote_failure + response"
  xe_answered :: bool
  xe_deadline :: bool

definition cancelled :: "execution_job \<Rightarrow> daemon_cell \<Rightarrow> bool" where
  "cancelled job c =
     (xj_token job < length (dm_tokens (dc_state c)) \<and> dm_tokens (dc_state c) ! xj_token job)"

definition apple_request_of :: "execution_job \<Rightarrow> string \<Rightarrow> apple_request" where
  "apple_request_of job l =
     \<lparr>ar_version = \<lparr>rv_major = 1, rv_minor = 0\<rparr>, ar_request_id = xj_request_id job,
      ar_idempotency_key = xj_request_id job, ar_capability = ''apple.simulator@1'',
      ar_workspace_path = xj_workspace_path job, ar_device_id = ae_device_id (xj_activity job),
      ar_lease_id = Some l, ar_operation = install_operation (xj_app_path job)\<rparr>"

definition acquire_failure :: "remote_failure \<Rightarrow> remote_failure" where
  "acquire_failure f = (if f = RfRegistryDisconnected then RfTargetOffline else f)"

definition dispatched_job :: "response \<Rightarrow> remote_failure + string" where
  "dispatched_job r =
     (if rs_accepted r
      then (case rs_job_id r of None \<Rightarrow> Err RfAgentIncompatible | Some j \<Rightarrow> Ok j)
      else if rs_error r = None then Err RfAgentIncompatible
      else Err (classify_remote_rejection (rs_error r)))"

definition polled_after :: "u64 \<Rightarrow> network_event list \<Rightarrow> u64" where
  "polled_after after events = fold max (map ne_sequence events) after"

definition terminal_event :: "network_event list \<Rightarrow> network_event option" where
  "terminal_event events =
     List.find (\<lambda>e. ne_kind e = ''completed'' \<or> ne_kind e = ''rejected'' \<or> ne_kind e = ''cancelled'')
       (rev events)"

definition terminal_outcome :: "network_event \<Rightarrow> activity_state \<times> message_code" where
  "terminal_outcome e =
     (if ne_kind e = ''completed'' then (Succeeded, OperationSucceeded)
      else if ne_kind e = ''cancelled'' then (Failed, OperationCancelled)
      else (Failed, failure_message_code (classify_remote_rejection (Some (ne_payload e)))))"

text \<open>After a transition: on success go on, on an error or a panic clean up.\<close>

definition after_transition ::
    "(local_error + bool) option \<Rightarrow> string \<Rightarrow> string option \<Rightarrow> exec_phase \<Rightarrow> exec_phase" where
  "after_transition r l dispatched next_phase =
     (case r of
        None \<Rightarrow> ExCleanup l dispatched EndedByPanic
      | Some (Inl e) \<Rightarrow> ExCleanup l dispatched (EndedWith (map_transition_failure e))
      | Some (Inr _) \<Rightarrow> next_phase)"

definition moving ::
    "exec_env \<Rightarrow> execution_job \<Rightarrow> activity_state \<Rightarrow> message_code \<Rightarrow> daemon_cell
     \<Rightarrow> (local_error + bool) option \<times> daemon_cell" where
  "moving env job state message =
     locked (transition_execution (xe_daemon env) (ae_activity_id (xj_activity job)) state message)"

definition acquire_step :: "exec_env \<Rightarrow> execution_job \<Rightarrow> exec_note list \<times> exec_phase" where
  "acquire_step env job =
     (case ae_device_id (xj_activity job) of
        None \<Rightarrow> ([], ExFailed RfPolicyDenied)
      | Some d \<Rightarrow>
          (case xe_answer env of
             Inl f \<Rightarrow> ([Asked (LeaseOperation (Acquire d 30000))], ExFailed (acquire_failure f))
           | Inr r \<Rightarrow>
               (case rs_lease_grant r of
                  None \<Rightarrow> ([Asked (LeaseOperation (Acquire d 30000))],
                           ExFailed (classify_remote_rejection (rs_error r)))
                | Some g \<Rightarrow> ([Asked (LeaseOperation (Acquire d 30000)), Leased (lg_lease_id g)],
                             ExGranted (lg_lease_id g)))))"

definition observe_step :: "exec_env \<Rightarrow> execution_job \<Rightarrow> string \<Rightarrow> daemon_cell \<Rightarrow> exec_phase \<times> daemon_cell" where
  "observe_step env job l c =
     (if dc_poisoned c then (ExCleanup l None (EndedWith RfAuditUnavailable), c)
      else case observe_job_controller (xe_daemon env) (xj_generation job)
             (rx_registry_peer_id (xj_config job)) (dc_state c) of
        None \<Rightarrow> (ExCleanup l None EndedByPanic, c\<lparr>dc_poisoned := True\<rparr>)
      | Some (Inl f, s) \<Rightarrow> (ExCleanup l None (EndedWith f), c\<lparr>dc_state := s\<rparr>)
      | Some (Inr _, s) \<Rightarrow> (ExRun l, c\<lparr>dc_state := s\<rparr>))"

definition run_step :: "exec_env \<Rightarrow> execution_job \<Rightarrow> string \<Rightarrow> exec_note list \<times> exec_phase" where
  "run_step env job l =
     (let asked = Asked (AppleRunRequest (apple_request_of job l)) in
      case xe_answer env of
        Inl f \<Rightarrow> ([asked], ExCleanup l None (EndedWith f))
      | Inr r \<Rightarrow>
          (case dispatched_job r of
             Inl f \<Rightarrow> ([asked], ExCleanup l None (EndedWith f))
           | Inr j \<Rightarrow> ([asked, Started j], ExAccepted l j)))"

definition poll_step :: "exec_env \<Rightarrow> execution_job \<Rightarrow> poll_state \<Rightarrow> daemon_cell \<Rightarrow> exec_note list \<times> exec_phase" where
  "poll_step env job p c =
     (if xe_deadline env
      then ([], ExCleanup (px_lease p) (Some (px_job_id p)) (EndedWith (px_last_failure p)))
      else if xj_persistent job \<and> cancelled job c
      then ([], ExCleanup (px_lease p) (Some (px_job_id p)) (EndedWith RfCancelled))
      else ([Asked (EventsRequest (px_job_id p) (px_after p))], ExAwait p))"

text \<open>
  Waiting for a poll: a session that is kept blocks until the answer is there and looks at the flag
  then; otherwise the flag is looked at every 20 ms while another thread waits.
\<close>

definition await_step :: "exec_env \<Rightarrow> execution_job \<Rightarrow> poll_state \<Rightarrow> daemon_cell \<Rightarrow> exec_phase" where
  "await_step env job p c =
     (if xj_persistent job \<and> \<not> xe_answered env then ExAwait p
      else if cancelled job c
      then ExCleanup (px_lease p) (Some (px_job_id p)) (EndedWith RfCancelled)
      else if xe_answered env then ExAnswer p (xe_answer env) else ExAwait p)"

definition answer_step ::
    "exec_env \<Rightarrow> execution_job \<Rightarrow> poll_state \<Rightarrow> remote_failure + response \<Rightarrow> daemon_cell
     \<Rightarrow> exec_phase \<times> daemon_cell" where
  "answer_step env job p answer c =
     (let l = px_lease p; d = Some (px_job_id p) in
      case answer of
        Inr r \<Rightarrow>
          if \<not> rs_accepted r
          then (ExCleanup l d (EndedWith (classify_remote_rejection (rs_error r))), c)
          else if px_reconnecting p
          then (case moving env job Running ActivityStarted c of
                  (x, c1) \<Rightarrow> (after_transition x l d (ExEvents (p\<lparr>px_reconnecting := False\<rparr>) r), c1))
          else (ExEvents p r, c)
      | Inl f \<Rightarrow>
          if f = RfCancelled then (ExCleanup l d (EndedWith RfCancelled), c)
          else if \<not> px_reconnecting p
          then (case moving env job Reconnecting RegistryStale c of
                  (x, c1) \<Rightarrow> (after_transition x l d
                     (ExPoll (p\<lparr>px_reconnecting := True, px_last_failure := f\<rparr>)), c1))
          else (ExPoll (p\<lparr>px_last_failure := f\<rparr>), c))"

definition events_step ::
    "exec_env \<Rightarrow> execution_job \<Rightarrow> poll_state \<Rightarrow> response \<Rightarrow> daemon_cell
     \<Rightarrow> exec_note list \<times> exec_phase \<times> daemon_cell" where
  "events_step env job p r c =
     (case terminal_event (rs_events r) of
        None \<Rightarrow> ([], ExPoll (p\<lparr>px_after := polled_after (px_after p) (rs_events r)\<rparr>), c)
      | Some e \<Rightarrow>
          (case moving env job (fst (terminal_outcome e)) (snd (terminal_outcome e)) c of
             (Some (Inr x), c1) \<Rightarrow>
               ([Finished (px_job_id p)], ExCleanup (px_lease p) None EndedWell, c1)
           | (x, c1) \<Rightarrow> ([], after_transition x (px_lease p) (Some (px_job_id p)) ExRemove, c1)))"

definition record_terminal :: "exec_env \<Rightarrow> execution_job \<Rightarrow> bool daemon_op" where
  "record_terminal env job =
     on_dashboard LeFeatureUnavailable
       (record_audit_unavailable_terminal (de_service (xe_daemon env)) (ae_activity_id (xj_activity job))
          unavailable_metrics (now_ms (xe_daemon env)))"

text \<open>An ignored result: only a panic ends the thread.\<close>

definition unless_panic ::
    "(local_error + bool) option \<times> daemon_cell \<Rightarrow> exec_phase \<Rightarrow> exec_phase \<times> daemon_cell" where
  "unless_panic x phase = (case x of (None, c) \<Rightarrow> (ExDone, c) | (Some _, c) \<Rightarrow> (phase, c))"

definition current_activity :: "execution_job \<Rightarrow> daemon_cell \<Rightarrow> activity_event option" where
  "current_activity job c =
     (if dc_poisoned c then None
      else case dm_dashboard (dc_state c) of
        None \<Rightarrow> None
      | Some sv \<Rightarrow> hm_get (ds_activities sv) (ae_activity_id (xj_activity job)))"

definition inspect_step :: "execution_job \<Rightarrow> remote_failure \<Rightarrow> daemon_cell \<Rightarrow> exec_phase" where
  "inspect_step job f c =
     (case current_activity job c of
        None \<Rightarrow> ExRemove
      | Some e \<Rightarrow>
          if ae_state e = Queued then ExReconnect f e
          else if closed_state (ae_state e) then ExRemove
          else ExFail f e)"

definition forget_execution :: "execution_job \<Rightarrow> daemon_cell \<Rightarrow> daemon_cell" where
  "forget_execution job c =
     (if dc_poisoned c then c
      else c\<lparr>dc_state := (dc_state c)
        \<lparr>dm_inflight := hm_remove (ae_activity_id (xj_activity job)) (dm_inflight (dc_state c))\<rparr>\<rparr>)"

fun exec_step ::
    "exec_env \<Rightarrow> execution_job \<Rightarrow> exec_phase \<Rightarrow> daemon_cell \<Rightarrow> exec_note list \<times> exec_phase \<times> daemon_cell" where
  "exec_step env job ExAcquire c = (case acquire_step env job of (n, p) \<Rightarrow> (n, p, c))"
| "exec_step env job (ExGranted l) c =
     ([], if cancelled job c then ExCleanup l None (EndedWith RfCancelled) else ExObserve l, c)"
| "exec_step env job (ExObserve l) c = ([], observe_step env job l c)"
| "exec_step env job (ExRun l) c = (case run_step env job l of (n, p) \<Rightarrow> (n, p, c))"
| "exec_step env job (ExAccepted l j) c =
     ([], if cancelled job c then ExCleanup l (Some j) (EndedWith RfCancelled) else ExStart l j, c)"
| "exec_step env job (ExStart l j) c =
     (case moving env job Running ActivityStarted c of
        (x, c1) \<Rightarrow> ([], after_transition x l (Some j)
          (ExPoll \<lparr>px_lease = l, px_job_id = j, px_after = 0, px_reconnecting = False,
                   px_last_failure = RfRegistryDisconnected\<rparr>), c1))"
| "exec_step env job (ExPoll p) c = (case poll_step env job p c of (n, ph) \<Rightarrow> (n, ph, c))"
| "exec_step env job (ExAwait p) c = ([], await_step env job p c, c)"
| "exec_step env job (ExAnswer p answer) c = ([], answer_step env job p answer c)"
| "exec_step env job (ExEvents p r) c = events_step env job p r c"
| "exec_step env job (ExCleanup l d e) c =
     (case d of None \<Rightarrow> [] | Some j \<Rightarrow> [Asked (AppleCancelRequest j)], ExRelease l e, c)"
| "exec_step env job (ExRelease l e) c =
     ([Asked (LeaseOperation (Release l))],
      case e of EndedWell \<Rightarrow> ExRemove | EndedWith f \<Rightarrow> ExFailed f | EndedByPanic \<Rightarrow> ExDone, c)"
| "exec_step env job (ExFailed f) c =
     ([], if f = RfAuditUnavailable then unless_panic (locked (record_terminal env job) c) (ExInspect f)
          else (ExInspect f, c))"
| "exec_step env job (ExInspect f) c = ([], inspect_step job f c, c)"
| "exec_step env job (ExReconnect f e) c =
     ([], unless_panic (moving env job Reconnecting (failure_message_code f) c) (ExFail f e))"
| "exec_step env job (ExFail f e) c =
     ([], unless_panic (moving env job Failed (failure_message_code f) c) ExRemove)"
| "exec_step env job ExRemove c = ([], ExDone, forget_execution job c)"
| "exec_step env job ExDone c = ([], ExDone, c)"

section \<open>The daemon with its workers\<close>

record worker =
  wk_job :: execution_job
  wk_phase :: exec_phase
  wk_log :: "exec_note list"

record daemon_world =
  dw_cell :: daemon_cell
  dw_workers :: "worker list"
  dw_poll :: "(remote_execution_config \<times> nat) option"

datatype world_action =
    Dispatch daemon_env peer_credentials "local_error + local_request"
  | Work exec_env nat
  | PollBegin
  | PollEnd u64 "remote_failure + response"
  | Reconfigure remote_execution_config bool nat
  | AutostartProbe bool

definition hire :: "execution_job option \<Rightarrow> worker list \<Rightarrow> worker list" where
  "hire job ws =
     (case job of
        None \<Rightarrow> ws
      | Some j \<Rightarrow> ws @ [\<lparr>wk_job = j, wk_phase = ExAcquire, wk_log = []\<rparr>])"

definition work_step :: "exec_env \<Rightarrow> nat \<Rightarrow> daemon_world \<Rightarrow> daemon_world" where
  "work_step env n w =
     (if n < length (dw_workers w)
      then (let k = dw_workers w ! n in
            case exec_step env (wk_job k) (wk_phase k) (dw_cell w) of (notes, p, c) \<Rightarrow>
              w\<lparr>dw_cell := c,
                dw_workers := (dw_workers w)[n := k\<lparr>wk_phase := p, wk_log := wk_log k @ notes\<rparr>]\<rparr>)
      else w)"

definition poll_end :: "u64 \<Rightarrow> remote_failure + response \<Rightarrow> daemon_world \<Rightarrow> daemon_world" where
  "poll_end now result w =
     (case dw_poll w of
        None \<Rightarrow> w
      | Some (config, generation) \<Rightarrow>
          if dc_poisoned (dw_cell w) then w\<lparr>dw_poll := None\<rparr>
          else (case poll_finish config generation now result (dc_state (dw_cell w)) of
                  None \<Rightarrow> w\<lparr>dw_poll := None, dw_cell := (dw_cell w)\<lparr>dc_poisoned := True\<rparr>\<rparr>
                | Some s \<Rightarrow> w\<lparr>dw_poll := None, dw_cell := (dw_cell w)\<lparr>dc_state := s\<rparr>\<rparr>))"

definition on_state :: "(daemon_state \<Rightarrow> daemon_state) \<Rightarrow> daemon_world \<Rightarrow> daemon_world" where
  "on_state f w =
     (if dc_poisoned (dw_cell w) then w
      else w\<lparr>dw_cell := (dw_cell w)\<lparr>dc_state := f (dc_state (dw_cell w))\<rparr>\<rparr>)"

fun world_step :: "expected_user \<Rightarrow> world_action \<Rightarrow> daemon_world \<Rightarrow> daemon_world" where
  "world_step user (Dispatch env peer request) w =
     (case dispatch_connection env user peer request (dw_cell w) of
        (_, c, job) \<Rightarrow> w\<lparr>dw_cell := c, dw_workers := hire job (dw_workers w)\<rparr>)"
| "world_step user (Work env n) w = work_step env n w"
| "world_step user PollBegin w =
     (if dw_poll w \<noteq> None \<or> dc_poisoned (dw_cell w) then w
      else case poll_begin (dc_state (dw_cell w)) of
        PollIdle \<Rightarrow> w
      | PollAsk config generation \<Rightarrow> w\<lparr>dw_poll := Some (config, generation)\<rparr>)"
| "world_step user (PollEnd now result) w = poll_end now result w"
| "world_step user (Reconfigure config persistent timeout) w =
     on_state (enable_remote_execution_with_boundary config persistent timeout) w"
| "world_step user (AutostartProbe enabled) w = on_state (set_autostart_status enabled) w"

definition world_run :: "expected_user \<Rightarrow> world_action list \<Rightarrow> daemon_world \<Rightarrow> daemon_world" where
  "world_run user acts w = fold (world_step user) acts w"

definition new_world :: "daemon_state \<Rightarrow> daemon_world" where
  "new_world s =
     \<lparr>dw_cell = \<lparr>dc_state = s, dc_poisoned = False\<rparr>, dw_workers = [], dw_poll = None\<rparr>"

end
