(* ===== verification/DaemonFrame.thy ===== *)
theory DaemonFrame
  imports RemoteExecution
begin

text \<open>
  The daemon changes its dashboard only through the operations of the service, so a relation that every
  call of the service keeps is kept by every request, every worker and the inventory observer. Stated
  once as an interface; the relations of the service theories are its instances.
\<close>

section \<open>The interface\<close>

definition tokens_grow :: "bool list \<Rightarrow> bool list \<Rightarrow> bool" where
  "tokens_grow as bs = list_all2 (\<lambda>a b. a \<longrightarrow> b) as bs"

lemma tokens_grow_refl [simp]: "tokens_grow as as"
  by (simp add: tokens_grow_def list.rel_refl)

lemma tokens_grow_trans: "tokens_grow as bs \<Longrightarrow> tokens_grow bs cs \<Longrightarrow> tokens_grow as cs"
  unfolding tokens_grow_def by (rule list_all2_trans) auto

definition daemon_frame ::
    "(dashboard_service \<Rightarrow> dashboard_service \<Rightarrow> bool) \<Rightarrow> daemon_state \<Rightarrow> daemon_state \<Rightarrow> bool" where
  "daemon_frame R s t \<longleftrightarrow>
     rel_option R (dm_dashboard s) (dm_dashboard t) \<and> dm_inflight t = dm_inflight s
     \<and> tokens_grow (dm_tokens s) (dm_tokens t)"

definition dwithin ::
    "(dashboard_service \<Rightarrow> dashboard_service \<Rightarrow> bool) \<Rightarrow> 'a daemon_op \<Rightarrow> bool" where
  "dwithin R op \<longleftrightarrow> (\<forall>s r t. op s = Some (r, t) \<longrightarrow> daemon_frame R s t)"

lemma dwithinD: "dwithin R op \<Longrightarrow> op s = Some (r, t) \<Longrightarrow> daemon_frame R s t"
  by (simp add: dwithin_def)

lemma within_of_outcome: "within R (outcome_of m) \<Longrightarrow> within R m"
  by (fastforce simp: within_def outcome_of_def)

text \<open>What preparing an execution changes: a flag is made and entered, or nothing happens.\<close>

definition entered :: "activity_id \<Rightarrow> daemon_state \<Rightarrow> daemon_state" where
  "entered i s =
     s\<lparr>dm_inflight := hm_insert i (length (dm_tokens s)) (dm_inflight s), dm_tokens := dm_tokens s @ [False]\<rparr>"

lemma prepare_effect:
  "prepare_remote_execution env i workspace req app h s = (r, t) \<Longrightarrow>
   t = s \<and> \<not> is_ok r \<or> \<not> hm_has (dm_inflight s) i \<and> t = entered i s"
  by (auto simp: prepare_remote_execution_def entered_def Let_def split: if_splits option.splits sum.splits)

lemma start_effect:
  "start_execution env i workspace req app s = Some (r, t) \<Longrightarrow>
   t = s \<and> \<not> is_ok r \<or> \<not> hm_has (dm_inflight s) i \<and> t = entered i s"
  by (auto simp: start_execution_def dest: prepare_effect split: option.splits)

locale service_law = service_frame +
  assumes performs: "within R (service_perform env call)"
begin

lemma call_within:
  assumes "service_perform env call = outcome_of m" shows "within R m"
  by (rule within_of_outcome) (use performs [of env call] assms in simp)

lemma service_calls:
  "within R (request_approval env random q lifetime now)"
  "within R (request_admin_mutation_approval env random mutation lifetime now)"
  "within R (decide_approval env nonce h q d now)"
  "within R (decide_pending_approval env i h d now)"
  "within R (put_policy_rule env rule now)"
  "within R (delete_policy_rule env i now)"
  "within R (delete_policy_rule_if_revision env i expected now)"
  "within R (delete_audit_exact env scope f now)"
  "within R (apply_connection_change env configuration persist now)"
  "within R (transition_activity env i state metrics message now)"
  "within R (record_audit_unavailable_terminal env i metrics now)"
  "within R (cancel_activity env i now)"
  "within R (pause env existing now)"
  "within R (resume env now)"
  "within R (record_preapproval_target_offline env q now)"
  "within R (observe_authenticated_controller peer now)"
  "within R (observe_authenticated_inventory peer now hosts)"
  "within R (service_acknowledge i cursor now)"
  by (rule call_within, rule service_perform.simps)+

lemma disconnects: "R sv (disconnect_inventory sv)"
  using withinD [OF performs [of _ CallDisconnect]] by simp

lemma reads_events: "within R (activity_events_of now scope cursor limit)"
proof -
  have "R sv (snd (events_in_scope now scope cursor limit sv))" for sv
    using withinD [OF performs [of _ "CallEvents now scope cursor limit"]] by simp
  then show ?thesis
    by (auto simp: within_def activity_events_of_def split: prod.splits) (metis snd_conv)
qed

lemma reads_snapshot: "within R (snapshot_of scope now)"
  by (auto simp: within_def snapshot_of_def stay split: option.splits)

section \<open>Steps of the daemon\<close>

lemma dstay: "daemon_frame R s s"
  by (simp add: daemon_frame_def option.rel_refl stay)

lemma dchain: "daemon_frame R s t \<Longrightarrow> daemon_frame R t u \<Longrightarrow> daemon_frame R s u"
  by (auto simp: daemon_frame_def option_rel_Some1 option_rel_Some2
      elim!: option.rel_cases intro: chain tokens_grow_trans)

lemma same_service:
  "dm_dashboard t = dm_dashboard s \<Longrightarrow> dm_inflight t = dm_inflight s \<Longrightarrow> dm_tokens t = dm_tokens s \<Longrightarrow>
   daemon_frame R s t"
  by (simp add: daemon_frame_def option.rel_refl stay)

lemma dthen: "dwithin R m \<Longrightarrow> (\<And>x. dwithin R (f x)) \<Longrightarrow> dwithin R (dm_then m f)"
  unfolding dwithin_def dm_then_def
  by (auto split: option.splits prod.splits sum.splits) (meson dchain)+

lemma don: "within R m \<Longrightarrow> dwithin R (on_dashboard missing m)"
  by (auto simp: dwithin_def on_dashboard_def daemon_frame_def option.rel_refl stay dest: withinD
      split: option.splits prod.splits sum.splits)

lemma dreading: "dwithin R (reading_dashboard f)"
  unfolding reading_dashboard_def by (rule don) (simp add: within_def stay)

lemma danswer: "dwithin R m \<Longrightarrow> dwithin R (answering f m)"
  unfolding answering_def by (rule dthen) (auto simp: dwithin_def dstay)

lemma drefresh: "daemon_frame R s (refresh_registry_status env s)"
  by (rule same_service) (auto simp: refresh_registry_status_def Let_def split: option.splits)

lemma dinvalidate: "daemon_frame R s (invalidate_inventory_generation s)"
  by (cases "dm_dashboard s")
    (simp_all add: daemon_frame_def invalidate_inventory_generation_def with_connection_def disconnects)

lemma dreconcile: "daemon_frame R s (reconcile_connection_write target identity w s)"
proof -
  have "daemon_frame R s t"
    if "dm_dashboard t = dm_dashboard (invalidate_inventory_generation s)"
      "dm_inflight t = dm_inflight (invalidate_inventory_generation s)"
      "dm_tokens t = dm_tokens (invalidate_inventory_generation s)" for t
    by (rule dchain [OF dinvalidate same_service [OF that]])
  then show ?thesis
    by (simp add: reconcile_connection_write_def enable_remote_execution_def Let_def dstay)
qed

lemma dset_connection: "dwithin R (set_connection env configuration now)"
proof -
  have "daemon_frame R s t" if op: "set_connection env configuration now s = Some (r, t)" for s r t
  proof (cases "dm_connection_storage s = None \<or> dm_dashboard s = None")
    case True
    with op show ?thesis by (auto simp: set_connection_def dstay split: option.splits)
  next
    case False
    then obtain identity sv where s: "dm_connection_storage s = Some identity" "dm_dashboard s = Some sv" by auto
    then obtain x sv1 where
      x: "apply_connection_change (de_service env) configuration
            (callback_result (de_write env identity configuration) configuration) now sv = Some (x, sv1)"
      and t: "t = (if connection_callback_runs (de_service env) configuration now sv
          then reconcile_connection_write configuration identity (de_write env identity configuration)
                 (s\<lparr>dm_dashboard := Some sv1\<rparr>)
          else s\<lparr>dm_dashboard := Some sv1\<rparr>)"
      using op by (auto simp: set_connection_def Let_def split: option.splits sum.splits prod.splits)
    have "daemon_frame R s (s\<lparr>dm_dashboard := Some sv1\<rparr>)"
      using withinD [OF service_calls(9) x] s(2) by (simp add: daemon_frame_def)
    then show ?thesis unfolding t using dreconcile dchain by presburger
  qed
  then show ?thesis by (simp add: dwithin_def)
qed

lemma dpure:
  "(\<And>s r t. op s = Some (r, t) \<Longrightarrow>
      dm_dashboard t = dm_dashboard s \<and> dm_inflight t = dm_inflight s \<and> dm_tokens t = dm_tokens s) \<Longrightarrow>
   dwithin R op"
  unfolding dwithin_def by (meson same_service)

lemma dresume: "dwithin R (resume_remote_access env)"
proof -
  have "dwithin R (dm_then (on_dashboard LeFeatureUnavailable (resume (de_service env) now))
      (\<lambda>_ s1. Some (Ok RpAcknowledged, set_paused False s1)))" for now
    by (intro dthen don service_calls dpure) (auto simp: set_paused_def)
  then show ?thesis
    unfolding dwithin_def resume_remote_access_def
    by (auto simp: dstay set_paused_def intro: same_service split: option.splits)
qed

lemma dplain: "dwithin R (handle_plain env r)"
proof -
  have "dwithin R (set_autostart env enabled)" for enabled
    by (rule dpure) (auto simp: set_autostart_def split: sum.splits if_splits)
  then show ?thesis
    using dwithinD [OF dresume]
    by (cases r) (auto simp: dwithin_def set_paused_def dstay intro!: same_service)
qed

lemma dlocal: "dwithin R (handle_local env r)"
  unfolding dwithin_def handle_local_def
  by (auto simp: dstay split: sum.splits intro: dchain [OF drefresh dwithinD [OF dplain]])

lemma doffline: "dwithin R (refuse_offline env q now)"
  unfolding refuse_offline_def by (intro dthen don service_calls dpure) auto

lemma dengines:
  "dwithin R (ask_policy_engine env h q lifetime now)" "dwithin R (decide_with_engine env h nonce q d now)"
  by (rule dpure, auto simp: ask_policy_engine_def decide_with_engine_def
      split: option.splits prod.splits sum.splits if_splits)+

lemma dif: "(b \<Longrightarrow> dwithin R m) \<Longrightarrow> (\<not> b \<Longrightarrow> dwithin R n) \<Longrightarrow> dwithin R (\<lambda>s. if b then m s else n s)"
  by (cases b) simp_all

lemma dpointwise: "(\<And>s. \<exists>m. dwithin R m \<and> op s = m s) \<Longrightarrow> dwithin R op"
  unfolding dwithin_def by metis

lemma drefuse: "dwithin R (\<lambda>s. Some (Inl e, s))"
  by (simp add: dwithin_def dstay)

lemma dapproval: "dwithin R (daemon_request_approval env h q lifetime now)"
proof (rule dpointwise)
  fix s
  let ?created = "answering created_response (on_dashboard LeFeatureUnavailable
     (request_approval (de_service env) (de_random env) q lifetime now))"
  have ok: "dwithin R ?created" by (intro danswer don service_calls)
  show "\<exists>m. dwithin R m \<and> daemon_request_approval env h q lifetime now s = m s"
    using ok drefuse doffline dengines(1)
    by (auto simp: daemon_request_approval_def Let_def split: option.split) blast+
qed

lemma dauthenticated: "dwithin R (authenticated_approval env h assertion lifetime now)"
proof (rule dpointwise)
  fix s
  have ok: "dwithin R (answering created_response (on_dashboard LeFeatureUnavailable
     (request_approval (de_service env) (de_random env) q lifetime now)))" for q
    by (intro danswer don service_calls)
  show "\<exists>m. dwithin R m \<and> authenticated_approval env h assertion lifetime now s = m s"
    using ok drefuse doffline
    by (auto simp: authenticated_approval_def split: option.split sum.split) blast+
qed

lemma draise: "daemon_frame R s (raise_token i s)"
proof -
  have "ts[t := True] ! k" if "k < length ts" "ts ! k" for ts t k
    using that by (cases "t = k") simp_all
  then have "tokens_grow ts (ts[t := True])" for ts t
    by (simp add: tokens_grow_def list_all2_conv_all_nth)
  then show ?thesis
    by (auto simp: daemon_frame_def raise_token_def option.rel_refl stay split: option.splits)
qed

lemma dcancel: "dwithin R (daemon_cancel_activity env i now)"
  unfolding daemon_cancel_activity_def
  by (intro dthen don service_calls) (auto simp: dwithin_def dstay draise)

lemma dsession: "dwithin R (handle_session env h now r)"
proof (rule dpointwise)
  fix s
  have pausing: "dwithin R (dm_then (on_dashboard LeFeatureUnavailable (pause (de_service env) existing now))
      (\<lambda>_ s1. Some (Ok RpAcknowledged, set_paused True s1)))" for existing
    by (intro dthen don service_calls dpure) (auto simp: set_paused_def)
  have deciding: "dwithin R (answering (RpApprovalDecided d)
      (on_dashboard missing (decide_approval (de_service env) nonce h q d now)))" for d nonce q missing
    by (intro danswer don service_calls)
  note simple = danswer [OF don] danswer [OF dreading]
  show "\<exists>m. dwithin R m \<and> handle_session env h now r s = m s"
    by (cases r; simp only: handle_session.simps split: if_split;
        blast intro: simple service_calls reads_events reads_snapshot dset_connection dapproval dauthenticated
          dengines dcancel pausing deciding drefuse dlocal)
qed

lemma dauthorized: "dwithin R (handle_authorized env h r)"
  unfolding dwithin_def handle_authorized_def Let_def
  by (auto simp: dstay drefresh split: sum.splits option.splits intro: dchain [OF drefresh dwithinD [OF dsession]])

lemma dserve: "dwithin R (serve_request env r)"
  using dwithinD [OF dauthorized] dwithinD [OF dlocal]
  by (auto simp: dwithin_def serve_request_def dstay split: option.splits if_splits)

lemma dtransition: "dwithin R (transition_execution env i state message)"
  unfolding transition_execution_def by (intro don service_calls)

lemma drecord: "dwithin R (record_terminal env job)"
  unfolding record_terminal_def by (intro don service_calls)

lemma dobserve:
  "observe_job_controller env generation peer s = Some (r, t) \<Longrightarrow> daemon_frame R s t"
  by (auto simp: observe_job_controller_def daemon_frame_def with_connection_def option.rel_refl stay
      dest: withinD [OF service_calls(16)] split: if_splits option.splits prod.splits sum.splits)

lemma dpoll_inventory:
  assumes "poll_inventory config now result d = Some (connected, d1)"
  shows "rel_option R d d1 \<and> rel_option R d (map_option disconnect_inventory d1)"
proof -
  have "rel_option R d d1"
    using assms
    by (cases d)
      (auto simp: poll_inventory_def stay dest: withinD [OF service_calls(17)]
        split: sum.splits if_splits option.splits)
  moreover from this have "rel_option R d (map_option disconnect_inventory d1)"
    by (cases d; cases d1) (auto intro: chain [OF _ disconnects])
  ultimately show ?thesis ..
qed

lemma dpoll: "poll_finish config generation now result s = Some t \<Longrightarrow> daemon_frame R s t"
  using dpoll_inventory
  by (auto simp: poll_finish_def daemon_frame_def with_connection_def option.rel_refl stay
      split: if_splits option.splits)

section \<open>Steps of the cell\<close>

definition cell_frame :: "daemon_cell \<Rightarrow> daemon_cell \<Rightarrow> bool" where
  "cell_frame c d = daemon_frame R (dc_state c) (dc_state d)"

lemma cell_stay: "cell_frame c c" and cell_poison: "cell_frame c (c\<lparr>dc_poisoned := b\<rparr>)"
  by (simp_all add: cell_frame_def dstay)

lemma cell_op_frame: "dwithin R op \<Longrightarrow> cell_op op c = (x, d) \<Longrightarrow> cell_frame c d"
  by (auto simp: cell_op_def cell_frame_def dstay dest: dwithinD split: option.splits)

lemma locked_frame: "dwithin R op \<Longrightarrow> locked op c = (x, d) \<Longrightarrow> cell_frame c d"
  by (auto simp: locked_def cell_stay dest: cell_op_frame split: if_splits)

lemma moving_frame: "moving env job state message c = (x, d) \<Longrightarrow> cell_frame c d"
  unfolding moving_def by (rule locked_frame [OF dtransition])

lemma observe_step_frame: "observe_step env job l c = (q, d) \<Longrightarrow> cell_frame c d"
  by (auto simp: observe_step_def cell_stay cell_poison cell_frame_def dstay dest: dobserve
      split: if_splits option.splits prod.splits sum.splits)

lemma answer_step_frame: "answer_step env job p a c = (q, d) \<Longrightarrow> cell_frame c d"
  by (auto simp: answer_step_def Let_def cell_stay dest: moving_frame
      split: sum.splits prod.splits if_splits)

lemma events_step_frame: "events_step env job p r c = (n, q, d) \<Longrightarrow> cell_frame c d"
  by (auto simp: events_step_def cell_stay dest: moving_frame split: option.splits sum.splits prod.splits)

lemma unless_panic_cell: "snd (unless_panic x q) = snd x"
  by (auto simp: unless_panic_def split: prod.splits option.splits)

lemma exec_step_frame:
  assumes "exec_step env job p c = (notes, q, d)" and "p \<noteq> ExRemove"
  shows "cell_frame c d"
proof (cases p)
  case (ExFailed f)
  then show ?thesis
    using assms unless_panic_cell [of "locked (record_terminal env job) c" "ExInspect f"]
    by (cases "locked (record_terminal env job) c")
      (auto simp: cell_stay dest: locked_frame [OF drecord] split: if_splits)
next
  case (ExReconnect f e)
  then show ?thesis
    using assms unless_panic_cell [of "moving env job Reconnecting (failure_message_code f) c" "ExFail f e"]
    by (cases "moving env job Reconnecting (failure_message_code f) c") (auto dest: moving_frame)
next
  case (ExFail f e)
  then show ?thesis
    using assms unless_panic_cell [of "moving env job Failed (failure_message_code f) c" ExRemove]
    by (cases "moving env job Failed (failure_message_code f) c") (auto dest: moving_frame)
qed (use assms in \<open>auto simp: cell_stay dest: moving_frame observe_step_frame answer_step_frame events_step_frame
    split: prod.splits\<close>)

lemma started_cell:
  "cell_op (start_execution env i workspace req app) c = (x, d) \<Longrightarrow>
   d = c \<and> (\<forall>j. x \<noteq> Some (Inr j))
   \<or> \<not> hm_has (dm_inflight (dc_state c)) i \<and> d = c\<lparr>dc_state := entered i (dc_state c)\<rparr>"
  by (cases "start_execution env i workspace req app (dc_state c)")
    (auto simp: cell_op_def start_execution_def dest: prepare_effect split: option.splits prod.splits)

lemma dispatch_inner_frame:
  assumes "dispatch env user peer request c = (answer, d, job)"
  shows "job = None \<and> cell_frame c d
    \<or> (\<exists>i. \<not> hm_has (dm_inflight (dc_state c)) i \<and> d = c\<lparr>dc_state := entered i (dc_state c)\<rparr>)"
proof (cases "\<not> same_user_authorizes user peer \<or> dc_poisoned c \<or> (\<exists>e. request = Inl e)")
  case True
  then show ?thesis using assms by (auto simp: dispatch_def cell_stay split: if_splits sum.splits)
next
  case False
  then obtain r where r: "request = Inr r" "same_user_authorizes user peer" "\<not> dc_poisoned c"
    by (cases request) auto
  show ?thesis
  proof (cases "\<exists>v i workspace req app. r = RqStartRemoteExecution v i workspace req app")
    case True
    then obtain v i workspace req app where start: "r = RqStartRemoteExecution v i workspace req app" by blast
    obtain x c1 where x: "cell_op (start_execution env i workspace req app) c = (x, c1)" by fastforce
    have "c1 = d \<and> (job = None \<or> (\<exists>j. x = Some (Inr j)))"
      using assms r start x by (auto simp: dispatch_def split: option.splits sum.splits)
    then show ?thesis using started_cell [OF x] cell_stay by blast
  next
    case False
    obtain x c1 where x: "cell_op (serve_request env r) c = (x, c1)" by fastforce
    have "c1 = d \<and> job = None"
      using assms r False x by (auto simp: dispatch_def split: local_request.splits)
    then show ?thesis using cell_op_frame [OF dserve x] by blast
  qed
qed

lemma dispatch_frame:
  assumes "dispatch_connection env user peer request c = (b, d, job)"
  shows "job = None \<and> cell_frame c d
    \<or> (\<exists>i. \<not> hm_has (dm_inflight (dc_state c)) i \<and> d = c\<lparr>dc_state := entered i (dc_state c)\<rparr>)"
proof (cases "de_writer_ready env")
  case True
  obtain answer c1 k where d: "dispatch env user peer request c = (answer, c1, k)" by (metis prod_cases3)
  then have "c1 = d \<and> k = job"
    using assms True by (auto simp: dispatch_connection_def split: option.splits sum.splits)
  with dispatch_inner_frame [OF d] show ?thesis by blast
qed (use assms in \<open>simp add: dispatch_connection_def cell_stay\<close>)

definition dashboard_frame :: "daemon_world \<Rightarrow> daemon_world \<Rightarrow> bool" where
  "dashboard_frame w v =
     rel_option R (dm_dashboard (dc_state (dw_cell w))) (dm_dashboard (dc_state (dw_cell v)))"

lemma frame_dashboard: "cell_frame (dw_cell w) (dw_cell v) \<Longrightarrow> dashboard_frame w v"
  by (simp add: dashboard_frame_def cell_frame_def daemon_frame_def)

lemma world_step_frame: "dashboard_frame w (world_step user a w)"
proof (cases a)
  case (Dispatch env peer request)
  then show ?thesis
    using dispatch_frame [of env user peer request "dw_cell w"]
    by (cases "dispatch_connection env user peer request (dw_cell w)")
      (fastforce simp: dashboard_frame_def entered_def cell_frame_def daemon_frame_def option.rel_refl stay)
next
  case (Work env n)
  show ?thesis
  proof (cases "n < length (dw_workers w)")
    case True
    let ?k = "dw_workers w ! n"
    obtain ns p d where st: "exec_step env (wk_job ?k) (wk_phase ?k) (dw_cell w) = (ns, p, d)"
      by (metis prod_cases3)
    show ?thesis
    proof (cases "wk_phase ?k = ExRemove")
      case True
      then show ?thesis
        using st \<open>n < length (dw_workers w)\<close> Work
        by (auto simp: work_step_def dashboard_frame_def forget_execution_def option.rel_refl stay)
    next
      case False
      then show ?thesis
        using exec_step_frame [OF st] True Work st by (auto simp: work_step_def Let_def intro!: frame_dashboard)
    qed
  next
    case False
    then show ?thesis using Work by (simp add: work_step_def dashboard_frame_def option.rel_refl stay)
  qed
next
  case (PollEnd now result)
  then show ?thesis
    by (auto simp: poll_end_def dashboard_frame_def option.rel_refl stay
        dest!: dpoll [unfolded daemon_frame_def] split: option.splits)
next
  case (Reconfigure config persistent timeout)
  then show ?thesis
    using dinvalidate [of "dc_state (dw_cell w)"]
    by (simp add: on_state_def dashboard_frame_def daemon_frame_def option.rel_refl stay
        enable_remote_execution_with_boundary_def)
qed (simp_all add: dashboard_frame_def option.rel_refl stay on_state_def set_autostart_status_def
    split: poll_start.split)

lemma world_run_frame: "dashboard_frame w (world_run user acts w)"
proof (induction acts arbitrary: w)
  case Nil
  then show ?case by (simp add: world_run_def dashboard_frame_def option.rel_refl stay)
next
  case (Cons a acts)
  have "world_run user (a # acts) w = world_run user acts (world_step user a w)"
    by (simp add: world_run_def)
  then show ?case
    using world_step_frame [of w user a] Cons.IH [of "world_step user a w"]
    by (auto simp: dashboard_frame_def elim!: option.rel_cases intro: chain)
qed

end

end
