(* ===== verification/DaemonSafety.thy ===== *)
theory DaemonSafety
  imports DaemonFrame ServiceSample
begin

text \<open>
  What holds of the daemon with its workers in every interleaving: an execution does only what its
  approval names, a lease that a worker got is given back, an activity has at most one worker, and a
  worker whose deadline has passed ends after a bounded number of its own steps. The first two are
  properties of each worker on its own, stated through an interface that the machine implements.
\<close>

section \<open>Properties of single workers\<close>

text \<open>
  \<open>P\<close> holds of every worker that a dispatch may start under an environment in \<open>A\<close> and survives each of
  its steps; then it holds of all workers of a run.
\<close>

definition fresh_worker :: "execution_job \<Rightarrow> worker" where
  "fresh_worker j = \<lparr>wk_job = j, wk_phase = ExAcquire, wk_log = []\<rparr>"

definition stepped :: "exec_env \<Rightarrow> worker \<Rightarrow> daemon_cell \<Rightarrow> worker" where
  "stepped env k c =
     (case exec_step env (wk_job k) (wk_phase k) c of
        (notes, p, _) \<Rightarrow> k\<lparr>wk_phase := p, wk_log := wk_log k @ notes\<rparr>)"

fun dispatches_within :: "(daemon_env \<Rightarrow> bool) \<Rightarrow> world_action \<Rightarrow> bool" where
  "dispatches_within A (Dispatch env _ _) = A env"
| "dispatches_within A _ = True"

lemma dispatches_within_True: "dispatches_within (\<lambda>_. True) a"
  by (cases a) auto

locale worker_property =
  fixes A :: "daemon_env \<Rightarrow> bool" and P :: "worker \<Rightarrow> bool"
  assumes started: "A env \<Longrightarrow> dispatch_connection env user peer request c = (b, c1, Some j) \<Longrightarrow> P (fresh_worker j)"
    and kept: "P k \<Longrightarrow> P (stepped xe k c)"
begin

lemma work_keeps: "list_all P (dw_workers w) \<Longrightarrow> list_all P (dw_workers (work_step env n w))"
  using kept [of "dw_workers w ! n" env "dw_cell w"]
  by (auto simp: work_step_def stepped_def list_all_iff Let_def dest!: set_update_subset_insert [THEN subsetD]
      split: prod.splits)

lemma step_keeps:
  assumes "dispatches_within A a" and "list_all P (dw_workers w)"
  shows "list_all P (dw_workers (world_step user a w))"
proof (cases a)
  case (Dispatch env peer request)
  with assms started [of env user peer request "dw_cell w"] show ?thesis
    by (auto simp: hire_def fresh_worker_def split: prod.splits option.splits)
next
  case (Work env n)
  then show ?thesis using work_keeps assms(2) by simp
qed (use assms(2) in \<open>auto simp: poll_end_def on_state_def split: option.splits poll_start.splits\<close>)

lemma run_keeps:
  "list_all (dispatches_within A) acts \<Longrightarrow> list_all P (dw_workers w) \<Longrightarrow>
   list_all P (dw_workers (world_run user acts w))"
  unfolding world_run_def by (induction acts arbitrary: w) (auto intro: step_keeps)

lemma from_start:
  "list_all (dispatches_within A) acts \<Longrightarrow> k \<in> set (dw_workers (world_run user acts (new_world s))) \<Longrightarrow> P k"
  using run_keeps [of acts "new_world s" user] by (auto simp: new_world_def list_all_iff)

end

section \<open>Who may start an execution\<close>

lemma prepared_job:
  assumes "prepare_remote_execution env i workspace req app h s = (Inr j, s1)"
  shows "\<exists>sv e g config. dm_dashboard s = Some sv \<and> hm_get (ds_activities sv) i = Some e
    \<and> remote_grant_new (sv_policy (de_service env)) req workspace (ae_device_id e) (install_operation app) = Ok g
    \<and> execution_permitted h e g \<and> \<not> hm_has (dm_inflight s) i
    \<and> dm_remote_execution s = Some config \<and> xj_config j = config
    \<and> xj_generation j = dm_generation s \<and> xj_activity j = e
    \<and> xj_workspace_path j = workspace \<and> xj_request_id j = req \<and> xj_app_path j = app
    \<and> xj_token j = length (dm_tokens s)
    \<and> s1 = s\<lparr>dm_inflight := hm_insert i (length (dm_tokens s)) (dm_inflight s), dm_tokens := dm_tokens s @ [False]\<rparr>"
  using assms
  by (auto simp: prepare_remote_execution_def Let_def split: if_splits option.splits sum.splits)

lemma dispatched_execution:
  assumes "dispatch_connection env user peer request c = (b, c1, Some j)"
  shows "same_user_authorizes user peer \<and> \<not> dc_poisoned c
    \<and> (\<exists>v i workspace req app h s1. request = Inr (RqStartRemoteExecution v i workspace req app)
         \<and> local_policy_host_id (dc_state c) = Some h
         \<and> prepare_remote_execution env i workspace req app h (dc_state c) = (Inr j, s1)
         \<and> c1 = c\<lparr>dc_state := s1\<rparr>)"
proof -
  obtain answer where d: "dispatch env user peer request c = (answer, c1, Some j)"
    using assms by (auto simp: dispatch_connection_def split: if_splits prod.splits option.splits sum.splits)
  then obtain r where "same_user_authorizes user peer" "\<not> dc_poisoned c" "request = Inr r"
    by (auto simp: dispatch_def split: if_splits sum.splits)
  with d show ?thesis
    by (cases r)
      (auto simp: dispatch_def cell_op_def start_execution_def
        split: option.splits prod.splits sum.splits)
qed

text \<open>Every worker was hired by one request of the run, and its job is the one that request prepared.\<close>

lemma step_hires:
  assumes "k \<in> set (dw_workers (world_step user a w))"
  shows "(\<exists>k0 \<in> set (dw_workers w). wk_job k0 = wk_job k)
    \<or> (\<exists>env peer request b c1. a = Dispatch env peer request
         \<and> dispatch_connection env user peer request (dw_cell w) = (b, c1, Some (wk_job k)))"
proof (cases a)
  case (Dispatch env peer request)
  with assms show ?thesis by (auto simp: hire_def split: prod.splits option.splits)
next
  case (Work env n)
  show ?thesis
  proof (cases "k \<in> set (dw_workers w)")
    case False
    then have "n < length (dw_workers w)" "wk_job k = wk_job (dw_workers w ! n)"
      using assms Work
      by (auto simp: work_step_def Let_def split: if_splits prod.splits dest!: set_update_subset_insert [THEN subsetD])
    then show ?thesis by (metis nth_mem)
  qed auto
qed (use assms in \<open>auto simp: poll_end_def on_state_def split: option.splits poll_start.splits if_splits\<close>)

lemma run_hires:
  assumes "k \<in> set (dw_workers (world_run user acts (new_world s)))"
  shows "\<exists>early late env peer request b c1. acts = early @ Dispatch env peer request # late
    \<and> dispatch_connection env user peer request (dw_cell (world_run user early (new_world s)))
        = (b, c1, Some (wk_job k))"
  using assms
proof (induction acts arbitrary: k rule: rev_induct)
  case Nil
  then show ?case by (simp add: world_run_def new_world_def)
next
  case (snoc a acts)
  let ?w = "world_run user acts (new_world s)"
  have "k \<in> set (dw_workers (world_step user a ?w))" using snoc.prems by (simp add: world_run_def)
  from step_hires [OF this] show ?case
  proof
    assume "\<exists>k0 \<in> set (dw_workers ?w). wk_job k0 = wk_job k"
    then show ?thesis using snoc.IH by (metis append.assoc append_Cons)
  next
    assume "\<exists>env peer request b c1. a = Dispatch env peer request
         \<and> dispatch_connection env user peer request (dw_cell ?w) = (b, c1, Some (wk_job k))"
    then show ?thesis by blast
  qed
qed

section \<open>What a worker asks\<close>

definition runs_only :: "execution_job \<Rightarrow> exec_note \<Rightarrow> bool" where
  "runs_only j n = (case n of Asked (AppleRunRequest r) \<Rightarrow> \<exists>l. r = apple_request_of j l | _ \<Rightarrow> True)"

lemma exec_step_runs:
  "exec_step env j p c = (notes, q, c1) \<Longrightarrow> list_all (runs_only j) notes"
  by (cases p)
    (auto simp: runs_only_def acquire_step_def run_step_def poll_step_def events_step_def Let_def
      split: option.splits sum.splits if_splits prod.splits)

interpretation honest: worker_property "\<lambda>_. True" "\<lambda>k. list_all (runs_only (wk_job k)) (wk_log k)"
  by unfold_locales (auto simp: fresh_worker_def stepped_def split: prod.splits dest: exec_step_runs)

text \<open>The approval that an activity carries: it waits to run, is allowed, is aimed at this host, may
  read the workspace, use the device and install, and is bound to one operation by its digest.\<close>

definition approval_covers :: "host_id \<Rightarrow> activity_event \<Rightarrow> string \<Rightarrow> bool" where
  "approval_covers host e digest =
     (ae_state e = Queued \<and> az_effect (ae_authorization e) = Allow \<and> ae_target_host_id e = host
      \<and> ae_operation e = ''apple.install_app''
      \<and> {WorkspaceRead, DeviceLease, ApplicationInstall} \<subseteq> set (ae_resources e)
      \<and> ae_remote_operation_sha256 e = Some digest)"

text \<open>C27. In every interleaving of requests, workers and the inventory observer, each Apple request a
  worker sends to the registry goes back to one request of the machine's own user. At that moment
  the activity was one of the dashboard, waiting to run, allowed and aimed at this host, and the digest it
  carried was the digest of exactly the request id, the workspace, the device and the application
  that the worker sends.\<close>

theorem executed_operation_was_approved:
  assumes "k \<in> set (dw_workers (world_run user acts (new_world s)))"
    and "Asked (AppleRunRequest r) \<in> set (wk_log k)"
  shows "\<exists>early late env peer request d sv host i e g.
      acts = early @ Dispatch env peer request # late \<and> same_user_authorizes user peer
    \<and> d = dc_state (dw_cell (world_run user early (new_world s)))
    \<and> dm_dashboard d = Some sv \<and> hm_get (ds_activities sv) i = Some e
    \<and> local_policy_host_id d = Some host \<and> approval_covers host e (og_canonical_sha256 g)
    \<and> remote_grant_new (sv_policy (de_service env)) (ar_request_id r) (ar_workspace_path r) (ae_device_id e)
        (ar_operation r) = Ok g
    \<and> ar_device_id r = ae_device_id e \<and> (\<exists>app. ar_operation r = InstallApp app)"
proof -
  obtain l where r: "r = apple_request_of (wk_job k) l"
    using honest.from_start [OF _ assms(1)] assms(2) dispatches_within_True
    by (fastforce simp: runs_only_def list_all_iff)
  obtain early late env peer request b c1 where acts: "acts = early @ Dispatch env peer request # late"
    and hired: "dispatch_connection env user peer request (dw_cell (world_run user early (new_world s)))
        = (b, c1, Some (wk_job k))"
    using run_hires [OF assms(1)] by blast
  from dispatched_execution [OF hired] obtain i workspace req app host s1 where
    peer: "same_user_authorizes user peer"
    and host: "local_policy_host_id (dc_state (dw_cell (world_run user early (new_world s)))) = Some host"
    and prepared: "prepare_remote_execution env i workspace req app host
        (dc_state (dw_cell (world_run user early (new_world s)))) = (Inr (wk_job k), s1)"
    by blast
  from prepared_job [OF prepared] obtain sv e g where
    found: "dm_dashboard (dc_state (dw_cell (world_run user early (new_world s)))) = Some sv"
      "hm_get (ds_activities sv) i = Some e"
    and grant: "remote_grant_new (sv_policy (de_service env)) req workspace (ae_device_id e) (install_operation app) = Ok g"
    and permitted: "execution_permitted host e g"
    and job: "xj_activity (wk_job k) = e" "xj_workspace_path (wk_job k) = workspace"
      "xj_request_id (wk_job k) = req" "xj_app_path (wk_job k) = app"
    by blast
  have "approval_covers host e (og_canonical_sha256 g)"
    using permitted by (simp add: approval_covers_def execution_permitted_def)
  moreover have "ar_request_id r = req" "ar_workspace_path r = workspace" "ar_device_id r = ae_device_id e"
      "ar_operation r = install_operation app"
    using r job by (simp_all add: apple_request_of_def)
  ultimately show ?thesis using acts peer host found grant by (metis install_operation_def)
qed

section \<open>Leases and jobs are given back\<close>

text \<open>
  How far the log of a worker has come in each phase: before a lease nothing is held; with a lease and
  an accepted job both are in the log; when the lease is released the job was cancelled or had ended.
\<close>

definition lease_is :: "string \<Rightarrow> exec_note list \<Rightarrow> bool" where
  "lease_is l log = (\<forall>m. Leased m \<in> set log \<longrightarrow> m = l)"

definition released :: "exec_note list \<Rightarrow> bool" where
  "released log = (\<forall>l. Leased l \<in> set log \<longrightarrow> Asked (LeaseOperation (Release l)) \<in> set log)"

definition no_job :: "exec_note list \<Rightarrow> bool" where
  "no_job log = (\<forall>j. Started j \<notin> set log)"

definition only_job :: "string \<Rightarrow> exec_note list \<Rightarrow> bool" where
  "only_job i log = (\<forall>j. Started j \<in> set log \<longrightarrow> j = i)"

definition jobs_stopped :: "exec_note list \<Rightarrow> bool" where
  "jobs_stopped log =
     (\<forall>j. Started j \<in> set log \<longrightarrow> Asked (AppleCancelRequest j) \<in> set log \<or> Finished j \<in> set log)"

fun log_fits :: "exec_phase \<Rightarrow> exec_note list \<Rightarrow> bool" where
  "log_fits ExAcquire log = (log = [])"
| "log_fits (ExGranted l) log = (lease_is l log \<and> no_job log)"
| "log_fits (ExObserve l) log = (lease_is l log \<and> no_job log)"
| "log_fits (ExRun l) log = (lease_is l log \<and> no_job log)"
| "log_fits (ExAccepted l j) log = (lease_is l log \<and> only_job j log)"
| "log_fits (ExStart l j) log = (lease_is l log \<and> only_job j log)"
| "log_fits (ExPoll p) log = (lease_is (px_lease p) log \<and> only_job (px_job_id p) log)"
| "log_fits (ExAwait p) log = (lease_is (px_lease p) log \<and> only_job (px_job_id p) log)"
| "log_fits (ExAnswer p _) log = (lease_is (px_lease p) log \<and> only_job (px_job_id p) log)"
| "log_fits (ExEvents p _) log = (lease_is (px_lease p) log \<and> only_job (px_job_id p) log)"
| "log_fits (ExCleanup l d e) log =
     (lease_is l log
      \<and> (case d of Some j \<Rightarrow> only_job j log | None \<Rightarrow> jobs_stopped log))"
| "log_fits (ExRelease l e) log = (lease_is l log \<and> jobs_stopped log)"
| "log_fits (ExFailed _) log = (released log \<and> jobs_stopped log)"
| "log_fits (ExInspect _) log = (released log \<and> jobs_stopped log)"
| "log_fits (ExReconnect _ _) log = (released log \<and> jobs_stopped log)"
| "log_fits (ExFail _ _) log = (released log \<and> jobs_stopped log)"
| "log_fits ExRemove log = (released log \<and> jobs_stopped log)"
| "log_fits ExDone log = (released log \<and> jobs_stopped log)"

lemmas log_defs = lease_is_def released_def no_job_def only_job_def jobs_stopped_def

lemma after_transition_fits:
  "log_fits q log \<Longrightarrow> log_fits (ExCleanup l d EndedWell) log \<Longrightarrow> log_fits (after_transition x l d q) log"
  by (auto simp: after_transition_def split: option.splits sum.splits)

lemma unless_panic_fits:
  "log_fits q log \<Longrightarrow> log_fits ExDone log \<Longrightarrow> log_fits (fst (unless_panic x q)) log"
  by (auto simp: unless_panic_def split: prod.splits option.splits)

lemma acquire_fits: "acquire_step env j = (notes, q) \<Longrightarrow> log_fits q notes"
  by (auto simp: acquire_step_def log_defs split: option.splits sum.splits)

lemma run_fits: "run_step env j l = (notes, q) \<Longrightarrow> log_fits (ExRun l) log \<Longrightarrow> log_fits q (log @ notes)"
  by (auto simp: run_step_def log_defs Let_def split: sum.splits)

lemma observe_fits: "log_fits (ExObserve l) log \<Longrightarrow> log_fits (fst (observe_step env j l c)) log"
  by (auto simp: observe_step_def log_defs split: option.splits sum.splits prod.splits)

lemma poll_fits: "poll_step env j p c = (notes, q) \<Longrightarrow> log_fits (ExPoll p) log \<Longrightarrow> log_fits q (log @ notes)"
  by (auto simp: poll_step_def log_defs split: if_splits)

lemma await_fits: "log_fits (ExAwait p) log \<Longrightarrow> log_fits (await_step env j p c) log"
  by (auto simp: await_step_def)

lemma answer_fits: "log_fits (ExAnswer p a) log \<Longrightarrow> log_fits (fst (answer_step env j p a c)) log"
  by (auto simp: answer_step_def Let_def intro!: after_transition_fits split: sum.splits prod.splits)

lemma events_fits:
  "events_step env j p r c = (notes, q, c1) \<Longrightarrow> log_fits (ExEvents p r) log \<Longrightarrow> log_fits q (log @ notes)"
  by (auto simp: events_step_def after_transition_def log_defs
      split: option.splits prod.splits sum.splits)

lemma step_fits:
  assumes "exec_step env j p c = (notes, q, c1)" and "log_fits p log"
  shows "log_fits q (log @ notes)"
proof (cases p)
  case (ExObserve l)
  then show ?thesis using assms observe_fits [of l log env j c] by (cases "observe_step env j l c") simp
next
  case (ExAnswer pl a)
  then show ?thesis using assms answer_fits [of pl a log env j c] by (cases "answer_step env j pl a c") simp
next
  case (ExAwait pl)
  then show ?thesis using assms await_fits [of pl log env j c] by auto
next
  case (ExStart l i)
  then show ?thesis using assms
    by (auto intro!: after_transition_fits split: prod.splits)
next
  case (ExFailed f)
  then show ?thesis using assms unless_panic_fits [of "ExInspect f" log "locked (record_terminal env j) c"]
    by (cases "locked (record_terminal env j) c") (auto split: if_splits)
next
  case (ExReconnect f e)
  then show ?thesis using assms unless_panic_fits [of "ExFail f e" log "moving env j Reconnecting (failure_message_code f) c"]
    by (cases "unless_panic (moving env j Reconnecting (failure_message_code f) c) (ExFail f e)") auto
next
  case (ExFail f e)
  then show ?thesis using assms unless_panic_fits [of ExRemove log "moving env j Failed (failure_message_code f) c"]
    by (cases "unless_panic (moving env j Failed (failure_message_code f) c) ExRemove") auto
qed (use assms in \<open>auto simp: inspect_step_def log_defs
    dest: acquire_fits run_fits poll_fits events_fits
    split: prod.splits option.splits if_splits execution_end.splits\<close>)

interpretation tidy: worker_property "\<lambda>_. True" "\<lambda>k. log_fits (wk_phase k) (wk_log k)"
  by unfold_locales (auto simp: fresh_worker_def stepped_def intro: step_fits split: prod.splits)


section \<open>A worker ends\<close>

text \<open>The most steps a worker has left when its deadline has passed and the registry answers.\<close>

fun steps_left :: "exec_phase \<Rightarrow> nat" where
  "steps_left ExAcquire = 14"
| "steps_left (ExGranted _) = 13"
| "steps_left (ExObserve _) = 12"
| "steps_left (ExRun _) = 11"
| "steps_left (ExAccepted _ _) = 10"
| "steps_left (ExStart _ _) = 9"
| "steps_left (ExAwait _) = 11"
| "steps_left (ExAnswer _ _) = 10"
| "steps_left (ExEvents _ _) = 9"
| "steps_left (ExPoll _) = 8"
| "steps_left (ExCleanup _ _ _) = 7"
| "steps_left (ExRelease _ _) = 6"
| "steps_left (ExFailed _) = 5"
| "steps_left (ExInspect _) = 4"
| "steps_left (ExReconnect _ _) = 3"
| "steps_left (ExFail _ _) = 2"
| "steps_left ExRemove = 1"
| "steps_left ExDone = 0"

lemma after_transition_left:
  "steps_left q < n \<Longrightarrow> 7 < n \<Longrightarrow> steps_left (after_transition x l d q) < n"
  by (auto simp: after_transition_def split: option.splits sum.splits)

lemma unless_panic_left: "steps_left q < n \<Longrightarrow> steps_left (fst (unless_panic x q)) < n"
  by (auto simp: unless_panic_def split: prod.splits option.splits)

lemma handlers_left:
  "steps_left (snd (acquire_step env j)) < 14" "steps_left (fst (observe_step env j l c)) < 12"
  "steps_left (snd (run_step env j l)) < 11" "xe_deadline env \<Longrightarrow> steps_left (snd (poll_step env j p c)) < 8"
  "xe_answered env \<Longrightarrow> steps_left (await_step env j p c) < 11"
  "steps_left (fst (answer_step env j p a c)) < 10"
  "steps_left (fst (snd (events_step env j p r c))) < 9" "steps_left (inspect_step j f c) < 4"
  by (auto simp: acquire_step_def observe_step_def run_step_def poll_step_def await_step_def answer_step_def
      events_step_def inspect_step_def Let_def after_transition_def
      split: option.splits sum.splits prod.splits)

lemma step_left:
  assumes "xe_deadline env" and "xe_answered env" and "p \<noteq> ExDone"
  shows "steps_left (fst (snd (exec_step env j p c))) < steps_left p"
  using assms handlers_left
  by (cases p) (auto simp: split_beta intro!: after_transition_left unless_panic_left split: execution_end.splits)

text \<open>The steps a worker takes itself, each in the state the others have left.\<close>

fun own_steps :: "execution_job \<Rightarrow> (exec_env \<times> daemon_cell) list \<Rightarrow> exec_phase \<Rightarrow> exec_phase" where
  "own_steps j [] p = p"
| "own_steps j ((env, c) # ecs) p = own_steps j ecs (fst (snd (exec_step env j p c)))"

lemma own_steps_done: "own_steps j ecs ExDone = ExDone"
  by (induction ecs) auto

lemma own_steps_end:
  "list_all (\<lambda>(env, c). xe_deadline env \<and> xe_answered env) ecs \<Longrightarrow> steps_left p \<le> length ecs \<Longrightarrow>
   own_steps j ecs p = ExDone"
proof (induction ecs arbitrary: p)
  case Nil
  then show ?case by (cases p) auto
next
  case (Cons e ecs)
  obtain env c where e: "e = (env, c)" by fastforce
  show ?case
  proof (cases "p = ExDone")
    case True
    then show ?thesis by (simp add: own_steps_done e)
  next
    case False
    have "steps_left (fst (snd (exec_step env j p c))) \<le> length ecs"
      using step_left [of env p j c] False Cons.prems by (simp add: e)
    then show ?thesis using Cons by (simp add: e)
  qed
qed

text \<open>C31. Once its deadline has passed, a worker needs at most fourteen more steps of its own to end,
  whatever the daemon's state is at each of them, if every request to the registry is answered, be it
  with an error.\<close>

theorem worker_ends_after_the_deadline:
  assumes "list_all (\<lambda>(env, c). xe_deadline env \<and> xe_answered env) ecs" and "14 \<le> length ecs"
  shows "own_steps j ecs p = ExDone"
proof -
  have "steps_left p \<le> 14" by (cases p) auto
  then show ?thesis using own_steps_end [OF assms(1)] assms(2) by simp
qed

section \<open>Laws of the service in the daemon\<close>

text \<open>A failed audit stays failed, and with it the rules, the pause switch and the pending approvals.\<close>

definition frozen :: "dashboard_service \<Rightarrow> dashboard_service \<Rightarrow> bool" where
  "frozen a b \<longleftrightarrow> (\<not> ds_audit_healthy a \<longrightarrow> settings_stay a b \<and> \<not> ds_audit_healthy b)"

interpretation freeze: service_law frozen
proof
  show "within frozen (service_perform env call)" for env call
    unfolding within_def frozen_def using frozen_call by blast
qed (auto simp: frozen_def settings_stay_def)

text \<open>C30. Failing closed, for the whole daemon: once the audit log of its dashboard has failed, no
  interleaving of local requests, workers, observers and reconfigurations changes the access rules, the
  pause switch or the pending approvals of the dashboard, or brings the audit back.\<close>

theorem failed_audit_freezes_the_daemon:
  assumes "dm_dashboard (dc_state (dw_cell w)) = Some sv" and "\<not> ds_audit_healthy sv"
  shows "\<exists>sv1. dm_dashboard (dc_state (dw_cell (world_run user acts w))) = Some sv1
    \<and> ds_policy sv1 = ds_policy sv \<and> ds_paused sv1 = ds_paused sv \<and> ds_pending sv1 = ds_pending sv
    \<and> \<not> ds_audit_healthy sv1"
proof -
  have "rel_option frozen (Some sv) (dm_dashboard (dc_state (dw_cell (world_run user acts w))))"
    using freeze.world_run_frame [of w user acts] assms(1) by (simp add: freeze.dashboard_frame_def)
  then show ?thesis using assms(2) by (auto simp: option_rel_Some1 frozen_def settings_stay_def)
qed

section \<open>Activities under their own ids\<close>

definition keyed :: "dashboard_service \<Rightarrow> bool" where
  "keyed sv \<longleftrightarrow> list_all (\<lambda>(i, e). ae_activity_id e = i) (ds_activities sv)"

definition stays_keyed :: "dashboard_service \<Rightarrow> dashboard_service \<Rightarrow> bool" where
  "stays_keyed a b \<longleftrightarrow> (keyed a \<longrightarrow> keyed b)"

lemma hm_insert_all: "list_all P m \<Longrightarrow> P (k, v) \<Longrightarrow> list_all P (hm_insert k v m)"
  unfolding hm_insert_def by (induction m) auto

lemma hm_get_all: "list_all P m \<Longrightarrow> hm_get m k = Some v \<Longrightarrow> P (k, v)"
  by (auto simp: hm_get_def list_all_iff dest: map_of_SomeD)

interpretation keys: call_frame stays_keyed
proof
  show "within stays_keyed (record_activity env e k)" for env e k
    by (auto simp: within_def stays_keyed_def keyed_def record_activity_def Let_def intro: hm_insert_all
        split: prod.splits option.splits sum.splits append_transaction_error.splits append_outcome.splits)
  show "within stays_keyed (take_grant env q digest now)" for env q digest now
    by (auto simp: within_def take_grant_def sv_rescue_def persist_now_def Let_def stays_keyed_def keyed_def
        split: option.splits prod.splits sum.splits)
  show "within stays_keyed (persist_now env)" for env
    by (auto simp: within_def persist_now_def stays_keyed_def keyed_def split: prod.splits)
  show "within stays_keyed (\<lambda>s. append_audit env (raw s) s)" for env raw
    by (auto simp: within_def append_audit_def stays_keyed_def keyed_def Let_def
        split: if_splits prod.splits sum.splits option.splits)
qed (auto simp: stays_keyed_def keyed_def)

lemma deletion_keyed: "within stays_keyed (delete_audit_exact env scope f now)"
proof -
  have "within stays_keyed (\<lambda>s. case audit_delete (sv_audit env)
          (if scope = CurrentFilter then f else filter_default) now (ds_disk s, ds_audit s) of
        (Inl e, d, st) \<Rightarrow> Some (Err (map_audit_error e), s\<lparr>ds_disk := d, ds_audit := st\<rparr>)
      | (Inr n, d, st) \<Rightarrow> Some (Ok n, s\<lparr>ds_disk := d, ds_audit := st\<rparr>))"
    by (auto simp: within_def stays_keyed_def keyed_def split: prod.splits sum.splits)
  then show ?thesis
    unfolding delete_audit_exact_def by (intro keys.within_then keys.within_authorize)
qed

interpretation keying: service_law stays_keyed
proof
  show "within stays_keyed (service_perform env call)" for env call
  proof (cases "\<exists>scope f now. call = CallDeleteAudit scope f now")
    case True
    then show ?thesis using within_outcome [OF deletion_keyed] by auto
  next
    case False
    then show ?thesis by (intro keys.within_call) blast
  qed
qed

section \<open>One worker per activity\<close>

definition live :: "worker \<Rightarrow> bool" where
  "live k = (wk_phase k \<noteq> ExDone)"

definition worker_activity :: "worker \<Rightarrow> activity_id" where
  "worker_activity k = ae_activity_id (xj_activity (wk_job k))"

text \<open>Every live worker is the one its activity's entry stands for.\<close>

definition attended :: "daemon_world \<Rightarrow> bool" where
  "attended w \<longleftrightarrow>
     (\<forall>n < length (dw_workers w). live (dw_workers w ! n) \<longrightarrow>
        hm_get (dm_inflight (dc_state (dw_cell w))) (worker_activity (dw_workers w ! n))
          = Some (xj_token (wk_job (dw_workers w ! n))))
     \<and> (\<forall>m < length (dw_workers w). \<forall>n < length (dw_workers w).
        m \<noteq> n \<longrightarrow> live (dw_workers w ! m) \<longrightarrow> live (dw_workers w ! n) \<longrightarrow>
        worker_activity (dw_workers w ! m) \<noteq> worker_activity (dw_workers w ! n))"

definition keyed_daemon :: "daemon_world \<Rightarrow> bool" where
  "keyed_daemon w \<longleftrightarrow> is_none_or keyed (dm_dashboard (dc_state (dw_cell w)))"

lemma keyed_step: "keyed_daemon w \<Longrightarrow> keyed_daemon (world_step user a w)"
  using keying.world_step_frame [of w user a]
  by (auto simp: keyed_daemon_def keying.dashboard_frame_def stays_keyed_def is_none_or_iff option_rel_Some2)

lemma attended_cell:
  assumes "attended w"
    and "\<And>k. k \<in> set (dw_workers w) \<Longrightarrow> live k \<Longrightarrow>
      hm_get (dm_inflight (dc_state c)) (worker_activity k)
        = hm_get (dm_inflight (dc_state (dw_cell w))) (worker_activity k)"
  shows "attended (w\<lparr>dw_cell := c\<rparr>)"
  using assms by (simp add: attended_def)

lemma attended_keeps:
  "attended w \<Longrightarrow> dm_inflight (dc_state c) = dm_inflight (dc_state (dw_cell w)) \<Longrightarrow> attended (w\<lparr>dw_cell := c\<rparr>)"
  by (rule attended_cell) simp_all

lemma attended_entered:
  assumes "attended w" and "\<not> hm_has (dm_inflight (dc_state (dw_cell w))) i"
  shows "attended (w\<lparr>dw_cell := (dw_cell w)\<lparr>dc_state := entered i (dc_state (dw_cell w))\<rparr>\<rparr>)"
proof (rule attended_cell [OF assms(1)])
  fix k assume "k \<in> set (dw_workers w)" "live k"
  then have "worker_activity k \<noteq> i"
    using assms by (auto simp: attended_def in_set_conv_nth hm_has_def)
  then show "hm_get (dm_inflight (dc_state ((dw_cell w)\<lparr>dc_state := entered i (dc_state (dw_cell w))\<rparr>))) (worker_activity k)
      = hm_get (dm_inflight (dc_state (dw_cell w))) (worker_activity k)"
    by (simp add: entered_def)
qed

lemma attended_hire:
  assumes "attended w" and "\<not> hm_has (dm_inflight (dc_state (dw_cell w))) i"
    and "ae_activity_id (xj_activity j) = i" and "xj_token j = length (dm_tokens (dc_state (dw_cell w)))"
  shows "attended (w\<lparr>dw_cell := (dw_cell w)\<lparr>dc_state := entered i (dc_state (dw_cell w))\<rparr>,
    dw_workers := hire (Some j) (dw_workers w)\<rparr>)"
proof -
  have old: "worker_activity (dw_workers w ! n) \<noteq> i"
    if "n < length (dw_workers w)" "live (dw_workers w ! n)" for n
    using that assms(1,2) by (auto simp: attended_def hm_has_def)
  have new: "worker_activity (fresh_worker j) = i" using assms(3) by (simp add: worker_activity_def fresh_worker_def)
  have "attended (w\<lparr>dw_cell := (dw_cell w)\<lparr>dc_state := entered i (dc_state (dw_cell w))\<rparr>\<rparr>)"
    by (rule attended_entered [OF assms(1,2)])
  then show ?thesis
    using old new assms(4)
    by (simp add: attended_def hire_def fresh_worker_def nth_append less_Suc_eq all_conj_distrib imp_conjL
        entered_def) (auto simp: fresh_worker_def; blast)
qed

lemma dead_stays: "exec_step env j p c = (ns, q, d) \<Longrightarrow> q \<noteq> ExDone \<Longrightarrow> p \<noteq> ExDone"
  by auto

text \<open>Only the last step of a worker touches the entries, and only its own.\<close>

lemma exec_step_inflight:
  assumes "exec_step env j p c = (ns, q, d)"
  shows "dm_inflight (dc_state d) = dm_inflight (dc_state c)
    \<or> q = ExDone \<and> p \<noteq> ExDone
       \<and> dm_inflight (dc_state d) = hm_remove (ae_activity_id (xj_activity j)) (dm_inflight (dc_state c))"
proof (cases "p = ExRemove")
  case True
  then show ?thesis using assms by (auto simp: forget_execution_def)
next
  case False
  then show ?thesis
    using keying.exec_step_frame [OF assms] by (simp add: keying.cell_frame_def daemon_frame_def)
qed

lemma attended_work: "attended w \<Longrightarrow> attended (work_step env n w)"
proof (cases "n < length (dw_workers w)")
  case True
  assume w: "attended w"
  let ?k = "dw_workers w ! n"
  obtain ns q d where st: "exec_step env (wk_job ?k) (wk_phase ?k) (dw_cell w) = (ns, q, d)"
    by (metis prod_cases3)
  let ?k1 = "?k\<lparr>wk_phase := q, wk_log := wk_log ?k @ ns\<rparr>"
  have step: "work_step env n w = w\<lparr>dw_cell := d, dw_workers := (dw_workers w)[n := ?k1]\<rparr>"
    using True st by (simp add: work_step_def Let_def)
  have alive: "live ?k" if "live ?k1" using that st dead_stays by (auto simp: live_def)
  have same: "worker_activity ?k1 = worker_activity ?k" by (simp add: worker_activity_def)
  have entry: "hm_get (dm_inflight (dc_state d)) (worker_activity (dw_workers w ! m))
      = hm_get (dm_inflight (dc_state (dw_cell w))) (worker_activity (dw_workers w ! m))"
    if m: "m < length (dw_workers w)" "live (dw_workers w ! m)" "m = n \<longrightarrow> live ?k1" for m
  proof (cases "dm_inflight (dc_state d) = dm_inflight (dc_state (dw_cell w))")
    case False
    with exec_step_inflight [OF st] have gone: "q = ExDone" "wk_phase ?k \<noteq> ExDone"
      and rem: "dm_inflight (dc_state d) = hm_remove (worker_activity ?k) (dm_inflight (dc_state (dw_cell w)))"
      by (auto simp: worker_activity_def)
    then have "m \<noteq> n" using m(3) gone by (auto simp: live_def)
    then have "worker_activity (dw_workers w ! m) \<noteq> worker_activity ?k"
      using w m(1,2) True gone(2) by (auto simp: attended_def live_def)
    then show ?thesis by (simp add: rem)
  qed simp
  show ?thesis
    unfolding step attended_def using w True alive entry same
    by (auto simp: attended_def nth_list_update)
next
  case False
  then show "attended w \<Longrightarrow> attended (work_step env n w)" by (simp add: work_step_def)
qed

lemma attended_dispatch:
  assumes "attended w" and "keyed_daemon w"
  shows "attended (world_step user (Dispatch env peer request) w)"
proof -
  obtain b d job where st: "dispatch_connection env user peer request (dw_cell w) = (b, d, job)"
    by (metis prod_cases3)
  show ?thesis
  proof (cases job)
    case None
    from keying.dispatch_frame [OF st] have "attended (w\<lparr>dw_cell := d\<rparr>)"
      using attended_keeps attended_entered assms(1)
      by (auto simp: keying.cell_frame_def daemon_frame_def)
    then show ?thesis using st None by (simp add: hire_def)
  next
    case (Some j)
    from dispatched_execution [OF st [unfolded Some]] obtain i workspace req app h s1 where
      p: "prepare_remote_execution env i workspace req app h (dc_state (dw_cell w)) = (Inr j, s1)"
      and d: "d = (dw_cell w)\<lparr>dc_state := s1\<rparr>" by blast
    obtain sv e where j: "dm_dashboard (dc_state (dw_cell w)) = Some sv" "hm_get (ds_activities sv) i = Some e"
      "\<not> hm_has (dm_inflight (dc_state (dw_cell w))) i" "xj_activity j = e"
      "xj_token j = length (dm_tokens (dc_state (dw_cell w)))" "s1 = entered i (dc_state (dw_cell w))"
      using prepared_job [OF p] by (auto simp: entered_def)
    have "ae_activity_id e = i"
      using hm_get_all [OF _ j(2), of "\<lambda>(i, e). ae_activity_id e = i"] assms(2) j(1)
      by (simp add: keyed_daemon_def keyed_def)
    then have "attended (w\<lparr>dw_cell := d, dw_workers := hire (Some j) (dw_workers w)\<rparr>)"
      using attended_hire [OF assms(1) j(3) _ j(5)] j(4,6) d by simp
    then show ?thesis using st Some by simp
  qed
qed

lemma attended_step:
  assumes "attended w" and "keyed_daemon w" shows "attended (world_step user a w)"
proof (cases a)
  case (PollEnd now result)
  have "attended (w\<lparr>dw_poll := p, dw_cell := c\<rparr>)"
    if "dm_inflight (dc_state c) = dm_inflight (dc_state (dw_cell w))" for p c
    using attended_keeps [OF assms(1) that] by (simp add: attended_def)
  moreover have "attended (w\<lparr>dw_poll := p\<rparr>)" for p using assms(1) by (simp add: attended_def)
  ultimately show ?thesis
    using PollEnd assms(1) keying.dpoll [unfolded daemon_frame_def]
    by (fastforce simp: poll_end_def split: option.splits)
next
  case PollBegin
  then show ?thesis using assms(1) by (auto simp: attended_def split: poll_start.splits)
qed (use assms attended_dispatch attended_work in
    \<open>auto simp: on_state_def set_autostart_status_def enable_remote_execution_with_boundary_def
      invalidate_inventory_generation_def with_connection_def intro!: attended_keeps\<close>)

lemma attended_run:
  "attended w \<Longrightarrow> keyed_daemon w \<Longrightarrow> attended (world_run user acts w)"
  unfolding world_run_def by (induction acts arbitrary: w) (auto intro: attended_step keyed_step)

text \<open>C29. An activity never has two workers: in every interleaving from a fresh daemon, two workers that
  have not ended carry out different activities, and each is registered under its activity, where a
  cancellation finds its flag. The activities the dashboard starts with are stored under their ids.\<close>

theorem one_worker_per_activity:
  assumes "is_none_or keyed (dm_dashboard s)" and "w = world_run user acts (new_world s)"
    and "m < length (dw_workers w)" and "n < length (dw_workers w)" and "m \<noteq> n"
    and "wk_phase (dw_workers w ! m) \<noteq> ExDone" and "wk_phase (dw_workers w ! n) \<noteq> ExDone"
  shows "worker_activity (dw_workers w ! m) \<noteq> worker_activity (dw_workers w ! n)
    \<and> hm_get (dm_inflight (dc_state (dw_cell w))) (worker_activity (dw_workers w ! m))
        = Some (xj_token (wk_job (dw_workers w ! m)))"
proof -
  have "attended (new_world s)" by (simp add: attended_def new_world_def)
  moreover have "keyed_daemon (new_world s)" using assms(1) by (simp add: keyed_daemon_def new_world_def)
  ultimately have "attended w" unfolding assms(2) by (rule attended_run)
  then show ?thesis using assms(3-7) by (simp add: attended_def live_def)
qed

section \<open>Who may change anything, and what an old connection may say\<close>

text \<open>A peer that is not the expected user changes nothing, whatever it sends; and an answer that was
  asked for on a connection that has been replaced leaves the daemon as it is, even when the new
  connection has the same address.\<close>

theorem strangers_and_stale_answers_change_nothing:
  "(\<not> same_user_authorizes user peer \<longrightarrow>
      world_step user (Dispatch env peer request) w = w)
   \<and> (dw_poll w = Some (config, generation) \<longrightarrow> generation \<noteq> dm_generation (dc_state (dw_cell w)) \<longrightarrow>
      dw_cell (world_step user (PollEnd now result) w) = dw_cell w)
   \<and> (generation \<noteq> dm_generation s \<longrightarrow> observe_job_controller env generation registry s = Some (Ok (), s))
   \<and> dm_generation (enable_remote_execution_with_boundary config persistent timeout s) \<noteq> dm_generation s"
  by (auto simp: dispatch_connection_def dispatch_def hire_def poll_end_def poll_finish_def
      observe_job_controller_def enable_remote_execution_with_boundary_def
      invalidate_inventory_generation_def with_connection_def split: prod.splits option.splits sum.splits)

end
