(* ===== verification/DaemonSample.thy ===== *)
theory DaemonSample
  imports DaemonSafety
begin

text \<open>
  A daemon whose dashboard holds two approved installations, and runs of it: the examples that the
  properties of the daemon apply to. The sequence numbers of its activities are used up, so that the
  transitions its workers ask for fail.
\<close>

definition quiet_daemon_env :: daemon_env where
  "quiet_daemon_env =
     \<lparr>de_service = sample_service_env, de_now = Some 7, de_random = [], de_registry_state = RuntimeRunning,
      de_autostart = (\<lambda>_. Ok ()),
      de_write = (\<lambda>_ _. \<lparr>cw_before = Ok None, cw_saved = Ok (), cw_after = Ok None\<rparr>),
      de_crypto = pair_crypto, de_session = sample_session_codec,
      de_identity_files = (\<lambda>_. False), de_load_transport = (\<lambda>_ _. None),
      de_list = Err RfRegistryDisconnected, de_response_json = (\<lambda>_. Some ''{}''),
      de_writer_ready = True\<rparr>"

definition approved_install :: "activity_id \<Rightarrow> activity_event" where
  "approved_install i =
     \<lparr>ae_activity_id = i, ae_sequence = u64_max, ae_occurred_at_ms = 1, ae_principal_id = ''p'',
      ae_source_host_id = ''s'', ae_target_host_id = ''mac'', ae_device_id = Some ''phone'',
      ae_operation = ''apple.install_app'',
      ae_resources = [WorkspaceRead, DeviceLease, ApplicationInstall],
      ae_remote_operation_sha256 = Some (hex ''ws''),
      ae_authorization = \<lparr>az_effect = Allow, az_rule_id = None, az_approval_id = None\<rparr>,
      ae_state = Queued, ae_message = None, ae_metrics = unavailable_metrics,
      ae_started_at_ms = None, ae_finished_at_ms = None\<rparr>"

definition installing_service :: dashboard_service where
  "installing_service = (sample_service [])
     \<lparr>ds_activities := [(''a'', approved_install ''a''), (''b'', approved_install ''b'')]\<rparr>"

definition mesh_config :: remote_execution_config where
  "mesh_config = \<lparr>rx_registry_address = ''10.0.0.1:7443'', rx_registry_peer_id = ''r'',
     rx_identity_path = ''/identity'', rx_client_id = ''mac''\<rparr>"

definition installing_daemon :: daemon_state where
  "installing_daemon =
     (daemon_new \<lparr>dsn_public_identity = ''mac'', dsn_daemon_version = ''1'', dsn_os = ''macos'',
         dsn_architecture = ''arm64'', dsn_role = RoleAgent, dsn_endpoint = ''sock'',
         dsn_connection = ConnConnected, dsn_local_protocol = CURRENT_VERSION,
         dsn_remote_protocol = ''1.0'', dsn_warnings = [], dsn_remote_access_paused = False,
         dsn_autostart = False, dsn_log_location = [], dsn_features = []\<rparr> [])
       \<lparr>dm_dashboard := Some installing_service, dm_remote_execution := Some mesh_config,
        dm_boundary := Some True\<rparr>"

abbreviation owner :: peer_credentials where "owner \<equiv> UnixPeer 501 20 None"

definition install :: "activity_id \<Rightarrow> world_action" where
  "install i = Dispatch quiet_daemon_env owner
     (Inr (RqStartRemoteExecution CURRENT_VERSION i ''ws'' ''r1'' ''App.app''))"

definition install_job :: "activity_id \<Rightarrow> nat \<Rightarrow> execution_job" where
  "install_job i token =
     \<lparr>xj_generation = 0, xj_config = mesh_config, xj_persistent = True, xj_timeout_ms = 30000,
      xj_activity = approved_install i, xj_workspace_path = ''ws'', xj_request_id = ''r1'',
      xj_app_path = ''App.app'', xj_token = token\<rparr>"

lemma install_prepared:
  assumes "i = ''a'' \<or> i = ''b''"
    and "dm_dashboard s = Some installing_service" and "dm_remote_execution s = Some mesh_config"
    and "dm_boundary s = Some True" and "dm_generation s = 0" and "dm_timeout_ms s = 30000"
    and "\<not> hm_has (dm_inflight s) i"
  shows "prepare_remote_execution quiet_daemon_env i ''ws'' ''r1'' ''App.app'' ''mac'' s
    = (Ok (install_job i (length (dm_tokens s))), entered i s)"
proof -
  have valid: "valid_remote_component ''ws''" "valid_remote_component ''App.app''" "valid_remote_identifier ''r1''"
    by code_simp+
  have found: "hm_get (ds_activities installing_service) i = Some (approved_install i)"
    using assms(1) by (auto simp: installing_service_def hm_get_def)
  have fields: "remote_validate_fields \<lparr>og_request_id = ''r1'', og_workspace_path = ''ws'',
      og_device_id = Some ''phone'', og_operation = InstallApp ''App.app'', og_canonical_sha256 = []\<rparr> = Ok ()"
    by code_simp
  show ?thesis
    using assms(2-7) valid found fields
    by (simp add: prepare_remote_execution_def remote_grant_new_def quiet_daemon_env_def install_operation_def
        approved_install_def execution_permitted_def compute_digest_def sample_codec_def
        sample_service_env_def install_job_def entered_def Let_def)
qed

lemma install_step:
  assumes "i = ''a'' \<or> i = ''b''" and "\<not> dc_poisoned (dw_cell w)"
    and "dm_dashboard (dc_state (dw_cell w)) = Some installing_service"
    and "dm_remote_execution (dc_state (dw_cell w)) = Some mesh_config"
    and "dm_boundary (dc_state (dw_cell w)) = Some True" and "dm_generation (dc_state (dw_cell w)) = 0"
    and "dm_timeout_ms (dc_state (dw_cell w)) = 30000" and "\<not> hm_has (dm_inflight (dc_state (dw_cell w))) i"
  shows "world_step (ExpectedUnix 501) (install i) w
    = w\<lparr>dw_cell := (dw_cell w)\<lparr>dc_state := entered i (dc_state (dw_cell w))\<rparr>,
        dw_workers := dw_workers w @ [fresh_worker (install_job i (length (dm_tokens (dc_state (dw_cell w)))))]\<rparr>"
proof -
  have host: "local_policy_host_id (dc_state (dw_cell w)) = Some ''mac''"
    using assms(3) by (simp add: local_policy_host_id_def installing_service_def sample_service_def service_new_def)
  show ?thesis
    using install_prepared [OF assms(1,3-8)] assms(2) host
    by (simp add: install_def dispatch_connection_def dispatch_def start_execution_def cell_op_def hire_def
        fresh_worker_def quiet_daemon_env_def enforce_response_bound_def write_frame_def MAX_FRAME_BYTES_def)
qed

text \<open>The first steps of a worker: the lease is granted, the request is sent, the registry rejects it.\<close>

definition answering_env :: "remote_failure + response \<Rightarrow> exec_env" where
  "answering_env a =
     \<lparr>xe_daemon = quiet_daemon_env, xe_answer = a, xe_answered = True, xe_deadline = True\<rparr>"

definition granting :: response where
  "granting = ok_response\<lparr>rs_lease_grant := Some \<lparr>lg_lease_id = ''lease-1'', lg_device_id = ''phone'',
     lg_client_id = ''mac'', lg_job_id = ''j'', lg_expires_at_ms = 9, lg_signature = ''sig''\<rparr>\<rparr>"

definition install_run :: "world_action list" where
  "install_run =
     [install ''a'', Reconfigure mesh_config True 1, Work (answering_env (Inr granting)) 0]
     @ replicate 2 (Work (answering_env (Inr granting)) 0)
     @ [Work (answering_env (Inl RfRegistryDisconnected)) 0]"

definition before_run :: daemon_world where
  "before_run = world_run (ExpectedUnix 501) [install ''a'', Reconfigure mesh_config True 1] (new_world installing_daemon)"

lemma before_run:
  "dw_workers before_run = [fresh_worker (install_job ''a'' 0)]"
  "\<not> dc_poisoned (dw_cell before_run)"
  "dm_generation (dc_state (dw_cell before_run)) = 1"
  "dm_tokens (dc_state (dw_cell before_run)) = [False]"
  "dm_dashboard (dc_state (dw_cell before_run)) = Some (disconnect_inventory installing_service)"
proof -
  have "world_step (ExpectedUnix 501) (install ''a'') (new_world installing_daemon)
     = (new_world installing_daemon)\<lparr>dw_cell := \<lparr>dc_state = entered ''a'' installing_daemon, dc_poisoned = False\<rparr>,
         dw_workers := [fresh_worker (install_job ''a'' 0)]\<rparr>"
    by (subst install_step) (simp_all add: new_world_def installing_daemon_def daemon_new_def)
  then show "dw_workers before_run = [fresh_worker (install_job ''a'' 0)]"
    "\<not> dc_poisoned (dw_cell before_run)" "dm_generation (dc_state (dw_cell before_run)) = 1"
    "dm_tokens (dc_state (dw_cell before_run)) = [False]"
    "dm_dashboard (dc_state (dw_cell before_run)) = Some (disconnect_inventory installing_service)"
    by (simp_all add: before_run_def world_run_def on_state_def new_world_def entered_def installing_daemon_def
        daemon_new_def enable_remote_execution_with_boundary_def invalidate_inventory_generation_def
        with_connection_def)
qed

lemma world_run_append: "world_run user (as @ bs) w = world_run user bs (world_run user as w)"
  by (simp add: world_run_def)

definition install_log :: "exec_note list" where
  "install_log =
     [Asked (LeaseOperation (Acquire ''phone'' 30000)), Leased ''lease-1'',
      Asked (AppleRunRequest (apple_request_of (install_job ''a'' 0) ''lease-1''))]"

lemma work_alone:
  "dw_workers w = [k] \<Longrightarrow> exec_step env (wk_job k) (wk_phase k) (dw_cell w) = (ns, p, dw_cell w) \<Longrightarrow>
   world_step user (Work env 0) w = w\<lparr>dw_workers := [k\<lparr>wk_phase := p, wk_log := wk_log k @ ns\<rparr>]\<rparr>"
  by (simp add: work_step_def Let_def)

lemma install_steps:
  "exec_step (answering_env (Inr granting)) (install_job ''a'' 0) ExAcquire c
     = ([Asked (LeaseOperation (Acquire ''phone'' 30000)), Leased ''lease-1''], ExGranted ''lease-1'', c)"
  "exec_step (answering_env a) (install_job ''a'' 0) (ExGranted l) (dw_cell before_run)
     = ([], ExObserve l, dw_cell before_run)"
  "exec_step (answering_env a) (install_job ''a'' 0) (ExObserve l) (dw_cell before_run)
     = ([], ExRun l, dw_cell before_run)"
  "exec_step (answering_env (Inl RfRegistryDisconnected)) (install_job ''a'' 0) (ExRun l) c
     = ([Asked (AppleRunRequest (apple_request_of (install_job ''a'' 0) l))],
        ExCleanup l None (EndedWith RfRegistryDisconnected), c)"
proof -
  show "exec_step (answering_env (Inr granting)) (install_job ''a'' 0) ExAcquire c
     = ([Asked (LeaseOperation (Acquire ''phone'' 30000)), Leased ''lease-1''], ExGranted ''lease-1'', c)"
    by (simp add: acquire_step_def answering_env_def granting_def install_job_def approved_install_def)
  show "exec_step (answering_env a) (install_job ''a'' 0) (ExGranted l) (dw_cell before_run)
     = ([], ExObserve l, dw_cell before_run)"
    by (simp add: cancelled_def install_job_def before_run(4))
  show "exec_step (answering_env a) (install_job ''a'' 0) (ExObserve l) (dw_cell before_run)
     = ([], ExRun l, dw_cell before_run)"
    by (simp add: observe_step_def observe_job_controller_def before_run(2,3) install_job_def)
  show "exec_step (answering_env (Inl RfRegistryDisconnected)) (install_job ''a'' 0) (ExRun l) c
     = ([Asked (AppleRunRequest (apple_request_of (install_job ''a'' 0) l))],
        ExCleanup l None (EndedWith RfRegistryDisconnected), c)"
    by (simp add: run_step_def answering_env_def Let_def)
qed

definition after_install :: daemon_world where
  "after_install = before_run\<lparr>dw_workers := [\<lparr>wk_job = install_job ''a'' 0,
      wk_phase = ExCleanup ''lease-1'' None (EndedWith RfRegistryDisconnected), wk_log = install_log\<rparr>]\<rparr>"

lemma installed: "world_run (ExpectedUnix 501) install_run (new_world installing_daemon) = after_install"
proof -
  have "world_run (ExpectedUnix 501) install_run (new_world installing_daemon)
      = world_run (ExpectedUnix 501) (drop 2 install_run) before_run"
    using world_run_append [of "ExpectedUnix 501" "take 2 install_run" "drop 2 install_run"]
    by (simp add: before_run_def install_run_def numeral_2_eq_2)
  also have "\<dots> = after_install"
    using before_run(1)
    by (simp add: install_run_def numeral_2_eq_2 world_run_def fresh_worker_def work_alone install_steps
        install_log_def after_install_def del: world_step.simps exec_step.simps)
  finally show ?thesis .
qed

lemma first_dispatch:
  assumes "install_run = early @ Dispatch env peer request # late"
  shows "early = []"
proof (cases early)
  case (Cons a rest)
  then have "Dispatch env peer request \<in> set (tl install_run)" unfolding assms by simp
  then show ?thesis by (auto simp: install_run_def)
qed simp

lemma executed_operation_was_approved_witness:
  "\<exists>sv host i e g env. dm_dashboard installing_daemon = Some sv \<and> hm_get (ds_activities sv) i = Some e
     \<and> approval_covers host e (og_canonical_sha256 g)
     \<and> remote_grant_new (sv_policy (de_service (env :: daemon_env))) ''r1'' ''ws'' (ae_device_id e) (InstallApp ''App.app'') = Ok g"
proof -
  let ?r = "apple_request_of (install_job ''a'' 0) ''lease-1''"
  let ?k = "\<lparr>wk_job = install_job ''a'' 0, wk_phase = ExCleanup ''lease-1'' None (EndedWith RfRegistryDisconnected),
      wk_log = install_log\<rparr>"
  have worker: "?k \<in> set (dw_workers (world_run (ExpectedUnix 501) install_run (new_world installing_daemon)))"
    by (simp add: installed after_install_def)
  have asked: "Asked (AppleRunRequest ?r) \<in> set (wk_log ?k)" by (simp add: install_log_def)
  from executed_operation_was_approved [OF worker asked]
  obtain early late env peer request d sv host i e g where
    run: "install_run = early @ Dispatch env peer request # late"
    and d: "d = dc_state (dw_cell (world_run (ExpectedUnix 501) early (new_world installing_daemon)))"
    and found: "dm_dashboard d = Some sv" "hm_get (ds_activities sv) i = Some e"
      "approval_covers host e (og_canonical_sha256 g)"
      "remote_grant_new (sv_policy (de_service env)) (ar_request_id ?r) (ar_workspace_path ?r) (ae_device_id e)
         (ar_operation ?r) = Ok g"
    by blast
  have start: "d = installing_daemon" using d first_dispatch [OF run] by (simp add: world_run_def new_world_def)
  have sent: "ar_request_id ?r = ''r1''" "ar_workspace_path ?r = ''ws''" "ar_operation ?r = InstallApp ''App.app''"
    by (simp_all add: apple_request_of_def install_job_def install_operation_def)
  show ?thesis using found unfolding start sent by blast
qed

text \<open>The rest of its life: clean up, release, and the marks on the activity, which fail here.\<close>

lemma same_dashboard: "dm_dashboard s = Some sv \<Longrightarrow> s\<lparr>dm_dashboard := Some sv\<rparr> = s"
  by (cases s) simp

lemma marks_fail:
  assumes "state = Reconnecting \<or> state = Failed"
  shows "\<exists>e. moving (answering_env a) (install_job ''a'' 0) state message (dw_cell before_run)
    = (Some (Inl e), dw_cell before_run)"
  using assms before_run(2,5) same_dashboard [OF before_run(5)]
  by (auto simp: moving_def locked_def cell_op_def transition_execution_def on_dashboard_def
      transition_activity_def disconnect_inventory_def installing_service_def hm_get_def install_job_def
      approved_install_def checked_add64_def)

lemma marks_go_on:
  "state = Reconnecting \<or> state = Failed \<Longrightarrow>
   unless_panic (moving (answering_env a) (install_job ''a'' 0) state message (dw_cell before_run)) p
     = (p, dw_cell before_run)"
  using marks_fail [of state a message] by (auto simp: unless_panic_def)

lemma ending_steps:
  "exec_step (answering_env a) (install_job ''a'' 0) (ExCleanup l None e) c = ([], ExRelease l e, c)"
  "exec_step (answering_env a) (install_job ''a'' 0) (ExRelease l (EndedWith f)) c
     = ([Asked (LeaseOperation (Release l))], ExFailed f, c)"
  "exec_step (answering_env a) (install_job ''a'' 0) (ExFailed RfRegistryDisconnected) c
     = ([], ExInspect RfRegistryDisconnected, c)"
  "exec_step (answering_env a) (install_job ''a'' 0) (ExInspect f) (dw_cell before_run)
     = ([], ExReconnect f (approved_install ''a''), dw_cell before_run)"
  "exec_step (answering_env a) (install_job ''a'' 0) (ExReconnect f ev) (dw_cell before_run)
     = ([], ExFail f ev, dw_cell before_run)"
  "exec_step (answering_env a) (install_job ''a'' 0) (ExFail f ev) (dw_cell before_run)
     = ([], ExRemove, dw_cell before_run)"
proof -
  have "current_activity (install_job ''a'' 0) (dw_cell before_run) = Some (approved_install ''a'')"
    using before_run(2,5)
    by (simp add: current_activity_def disconnect_inventory_def installing_service_def hm_get_def
        install_job_def approved_install_def)
  moreover have "ae_state (approved_install ''a'') = Queued" by (simp add: approved_install_def)
  ultimately show "exec_step (answering_env a) (install_job ''a'' 0) (ExInspect f) (dw_cell before_run)
     = ([], ExReconnect f (approved_install ''a''), dw_cell before_run)"
    by (simp add: inspect_step_def)
qed (simp_all add: marks_go_on)

definition ending_run :: "world_action list" where
  "ending_run = install_run @ replicate 7 (Work (answering_env (Inr granting)) 0)"

lemma ended:
  "\<exists>w. world_run (ExpectedUnix 501) ending_run (new_world installing_daemon) = w
     \<and> dw_workers w = [\<lparr>wk_job = install_job ''a'' 0, wk_phase = ExDone,
          wk_log = install_log @ [Asked (LeaseOperation (Release ''lease-1''))]\<rparr>]"
proof -
  let ?go = "Work (answering_env (Inr granting)) 0" and ?u = "ExpectedUnix 501"
  have six: "world_run ?u [?go, ?go, ?go, ?go, ?go, ?go] after_install
      = before_run\<lparr>dw_workers := [\<lparr>wk_job = install_job ''a'' 0, wk_phase = ExRemove,
          wk_log = install_log @ [Asked (LeaseOperation (Release ''lease-1''))]\<rparr>]\<rparr>"
    by (simp add: world_run_def work_alone ending_steps after_install_def
        del: world_step.simps exec_step.simps)
  have runs: "ending_run = install_run @ [?go, ?go, ?go, ?go, ?go, ?go] @ [?go]"
    by (simp add: ending_run_def eval_nat_numeral)
  have "world_run ?u ending_run (new_world installing_daemon)
      = world_run ?u [?go] (before_run\<lparr>dw_workers := [\<lparr>wk_job = install_job ''a'' 0, wk_phase = ExRemove,
          wk_log = install_log @ [Asked (LeaseOperation (Release ''lease-1''))]\<rparr>]\<rparr>)"
    by (simp only: runs world_run_append installed six)
  then show ?thesis by (simp add: world_run_def work_step_def)
qed


lemma worker_ends_after_the_deadline_witness:
  "own_steps (install_job ''a'' 0)
     (replicate 14 (answering_env (Inl RfRegistryDisconnected), dw_cell (new_world installing_daemon))) ExAcquire = ExDone"
  by (rule worker_ends_after_the_deadline) (simp_all add: answering_env_def list_all_iff)

lemma failed_audit_freezes_the_daemon_witness:
  "\<exists>sv. dm_dashboard (dc_state (dw_cell (world_run (ExpectedUnix 501) [install ''a'', PollBegin]
       (new_world (installing_daemon\<lparr>dm_dashboard := Some (installing_service\<lparr>ds_audit_healthy := False\<rparr>)\<rparr>))))) = Some sv
     \<and> ds_policy sv = new_engine \<and> \<not> ds_audit_healthy sv"
  using failed_audit_freezes_the_daemon [of
      "new_world (installing_daemon\<lparr>dm_dashboard := Some (installing_service\<lparr>ds_audit_healthy := False\<rparr>)\<rparr>)"
      "installing_service\<lparr>ds_audit_healthy := False\<rparr>" "ExpectedUnix 501" "[install ''a'', PollBegin]"]
  by (auto simp: new_world_def installing_service_def sample_service_def service_new_def)

lemma one_worker_per_activity_witness:
  "let w = world_run (ExpectedUnix 501) [install ''a'', install ''b''] (new_world installing_daemon) in
   worker_activity (dw_workers w ! 0) \<noteq> worker_activity (dw_workers w ! 1) \<and> length (dw_workers w) = 2"
proof -
  let ?w1 = "(new_world installing_daemon)\<lparr>dw_cell := \<lparr>dc_state = entered ''a'' installing_daemon, dc_poisoned = False\<rparr>,
         dw_workers := [fresh_worker (install_job ''a'' 0)]\<rparr>"
  have one: "world_step (ExpectedUnix 501) (install ''a'') (new_world installing_daemon) = ?w1"
    by (subst install_step) (simp_all add: new_world_def installing_daemon_def daemon_new_def)
  have two: "dw_workers (world_step (ExpectedUnix 501) (install ''b'') ?w1)
      = [fresh_worker (install_job ''a'' 0), fresh_worker (install_job ''b'' 1)]"
    by (subst install_step) (simp_all add: new_world_def installing_daemon_def daemon_new_def entered_def)
  let ?w = "world_run (ExpectedUnix 501) [install ''a'', install ''b''] (new_world installing_daemon)"
  have ws: "dw_workers ?w = [fresh_worker (install_job ''a'' 0), fresh_worker (install_job ''b'' 1)]"
    using one two by (simp add: world_run_def del: world_step.simps)
  have "is_none_or keyed (dm_dashboard installing_daemon)"
    by (simp add: installing_daemon_def daemon_new_def keyed_def installing_service_def approved_install_def)
  from one_worker_per_activity [OF this refl, of 0 "ExpectedUnix 501" "[install ''a'', install ''b'']" 1]
  show ?thesis using ws by (simp add: fresh_worker_def)
qed

lemma strangers_and_stale_answers_change_nothing_witness:
  "world_step (ExpectedUnix 501) (Dispatch quiet_daemon_env (UnixPeer 502 20 None) (Err LeInvalidFrame))
     (new_world installing_daemon) = new_world installing_daemon"
  using strangers_and_stale_answers_change_nothing [of "ExpectedUnix 501" "UnixPeer 502 20 None"] by simp

end
