(* ===== verification/ChunkStore.thy ===== *)
theory ChunkStore
  imports Policy
begin

text \<open>
  Two small stores of \<open>lib.rs\<close>: the chunked artifact store of a session (module \<open>artifacts\<close>), whose
  artifacts are published under their digest once every chunk is there, and the job journal from which
  a client resumes (module \<open>sessions\<close>).
\<close>

section \<open>Chunked artifacts\<close>

record chunk_metadata =
  cm_sha256 :: string
  cm_size :: u64
  cm_mime_type :: string
  cm_job_id :: string
  cm_expires_at :: u64

datatype chunk_error =
    ChPathTraversal | ChExpired | ChSessionDenied | ChHashMismatch | ChConflict | ChNotPublished
  | ChInvalidMetadata | ChIo

record chunk_entry =
  ce_metadata :: chunk_metadata
  ce_chunk_hashes :: "string list"
  ce_chunks :: "string option list"
  ce_published :: bool

text \<open>\<open>cs_files\<close>: the files below the root of the store, by their names.\<close>

record chunk_store =
  cs_entries :: "(string \<times> string, chunk_entry) hash_map"
  cs_files :: "(string, string) hash_map"

definition chunk_store_new :: "(string, string) hash_map \<Rightarrow> chunk_store" where
  "chunk_store_new files = \<lparr>cs_entries = [], cs_files = files\<rparr>"

definition validate_name :: "string \<Rightarrow> chunk_error + unit" where
  "validate_name name =
     (if name = [] \<or> is_absolute name \<or> \<not> list_all is_normal (path_components name)
      then Err ChPathTraversal else Ok ())"

definition chunk_register ::
    "string \<Rightarrow> chunk_metadata \<Rightarrow> string list \<Rightarrow> u64 \<Rightarrow> chunk_store
     \<Rightarrow> (chunk_error + string \<times> chunk_metadata) \<times> chunk_store" where
  "chunk_register session m hashes now s =
     (case validate_name session of
        Inl e \<Rightarrow> (Err e, s)
      | Inr _ \<Rightarrow>
          if cm_expires_at m \<le> now then (Err ChExpired, s)
          else if length (cm_sha256 m) \<noteq> 64 \<or> hashes = [] then (Err ChInvalidMetadata, s)
          else (Ok (cm_sha256 m, m),
            s\<lparr>cs_entries := hm_insert (session, cm_sha256 m)
                \<lparr>ce_metadata = m, ce_chunk_hashes = hashes, ce_chunks = replicate (length hashes) None,
                 ce_published = False\<rparr> (cs_entries s)\<rparr>))"

definition chunk_key :: "string \<Rightarrow> string \<Rightarrow> chunk_store \<Rightarrow> chunk_error + chunk_entry" where
  "chunk_key session i s =
     and_then (validate_name session)
       (\<lambda>_. case hm_get (cs_entries s) (session, i) of None \<Rightarrow> Err ChSessionDenied | Some e \<Rightarrow> Ok e)"

definition chunk_entry_at :: "string \<Rightarrow> string \<Rightarrow> u64 \<Rightarrow> chunk_store \<Rightarrow> chunk_error + chunk_entry" where
  "chunk_entry_at session i now s =
     and_then (chunk_key session i s)
       (\<lambda>e. if cm_expires_at (ce_metadata e) \<le> now then Err ChExpired else Ok e)"

definition missing_chunks :: "string \<Rightarrow> string \<Rightarrow> u64 \<Rightarrow> chunk_store \<Rightarrow> chunk_error + nat list" where
  "missing_chunks session i now s =
     and_then (chunk_entry_at session i now s)
       (\<lambda>e. Ok (filter (\<lambda>k. ce_chunks e ! k = None) [0..<length (ce_chunks e)]))"

text \<open>The file system's part of a publication: the bytes a failed write leaves, or a failed rename.\<close>

datatype publication = Published | WriteFailed "string option" | RenameFailed

definition temporary_name :: "string \<Rightarrow> string" where
  "temporary_name digest = digest @ ''.tmp''"

definition publish_file ::
    "publication \<Rightarrow> string \<Rightarrow> string \<Rightarrow> (string, string) hash_map
     \<Rightarrow> (chunk_error + unit) \<times> (string, string) hash_map" where
  "publish_file p name bytes files =
     (let tmp = temporary_name name in
      case p of
        Published \<Rightarrow> (Ok (), hm_insert name bytes (hm_remove tmp files))
      | WriteFailed None \<Rightarrow> (Err ChIo, files)
      | WriteFailed (Some partial_bytes) \<Rightarrow> (Err ChIo, hm_insert tmp partial_bytes files)
      | RenameFailed \<Rightarrow> (Err ChIo, hm_insert tmp bytes files))"

definition chunk_bytes :: "string option list \<Rightarrow> string" where
  "chunk_bytes cs = concat (map (\<lambda>c. case c of None \<Rightarrow> [] | Some b \<Rightarrow> b) cs)"

text \<open>Writing into an entry: its result, the entry after it and the files.\<close>

definition write_into ::
    "(string \<Rightarrow> string) \<Rightarrow> publication \<Rightarrow> nat \<Rightarrow> string \<Rightarrow> chunk_entry \<Rightarrow> (string, string) hash_map
     \<Rightarrow> (chunk_error + unit) \<times> chunk_entry \<times> (string, string) hash_map" where
  "write_into sha p index contents e files =
     (if length (ce_chunks e) \<le> index then (Err ChHashMismatch, e, files)
      else case ce_chunks e ! index of
        Some old \<Rightarrow> ((if old = contents then Ok () else Err ChConflict), e, files)
      | None \<Rightarrow>
          if hex (sha contents) \<noteq> ce_chunk_hashes e ! index then (Err ChHashMismatch, e, files)
          else (let chunks = (ce_chunks e)[index := Some contents] in
            if None \<notin> set chunks
            then (let complete = chunk_bytes chunks; m = ce_metadata e in
              if length complete \<noteq> cm_size m \<or> hex (sha complete) \<noteq> cm_sha256 m
              then (Err ChHashMismatch, e, files)
              else case publish_file p (cm_sha256 m) complete files of
                (Inl err, files1) \<Rightarrow> (Err err, e, files1)
              | (Inr _, files1) \<Rightarrow> (Ok (), e\<lparr>ce_chunks := chunks, ce_published := True\<rparr>, files1))
            else (Ok (), e\<lparr>ce_chunks := chunks\<rparr>, files)))"

definition write_chunk ::
    "(string \<Rightarrow> string) \<Rightarrow> publication \<Rightarrow> string \<Rightarrow> string \<Rightarrow> nat \<Rightarrow> string \<Rightarrow> u64 \<Rightarrow> chunk_store
     \<Rightarrow> (chunk_error + unit) \<times> chunk_store" where
  "write_chunk sha p session i index contents now s =
     (case chunk_key session i s of
        Inl e \<Rightarrow> (Err e, s)
      | Inr e \<Rightarrow>
          if cm_expires_at (ce_metadata e) \<le> now then (Err ChExpired, s)
          else (case write_into sha p index contents e (cs_files s) of
            (r, e1, files1) \<Rightarrow>
              (r, \<lparr>cs_entries = hm_insert (session, i) e1 (cs_entries s), cs_files = files1\<rparr>)))"

definition chunk_read :: "string \<Rightarrow> string \<Rightarrow> u64 \<Rightarrow> chunk_store \<Rightarrow> chunk_error + string" where
  "chunk_read session i now s =
     and_then (chunk_entry_at session i now s)
       (\<lambda>e. if \<not> ce_published e then Err ChNotPublished
         else case hm_get (cs_files s) (cm_sha256 (ce_metadata e)) of
           None \<Rightarrow> Err ChIo
         | Some bytes \<Rightarrow> Ok bytes)"

section \<open>Operations and runs\<close>

datatype chunk_call =
    ChunkRegister string chunk_metadata "string list" u64
  | ChunkWrite publication string string nat string u64

fun chunk_step :: "(string \<Rightarrow> string) \<Rightarrow> chunk_call \<Rightarrow> chunk_store \<Rightarrow> chunk_store" where
  "chunk_step sha (ChunkRegister session m hashes now) s = snd (chunk_register session m hashes now s)"
| "chunk_step sha (ChunkWrite p session i index contents now) s =
     snd (write_chunk sha p session i index contents now s)"

definition chunk_run :: "(string \<Rightarrow> string) \<Rightarrow> chunk_call list \<Rightarrow> chunk_store \<Rightarrow> chunk_store" where
  "chunk_run sha calls s = fold (chunk_step sha) calls s"

text \<open>
  Files carry the digest that names them, entries are filed under their digest, hold a chunk for each
  hash, each of them with its hash, and a published one has its file.
\<close>

definition entry_ok :: "(string \<Rightarrow> string) \<Rightarrow> (string, string) hash_map \<Rightarrow> string \<Rightarrow> chunk_entry \<Rightarrow> bool" where
  "entry_ok sha files i e \<longleftrightarrow>
     cm_sha256 (ce_metadata e) = i \<and> length i = 64
     \<and> length (ce_chunks e) = length (ce_chunk_hashes e)
     \<and> (\<forall>k b. k < length (ce_chunks e) \<longrightarrow> ce_chunks e ! k = Some b \<longrightarrow> hex (sha b) = ce_chunk_hashes e ! k)
     \<and> (ce_published e \<longrightarrow> None \<notin> set (ce_chunks e)
          \<and> length (chunk_bytes (ce_chunks e)) = cm_size (ce_metadata e)
          \<and> hex (sha (chunk_bytes (ce_chunks e))) = i \<and> hm_has files i)"

definition files_ok :: "(string \<Rightarrow> string) \<Rightarrow> (string, string) hash_map \<Rightarrow> bool" where
  "files_ok sha files \<longleftrightarrow> (\<forall>n b. length n = 64 \<longrightarrow> hm_get files n = Some b \<longrightarrow> hex (sha b) = n)"

definition chunks_ok :: "(string \<Rightarrow> string) \<Rightarrow> chunk_store \<Rightarrow> bool" where
  "chunks_ok sha s \<longleftrightarrow> files_ok sha (cs_files s)
     \<and> (\<forall>session i e. hm_get (cs_entries s) (session, i) = Some e \<longrightarrow> entry_ok sha (cs_files s) i e)"

lemma files_ok_insert:
  "files_ok sha files \<Longrightarrow> (length n = 64 \<Longrightarrow> hex (sha b) = n) \<Longrightarrow> files_ok sha (hm_insert n b files)"
  by (auto simp: files_ok_def)

lemma files_ok_remove: "files_ok sha files \<Longrightarrow> files_ok sha (hm_remove n files)"
  by (auto simp: files_ok_def split: if_splits)

definition bytes_kept :: "(string, string) hash_map \<Rightarrow> (string, string) hash_map \<Rightarrow> bool" where
  "bytes_kept files files1 \<longleftrightarrow> (\<forall>k. length k = 64 \<longrightarrow> hm_has files k \<longrightarrow> hm_has files1 k)"

lemma bytes_kept_refl [simp]: "bytes_kept files files"
  by (simp add: bytes_kept_def)

lemma temporary_length: "length n = 64 \<Longrightarrow> length (temporary_name n) = 68"
  by (simp add: temporary_name_def)

lemma publish_keeps:
  assumes "publish_file p n bytes files = (r, files1)" and "files_ok sha files" and "length n = 64"
    and "hex (sha bytes) = n"
  shows "files_ok sha files1" and "bytes_kept files files1" and "r = Inr () \<Longrightarrow> hm_has files1 n"
proof -
  have l: "length (temporary_name n) \<noteq> 64" using temporary_length [OF assms(3)] by simp
  show "files_ok sha files1"
    using assms(1) l files_ok_insert [OF assms(2)] files_ok_insert [OF files_ok_remove [OF assms(2)], where n = n and b = bytes]
      assms(2,4)
    by (cases p) (auto simp: publish_file_def Let_def split: option.splits)
  show "bytes_kept files files1"
    using assms(1) l by (cases p) (auto simp: publish_file_def Let_def bytes_kept_def split: option.splits)
  show "r = Inr () \<Longrightarrow> hm_has files1 n"
    using assms(1) by (cases p) (auto simp: publish_file_def Let_def split: option.splits)
qed

lemma write_into_cases:
  assumes "write_into sha p index contents e files = (r, e1, files1)"
  obtains (same) "e1 = e" "files1 = files" "r = Inr () \<Longrightarrow> index < length (ce_chunks e) \<and> ce_chunks e ! index = Some contents"
  | (failed) bytes err where "e1 = e" "r = Inl err" "publish_file p (cm_sha256 (ce_metadata e)) bytes files = (Inl err, files1)"
      "hex (sha bytes) = cm_sha256 (ce_metadata e)"
  | (stored) "index < length (ce_chunks e)" "ce_chunks e ! index = None" "r = Inr ()"
      "hex (sha contents) = ce_chunk_hashes e ! index" "None \<in> set ((ce_chunks e)[index := Some contents])"
      "e1 = e\<lparr>ce_chunks := (ce_chunks e)[index := Some contents]\<rparr>" "files1 = files"
  | (complete) "index < length (ce_chunks e)" "ce_chunks e ! index = None" "r = Inr ()"
      "hex (sha contents) = ce_chunk_hashes e ! index" "None \<notin> set ((ce_chunks e)[index := Some contents])"
      "e1 = e\<lparr>ce_chunks := (ce_chunks e)[index := Some contents], ce_published := True\<rparr>"
      "length (chunk_bytes ((ce_chunks e)[index := Some contents])) = cm_size (ce_metadata e)"
      "hex (sha (chunk_bytes ((ce_chunks e)[index := Some contents]))) = cm_sha256 (ce_metadata e)"
      "publish_file p (cm_sha256 (ce_metadata e)) (chunk_bytes ((ce_chunks e)[index := Some contents])) files = (Inr (), files1)"
  using assms
  by (auto simp: write_into_def Let_def not_le split: if_splits option.splits prod.splits sum.splits)

lemma entry_ok_files: "entry_ok sha files i e \<Longrightarrow> bytes_kept files files1 \<Longrightarrow> entry_ok sha files1 i e"
  by (auto simp: entry_ok_def bytes_kept_def)

lemma write_into_keeps:
  assumes "write_into sha p index contents e files = (r, e1, files1)" and "entry_ok sha files i e"
    and "files_ok sha files"
  shows "entry_ok sha files1 i e1" and "files_ok sha files1" and "bytes_kept files files1"
proof -
  have i: "cm_sha256 (ce_metadata e) = i" "length i = 64" using assms(2) by (simp_all add: entry_ok_def)
  have "entry_ok sha files1 i e1 \<and> files_ok sha files1 \<and> bytes_kept files files1"
    using assms(1)
  proof (cases rule: write_into_cases)
    case same
    then show ?thesis using assms by simp
  next
    case (failed bytes err)
    then show ?thesis
      using publish_keeps [OF failed(3) assms(3)] i assms(2) entry_ok_files by auto
  next
    case stored
    have "\<not> ce_published e"
      using stored(1,2) assms(2) by (metis entry_ok_def nth_mem)
    then show ?thesis
      using stored assms(2,3) by (auto simp: entry_ok_def nth_list_update)
  next
    case complete
    then show ?thesis
      using publish_keeps [OF complete(9) assms(3)] i assms(2)
      by (auto simp: entry_ok_def nth_list_update)
  qed
  then show "entry_ok sha files1 i e1" "files_ok sha files1" "bytes_kept files files1" by auto
qed

lemma chunk_step_ok: "chunks_ok sha s \<Longrightarrow> chunks_ok sha (chunk_step sha call s)"
proof (cases call)
  case (ChunkRegister session m hashes now)
  assume "chunks_ok sha s"
  then show ?thesis
    using ChunkRegister
    by (auto simp: chunk_register_def chunks_ok_def entry_ok_def split: sum.splits if_splits)
next
  case (ChunkWrite p session i index contents now)
  assume ok: "chunks_ok sha s"
  show ?thesis
  proof (cases "chunk_key session i s")
    case (Inl x)
    then show ?thesis using ok ChunkWrite by (simp add: write_chunk_def)
  next
    case (Inr e)
    then have e: "hm_get (cs_entries s) (session, i) = Some e"
      by (auto simp: chunk_key_def validate_name_def split: option.splits if_splits)
    obtain r e1 files1 where w: "write_into sha p index contents e (cs_files s) = (r, e1, files1)"
      by (metis prod_cases3)
    have "entry_ok sha (cs_files s) i e" "files_ok sha (cs_files s)" using ok e by (auto simp: chunks_ok_def)
    note kept = write_into_keeps [OF w this]
    have "entry_ok sha files1 j f" if "hm_get (cs_entries s) (t, j) = Some f" for t j f
      by (rule entry_ok_files [OF _ kept(3)]) (use that ok in \<open>auto simp: chunks_ok_def\<close>)
    then show ?thesis
      using ok ChunkWrite Inr w kept by (auto simp: write_chunk_def chunks_ok_def split: if_splits)
  qed
qed

lemma chunk_run_ok: "chunks_ok sha s \<Longrightarrow> chunks_ok sha (chunk_run sha calls s)"
  unfolding chunk_run_def by (induction calls arbitrary: s) (auto intro: chunk_step_ok)

text \<open>C37. Starting from files that carry their digests, whatever sequence of registrations and chunk
  writes runs, and however publications fail, a read that succeeds returns bytes whose SHA-256 is the
  identifier that was asked for, and the chunks of that artifact have the hashes they were registered
  with and make up exactly the registered size.\<close>

theorem read_artifact_has_its_digest:
  assumes "files_ok sha files" and "chunk_read session i now (chunk_run sha calls (chunk_store_new files)) = Ok bytes"
  shows "hex (sha bytes) = i
    \<and> (\<exists>e. hm_get (cs_entries (chunk_run sha calls (chunk_store_new files))) (session, i) = Some e
        \<and> list_all2 (\<lambda>c h. \<exists>b. c = Some b \<and> hex (sha b) = h) (ce_chunks e) (ce_chunk_hashes e)
        \<and> length (chunk_bytes (ce_chunks e)) = cm_size (ce_metadata e)
        \<and> hex (sha (chunk_bytes (ce_chunks e))) = i)"
proof -
  let ?s = "chunk_run sha calls (chunk_store_new files)"
  have ok: "chunks_ok sha ?s"
    by (rule chunk_run_ok) (use assms(1) in \<open>simp add: chunks_ok_def chunk_store_new_def\<close>)
  obtain e where e: "hm_get (cs_entries ?s) (session, i) = Some e" "ce_published e"
    "hm_get (cs_files ?s) (cm_sha256 (ce_metadata e)) = Some bytes"
    using assms(2)
    by (auto simp: chunk_read_def chunk_entry_at_def chunk_key_def validate_name_def
        split: option.splits if_splits)
  then have entry: "entry_ok sha (cs_files ?s) i e" using ok by (simp add: chunks_ok_def)
  then have "hex (sha bytes) = i" using e(3) ok by (simp add: chunks_ok_def files_ok_def entry_ok_def)
  moreover have "\<exists>b. ce_chunks e ! k = Some b \<and> hex (sha b) = ce_chunk_hashes e ! k" if "k < length (ce_chunks e)" for k
    using entry e(2) that nth_mem [OF that] by (cases "ce_chunks e ! k") (auto simp: entry_ok_def)
  ultimately show ?thesis using entry e by (auto simp: entry_ok_def list_all2_conv_all_nth)
qed

section \<open>The job journal\<close>

record journal_event =
  je_job_id :: string
  je_sequence :: u64
  je_kind :: string
  je_payload :: string

record job_journal =
  jj_events :: "(string, journal_event list) hash_map"
  jj_requests :: "(string, string) hash_map"

definition job_journal_new :: job_journal where
  "job_journal_new = \<lparr>jj_events = [], jj_requests = []\<rparr>"

definition events_of_job :: "string \<Rightarrow> job_journal \<Rightarrow> journal_event list" where
  "events_of_job job j = (case hm_get (jj_events j) job of None \<Rightarrow> [] | Some es \<Rightarrow> es)"

definition journal_append :: "string \<Rightarrow> string \<Rightarrow> string \<Rightarrow> job_journal \<Rightarrow> job_journal" where
  "journal_append job kind payload j =
     j\<lparr>jj_events := hm_insert job
         (events_of_job job j @ [\<lparr>je_job_id = job, je_sequence = length (events_of_job job j) + 1,
            je_kind = kind, je_payload = payload\<rparr>]) (jj_events j)\<rparr>"

datatype resume_error = ResumeCursorAhead

definition journal_resume :: "string \<Rightarrow> u64 \<Rightarrow> job_journal \<Rightarrow> resume_error + journal_event list" where
  "journal_resume job seen j =
     (if seen > length (events_of_job job j) then Err ResumeCursorAhead
      else Ok (filter (\<lambda>e. je_sequence e > seen) (events_of_job job j)))"

text \<open>The operation runs only when the request has no result yet; the second component says whether.\<close>

definition execute_once :: "string \<Rightarrow> string \<Rightarrow> job_journal \<Rightarrow> string \<times> bool \<times> job_journal" where
  "execute_once request outcome j =
     (case hm_get (jj_requests j) request of
        Some r \<Rightarrow> (r, False, j)
      | None \<Rightarrow> (outcome, True, j\<lparr>jj_requests := hm_insert request outcome (jj_requests j)\<rparr>))"

record session_client =
  sl_job_id :: string
  sl_acknowledged :: u64

definition session_client_new :: "string \<Rightarrow> session_client" where
  "session_client_new job = \<lparr>sl_job_id = job, sl_acknowledged = 0\<rparr>"

definition client_acknowledge :: "u64 \<Rightarrow> session_client \<Rightarrow> session_client" where
  "client_acknowledge sequence c = c\<lparr>sl_acknowledged := sequence\<rparr>"

definition client_connect :: "session_client \<Rightarrow> job_journal \<Rightarrow> resume_error + journal_event list" where
  "client_connect c j = journal_resume (sl_job_id c) (sl_acknowledged c) j"

text \<open>The events of every job are numbered from one without a gap.\<close>

definition numbered :: "job_journal \<Rightarrow> bool" where
  "numbered j \<longleftrightarrow> (\<forall>job. map je_sequence (events_of_job job j) = [1..<length (events_of_job job j) + 1])"

lemma numbered_new: "numbered job_journal_new"
  by (simp add: numbered_def job_journal_new_def events_of_job_def)

lemma events_of_append:
  "events_of_job k (journal_append job kind payload j)
     = (if k = job then events_of_job job j @ [\<lparr>je_job_id = job, je_sequence = length (events_of_job job j) + 1,
          je_kind = kind, je_payload = payload\<rparr>] else events_of_job k j)"
  by (simp add: journal_append_def events_of_job_def)

lemma numbered_append: "numbered j \<Longrightarrow> numbered (journal_append job kind payload j)"
  by (simp add: numbered_def events_of_append Suc_le_eq)

lemma events_after_seen:
  assumes "map je_sequence es = [1..<length es + 1]"
  shows "filter (\<lambda>e. je_sequence e > n) es = drop n es"
proof -
  have "je_sequence (es ! k) = k + 1" if "k < length es" for k
    using assms that by (metis add.commute diff_add_inverse2 length_map length_upt less_diff_conv nth_map nth_upt)
  then have small: "\<forall>e \<in> set (take n es). \<not> je_sequence e > n" and large: "\<forall>e \<in> set (drop n es). je_sequence e > n"
    by (auto simp: in_set_conv_nth)
  have "filter (\<lambda>e. je_sequence e > n) (take n es @ drop n es) = drop n es"
    using small large by (simp only: filter_append) (simp add: filter_empty_conv filter_id_conv)
  then show ?thesis by simp
qed

fun journal_steps :: "(string \<times> string \<times> string) list \<Rightarrow> job_journal \<Rightarrow> job_journal" where
  "journal_steps [] j = j"
| "journal_steps ((job, kind, payload) # xs) j = journal_steps xs (journal_append job kind payload j)"

lemma journal_steps_numbered: "numbered j \<Longrightarrow> numbered (journal_steps xs j)"
  by (induction xs j rule: journal_steps.induct) (auto intro: numbered_append)

lemma journal_steps_events:
  "events_of_job job (journal_steps xs j) = events_of_job job j @ drop (length (events_of_job job j)) (events_of_job job (journal_steps xs j))
   \<and> length (events_of_job job (journal_steps xs j)) = length (events_of_job job j) + length (filter (\<lambda>x. fst x = job) xs)"
proof (induction xs j rule: journal_steps.induct)
  case (1 j)
  then show ?case by simp
next
  case (2 job' kind payload xs j)
  let ?j = "journal_append job' kind payload j" and ?t = "journal_steps ((job', kind, payload) # xs) j"
  have "prefix (events_of_job job j) (events_of_job job ?j)" by (simp add: events_of_append)
  moreover have "prefix (events_of_job job ?j) (events_of_job job ?t)"
    using conjunct1 [OF 2] by (metis journal_steps.simps(2) prefixI)
  ultimately have "prefix (events_of_job job j) (events_of_job job ?t)" by (rule prefix_order.trans)
  then show ?case using conjunct2 [OF 2] by (auto simp: events_of_append elim!: prefixE)
qed

text \<open>A client that connects again sees exactly the events it has not acknowledged, in order: when it
  acknowledged all there were, whatever was appended for its job in between, each event once.\<close>

theorem reconnecting_client_sees_the_rest:
  assumes "numbered j" and "sl_acknowledged c = length (events_of_job (sl_job_id c) j)"
  shows "\<exists>fresh. client_connect c (journal_steps xs j) = Ok fresh
    \<and> events_of_job (sl_job_id c) (journal_steps xs j) = events_of_job (sl_job_id c) j @ fresh
    \<and> length fresh = length (filter (\<lambda>x. fst x = sl_job_id c) xs)"
proof -
  let ?old = "events_of_job (sl_job_id c) j" and ?all = "events_of_job (sl_job_id c) (journal_steps xs j)"
  have all: "?all = ?old @ drop (length ?old) ?all" "length ?all = length ?old + length (filter (\<lambda>x. fst x = sl_job_id c) xs)"
    using journal_steps_events by blast+
  have "filter (\<lambda>e. je_sequence e > length ?old) ?all = drop (length ?old) ?all"
    by (rule events_after_seen) (use journal_steps_numbered [OF assms(1)] in \<open>simp add: numbered_def\<close>)
  then have "client_connect c (journal_steps xs j) = Ok (drop (length ?old) ?all)"
    using assms(2) all(2) by (simp add: client_connect_def journal_resume_def)
  then show ?thesis using all by auto
qed

lemma reconnecting_client_sees_the_rest_witness:
  "\<exists>fresh. client_connect (client_acknowledge 1 (session_client_new ''j''))
      (journal_steps [(''j'', ''b'', []), (''k'', ''c'', [])] (journal_append ''j'' ''a'' [] job_journal_new)) = Ok fresh
    \<and> length fresh = 1"
proof -
  have "numbered (journal_append ''j'' ''a'' [] job_journal_new)" by (intro numbered_append numbered_new)
  from reconnecting_client_sees_the_rest [OF this, of "client_acknowledge 1 (session_client_new ''j'')"
      "[(''j'', ''b'', []), (''k'', ''c'', [])]"]
  show ?thesis
    by (auto simp: client_acknowledge_def session_client_new_def events_of_append)
       (simp_all add: events_of_job_def job_journal_new_def)
qed

text \<open>An operation runs once per request, and every caller gets the result of that run.\<close>

lemma executes_once:
  "execute_once request x j = (r, did, j1) \<Longrightarrow> execute_once request y j1 = (r, False, j1)"
  by (auto simp: execute_once_def split: option.splits)

definition flat_digest :: "string \<Rightarrow> string" where
  "flat_digest _ = replicate 32 (CHR ''a'')"

lemma read_artifact_has_its_digest_witness:
  "let digest = hex (flat_digest []);
       m = \<lparr>cm_sha256 = digest, cm_size = 4, cm_mime_type = ''text/plain'', cm_job_id = ''j'', cm_expires_at = 9\<rparr>;
       s = chunk_run flat_digest [ChunkRegister ''s'' m [digest] 1, ChunkWrite Published ''s'' digest 0 ''data'' 2] (chunk_store_new [])
   in chunk_read ''s'' digest 3 s = Ok ''data'' \<and> hex (flat_digest ''data'') = digest"
proof -
  let ?digest = "hex (flat_digest [])"
  let ?m = "\<lparr>cm_sha256 = ?digest, cm_size = 4, cm_mime_type = ''text/plain'', cm_job_id = ''j'', cm_expires_at = 9\<rparr>"
  let ?s = "chunk_run flat_digest [ChunkRegister ''s'' ?m [?digest] 1, ChunkWrite Published ''s'' ?digest 0 ''data'' 2] (chunk_store_new [])"
  have digest: "length ?digest = 64" "\<And>b. hex (flat_digest b) = ?digest" by (simp_all add: hex_def flat_digest_def length_concat sum_list_replicate)
  have name: "validate_name ''s'' = Ok ()" by code_simp
  have read: "chunk_read ''s'' ?digest 3 ?s = Ok ''data''"
    using digest name
    by (simp add: chunk_run_def chunk_register_def chunk_store_new_def write_chunk_def chunk_key_def write_into_def
        publish_file_def chunk_bytes_def chunk_read_def chunk_entry_at_def Let_def)
  have "files_ok flat_digest []" by (simp add: files_ok_def)
  from read_artifact_has_its_digest [OF this read] read show ?thesis by (simp add: Let_def)
qed

end
