(* ===== verification/Connection.thy ===== *)
theory Connection
  imports Daemon
begin

text \<open>
  The connection settings of a machine (\<open>connection_config.rs\<close>): which registry addresses are accepted,
  with the parser of socket addresses that the standard library has, and the file beside the identity
  that keeps them. The daemon's connection change works on this file.
\<close>

section \<open>Internet addresses\<close>

text \<open>The number parser of \<open>core::net\<close>: the digits of a radix, with a bound on the value and their count.\<close>

definition digit_value :: "char \<Rightarrow> nat option" where
  "digit_value c =
     (if is_ascii_digit c then Some (byte_of c - 48)
      else if 97 \<le> byte_of c \<and> byte_of c \<le> 102 then Some (byte_of c - 87)
      else if 65 \<le> byte_of c \<and> byte_of c \<le> 70 then Some (byte_of c - 55)
      else None)"

definition is_digit_of :: "nat \<Rightarrow> char \<Rightarrow> bool" where
  "is_digit_of radix c = is_some_and (\<lambda>d. d < radix) (digit_value c)"

definition number_of_digits :: "nat \<Rightarrow> string \<Rightarrow> nat" where
  "number_of_digits radix s = fold (\<lambda>c n. n * radix + the (digit_value c)) s 0"

definition net_number ::
    "nat \<Rightarrow> nat option \<Rightarrow> nat \<Rightarrow> bool \<Rightarrow> string \<Rightarrow> (nat \<times> string) option" where
  "net_number radix max_digits bound zero_prefix s =
     (let ds = takeWhile (is_digit_of radix) s; n = number_of_digits radix ds in
      if ds = [] \<or> n > bound \<or> is_some_and (\<lambda>m. length ds > m) max_digits
         \<or> (\<not> zero_prefix \<and> hd ds = CHR ''0'' \<and> length ds > 1)
      then None else Some (n, drop (length ds) s))"

definition given_char :: "char \<Rightarrow> string \<Rightarrow> string option" where
  "given_char c s = (if s \<noteq> [] \<and> hd s = c then Some (tl s) else None)"

text \<open>An item behind a separator, which the first item does not have.\<close>

definition separated :: "char \<Rightarrow> nat \<Rightarrow> (string \<Rightarrow> ('a \<times> string) option) \<Rightarrow> string \<Rightarrow> ('a \<times> string) option" where
  "separated sep index p s =
     (if index = 0 then p s else case given_char sep s of None \<Rightarrow> None | Some r \<Rightarrow> p r)"

fun read_octets :: "nat \<Rightarrow> nat \<Rightarrow> string \<Rightarrow> (nat list \<times> string) option" where
  "read_octets index 0 s = Some ([], s)"
| "read_octets index (Suc n) s =
     (case separated (CHR ''.'') index (net_number 10 (Some 3) 255 False) s of
        None \<Rightarrow> None
      | Some (d, r) \<Rightarrow>
          (case read_octets (index + 1) n r of
             None \<Rightarrow> None
           | Some (ds, r1) \<Rightarrow> Some (d # ds, r1)))"

definition read_ipv4 :: "string \<Rightarrow> (nat list \<times> string) option" where
  "read_ipv4 s = read_octets 0 4 s"

text \<open>
  Groups of an IPv6 address, at most \<open>n\<close> of them: the groups, whether an IPv4 address ended them, and
  the rest.
\<close>

fun read_groups :: "nat \<Rightarrow> nat \<Rightarrow> string \<Rightarrow> nat list \<times> bool \<times> string" where
  "read_groups index 0 s = ([], False, s)"
| "read_groups index (Suc n) s =
     (case (if n > 0 then separated (CHR '':'') index read_ipv4 s else None) of
        Some ([a, b, c, d], r) \<Rightarrow> ([a * 256 + b, c * 256 + d], True, r)
      | _ \<Rightarrow>
          (case separated (CHR '':'') index (net_number 16 (Some 4) 65535 True) s of
             None \<Rightarrow> ([], False, s)
           | Some (g, r) \<Rightarrow>
               (case read_groups (index + 1) n r of (gs, v4, r1) \<Rightarrow> (g # gs, v4, r1))))"

definition read_ipv6 :: "string \<Rightarrow> (nat list \<times> string) option" where
  "read_ipv6 s =
     (case read_groups 0 8 s of (front, v4, r) \<Rightarrow>
        if length front = 8 then Some (front, r)
        else if v4 then None
        else case given_char (CHR '':'') r of None \<Rightarrow> None | Some r1 \<Rightarrow>
          (case given_char (CHR '':'') r1 of None \<Rightarrow> None | Some r2 \<Rightarrow>
             (case read_groups 0 (7 - length front) r2 of (back, _, r3) \<Rightarrow>
                Some (front @ replicate (8 - length front - length back) 0 @ back, r3))))"

datatype ip_addr = V4 "nat list" | V6 "nat list"

definition parse_ip :: "string \<Rightarrow> ip_addr option" where
  "parse_ip s =
     (case read_ipv4 s of
        Some (ds, r) \<Rightarrow> if r = [] then Some (V4 ds) else None
      | None \<Rightarrow> (case read_ipv6 s of Some (gs, []) \<Rightarrow> Some (V6 gs) | _ \<Rightarrow> None))"

definition read_port :: "string \<Rightarrow> (nat \<times> string) option" where
  "read_port s =
     (case given_char (CHR '':'') s of None \<Rightarrow> None | Some r \<Rightarrow> net_number 10 None 65535 True r)"

definition skip_scope :: "string \<Rightarrow> string" where
  "skip_scope s =
     (case given_char (CHR ''%'') s of
        None \<Rightarrow> s
      | Some r \<Rightarrow> (case net_number 10 None 4294967295 True r of None \<Rightarrow> s | Some (_, r1) \<Rightarrow> r1))"

definition read_socket_v4 :: "string \<Rightarrow> ((ip_addr \<times> nat) \<times> string) option" where
  "read_socket_v4 s =
     (case read_ipv4 s of
        None \<Rightarrow> None
      | Some (ds, r) \<Rightarrow> (case read_port r of None \<Rightarrow> None | Some (p, r1) \<Rightarrow> Some ((V4 ds, p), r1)))"

definition read_socket_v6 :: "string \<Rightarrow> ((ip_addr \<times> nat) \<times> string) option" where
  "read_socket_v6 s =
     (case given_char (CHR ''['') s of None \<Rightarrow> None | Some r \<Rightarrow>
     (case read_ipv6 r of None \<Rightarrow> None | Some (gs, r1) \<Rightarrow>
     (case given_char (CHR '']'') (skip_scope r1) of None \<Rightarrow> None | Some r2 \<Rightarrow>
     (case read_port r2 of None \<Rightarrow> None | Some (p, r3) \<Rightarrow> Some ((V6 gs, p), r3)))))"

definition parse_socket :: "string \<Rightarrow> (ip_addr \<times> nat) option" where
  "parse_socket s =
     (case read_socket_v4 s of
        Some (x, r) \<Rightarrow> if r = [] then Some x else None
      | None \<Rightarrow> (case read_socket_v6 s of Some (x, []) \<Rightarrow> Some x | _ \<Rightarrow> None))"

fun is_unspecified :: "ip_addr \<Rightarrow> bool" where
  "is_unspecified (V4 ds) = (ds = [0, 0, 0, 0])"
| "is_unspecified (V6 gs) = list_all (\<lambda>g. g = 0) gs"

fun is_multicast :: "ip_addr \<Rightarrow> bool" where
  "is_multicast (V4 ds) = (224 \<le> hd ds \<and> hd ds \<le> 239)"
| "is_multicast (V6 gs) = (65280 \<le> hd gs)"

section \<open>Registry addresses\<close>

definition is_ascii_whitespace :: "char \<Rightarrow> bool" where
  "is_ascii_whitespace c = (byte_of c \<in> {9, 10, 12, 13, 32})"

text \<open>\<open>rsplit_once\<close>: around the last separator.\<close>

definition rsplit_once :: "char \<Rightarrow> string \<Rightarrow> (string \<times> string) option" where
  "rsplit_once c s =
     (if c \<in> set s
      then Some (butlast (rev (dropWhile (\<lambda>x. x \<noteq> c) (rev s))), rev (takeWhile (\<lambda>x. x \<noteq> c) (rev s)))
      else None)"

definition port_number :: "string \<Rightarrow> nat option" where
  "port_number s =
     (let n = number_of_digits 10 s in
      if s = [] \<or> \<not> list_all is_ascii_digit s \<or> n > 65535 then None else Some n)"

definition valid_label :: "string \<Rightarrow> bool" where
  "valid_label l =
     (l \<noteq> [] \<and> length l \<le> 63 \<and> is_ascii_alphanumeric (hd l) \<and> is_ascii_alphanumeric (last l)
      \<and> list_all (\<lambda>c. is_ascii_alphanumeric c \<or> c = CHR ''-'') l)"

definition valid_endpoint :: "string \<Rightarrow> bool" where
  "valid_endpoint address =
     (if length address > 260 \<or> \<not> list_all (\<lambda>c. byte_of c < 128) address
         \<or> list_ex is_ascii_whitespace address
      then False
      else case parse_socket address of
        Some (ip, port) \<Rightarrow> port \<noteq> 0 \<and> \<not> is_unspecified ip \<and> \<not> is_multicast ip
      | None \<Rightarrow>
          (case rsplit_once (CHR '':'') address of
             None \<Rightarrow> False
           | Some (host, port) \<Rightarrow>
               if port = [] \<or> \<not> list_all is_ascii_digit port
                  \<or> is_none_or (\<lambda>p. p = 0) (port_number port)
               then False
               else if host = [] \<or> length host > 253 \<or> parse_ip host \<noteq> None
                       \<or> list_all (\<lambda>c. is_ascii_digit c \<or> c = CHR ''.'') host
               then False
               else list_all valid_label (split_on (CHR ''.'') host)))"

section \<open>Settings and their file\<close>

text \<open>\<open>dns_name\<close>: whether the TLS library takes the identifier as a server name.\<close>

definition connection_new ::
    "(string \<Rightarrow> bool) \<Rightarrow> string \<Rightarrow> string \<Rightarrow> connection_error + connection_config" where
  "connection_new dns_name address peer =
     (if \<not> valid_endpoint address then Err CeInvalidEndpoint
      else if length peer > 128 \<or> \<not> (valid_machine_id peer \<and> dns_name peer) then Err CeInvalidPeer
      else Ok \<lparr>cc_version = 1, cc_registry_address = address, cc_registry_peer_id = peer\<rparr>)"

text \<open>What \<open>symlink_metadata\<close> says of a path: it is not there, it cannot be read, it is something else
  than the file or directory it has to be or open to others, or it is in order.\<close>

datatype path_state = PathMissing | PathUnreadable | PathUnsafe | PathGood

record settings_disk =
  sd_directory :: path_state
  sd_file :: path_state
  sd_bytes :: string

record settings_io =
  si_parse :: "string \<Rightarrow> connection_config option"
  si_encode :: "connection_config \<Rightarrow> string option"
  si_dns_name :: "string \<Rightarrow> bool"
  si_opens :: bool
  si_opened :: path_state
  si_reads :: bool
  si_creates :: "path_state option"
  si_write :: checkpoint_write

definition MAX_SETTINGS_BYTES :: nat where "MAX_SETTINGS_BYTES = 4096"

definition settings_load ::
    "settings_io \<Rightarrow> string \<Rightarrow> settings_disk \<Rightarrow> connection_error + connection_config option" where
  "settings_load io identity d =
     (if \<not> is_absolute identity then Err CeInvalidFile
      else case sd_directory d of
        PathMissing \<Rightarrow> Ok None | PathUnreadable \<Rightarrow> Err CeUnavailable | PathUnsafe \<Rightarrow> Err CeInvalidFile
      | PathGood \<Rightarrow>
     (case sd_file d of
        PathMissing \<Rightarrow> Ok None | PathUnreadable \<Rightarrow> Err CeUnavailable | PathUnsafe \<Rightarrow> Err CeInvalidFile
      | PathGood \<Rightarrow>
          if \<not> si_opens io \<or> si_opened io = PathUnreadable \<or> si_opened io = PathMissing then Err CeUnavailable
          else if si_opened io = PathUnsafe then Err CeInvalidFile
          else if \<not> si_reads io then Err CeUnavailable
          else if length (sd_bytes d) > MAX_SETTINGS_BYTES then Err CeTooLarge
          else case si_parse io (sd_bytes d) of
            None \<Rightarrow> Err CeInvalidFormat
          | Some w \<Rightarrow>
              if cc_version w \<noteq> 1 then Err CeUnsupportedVersion
              else and_then (connection_new (si_dns_name io) (cc_registry_address w) (cc_registry_peer_id w))
                (\<lambda>c. Ok (Some c))))"

text \<open>\<open>si_creates\<close>: what making the directory comes to; \<open>None\<close> is an error.\<close>

definition settings_save ::
    "settings_io \<Rightarrow> string \<Rightarrow> connection_config \<Rightarrow> settings_disk \<Rightarrow> (connection_error + unit) \<times> settings_disk" where
  "settings_save io identity c d0 =
     (if \<not> is_absolute identity then (Err CeInvalidFile, d0)
      else case (if sd_directory d0 = PathMissing
                 then (case si_creates io of None \<Rightarrow> None | Some st \<Rightarrow> Some (d0\<lparr>sd_directory := st\<rparr>))
                 else Some d0) of
        None \<Rightarrow> (Err CeUnavailable, d0)
      | Some d \<Rightarrow>
     (case sd_directory d of
        PathMissing \<Rightarrow> (Err CeUnavailable, d) | PathUnreadable \<Rightarrow> (Err CeUnavailable, d)
      | PathUnsafe \<Rightarrow> (Err CeInvalidFile, d)
      | PathGood \<Rightarrow>
          if sd_file d = PathUnsafe then (Err CeInvalidFile, d)
          else if sd_file d = PathUnreadable then (Err CeUnavailable, d)
          else case si_encode io c of
            None \<Rightarrow> (Err CeInvalidFormat, d)
          | Some bytes \<Rightarrow>
              (let written = d\<lparr>sd_file := PathGood, sd_bytes := bytes\<rparr> in
               case si_write io of
                 CheckpointWritten \<Rightarrow> (Ok (), written)
               | CheckpointNotWritten \<Rightarrow> (Err CeUnavailable, d)
               | CheckpointUnsynced \<Rightarrow> (Err CeUnavailable, written))))"

text \<open>The write of a connection change: the settings before it, its result and the settings after it.\<close>

definition observed_write ::
    "settings_io \<Rightarrow> settings_io \<Rightarrow> settings_io \<Rightarrow> string \<Rightarrow> connection_config \<Rightarrow> settings_disk
     \<Rightarrow> connection_write \<times> settings_disk" where
  "observed_write io1 io2 io3 identity c d =
     (case settings_save io2 identity c d of (saved, d1) \<Rightarrow>
        (\<lparr>cw_before = settings_load io1 identity d, cw_saved = saved, cw_after = settings_load io3 identity d1\<rparr>, d1))"

section \<open>Properties\<close>

lemmas read_octets_numeral = read_octets.simps(2) [where n = "pred_numeral k" for k, folded numeral_eq_Suc]
lemmas read_groups_numeral = read_groups.simps(2) [where n = "pred_numeral k" for k, folded numeral_eq_Suc]

lemma connection_new_Ok:
  "connection_new dns a p = Ok c \<longleftrightarrow>
     valid_endpoint a \<and> length p \<le> 128 \<and> valid_machine_id p \<and> dns p
     \<and> c = \<lparr>cc_version = 1, cc_registry_address = a, cc_registry_peer_id = p\<rparr>"
  by (auto simp: connection_new_def)

text \<open>Settings that come from a file passed the same checks as new ones.\<close>

lemma loaded_settings:
  assumes "settings_load io identity d = Ok (Some c)"
  shows "connection_new (si_dns_name io) (cc_registry_address c) (cc_registry_peer_id c) = Ok c
    \<and> sd_directory d = PathGood \<and> sd_file d = PathGood \<and> length (sd_bytes d) \<le> MAX_SETTINGS_BYTES"
  using assms
  by (auto simp: settings_load_def connection_new_Ok split: if_splits path_state.splits option.splits)


text \<open>A number that is read lies within its bound, and something of the input is used up.\<close>

lemma net_number_Some:
  "net_number radix m bound z s = Some (n, r) \<Longrightarrow> n \<le> bound \<and> length r < length s"
proof -
  assume a: "net_number radix m bound z s = Some (n, r)"
  have "takeWhile (is_digit_of radix) s \<noteq> []" "n \<le> bound"
    and r: "r = drop (length (takeWhile (is_digit_of radix) s)) s"
    using a by (auto simp: net_number_def Let_def split: if_splits)
  then show ?thesis by (cases s) (auto split: if_splits simp: less_Suc_eq_le)
qed

lemma separated_Some:
  "separated sep i p s = Some x \<Longrightarrow> \<exists>r. p r = Some x"
  by (auto simp: separated_def split: if_splits option.splits)

lemma read_octets_Some:
  "read_octets i n s = Some (ds, r) \<Longrightarrow> length ds = n \<and> list_all (\<lambda>d. d \<le> 255) ds"
proof (induction i n s arbitrary: ds r rule: read_octets.induct)
  case (2 i n s)
  from "2.prems" obtain d r0 ds1 where d: "separated (CHR ''.'') i (net_number 10 (Some 3) 255 False) s = Some (d, r0)"
      and ds: "read_octets (i + 1) n r0 = Some (ds1, r)" "ds = d # ds1"
    by (auto split: option.splits)
  from d obtain q where "net_number 10 (Some 3) 255 False q = Some (d, r0)"
    using separated_Some by metis
  then show ?case using "2.IH" [OF d refl ds(1)] ds(2) net_number_Some by fastforce
qed simp

definition four_octets :: "nat list \<Rightarrow> bool" where
  "four_octets ds = (length ds = 4 \<and> list_all (\<lambda>d. d \<le> 255) ds)"

definition eight_groups :: "nat list \<Rightarrow> bool" where
  "eight_groups gs = (length gs = 8 \<and> list_all (\<lambda>g. g \<le> 65535) gs)"

fun ip_in_range :: "ip_addr \<Rightarrow> bool" where
  "ip_in_range (V4 ds) = four_octets ds"
| "ip_in_range (V6 gs) = eight_groups gs"

lemma read_ipv4_Some: "read_ipv4 s = Some (ds, r) \<Longrightarrow> four_octets ds"
  using read_octets_Some [of 0 4 s ds r] by (auto simp: read_ipv4_def four_octets_def)

text \<open>At most as many groups as there is room for; an IPv4 tail takes the room of two.\<close>

lemma read_groups_bound:
  "read_groups i n s = (gs, v4, r) \<Longrightarrow> length gs \<le> n \<and> list_all (\<lambda>g. g \<le> 65535) gs"
proof (induction n arbitrary: i s gs v4 r)
  case (Suc n)
  let ?v = "if n > 0 then separated (CHR '':'') i read_ipv4 s else None"
  show ?case
  proof (cases "\<exists>a b c d q. ?v = Some ([a, b, c, d], q)")
    case True
    then obtain a b c d q where v: "?v = Some ([a, b, c, d], q)" by blast
    then have n: "n > 0" by (auto split: if_splits)
    with v obtain u where "read_ipv4 u = Some ([a, b, c, d], q)" using separated_Some by fastforce
    then have "four_octets [a, b, c, d]" by (rule read_ipv4_Some)
    then have "a * 256 + b \<le> 65535 \<and> c * 256 + d \<le> 65535" by (auto simp: four_octets_def)
    then show ?thesis using Suc.prems v n by auto
  next
    case False
    then have step: "read_groups i (Suc n) s =
        (case separated (CHR '':'') i (net_number 16 (Some 4) 65535 True) s of
           None \<Rightarrow> ([], False, s)
         | Some (g, r) \<Rightarrow> (case read_groups (i + 1) n r of (gs, v4, r1) \<Rightarrow> (g # gs, v4, r1)))"
      by (cases n) (auto split: option.splits list.splits prod.splits)
    show ?thesis
    proof (cases "separated (CHR '':'') i (net_number 16 (Some 4) 65535 True) s")
      case None
      then show ?thesis using Suc.prems step by simp
    next
      case (Some x)
      obtain g q where x: "x = (g, q)" by (cases x)
      obtain gs1 w r1 where rest: "read_groups (i + 1) n q = (gs1, w, r1)" by (metis prod_cases3)
      have g: "g \<le> 65535" using Some x separated_Some net_number_Some by metis
      have "length gs1 \<le> n \<and> list_all (\<lambda>g. g \<le> 65535) gs1"
        by (rule Suc.IH [OF rest])
      then show ?thesis using Suc.prems step Some x rest g by auto
    qed
  qed
qed simp

lemma read_ipv6_Some: "read_ipv6 s = Some (gs, r) \<Longrightarrow> eight_groups gs"
proof -
  assume a: "read_ipv6 s = Some (gs, r)"
  obtain f v q where f: "read_groups 0 8 s = (f, v, q)" by (metis prod_cases3)
  have fb: "length f \<le> 8" "list_all (\<lambda>g. g \<le> 65535) f" using read_groups_bound [OF f] by auto
  show ?thesis
  proof (cases "length f = 8")
    case True
    then show ?thesis using a f fb by (simp add: read_ipv6_def eight_groups_def)
  next
    case False
    then obtain q2 b u q3 where b: "read_groups 0 (7 - length f) q2 = (b, u, q3)"
        and gs: "gs = f @ replicate (8 - length f - length b) 0 @ b"
      using a f by (auto simp: read_ipv6_def split: if_splits option.splits prod.splits)
    have "length b \<le> 7 - length f" "list_all (\<lambda>g. g \<le> 65535) b" using read_groups_bound [OF b] by auto
    then show ?thesis using gs fb False by (auto simp: eight_groups_def list_all_iff)
  qed
qed

lemma read_port_Some: "read_port s = Some (p, r) \<Longrightarrow> p \<le> 65535"
  by (auto simp: read_port_def split: option.splits dest: net_number_Some)

lemma read_socket_v4_Some: "read_socket_v4 s = Some ((ip, p), r) \<Longrightarrow> ip_in_range ip \<and> p \<le> 65535"
  using read_ipv4_Some read_port_Some by (fastforce simp: read_socket_v4_def split: option.splits)

lemma read_socket_v6_Some: "read_socket_v6 s = Some ((ip, p), r) \<Longrightarrow> ip_in_range ip \<and> p \<le> 65535"
  using read_ipv6_Some read_port_Some by (fastforce simp: read_socket_v6_def split: option.splits)

text \<open>What the address parser takes has the shape of an address, and its port fits its width.\<close>

lemma parse_socket_Some:
  "parse_socket s = Some (ip, p) \<Longrightarrow> ip_in_range ip \<and> p \<le> 65535"
  by (auto simp: parse_socket_def split: option.splits if_splits list.splits
      dest: read_socket_v4_Some read_socket_v6_Some)

lemma rsplit_once_Some:
  assumes "rsplit_once c s = Some (a, b)"
  shows "s = a @ c # b \<and> c \<notin> set b"
proof -
  let ?d = "dropWhile (\<lambda>x. x \<noteq> c) (rev s)" and ?t = "takeWhile (\<lambda>x. x \<noteq> c) (rev s)"
  have c: "c \<in> set (rev s)" and a: "a = butlast (rev ?d)" and b: "b = rev ?t"
    using assms by (auto simp: rsplit_once_def split: if_splits)
  have d: "?d \<noteq> []" "hd ?d = c" using c hd_dropWhile [of "\<lambda>x. x \<noteq> c" "rev s"] by (auto simp: dropWhile_eq_Nil_conv)
  then have "rev ?d = a @ [c]" using a by (metis append_butlast_last_id last_rev rev_is_Nil_conv)
  moreover have "s = rev ?d @ rev ?t" by (metis rev_append rev_rev_ident takeWhile_dropWhile_id)
  moreover have "c \<notin> set b" using b by (auto dest: set_takeWhileD)
  ultimately show ?thesis using b by simp
qed

text \<open>What an address that is taken is: one of the internet with its port, or a name with its port.\<close>

definition named_endpoint :: "string \<Rightarrow> string \<Rightarrow> nat \<Rightarrow> bool" where
  "named_endpoint host port p =
     (host \<noteq> [] \<and> length host \<le> 253 \<and> parse_ip host = None
      \<and> list_all valid_label (split_on (CHR ''.'') host)
      \<and> list_all is_ascii_digit port \<and> port_number port = Some p \<and> 1 \<le> p \<and> p \<le> 65535)"

text \<open>
  A registry address that is accepted is printable in one piece: at most 260 ASCII bytes with no
  white space. It is an internet address of four octets or of eight groups that is neither the
  unspecified nor a multicast address, or a name of dot-separated labels; in both cases with a port
  between 1 and 65535.
\<close>

theorem accepted_address_can_be_dialled:
  assumes "connection_new dns address peer = Ok c"
  shows "cc_registry_address c = address \<and> length address \<le> 260
    \<and> list_all (\<lambda>x. byte_of x < 128 \<and> \<not> is_ascii_whitespace x) address
    \<and> ((\<exists>ip p. parse_socket address = Some (ip, p) \<and> ip_in_range ip \<and> 1 \<le> p \<and> p \<le> 65535
           \<and> \<not> is_unspecified ip \<and> \<not> is_multicast ip)
       \<or> (\<exists>host port p. address = host @ CHR '':'' # port \<and> named_endpoint host port p))"
proof -
  have v: "valid_endpoint address" and c: "cc_registry_address c = address"
    using assms by (auto simp: connection_new_Ok)
  have shape: "length address \<le> 260" "list_all (\<lambda>x. byte_of x < 128 \<and> \<not> is_ascii_whitespace x) address"
    using v by (auto simp: valid_endpoint_def list_all_iff list_ex_iff split: if_splits)
  show ?thesis
  proof (cases "parse_socket address")
    case (Some x)
    then obtain ip p where x: "parse_socket address = Some (ip, p)" by (cases x) auto
    then have "p \<noteq> 0 \<and> \<not> is_unspecified ip \<and> \<not> is_multicast ip"
      using v by (auto simp: valid_endpoint_def split: if_splits)
    then show ?thesis using parse_socket_Some [OF x] c shape x by auto
  next
    case None
    then obtain host port where r: "rsplit_once (CHR '':'') address = Some (host, port)"
      using v by (auto simp: valid_endpoint_def split: if_splits option.splits)
    then obtain p where "named_endpoint host port p"
      using v None by (auto simp: valid_endpoint_def named_endpoint_def is_none_or_iff port_number_def Let_def
          split: if_splits)
    then show ?thesis using rsplit_once_Some [OF r] c shape by blast
  qed
qed

lemmas endpoint_eval =
  read_octets_numeral read_groups_numeral read_port_def connection_new_def valid_endpoint_def parse_socket_def read_socket_v4_def read_socket_v6_def
  read_ipv4_def separated_def net_number_def Let_def given_char_def is_digit_of_def digit_value_def
  is_ascii_digit_def is_ascii_whitespace_def byte_of_def rsplit_once_def port_number_def number_of_digits_def
  valid_machine_id_def is_ascii_alphanumeric_def is_ascii_lowercase_def is_ascii_uppercase_def
  parse_ip_def read_ipv6_def valid_label_def

text \<open>A new address of the daemon's default port, and a name.\<close>

theorem accepted_address_can_be_dialled_witness:
  "connection_new (\<lambda>_. True) ''reg.lab:7443'' ''host-a''
     = Ok \<lparr>cc_version = 1, cc_registry_address = ''reg.lab:7443'', cc_registry_peer_id = ''host-a''\<rparr>
   \<and> length ''reg.lab:7443'' \<le> 260"
proof -
  have a: "connection_new (\<lambda>_. True) ''reg.lab:7443'' ''host-a''
     = Ok \<lparr>cc_version = 1, cc_registry_address = ''reg.lab:7443'', cc_registry_peer_id = ''host-a''\<rparr>"
    by (simp add: endpoint_eval)
  from accepted_address_can_be_dialled [OF a] a show ?thesis by blast
qed

section \<open>The file\<close>

text \<open>The calls that read the file do not fail by themselves.\<close>

definition reads_work :: "settings_io \<Rightarrow> bool" where
  "reads_work io = (si_opens io \<and> si_opened io = PathGood \<and> si_reads io)"

text \<open>
  Settings that were checked and whose save succeeded are the ones the next start loads, whatever
  the file held before, provided that the encoder and the parser agree on them and that they fit the
  4096 bytes a reader takes.
\<close>

theorem saved_settings_load_again:
  assumes new: "connection_new (si_dns_name io1) address peer = Ok c"
    and save: "settings_save io identity c d = (Ok (), d1)"
    and encoded: "si_encode io c = Some bytes" "si_parse io1 bytes = Some c" "length bytes \<le> MAX_SETTINGS_BYTES"
    and reads: "reads_work io1"
  shows "settings_load io1 identity d1 = Ok (Some c)"
proof -
  have d1: "sd_directory d1 = PathGood" "sd_file d1 = PathGood" "sd_bytes d1 = bytes" "is_absolute identity"
    using save encoded(1)
    by (auto simp: settings_save_def Let_def split: if_splits option.splits path_state.splits checkpoint_write.splits)
  have "cc_version c = 1" "connection_new (si_dns_name io1) (cc_registry_address c) (cc_registry_peer_id c) = Ok c"
    using new by (auto simp: connection_new_Ok)
  then show ?thesis using d1 encoded reads by (simp add: settings_load_def reads_work_def)
qed

text \<open>
  A save that fails leaves the file as it was, unless the failure came after the replacement: then
  the new bytes are there and the caller has to look.
\<close>

lemma failed_save:
  "settings_save io identity c d = (Err e, d1) \<Longrightarrow>
     sd_bytes d1 = sd_bytes d \<and> sd_file d1 = sd_file d
     \<or> e = CeUnavailable \<and> si_write io = CheckpointUnsynced \<and> si_encode io c = Some (sd_bytes d1)"
  by (auto simp: settings_save_def Let_def split: if_splits option.splits path_state.splits checkpoint_write.splits)

section \<open>The daemon and the file\<close>

text \<open>The daemon works with the registry the file names, or with none.\<close>

definition follows_the_file ::
    "remote_execution_config option \<Rightarrow> connection_error + connection_config option \<Rightarrow> bool" where
  "follows_the_file rx loaded =
     is_none_or (\<lambda>r. \<exists>c. loaded = Ok (Some c)
        \<and> rx_registry_address r = cc_registry_address c \<and> rx_registry_peer_id r = cc_registry_peer_id c) rx"

text \<open>
  C39. A connection change never leaves the daemon dialling a registry that its settings file does not
  name. However the write ends (refused, failed before or after the replacement, or not readable
  afterwards), the daemon that followed the file before follows the file that is there after: it has
  the new registry, keeps the old one, or has none and warns.
\<close>

theorem connection_change_follows_the_file:
  assumes before: "follows_the_file (dm_remote_execution s) (settings_load io1 identity d)"
    and w: "observed_write io1 io2 io3 identity target d = (w, d1)"
    and s1: "s1 = reconcile_connection_write target identity w s"
  shows "follows_the_file (dm_remote_execution s1) (settings_load io3 identity d1)
    \<and> (dm_remote_execution s1 = None
       \<longrightarrow> s1 = s \<or> INVALID_CONNECTION \<in> set (dsn_warnings (dm_snapshot s1)))"
proof -
  have cw: "cw_before w = settings_load io1 identity d" "cw_after w = settings_load io3 identity d1"
    using w by (auto simp: observed_write_def split: prod.splits)
  consider (activated) "observed_target w target" "is_ok (cw_saved w) \<or> cw_after w \<noteq> cw_before w"
    | (unchanged) "\<not> (observed_target w target \<and> (is_ok (cw_saved w) \<or> cw_after w \<noteq> cw_before w))"
        "cw_after w = cw_before w" "s1 = s"
    | (unknown) "dm_remote_execution s1 = None" "INVALID_CONNECTION \<in> set (dsn_warnings (dm_snapshot s1))"
    using s1 by (auto simp: reconcile_connection_write_def Let_def add_warning_def split: if_splits)
  then show ?thesis
  proof cases
    case activated
    then have "dm_remote_execution s1 = Some \<lparr>rx_registry_address = cc_registry_address target,
        rx_registry_peer_id = cc_registry_peer_id target, rx_identity_path = identity,
        rx_client_id = dsn_public_identity (dm_snapshot s)\<rparr>"
      using s1 by (auto simp: reconcile_connection_write_def enable_remote_execution_def Let_def)
    then show ?thesis using activated(1) cw by (simp add: follows_the_file_def is_none_or_iff observed_target_def)
  next
    case unchanged
    then show ?thesis using before cw by simp
  next
    case unknown
    then show ?thesis by (simp add: follows_the_file_def is_none_or_iff)
  qed
qed


lemma saved_settings_load_again_witness:
  "\<exists>io c d1. connection_new (si_dns_name io) ''10.0.0.1:7443'' ''host-a'' = Ok c
     \<and> settings_save io ''/identity'' c \<lparr>sd_directory = PathMissing, sd_file = PathMissing, sd_bytes = []\<rparr> = (Ok (), d1)
     \<and> settings_load io ''/identity'' d1 = Ok (Some c)"
proof -
  let ?c = "\<lparr>cc_version = 1, cc_registry_address = ''10.0.0.1:7443'', cc_registry_peer_id = ''host-a''\<rparr>"
  let ?io = "\<lparr>si_parse = (\<lambda>_. Some ?c), si_encode = (\<lambda>_. Some ''{}''), si_dns_name = (\<lambda>_. True), si_opens = True,
      si_opened = PathGood, si_reads = True, si_creates = Some PathGood, si_write = CheckpointWritten\<rparr>"
  let ?d = "\<lparr>sd_directory = PathMissing, sd_file = PathMissing, sd_bytes = []\<rparr>"
  have new: "connection_new (si_dns_name ?io) ''10.0.0.1:7443'' ''host-a'' = Ok ?c"
    by (simp add: endpoint_eval)
  have save: "settings_save ?io ''/identity'' ?c ?d
      = (Ok (), \<lparr>sd_directory = PathGood, sd_file = PathGood, sd_bytes = ''{}''\<rparr>)"
    by (simp add: settings_save_def is_absolute_def)
  show ?thesis
    using saved_settings_load_again [OF new save, of "''{}''"] new save
    by (intro exI conjI) (auto simp: reads_work_def MAX_SETTINGS_BYTES_def)
qed

text \<open>A save that failed after the replacement: the daemon takes the new registry, which is what the file names.\<close>

lemma connection_change_follows_the_file_witness:
  "\<exists>io io1 c d1 w s s1. settings_load io1 ''/identity'' d1 = Ok (Some c)
     \<and> observed_write io io io1 ''/identity'' c \<lparr>sd_directory = PathGood, sd_file = PathMissing, sd_bytes = []\<rparr> = (w, d1)
     \<and> cw_saved w = Err CeUnavailable
     \<and> s1 = reconcile_connection_write c ''/identity'' w s \<and> dm_remote_execution s = None
     \<and> follows_the_file (dm_remote_execution s1) (Ok (Some c)) \<and> dm_remote_execution s1 \<noteq> None"
proof -
  let ?c = "\<lparr>cc_version = 1, cc_registry_address = ''10.0.0.1:7443'', cc_registry_peer_id = ''host-a''\<rparr>"
  let ?io = "\<lparr>si_parse = (\<lambda>_. Some ?c), si_encode = (\<lambda>_. Some ''{}''), si_dns_name = (\<lambda>_. True), si_opens = True,
      si_opened = PathGood, si_reads = True, si_creates = None, si_write = CheckpointUnsynced\<rparr>"
  let ?d = "\<lparr>sd_directory = PathGood, sd_file = PathMissing, sd_bytes = []\<rparr>"
  let ?d1 = "\<lparr>sd_directory = PathGood, sd_file = PathGood, sd_bytes = ''{}''\<rparr>"
  let ?w = "\<lparr>cw_before = Ok None, cw_saved = Err CeUnavailable, cw_after = Ok (Some ?c)\<rparr>"
  have new: "connection_new (\<lambda>_. True) ''10.0.0.1:7443'' ''host-a'' = Ok ?c"
    by (simp add: endpoint_eval)
  then have after: "settings_load ?io ''/identity'' ?d1 = Ok (Some ?c)"
    by (simp add: settings_load_def is_absolute_def MAX_SETTINGS_BYTES_def)
  have w: "observed_write ?io ?io ?io ''/identity'' ?c ?d = (?w, ?d1)"
    using after by (simp add: observed_write_def settings_save_def settings_load_def is_absolute_def)
  let ?s = "daemon_new \<lparr>dsn_public_identity = ''mac'', dsn_daemon_version = ''1'', dsn_os = ''macos'',
      dsn_architecture = ''arm64'', dsn_role = RoleAgent, dsn_endpoint = ''sock'',
      dsn_connection = ConnDegraded, dsn_local_protocol = CURRENT_VERSION,
      dsn_remote_protocol = ''1.0'', dsn_warnings = [], dsn_remote_access_paused = False,
      dsn_autostart = False, dsn_log_location = [], dsn_features = []\<rparr> []"
  let ?s1 = "reconcile_connection_write ?c ''/identity'' ?w ?s"
  have none: "dm_remote_execution ?s = None" by (simp add: daemon_new_def)
  have some: "dm_remote_execution ?s1 \<noteq> None"
    by (simp add: reconcile_connection_write_def observed_target_def enable_remote_execution_def Let_def)
  have "follows_the_file (dm_remote_execution ?s1) (Ok (Some ?c))"
    using connection_change_follows_the_file [OF _ w refl, of ?s] none after
    by (simp add: follows_the_file_def)
  moreover have "cw_saved ?w = Err CeUnavailable" by simp
  ultimately show ?thesis using after w none some by blast
qed

end
