(* ===== verification/ManagedPolicy.thy ===== *)
theory ManagedPolicy
  imports Policy Transport "HOL-Library.Word" "HOL-Library.Multiset"
begin

unbundle bit_operations_syntax

text \<open>
  The managed policy of an administrator (\<open>dashboard/managed_policy.rs\<close>): who may write the two files
  it comes from, on Unix and on Windows, the signers the trust file names, the signature over the
  canonical rules, and the policy engine the service starts with. Metadata and access control lists are
  what the operating system reports; JSON, SHA-256 and signatures are arguments.
\<close>

section \<open>Access control\<close>

abbreviation has_bit :: "32 word \<Rightarrow> nat \<Rightarrow> bool" where "has_bit \<equiv> semiring_bits_class.bit"

text \<open>An entry of an access control list: its type, the rights it is about and the account, if its
  identifier has a text. \<open>None\<close> in a list is an entry that could not be read.\<close>

record acl_entry =
  ac_type :: "8 word"
  ac_mask :: "32 word"
  ac_sid :: "string option"

definition is_allow_ace_type :: "8 word \<Rightarrow> bool" where
  "is_allow_ace_type t = (t \<in> {0, 4, 5, 9, 11})"

definition WRITE_RIGHTS :: "32 word" where
  "WRITE_RIGHTS = 0x40000000 OR 0x10000000 OR 0x00010000 OR 0x00040000 OR 0x00080000
     OR 0x00000002 OR 0x00000004 OR 0x00000100"

definition has_policy_write_rights :: "32 word \<Rightarrow> bool" where
  "has_policy_write_rights m = (m AND WRITE_RIGHTS \<noteq> 0)"

definition lowercase :: "string \<Rightarrow> string" where
  "lowercase s = map to_ascii_lowercase s"

definition acl_writer_allowed :: "string \<Rightarrow> string list \<Rightarrow> bool" where
  "acl_writer_allowed sid allowed = (lowercase sid \<in> set allowed)"

definition acl_owner_allowed :: "string \<Rightarrow> string \<Rightarrow> string list \<Rightarrow> bool" where
  "acl_owner_allowed owner current configured = (owner = current \<or> owner \<in> set configured)"

fun acl_entries_restrictive :: "string list \<Rightarrow> acl_entry option list \<Rightarrow> bool" where
  "acl_entries_restrictive allowed [] = True"
| "acl_entries_restrictive allowed (None # es) = False"
| "acl_entries_restrictive allowed (Some e # es) =
     (if is_allow_ace_type (ac_type e) \<and> has_policy_write_rights (ac_mask e)
      then if ac_type e \<noteq> 0 then False
           else (case ac_sid e of
                   None \<Rightarrow> False
                 | Some sid \<Rightarrow>
                     if \<not> acl_writer_allowed sid allowed then False else acl_entries_restrictive allowed es)
      else acl_entries_restrictive allowed es)"

definition LOCAL_SYSTEM :: string where "LOCAL_SYSTEM = ''s-1-5-18''"

text \<open>\<open>owner\<close>: the text of the owner's identifier, or \<open>None\<close> when it has none; \<open>dacl\<close> is \<open>None\<close> for the
  null list, which gives everybody every right.\<close>

definition descriptor_restrictive ::
    "string option \<Rightarrow> acl_entry option list option \<Rightarrow> string option \<Rightarrow> string list \<Rightarrow> bool" where
  "descriptor_restrictive owner dacl current_user configured =
     (let owner_sid = (case owner of None \<Rightarrow> [] | Some t \<Rightarrow> lowercase t) in
      case current_user of
        None \<Rightarrow> False
      | Some current \<Rightarrow>
          if \<not> acl_owner_allowed owner_sid current configured then False
          else (case dacl of
                  None \<Rightarrow> False
                | Some es \<Rightarrow> acl_entries_restrictive (LOCAL_SYSTEM # current # configured) es))"

datatype file_security =
    UnixSecurity nat "32 word"
  | WindowsSecurity "string option" "acl_entry option list option"
  | UnknownSecurity

text \<open>A file as \<open>symlink_metadata\<close> and \<open>read\<close> report it; \<open>gf_bytes\<close> is \<open>None\<close> when reading fails.\<close>

record guarded_file =
  gf_symlink :: bool
  gf_regular :: bool
  gf_security :: file_security
  gf_bytes :: "string option"

datatype managed_error =
    InsecureOwnerOrPermissions | InvalidBundle | InvalidSignature | NonManagedRule | SignerNotAuthorized

text \<open>The account the process runs under: its number, or the text of its identifier.\<close>

record process_identity =
  pi_euid :: nat
  pi_sid :: "string option"

definition security_restrictive :: "process_identity \<Rightarrow> string list \<Rightarrow> file_security \<Rightarrow> bool" where
  "security_restrictive me sids sec =
     (case sec of
        UnixSecurity uid mode \<Rightarrow> uid = pi_euid me \<and> mode AND 0x3F = 0
      | WindowsSecurity owner dacl \<Rightarrow> descriptor_restrictive owner dacl (pi_sid me) sids
      | UnknownSecurity \<Rightarrow> False)"

definition ensure_restrictive_file ::
    "process_identity \<Rightarrow> string list \<Rightarrow> guarded_file option \<Rightarrow> managed_error + guarded_file" where
  "ensure_restrictive_file me sids f =
     (case f of
        None \<Rightarrow> Err InsecureOwnerOrPermissions
      | Some g \<Rightarrow>
          if gf_symlink g \<or> \<not> gf_regular g \<or> \<not> security_restrictive me sids (gf_security g)
          then Err InsecureOwnerOrPermissions else Ok g)"

section \<open>Trust and bundle files\<close>

record trust_entry =
  te_signer_id :: string
  te_certificate :: string
  te_role :: string
  te_revoked :: bool

record policy_trust =
  pa_signers :: "(string, string) hash_map"
  pa_sids :: "string list"

record managed_file =
  mp_signer_id :: string
  mp_rules :: "policy_rule list"
  mp_signature :: string

record managed_env =
  me_process :: process_identity
  me_parse_trust :: "string \<Rightarrow> trust_entry list option"
  me_parse_bundle :: "string \<Rightarrow> managed_file option"
  me_encode_rules :: "policy_rule list \<Rightarrow> string option"
  me_sha256 :: "string \<Rightarrow> string"
  me_crypto :: crypto

fun trusted_signers :: "trust_entry list \<Rightarrow> (string, string) hash_map \<Rightarrow> managed_error + (string, string) hash_map" where
  "trusted_signers [] m = Ok m"
| "trusted_signers (e # es) m =
     (if te_role e \<noteq> ''policy_signer'' \<or> te_revoked e \<or> te_signer_id e = [] then trusted_signers es m
      else if hm_get m (te_signer_id e) \<noteq> None then Err InvalidBundle
      else trusted_signers es (hm_insert (te_signer_id e) (te_certificate e) m))"

definition trust_load :: "managed_env \<Rightarrow> string list \<Rightarrow> guarded_file option \<Rightarrow> managed_error + policy_trust" where
  "trust_load env admin_sids f =
     (let sids = map lowercase admin_sids in
      and_then (ensure_restrictive_file (me_process env) sids f)
        (\<lambda>g. case Option.bind (gf_bytes g) (me_parse_trust env) of
               None \<Rightarrow> Err InvalidBundle
             | Some es \<Rightarrow>
                 and_then (trusted_signers es []) (\<lambda>m. Ok \<lparr>pa_signers = m, pa_sids = sids\<rparr>)))"

definition canonical_rules :: "policy_rule list \<Rightarrow> policy_rule list" where
  "canonical_rules rules = map (\<lambda>r. r\<lparr>pr_resources := canonical_resources (pr_resources r)\<rparr>) (sort_key pr_id rules)"

definition canonical_rules_digest :: "managed_env \<Rightarrow> policy_rule list \<Rightarrow> managed_error + string" where
  "canonical_rules_digest env rules =
     (case me_encode_rules env (canonical_rules rules) of
        None \<Rightarrow> Err InvalidBundle | Some bytes \<Rightarrow> Ok (me_sha256 env bytes))"

definition managed_load ::
    "managed_env \<Rightarrow> policy_trust \<Rightarrow> guarded_file option \<Rightarrow> managed_error + policy_rule list" where
  "managed_load env pa f =
     and_then (ensure_restrictive_file (me_process env) (pa_sids pa) f)
       (\<lambda>g. case Option.bind (gf_bytes g) (me_parse_bundle env) of
              None \<Rightarrow> Err InvalidBundle
            | Some b \<Rightarrow>
                if list_ex (\<lambda>r. pr_origin r \<noteq> Managed) (mp_rules b) then Err NonManagedRule
                else and_then (canonical_rules_digest env (mp_rules b))
                  (\<lambda>digest. case hm_get (pa_signers pa) (mp_signer_id b) of
                     None \<Rightarrow> Err SignerNotAuthorized
                   | Some certificate \<Rightarrow>
                       (case verify_certificate_signature (me_crypto env) (mp_signer_id b) certificate digest
                               (mp_signature b) of
                          Inl _ \<Rightarrow> Err InvalidSignature
                        | Inr _ \<Rightarrow> Ok (mp_rules b))))"

text \<open>The engine the service starts with; an error ends the start. Without both files there are no
  managed rules.\<close>

datatype start_error = BadTrustStore managed_error | BadPolicyStore managed_error | BadPolicyRules policy_configuration_error

definition start_engine ::
    "managed_env \<Rightarrow> string list \<Rightarrow> (guarded_file option \<times> guarded_file option) option \<Rightarrow> start_error + policy_engine" where
  "start_engine env admin_sids files =
     (case files of
        None \<Rightarrow> Ok new_engine
      | Some (policy_file, trust_file) \<Rightarrow>
     (case trust_load env admin_sids trust_file of
        Inl e \<Rightarrow> Err (BadTrustStore e)
      | Inr pa \<Rightarrow>
     (case managed_load env pa policy_file of
        Inl e \<Rightarrow> Err (BadPolicyStore e)
      | Inr rules \<Rightarrow>
     (case add_verified_managed_rules rules new_engine of
        (Inl e, _) \<Rightarrow> Err (BadPolicyRules e)
      | (Inr _, engine) \<Rightarrow> Ok engine))))"

section \<open>Who may write\<close>

text \<open>The rights that change a file, by their bits: all, execute-or-write as generic rights, delete,
  change of the list or the owner, writing, appending and attributes.\<close>

definition write_bits :: "nat list" where "write_bits = [30, 28, 16, 18, 19, 1, 2, 8]"

lemma WRITE_RIGHTS_bit: "has_bit WRITE_RIGHTS n \<longleftrightarrow> n \<in> set write_bits"
proof -
  have rights: "WRITE_RIGHTS = 2 ^ 30 OR 2 ^ 28 OR 2 ^ 16 OR 2 ^ 18 OR 2 ^ 19 OR 2 ^ 1 OR 2 ^ 2 OR 2 ^ 8"
    by (simp add: WRITE_RIGHTS_def)
  have exp: "has_bit (2 ^ k) n \<longleftrightarrow> n = k" if "k < 32" for k
    using that bit_exp_iff [of k n, where ?'a = "32 word"] by (auto simp: possible_bit_word)
  have "has_bit WRITE_RIGHTS n \<longleftrightarrow> n = 30 \<or> n = 28 \<or> n = 16 \<or> n = 18 \<or> n = 19 \<or> n = 1 \<or> n = 2 \<or> n = 8"
    unfolding rights bit_or_iff using exp [of 1] by (simp add: exp del: power_numeral)
  then show ?thesis by (simp add: write_bits_def)
qed

lemma has_policy_write_rights_iff:
  "has_policy_write_rights m \<longleftrightarrow> (\<exists>n \<in> set write_bits. has_bit m n)"
proof -
  have "has_policy_write_rights m \<longleftrightarrow> (\<exists>n. has_bit (m AND WRITE_RIGHTS) n)"
    unfolding has_policy_write_rights_def by (metis bit_eq_iff bit_0_eq bot_apply bot_bool_def)
  then show ?thesis by (auto simp: bit_and_iff WRITE_RIGHTS_bit)
qed

definition harmless_entry :: "string list \<Rightarrow> acl_entry \<Rightarrow> bool" where
  "harmless_entry allowed e =
     (\<not> is_allow_ace_type (ac_type e) \<or> (\<forall>n \<in> set write_bits. \<not> has_bit (ac_mask e) n)
      \<or> ac_type e = 0 \<and> is_some_and (\<lambda>sid. lowercase sid \<in> set allowed) (ac_sid e))"

lemma acl_entries_restrictive_iff:
  "acl_entries_restrictive allowed es \<longleftrightarrow> list_all (is_some_and (harmless_entry allowed)) es"
  by (induction allowed es rule: acl_entries_restrictive.induct)
    (auto simp: harmless_entry_def has_policy_write_rights_iff acl_writer_allowed_def split: option.splits)


text \<open>
  On Windows a policy file passes exactly when the process knows its own account, the owner is that
  account or a configured one, there is an access control list, every entry of it can be read, and each
  entry that grants a right to change the file, by any of the eight bits, is a plain one for that
  account, a configured one or the local system.
\<close>

theorem restrictive_list_admits_no_foreign_writer:
  "descriptor_restrictive owner dacl current configured \<longleftrightarrow>
     (\<exists>user entries. current = Some user \<and> dacl = Some entries
        \<and> (case owner of None \<Rightarrow> [] | Some t \<Rightarrow> lowercase t) \<in> {user} \<union> set configured
        \<and> list_all (is_some_and (harmless_entry (LOCAL_SYSTEM # user # configured))) entries)"
  by (auto simp: descriptor_restrictive_def Let_def acl_owner_allowed_def acl_entries_restrictive_iff
      split: option.splits)

section \<open>Signed bundles\<close>

lemma trusted_signers_Ok:
  assumes "trusted_signers es m = Ok m1" and "hm_get m1 i = Some c"
  shows "hm_get m i = Some c
    \<or> (\<exists>e \<in> set es. te_signer_id e = i \<and> te_certificate e = c \<and> te_role e = ''policy_signer''
         \<and> \<not> te_revoked e \<and> i \<noteq> [])"
  using assms by (induction es m rule: trusted_signers.induct) (fastforce split: if_splits)+

text \<open>A signer with two entries in force ends the load; so an identifier has one certificate.\<close>

lemma trusted_signers_unique:
  assumes "trusted_signers es m = Ok m1" and "hm_get m i \<noteq> None"
  shows "hm_get m1 i = hm_get m i
    \<and> list_all (\<lambda>e. te_signer_id e = i \<longrightarrow> te_role e \<noteq> ''policy_signer'' \<or> te_revoked e \<or> i = []) es"
  using assms by (induction es m rule: trusted_signers.induct) (auto split: if_splits)

text \<open>What stands behind the rules of a bundle: the files, the entry of the signer and the signature.\<close>

definition bundle_signed_by :: "managed_env \<Rightarrow> policy_rule list \<Rightarrow> trust_entry \<Rightarrow> bool" where
  "bundle_signed_by env rules e =
     (te_role e = ''policy_signer'' \<and> \<not> te_revoked e
      \<and> cy_dns_name (me_crypto env) (te_certificate e) = Some (te_signer_id e)
      \<and> is_some_and (\<lambda>bytes. \<exists>s. cy_verify (me_crypto env) (te_certificate e) (me_sha256 env bytes) s)
          (me_encode_rules env (canonical_rules rules)))"

definition safe_file :: "managed_env \<Rightarrow> string list \<Rightarrow> guarded_file option \<Rightarrow> bool" where
  "safe_file env sids f =
     is_some_and (\<lambda>g. \<not> gf_symlink g \<and> gf_regular g
       \<and> security_restrictive (me_process env) (map lowercase sids) (gf_security g)) f"

lemma trust_load_Ok:
  assumes "trust_load env sids f = Ok pa"
  shows "safe_file env sids f \<and> pa_sids pa = map lowercase sids
    \<and> (\<exists>g bytes es. f = Some g \<and> gf_bytes g = Some bytes \<and> me_parse_trust env bytes = Some es
         \<and> trusted_signers es [] = Ok (pa_signers pa))"
  using assms
  by (auto simp: trust_load_def Let_def safe_file_def ensure_restrictive_file_def bind_eq_Some_conv
      split: option.splits if_splits sum.splits)

lemma verified_Ok:
  "verify_certificate_signature cy i c m s = Ok u \<Longrightarrow> cy_dns_name cy c = Some i \<and> cy_verify cy c m s"
  by (auto simp: verify_certificate_signature_def certificate_dns_name_def ensure_def split: option.splits if_splits)

lemma managed_load_Ok:
  assumes "managed_load env pa f = Ok rules" and sids: "pa_sids pa = map lowercase sids"
  shows "safe_file env sids f \<and> list_all (\<lambda>r. pr_origin r = Managed) rules
    \<and> (\<exists>i c bytes s. hm_get (pa_signers pa) i = Some c \<and> cy_dns_name (me_crypto env) c = Some i
         \<and> me_encode_rules env (canonical_rules rules) = Some bytes
         \<and> cy_verify (me_crypto env) c (me_sha256 env bytes) s)"
proof -
  obtain g where g: "ensure_restrictive_file (me_process env) (pa_sids pa) f = Ok g"
    using assms(1) by (cases "ensure_restrictive_file (me_process env) (pa_sids pa) f") (simp_all add: managed_load_def)
  then obtain b where b: "Option.bind (gf_bytes g) (me_parse_bundle env) = Some b"
    using assms(1) by (cases "Option.bind (gf_bytes g) (me_parse_bundle env)") (simp_all add: managed_load_def)
  have origin: "list_all (\<lambda>r. pr_origin r = Managed) (mp_rules b)"
    using assms(1) g b by (auto simp: managed_load_def list_all_iff list_ex_iff split: if_splits)
  obtain bytes where bytes: "me_encode_rules env (canonical_rules (mp_rules b)) = Some bytes"
    using assms(1) g b
    by (cases "me_encode_rules env (canonical_rules (mp_rules b))")
      (auto simp: managed_load_def canonical_rules_digest_def split: if_splits)
  obtain c where c: "hm_get (pa_signers pa) (mp_signer_id b) = Some c"
    using assms(1) g b bytes
    by (cases "hm_get (pa_signers pa) (mp_signer_id b)")
      (auto simp: managed_load_def canonical_rules_digest_def split: if_splits)
  obtain u where "verify_certificate_signature (me_crypto env) (mp_signer_id b) c (me_sha256 env bytes) (mp_signature b) = Ok u"
      and rules: "rules = mp_rules b"
    using assms(1) g b bytes c
    by (auto simp: managed_load_def canonical_rules_digest_def split: if_splits sum.splits)
  moreover have "safe_file env sids f"
    using g sids by (auto simp: safe_file_def ensure_restrictive_file_def split: option.splits if_splits)
  ultimately show ?thesis using origin bytes c verified_Ok by blast
qed

lemma add_to_new:
  "add_verified_managed_rules rules new_engine = (Ok u, e) \<Longrightarrow> pg_rules e = rules \<and> pg_approvals e = []"
  by (auto simp: add_verified_managed_rules_def new_engine_def split: sum.splits if_splits)

text \<open>
  C40. A service that is given the two files and starts has rules a signer stands behind: both files
  are regular files whose owner and access rights pass the check, the trust file has an entry with the
  role of a policy signer that is not revoked, the certificate of that entry names its signer, and it
  verifies a signature over the digest of the canonical form of exactly the rules the engine holds.
\<close>

theorem managed_rules_are_signed:
  assumes "start_engine env sids (Some (policy_file, trust_file)) = Ok e"
  shows "safe_file env sids policy_file \<and> safe_file env sids trust_file
    \<and> list_all (\<lambda>r. pr_origin r = Managed) (pg_rules e) \<and> pg_approvals e = []
    \<and> (\<exists>g bytes es t. trust_file = Some g \<and> gf_bytes g = Some bytes \<and> me_parse_trust env bytes = Some es
         \<and> t \<in> set es \<and> bundle_signed_by env (pg_rules e) t)"
proof -
  obtain pa rules u where trust: "trust_load env sids trust_file = Ok pa"
    and load: "managed_load env pa policy_file = Ok rules"
    and add: "add_verified_managed_rules rules new_engine = (Ok u, e)"
    using assms by (auto simp: start_engine_def split: sum.splits prod.splits)
  have e: "pg_rules e = rules" "pg_approvals e = []" using add_to_new [OF add] by auto
  obtain g bytes es where on_disk: "trust_file = Some g" "gf_bytes g = Some bytes" "me_parse_trust env bytes = Some es"
    and signers: "trusted_signers es [] = Ok (pa_signers pa)"
    using trust_load_Ok [OF trust] by auto
  note loaded = managed_load_Ok [OF load conjunct1 [OF conjunct2 [OF trust_load_Ok [OF trust]]]]
  then obtain i c b s where signed: "hm_get (pa_signers pa) i = Some c" "cy_dns_name (me_crypto env) c = Some i"
    "me_encode_rules env (canonical_rules rules) = Some b" "cy_verify (me_crypto env) c (me_sha256 env b) s"
    by blast
  obtain t where t: "t \<in> set es" "te_signer_id t = i" "te_certificate t = c" "te_role t = ''policy_signer''"
    "\<not> te_revoked t"
    using trusted_signers_Ok [OF signers signed(1)] by auto
  then have "bundle_signed_by env rules t" using signed by (auto simp: bundle_signed_by_def)
  then show ?thesis using e on_disk t loaded conjunct1 [OF trust_load_Ok [OF trust]] by auto
qed

section \<open>The canonical form\<close>

lemma sort_key_perm:
  assumes "mset xs = mset ys" and "distinct (map f xs)"
  shows "sort_key f xs = sort_key f ys"
proof -
  have "mset (map f xs) = mset (map f ys)" using assms(1) by simp
  then have ys: "distinct (map f ys)" using assms(2) by (metis mset_eq_imp_distinct_iff)
  have set_eq: "set xs = set ys" using assms(1) by (rule mset_eq_setD)
  have "mset (map f (sort_key f zs)) = mset (map f zs)" for zs by simp
  then have sorted_distinct: "distinct (map f (sort_key f zs))" if "distinct (map f zs)" for zs
    using that by (metis mset_eq_imp_distinct_iff)
  show ?thesis
    by (rule map_sorted_distinct_set_unique [where f = f])
      (use assms(2) ys set_eq sorted_distinct in \<open>auto simp: distinct_map\<close>)
qed

text \<open>Rules that differ in the order and the repetitions of their resources only.\<close>

definition plain_resources :: "policy_rule \<Rightarrow> policy_rule" where
  "plain_resources r = r\<lparr>pr_resources := canonical_resources (pr_resources r)\<rparr>"

lemma plain_resources_id [simp]: "pr_id (plain_resources r) = pr_id r"
  by (simp add: plain_resources_def)

lemma sort_plain: "sort_key pr_id (map plain_resources rules) = map plain_resources (sort_key pr_id rules)"
proof -
  have "insort_key pr_id (plain_resources r) (map plain_resources rs) = map plain_resources (insort_key pr_id r rs)" for r rs
    by (induction rs) auto
  then show ?thesis by (induction rules) simp_all
qed

lemma canonical_rules_plain: "canonical_rules rules = sort_key pr_id (map plain_resources rules)"
  by (simp add: sort_plain) (simp add: canonical_rules_def plain_resources_def [abs_def])

text \<open>
  The signed digest does not depend on how a bundle is written down: with distinct rule identifiers,
  the order of the rules and the order and repetitions of the resources of a rule do not change it.
\<close>

theorem canonical_digest_ignores_order:
  assumes "distinct (map pr_id rules)" and "mset (map plain_resources rules) = mset (map plain_resources rules1)"
  shows "canonical_rules_digest env rules = canonical_rules_digest env rules1"
proof -
  have "distinct (map pr_id (map plain_resources rules))"
    using assms(1) by (simp add: comp_def)
  from sort_key_perm [OF assms(2) this] show ?thesis
    by (simp add: canonical_rules_digest_def canonical_rules_plain)
qed

section \<open>Revocation\<close>

text \<open>
  A revoked entry is skipped, not remembered: a trust file that lists a signer in force and revokes the
  same signer, with the same certificate, after or before it, still trusts that signer.
\<close>

theorem revoked_entry_cancels_nothing:
  assumes "te_role e = ''policy_signer''" and "\<not> te_revoked e" and "te_signer_id e \<noteq> []"
  shows "trusted_signers [e, e\<lparr>te_revoked := True\<rparr>] [] = Ok [(te_signer_id e, te_certificate e)]
    \<and> trusted_signers [e\<lparr>te_revoked := True\<rparr>, e] [] = Ok [(te_signer_id e, te_certificate e)]"
  using assms by (simp add: hm_insert_fresh)

section \<open>An administrator's files\<close>

definition admin_rule :: policy_rule where
  "admin_rule = (exact_rule sample_request Deny 1 ''org-1'')\<lparr>pr_origin := Managed\<rparr>"

definition admin_entry :: trust_entry where
  "admin_entry = \<lparr>te_signer_id = ''org'', te_certificate = ''cert'', te_role = ''policy_signer'', te_revoked = False\<rparr>"

text \<open>A machine with one administrator, whose signature of a digest is the digest itself.\<close>

definition admin_env :: managed_env where
  "admin_env =
     \<lparr>me_process = \<lparr>pi_euid = 501, pi_sid = None\<rparr>, me_parse_trust = (\<lambda>_. Some [admin_entry]),
      me_parse_bundle = (\<lambda>_. Some \<lparr>mp_signer_id = ''org'', mp_rules = [admin_rule], mp_signature = ''d''\<rparr>),
      me_encode_rules = (\<lambda>_. Some ''rules''), me_sha256 = (\<lambda>_. ''d''),
      me_crypto = \<lparr>cy_dns_name = (\<lambda>_. Some ''org''), cy_verify = (\<lambda>c m s. m = s), cy_sign = (\<lambda>_ _. None)\<rparr>\<rparr>"

definition private_file :: guarded_file where
  "private_file = \<lparr>gf_symlink = False, gf_regular = True, gf_security = UnixSecurity 501 0x180, gf_bytes = Some ''{}''\<rparr>"

lemma admin_start:
  "start_engine admin_env [] (Some (Some private_file, Some private_file)) = Ok \<lparr>pg_rules = [admin_rule], pg_approvals = []\<rparr>"
proof -
  have guarded: "ensure_restrictive_file (me_process admin_env) [] (Some private_file) = Ok private_file"
    by (simp add: ensure_restrictive_file_def private_file_def security_restrictive_def admin_env_def)
  have trust: "trust_load admin_env [] (Some private_file) = Ok \<lparr>pa_signers = [(''org'', ''cert'')], pa_sids = []\<rparr>"
    using guarded by (simp add: trust_load_def) (simp add: private_file_def admin_env_def admin_entry_def hm_insert_fresh)
  have load: "managed_load admin_env \<lparr>pa_signers = [(''org'', ''cert'')], pa_sids = []\<rparr> (Some private_file) = Ok [admin_rule]"
    using guarded
    by (simp add: managed_load_def)
      (simp add: private_file_def admin_env_def admin_rule_def canonical_rules_digest_def hm_get_def
        verify_certificate_signature_def certificate_dns_name_def ensure_def)
  have "rule_validate admin_rule = Ok ()"
    using exact_rule_valid [OF sample_request_valid, of Deny 1 "''org-1''"]
    by (simp add: rule_validate_def admin_rule_def)
  then have "add_verified_managed_rules [admin_rule] new_engine = (Ok (), \<lparr>pg_rules = [admin_rule], pg_approvals = []\<rparr>)"
    by (simp add: add_verified_managed_rules_def validate_rule_set_def new_engine_def MAX_POLICY_RULES_def
        MAX_COLLECTION_ITEMS_def) (simp add: admin_rule_def)
  then show ?thesis using trust load by (simp add: start_engine_def)
qed

lemma managed_rules_are_signed_witness:
  "start_engine admin_env [] (Some (Some private_file, Some private_file)) = Ok \<lparr>pg_rules = [admin_rule], pg_approvals = []\<rparr>
   \<and> bundle_signed_by admin_env [admin_rule] admin_entry"
  using managed_rules_are_signed [OF admin_start] admin_start by (auto simp: admin_env_def private_file_def)

lemma canonical_digest_ignores_order_witness:
  "canonical_rules_digest admin_env [admin_rule, admin_rule\<lparr>pr_id := ''a''\<rparr>]
     = canonical_rules_digest admin_env [admin_rule\<lparr>pr_id := ''a''\<rparr>, admin_rule]"
  by (rule canonical_digest_ignores_order) (simp_all add: admin_rule_def exact_rule_def)

lemma revoked_entry_cancels_nothing_witness:
  "trusted_signers [admin_entry, admin_entry\<lparr>te_revoked := True\<rparr>] [] = Ok [(''org'', ''cert'')]"
  using revoked_entry_cancels_nothing [of admin_entry] by (simp add: admin_entry_def)

end
