(* ===== verification/Spec2Isabelle.thy ===== *)
theory Spec2Isabelle
  imports Prelude Paths Protocol LeaseBook Model EventLog Policy Transport ControllerSession Topology
    ArtifactStore RegistryState RegistryJobs RegistryServer RegistryFence Persistence
    AuditFrames AuditRecords AuditSample AuditStore AuditQueries AuditRetention
    AppleAgent Authorization Workspaces
    Service ServiceAudit ServiceSample
    EventStore EventBatch EventSegments EventReader
    LocalProtocol Daemon RemoteExecution DaemonFrame DaemonSafety DaemonSample
    ChunkStore Connection ManagedPolicy
begin

text \<open>
  A verification library for DeviceLane: the registry through which machines share devices and Apple
  jobs, the dashboard that shows and governs what they do, and the local daemon that runs what was
  approved. The paths below are relative to the crate, \<open>src/\<close> of the repository.

  \<^bold>\<open>The program.\<close>  Machines pair with a registry over mutually authenticated TLS, send it heartbeats with
  their devices, ask it for device leases, submit jobs and exchange artifacts. The daemon of a machine
  answers the local clients (command line, desktop) over a socket or pipe: it observes the registry's
  inventory, keeps the dashboard service (access rules, approvals, activities, audit log) and starts
  remote executions, each on a worker thread, once a person approved them.

  \<^bold>\<open>Common ground.\<close>
    \<^item> \<open>Prelude\<close>: Rust's results, options, \<open>u64\<close> arithmetic and hash maps, and the locales the components
      share: \<open>keyed_store\<close> (what a map promises; \<open>hm\<close> interprets it), \<open>invariant_machine\<close> (an invariant
      every step keeps holds after every run), \<open>budgeted_machine\<close> (the same for runs during which a
      counter does not reach its limit). \<open>Paths\<close>: UTF-8 strings, trimming, lexical paths.
    \<^item> \<open>Protocol\<close>: the wire types of \<open>lib.rs\<close> (\<open>network_processes\<close>, \<open>remote_apple_protocol\<close>), the payload a
      lease grant signs and the check of Apple request envelopes.

  \<^bold>\<open>The registry\<close>  (\<open>registry_runtime.rs\<close>, \<open>registry_runtime/lifecycle.rs\<close>).
    \<^item> \<open>LeaseBook\<close>: leases with queues, expiry, session takeover and the writer fence, and every lease
      request. \<open>ArtifactStore\<close>: registered uploads, chunk by chunk, their replays, reads and the restart.
    \<^item> \<open>RegistryState\<close>: the job table, its reconciliation with the fences, and start-up. \<open>RegistryJobs\<close>: the
      requests about jobs and agents. \<open>RegistryServer\<close>: the handler as critical sections that threads
      interleave. \<open>RegistryFence\<close>: what the handler guarantees of fences over such runs.
    \<^item> \<open>Persistence\<close>: \<open>atomic_write\<close> and \<open>load_json\<close>, each call to the file system a step that a crash can
      follow.
    \<^item> \<open>EventStore\<close>, \<open>EventBatch\<close>, \<open>EventSegments\<close>, \<open>EventReader\<close>: \<open>registry_event_store\<close>: bindings, segment
      headers, event bodies, the writer of fragments and the reader that walks them back.

  \<^bold>\<open>The dashboard\<close>  (\<open>dashboard/\<close>).
    \<^item> \<open>Model\<close>: the data of \<open>model.rs\<close> and every \<open>validate\<close>. \<open>EventLog\<close>: the bounded journal of
      \<open>event_log.rs\<close>. \<open>Policy\<close>: the rule engine and approvals of \<open>policy.rs\<close>. \<open>Topology\<close>: \<open>topology.rs\<close>, from
      inventories to hosts.
    \<^item> \<open>AuditFrames\<close>, \<open>AuditRecords\<close>, \<open>AuditStore\<close>, \<open>AuditQueries\<close>, \<open>AuditRetention\<close> (example values in
      \<open>AuditSample\<close>): \<open>audit.rs\<close>: framing and recovery of segments, redaction, appends, cursors and pages,
      deletion and retention.
    \<^item> \<open>Service\<close>: every operation of \<open>service.rs\<close>, which composes the five above; \<open>ServiceAudit\<close>: what these
      operations guarantee of the audit log; \<open>ServiceSample\<close>: example states.

  \<^bold>\<open>Identity and the daemon.\<close>
    \<^item> \<open>Transport\<close>: trust, pairing, revocation and signatures (\<open>lib.rs\<close>, \<open>secure_transport\<close>).
      \<open>ControllerSession\<close>: signed sessions, mesh approvals and the replay cache (\<open>controller_session\<close>).
    \<^item> \<open>LocalProtocol\<close>, \<open>Daemon\<close>: the frames and requests of \<open>local_ipc.rs\<close>, its state and dispatch.
      \<open>RemoteExecution\<close>: the workers as a step machine, interleaved with requests and inventory polls in
      one world. \<open>DaemonFrame\<close>, \<open>DaemonSafety\<close>: relations of the service lifted to such worlds, and the
      safety of executions; \<open>DaemonSample\<close>: the examples.
    \<^item> \<open>Connection\<close>: \<open>connection_config.rs\<close>: which registry addresses are accepted, and their file.
    \<^item> \<open>ManagedPolicy\<close>: \<open>dashboard/managed_policy.rs\<close>: the files of an administrator, who may write them (on
      Unix and Windows), the signed rules in them, and the engine \<open>bin/devicelane-service.rs\<close> starts with.
    \<^item> \<open>AppleAgent\<close> (\<open>remote_apple_protocol\<close>, \<open>remote_apple_agent\<close>), \<open>Authorization\<close> (\<open>authorization\<close>,
      \<open>device_adapter\<close>), \<open>Workspaces\<close> (\<open>workspace\<close>), \<open>ChunkStore\<close> (\<open>artifacts\<close>, \<open>sessions\<close>): the modules of
      \<open>lib.rs\<close> that an agent machine works with.

  \<^bold>\<open>Conventions.\<close>  A struct is a record with a short field prefix, an enum a datatype with the source's
  constructors (renamed where two enums share a name), a \<open>Result\<close> a sum with \<open>Err\<close> for \<open>Inl\<close> and \<open>Ok\<close> for
  \<open>Inr\<close>. A \<open>HashMap\<close> is an association list whose order stands for the unspecified order of iteration, so
  what is proved holds for every order. A \<open>u64\<close> is a natural number; where the code wraps, saturates
  or checks, the model does so explicitly. The value \<open>None\<close> of an operation whose result is an option of
  its whole outcome is a panic of the source (\<open>unwrap\<close>, \<open>expect\<close>). One reading of the clock per request is an
  argument \<open>now\<close>. Hashes, signatures, certificates, JSON encodings and randomness are arguments: records
  \<open>crypto\<close>, \<open>codec\<close>, \<open>session_codec\<close>, \<open>service_env\<close> and functions; what a theorem relies on of them is a
  hypothesis, with a witness at concrete functions. Outcomes of file operations, answers of the registry
  to a worker and the choice of who moves next are arguments or steps, so that what is proved
  holds for every failure and every interleaving of the critical sections.

  \<^bold>\<open>What the lemmas show.\<close>  Each component has an invariant that every operation keeps, and the behaviour
  of its operations on every branch. The interpretations \<open>lease_run\<close>, \<open>artifact_run\<close>, \<open>registry_run\<close>,
  \<open>durable_run\<close>, \<open>journal_run\<close>, \<open>managed_run\<close>, \<open>transport_run\<close>, \<open>revoked_run\<close>, \<open>topology_run\<close>, \<open>agent_run\<close>
  and \<open>authorization_run\<close> carry them to runs.
    \<^item> Registry: a device with a running job keeps its holder, a job handed out is fenced, an accepted job
      is remembered over restarts, an interrupted write leaves the old or the new value, and an artifact
      that is read has its digest.
    \<^item> Byte formats: \<open>byte_writer\<close> and \<open>byte_reader\<close> prove what one encoder and one decoder do with any
      sink and source (interpretations \<open>vec\<close>, \<open>fragments\<close>, \<open>bodies\<close>); the reader accepts exactly the chains the
      writer publishes.
    \<^item> Audit: a torn append is recovered, cursors (\<open>cursor_pages\<close>, interpreted as \<open>audit_pages\<close>) yield every
      match once, retention removes exactly what is expired, redaction leaks nothing. The frames of
      \<open>ServiceAudit\<close> (\<open>service_frame\<close> to \<open>call_frame\<close>) prove a relation of two service states once for all
      operations; \<open>DaemonFrame\<close> (\<open>service_law\<close>) lifts it to worlds of the daemon.
    \<^item> Daemon: \<open>worker_property\<close> carries a property of one worker over every run. What is executed was
      approved; a worker that ends gives back its lease and its entry; an activity has one worker; a
      failed audit freezes the rules; a connection change follows the file.

  \<^bold>\<open>Bounds.\<close>  Loops of the source are structural recursions, or recursions on a bound that the code has:
  32 attempts for a nonce, 4096 bytes of settings, 260 bytes of an address, frames of 512 KiB. A worker is
  a phase machine without fuel; once its deadline has passed it ends within 14 steps
  (\<open>worker_ends_after_the_deadline\<close>), whatever the registry answers.

  \<^bold>\<open>Behaviour the code does not intend\<close>  is stated as theorems too, among them: a failed durable append that
  wipes a full journal, a rule put by hand that collides with a pending approval, a lost revocation file
  that authorises revoked peers again, a deletion of audit records after which the service can not
  audit, retention that blocks the next rotation, a failed save that drops the fences of other jobs, and
  interrupted recoveries that lose every copy of a value.

  \<^bold>\<open>Not modelled.\<close>  Sockets, named pipes, TLS streams and the session the daemon keeps to the registry;
  threads other than as interleaved steps; process execution and the external Apple and Android tools
  (build, simulator, XCTest, debugging, discovery); how the operating system reports the owner and the
  access control list of a file; state paths and their migration; serde's decoding of JSON; the entry
  points of the binaries, the bootstrap of a Mac and the desktop shell, which call the library.
\<close>

end
